(* ===== verification/Prelude.thy ===== *)
theory Prelude
  imports Complex_Main "HOL-Library.Char_ord" "HOL-Library.List_Lexorder"
begin

text \<open>
  What every component shares: Python's exceptions as values, the state-and-error monad the
  operations are written in, a small Hoare logic for it, the row tables that stand for SQLite
  tables, JSON values, and the decimal rendering of integers used in identifiers.
\<close>

section \<open>Lemma collections\<close>

named_theorems op_defs \<open>definitions of the monad's combinators\<close>
named_theorems keeps_intros \<open>rules that show an operation keeps a predicate\<close>
named_theorems table_simps \<open>rewriting of row tables\<close>
named_theorems value_defs \<open>the .value tables of the enumerations\<close>

section \<open>Exceptions\<close>

text \<open>
  One constructor for each exception class the modelled code raises; the argument is the message
  the code gives it. \<open>BoundaryException\<close> is an exception of a class the model does not name,
  raised by a provider (Executor or Verifier), with its \<open>str\<close>; \<open>NamedError\<close> is one of a class that a
  single component declares, by the name of the class.
\<close>

datatype py_error =
    ValueError string
  | KeyError string
  | ValidationError string
  | IntegrityError string
  | RuntimeErr string
  | RuntimeInvariantError string
  | RecoveryError string
  | BudgetExhausted
  | AssertionError
  | ContractRevisionError string
  | BoundaryException string
  | IndexError string
  | OSErr string
  | NamedError string string

text \<open>\<open>str(exc)\<close>: the message; an exception raised with no argument has the empty one.\<close>

fun err_str :: "py_error \<Rightarrow> string" where
  "err_str (ValueError m) = m"
| "err_str (KeyError m) = m"
| "err_str (ValidationError m) = m"
| "err_str (IntegrityError m) = m"
| "err_str (RuntimeErr m) = m"
| "err_str (RuntimeInvariantError m) = m"
| "err_str (RecoveryError m) = m"
| "err_str BudgetExhausted = []"
| "err_str AssertionError = []"
| "err_str (ContractRevisionError m) = m"
| "err_str (BoundaryException m) = m"
| "err_str (IndexError m) = m"
| "err_str (OSErr m) = m"
| "err_str (NamedError c m) = m"

section \<open>Operations: state passing with exceptions\<close>

text \<open>
  An operation takes the state and returns an exception or a value, and the state it leaves.
  An exception does not undo the state: that is what a transaction is for.
\<close>

type_synonym ('s, 'a) op = "'s \<Rightarrow> (py_error + 'a) \<times> 's"

definition ret :: "'a \<Rightarrow> ('s, 'a) op" where
  [op_defs]: "ret x s = (Inr x, s)"

definition raise :: "py_error \<Rightarrow> ('s, 'a) op" where
  [op_defs]: "raise e s = (Inl e, s)"

definition bind_op :: "('s, 'a) op \<Rightarrow> ('a \<Rightarrow> ('s, 'b) op) \<Rightarrow> ('s, 'b) op" where
  [op_defs]: "bind_op m f s = (case m s of (Inl e, t) \<Rightarrow> (Inl e, t) | (Inr x, t) \<Rightarrow> f x t)"

definition seq_op :: "('s, 'a) op \<Rightarrow> ('s, 'b) op \<Rightarrow> ('s, 'b) op" where
  [op_defs]: "seq_op m n s = (case m s of (Inl e, t) \<Rightarrow> (Inl e, t) | (Inr x, t) \<Rightarrow> n t)"

definition gets :: "('s \<Rightarrow> 'a) \<Rightarrow> ('s, 'a) op" where
  [op_defs]: "gets f s = (Inr (f s), s)"

definition modify :: "('s \<Rightarrow> 's) \<Rightarrow> ('s, unit) op" where
  [op_defs]: "modify f s = (Inr (), f s)"

definition guard :: "bool \<Rightarrow> py_error \<Rightarrow> ('s, unit) op" where
  [op_defs]: "guard b e s = (if b then (Inr (), s) else (Inl e, s))"

definition lift_sum :: "py_error + 'a \<Rightarrow> ('s, 'a) op" where
  [op_defs]: "lift_sum r s = (r, s)"

text \<open>Reading: the state is left as it is; the read may raise.\<close>

definition ask :: "('s \<Rightarrow> py_error + 'a) \<Rightarrow> ('s, 'a) op" where
  [op_defs]: "ask f s = (f s, s)"

definition bind_sum :: "py_error + 'a \<Rightarrow> ('a \<Rightarrow> py_error + 'b) \<Rightarrow> py_error + 'b" where
  "bind_sum r f = (case r of Inl e \<Rightarrow> Inl e | Inr x \<Rightarrow> f x)"

lemma bind_sum_simps [simp]:
  "bind_sum (Inl e) f = Inl e"
  "bind_sum (Inr x) f = f x"
  by (simp_all add: bind_sum_def)

lemma bind_sum_Inr: "bind_sum r f = Inr y \<longleftrightarrow> (\<exists>x. r = Inr x \<and> f x = Inr y)"
  by (cases r) simp_all

text \<open>A list comprehension whose element expression may raise.\<close>

fun collect :: "('a \<Rightarrow> py_error + 'b) \<Rightarrow> 'a list \<Rightarrow> py_error + 'b list" where
  "collect f [] = Inr []"
| "collect f (x # xs) = bind_sum (f x) (\<lambda>y. bind_sum (collect f xs) (\<lambda>ys. Inr (y # ys)))"

lemma collect_Inr: "(\<And>x. x \<in> set xs \<Longrightarrow> f x = Inr (g x)) \<Longrightarrow> collect f xs = Inr (map g xs)"
  by (induction xs) simp_all

text \<open>A \<open>for\<close> loop over a list; the first exception ends it.\<close>

fun for_each :: "('a \<Rightarrow> ('s, unit) op) \<Rightarrow> 'a list \<Rightarrow> ('s, unit) op" where
  "for_each f [] = ret ()"
| "for_each f (x # xs) = seq_op (f x) (for_each f xs)"

text \<open>Running the validators of a list of parts: the first failure is the result.\<close>

fun first_error :: "(py_error + unit) list \<Rightarrow> py_error + unit" where
  "first_error [] = Inr ()"
| "first_error (Inl e # rs) = Inl e"
| "first_error (Inr u # rs) = first_error rs"

definition require :: "bool \<Rightarrow> string \<Rightarrow> py_error + unit" where
  "require b msg = (if b then Inr () else Inl (ValidationError msg))"

lemma require_simps [simp]:
  "require True msg = Inr ()"
  "require False msg = Inl (ValidationError msg)"
  "require b msg = Inr u \<longleftrightarrow> b"
  by (simp_all add: require_def)

lemma first_error_ok [simp]: "first_error rs = Inr u \<longleftrightarrow> (\<forall>r \<in> set rs. \<exists>v. r = Inr v)"
  by (induction rs rule: first_error.induct) auto

subsection \<open>Keeping a predicate\<close>

text \<open>
  \<open>keeps P m\<close>: whatever \<open>m\<close> returns, it leaves a state with \<open>P\<close> when it is started in one.
  Exceptions included, because the code's callers go on after one.
\<close>

definition keeps :: "('s \<Rightarrow> bool) \<Rightarrow> ('s, 'a) op \<Rightarrow> bool" where
  "keeps P m \<longleftrightarrow> (\<forall>s. P s \<longrightarrow> P (snd (m s)))"

lemma keepsI: "(\<And>s. P s \<Longrightarrow> P (snd (m s))) \<Longrightarrow> keeps P m"
  by (simp add: keeps_def)

lemma keepsD: "keeps P m \<Longrightarrow> P s \<Longrightarrow> P (snd (m s))"
  by (simp add: keeps_def)

lemma keepsD_eq: "keeps P m \<Longrightarrow> P s \<Longrightarrow> m s = (r, t) \<Longrightarrow> P t"
  by (force simp: keeps_def)

lemma keeps_ret [keeps_intros]: "keeps P (ret x)"
  by (simp add: keeps_def ret_def)

lemma keeps_raise [keeps_intros]: "keeps P (raise e)"
  by (simp add: keeps_def raise_def)

lemma keeps_gets [keeps_intros]: "keeps P (gets f)"
  by (simp add: keeps_def gets_def)

lemma keeps_guard [keeps_intros]: "keeps P (guard b e)"
  by (simp add: keeps_def guard_def)

lemma keeps_ask [keeps_intros]: "keeps P (ask f)"
  by (simp add: keeps_def ask_def)

lemma keeps_lift_sum [keeps_intros]: "keeps P (lift_sum r)"
  by (simp add: keeps_def lift_sum_def)

lemma keeps_bind [keeps_intros]:
  "keeps P m \<Longrightarrow> (\<And>x. keeps P (f x)) \<Longrightarrow> keeps P (bind_op m f)"
  by (fastforce simp: keeps_def bind_op_def split: prod.splits sum.splits)

lemma keeps_seq [keeps_intros]:
  "keeps P m \<Longrightarrow> keeps P n \<Longrightarrow> keeps P (seq_op m n)"
  by (fastforce simp: keeps_def seq_op_def split: prod.splits sum.splits)

lemma keeps_if [keeps_intros]:
  "(b \<Longrightarrow> keeps P m) \<Longrightarrow> (\<not> b \<Longrightarrow> keeps P n) \<Longrightarrow> keeps P (if b then m else n)"
  by simp

lemma keeps_case_option [keeps_intros]:
  "(x = None \<Longrightarrow> keeps P m) \<Longrightarrow> (\<And>y. x = Some y \<Longrightarrow> keeps P (f y))
    \<Longrightarrow> keeps P (case x of None \<Rightarrow> m | Some y \<Rightarrow> f y)"
  by (cases x) auto

lemma keeps_for_each [keeps_intros]:
  "(\<And>x. x \<in> set xs \<Longrightarrow> keeps P (f x)) \<Longrightarrow> keeps P (for_each f xs)"
  by (induction xs) (auto intro!: keeps_intros)

lemma keeps_conj [keeps_intros]:
  "keeps P m \<Longrightarrow> keeps Q m \<Longrightarrow> keeps (\<lambda>s. P s \<and> Q s) m"
  by (simp add: keeps_def)

text \<open>Inversion: what a successful operation went through.\<close>

lemma bind_op_InrE:
  assumes "bind_op m f s = (Inr y, u)"
  obtains x t where "m s = (Inr x, t)" and "f x t = (Inr y, u)"
  using assms by (auto simp: bind_op_def split: prod.splits sum.splits)

lemma seq_op_InrE:
  assumes "seq_op m n s = (Inr y, u)"
  obtains x t where "m s = (Inr x, t)" and "n t = (Inr y, u)"
  using assms by (auto simp: seq_op_def split: prod.splits sum.splits)

section \<open>Row tables\<close>

text \<open>
  A SQLite table is the list of its rows in \<open>rowid\<close> order. \<open>UPDATE ... WHERE\<close> maps over the
  rows, \<open>SELECT\<close> filters them, \<open>INSERT\<close> appends (the primary key is checked against the rows
  already there), and \<open>fetchone\<close> after a selection by key is \<open>find\<close>.
\<close>

definition update_where :: "('r \<Rightarrow> bool) \<Rightarrow> ('r \<Rightarrow> 'r) \<Rightarrow> 'r list \<Rightarrow> 'r list" where
  "update_where p f = map (\<lambda>r. if p r then f r else r)"

definition insert_row :: "('r \<Rightarrow> 'k) \<Rightarrow> 'r \<Rightarrow> 'r list \<Rightarrow> 'r list option" where
  "insert_row key r t = (if key r \<in> key ` set t then None else Some (t @ [r]))"

definition insert_or_ignore :: "('r \<Rightarrow> 'k) \<Rightarrow> 'r \<Rightarrow> 'r list \<Rightarrow> 'r list" where
  "insert_or_ignore key r t = (if key r \<in> key ` set t then t else t @ [r])"

text \<open>\<open>INSERT ... ON CONFLICT(key) DO UPDATE\<close>: \<open>f\<close> says what the update does to the old row.\<close>

definition upsert_row :: "('r \<Rightarrow> 'k) \<Rightarrow> 'r \<Rightarrow> ('r \<Rightarrow> 'r) \<Rightarrow> 'r list \<Rightarrow> 'r list" where
  "upsert_row key r f t =
     (if key r \<in> key ` set t then update_where (\<lambda>q. key q = key r) f t else t @ [r])"

lemma update_where_simps [simp, table_simps]:
  "update_where p f [] = []"
  "update_where p f (r # t) = (if p r then f r else r) # update_where p f t"
  "update_where p f (t @ u) = update_where p f t @ update_where p f u"
  "length (update_where p f t) = length t"
  by (simp_all add: update_where_def)

lemma update_where_none [table_simps]:
  "(\<And>r. r \<in> set t \<Longrightarrow> \<not> p r) \<Longrightarrow> update_where p f t = t"
  by (induction t) auto

lemma insert_row_Some: "insert_row key r t = Some t' \<longleftrightarrow> key r \<notin> key ` set t \<and> t' = t @ [r]"
  by (auto simp: insert_row_def)

lemma set_update_where:
  "set (update_where p f t) = f ` {r \<in> set t. p r} \<union> {r \<in> set t. \<not> p r}"
  by (induction t) auto

lemma map_update_where [table_simps]:
  "(\<And>r. p r \<Longrightarrow> k (f r) = k r) \<Longrightarrow> map k (update_where p f t) = map k t"
  by (induction t) auto

lemma image_update_where [table_simps]:
  "(\<And>r. p r \<Longrightarrow> k (f r) = k r) \<Longrightarrow> k ` set (update_where p f t) = k ` set t"
  by (metis map_update_where list.set_map)

lemma find_update_where_other [table_simps]:
  "(\<And>r. p r \<Longrightarrow> q (f r) = q r) \<Longrightarrow> (\<And>r. p r \<Longrightarrow> \<not> q r) \<Longrightarrow>
    find q (update_where p f t) = find q t"
  by (induction t) auto

lemma find_update_where_same [table_simps]:
  "(\<And>r. p r \<Longrightarrow> q (f r) = q r) \<Longrightarrow>
    find q (update_where p f t) = map_option (\<lambda>r. if p r then f r else r) (find q t)"
  by (induction t) auto

lemma filter_update_where [table_simps]:
  "(\<And>r. p r \<Longrightarrow> q (f r) = q r) \<Longrightarrow>
    filter q (update_where p f t) = update_where p f (filter q t)"
  by (induction t) auto

lemma find_append [simp]:
  "find p (xs @ ys) = (case find p xs of None \<Rightarrow> find p ys | Some x \<Rightarrow> Some x)"
  by (induction xs) auto

lemma find_SomeD: "find p xs = Some x \<Longrightarrow> x \<in> set xs \<and> p x"
  by (induction xs) (auto split: if_splits)

lemma find_NoneD: "find p xs = None \<Longrightarrow> x \<in> set xs \<Longrightarrow> \<not> p x"
  by (induction xs) (auto split: if_splits)

lemma find_key_distinct:
  assumes "distinct (map k xs)" and "x \<in> set xs"
  shows "find (\<lambda>y. k y = k x) xs = Some x"
  using assms by (induction xs) force+

lemma distinct_key_eq:
  "distinct (map k xs) \<Longrightarrow> x \<in> set xs \<Longrightarrow> y \<in> set xs \<Longrightarrow> k x = k y \<Longrightarrow> x = y"
  by (induction xs) (auto simp: rev_image_eqI)

section \<open>The keyed table as an interface\<close>

text \<open>
  What the components rely on when they read a table by its primary key: the key stays unique,
  a lookup after an insert finds the new row and leaves the others alone, and an update that keeps
  the key changes exactly the rows it names.
\<close>

locale keyed_table =
  fixes key :: "'r \<Rightarrow> 'k"
    and lookup :: "'k \<Rightarrow> 'r list \<Rightarrow> 'r option"
    and put :: "'r \<Rightarrow> 'r list \<Rightarrow> 'r list option"
    and change :: "'k \<Rightarrow> ('r \<Rightarrow> 'r) \<Rightarrow> 'r list \<Rightarrow> 'r list"
    and ok :: "'r list \<Rightarrow> bool"
  assumes lookup_key: "lookup k t = Some r \<Longrightarrow> key r = k"
    and put_taken: "lookup (key r) t = Some q \<Longrightarrow> put r t = None"
    and put_lookup: "put r t = Some t' \<Longrightarrow> ok t \<Longrightarrow>
          lookup k t' = (if k = key r then Some r else lookup k t)"
    and put_ok: "put r t = Some t' \<Longrightarrow> ok t \<Longrightarrow> ok t'"
    and change_lookup: "(\<And>r. key (f r) = key r) \<Longrightarrow> ok t \<Longrightarrow>
          lookup k (change k' f t) =
            (if k = k' then map_option f (lookup k t) else lookup k t)"
    and change_ok: "(\<And>r. key (f r) = key r) \<Longrightarrow> ok t \<Longrightarrow> ok (change k' f t)"
begin

lemma put_then_change:
  assumes "put r t = Some t'" and "ok t" and "\<And>r. key (f r) = key r"
  shows "lookup (key r) (change (key r) f t') = Some (f r)"
  using assms by (simp add: put_lookup change_lookup put_ok)

lemma change_twice:
  assumes "ok t" and "\<And>r. key (f r) = key r" and "\<And>r. key (g r) = key r"
  shows "lookup k (change k g (change k f t)) = map_option (g \<circ> f) (lookup k t)"
  using assms by (simp add: change_lookup change_ok option.map_comp)

end

definition lookup_row :: "('r \<Rightarrow> 'k) \<Rightarrow> 'k \<Rightarrow> 'r list \<Rightarrow> 'r option" where
  "lookup_row key k = find (\<lambda>r. key r = k)"

definition change_row :: "('r \<Rightarrow> 'k) \<Rightarrow> 'k \<Rightarrow> ('r \<Rightarrow> 'r) \<Rightarrow> 'r list \<Rightarrow> 'r list" where
  "change_row key k f = update_where (\<lambda>r. key r = k) f"

lemma lookup_row_key: "lookup_row key k t = Some r \<Longrightarrow> key r = k"
  by (auto simp: lookup_row_def dest: find_SomeD)

lemma lookup_row_None: "lookup_row key k t = None \<longleftrightarrow> k \<notin> key ` set t"
  by (auto simp: lookup_row_def find_None_iff)

lemma lookup_change_row:
  "(\<And>r. key (f r) = key r) \<Longrightarrow>
    lookup_row key k (change_row key k' f t) =
      (if k = k' then map_option f (lookup_row key k t) else lookup_row key k t)"
  by (induction t) (auto simp: lookup_row_def change_row_def)

lemma keyed_table_rows:
  "keyed_table key (lookup_row key) (insert_row key) (change_row key) (\<lambda>t. distinct (map key t))"
proof (unfold_locales, goal_cases)
  case (1 k t r)
  then show ?case by (rule lookup_row_key)
next
  case (2 r t q)
  then show ?case
    by (metis insert_row_def lookup_row_None option.distinct(1))
next
  case (3 r t t' k)
  then have t': "t' = t @ [r]" and fresh: "lookup_row key (key r) t = None"
    by (simp_all add: insert_row_def lookup_row_None split: if_splits)
  then show ?case
    by (auto simp: lookup_row_def split: option.split)
next
  case (4 r t t')
  then show ?case by (auto simp: insert_row_def split: if_splits)
next
  case (5 f t k k')
  then show ?case by (simp add: lookup_change_row)
next
  case (6 f t k')
  then show ?case by (simp add: change_row_def map_update_where)
qed

section \<open>JSON values\<close>

text \<open>Python's \<open>Any\<close> in a protocol field: a JSON value; objects keep their keys in a list.\<close>

datatype json =
    JNull
  | JBool bool
  | JInt int
  | JFloat rat
  | JStr string
  | JArr "json list"
  | JObj "(string \<times> json) list"

section \<open>Decimal rendering\<close>

text \<open>\<open>str(n)\<close> of a Python integer, as the f-strings that build identifiers use it.\<close>

definition digit_char :: "nat \<Rightarrow> char" where
  "digit_char d = char_of (48 + d)"

fun nat_str :: "nat \<Rightarrow> string" where
  "nat_str n = (if n < 10 then [digit_char n] else nat_str (n div 10) @ [digit_char (n mod 10)])"

declare nat_str.simps [simp del]

definition int_str :: "int \<Rightarrow> string" where
  "int_str i = (if i < 0 then CHR ''-'' # nat_str (nat (- i)) else nat_str (nat i))"

lemma digit_char_inj: "a < 10 \<Longrightarrow> b < 10 \<Longrightarrow> digit_char a = digit_char b \<Longrightarrow> a = b"
proof -
  assume a: "a < 10" and b: "b < 10" and eq: "digit_char a = digit_char b"
  from eq have "of_char (char_of (48 + a) :: char) = (of_char (char_of (48 + b) :: char) :: nat)"
    by (simp add: digit_char_def)
  then have "(48 + a) mod 256 = (48 + b) mod 256"
    by (simp only: of_char_of)
  with a b show "a = b" by simp
qed

lemma nat_str_nonempty [simp]: "nat_str n \<noteq> []" "[] \<noteq> nat_str n"
  by (subst nat_str.simps, simp)+

lemma nat_str_inj: "nat_str m = nat_str n \<Longrightarrow> m = n"
proof (induction m arbitrary: n rule: less_induct)
  case (less m)
  show ?case
  proof (cases "m < 10")
    case True
    then have m: "nat_str m = [digit_char m]" by (simp add: nat_str.simps [of m])
    have "n < 10"
    proof (rule ccontr)
      assume "\<not> n < 10"
      then have "nat_str n = nat_str (n div 10) @ [digit_char (n mod 10)]"
        by (simp add: nat_str.simps [of n])
      with m less.prems show False by (simp add: Cons_eq_append_conv)
    qed
    then have "nat_str n = [digit_char n]" by (simp add: nat_str.simps [of n])
    with m less.prems True \<open>n < 10\<close> show ?thesis by (auto dest: digit_char_inj)
  next
    case False
    then have m: "nat_str m = nat_str (m div 10) @ [digit_char (m mod 10)]"
      by (simp add: nat_str.simps [of m])
    show ?thesis
    proof (cases "n < 10")
      case True
      then have "nat_str n = [digit_char n]" by (simp add: nat_str.simps [of n])
      with m less.prems show ?thesis by (simp add: append_eq_Cons_conv)
    next
      case n: False
      then have "nat_str n = nat_str (n div 10) @ [digit_char (n mod 10)]"
        by (simp add: nat_str.simps [of n])
      with m less.prems have "nat_str (m div 10) = nat_str (n div 10)"
        and "digit_char (m mod 10) = digit_char (n mod 10)" by simp_all
      with False have "m div 10 = n div 10" and "m mod 10 = n mod 10"
        by (auto intro: less.IH digit_char_inj)
      then show ?thesis by (metis div_mult_mod_eq)
    qed
  qed
qed

lemma digit_char_not_colon: "d < 10 \<Longrightarrow> digit_char d \<noteq> CHR '':''"
proof
  assume d: "d < 10" and "digit_char d = CHR '':''"
  then have "of_char (char_of (48 + d) :: char) = (of_char (CHR '':'') :: nat)"
    by (simp add: digit_char_def)
  then have "(48 + d) mod 256 = (58 :: nat)" by (simp only: of_char_of) simp
  with d show False by simp
qed

lemma nat_str_no_colon: "CHR '':'' \<notin> set (nat_str n)"
proof (induction n rule: less_induct)
  case (less n)
  show ?case
  proof (cases "n < 10")
    case True
    then show ?thesis
      using digit_char_not_colon [of n] by (auto simp: nat_str.simps [of n])
  next
    case False
    then show ?thesis
      using less [of "n div 10"] digit_char_not_colon [of "n mod 10"]
      by (auto simp: nat_str.simps [of n])
  qed
qed

lemma int_str_nonneg_inj: "0 \<le> i \<Longrightarrow> 0 \<le> j \<Longrightarrow> int_str i = int_str j \<Longrightarrow> i = j"
  by (auto simp: int_str_def dest: nat_str_inj)

lemma int_str_no_colon: "CHR '':'' \<notin> set (int_str i)"
  using nat_str_no_colon by (auto simp: int_str_def)

lemma digit_char_not_minus: "d < 10 \<Longrightarrow> digit_char d \<noteq> CHR ''-''"
proof
  assume d: "d < 10" and "digit_char d = CHR ''-''"
  then have "of_char (char_of (48 + d) :: char) = (of_char (CHR ''-'') :: nat)"
    by (simp add: digit_char_def)
  then have "(48 + d) mod 256 = (45 :: nat)" by (simp only: of_char_of) simp
  with d show False by simp
qed

lemma nat_str_not_minus: "nat_str n \<noteq> CHR ''-'' # s"
proof (induction n arbitrary: s rule: less_induct)
  case (less n)
  show ?case
  proof (cases "n < 10")
    case True
    then show ?thesis using digit_char_not_minus [of n] by (simp add: nat_str.simps [of n])
  next
    case False
    then show ?thesis
      using less [of "n div 10"] by (auto simp: nat_str.simps [of n] append_eq_Cons_conv)
  qed
qed

lemma int_str_inj: "int_str i = int_str j \<Longrightarrow> i = j"
  using nat_str_not_minus [of _ "nat_str _"] nat_str_not_minus [of _ "nat_str _", symmetric]
  by (auto simp: int_str_def dest!: nat_str_inj split: if_splits)

section \<open>Splitting at the last separator\<close>

lemma append_sep_inj:
  assumes "c \<notin> set b" and "c \<notin> set b'" and "a @ c # b = a' @ c # b'"
  shows "a = a' \<and> b = b'"
proof -
  have split: "takeWhile (\<lambda>x. x \<noteq> c) (rev (u @ c # v)) = rev v" if "c \<notin> set v" for u v
    using that by (auto simp: takeWhile_append takeWhile_eq_all_conv)
  from assms have "rev b = rev b'" by (metis split)
  with assms(3) show ?thesis by simp
qed

section \<open>Sorting and joining\<close>

text \<open>\<open>sorted(set(xs))\<close> and \<open>sep.join(xs)\<close> of strings.\<close>

definition sorted_set :: "'a::linorder list \<Rightarrow> 'a list" where
  "sorted_set xs = sort (remdups xs)"

fun join_with :: "string \<Rightarrow> string list \<Rightarrow> string" where
  "join_with sep [] = []"
| "join_with sep [x] = x"
| "join_with sep (x # y # xs) = x @ sep @ join_with sep (y # xs)"

lemma set_sorted_set [simp]: "set (sorted_set xs) = set xs"
  by (simp add: sorted_set_def)

lemma sorted_set_sorted [simp]: "sorted (sorted_set xs)" "distinct (sorted_set xs)"
  by (simp_all add: sorted_set_def)

text \<open>The rows of a table in the order of an \<open>ORDER BY key\<close>; equal keys keep the rowid order.\<close>

definition order_by :: "('r \<Rightarrow> 'k::linorder) \<Rightarrow> 'r list \<Rightarrow> 'r list" where
  "order_by k = sort_key k"

lemma set_order_by [simp]: "set (order_by k t) = set t"
  by (simp add: order_by_def)

lemma order_by_Nil [simp]: "order_by k [] = []"
  by (simp add: order_by_def)

lemma order_by_eq_Nil [simp]: "order_by k t = [] \<longleftrightarrow> t = []"
  by (metis set_order_by set_empty)

end
