(* ===== verification/Protocol.thy ===== *)
theory Protocol
  imports Prelude
begin

text \<open>
  The protocol models of \<open>models/common.py\<close> and \<open>models/results.py\<close>: enumerations as datatypes with their \<open>.value\<close> strings, models as
  records, and the validators pydantic runs when a model is constructed (field constraints first,
  then the \<open>after\<close> validator). The field \<open>schema_version\<close>, always \<open>"1.0"\<close>, is left out;
  a nested model instance is not validated again, as in pydantic.
\<close>

section \<open>Construction\<close>

text \<open>\<open>Model(...)\<close>: the value if its validator accepts it, a \<open>ValidationError\<close> otherwise.\<close>

definition construct :: "('a \<Rightarrow> py_error + unit) \<Rightarrow> 'a \<Rightarrow> py_error + 'a" where
  "construct validate x = (case validate x of Inl e \<Rightarrow> Inl e | Inr _ \<Rightarrow> Inr x)"

lemma construct_Inr [simp]: "construct v x = Inr y \<longleftrightarrow> y = x \<and> v x = Inr ()"
  by (auto simp: construct_def split: sum.splits)

lemma construct_ok: "v x = Inr () \<Longrightarrow> construct v x = Inr x"
  by simp

definition min_length_1 :: "string \<Rightarrow> string \<Rightarrow> py_error + unit" where
  "min_length_1 field v = require (v \<noteq> []) (field @ '': string should have at least 1 character'')"

lemma min_length_1_ok [simp]: "min_length_1 f v = Inr u \<longleftrightarrow> v \<noteq> []"
  by (simp add: min_length_1_def)

definition blank_opt :: "string option \<Rightarrow> bool" where
  \<comment> \<open>Python's \<open>not value\<close> for \<open>str | None\<close>\<close>
  "blank_opt v = (case v of None \<Rightarrow> True | Some t \<Rightarrow> t = [])"

lemma blank_opt_simps [simp]: "blank_opt None" "blank_opt (Some t) \<longleftrightarrow> t = []"
  by (simp_all add: blank_opt_def)

text \<open>The character classes of the identifier patterns (ASCII, as the patterns are).\<close>

definition in_range :: "char \<Rightarrow> char \<Rightarrow> char \<Rightarrow> bool" where
  "in_range lo hi c \<longleftrightarrow> (of_char lo :: nat) \<le> of_char c \<and> (of_char c :: nat) \<le> of_char hi"

definition id_char :: "char \<Rightarrow> bool" where
  \<comment> \<open>\<open>[A-Za-z0-9_.-]\<close>\<close>
  "id_char c \<longleftrightarrow> in_range (CHR ''A'') (CHR ''Z'') c \<or> in_range (CHR ''a'') (CHR ''z'') c \<or>
     in_range (CHR ''0'') (CHR ''9'') c \<or> c = CHR ''_'' \<or> c = CHR ''.'' \<or> c = CHR ''-''"

definition id_pattern :: "string \<Rightarrow> bool" where
  "id_pattern s \<longleftrightarrow> s \<noteq> [] \<and> list_all id_char s"

definition code_char :: "char \<Rightarrow> bool" where
  \<comment> \<open>\<open>[a-z0-9_.-]\<close>\<close>
  "code_char c \<longleftrightarrow> in_range (CHR ''a'') (CHR ''z'') c \<or> in_range (CHR ''0'') (CHR ''9'') c \<or>
     c = CHR ''_'' \<or> c = CHR ''.'' \<or> c = CHR ''-''"

definition code_pattern :: "string \<Rightarrow> bool" where
  "code_pattern s \<longleftrightarrow> s \<noteq> [] \<and> list_all code_char s"

definition hex_char :: "char \<Rightarrow> bool" where
  "hex_char c \<longleftrightarrow> in_range (CHR ''0'') (CHR ''9'') c \<or> in_range (CHR ''a'') (CHR ''f'') c"

definition sha256_pattern :: "string \<Rightarrow> bool" where
  "sha256_pattern s \<longleftrightarrow> length s = 64 \<and> list_all hex_char s"

lemma id_char_not_colon: "id_char c \<Longrightarrow> c \<noteq> CHR '':''"
  by (auto simp: id_char_def in_range_def)

lemma id_pattern_no_colon: "id_pattern s \<Longrightarrow> CHR '':'' \<notin> set s"
  by (auto simp: id_pattern_def list_all_iff dest: id_char_not_colon)

lemma id_pattern_append:
  "id_pattern a \<Longrightarrow> id_pattern b \<Longrightarrow> id_pattern (a @ CHR ''.'' # b)"
  by (auto simp: id_pattern_def id_char_def)

lemma id_pattern_nonempty: "id_pattern a \<Longrightarrow> a \<noteq> []"
  by (simp add: id_pattern_def)

section \<open>models/common.py\<close>

datatype artifact_kind =
  AK_Log | AK_Report | AK_Patch | AK_Source | AK_TestResult | AK_Evidence | AK_Other

record artifact =
  ar_id :: string
  ar_kind :: artifact_kind
  ar_uri :: string
  ar_sha :: "string option"
  ar_media :: "string option"
  ar_size :: "int option"
  ar_created :: int

definition validate_artifact :: "artifact \<Rightarrow> py_error + unit" where
  "validate_artifact a = first_error
     [min_length_1 ''artifact_id'' (ar_id a),
      min_length_1 ''uri'' (ar_uri a),
      require (case ar_sha a of None \<Rightarrow> True | Some h \<Rightarrow> sha256_pattern h) ''sha256_digest'',
      require (case ar_size a of None \<Rightarrow> True | Some n \<Rightarrow> 0 \<le> n) ''size_bytes'']"

record budget =
  bg_max_duration :: int
  bg_max_calls :: int
  bg_max_repairs :: int
  bg_max_cost :: "rat option"

definition validate_budget :: "budget \<Rightarrow> py_error + unit" where
  "validate_budget b = first_error
     [require (bg_max_duration b > 0) ''max_duration_seconds'',
      require (bg_max_calls b > 0) ''max_executor_calls'',
      require (bg_max_repairs b \<ge> 0) ''max_repair_iterations'',
      require (case bg_max_cost b of None \<Rightarrow> True | Some c \<Rightarrow> c > 0) ''max_cost_units'']"

datatype error_kind =
  EK_Executor | EK_Verifier | EK_Infrastructure | EK_Authorization | EK_Policy | EK_Timeout |
  EK_Internal

record error =
  er_kind :: error_kind
  er_code :: string
  er_message :: string
  er_retryable :: bool
  er_details :: "(string \<times> json) list"

definition validate_error :: "error \<Rightarrow> py_error + unit" where
  "validate_error e = first_error
     [require (code_pattern (er_code e)) ''code'', min_length_1 ''message'' (er_message e)]"

record contract_ref =
  cr_id :: string
  cr_revision :: int

definition validate_contract_ref :: "contract_ref \<Rightarrow> py_error + unit" where
  "validate_contract_ref c = first_error
     [min_length_1 ''contract_id'' (cr_id c), require (cr_revision c \<ge> 1) ''revision'']"

record relationship =
  rl_run :: string
  rl_parent :: "string option"
  rl_supersedes :: "string option"

definition validate_relationship :: "relationship \<Rightarrow> py_error + unit" where
  "validate_relationship r = first_error
     [min_length_1 ''run_id'' (rl_run r),
      require (\<not> (rl_parent r = Some (rl_run r) \<or> rl_supersedes r = Some (rl_run r)))
        ''parent_run_id and supersedes_run_id must not equal run_id'']"

datatype restart_strategy = SG_CleanBase | SG_AcceptedCommit | SG_Checkpoint

primrec sg_value :: "restart_strategy \<Rightarrow> string" where
  "sg_value SG_CleanBase = ''clean_base''"
| "sg_value SG_AcceptedCommit = ''accepted_commit''"
| "sg_value SG_Checkpoint = ''checkpoint''"

record restart_from =
  rf_strategy :: restart_strategy
  rf_reference :: "string option"

definition validate_restart_from :: "restart_from \<Rightarrow> py_error + unit" where
  "validate_restart_from r =
     (let needs_reference = (rf_strategy r = SG_AcceptedCommit \<or> rf_strategy r = SG_Checkpoint)
      in first_error
       [require (\<not> (needs_reference \<and> blank_opt (rf_reference r)))
          (''reference is required for strategy '' @ sg_value (rf_strategy r)),
        require (\<not> (rf_strategy r = SG_CleanBase \<and> rf_reference r \<noteq> None))
          ''reference must be omitted for strategy clean_base''])"

section \<open>models/results.py\<close>

datatype exec_status = ES_Succeeded | ES_Failed | ES_Error | ES_Cancelled

primrec es_value :: "exec_status \<Rightarrow> string" where
  "es_value ES_Succeeded = ''succeeded''"
| "es_value ES_Failed = ''failed''"
| "es_value ES_Error = ''error''"
| "es_value ES_Cancelled = ''cancelled''"

record exec_result =
  xr_status :: exec_status
  xr_summary :: string
  xr_changed :: "string list"
  xr_decisions :: "string list"
  xr_risks :: "string list"
  xr_next :: "string list"
  xr_artifacts :: "artifact list"
  xr_failure :: "string option"
  xr_error :: "error option"

definition validate_exec_result :: "exec_result \<Rightarrow> py_error + unit" where
  "validate_exec_result r = first_error
     [min_length_1 ''summary'' (xr_summary r),
      require (\<not> (xr_status r = ES_Failed \<and> blank_opt (xr_failure r)))
        ''failure_reason is required when status is failed'',
      require (\<not> (xr_status r = ES_Error \<and> xr_error r = None))
        ''error is required when status is error'',
      require (\<not> (xr_status r \<noteq> ES_Error \<and> xr_error r \<noteq> None))
        ''error is only allowed when status is error'']"

definition exec_result_of :: "exec_status \<Rightarrow> string \<Rightarrow> exec_result" where
  \<comment> \<open>the field defaults: empty lists, no failure reason, no error\<close>
  "exec_result_of st summary =
     \<lparr>xr_status = st, xr_summary = summary, xr_changed = [], xr_decisions = [], xr_risks = [],
      xr_next = [], xr_artifacts = [], xr_failure = None, xr_error = None\<rparr>"

datatype ver_status = VS_Pending | VS_Passed | VS_Failed | VS_Error | VS_Cancelled

primrec vs_value :: "ver_status \<Rightarrow> string" where
  "vs_value VS_Pending = ''pending''"
| "vs_value VS_Passed = ''passed''"
| "vs_value VS_Failed = ''failed''"
| "vs_value VS_Error = ''error''"
| "vs_value VS_Cancelled = ''cancelled''"

record ver_result =
  vr_status :: ver_status
  vr_summary :: string
  vr_metrics :: "(string \<times> json) list"
  vr_artifacts :: "artifact list"
  vr_handle :: "string option"
  vr_retryable :: bool
  vr_failures :: "string list"
  vr_error :: "error option"

definition validate_ver_result :: "ver_result \<Rightarrow> py_error + unit" where
  "validate_ver_result r = first_error
     [min_length_1 ''summary'' (vr_summary r),
      require (\<not> (vr_status r = VS_Failed \<and> vr_failures r = []))
        ''failure_details is required when status is failed'',
      require (\<not> (vr_status r = VS_Error \<and> vr_error r = None))
        ''error is required when status is error'',
      require (\<not> (vr_status r \<noteq> VS_Error \<and> vr_error r \<noteq> None))
        ''error is only allowed when status is error'']"

definition ver_result_of :: "ver_status \<Rightarrow> string \<Rightarrow> ver_result" where
  "ver_result_of st summary =
     \<lparr>vr_status = st, vr_summary = summary, vr_metrics = [], vr_artifacts = [], vr_handle = None,
      vr_retryable = False, vr_failures = [], vr_error = None\<rparr>"

datatype branch_status = BS_Succeeded | BS_Failed | BS_Blocked | BS_Error | BS_Cancelled

primrec bs_value :: "branch_status \<Rightarrow> string" where
  "bs_value BS_Succeeded = ''succeeded''"
| "bs_value BS_Failed = ''failed''"
| "bs_value BS_Blocked = ''blocked''"
| "bs_value BS_Error = ''error''"
| "bs_value BS_Cancelled = ''cancelled''"

record branch_result =
  br_id :: string
  br_status :: branch_status
  br_summary :: string
  br_completed :: "string list"
  br_changed :: "string list"
  br_artifacts :: "artifact list"
  br_failures :: "string list"
  br_error :: "error option"

definition error_branch :: "branch_status \<Rightarrow> bool" where
  "error_branch s \<longleftrightarrow> s = BS_Error \<or> s = BS_Blocked"

definition validate_branch_result :: "branch_result \<Rightarrow> py_error + unit" where
  "validate_branch_result r = first_error
     [min_length_1 ''branch_id'' (br_id r),
      min_length_1 ''summary'' (br_summary r),
      require (\<not> (br_status r = BS_Failed \<and> br_failures r = []))
        ''failure_details is required for a failed branch'',
      require (\<not> (error_branch (br_status r) \<and> br_error r = None))
        ''error is required for an error or blocked branch'',
      require (\<not> (\<not> error_branch (br_status r) \<and> br_error r \<noteq> None))
        ''error is only allowed for error or blocked branches'']"

text \<open>
  The precedence table of the aggregate as the order of the statuses, so that \<open>max\<close> over the
  branches is the library's maximum.
\<close>

primrec precedence :: "branch_status \<Rightarrow> nat" where
  "precedence BS_Succeeded = 0"
| "precedence BS_Cancelled = 1"
| "precedence BS_Failed = 2"
| "precedence BS_Blocked = 3"
| "precedence BS_Error = 4"

lemma precedence_inj: "precedence a = precedence b \<Longrightarrow> a = b"
  by (cases a; cases b) simp_all

instantiation branch_status :: linorder
begin

definition less_eq_branch_status :: "branch_status \<Rightarrow> branch_status \<Rightarrow> bool" where
  "a \<le> b \<longleftrightarrow> precedence a \<le> precedence b"

definition less_branch_status :: "branch_status \<Rightarrow> branch_status \<Rightarrow> bool" where
  "a < b \<longleftrightarrow> precedence a < precedence b"

instance
  by standard (auto simp: less_eq_branch_status_def less_branch_status_def
      intro: precedence_inj)

end

text \<open>\<open>max(statuses, key=precedence)\<close> of a non-empty list: the first maximal element.\<close>

fun max_status :: "branch_status \<Rightarrow> branch_status list \<Rightarrow> branch_status" where
  "max_status m [] = m"
| "max_status m (s # ss) = max_status (if precedence s > precedence m then s else m) ss"

lemma max_status_Max: "max_status m ss = Max (set (m # ss))"
proof (induction ss arbitrary: m)
  case Nil
  then show ?case by simp
next
  case (Cons s ss)
  have "(if precedence s > precedence m then s else m) = max m s"
    by (auto simp: max_def less_eq_branch_status_def dest: precedence_inj)
  then show ?case
    using Cons [of "max m s"]
    by (cases "ss = []") (simp_all add: max.assoc insert_commute)
qed

record par_result =
  pr_node :: string
  pr_status :: branch_status
  pr_summary :: string
  pr_branches :: "branch_result list"
  pr_changed :: "string list"
  pr_artifacts :: "artifact list"
  pr_failures :: "string list"
  pr_error :: "error option"

definition expected_status :: "branch_result list \<Rightarrow> branch_status option" where
  "expected_status bs = (case map br_status bs of [] \<Rightarrow> None | s # ss \<Rightarrow> Some (max_status s ss))"

definition validate_par_result :: "par_result \<Rightarrow> py_error + unit" where
  "validate_par_result r = first_error
     [min_length_1 ''parallel_node_id'' (pr_node r),
      min_length_1 ''summary'' (pr_summary r),
      require (pr_branches r \<noteq> []) ''branches'',
      require (sorted (map br_id (pr_branches r)) \<and> distinct (map br_id (pr_branches r)))
        ''parallel branches must be unique and sorted by branch_id'',
      require (Some (pr_status r) = expected_status (pr_branches r))
        ''parallel status must match deterministic branch precedence'',
      require (\<not> (pr_status r = BS_Failed \<and> pr_failures r = []))
        ''failure_details is required for failed parallel results'',
      require (\<not> (error_branch (pr_status r) \<and> pr_error r = None))
        ''error is required for error or blocked parallel results'',
      require (\<not> (\<not> error_branch (pr_status r) \<and> pr_error r \<noteq> None))
        ''error is only allowed for error or blocked parallel results'']"

text \<open>
  \<open>Result = ExecutorResult | VerifierResult | ParallelResult\<close>. A result column of the database
  holds the canonical JSON of one of them; the model keeps the value. \<open>payload_status\<close>,
  \<open>payload_retryable\<close>, \<open>payload_error\<close> and \<open>payload_changed\<close> are \<open>data["status"]\<close>,
  \<open>data.get("retryable", False)\<close>, \<open>data.get("error")\<close> and \<open>data.get("changed_files", [])\<close> of
  that JSON object.
\<close>

datatype result = RExec exec_result | RVer ver_result | RPar par_result

primrec payload_status :: "result \<Rightarrow> string" where
  "payload_status (RExec r) = es_value (xr_status r)"
| "payload_status (RVer r) = vs_value (vr_status r)"
| "payload_status (RPar r) = bs_value (pr_status r)"

primrec payload_retryable :: "result \<Rightarrow> bool" where
  "payload_retryable (RExec r) = False"
| "payload_retryable (RVer r) = vr_retryable r"
| "payload_retryable (RPar r) = False"

primrec payload_error :: "result \<Rightarrow> error option" where
  "payload_error (RExec r) = xr_error r"
| "payload_error (RVer r) = vr_error r"
| "payload_error (RPar r) = pr_error r"

primrec payload_changed :: "result \<Rightarrow> string list" where
  "payload_changed (RExec r) = xr_changed r"
| "payload_changed (RVer r) = []"
| "payload_changed (RPar r) = pr_changed r"

primrec result_artifacts :: "result \<Rightarrow> artifact list" where
  "result_artifacts (RExec r) = xr_artifacts r"
| "result_artifacts (RVer r) = vr_artifacts r"
| "result_artifacts (RPar r) = pr_artifacts r"

primrec result_summary :: "result \<Rightarrow> string" where
  "result_summary (RExec r) = xr_summary r"
| "result_summary (RVer r) = vr_summary r"
| "result_summary (RPar r) = pr_summary r"

definition is_pending :: "result \<Rightarrow> bool" where
  "is_pending r = (case r of RVer v \<Rightarrow> vr_status v = VS_Pending | _ \<Rightarrow> False)"

primrec validate_result :: "result \<Rightarrow> py_error + unit" where
  "validate_result (RExec r) = validate_exec_result r"
| "validate_result (RVer r) = validate_ver_result r"
| "validate_result (RPar r) = validate_par_result r"

definition wf_result :: "result \<Rightarrow> bool" where
  "wf_result r \<longleftrightarrow> validate_result r = Inr ()"

lemma wf_result_error:
  assumes wf: "wf_result r" and st: "payload_status r = ''error''"
  shows "payload_error r \<noteq> None"
proof (cases r)
  case (RExec x)
  with wf st show ?thesis
    by (cases "xr_status x") (auto simp: wf_result_def validate_exec_result_def)
next
  case (RVer v)
  with wf st show ?thesis
    by (cases "vr_status v") (auto simp: wf_result_def validate_ver_result_def)
next
  case (RPar p)
  with wf st show ?thesis
    by (cases "pr_status p") (auto simp: wf_result_def validate_par_result_def error_branch_def)
qed

end
