(* ===== verification/Graph_Model.thy ===== *)
theory Graph_Model
  imports Protocol
begin

text \<open>
  The execution graph of \<open>models/graph.py\<close>: nodes with their typed definitions (subgraph, parallel
  spec, join), guarded edges and the static validation of a graph. A model class is recursive here
  (a node holds a subgraph, a subgraph holds nodes), so it is a datatype with named selectors.
  \<open>wf_graph\<close> is what every constructed \<open>ExecutionGraph\<close> satisfies: its own validator and those of
  all its parts.
\<close>

section \<open>Node kinds and route conditions\<close>

datatype node_type =
  NT_Agent | NT_Command | NT_Verifier | NT_Router | NT_Delivery | NT_Parallel | NT_Subgraph |
  NT_Join

primrec nt_value :: "node_type \<Rightarrow> string" where
  "nt_value NT_Agent = ''agent''"
| "nt_value NT_Command = ''command''"
| "nt_value NT_Verifier = ''verifier''"
| "nt_value NT_Router = ''router''"
| "nt_value NT_Delivery = ''delivery''"
| "nt_value NT_Parallel = ''parallel''"
| "nt_value NT_Subgraph = ''subgraph''"
| "nt_value NT_Join = ''join''"

datatype route_field = RF_Status | RF_Retryable | RF_Attempt

datatype route_operator = RO_Equals | RO_NotEquals | RO_In | RO_NotIn

primrec ro_value :: "route_operator \<Rightarrow> string" where
  "ro_value RO_Equals = ''equals''"
| "ro_value RO_NotEquals = ''not_equals''"
| "ro_value RO_In = ''in''"
| "ro_value RO_NotIn = ''not_in''"

text \<open>\<open>RouteScalar = str | int | bool\<close>, compared by Python's \<open>==\<close>: \<open>True == 1\<close>.\<close>

datatype scalar = SStr string | SInt int | SBool bool

fun scalar_eq :: "scalar \<Rightarrow> scalar \<Rightarrow> bool" where
  "scalar_eq (SStr a) (SStr b) \<longleftrightarrow> a = b"
| "scalar_eq (SInt a) (SInt b) \<longleftrightarrow> a = b"
| "scalar_eq (SBool a) (SBool b) \<longleftrightarrow> a = b"
| "scalar_eq (SInt a) (SBool b) \<longleftrightarrow> a = of_bool b"
| "scalar_eq (SBool a) (SInt b) \<longleftrightarrow> of_bool a = b"
| "scalar_eq _ _ \<longleftrightarrow> False"

lemma scalar_eq_refl [simp]: "scalar_eq a a"
  by (cases a) simp_all

lemma scalar_eq_sym: "scalar_eq a b \<longleftrightarrow> scalar_eq b a"
  by (cases a; cases b) auto

datatype cond_value = CScalar scalar | CList "scalar list"

record route_condition =
  rc_field :: route_field
  rc_op :: route_operator
  rc_value :: cond_value

definition is_list :: "cond_value \<Rightarrow> bool" where
  "is_list v = (case v of CList _ \<Rightarrow> True | CScalar _ \<Rightarrow> False)"

definition validate_condition :: "route_condition \<Rightarrow> py_error + unit" where
  "validate_condition c =
     (let is_collection = (rc_op c = RO_In \<or> rc_op c = RO_NotIn)
      in first_error
       [require (\<not> (is_collection \<and> \<not> is_list (rc_value c)))
          (''operator '' @ ro_value (rc_op c) @ '' requires a list value''),
        require (\<not> (\<not> is_collection \<and> is_list (rc_value c)))
          (''operator '' @ ro_value (rc_op c) @ '' requires a scalar value''),
        require (rc_value c \<noteq> CList []) ''route condition list value must not be empty''])"

record edge =
  ed_from :: string
  ed_to :: string
  ed_cond :: "route_condition option"
  ed_max :: "int option"

definition validate_edge :: "edge \<Rightarrow> py_error + unit" where
  "validate_edge e = first_error
     [min_length_1 ''from_node'' (ed_from e), min_length_1 ''to_node'' (ed_to e),
      require (case ed_max e of None \<Rightarrow> True | Some n \<Rightarrow> n \<ge> 1) ''max_iterations'']"

section \<open>Nodes, subgraphs, parallel specs\<close>

datatype node = Node
    (nd_id: string) (nd_type: node_type) (nd_objective: string)
    (nd_config: "(string \<times> json) list") (nd_budget: "budget option")
    (nd_subgraph: "subgraph option") (nd_parallel: "parallel_spec option")
    (nd_join: "string option")
and subgraph = Subgraph
    (sb_id: string) (sb_entry: string) (sb_nodes: "node list") (sb_edges: "edge list")
and parallel_branch = ParallelBranch (pb_id: string) (pb_graph: subgraph)
and parallel_spec = ParallelSpec (ps_max: int) (ps_branches: "parallel_branch list")

definition container_type :: "node_type \<Rightarrow> bool" where
  "container_type t \<longleftrightarrow> t = NT_Parallel \<or> t = NT_Subgraph \<or> t = NT_Join"

text \<open>\<open>Node.typed_definition_matches_node_type\<close>, its three checks in order.\<close>

definition validate_node :: "node \<Rightarrow> py_error + unit" where
  "validate_node n =
     (let definitions = [(NT_Subgraph, nd_subgraph n \<noteq> None), (NT_Parallel, nd_parallel n \<noteq> None),
                         (NT_Join, nd_join n \<noteq> None)];
          t = nd_type n
      in first_error
       ([require (id_pattern (nd_id n)) ''node_id'',
         min_length_1 ''objective'' (nd_objective n),
         require (case nd_join n of None \<Rightarrow> True | Some j \<Rightarrow> id_pattern j) ''parallel_node_id'',
         require (\<not> (container_type t \<and> (t, False) \<in> set definitions))
           (nt_value t @ '' node requires its typed definition''),
         require (\<not> (\<not> container_type t \<and> list_ex snd definitions))
           ''serial node kinds cannot carry subgraph, parallel, or join definitions''] @
        map (\<lambda>(k, present). require (\<not> (present \<and> k \<noteq> t))
              (nt_value k @ '' definition does not match node_type'')) definitions))"

definition edge_errors :: "string \<Rightarrow> string list \<Rightarrow> edge list \<Rightarrow> (py_error + unit) list" where
  "edge_errors prefix known es = concat (map (\<lambda>(i, e).
     let label = prefix @ ''edges['' @ nat_str i @ '']'' in
     [require (ed_from e \<in> set known \<and> ed_to e \<in> set known)
        (label @ '' references an unknown node''),
      require (ed_from e \<noteq> ed_to e) (label @ '' must not be a self-loop'')]) (enumerate 0 es))"

definition validate_subgraph :: "subgraph \<Rightarrow> py_error + unit" where
  "validate_subgraph g =
     (let known = map nd_id (sb_nodes g)
      in first_error
       ([require (id_pattern (sb_id g)) ''subgraph_id'',
         min_length_1 ''entry_node_id'' (sb_entry g),
         require (sb_nodes g \<noteq> []) ''nodes'',
         require (distinct known) ''subgraph node IDs must be unique'',
         require (sb_entry g \<in> set known) ''subgraph entry_node_id must reference an existing node'',
         require (list_all (\<lambda>n. \<not> container_type (nd_type n)) (sb_nodes g))
           ''nested container nodes are outside Phase 6B''] @
        edge_errors ''subgraph '' known (sb_edges g)))"

definition validate_parallel :: "parallel_spec \<Rightarrow> py_error + unit" where
  "validate_parallel p = first_error
     ([require (1 \<le> ps_max p \<and> ps_max p \<le> 64) ''max_concurrency'',
       require (length (ps_branches p) \<ge> 2) ''branches''] @
      map (\<lambda>b. require (id_pattern (pb_id b)) ''branch_id'') (ps_branches p) @
      [require (distinct (map pb_id (ps_branches p))) ''parallel branch IDs must be unique''])"

section \<open>The execution graph\<close>

record exec_graph =
  g_id :: string
  g_contract :: contract_ref
  g_entry :: string
  g_nodes :: "node list"
  g_edges :: "edge list"

text \<open>\<open>next((n for n in nodes if n.node_id == node_id), None)\<close>\<close>

definition node_of :: "node list \<Rightarrow> string \<Rightarrow> node option" where
  "node_of ns k = find (\<lambda>n. nd_id n = k) ns"

definition top_edge_errors :: "string list \<Rightarrow> edge list \<Rightarrow> (py_error + unit) list" where
  "top_edge_errors known es = concat (map (\<lambda>(i, e).
     let label = ''edges['' @ nat_str i @ '']'' in
     [require (ed_from e \<in> set known) (label @ ''.from_node references unknown node''),
      require (ed_to e \<in> set known) (label @ ''.to_node references unknown node''),
      require (ed_from e \<noteq> ed_to e) (label @ '' must not be a self-loop'')]) (enumerate 0 es))"

definition join_errors :: "exec_graph \<Rightarrow> node \<Rightarrow> (py_error + unit) list" where
  "join_errors g n =
     (if nd_type n \<noteq> NT_Join then []
      else case nd_join n of None \<Rightarrow> [Inl AssertionError]
      | Some p \<Rightarrow>
          [require (case node_of (g_nodes g) p of None \<Rightarrow> False | Some s \<Rightarrow> nd_type s = NT_Parallel)
             (''join node '' @ nd_id n @ '' must reference a parallel node''),
           require (list_ex (\<lambda>e. ed_from e = p \<and> ed_to e = nd_id n) (g_edges g))
             (''join node '' @ nd_id n @ '' requires an edge from its parallel node'')])"

definition validate_graph :: "exec_graph \<Rightarrow> py_error + unit" where
  "validate_graph g =
     (let known = map nd_id (g_nodes g)
      in first_error
       ([min_length_1 ''graph_id'' (g_id g), min_length_1 ''entry_node_id'' (g_entry g),
         require (g_nodes g \<noteq> []) ''nodes'',
         require (distinct known) ''node IDs must be unique'',
         require (g_entry g \<in> set known) ''entry_node_id must reference an existing node''] @
        top_edge_errors known (g_edges g) @ concat (map (join_errors g) (g_nodes g))))"

section \<open>A constructed graph\<close>

text \<open>
  A model instance exists only if its validator accepted it, and so for its parts. Nested containers
  are refused in a subgraph, so two levels reach every part.
\<close>

definition wf_budget_opt :: "budget option \<Rightarrow> bool" where
  "wf_budget_opt b = (case b of None \<Rightarrow> True | Some x \<Rightarrow> validate_budget x = Inr ())"

definition wf_leaf :: "node \<Rightarrow> bool" where
  "wf_leaf n \<longleftrightarrow> validate_node n = Inr () \<and> wf_budget_opt (nd_budget n)"

definition wf_edge :: "edge \<Rightarrow> bool" where
  "wf_edge e \<longleftrightarrow> validate_edge e = Inr () \<and>
     (case ed_cond e of None \<Rightarrow> True | Some c \<Rightarrow> validate_condition c = Inr ())"

definition wf_subgraph :: "subgraph \<Rightarrow> bool" where
  "wf_subgraph s \<longleftrightarrow> validate_subgraph s = Inr () \<and> list_all wf_leaf (sb_nodes s) \<and>
     list_all wf_edge (sb_edges s)"

definition wf_parallel :: "parallel_spec \<Rightarrow> bool" where
  "wf_parallel p \<longleftrightarrow> validate_parallel p = Inr () \<and>
     list_all (\<lambda>b. wf_subgraph (pb_graph b)) (ps_branches p)"

definition wf_node :: "node \<Rightarrow> bool" where
  "wf_node n \<longleftrightarrow> wf_leaf n \<and>
     (case nd_subgraph n of None \<Rightarrow> True | Some s \<Rightarrow> wf_subgraph s) \<and>
     (case nd_parallel n of None \<Rightarrow> True | Some p \<Rightarrow> wf_parallel p)"

definition wf_graph :: "exec_graph \<Rightarrow> bool" where
  "wf_graph g \<longleftrightarrow> validate_graph g = Inr () \<and> validate_contract_ref (g_contract g) = Inr () \<and>
     list_all wf_node (g_nodes g) \<and> list_all wf_edge (g_edges g)"

section \<open>What validation gives\<close>

lemma node_of_SomeD: "node_of ns k = Some n \<Longrightarrow> n \<in> set ns \<and> nd_id n = k"
  by (auto simp: node_of_def dest: find_SomeD)

lemma node_of_exists: "k \<in> nd_id ` set ns \<Longrightarrow> \<exists>n. node_of ns k = Some n"
  by (auto simp: node_of_def find_None_iff simp flip: not_None_eq)

lemma node_of_distinct:
  "distinct (map nd_id ns) \<Longrightarrow> n \<in> set ns \<Longrightarrow> node_of ns (nd_id n) = Some n"
  unfolding node_of_def by (rule find_key_distinct)

lemma top_edge_errors_ok:
  "(\<forall>r \<in> set (top_edge_errors known es). \<exists>v. r = Inr v) \<longleftrightarrow>
     (\<forall>e \<in> set es. ed_from e \<in> set known \<and> ed_to e \<in> set known \<and> ed_from e \<noteq> ed_to e)"
proof -
  have "(\<forall>r \<in> set (concat (map (\<lambda>(i, e).
           let label = ''edges['' @ nat_str i @ '']'' in
           [require (ed_from e \<in> set known) (label @ ''.from_node references unknown node''),
            require (ed_to e \<in> set known) (label @ ''.to_node references unknown node''),
            require (ed_from e \<noteq> ed_to e) (label @ '' must not be a self-loop'')])
           (enumerate k es))). \<exists>v. r = Inr v) \<longleftrightarrow>
         (\<forall>e \<in> set es. ed_from e \<in> set known \<and> ed_to e \<in> set known \<and> ed_from e \<noteq> ed_to e)" for k
    by (induction es arbitrary: k) (simp_all add: Let_def ball_Un)
  then show ?thesis unfolding top_edge_errors_def .
qed

lemma edge_errors_ok:
  "(\<forall>r \<in> set (edge_errors prefix known es). \<exists>v. r = Inr v) \<longleftrightarrow>
     (\<forall>e \<in> set es. ed_from e \<in> set known \<and> ed_to e \<in> set known \<and> ed_from e \<noteq> ed_to e)"
proof -
  have "(\<forall>r \<in> set (concat (map (\<lambda>(i, e).
           let label = prefix @ ''edges['' @ nat_str i @ '']'' in
           [require (ed_from e \<in> set known \<and> ed_to e \<in> set known)
              (label @ '' references an unknown node''),
            require (ed_from e \<noteq> ed_to e) (label @ '' must not be a self-loop'')])
           (enumerate k es))). \<exists>v. r = Inr v) \<longleftrightarrow>
         (\<forall>e \<in> set es. ed_from e \<in> set known \<and> ed_to e \<in> set known \<and> ed_from e \<noteq> ed_to e)" for k
    by (induction es arbitrary: k) (simp_all add: Let_def ball_Un)
  then show ?thesis unfolding edge_errors_def .
qed

text \<open>What a join node needs: a parallel node it names, and an edge from that node.\<close>

definition join_resolved :: "exec_graph \<Rightarrow> node \<Rightarrow> bool" where
  "join_resolved g n \<longleftrightarrow> (\<exists>p s. nd_join n = Some p \<and> node_of (g_nodes g) p = Some s \<and>
     nd_type s = NT_Parallel \<and> (\<exists>e \<in> set (g_edges g). ed_from e = p \<and> ed_to e = nd_id n))"

lemma join_errors_ok:
  "(\<forall>r \<in> set (join_errors g n). \<exists>v. r = Inr v) \<longleftrightarrow> (nd_type n = NT_Join \<longrightarrow> join_resolved g n)"
proof (cases "nd_type n = NT_Join")
  case False
  then show ?thesis by (simp add: join_errors_def)
next
  case True
  show ?thesis
  proof (cases "nd_join n")
    case None
    with True show ?thesis by (simp add: join_errors_def join_resolved_def)
  next
    case (Some p)
    with True show ?thesis
      by (cases "node_of (g_nodes g) p") (simp_all add: join_errors_def join_resolved_def list_ex_iff)
  qed
qed

lemma validate_graph_iff:
  "validate_graph g = Inr () \<longleftrightarrow>
     g_id g \<noteq> [] \<and> g_entry g \<noteq> [] \<and> g_nodes g \<noteq> [] \<and> distinct (map nd_id (g_nodes g)) \<and>
     g_entry g \<in> nd_id ` set (g_nodes g) \<and>
     (\<forall>e \<in> set (g_edges g). ed_from e \<in> nd_id ` set (g_nodes g) \<and>
        ed_to e \<in> nd_id ` set (g_nodes g) \<and> ed_from e \<noteq> ed_to e) \<and>
     (\<forall>n \<in> set (g_nodes g). nd_type n = NT_Join \<longrightarrow> join_resolved g n)"
proof -
  have joins: "(\<forall>r \<in> set (concat (map (join_errors g) (g_nodes g))). \<exists>v. r = Inr v) \<longleftrightarrow>
      (\<forall>n \<in> set (g_nodes g). nd_type n = NT_Join \<longrightarrow> join_resolved g n)"
    using join_errors_ok by (simp add: ball_Un)
  show ?thesis
    unfolding validate_graph_def Let_def first_error_ok set_append ball_Un top_edge_errors_ok joins
    by simp
qed

lemma validate_subgraph_iff:
  "validate_subgraph g = Inr () \<longleftrightarrow>
     id_pattern (sb_id g) \<and> sb_entry g \<noteq> [] \<and> sb_nodes g \<noteq> [] \<and>
     distinct (map nd_id (sb_nodes g)) \<and> sb_entry g \<in> nd_id ` set (sb_nodes g) \<and>
     (\<forall>n \<in> set (sb_nodes g). \<not> container_type (nd_type n)) \<and>
     (\<forall>e \<in> set (sb_edges g). ed_from e \<in> nd_id ` set (sb_nodes g) \<and>
        ed_to e \<in> nd_id ` set (sb_nodes g) \<and> ed_from e \<noteq> ed_to e)"
  unfolding validate_subgraph_def Let_def first_error_ok set_append ball_Un edge_errors_ok
  by (simp add: list_all_iff)

lemma validate_parallel_iff:
  "validate_parallel p = Inr () \<longleftrightarrow>
     1 \<le> ps_max p \<and> ps_max p \<le> 64 \<and> length (ps_branches p) \<ge> 2 \<and>
     (\<forall>b \<in> set (ps_branches p). id_pattern (pb_id b)) \<and> distinct (map pb_id (ps_branches p))"
  unfolding validate_parallel_def first_error_ok set_append ball_Un by simp

lemma validate_node_container:
  assumes "validate_node n = Inr ()"
  shows "id_pattern (nd_id n)"
    and "nd_type n = NT_Parallel \<Longrightarrow> nd_parallel n \<noteq> None"
    and "nd_type n = NT_Subgraph \<Longrightarrow> nd_subgraph n \<noteq> None"
    and "nd_type n = NT_Join \<Longrightarrow> nd_join n \<noteq> None"
  using assms by (auto simp add: validate_node_def container_type_def Let_def)

end
