(* ===== verification/Reports.thy ===== *)
theory Reports
  imports Protocol
begin

text \<open>
  The protocol models of \<open>models/control.py\<close> (human messages, control intents and their results)
  and of \<open>models/reports.py\<close> (run and terminal statuses, budget usage, live and final reports),
  with the validators pydantic runs on them.
\<close>

section \<open>models/control.py\<close>

record human_message =
  hm_id :: string
  hm_actor :: string
  hm_project :: string
  hm_run :: "string option"
  hm_content :: string
  hm_created :: int

definition validate_human_message :: "human_message \<Rightarrow> py_error + unit" where
  "validate_human_message m = first_error
     [min_length_1 ''message_id'' (hm_id m), min_length_1 ''actor_id'' (hm_actor m),
      min_length_1 ''project_id'' (hm_project m), min_length_1 ''content'' (hm_content m)]"

datatype query_action = QA_Progress | QA_Risk | QA_Evidence

primrec qa_value :: "query_action \<Rightarrow> string" where
  "qa_value QA_Progress = ''query_progress''"
| "qa_value QA_Risk = ''query_risk''"
| "qa_value QA_Evidence = ''query_evidence''"

datatype change_action =
  CA_Pause | CA_Resume | CA_Interrupt | CA_Revise | CA_Restart | CA_Accept | CA_Reject

primrec ca_value :: "change_action \<Rightarrow> string" where
  "ca_value CA_Pause = ''pause''"
| "ca_value CA_Resume = ''resume''"
| "ca_value CA_Interrupt = ''interrupt''"
| "ca_value CA_Revise = ''revise''"
| "ca_value CA_Restart = ''restart''"
| "ca_value CA_Accept = ''accept''"
| "ca_value CA_Reject = ''reject''"

datatype reason_code =
  RC_HumanRequest | RC_DirectionChange | RC_RiskReview | RC_AcceptanceDecision | RC_Other

record control_reason =
  cn_code :: reason_code
  cn_detail :: "string option"

datatype urgency = UR_Normal | UR_Immediate

text \<open>The fields every intent has.\<close>

record intent_base =
  in_id :: string
  in_message :: string
  in_actor :: string
  in_project :: string
  in_run :: string
  in_reason :: control_reason
  in_confidence :: rat
  in_confirm :: bool

record query_intent = intent_base +
  qi_action :: query_action

record change_intent = intent_base +
  ci_action :: change_action
  ci_urgency :: urgency
  ci_revision :: "int option"
  ci_restart :: "restart_from option"

definition validate_intent_base :: "'a intent_base_scheme \<Rightarrow> (py_error + unit) list" where
  "validate_intent_base i =
     [min_length_1 ''intent_id'' (in_id i), min_length_1 ''source_message_id'' (in_message i),
      min_length_1 ''actor_id'' (in_actor i), min_length_1 ''project_id'' (in_project i),
      min_length_1 ''run_id'' (in_run i),
      require (0 \<le> in_confidence i \<and> in_confidence i \<le> 1) ''confidence'']"

definition validate_query_intent :: "query_intent \<Rightarrow> py_error + unit" where
  "validate_query_intent i = first_error
     (validate_intent_base i @ [require (\<not> in_confirm i) ''requires_confirmation''])"

definition validate_change_intent :: "change_intent \<Rightarrow> py_error + unit" where
  "validate_change_intent i = first_error
     (validate_intent_base i @
      [require (case ci_revision i of None \<Rightarrow> True | Some n \<Rightarrow> n \<ge> 1)
         ''proposed_contract_revision'',
       require (\<not> (ci_action i = CA_Restart \<and> ci_restart i = None))
         ''restart_from is required for restart'',
       require (\<not> (ci_action i \<noteq> CA_Restart \<and> ci_restart i \<noteq> None))
         ''restart_from is only allowed for restart'',
       require (\<not> (ci_action i = CA_Revise \<and> ci_revision i = None))
         ''proposed_contract_revision is required for revise'',
       require (\<not> (ci_action i \<noteq> CA_Revise \<and> ci_revision i \<noteq> None))
         ''proposed_contract_revision is only allowed for revise''])"

datatype control_intent = QueryIntent query_intent | ChangeIntent change_intent

primrec intent_id :: "control_intent \<Rightarrow> string" where
  "intent_id (QueryIntent i) = in_id i"
| "intent_id (ChangeIntent i) = in_id i"

primrec intent_run :: "control_intent \<Rightarrow> string" where
  "intent_run (QueryIntent i) = in_run i"
| "intent_run (ChangeIntent i) = in_run i"

primrec intent_value :: "control_intent \<Rightarrow> string" where
  "intent_value (QueryIntent i) = qa_value (qi_action i)"
| "intent_value (ChangeIntent i) = ca_value (ci_action i)"

datatype control_outcome = CO_Applied | CO_Rejected | CO_NoOp | CO_Error

primrec co_value :: "control_outcome \<Rightarrow> string" where
  "co_value CO_Applied = ''applied''"
| "co_value CO_Rejected = ''rejected''"
| "co_value CO_NoOp = ''no_op''"
| "co_value CO_Error = ''error''"

record action_result =
  ac_intent :: string
  ac_outcome :: control_outcome
  ac_changed :: bool
  ac_status :: "string option"
  ac_message :: string
  ac_error :: "error option"

definition validate_action_result :: "action_result \<Rightarrow> py_error + unit" where
  "validate_action_result r = first_error
     [min_length_1 ''intent_id'' (ac_intent r), min_length_1 ''message'' (ac_message r),
      require (\<not> (ac_outcome r = CO_Error \<and> ac_error r = None))
        ''error is required when outcome is error'',
      require (\<not> (ac_outcome r \<noteq> CO_Error \<and> ac_error r \<noteq> None))
        ''error is only allowed when outcome is error'',
      require (\<not> ((ac_outcome r = CO_Rejected \<or> ac_outcome r = CO_NoOp) \<and> ac_changed r))
        ''rejected and no_op outcomes cannot report state_changed=true'']"

section \<open>models/reports.py\<close>

datatype run_status =
    RS_Draft | RS_AwaitingConfirmation | RS_Running | RS_PauseRequested | RS_Quiescing | RS_Paused
  | RS_DeliveryReady | RS_Succeeded | RS_Failed | RS_Error | RS_Interrupted | RS_Cancelled
  | RS_Rejected

primrec rs_value :: "run_status \<Rightarrow> string" where
  "rs_value RS_Draft = ''draft''"
| "rs_value RS_AwaitingConfirmation = ''awaiting_confirmation''"
| "rs_value RS_Running = ''running''"
| "rs_value RS_PauseRequested = ''pause_requested''"
| "rs_value RS_Quiescing = ''quiescing''"
| "rs_value RS_Paused = ''paused''"
| "rs_value RS_DeliveryReady = ''delivery_ready''"
| "rs_value RS_Succeeded = ''succeeded''"
| "rs_value RS_Failed = ''failed''"
| "rs_value RS_Error = ''error''"
| "rs_value RS_Interrupted = ''interrupted''"
| "rs_value RS_Cancelled = ''cancelled''"
| "rs_value RS_Rejected = ''rejected''"

datatype terminal_status =
  TS_Succeeded | TS_Failed | TS_Error | TS_Interrupted | TS_Cancelled | TS_Rejected

text \<open>A terminal status is written to the run's status column by its value, which both enums share.\<close>

primrec rs_of_ts :: "terminal_status \<Rightarrow> run_status" where
  "rs_of_ts TS_Succeeded = RS_Succeeded"
| "rs_of_ts TS_Failed = RS_Failed"
| "rs_of_ts TS_Error = RS_Error"
| "rs_of_ts TS_Interrupted = RS_Interrupted"
| "rs_of_ts TS_Cancelled = RS_Cancelled"
| "rs_of_ts TS_Rejected = RS_Rejected"

definition ts_value :: "terminal_status \<Rightarrow> string" where
  "ts_value t = rs_value (rs_of_ts t)"

definition terminal_statuses :: "terminal_status list" where
  "terminal_statuses =
     [TS_Succeeded, TS_Failed, TS_Error, TS_Interrupted, TS_Cancelled, TS_Rejected]"

lemma rs_value_inj: "rs_value a = rs_value b \<longleftrightarrow> a = b"
  by (cases a; cases b; simp)

lemma rs_of_ts_inj: "rs_of_ts a = rs_of_ts b \<longleftrightarrow> a = b"
  by (cases a; cases b; simp)

lemma all_terminal_statuses: "t \<in> set terminal_statuses"
  by (cases t) (simp_all add: terminal_statuses_def)

datatype terminal_reason =
    TR_Completed | TR_AcceptanceFailed | TR_ExecutionError | TR_HumanInterrupted | TR_HumanCancelled
  | TR_HumanRejected | TR_BudgetExhausted | TR_AuthorizationBlocked | TR_ContractConflict

primrec tr_value :: "terminal_reason \<Rightarrow> string" where
  "tr_value TR_Completed = ''completed''"
| "tr_value TR_AcceptanceFailed = ''acceptance_failed''"
| "tr_value TR_ExecutionError = ''execution_error''"
| "tr_value TR_HumanInterrupted = ''human_interrupted''"
| "tr_value TR_HumanCancelled = ''human_cancelled''"
| "tr_value TR_HumanRejected = ''human_rejected''"
| "tr_value TR_BudgetExhausted = ''budget_exhausted''"
| "tr_value TR_AuthorizationBlocked = ''authorization_blocked''"
| "tr_value TR_ContractConflict = ''contract_conflict''"

record budget_usage =
  bu_duration :: int
  bu_calls :: int
  bu_repairs :: int
  bu_cost :: "rat option"

definition validate_budget_usage :: "budget_usage \<Rightarrow> py_error + unit" where
  "validate_budget_usage u = first_error
     [require (0 \<le> bu_duration u) ''duration_seconds'',
      require (0 \<le> bu_calls u) ''executor_calls'',
      require (0 \<le> bu_repairs u) ''repair_iterations'',
      require (case bu_cost u of None \<Rightarrow> True | Some c \<Rightarrow> 0 \<le> c) ''cost_units'']"

record unverified_item =
  uv_id :: string
  uv_description :: string
  uv_reason :: string
  uv_impact :: string

definition validate_unverified :: "unverified_item \<Rightarrow> py_error + unit" where
  "validate_unverified u = first_error
     [min_length_1 ''item_id'' (uv_id u), min_length_1 ''description'' (uv_description u),
      min_length_1 ''reason'' (uv_reason u), min_length_1 ''impact'' (uv_impact u)]"

record external_effect =
  xe_id :: string
  xe_description :: string
  xe_reversible :: bool
  xe_compensation :: "string option"
  xe_evidence :: "string list"

definition validate_external_effect :: "external_effect \<Rightarrow> py_error + unit" where
  "validate_external_effect x = first_error
     [min_length_1 ''effect_id'' (xe_id x), min_length_1 ''description'' (xe_description x)]"

record live_report =
  lr_id :: string
  lr_run :: string
  lr_contract :: contract_ref
  lr_generated :: int
  lr_status :: run_status
  lr_current :: "string option"
  lr_completed :: "string list"
  lr_progress :: string
  lr_risks :: "string list"
  lr_unverified :: "unverified_item list"
  lr_budget :: budget
  lr_usage :: budget_usage
  lr_artifacts :: "artifact list"

definition validate_live_report :: "live_report \<Rightarrow> py_error + unit" where
  "validate_live_report r = first_error
     [min_length_1 ''report_id'' (lr_id r), min_length_1 ''run_id'' (lr_run r),
      min_length_1 ''progress_summary'' (lr_progress r),
      require (rs_value (lr_status r) \<notin> set (map ts_value terminal_statuses))
        ''LiveReport cannot use a terminal run_status'']"

record final_report =
  fr_id :: string
  fr_revision :: int
  fr_frozen :: int
  fr_relationship :: relationship
  fr_contract :: contract_ref
  fr_status :: terminal_status
  fr_reason :: terminal_reason
  fr_summary :: string
  fr_changed :: "string list"
  fr_completed :: "string list"
  fr_verification :: "artifact list"
  fr_review :: "artifact list"
  fr_intents :: "string list"
  fr_unverified :: "unverified_item list"
  fr_effects :: "external_effect list"
  fr_usage :: budget_usage
  fr_risks :: "string list"
  fr_error :: "error option"

primrec allowed_reasons :: "terminal_status \<Rightarrow> terminal_reason list" where
  "allowed_reasons TS_Succeeded = [TR_Completed]"
| "allowed_reasons TS_Failed =
     [TR_AcceptanceFailed, TR_BudgetExhausted, TR_AuthorizationBlocked, TR_ContractConflict]"
| "allowed_reasons TS_Error = [TR_ExecutionError]"
| "allowed_reasons TS_Interrupted = [TR_HumanInterrupted]"
| "allowed_reasons TS_Cancelled = [TR_HumanCancelled]"
| "allowed_reasons TS_Rejected = [TR_HumanRejected]"

definition validate_final_report :: "final_report \<Rightarrow> py_error + unit" where
  "validate_final_report r = first_error
     [min_length_1 ''report_id'' (fr_id r), require (fr_revision r \<ge> 1) ''report_revision'',
      min_length_1 ''summary'' (fr_summary r),
      require (fr_reason r \<in> set (allowed_reasons (fr_status r)))
        ''terminal_reason is incompatible with terminal_status'',
      require (\<not> (fr_status r = TS_Error \<and> fr_error r = None))
        ''error is required when terminal_status is error'',
      require (\<not> (fr_status r \<noteq> TS_Error \<and> fr_error r \<noteq> None))
        ''error is only allowed when terminal_status is error'']"

end
