(* ===== verification/Threads.thy ===== *)
theory Threads
  imports Prelude
begin

text \<open>
  The runtime is called from several threads and processes at once (the branches of a parallel
  node, a control command while a run is scheduled), and what it promises is atomic is a database
  transaction. A \<open>thread\<close> is a program cut at those points: each step is one atomic operation on
  the shared state. \<open>run_thread\<close> executes a thread alone; \<open>interleave\<close> executes a list of threads
  in the order a schedule picks their steps. \<open>steps_in R\<close> says that every single step of a thread,
  whatever the state it meets, is in the relation \<open>R\<close>; it is what survives any interleaving.
\<close>

section \<open>Threads\<close>

datatype ('s, 'a) thread =
    Done "py_error + 'a"
  | Step "'s \<Rightarrow> ('s, 'a) thread \<times> 's"

definition atomic :: "('s, 'a) op \<Rightarrow> ('s, 'a) thread" where
  "atomic m = Step (\<lambda>s. case m s of (r, t) \<Rightarrow> (Done r, t))"

definition return_t :: "'a \<Rightarrow> ('s, 'a) thread" where
  "return_t x = Done (Inr x)"

definition raise_t :: "py_error \<Rightarrow> ('s, 'a) thread" where
  "raise_t e = Done (Inl e)"

definition require_t :: "bool \<Rightarrow> py_error \<Rightarrow> ('s, unit) thread" where
  "require_t b e = (if b then Done (Inr ()) else Done (Inl e))"

primrec bind_t :: "('s, 'a) thread \<Rightarrow> ('a \<Rightarrow> ('s, 'b) thread) \<Rightarrow> ('s, 'b) thread" where
  "bind_t (Done r) f = (case r of Inl e \<Rightarrow> Done (Inl e) | Inr x \<Rightarrow> f x)"
| "bind_t (Step g) f = Step (map_prod (\<lambda>m. bind_t m f) id \<circ> g)"

definition seq_t :: "('s, 'a) thread \<Rightarrow> ('s, 'b) thread \<Rightarrow> ('s, 'b) thread" where
  "seq_t m n = bind_t m (\<lambda>_. n)"

text \<open>\<open>try: m except: h\<close>; the handler decides which exceptions it raises again.\<close>

primrec catch_t :: "('s, 'a) thread \<Rightarrow> (py_error \<Rightarrow> ('s, 'a) thread) \<Rightarrow> ('s, 'a) thread" where
  "catch_t (Done r) h = (case r of Inl e \<Rightarrow> h e | Inr x \<Rightarrow> Done (Inr x))"
| "catch_t (Step g) h = Step (map_prod (\<lambda>m. catch_t m h) id \<circ> g)"

text \<open>The outcome of a thread as a value, for \<open>future.result()\<close>.\<close>

primrec outcome_t :: "('s, 'a) thread \<Rightarrow> ('s, py_error + 'a) thread" where
  "outcome_t (Done r) = Done (Inr r)"
| "outcome_t (Step g) = Step (map_prod outcome_t id \<circ> g)"

fun for_each_t :: "('a \<Rightarrow> ('s, unit) thread) \<Rightarrow> 'a list \<Rightarrow> ('s, unit) thread" where
  "for_each_t f [] = return_t ()"
| "for_each_t f (x # xs) = seq_t (f x) (for_each_t f xs)"

definition reads :: "('s \<Rightarrow> 'a) \<Rightarrow> ('s, 'a) thread" where
  "reads f = atomic (gets f)"

section \<open>Running a thread alone\<close>

primrec run_thread :: "('s, 'a) thread \<Rightarrow> ('s, 'a) op" where
  "run_thread (Done r) = (\<lambda>s. (r, s))"
| "run_thread (Step g) = (\<lambda>s. case map_prod run_thread id (g s) of (k, t) \<Rightarrow> k t)"

lemma run_Step [simp]: "run_thread (Step g) s = run_thread (fst (g s)) (snd (g s))"
  by (simp add: case_prod_beta)

declare run_thread.simps(2) [simp del]

lemma run_return [simp]: "run_thread (return_t x) = ret x"
  by (simp add: return_t_def ret_def fun_eq_iff)

lemma run_raise [simp]: "run_thread (raise_t e) = raise e"
  by (simp add: raise_t_def raise_def fun_eq_iff)

lemma run_require [simp]: "run_thread (require_t b e) = guard b e"
  by (simp add: require_t_def guard_def fun_eq_iff)

lemma run_atomic [simp]: "run_thread (atomic m) = m"
  by (simp add: atomic_def fun_eq_iff case_prod_beta)

lemma run_reads [simp]: "run_thread (reads f) = gets f"
  by (simp add: reads_def)

lemma run_bind [simp]: "run_thread (bind_t m f) = bind_op (run_thread m) (\<lambda>x. run_thread (f x))"
proof
  show "run_thread (bind_t m f) s = bind_op (run_thread m) (\<lambda>x. run_thread (f x)) s" for s
  proof (induction m arbitrary: s)
    case (Done r)
    then show ?case by (simp add: bind_op_def split: sum.split)
  next
    case (Step g)
    have "run_thread (bind_t (fst (g s)) f) (snd (g s)) =
        bind_op (run_thread (fst (g s))) (\<lambda>x. run_thread (f x)) (snd (g s))"
      by (rule Step) (auto simp: fsts.simps prod_set_defs intro: rangeI)
    then show ?case by (simp add: bind_op_def)
  qed
qed

lemma run_seq [simp]: "run_thread (seq_t m n) = seq_op (run_thread m) (run_thread n)"
  by (simp add: seq_t_def fun_eq_iff bind_op_def seq_op_def)

definition catch_op :: "('s, 'a) op \<Rightarrow> (py_error \<Rightarrow> ('s, 'a) op) \<Rightarrow> ('s, 'a) op" where
  [op_defs]: "catch_op m h s = (case m s of (Inl e, t) \<Rightarrow> h e t | (Inr x, t) \<Rightarrow> (Inr x, t))"

lemma run_catch [simp]: "run_thread (catch_t m h) = catch_op (run_thread m) (\<lambda>e. run_thread (h e))"
proof
  show "run_thread (catch_t m h) s = catch_op (run_thread m) (\<lambda>e. run_thread (h e)) s" for s
  proof (induction m arbitrary: s)
    case (Done r)
    then show ?case by (simp add: catch_op_def split: sum.split)
  next
    case (Step g)
    have "run_thread (catch_t (fst (g s)) h) (snd (g s)) =
        catch_op (run_thread (fst (g s))) (\<lambda>e. run_thread (h e)) (snd (g s))"
      by (rule Step) (auto simp: fsts.simps prod_set_defs intro: rangeI)
    then show ?case by (simp add: catch_op_def)
  qed
qed

lemma run_for_each [simp]: "run_thread (for_each_t f xs) = for_each (\<lambda>x. run_thread (f x)) xs"
  by (induction xs) simp_all

section \<open>Running threads together\<close>

text \<open>One step of the \<open>i\<close>-th thread of the list; a finished one, or none there, does nothing.\<close>

definition step_nth :: "nat \<Rightarrow> ('s, 'a) thread list \<times> 's \<Rightarrow> ('s, 'a) thread list \<times> 's" where
  "step_nth i = (\<lambda>(ts, s).
     if i < length ts then
       (case ts ! i of Done r \<Rightarrow> (ts, s) | Step g \<Rightarrow> (case g s of (t, s') \<Rightarrow> (ts[i := t], s')))
     else (ts, s))"

text \<open>The schedule's picks, as one thread that has the steps of all.\<close>

primrec interleave :: "nat list \<Rightarrow> ('s, 'a) thread list \<Rightarrow> ('s, ('s, 'a) thread list) thread" where
  "interleave [] ts = return_t ts"
| "interleave (i # is) ts =
     (if i < length ts then
        (case ts ! i of Done r \<Rightarrow> interleave is ts
         | Step g \<Rightarrow> Step (\<lambda>s. case g s of (t, s') \<Rightarrow> (interleave is (ts[i := t]), s')))
      else interleave is ts)"

text \<open>Waiting for every thread, then taking the outcomes in the order of the list.\<close>

fun wait_all :: "('s, 'a) thread list \<Rightarrow> ('s, (py_error + 'a) list) thread" where
  "wait_all [] = return_t []"
| "wait_all (t # ts) = bind_t (outcome_t t) (\<lambda>r. bind_t (wait_all ts) (\<lambda>rs. return_t (r # rs)))"

fun first_failure :: "(py_error + 'a) list \<Rightarrow> ('s, unit) thread" where
  "first_failure [] = return_t ()"
| "first_failure (Inl e # rs) = raise_t e"
| "first_failure (Inr x # rs) = first_failure rs"

text \<open>
  \<open>with ThreadPoolExecutor(max_workers=len(ts)) as pool\<close>: submit every thread, wait, then
  \<open>future.result()\<close> in order, which raises the first failure.
\<close>

definition thread_pool :: "nat list \<Rightarrow> ('s, unit) thread list \<Rightarrow> ('s, unit) thread" where
  "thread_pool schedule ts =
     bind_t (interleave schedule ts) (\<lambda>rest. bind_t (wait_all rest) first_failure)"

section \<open>What every step does\<close>

primrec steps_in :: "('s \<Rightarrow> 's \<Rightarrow> bool) \<Rightarrow> ('s, 'a) thread \<Rightarrow> bool" where
  "steps_in R (Done r) \<longleftrightarrow> True"
| "steps_in R (Step g) \<longleftrightarrow>
     (\<forall>s. R s (snd (g s)) \<and> (case map_prod (steps_in R) id (g s) of (b, t) \<Rightarrow> b))"

lemma steps_in_Step [simp]:
  "steps_in R (Step g) \<longleftrightarrow> (\<forall>s. R s (snd (g s)) \<and> steps_in R (fst (g s)))"
  by (simp add: case_prod_beta)

declare steps_in.simps(2) [simp del]

named_theorems steps_intros \<open>rules for steps_in over the thread combinators\<close>

lemma steps_return [steps_intros]: "steps_in R (return_t x)"
  by (simp add: return_t_def)

lemma steps_raise [steps_intros]: "steps_in R (raise_t e)"
  by (simp add: raise_t_def)

lemma steps_require [steps_intros]: "steps_in R (require_t b e)"
  by (simp add: require_t_def)

lemma steps_atomic [steps_intros]: "(\<And>s. R s (snd (m s))) \<Longrightarrow> steps_in R (atomic m)"
  by (simp add: atomic_def case_prod_beta)

lemma steps_reads: "reflp R \<Longrightarrow> steps_in R (reads f)"
  by (simp add: reads_def atomic_def gets_def reflp_def)

lemma steps_bind [steps_intros]:
  assumes "steps_in R m" and "\<And>x. steps_in R (f x)"
  shows "steps_in R (bind_t m f)"
  using assms(1)
proof (induction m)
  case (Done r)
  then show ?case by (simp add: assms(2) split: sum.split)
next
  case (Step g)
  have "steps_in R (bind_t (fst (g s)) f)" for s
    by (rule Step.IH) (use Step.prems in \<open>auto simp: fsts.simps prod_set_defs intro: rangeI\<close>)
  with Step.prems show ?case by simp
qed

lemma steps_seq [steps_intros]: "steps_in R m \<Longrightarrow> steps_in R n \<Longrightarrow> steps_in R (seq_t m n)"
  by (simp add: seq_t_def steps_bind)

lemma steps_catch [steps_intros]:
  assumes "steps_in R m" and "\<And>e. steps_in R (h e)"
  shows "steps_in R (catch_t m h)"
  using assms(1)
proof (induction m)
  case (Done r)
  then show ?case by (simp add: assms(2) split: sum.split)
next
  case (Step g)
  have "steps_in R (catch_t (fst (g s)) h)" for s
    by (rule Step.IH) (use Step.prems in \<open>auto simp: fsts.simps prod_set_defs intro: rangeI\<close>)
  with Step.prems show ?case by simp
qed

lemma steps_outcome [steps_intros]: "steps_in R m \<Longrightarrow> steps_in R (outcome_t m)"
proof (induction m)
  case (Done r)
  then show ?case by simp
next
  case (Step g)
  have "steps_in R (outcome_t (fst (g s)))" for s
    by (rule Step.IH) (use Step.prems in \<open>auto simp: fsts.simps prod_set_defs intro: rangeI\<close>)
  with Step.prems show ?case by simp
qed

lemma steps_for_each [steps_intros]:
  "(\<And>x. x \<in> set xs \<Longrightarrow> steps_in R (f x)) \<Longrightarrow> steps_in R (for_each_t f xs)"
  by (induction xs) (auto intro!: steps_return steps_seq)

lemma steps_interleave [steps_intros]:
  "(\<And>t. t \<in> set ts \<Longrightarrow> steps_in R t) \<Longrightarrow> steps_in R (interleave is ts)"
proof (induction "is" arbitrary: ts)
  case Nil
  then show ?case by (simp add: steps_return)
next
  case (Cons i "is")
  show ?case
  proof (cases "i < length ts")
    case True
    show ?thesis
    proof (cases "ts ! i")
      case (Done r)
      with True Cons show ?thesis by simp
    next
      case (Step g)
      with True Cons.prems have g: "steps_in R (Step g)" by (metis nth_mem)
      have "steps_in R (interleave is (ts[i := fst (g s)]))" for s
        by (rule Cons.IH) (use g Cons.prems set_update_subset_insert in \<open>fastforce\<close>)
      with True Step g show ?thesis by (simp add: case_prod_beta)
    qed
  next
    case False
    with Cons show ?thesis by simp
  qed
qed

lemma steps_if [steps_intros]:
  "(b \<Longrightarrow> steps_in R m) \<Longrightarrow> (\<not> b \<Longrightarrow> steps_in R n) \<Longrightarrow> steps_in R (if b then m else n)"
  by simp

lemma steps_case_option [steps_intros]:
  "(x = None \<Longrightarrow> steps_in R m) \<Longrightarrow> (\<And>y. x = Some y \<Longrightarrow> steps_in R (f y))
    \<Longrightarrow> steps_in R (case x of None \<Rightarrow> m | Some y \<Rightarrow> f y)"
  by (cases x) auto

lemma steps_case_prod [steps_intros]:
  "(\<And>y z. x = (y, z) \<Longrightarrow> steps_in R (f y z)) \<Longrightarrow> steps_in R (case x of (y, z) \<Rightarrow> f y z)"
  by (cases x) auto

lemma steps_wait_all [steps_intros]:
  "(\<And>t. t \<in> set ts \<Longrightarrow> steps_in R t) \<Longrightarrow> steps_in R (wait_all ts)"
  by (induction ts) (auto intro!: steps_return steps_bind steps_outcome)

lemma steps_first_failure [steps_intros]: "steps_in R (first_failure rs)"
  by (induction rs rule: first_failure.induct) (auto intro: steps_return steps_raise)

text \<open>The threads left after a schedule are still made of steps in \<open>R\<close>.\<close>

lemma steps_interleave_bind:
  assumes "\<And>t. t \<in> set ts \<Longrightarrow> steps_in R t"
    and "\<And>us. (\<And>t. t \<in> set us \<Longrightarrow> steps_in R t) \<Longrightarrow> steps_in R (f us)"
  shows "steps_in R (bind_t (interleave is ts) f)"
  using assms(1)
proof (induction "is" arbitrary: ts)
  case Nil
  then show ?case by (simp add: return_t_def assms(2))
next
  case (Cons i "is")
  show ?case
  proof (cases "i < length ts")
    case True
    show ?thesis
    proof (cases "ts ! i")
      case (Done r)
      with True Cons show ?thesis by simp
    next
      case (Step g)
      with True Cons.prems have g: "steps_in R (Step g)" by (metis nth_mem)
      have "steps_in R (bind_t (interleave is (ts[i := fst (g s)])) f)" for s
        by (rule Cons.IH) (use g Cons.prems set_update_subset_insert in \<open>fastforce\<close>)
      with True Step g show ?thesis by (simp add: case_prod_beta)
    qed
  next
    case False
    with Cons show ?thesis by simp
  qed
qed

lemma steps_pool [steps_intros]:
  "(\<And>t. t \<in> set ts \<Longrightarrow> steps_in R t) \<Longrightarrow> steps_in R (thread_pool schedule ts)"
  unfolding thread_pool_def
  by (rule steps_interleave_bind) (auto intro!: steps_bind steps_wait_all steps_first_failure)

lemma steps_mono: "steps_in R t \<Longrightarrow> (\<And>s s'. R s s' \<Longrightarrow> Q s s') \<Longrightarrow> steps_in Q t"
proof (induction t)
  case (Done r)
  then show ?case by simp
next
  case (Step g)
  have "steps_in Q (fst (g s))" for s
    by (rule Step.IH) (use Step.prems in \<open>auto simp: fsts.simps prod_set_defs intro: rangeI\<close>)
  with Step.prems show ?case by simp
qed

text \<open>A thread run alone is a chain of its steps.\<close>

lemma steps_run: "steps_in R t \<Longrightarrow> R\<^sup>*\<^sup>* s (snd (run_thread t s))"
proof (induction t arbitrary: s)
  case (Done r)
  then show ?case by simp
next
  case (Step g)
  have "R\<^sup>*\<^sup>* (snd (g s)) (snd (run_thread (fst (g s)) (snd (g s))))"
    by (rule Step.IH) (use Step.prems in \<open>auto simp: fsts.simps prod_set_defs intro: rangeI\<close>)
  moreover have "R s (snd (g s))" using Step.prems by simp
  ultimately show ?case by (simp add: converse_rtranclp_into_rtranclp)
qed

definition preserves :: "('s \<Rightarrow> bool) \<Rightarrow> 's \<Rightarrow> 's \<Rightarrow> bool" where
  "preserves P s t \<longleftrightarrow> (P s \<longrightarrow> P t)"

lemma preserves_refl [simp]: "preserves P s s" "reflp (preserves P)"
  by (simp_all add: preserves_def reflp_def)

lemma preserves_star: "(preserves P)\<^sup>*\<^sup>* s t \<Longrightarrow> P s \<Longrightarrow> P t"
  by (induction rule: rtranclp_induct) (simp_all add: preserves_def)

lemma preserves_keeps: "keeps P m \<longleftrightarrow> (\<forall>s. preserves P s (snd (m s)))"
  by (simp add: keeps_def preserves_def)

lemma steps_keeps:
  assumes "steps_in (preserves P) t"
  shows "keeps P (run_thread t)"
proof (rule keepsI)
  show "P (snd (run_thread t s))" if "P s" for s
    using steps_run [OF assms, of s] that by (rule preserves_star)
qed

lemma keeps_catch [keeps_intros]:
  "keeps P m \<Longrightarrow> (\<And>e. keeps P (h e)) \<Longrightarrow> keeps P (catch_op m h)"
  by (fastforce simp: keeps_def catch_op_def split: prod.splits sum.splits)

end
