(* ===== verification/Store.thy ===== *)
theory Store
  imports Graph_Model Reports Threads
begin

text \<open>
  The state store of \<open>runtime/store.py\<close>: a record with one list of rows per SQLite table the
  runtime uses, transactions, the event outbox, and the event log of \<open>runtime/events.py\<close> with its
  flush. Columns that are written and never read again by the runtime (creation and update
  times) are left out; a JSON column holds the value it is the JSON of; \<open>uuid4()\<close> is a counter,
  which gives the distinct values the code relies on.
\<close>

section \<open>Rows\<close>

datatype barrier = B_Pause | B_Interrupt | B_Cancel

primrec barrier_value :: "barrier \<Rightarrow> string" where
  "barrier_value B_Pause = ''pause''"
| "barrier_value B_Interrupt = ''interrupt''"
| "barrier_value B_Cancel = ''cancel''"

record run_row =
  rn_id :: string
  rn_project :: string
  rn_contract :: contract_ref
  rn_contract_hash :: string
  rn_graph_id :: string
  rn_graph_hash :: string
  rn_graph :: exec_graph
  rn_status :: run_status
  rn_barrier :: "barrier option"
  rn_current :: "string option"
  rn_parent :: "string option"
  rn_supersedes :: "string option"
  rn_restart :: "restart_from option"
  rn_reason :: "terminal_reason option"
  rn_error :: "error option"
  rn_unverified :: "unverified_item list"
  rn_effects :: "external_effect list"

datatype node_state =
  NS_Pending | NS_Ready | NS_Running | NS_Succeeded | NS_Failed | NS_Blocked | NS_Error |
  NS_Cancelled

primrec ns_value :: "node_state \<Rightarrow> string" where
  "ns_value NS_Pending = ''pending''"
| "ns_value NS_Ready = ''ready''"
| "ns_value NS_Running = ''running''"
| "ns_value NS_Succeeded = ''succeeded''"
| "ns_value NS_Failed = ''failed''"
| "ns_value NS_Blocked = ''blocked''"
| "ns_value NS_Error = ''error''"
| "ns_value NS_Cancelled = ''cancelled''"

record node_row =
  nr_run :: string
  nr_node :: string
  nr_type :: node_type
  nr_status :: node_state
  nr_count :: int
  nr_result :: "result option"
  nr_resolved :: bool
  nr_first :: "int option"
  nr_cost :: rat
  nr_repairs :: int

record attempt_row =
  at_id :: string
  at_run :: string
  at_node :: string
  at_number :: int
  at_status :: node_state
  at_result :: "result option"

record traversal_row =
  tv_run :: string
  tv_from :: string
  tv_to :: string
  tv_count :: int

record budget_row =
  bd_run :: string
  bd_max_duration :: int
  bd_max_calls :: int
  bd_max_repairs :: int
  bd_max_cost :: "rat option"
  bd_calls :: int
  bd_repairs :: int
  bd_cost :: "rat option"
  bd_started :: int

datatype trigger_state = Triggering | Checkpointed

record handle_row =
  xh_run :: string
  xh_node :: string
  xh_key :: string
  xh_trigger :: trigger_state
  xh_handle :: "string option"
  xh_verifier :: "string option"
  xh_revision :: int
  xh_cancel :: "string option"
  xh_residual :: "string option"

record intent_row =
  ir_id :: string
  ir_run :: string
  ir_intent :: control_intent
  ir_outcome :: control_outcome
  ir_created :: int

record report_row =
  rp_run :: string
  rp_report :: final_report

record artifact_row =
  am_id :: string
  am_run :: string
  am_uri :: string
  am_sha :: string
  am_media :: "string option"
  am_size :: int
  am_created :: int
  am_kind :: artifact_kind

record run_artifact_row =
  ra_run :: string
  ra_artifact :: string
  ra_node :: string
  ra_role :: string
  ra_from :: "string option"

record event =
  ev_id :: string
  ev_type :: string
  ev_run :: string
  ev_node :: "string option"
  ev_attempt :: "string option"
  ev_payload :: "(string \<times> json) list"

record outbox_row =
  ob_event :: event
  ob_delivered :: bool

subsection \<open>Branches of container nodes (migration 8)\<close>

text \<open>A branch is pending, active, or has ended with one of the \<open>BranchStatus\<close> values.\<close>

datatype branch_state = BH_Pending | BH_Active | BH_Ended branch_status

definition branch_ended :: "branch_state \<Rightarrow> bool" where
  "branch_ended s \<longleftrightarrow> (case s of BH_Ended _ \<Rightarrow> True | _ \<Rightarrow> False)"

record branch_row =
  bh_run :: string
  bh_container :: string
  bh_branch :: string
  bh_order :: nat
  bh_graph :: subgraph
  bh_hash :: string
  bh_status :: branch_state
  bh_current :: "string option"
  bh_result :: "branch_result option"

record branch_node_row =
  bn_run :: string
  bn_container :: string
  bn_branch :: string
  bn_node :: string
  bn_type :: node_type
  bn_status :: node_state
  bn_count :: int
  bn_result :: "result option"
  bn_resolved :: bool
  bn_first :: "int option"
  bn_cost :: rat
  bn_repairs :: int

record branch_attempt_row =
  ba_id :: string
  ba_run :: string
  ba_container :: string
  ba_branch :: string
  ba_node :: string
  ba_number :: int
  ba_status :: node_state
  ba_result :: "result option"

record branch_traversal_row =
  bt_run :: string
  bt_container :: string
  bt_branch :: string
  bt_from :: string
  bt_to :: string
  bt_count :: int

record reservation_row =
  rv_run :: string
  rv_id :: string
  rv_node :: "string option"
  rv_cost :: rat

subsection \<open>Checkpoints\<close>

text \<open>The image of the run that \<open>_checkpoint\<close> writes; of a node row it keeps six columns.\<close>

record node_image =
  ni_node :: string
  ni_type :: node_type
  ni_status :: node_state
  ni_count :: int
  ni_result :: "result option"
  ni_resolved :: bool

record run_image =
  im_run :: string
  im_reason :: string
  im_graph_hash :: string
  im_contract_hash :: string
  im_current :: "string option"
  im_nodes :: "node_image list"
  im_edges :: "traversal_row list"
  im_artifacts :: "run_artifact_row list"
  im_branches :: "branch_row list"
  im_branch_nodes :: "branch_node_row list"
  im_branch_edges :: "branch_traversal_row list"

record checkpoint_row =
  cp_ref :: string
  cp_run :: string
  cp_reason :: string
  cp_state :: run_image

section \<open>The database and the world\<close>

record db =
  db_runs :: "run_row list"
  db_nodes :: "node_row list"
  db_attempts :: "attempt_row list"
  db_edges :: "traversal_row list"
  db_budgets :: "budget_row list"
  db_checkpoints :: "checkpoint_row list"
  db_handles :: "handle_row list"
  db_intents :: "intent_row list"
  db_reports :: "report_row list"
  db_artifacts :: "artifact_row list"
  db_run_artifacts :: "run_artifact_row list"
  db_outbox :: "outbox_row list"
  db_branches :: "branch_row list"
  db_branch_nodes :: "branch_node_row list"
  db_branch_attempts :: "branch_attempt_row list"
  db_branch_edges :: "branch_traversal_row list"
  db_reservations :: "reservation_row list"
  db_uuid :: nat

definition empty_db :: db where
  "empty_db = \<lparr>db_runs = [], db_nodes = [], db_attempts = [], db_edges = [], db_budgets = [],
     db_checkpoints = [], db_handles = [], db_intents = [], db_reports = [], db_artifacts = [],
     db_run_artifacts = [], db_outbox = [], db_branches = [], db_branch_nodes = [],
     db_branch_attempts = [], db_branch_edges = [], db_reservations = [], db_uuid = 0\<rparr>"

text \<open>
  The world a runtime process works in: the database and the event log on disk, the cache of
  graphs in memory, the clock (in microseconds; only the environment advances it), and the state
  of everything outside the runtime, of a type the model leaves open.
\<close>

record 'x world =
  w_db :: db
  w_log :: "event list"
  w_graphs :: "string \<Rightarrow> exec_graph option"
  w_now :: int
  w_ext :: 'x

text \<open>
  \<open>with self.state.transaction()\<close>: an exception rolls the database back. The function gets the
  clock, for the columns a transaction fills from it.
\<close>

definition tx_op :: "(int \<Rightarrow> (db, 'a) op) \<Rightarrow> ('x world, 'a) op" where
  "tx_op m w = (case m (w_now w) (w_db w) of
     (Inl e, _) \<Rightarrow> (Inl e, w)
   | (Inr x, d) \<Rightarrow> (Inr x, w\<lparr>w_db := d\<rparr>))"

definition tx :: "(int \<Rightarrow> (db, 'a) op) \<Rightarrow> ('x world, 'a) thread" where
  "tx m = atomic (tx_op m)"

text \<open>\<open>with self.state.read_connection()\<close>: a consistent snapshot; the body may raise.\<close>

definition reading :: "(int \<Rightarrow> db \<Rightarrow> py_error + 'a) \<Rightarrow> ('x world, 'a) thread" where
  "reading f = atomic (\<lambda>w. (f (w_now w) (w_db w), w))"

lemma run_tx [simp]: "run_thread (tx m) = tx_op m"
  by (simp add: tx_def)

lemma run_reading [simp]: "run_thread (reading f) w = (f (w_now w) (w_db w), w)"
  by (simp add: reading_def)

section \<open>The outbox\<close>

text \<open>\<open>enqueue_event\<close>: the event joins the transaction that caused it.\<close>

definition uuid_str :: "nat \<Rightarrow> string" where
  "uuid_str n = nat_str n"

lemma uuid_str_inj: "uuid_str a = uuid_str b \<longleftrightarrow> a = b"
  by (auto simp: uuid_str_def dest: nat_str_inj)

definition enqueue_event ::
  "string \<Rightarrow> string \<Rightarrow> string option \<Rightarrow> string option \<Rightarrow> (string \<times> json) list \<Rightarrow> (db, unit) op" where
  "enqueue_event ty run node attempt payload =
     modify (\<lambda>d. d\<lparr>db_uuid := Suc (db_uuid d),
       db_outbox := db_outbox d @
         [\<lparr>ob_event = \<lparr>ev_id = uuid_str (db_uuid d), ev_type = ty, ev_run = run, ev_node = node,
             ev_attempt = attempt, ev_payload = payload\<rparr>, ob_delivered = False\<rparr>]\<rparr>)"

definition record_event :: "string \<Rightarrow> string \<Rightarrow> (string \<times> json) list \<Rightarrow> ('x world, unit) thread" where
  "record_event ty run payload = tx (\<lambda>now. enqueue_event ty run None None payload)"

definition outbox_rows :: "db \<Rightarrow> event list" where
  "outbox_rows d = map ob_event (filter (\<lambda>r. \<not> ob_delivered r) (db_outbox d))"

definition mark_delivered :: "string \<Rightarrow> db \<Rightarrow> db" where
  "mark_delivered k d = d\<lparr>db_outbox := update_where (\<lambda>r. ev_id (ob_event r) = k \<and> \<not> ob_delivered r)
      (\<lambda>r. r\<lparr>ob_delivered := True\<rparr>) (db_outbox d)\<rparr>"

text \<open>
  \<open>EventStore._flush_locked\<close>: the identifiers already in the log are read once, then each
  undelivered row is appended unless it is there, and marked. A micro step is one file append or
  one mark; a crash can fall between any two. The flush lock makes the whole flush one step for
  the other threads of the process.
\<close>

datatype flush_step = Append event | Mark string

fun flush_plan :: "string set \<Rightarrow> event list \<Rightarrow> flush_step list" where
  "flush_plan known [] = []"
| "flush_plan known (e # es) =
     (if ev_id e \<in> known then Mark (ev_id e) # flush_plan known es
      else Append e # Mark (ev_id e) # flush_plan (insert (ev_id e) known) es)"

primrec flush_micro :: "flush_step \<Rightarrow> 'x world \<Rightarrow> 'x world" where
  "flush_micro (Append e) w = w\<lparr>w_log := w_log w @ [e]\<rparr>"
| "flush_micro (Mark k) w = w\<lparr>w_db := mark_delivered k (w_db w)\<rparr>"

definition existing_ids :: "'x world \<Rightarrow> string set" where
  "existing_ids w = ev_id ` set (w_log w)"

definition flush_steps :: "'x world \<Rightarrow> flush_step list" where
  "flush_steps w = flush_plan (existing_ids w) (outbox_rows (w_db w))"

definition flush_world :: "'x world \<Rightarrow> 'x world" where
  "flush_world w = fold flush_micro (flush_steps w) w"

definition flush :: "('x world, int) op" where
  "flush w = (Inr (int (length (outbox_rows (w_db w)))), flush_world w)"

definition flush_t :: "('x world, unit) thread" where
  "flush_t = atomic (modify flush_world)"

lemma run_flush_t [simp]: "run_thread flush_t = modify flush_world"
  by (simp add: flush_t_def)

end
