(* ===== verification/Outbox.thy ===== *)
theory Outbox
  imports Store "HOL-Library.Sublist"
begin

text \<open>
  The transactional outbox of \<open>runtime/store.py\<close> and \<open>runtime/events.py\<close>. An event sink promises
  that what is queued is published once and in order; the locale states that promise, the
  theorems about the outbox discharge it, also when the process stops inside a flush.
\<close>

section \<open>The promise of an event sink\<close>

locale event_sink =
  fixes ok :: "'w \<Rightarrow> bool"
    and published :: "'w \<Rightarrow> 'e list"
    and queued :: "'w \<Rightarrow> 'e list"
    and emit :: "'m \<Rightarrow> 'w \<Rightarrow> 'w"
    and label :: "'e \<Rightarrow> 'm"
    and deliver :: "'w \<Rightarrow> 'w"
  assumes ok_emit: "ok w \<Longrightarrow> ok (emit m w)"
    and published_emit: "ok w \<Longrightarrow> published (emit m w) = published w"
    and queued_emit: "ok w \<Longrightarrow> \<exists>e. queued (emit m w) = queued w @ [e] \<and> label e = m"
    and ok_deliver: "ok w \<Longrightarrow> ok (deliver w)"
    and published_deliver: "ok w \<Longrightarrow> published (deliver w) = published w @ queued w"
    and queued_deliver: "ok w \<Longrightarrow> queued (deliver w) = []"
begin

lemma ok_emits: "ok w \<Longrightarrow> ok (fold emit ms w)"
  by (induction ms arbitrary: w) (auto intro: ok_emit)

lemma published_emits: "ok w \<Longrightarrow> published (fold emit ms w) = published w"
  by (induction ms arbitrary: w) (auto simp: ok_emit published_emit)

lemma queued_emits: "ok w \<Longrightarrow> map label (queued (fold emit ms w)) = map label (queued w) @ ms"
proof (induction ms arbitrary: w)
  case Nil
  then show ?case by simp
next
  case (Cons m ms)
  from queued_emit [OF Cons.prems, of m] obtain e
    where "queued (emit m w) = queued w @ [e]" and "label e = m" by blast
  with Cons.IH [OF ok_emit [OF Cons.prems]] show ?case by simp
qed

lemma publish_all:
  "ok w \<Longrightarrow> map label (published (deliver (fold emit ms w))) =
     map label (published w) @ map label (queued w) @ ms"
  by (simp add: published_deliver ok_emits published_emits queued_emits)

lemma deliver_twice: "ok w \<Longrightarrow> published (deliver (deliver w)) = published (deliver w)"
  by (simp add: published_deliver ok_deliver queued_deliver)

end

section \<open>The invariant of the outbox\<close>

definition outbox_entry :: "bool \<Rightarrow> event \<Rightarrow> outbox_row" where
  "outbox_entry delivered e = \<lparr>ob_event = e, ob_delivered = delivered\<rparr>"

lemma outbox_entry_simps [simp]:
  "ob_event (outbox_entry b e) = e" "ob_delivered (outbox_entry b e) = b"
  by (simp_all add: outbox_entry_def)

text \<open>
  The rows are the delivered ones \<open>A\<close> and then the others \<open>B\<close>; the log holds \<open>A\<close> and a prefix \<open>C\<close>
  of \<open>B\<close> that a stopped flush appended without marking; the identifiers are distinct, and drawn
  from the part of the counter already used.
\<close>

definition outbox_split :: "'x world \<Rightarrow> event list \<Rightarrow> event list \<Rightarrow> event list \<Rightarrow> bool" where
  "outbox_split w A B C \<longleftrightarrow>
     db_outbox (w_db w) = map (outbox_entry True) A @ map (outbox_entry False) B \<and>
     w_log w = A @ C \<and> prefix C B \<and> distinct (map ev_id (A @ B)) \<and>
     (\<forall>e \<in> set (A @ B). \<exists>n < db_uuid (w_db w). ev_id e = uuid_str n)"

definition outbox_ok :: "'x world \<Rightarrow> bool" where
  "outbox_ok w \<longleftrightarrow> (\<exists>A B C. outbox_split w A B C)"

text \<open>The events that are in the outbox and not yet in the log.\<close>

definition unlogged :: "'x world \<Rightarrow> event list" where
  "unlogged w = drop (length (w_log w)) (map ob_event (db_outbox (w_db w)))"

lemma outbox_split_unlogged: "outbox_split w A B C \<Longrightarrow> B = C @ unlogged w"
  by (auto simp: outbox_split_def unlogged_def prefix_def o_def)

lemma outbox_split_rows: "outbox_split w A B C \<Longrightarrow> outbox_rows (w_db w) = B"
  by (simp add: outbox_split_def outbox_rows_def filter_empty_conv filter_map o_def)

section \<open>A flush, micro step by micro step\<close>

lemma append_step:
  assumes "outbox_split w A (C @ e # B) C"
  shows "outbox_split (flush_micro (Append e) w) A (C @ e # B) (C @ [e])"
  using assms by (simp add: outbox_split_def)

lemma update_one_undelivered:
  assumes "distinct (map ev_id (A @ e # B))"
  shows "update_where (\<lambda>r. ev_id (ob_event r) = ev_id e \<and> \<not> ob_delivered r)
           (\<lambda>r. r\<lparr>ob_delivered := True\<rparr>)
           (map (outbox_entry True) A @ outbox_entry False e # map (outbox_entry False) B) =
         map (outbox_entry True) (A @ [e]) @ map (outbox_entry False) B"
proof -
  have "update_where (\<lambda>r. ev_id (ob_event r) = ev_id e \<and> \<not> ob_delivered r)
          (\<lambda>r. r\<lparr>ob_delivered := True\<rparr>) (map (outbox_entry True) A) = map (outbox_entry True) A"
    by (rule update_where_none) auto
  moreover from assms have "ev_id e \<notin> ev_id ` set B" by simp
  then have "\<And>x. x \<in> set B \<Longrightarrow> ev_id x \<noteq> ev_id e" by (metis imageI)
  then have "update_where (\<lambda>r. ev_id (ob_event r) = ev_id e \<and> \<not> ob_delivered r)
          (\<lambda>r. r\<lparr>ob_delivered := True\<rparr>) (map (outbox_entry False) B) = map (outbox_entry False) B"
    by (intro update_where_none) auto
  ultimately show ?thesis by (simp add: outbox_entry_def)
qed

lemma mark_step:
  assumes "outbox_split w A (e # B) (e # C)"
  shows "outbox_split (flush_micro (Mark (ev_id e)) w) (A @ [e]) B C"
proof -
  have "distinct (map ev_id (A @ e # B))" using assms by (simp add: outbox_split_def)
  from update_one_undelivered [OF this] assms show ?thesis
    by (simp add: outbox_split_def mark_delivered_def)
qed

text \<open>The plan of a flush whose log already has \<open>C\<close> of the undelivered events.\<close>

definition log_ids :: "event list \<Rightarrow> event list \<Rightarrow> string set" where
  "log_ids A C = ev_id ` set (A @ C)"

lemma flush_prefix_ok:
  assumes "outbox_split w A B C"
  shows "outbox_ok (fold flush_micro (take n (flush_plan (log_ids A C) B)) w)"
  using assms
proof (induction B arbitrary: w A C n)
  case Nil
  then show ?case by (auto simp: outbox_ok_def)
next
  case (Cons e B)
  show ?case
  proof (cases C)
    case [simp]: (Cons c C')
    with Cons.prems have [simp]: "c = e" by (auto simp: outbox_split_def)
    have ids: "log_ids (A @ [e]) C' = log_ids A C" by (auto simp: log_ids_def)
    have plan: "flush_plan (log_ids A C) (e # B) = Mark (ev_id e) # flush_plan (log_ids A C) B"
      by (auto simp: log_ids_def)
    show ?thesis
    proof (cases n)
      case 0
      with Cons.prems show ?thesis by (auto simp: outbox_ok_def)
    next
      case (Suc m)
      have "outbox_split (flush_micro (Mark (ev_id e)) w) (A @ [e]) B C'"
        using Cons.prems by (intro mark_step) simp
      from Cons.IH [OF this, of m] Suc show ?thesis by (simp only: plan ids) simp
    qed
  next
    case [simp]: Nil
    have dist: "distinct (map ev_id (A @ e # B))" using Cons.prems by (simp add: outbox_split_def)
    then have new: "ev_id e \<notin> log_ids A C" by (auto simp: log_ids_def)
    have plan: "flush_plan (log_ids A C) (e # B) =
        Append e # Mark (ev_id e) # flush_plan (insert (ev_id e) (log_ids A C)) B"
      using new by simp
    have ids: "log_ids (A @ [e]) [] = insert (ev_id e) (log_ids A C)" by (auto simp: log_ids_def)
    have app: "outbox_split (flush_micro (Append e) w) A (e # B) [e]"
      using append_step [of w A "[]" e B] Cons.prems by simp
    show ?thesis
    proof (cases n)
      case 0
      with Cons.prems show ?thesis by (auto simp: outbox_ok_def)
    next
      case (Suc m)
      show ?thesis
      proof (cases m)
        case 0
        with Suc app show ?thesis unfolding plan by (auto simp: outbox_ok_def)
      next
        case (Suc k)
        have "outbox_split (flush_micro (Mark (ev_id e)) (flush_micro (Append e) w)) (A @ [e]) B []"
          using app by (rule mark_step)
        from Cons.IH [OF this, of k] \<open>n = Suc m\<close> Suc show ?thesis
          by (simp only: plan ids) simp
      qed
    qed
  qed
qed

lemma flush_all:
  assumes "outbox_split w A B C"
  shows "outbox_split (fold flush_micro (flush_plan (log_ids A C) B) w) (A @ B) [] []"
  using assms
proof (induction B arbitrary: w A C)
  case Nil
  then show ?case by (simp add: outbox_split_def)
next
  case (Cons e B)
  show ?case
  proof (cases C)
    case [simp]: (Cons c C')
    with Cons.prems have [simp]: "c = e" by (auto simp: outbox_split_def)
    have ids: "log_ids (A @ [e]) C' = log_ids A C" by (auto simp: log_ids_def)
    have plan: "flush_plan (log_ids A C) (e # B) = Mark (ev_id e) # flush_plan (log_ids A C) B"
      by (auto simp: log_ids_def)
    have "outbox_split (flush_micro (Mark (ev_id e)) w) (A @ [e]) B C'"
      using Cons.prems by (intro mark_step) simp
    from Cons.IH [OF this] show ?thesis by (simp only: plan ids) simp
  next
    case [simp]: Nil
    have "distinct (map ev_id (A @ e # B))" using Cons.prems by (simp add: outbox_split_def)
    then have plan: "flush_plan (log_ids A C) (e # B) =
        Append e # Mark (ev_id e) # flush_plan (insert (ev_id e) (log_ids A C)) B"
      by (auto simp: log_ids_def)
    have ids: "log_ids (A @ [e]) [] = insert (ev_id e) (log_ids A C)" by (auto simp: log_ids_def)
    have "outbox_split (flush_micro (Append e) w) A (e # B) [e]"
      using append_step [of w A "[]" e B] Cons.prems by simp
    from Cons.IH [OF mark_step [OF this]] show ?thesis by (simp only: plan ids) simp
  qed
qed

lemma flush_steps_eq: "outbox_split w A B C \<Longrightarrow> flush_steps w = flush_plan (log_ids A C) B"
  unfolding flush_steps_def existing_ids_def log_ids_def
  by (simp add: outbox_split_rows) (simp add: outbox_split_def)

lemma flush_world_split: "outbox_split w A B C \<Longrightarrow> outbox_split (flush_world w) (A @ B) [] []"
  by (simp add: flush_world_def flush_steps_eq flush_all)

lemma flush_world_ok: "outbox_ok w \<Longrightarrow> outbox_ok (flush_world w)"
  by (meson flush_world_split outbox_ok_def)

lemma flush_world_log: "outbox_ok w \<Longrightarrow> w_log (flush_world w) = w_log w @ unlogged w"
proof -
  assume "outbox_ok w"
  then obtain A B C where s: "outbox_split w A B C" by (auto simp: outbox_ok_def)
  from flush_world_split [OF s] outbox_split_unlogged [OF s] s
  show ?thesis by (simp add: outbox_split_def)
qed

lemma flush_world_unlogged: "outbox_ok w \<Longrightarrow> unlogged (flush_world w) = []"
proof -
  assume "outbox_ok w"
  then obtain A B C where "outbox_split w A B C" by (auto simp: outbox_ok_def)
  from outbox_split_unlogged [OF flush_world_split [OF this]] show ?thesis by simp
qed

text \<open>A flush changes only the log and the delivery marks.\<close>

lemma flush_micro_frame:
  "w_graphs (flush_micro s w) = w_graphs w" "w_now (flush_micro s w) = w_now w"
  "w_ext (flush_micro s w) = w_ext w"
  "\<exists>t. w_db (flush_micro s w) = (w_db w)\<lparr>db_outbox := t\<rparr> \<and>
     map ob_event t = map ob_event (db_outbox (w_db w))"
  by (cases s; force simp: mark_delivered_def map_update_where)+

lemma flush_fold_frame:
  "w_graphs (fold flush_micro ss w) = w_graphs w \<and> w_now (fold flush_micro ss w) = w_now w \<and>
   w_ext (fold flush_micro ss w) = w_ext w \<and>
   (\<exists>t. w_db (fold flush_micro ss w) = (w_db w)\<lparr>db_outbox := t\<rparr> \<and>
     map ob_event t = map ob_event (db_outbox (w_db w)))"
proof (induction ss arbitrary: w)
  case Nil
  then show ?case by (auto intro: exI [where x = "db_outbox (w_db w)"])
next
  case (Cons s ss)
  obtain t where t: "w_db (flush_micro s w) = (w_db w)\<lparr>db_outbox := t\<rparr>"
    and ev: "map ob_event t = map ob_event (db_outbox (w_db w))"
    using flush_micro_frame(4) [of s w] by blast
  show ?case
    using Cons [of "flush_micro s w"] ev unfolding t by (auto simp: flush_micro_frame)
qed

lemma flush_world_frame [simp]:
  "w_graphs (flush_world w) = w_graphs w" "w_now (flush_world w) = w_now w"
  "w_ext (flush_world w) = w_ext w"
  by (simp_all add: flush_world_def flush_fold_frame)

lemma flush_world_db:
  "\<exists>t. w_db (flush_world w) = (w_db w)\<lparr>db_outbox := t\<rparr> \<and>
     map ob_event t = map ob_event (db_outbox (w_db w))"
  using flush_fold_frame [of "flush_steps w" w] by (simp add: flush_world_def)

section \<open>The outbox keeps the promise\<close>

record message =
  ms_type :: string
  ms_run :: string
  ms_payload :: "(string \<times> json) list"

definition record_message :: "message \<Rightarrow> 'x world \<Rightarrow> 'x world" where
  "record_message m w =
     snd (run_thread (record_event (ms_type m) (ms_run m) (ms_payload m)) w)"

definition message_of :: "event \<Rightarrow> message" where
  "message_of e = \<lparr>ms_type = ev_type e, ms_run = ev_run e, ms_payload = ev_payload e\<rparr>"

lemma enqueue_split:
  assumes "outbox_split w A B C"
    and "enqueue_event ty run node att p (w_db w) = (r, d)"
  shows "\<exists>e. outbox_split (w\<lparr>w_db := d\<rparr>) A (B @ [e]) C \<and> ev_type e = ty \<and> ev_run e = run \<and>
    ev_payload e = p \<and> db_outbox d = db_outbox (w_db w) @ [outbox_entry False e]"
proof -
  define e where "e = \<lparr>ev_id = uuid_str (db_uuid (w_db w)), ev_type = ty, ev_run = run,
    ev_node = node, ev_attempt = att, ev_payload = p\<rparr>"
  have d: "d = (w_db w)\<lparr>db_uuid := Suc (db_uuid (w_db w)),
      db_outbox := db_outbox (w_db w) @ [outbox_entry False e]\<rparr>"
    using assms(2) by (simp add: enqueue_event_def modify_def e_def outbox_entry_def)
  have fresh: "ev_id e \<notin> ev_id ` set (A @ B)"
  proof
    assume "ev_id e \<in> ev_id ` set (A @ B)"
    then obtain n where "n < db_uuid (w_db w)" and "ev_id e = uuid_str n"
      using assms(1) unfolding outbox_split_def by (metis imageE)
    then show False by (simp add: e_def uuid_str_inj)
  qed
  have "outbox_split (w\<lparr>w_db := d\<rparr>) A (B @ [e]) C"
    using assms(1) fresh unfolding outbox_split_def d
    by (auto simp: e_def less_Suc_eq intro: prefix_prefix)
  then show ?thesis by (intro exI [of _ e]) (simp add: e_def d)
qed

lemma record_message_split:
  assumes "outbox_split w A B C"
  shows "\<exists>e. outbox_split (record_message m w) A (B @ [e]) C \<and> message_of e = m"
proof -
  obtain r d where run: "enqueue_event (ms_type m) (ms_run m) None None (ms_payload m) (w_db w) = (r, d)"
    by fastforce
  moreover from run have "r = Inr ()" by (simp add: enqueue_event_def modify_def)
  ultimately have "record_message m w = w\<lparr>w_db := d\<rparr>"
    by (simp add: record_message_def record_event_def tx_op_def)
  with enqueue_split [OF assms run] show ?thesis by (auto simp: message_of_def)
qed

interpretation outbox: event_sink outbox_ok w_log unlogged record_message message_of flush_world
proof (unfold_locales, goal_cases)
  case (1 w m)
  then show ?case by (meson outbox_ok_def record_message_split)
next
  case (2 w m)
  then show ?case by (metis outbox_ok_def outbox_split_def record_message_split)
next
  case (3 w m)
  then obtain A B C where s: "outbox_split w A B C" by (auto simp: outbox_ok_def)
  from record_message_split [OF s, of m] obtain e
    where e: "outbox_split (record_message m w) A (B @ [e]) C" "message_of e = m" by blast
  from outbox_split_unlogged [OF s] outbox_split_unlogged [OF e(1)] e(2)
  show ?case by (metis append.assoc append_same_eq same_append_eq)
qed (simp_all add: flush_world_ok flush_world_log flush_world_unlogged)

end
