(* ===== verification/Engine_Base.thy ===== *)
theory Engine_Base
  imports Outbox "HOL-Library.Product_Lexorder"
begin

text \<open>
  The parts of \<open>GraphRuntime\<close> (\<open>runtime/engine.py\<close>) that its scheduler and the branch coordinator
  share: reading runs, checkpoints, artifact registration, route conditions, budgets, snapshots,
  finishing a run and freezing its report, the barriers, and the boundary to the Executor and the
  Verifier. Telemetry, whose provider only observes, is left out.
\<close>

section \<open>The environment\<close>

text \<open>
  What is not in the repository: the hash function, the conversions of free-form configuration
  values by \<open>str()\<close> and \<open>int()\<close>, the Executor and the Verifier (threads, so that they may use the
  runtime while they work; \<open>None\<close> where the optional method is absent; a cancel outcome is \<open>None\<close>
  when it is not a \<open>VerifierResult\<close>), and the order in which the thread pool runs branches.
\<close>

record host =
  h_graph_hash :: "exec_graph \<Rightarrow> string"
  h_sub_hash :: "subgraph \<Rightarrow> string"
  h_str :: "json \<Rightarrow> string"
  h_int :: "json \<Rightarrow> py_error + int"

record 'x env =
  e_host :: host
  e_execute :: "string \<Rightarrow> node \<Rightarrow> string \<Rightarrow> ('x world, exec_result) thread"
  e_verify :: "string \<Rightarrow> node \<Rightarrow> string \<Rightarrow> string option \<Rightarrow> ('x world, ver_result) thread"
  e_query :: "string \<Rightarrow> ('x world, ver_result) thread"
  e_query_for :: "(string \<Rightarrow> int \<Rightarrow> string \<Rightarrow> ('x world, ver_result) thread) option"
  e_cancel :: "(string \<Rightarrow> ('x world, ver_result option) thread) option"
  e_cancel_for :: "(string \<Rightarrow> int \<Rightarrow> string \<Rightarrow> ('x world, ver_result option) thread) option"
  e_schedule :: "'x world \<Rightarrow> nat list"

section \<open>Reading runs and nodes\<close>

definition terminal :: "run_status \<Rightarrow> bool" where
  "terminal s \<longleftrightarrow> s \<in> set (map rs_of_ts terminal_statuses)"

lemma terminal_simps [simp]:
  "\<not> terminal RS_Draft" "\<not> terminal RS_AwaitingConfirmation" "\<not> terminal RS_Running"
  "\<not> terminal RS_PauseRequested" "\<not> terminal RS_Quiescing" "\<not> terminal RS_Paused"
  "\<not> terminal RS_DeliveryReady" "terminal RS_Succeeded" "terminal RS_Failed" "terminal RS_Error"
  "terminal RS_Interrupted" "terminal RS_Cancelled" "terminal RS_Rejected"
  by (simp_all add: terminal_def terminal_statuses_def)

lemma terminal_rs_of_ts [simp]: "terminal (rs_of_ts t)"
  by (cases t) simp_all

text \<open>\<open>TerminalStatus(status)\<close>, which raises for a status that is not terminal.\<close>

definition ts_of_rs :: "run_status \<Rightarrow> py_error + terminal_status" where
  "ts_of_rs s = (case find (\<lambda>t. rs_of_ts t = s) terminal_statuses of
     None \<Rightarrow> Inl (ValueError (rs_value s @ '' is not a valid TerminalStatus'')) | Some t \<Rightarrow> Inr t)"

lemma ts_of_rs_rs_of_ts [simp]: "ts_of_rs (rs_of_ts t) = Inr t"
  by (cases t) (simp_all add: ts_of_rs_def terminal_statuses_def)

definition find_run :: "string \<Rightarrow> db \<Rightarrow> run_row option" where
  "find_run run d = lookup_row rn_id run (db_runs d)"

definition required_run :: "string \<Rightarrow> db \<Rightarrow> py_error + run_row" where
  "required_run run d = (case find_run run d of
     None \<Rightarrow> Inl (KeyError (''unknown Run: '' @ run)) | Some r \<Rightarrow> Inr r)"

definition update_run :: "string \<Rightarrow> (run_row \<Rightarrow> run_row) \<Rightarrow> db \<Rightarrow> db" where
  "update_run run f d = d\<lparr>db_runs := change_row rn_id run f (db_runs d)\<rparr>"

definition run_status_of :: "string \<Rightarrow> db \<Rightarrow> py_error + run_status" where
  "run_status_of run d = bind_sum (required_run run d) (\<lambda>r. Inr (rn_status r))"

definition barrier_of :: "string \<Rightarrow> db \<Rightarrow> py_error + barrier option" where
  "barrier_of run d = bind_sum (required_run run d) (\<lambda>r. Inr (rn_barrier r))"

definition read_status :: "string \<Rightarrow> ('x world, run_status) thread" where
  "read_status run = reading (\<lambda>now. run_status_of run)"

definition read_barrier :: "string \<Rightarrow> ('x world, barrier option) thread" where
  "read_barrier run = reading (\<lambda>now. barrier_of run)"

definition node_key :: "node_row \<Rightarrow> string \<times> string" where
  "node_key r = (nr_run r, nr_node r)"

definition find_node :: "string \<Rightarrow> string \<Rightarrow> db \<Rightarrow> node_row option" where
  "find_node run node d = lookup_row node_key (run, node) (db_nodes d)"

definition update_node :: "string \<Rightarrow> string \<Rightarrow> (node_row \<Rightarrow> node_row) \<Rightarrow> db \<Rightarrow> db" where
  "update_node run node f d = d\<lparr>db_nodes := change_row node_key (run, node) f (db_nodes d)\<rparr>"

definition find_budget :: "string \<Rightarrow> db \<Rightarrow> budget_row option" where
  "find_budget run d = lookup_row bd_run run (db_budgets d)"

definition update_budget :: "string \<Rightarrow> (budget_row \<Rightarrow> budget_row) \<Rightarrow> db \<Rightarrow> db" where
  "update_budget run f d = d\<lparr>db_budgets := change_row bd_run run f (db_budgets d)\<rparr>"

text \<open>The tables are keyed: a lookup sees exactly the writes to its key.\<close>

interpretation run_table: keyed_table rn_id "lookup_row rn_id" "insert_row rn_id" "change_row rn_id"
    "\<lambda>t. distinct (map rn_id t)"
  by (rule keyed_table_rows)

interpretation node_table: keyed_table node_key "lookup_row node_key" "insert_row node_key" "change_row node_key"
    "\<lambda>t. distinct (map node_key t)"
  by (rule keyed_table_rows)

interpretation budget_table: keyed_table bd_run "lookup_row bd_run" "insert_row bd_run" "change_row bd_run"
    "\<lambda>t. distinct (map bd_run t)"
  by (rule keyed_table_rows)

lemma find_update_run:
  "(\<And>r. rn_id (f r) = rn_id r) \<Longrightarrow> distinct (map rn_id (db_runs d)) \<Longrightarrow>
    find_run k (update_run run f d) = (if k = run then map_option f (find_run k d) else find_run k d)"
  by (simp add: find_run_def update_run_def run_table.change_lookup)

lemma find_update_node:
  "(\<And>r. node_key (f r) = node_key r) \<Longrightarrow> distinct (map node_key (db_nodes d)) \<Longrightarrow>
    find_node k m (update_node run n f d) =
      (if k = run \<and> m = n then map_option f (find_node k m d) else find_node k m d)"
  by (simp add: find_node_def update_node_def node_table.change_lookup)

lemma find_update_budget:
  "(\<And>r. bd_run (f r) = bd_run r) \<Longrightarrow> distinct (map bd_run (db_budgets d)) \<Longrightarrow>
    find_budget k (update_budget run f d) =
      (if k = run then map_option f (find_budget k d) else find_budget k d)"
  by (simp add: find_budget_def update_budget_def budget_table.change_lookup)

text \<open>\<open>self._graphs.get(run_id)\<close>, and the node of a graph.\<close>

definition read_graph :: "string \<Rightarrow> ('x world, exec_graph) thread" where
  "read_graph run = atomic (\<lambda>w. (case w_graphs w run of
     None \<Rightarrow> Inl (RecoveryError ''Run must be created or recovered before scheduling'')
   | Some g \<Rightarrow> Inr g, w))"

definition graph_node :: "exec_graph \<Rightarrow> string \<Rightarrow> py_error + node" where
  "graph_node g k = (case node_of (g_nodes g) k of
     None \<Rightarrow> Inl (RuntimeInvariantError (''persisted node '' @ k @ '' is absent from Graph''))
   | Some n \<Rightarrow> Inr n)"

definition lift_t :: "py_error + 'a \<Rightarrow> ('s, 'a) thread" where
  "lift_t r = Done r"

lemma run_lift [simp]: "run_thread (lift_t r) = lift_sum r"
  by (simp add: lift_t_def lift_sum_def fun_eq_iff)

lemma steps_lift [steps_intros]: "steps_in R (lift_t r)"
  by (simp add: lift_t_def)

section \<open>Checkpoints\<close>

definition node_image_of :: "node_row \<Rightarrow> node_image" where
  "node_image_of r = \<lparr>ni_node = nr_node r, ni_type = nr_type r, ni_status = nr_status r,
     ni_count = nr_count r, ni_result = nr_result r, ni_resolved = nr_resolved r\<rparr>"

definition run_image_of :: "run_row \<Rightarrow> string \<Rightarrow> db \<Rightarrow> run_image" where
  "run_image_of r reason d = (let run = rn_id r in
     \<lparr>im_run = run, im_reason = reason, im_graph_hash = rn_graph_hash r,
      im_contract_hash = rn_contract_hash r, im_current = rn_current r,
      im_nodes = map node_image_of (order_by nr_node (filter (\<lambda>n. nr_run n = run) (db_nodes d))),
      im_edges = order_by (\<lambda>t. (tv_from t, tv_to t)) (filter (\<lambda>t. tv_run t = run) (db_edges d)),
      im_artifacts = order_by (\<lambda>a. (ra_artifact a, ra_node a, ra_role a))
        (filter (\<lambda>a. ra_run a = run) (db_run_artifacts d)),
      im_branches = order_by (\<lambda>b. (bh_container b, bh_order b, bh_branch b))
        (filter (\<lambda>b. bh_run b = run) (db_branches d)),
      im_branch_nodes = order_by (\<lambda>b. (bn_container b, bn_branch b, bn_node b))
        (filter (\<lambda>b. bn_run b = run) (db_branch_nodes d)),
      im_branch_edges = order_by (\<lambda>b. (bt_container b, bt_branch b, bt_from b, bt_to b))
        (filter (\<lambda>b. bt_run b = run) (db_branch_edges d))\<rparr>)"

definition checkpoint_ref :: "nat \<Rightarrow> string" where
  "checkpoint_ref n = ''checkpoint:'' @ uuid_str n"

definition add_checkpoint :: "run_row \<Rightarrow> string \<Rightarrow> db \<Rightarrow> db" where
  "add_checkpoint r reason d = d\<lparr>db_uuid := Suc (db_uuid d),
     db_checkpoints := db_checkpoints d @
       [\<lparr>cp_ref = checkpoint_ref (db_uuid d), cp_run = rn_id r, cp_reason = reason,
         cp_state = run_image_of r reason d\<rparr>]\<rparr>"

definition checkpoint :: "string \<Rightarrow> string \<Rightarrow> (db, unit) op" where
  "checkpoint run reason =
     bind_op (ask (required_run run)) (\<lambda>r. modify (add_checkpoint r reason))"

section \<open>Artifact metadata\<close>

definition artifact_row_of :: "string \<Rightarrow> artifact \<Rightarrow> string \<Rightarrow> int \<Rightarrow> artifact_row" where
  "artifact_row_of run a sha n =
     \<lparr>am_id = ar_id a, am_run = run, am_uri = ar_uri a, am_sha = sha, am_media = ar_media a,
      am_size = n, am_created = ar_created a, am_kind = ar_kind a\<rparr>"

text \<open>\<open>INSERT OR IGNORE\<close>: a clash of the primary key or of the unique URI drops the row.\<close>

definition put_artifact :: "artifact_row \<Rightarrow> db \<Rightarrow> db" where
  "put_artifact m d = (if am_id m \<in> am_id ` set (db_artifacts d) \<or> am_uri m \<in> am_uri ` set (db_artifacts d)
     then d else d\<lparr>db_artifacts := db_artifacts d @ [m]\<rparr>)"

definition artifact_key :: "run_artifact_row \<Rightarrow> string \<times> string \<times> string \<times> string" where
  "artifact_key r = (ra_run r, ra_artifact r, ra_node r, ra_role r)"

definition link_artifact :: "string \<Rightarrow> string \<Rightarrow> string \<Rightarrow> string \<Rightarrow> (db, unit) op" where
  "link_artifact run node role k =
     bind_op (gets (\<lambda>d. (run, k, node, role) \<in> artifact_key ` set (db_run_artifacts d)))
       (\<lambda>present. if present then ret ()
         else seq_op (modify (\<lambda>d. d\<lparr>db_run_artifacts := db_run_artifacts d @
                [\<lparr>ra_run = run, ra_artifact = k, ra_node = node, ra_role = role, ra_from = None\<rparr>]\<rparr>))
              (enqueue_event ''artifact.created'' run (if node = [] then None else Some node) None
                [(''artifact_id'', JStr k), (''role'', JStr role)]))"

definition register_artifact :: "string \<Rightarrow> string \<Rightarrow> string \<Rightarrow> artifact \<Rightarrow> (db, unit) op" where
  "register_artifact run node role a =
     (case (ar_sha a, ar_size a) of
        (Some sha, Some n) \<Rightarrow>
          seq_op (modify (put_artifact (artifact_row_of run a sha n)))
           (seq_op (bind_op (gets (\<lambda>d. lookup_row am_id (ar_id a) (db_artifacts d)))
              (\<lambda>stored. guard (case stored of None \<Rightarrow> False
                  | Some m \<Rightarrow> am_uri m = ar_uri a \<and> am_sha m = sha)
                (RuntimeInvariantError ''artifact metadata collision'')))
            (link_artifact run node role (ar_id a)))
      | _ \<Rightarrow> raise (RuntimeInvariantError ''persisted artifacts require digest and size metadata''))"

section \<open>Route conditions\<close>

text \<open>
  \<open>_condition_matches\<close> on the JSON form of a result. The condition's validator rules out a list
  compared by \<open>equals\<close> and a scalar tested by \<open>in\<close>.
\<close>

definition condition_matches :: "route_condition option \<Rightarrow> result \<Rightarrow> int \<Rightarrow> bool" where
  "condition_matches c r attempt = (case c of None \<Rightarrow> True | Some c \<Rightarrow>
     (let actual = (case rc_field c of RF_Status \<Rightarrow> SStr (payload_status r)
                    | RF_Retryable \<Rightarrow> SBool (payload_retryable r) | RF_Attempt \<Rightarrow> SInt attempt);
          equal = (case rc_value c of CScalar v \<Rightarrow> scalar_eq actual v | CList _ \<Rightarrow> False);
          member = (case rc_value c of CScalar _ \<Rightarrow> False | CList vs \<Rightarrow> list_ex (scalar_eq actual) vs)
      in case rc_op c of RO_Equals \<Rightarrow> equal | RO_NotEquals \<Rightarrow> \<not> equal
         | RO_In \<Rightarrow> member | RO_NotIn \<Rightarrow> \<not> member))"

text \<open>
  The loop over \<open>graph.edges\<close> in \<open>_route_result\<close> and in the coordinator's \<open>_route\<close>: the first edge
  from the node that has traversals left and whose condition matches.
\<close>

definition select_edge ::
  "edge list \<Rightarrow> string \<Rightarrow> (string \<Rightarrow> string \<Rightarrow> int) \<Rightarrow> result \<Rightarrow> int \<Rightarrow> edge option" where
  "select_edge es source count r attempt = find (\<lambda>e. ed_from e = source \<and>
     \<not> (case ed_max e of None \<Rightarrow> False | Some m \<Rightarrow> count (ed_from e) (ed_to e) \<ge> m) \<and>
     condition_matches (ed_cond e) r attempt) es"

definition is_repair :: "edge \<Rightarrow> result \<Rightarrow> bool" where
  "is_repair e r \<longleftrightarrow> ed_max e \<noteq> None \<and> payload_status r = ''failed''"

section \<open>Budgets\<close>

definition seconds :: "int \<Rightarrow> int" where
  \<comment> \<open>a number of seconds in the clock's unit, the microsecond\<close>
  "seconds n = n * 1000000"

definition node_budget_reached ::
  "int \<Rightarrow> budget option \<Rightarrow> int \<Rightarrow> int option \<Rightarrow> rat \<Rightarrow> bool \<Rightarrow> bool \<Rightarrow> bool" where
  "node_budget_reached now b count first cost after_charge check_attempts =
     (case b of None \<Rightarrow> False | Some b \<Rightarrow>
        (check_attempts \<and> count \<ge> bg_max_calls b) \<or>
        (case first of None \<Rightarrow> False | Some t \<Rightarrow> now - t \<ge> seconds (bg_max_duration b)) \<or>
        (case bg_max_cost b of None \<Rightarrow> False
         | Some m \<Rightarrow> cost > m \<or> (\<not> after_charge \<and> cost \<ge> m)))"

definition cost_reached :: "budget_row \<Rightarrow> bool \<Rightarrow> bool" where
  "cost_reached b after_charge = (case (bd_max_cost b, bd_cost b) of
     (Some limit, Some actual) \<Rightarrow> actual > limit \<or> (\<not> after_charge \<and> actual \<ge> limit)
   | _ \<Rightarrow> False)"

definition budget_limit_reached ::
  "string \<Rightarrow> node option \<Rightarrow> bool \<Rightarrow> bool \<Rightarrow> int \<Rightarrow> db \<Rightarrow> py_error + bool" where
  "budget_limit_reached run n after_charge check_attempts now d =
     (case find_budget run d of
        None \<Rightarrow> Inl (RuntimeInvariantError ''budget row is missing'')
      | Some b \<Rightarrow>
          if now - bd_started b \<ge> seconds (bd_max_duration b) then Inr True
          else if cost_reached b after_charge then Inr True
          else case n of None \<Rightarrow> Inr False
          | Some n \<Rightarrow>
             (case find_node run (nd_id n) d of
                None \<Rightarrow> Inl (RuntimeInvariantError ''node budget row is missing'')
              | Some r \<Rightarrow> Inr (node_budget_reached now (nd_budget n) (nr_count r) (nr_first r)
                               (nr_cost r) after_charge check_attempts)))"

section \<open>Snapshots\<close>

record run_snapshot =
  sn_run :: string
  sn_status :: run_status
  sn_barrier :: "barrier option"
  sn_current :: "string option"
  sn_nodes :: "(string \<times> node_state \<times> int) list"
  sn_started :: "string list"
  sn_edges :: "(string \<times> string \<times> int) list"
  sn_branches :: "(string \<times> string \<times> branch_state \<times> string option) list"
  sn_budget :: budget
  sn_usage :: budget_usage
  sn_relationship :: relationship
  sn_restart :: "restart_from option"

definition budget_of_row :: "budget_row \<Rightarrow> budget" where
  "budget_of_row b = \<lparr>bg_max_duration = bd_max_duration b, bg_max_calls = bd_max_calls b,
     bg_max_repairs = bd_max_repairs b, bg_max_cost = bd_max_cost b\<rparr>"

definition usage_of_row :: "int \<Rightarrow> budget_row \<Rightarrow> budget_usage" where
  "usage_of_row now b = \<lparr>bu_duration = max 0 ((now - bd_started b) div 1000000),
     bu_calls = bd_calls b, bu_repairs = bd_repairs b, bu_cost = bd_cost b\<rparr>"

definition relationship_of :: "run_row \<Rightarrow> relationship" where
  "relationship_of r = \<lparr>rl_run = rn_id r, rl_parent = rn_parent r, rl_supersedes = rn_supersedes r\<rparr>"

definition snapshot_of :: "string \<Rightarrow> int \<Rightarrow> db \<Rightarrow> py_error + run_snapshot" where
  "snapshot_of run now d =
     bind_sum (required_run run d) (\<lambda>r.
     case find_budget run d of
       None \<Rightarrow> Inl (RuntimeInvariantError ''budget row is missing'')
     | Some b \<Rightarrow>
         bind_sum (construct validate_budget (budget_of_row b)) (\<lambda>configured.
         bind_sum (construct validate_budget_usage (usage_of_row now b)) (\<lambda>usage.
         bind_sum (construct validate_relationship (relationship_of r)) (\<lambda>rel.
         Inr \<lparr>sn_run = run, sn_status = rn_status r, sn_barrier = rn_barrier r,
           sn_current = rn_current r,
           sn_nodes = map (\<lambda>n. (nr_node n, nr_status n, nr_count n))
             (order_by nr_node (filter (\<lambda>n. nr_run n = run) (db_nodes d))),
           sn_started = sorted_set (map at_node (filter (\<lambda>a. at_run a = run) (db_attempts d))),
           sn_edges = map (\<lambda>t. (tv_from t, tv_to t, tv_count t))
             (order_by (\<lambda>t. (tv_from t, tv_to t)) (filter (\<lambda>t. tv_run t = run) (db_edges d))),
           sn_branches = map (\<lambda>b. (bh_container b, bh_branch b, bh_status b, bh_current b))
             (order_by (\<lambda>b. (bh_container b, bh_order b, bh_branch b))
               (filter (\<lambda>b. bh_run b = run) (db_branches d))),
           sn_budget = configured, sn_usage = usage, sn_relationship = rel,
           sn_restart = rn_restart r\<rparr>))))"

definition snapshot :: "string \<Rightarrow> ('x world, run_snapshot) thread" where
  "snapshot run = reading (snapshot_of run)"

text \<open>\<open>RunSnapshot.execution_fingerprint\<close>: what a read-only query must not change.\<close>

definition execution_fingerprint :: "run_snapshot \<Rightarrow>
    (run_status \<times> barrier option \<times> string option \<times> (string \<times> node_state \<times> int) list) \<times>
    (string list \<times> (string \<times> string \<times> int) list \<times>
     (string \<times> string \<times> branch_state \<times> string option) list) \<times>
    (int \<times> int \<times> rat option \<times> relationship \<times> restart_from option)" where
  "execution_fingerprint s =
     ((sn_status s, sn_barrier s, sn_current s, sn_nodes s),
      (sn_started s, sn_edges s, sn_branches s),
      (bu_calls (sn_usage s), bu_repairs (sn_usage s), bu_cost (sn_usage s), sn_relationship s,
       sn_restart s))"

definition completed_state :: "node_state \<Rightarrow> bool" where
  "completed_state s \<longleftrightarrow> s \<in> {NS_Succeeded, NS_Failed, NS_Error, NS_Cancelled}"

definition live_report_of :: "exec_graph \<Rightarrow> int \<Rightarrow> run_snapshot \<Rightarrow> py_error + live_report" where
  "live_report_of g now s =
     (let completed = map fst (filter (\<lambda>(k, st, n). completed_state st) (sn_nodes s))
      in construct validate_live_report
        \<lparr>lr_id = ''live:'' @ sn_run s, lr_run = sn_run s, lr_contract = g_contract g,
         lr_generated = now, lr_status = sn_status s, lr_current = sn_current s,
         lr_completed = completed,
         lr_progress = nat_str (length completed) @ '' node result(s) checkpointed'',
         lr_risks = [], lr_unverified = [], lr_budget = sn_budget s, lr_usage = sn_usage s,
         lr_artifacts = []\<rparr>)"

definition live_report :: "string \<Rightarrow> ('x world, live_report) thread" where
  "live_report run = bind_t (snapshot run) (\<lambda>s. bind_t (read_graph run) (\<lambda>g.
     atomic (\<lambda>w. (live_report_of g (w_now w) s, w))))"

section \<open>Finishing a run\<close>

text \<open>What \<open>_freeze_report\<close> reads of the run.\<close>

definition artifact_of_row :: "artifact_row \<Rightarrow> artifact" where
  "artifact_of_row m = \<lparr>ar_id = am_id m, ar_kind = am_kind m, ar_uri = am_uri m,
     ar_sha = Some (am_sha m), ar_media = am_media m, ar_size = Some (am_size m),
     ar_created = am_created m\<rparr>"

definition run_results :: "string \<Rightarrow> db \<Rightarrow> result list" where
  "run_results run d =
     List.map_filter at_result (filter (\<lambda>a. at_run a = run) (db_attempts d)) @
     List.map_filter nr_result (filter (\<lambda>n. nr_run n = run) (db_nodes d))"

definition verifier_artifacts :: "string \<Rightarrow> db \<Rightarrow> artifact_row list" where
  "verifier_artifacts run d = order_by am_id (filter (\<lambda>m.
     list_ex (\<lambda>r. ra_run r = run \<and> ra_role r = ''verifier'' \<and> ra_artifact r = am_id m)
       (db_run_artifacts d)) (db_artifacts d))"

definition final_report_of :: "string \<Rightarrow> run_snapshot \<Rightarrow> int \<Rightarrow> db \<Rightarrow> py_error + final_report" where
  "final_report_of run s now d =
     bind_sum (required_run run d) (\<lambda>r.
     bind_sum (collect (\<lambda>m. construct validate_artifact (artifact_of_row m))
       (verifier_artifacts run d)) (\<lambda>verification.
     bind_sum (ts_of_rs (sn_status s)) (\<lambda>status.
     bind_sum (construct validate_contract_ref (rn_contract r)) (\<lambda>contract.
     bind_sum (case rn_reason r of Some t \<Rightarrow> Inr t
        | None \<Rightarrow> Inl (ValueError ''None is not a valid TerminalReason'')) (\<lambda>reason.
     bind_sum (collect (construct validate_unverified) (rn_unverified r)) (\<lambda>unverified.
     bind_sum (collect (construct validate_external_effect) (rn_effects r)) (\<lambda>effects.
     bind_sum (case rn_error r of None \<Rightarrow> Inr None
        | Some e \<Rightarrow> bind_sum (construct validate_error e) (\<lambda>e. Inr (Some e))) (\<lambda>error.
     construct validate_final_report
       \<lparr>fr_id = ''final:'' @ run @ '':1'', fr_revision = 1, fr_frozen = now,
        fr_relationship = sn_relationship s, fr_contract = contract, fr_status = status,
        fr_reason = reason,
        fr_summary = ''Run '' @ run @ '' finished as '' @ ts_value status,
        fr_changed = sorted_set (concat (map payload_changed (run_results run d))),
        fr_completed = map nr_node (order_by nr_node
          (filter (\<lambda>n. nr_run n = run \<and> nr_status n = NS_Succeeded) (db_nodes d))),
        fr_verification = verification, fr_review = [],
        fr_intents = map ir_id (order_by ir_created (filter (\<lambda>i. ir_run i = run) (db_intents d))),
        fr_unverified = unverified, fr_effects = effects, fr_usage = sn_usage s, fr_risks = [],
        fr_error = error\<rparr>))))))))"

definition put_report :: "string \<Rightarrow> final_report \<Rightarrow> db \<Rightarrow> db" where
  "put_report run f d = d\<lparr>db_reports :=
     insert_or_ignore rp_run \<lparr>rp_run = run, rp_report = f\<rparr> (db_reports d)\<rparr>"

definition store_report :: "string \<Rightarrow> final_report \<Rightarrow> int \<Rightarrow> (db, unit) op" where
  "store_report run f now = seq_op (modify (put_report run f))
     (enqueue_event ''report.final.frozen'' run None None [])"

definition freeze_report :: "string \<Rightarrow> ('x world, unit) thread" where
  "freeze_report run = bind_t (snapshot run) (\<lambda>s.
     bind_t (reading (final_report_of run s)) (\<lambda>f. tx (store_report run f)))"

definition end_run :: "terminal_status \<Rightarrow> terminal_reason \<Rightarrow> error option \<Rightarrow> run_row \<Rightarrow> run_row" where
  "end_run status reason err r = r\<lparr>rn_status := rs_of_ts status, rn_barrier := None,
     rn_reason := Some reason, rn_error := err\<rparr>"

text \<open>The transaction of \<open>_finish\<close>; its value says whether it found the run not yet ended.\<close>

definition finish_tx ::
  "string \<Rightarrow> terminal_status \<Rightarrow> terminal_reason \<Rightarrow> error option \<Rightarrow> int \<Rightarrow> (db, bool) op" where
  "finish_tx run status reason err now = bind_op (ask (required_run run)) (\<lambda>r.
     if terminal (rn_status r) then ret False
     else seq_op (modify (update_run run (end_run status reason err)))
       (seq_op (checkpoint run ''terminal'')
       (seq_op (enqueue_event ''run.finished'' run None None
          [(''status'', JStr (ts_value status)), (''reason'', JStr (tr_value reason))])
        (ret True))))"

definition finish ::
  "string \<Rightarrow> terminal_status \<Rightarrow> terminal_reason \<Rightarrow> error option \<Rightarrow> ('x world, unit) thread" where
  "finish run status reason err = bind_t (tx (finish_tx run status reason err)) (\<lambda>ended.
     if ended then seq_t (freeze_report run) flush_t else return_t ())"

definition final_report :: "string \<Rightarrow> ('x world, final_report) thread" where
  "final_report run = reading (\<lambda>now d. case lookup_row rp_run run (db_reports d) of
     None \<Rightarrow> Inl (RuntimeInvariantError ''FinalReport is not available for a non-terminal Run'')
   | Some r \<Rightarrow> Inr (rp_report r))"

section \<open>Uncertain external effects\<close>

definition uncertain_error :: "string \<Rightarrow> error" where
  "uncertain_error node = \<lparr>er_kind = EK_Infrastructure, er_code = ''external_effect.uncertain'',
     er_message = ''external side effect cannot be confirmed after recovery'',
     er_retryable = False, er_details = [(''node_id'', JStr node)]\<rparr>"

definition uncertain_item :: "string \<Rightarrow> string \<Rightarrow> unverified_item" where
  "uncertain_item run node = \<lparr>uv_id = ''unverified:'' @ run @ '':'' @ node,
     uv_description = ''External trigger outcome'',
     uv_reason = ''process stopped before a handle was checkpointed'',
     uv_impact = ''the Runtime cannot safely retry or classify the external operation''\<rparr>"

definition uncertain_effect :: "string \<Rightarrow> string \<Rightarrow> external_effect" where
  "uncertain_effect run node = \<lparr>xe_id = ''effect:'' @ run @ '':'' @ node,
     xe_description = ''An external trigger may have occurred'', xe_reversible = False,
     xe_compensation = Some ''unknown'', xe_evidence = []\<rparr>"

definition note_uncertain :: "string \<Rightarrow> string \<Rightarrow> int \<Rightarrow> (db, unit) op" where
  "note_uncertain run node now = modify (update_run run (\<lambda>r. r\<lparr>
     rn_unverified := [uncertain_item run node], rn_effects := [uncertain_effect run node]\<rparr>))"

definition finish_uncertain :: "string \<Rightarrow> string \<Rightarrow> ('x world, unit) thread" where
  "finish_uncertain run node = seq_t (tx (note_uncertain run node))
     (finish run TS_Error TR_ExecutionError (Some (uncertain_error node)))"

section \<open>Barriers\<close>

text \<open>The value of the transaction says whether it paused the run.\<close>

definition pause_tx :: "string \<Rightarrow> int \<Rightarrow> (db, bool) op" where
  "pause_tx run now = bind_op (ask (required_run run)) (\<lambda>r.
     if rn_status r = RS_Paused then ret False
     else seq_op (modify (update_run run (\<lambda>r. r\<lparr>rn_status := RS_Paused\<rparr>)))
       (seq_op (checkpoint run ''paused'')
       (seq_op (enqueue_event ''run.paused'' run None None []) (ret True))))"

definition pause_at_safe_point :: "string \<Rightarrow> ('x world, unit) thread" where
  "pause_at_safe_point run = bind_t (tx (pause_tx run)) (\<lambda>paused.
     if paused then flush_t else return_t ())"

definition honor_barrier :: "string \<Rightarrow> ('x world, unit) thread" where
  "honor_barrier run = bind_t (read_barrier run) (\<lambda>b. case b of
     Some B_Pause \<Rightarrow> pause_at_safe_point run
   | Some B_Interrupt \<Rightarrow> finish run TS_Interrupted TR_HumanInterrupted None
   | _ \<Rightarrow> return_t ())"

section \<open>The boundary to Executor and Verifier\<close>

primrec ver_node_state :: "ver_status \<Rightarrow> node_state" where
  "ver_node_state VS_Pending = NS_Running"
| "ver_node_state VS_Passed = NS_Succeeded"
| "ver_node_state VS_Failed = NS_Failed"
| "ver_node_state VS_Error = NS_Error"
| "ver_node_state VS_Cancelled = NS_Cancelled"

primrec exec_node_state :: "exec_status \<Rightarrow> node_state" where
  "exec_node_state ES_Succeeded = NS_Succeeded"
| "exec_node_state ES_Failed = NS_Failed"
| "exec_node_state ES_Error = NS_Error"
| "exec_node_state ES_Cancelled = NS_Cancelled"

primrec branch_node_state :: "branch_status \<Rightarrow> node_state" where
  "branch_node_state BS_Succeeded = NS_Succeeded"
| "branch_node_state BS_Failed = NS_Failed"
| "branch_node_state BS_Blocked = NS_Blocked"
| "branch_node_state BS_Error = NS_Error"
| "branch_node_state BS_Cancelled = NS_Cancelled"

text \<open>\<open>_node_status\<close>\<close>

primrec node_status :: "result \<Rightarrow> node_state" where
  "node_status (RExec r) = exec_node_state (xr_status r)"
| "node_status (RVer r) = ver_node_state (vr_status r)"
| "node_status (RPar r) = branch_node_state (pr_status r)"

definition is_external :: "node \<Rightarrow> bool" where
  \<comment> \<open>\<open>node.config.get("external") is True\<close>\<close>
  "is_external n \<longleftrightarrow> map_of (nd_config n) ''external'' = Some (JBool True)"

text \<open>An exception of the boundary becomes an error result; building that may itself raise.\<close>

definition boundary_error :: "node \<Rightarrow> py_error \<Rightarrow> py_error + result" where
  "boundary_error n exc =
     bind_sum (construct validate_error
       \<lparr>er_kind = (if nd_type n = NT_Verifier then EK_Verifier else EK_Executor),
        er_code = ''runtime.boundary_exception'', er_message = err_str exc, er_retryable = False,
        er_details = []\<rparr>) (\<lambda>e.
     if nd_type n = NT_Verifier then
       bind_sum (construct validate_ver_result
         (ver_result_of VS_Error (err_str exc)\<lparr>vr_error := Some e\<rparr>)) (\<lambda>r. Inr (RVer r))
     else
       bind_sum (construct validate_exec_result
         (exec_result_of ES_Error (err_str exc)\<lparr>xr_error := Some e\<rparr>)) (\<lambda>r. Inr (RExec r)))"

definition map_t :: "('a \<Rightarrow> 'b) \<Rightarrow> ('s, 'a) thread \<Rightarrow> ('s, 'b) thread" where
  "map_t f m = bind_t m (\<lambda>x. return_t (f x))"

lemma steps_map [steps_intros]: "steps_in R m \<Longrightarrow> steps_in R (map_t f m)"
  by (simp add: map_t_def steps_bind steps_return)

text \<open>The body of \<open>_invoke\<close>'s \<open>try\<close> for a node that is not a container.\<close>

definition call_boundary ::
  "'x env \<Rightarrow> string \<Rightarrow> node \<Rightarrow> string \<Rightarrow> ('x world, result option) thread" where
  "call_boundary E run n attempt =
     (if nd_type n = NT_Verifier then
        map_t (\<lambda>r. Some (RVer r)) (e_verify E run n attempt
          (if is_external n then Some (run @ '':'' @ nd_id n) else None))
      else map_t (\<lambda>r. Some (RExec r)) (e_execute E run n attempt))"

definition guarded_boundary ::
  "node \<Rightarrow> ('x world, result option) thread \<Rightarrow> ('x world, result option) thread" where
  "guarded_boundary n m = catch_t m (\<lambda>exc. lift_t (map_sum id Some (boundary_error n exc)))"

text \<open>\<open>_invoke\<close> for the nodes of a branch, which are never containers.\<close>

definition invoke_leaf ::
  "'x env \<Rightarrow> string \<Rightarrow> node \<Rightarrow> string \<Rightarrow> ('x world, result option) thread" where
  "invoke_leaf E run n attempt = guarded_boundary n (call_boundary E run n attempt)"

text \<open>\<open>query_for\<close> when the verifier has it and the handle names one, \<open>query\<close> otherwise.\<close>

definition query_handle :: "'x env \<Rightarrow> handle_row \<Rightarrow> string \<Rightarrow> ('x world, ver_result) thread" where
  "query_handle E h handle = (case (e_query_for E, xh_verifier h) of
     (Some q, Some v) \<Rightarrow> q v (xh_revision h) handle
   | _ \<Rightarrow> e_query E handle)"

section \<open>External handles\<close>

definition handle_key :: "handle_row \<Rightarrow> string \<times> string" where
  "handle_key h = (xh_run h, xh_node h)"

definition find_handle :: "string \<Rightarrow> string \<Rightarrow> db \<Rightarrow> handle_row option" where
  "find_handle run node d = lookup_row handle_key (run, node) (db_handles d)"

definition update_handle :: "string \<Rightarrow> string \<Rightarrow> (handle_row \<Rightarrow> handle_row) \<Rightarrow> db \<Rightarrow> db" where
  "update_handle run node f d = d\<lparr>db_handles := change_row handle_key (run, node) f (db_handles d)\<rparr>"

text \<open>
  The trigger row of an external verifier: inserted, or on a conflict of the primary key reset to
  \<open>triggering\<close> without a handle. A conflict of the unique key with another row is an error. The
  configured verifier id and revision go through \<open>str()\<close> and \<open>int()\<close>.
\<close>

definition reset_trigger :: "string \<Rightarrow> handle_row \<Rightarrow> handle_row" where
  "reset_trigger key h = h\<lparr>xh_key := key, xh_trigger := Triggering, xh_handle := None\<rparr>"

definition put_trigger :: "string \<Rightarrow> string \<Rightarrow> string \<Rightarrow> int \<Rightarrow> (db, unit) op" where
  "put_trigger run node verifier revision = bind_op (gets db_handles) (\<lambda>hs.
     let key = run @ '':'' @ node in
     seq_op (guard (list_all (\<lambda>h. xh_key h = key \<longrightarrow> handle_key h = (run, node)) hs)
              (IntegrityError ''external_handles.idempotency_key''))
      (modify (\<lambda>d. d\<lparr>db_handles := upsert_row handle_key
         \<lparr>xh_run = run, xh_node = node, xh_key = key, xh_trigger = Triggering, xh_handle = None,
          xh_verifier = Some verifier, xh_revision = revision, xh_cancel = None,
          xh_residual = None\<rparr>
         (reset_trigger key) hs\<rparr>)))"

definition trigger_external :: "host \<Rightarrow> string \<Rightarrow> node \<Rightarrow> string \<Rightarrow> (db, unit) op" where
  \<comment> \<open>the node gives the configuration, the last argument the identifier the handle is filed under\<close>
  "trigger_external H run n filed =
     (if nd_type n = NT_Verifier \<and> is_external n then
        (let verifier = (case map_of (nd_config n) ''verifier_id'' of
                           None \<Rightarrow> nd_id n | Some j \<Rightarrow> h_str H j)
         in bind_op (lift_sum (case map_of (nd_config n) ''verifier_revision'' of
                                 None \<Rightarrow> Inr 1 | Some j \<Rightarrow> h_int H j))
              (\<lambda>revision. put_trigger run filed verifier revision))
      else ret ())"

definition checkpoint_handle :: "string \<Rightarrow> string \<Rightarrow> string \<Rightarrow> db \<Rightarrow> db" where
  "checkpoint_handle run node handle =
     update_handle run node (\<lambda>h. h\<lparr>xh_trigger := Checkpointed, xh_handle := Some handle\<rparr>)"

end
