(* ===== verification/Parallel.thy ===== *)
theory Parallel
  imports Engine_Base
begin

text \<open>
  The branch coordinator \<open>ParallelCoordinator\<close> of \<open>runtime/parallel.py\<close>: the branches of a
  parallel or subgraph node, one step of each under the thread pool, their attempts, results,
  routes and ends, and the aggregate result. Every transaction is one atomic step of a branch's
  thread, so the pool may interleave the branches anywhere the code may.
\<close>

section \<open>Rows of a branch\<close>

definition branch_key :: "branch_row \<Rightarrow> string \<times> string \<times> string" where
  "branch_key b = (bh_run b, bh_container b, bh_branch b)"

definition find_branch :: "string \<Rightarrow> string \<Rightarrow> string \<Rightarrow> db \<Rightarrow> branch_row option" where
  "find_branch run c b d = lookup_row branch_key (run, c, b) (db_branches d)"

definition update_branch ::
  "string \<Rightarrow> string \<Rightarrow> string \<Rightarrow> (branch_row \<Rightarrow> branch_row) \<Rightarrow> db \<Rightarrow> db" where
  "update_branch run c b f d =
     d\<lparr>db_branches := change_row branch_key (run, c, b) f (db_branches d)\<rparr>"

definition bnode_key :: "branch_node_row \<Rightarrow> string \<times> string \<times> string \<times> string" where
  "bnode_key n = (bn_run n, bn_container n, bn_branch n, bn_node n)"

definition find_bnode ::
  "string \<Rightarrow> string \<Rightarrow> string \<Rightarrow> string \<Rightarrow> db \<Rightarrow> branch_node_row option" where
  "find_bnode run c b n d = lookup_row bnode_key (run, c, b, n) (db_branch_nodes d)"

definition update_bnode :: "string \<Rightarrow> string \<Rightarrow> string \<Rightarrow> string \<Rightarrow>
    (branch_node_row \<Rightarrow> branch_node_row) \<Rightarrow> db \<Rightarrow> db" where
  "update_bnode run c b n f d =
     d\<lparr>db_branch_nodes := change_row bnode_key (run, c, b, n) f (db_branch_nodes d)\<rparr>"

definition bedge_key :: "branch_traversal_row \<Rightarrow> string \<times> string \<times> string \<times> string \<times> string" where
  "bedge_key t = (bt_run t, bt_container t, bt_branch t, bt_from t, bt_to t)"

definition battempt_key :: "branch_attempt_row \<Rightarrow> string \<times> string \<times> string \<times> string \<times> int" where
  "battempt_key a = (ba_run a, ba_container a, ba_branch a, ba_node a, ba_number a)"

interpretation branch_table: keyed_table branch_key "lookup_row branch_key" "insert_row branch_key" "change_row branch_key"
    "\<lambda>t. distinct (map branch_key t)"
  by (rule keyed_table_rows)

interpretation bnode_table: keyed_table bnode_key "lookup_row bnode_key" "insert_row bnode_key" "change_row bnode_key"
    "\<lambda>t. distinct (map bnode_key t)"
  by (rule keyed_table_rows)

text \<open>An \<open>INSERT\<close> that must not clash.\<close>

definition insert_or_fail ::
  "string \<Rightarrow> ('r \<Rightarrow> 'k) \<Rightarrow> 'r \<Rightarrow> (db \<Rightarrow> 'r list) \<Rightarrow> ('r list \<Rightarrow> db \<Rightarrow> db) \<Rightarrow> (db, unit) op" where
  "insert_or_fail table key r get put d = (case insert_row key r (get d) of
     None \<Rightarrow> (Inl (IntegrityError table), d) | Some t \<Rightarrow> (Inr (), put t d))"

section \<open>Creation and inheritance\<close>

definition container_branches :: "node \<Rightarrow> py_error + parallel_branch list" where
  "container_branches n =
     (if nd_type n = NT_Parallel then
        (case nd_parallel n of None \<Rightarrow> Inl AssertionError | Some p \<Rightarrow> Inr (ps_branches p))
      else if nd_type n = NT_Subgraph then
        (case nd_subgraph n of None \<Rightarrow> Inl AssertionError
         | Some g \<Rightarrow> Inr [ParallelBranch ''subgraph'' g])
      else Inr [])"

definition insert_branch :: "branch_row \<Rightarrow> (db, unit) op" where
  "insert_branch r = insert_or_fail ''parallel_branches'' branch_key r db_branches
     (\<lambda>t d. d\<lparr>db_branches := t\<rparr>)"

definition insert_bnode :: "branch_node_row \<Rightarrow> (db, unit) op" where
  "insert_bnode r = insert_or_fail ''parallel_branch_nodes'' bnode_key r db_branch_nodes
     (\<lambda>t d. d\<lparr>db_branch_nodes := t\<rparr>)"

definition insert_bedge :: "branch_traversal_row \<Rightarrow> (db, unit) op" where
  "insert_bedge r = insert_or_fail ''parallel_branch_edge_traversals'' bedge_key r db_branch_edges
     (\<lambda>t d. d\<lparr>db_branch_edges := t\<rparr>)"

definition new_branch :: "host \<Rightarrow> string \<Rightarrow> string \<Rightarrow> nat \<Rightarrow> parallel_branch \<Rightarrow> branch_row" where
  "new_branch H run c order b = \<lparr>bh_run = run, bh_container = c, bh_branch = pb_id b,
     bh_order = order, bh_graph = pb_graph b, bh_hash = h_sub_hash H (pb_graph b),
     bh_status = BH_Pending, bh_current = Some (sb_entry (pb_graph b)), bh_result = None\<rparr>"

definition new_bnode :: "string \<Rightarrow> string \<Rightarrow> parallel_branch \<Rightarrow> node \<Rightarrow> branch_node_row" where
  "new_bnode run c b n = \<lparr>bn_run = run, bn_container = c, bn_branch = pb_id b, bn_node = nd_id n,
     bn_type = nd_type n,
     bn_status = (if nd_id n = sb_entry (pb_graph b) then NS_Ready else NS_Pending),
     bn_count = 0, bn_result = None, bn_resolved = False, bn_first = None, bn_cost = 0,
     bn_repairs = 0\<rparr>"

definition initialize_node :: "host \<Rightarrow> string \<Rightarrow> node \<Rightarrow> (db, unit) op" where
  "initialize_node H run n = bind_op (lift_sum (container_branches n)) (\<lambda>bs.
     for_each (\<lambda>(i, b). seq_op (insert_branch (new_branch H run (nd_id n) i b))
       (for_each (\<lambda>m. insert_bnode (new_bnode run (nd_id n) b m)) (sb_nodes (pb_graph b))))
       (enumerate 0 bs))"

definition initialize :: "host \<Rightarrow> string \<Rightarrow> node list \<Rightarrow> (db, unit) op" where
  "initialize H run ns = for_each (initialize_node H run) ns"

definition inherit_branch :: "string \<Rightarrow> branch_row \<Rightarrow> (db, unit) op" where
  "inherit_branch run b = modify (update_branch run (bh_container b) (bh_branch b) (\<lambda>r. r\<lparr>
     bh_status := (if bh_status b = BH_Active then BH_Pending else bh_status b),
     bh_current := bh_current b, bh_result := bh_result b\<rparr>))"

definition inherit_bnode :: "string \<Rightarrow> branch_node_row \<Rightarrow> (db, unit) op" where
  "inherit_bnode run n = modify (update_bnode run (bn_container n) (bn_branch n) (bn_node n) (\<lambda>r. r\<lparr>
     bn_status := (if bn_status n = NS_Running then NS_Ready else bn_status n),
     bn_count := bn_count n, bn_result := bn_result n, bn_resolved := bn_resolved n,
     bn_first := bn_first n, bn_cost := bn_cost n, bn_repairs := bn_repairs n\<rparr>))"

definition inherit_bedge :: "string \<Rightarrow> branch_traversal_row \<Rightarrow> (db, unit) op" where
  "inherit_bedge run t = insert_bedge (t\<lparr>bt_run := run\<rparr>)"

definition inherit :: "string \<Rightarrow> run_image \<Rightarrow> (db, unit) op" where
  "inherit run im = seq_op (for_each (inherit_branch run) (im_branches im))
     (seq_op (for_each (inherit_bnode run) (im_branch_nodes im))
             (for_each (inherit_bedge run) (im_branch_edges im)))"

section \<open>Aggregation\<close>

text \<open>\<open>{a.artifact_id: a for ...}\<close> read in the order of its keys: the last of each id.\<close>

definition by_id :: "artifact list \<Rightarrow> artifact list" where
  "by_id xs = map (\<lambda>k. last (filter (\<lambda>a. ar_id a = k) xs)) (sorted_set (map ar_id xs))"

definition stored_branch :: "branch_row \<Rightarrow> py_error + branch_result" where
  "stored_branch b = (case bh_result b of None \<Rightarrow> Inl (ValidationError ''BranchResult'')
     | Some r \<Rightarrow> construct validate_branch_result r)"

definition branch_failures :: "branch_result list \<Rightarrow> string list" where
  "branch_failures bs = concat (map (\<lambda>b. map (\<lambda>x. br_id b @ '': '' @ x) (br_failures b)) bs)"

definition aggregate_error :: "branch_status \<Rightarrow> branch_result list \<Rightarrow> py_error + error option" where
  "aggregate_error status bs =
     (if error_branch status then
        (let affected = map br_id (filter (\<lambda>b. error_branch (br_status b)) bs)
         in bind_sum (construct validate_error
              \<lparr>er_kind = EK_Infrastructure,
               er_code = (if status = BS_Error then ''parallel.branch_error'' else ''parallel.blocked''),
               er_message = ''parallel branches did not succeed: '' @ join_with '', '' affected,
               er_retryable = False,
               er_details = [(''branch_ids'', JArr (map JStr affected))]\<rparr>) (\<lambda>e. Inr (Some e)))
      else Inr None)"

definition joined_result :: "string \<Rightarrow> branch_result list \<Rightarrow> py_error + par_result" where
  "joined_result c bs = (case map br_status bs of [] \<Rightarrow> Inl (ValueError ''max() arg is an empty sequence'')
     | s # ss \<Rightarrow> (let status = max_status s ss in
         bind_sum (aggregate_error status bs) (\<lambda>e.
         construct validate_par_result
           \<lparr>pr_node = c, pr_status = status,
            pr_summary = nat_str (length bs) @ '' branch result(s) joined as '' @ bs_value status,
            pr_branches = bs, pr_changed = sorted_set (concat (map br_changed bs)),
            pr_artifacts = by_id (concat (map br_artifacts bs)),
            pr_failures = branch_failures bs, pr_error = e\<rparr>)))"

definition container_rows :: "string \<Rightarrow> string \<Rightarrow> db \<Rightarrow> branch_row list" where
  "container_rows run c d = filter (\<lambda>b. bh_run b = run \<and> bh_container b = c) (db_branches d)"

definition aggregate :: "string \<Rightarrow> string \<Rightarrow> db \<Rightarrow> py_error + par_result option" where
  "aggregate run c d = (let rows = order_by bh_branch (container_rows run c d) in
     if rows = [] \<or> list_ex (\<lambda>b. \<not> branch_ended (bh_status b)) rows then Inr None
     else bind_sum (collect stored_branch rows) (\<lambda>bs.
          bind_sum (joined_result c bs) (\<lambda>r. Inr (Some r))))"

definition read_aggregate :: "string \<Rightarrow> string \<Rightarrow> ('x world, par_result option) thread" where
  "read_aggregate run c = reading (\<lambda>now. aggregate run c)"

definition join_node :: "string \<Rightarrow> node \<Rightarrow> ('x world, par_result) thread" where
  "join_node run n = (case nd_join n of None \<Rightarrow> raise_t AssertionError
     | Some p \<Rightarrow> reading (\<lambda>now d. case Option.bind (find_node run p d) nr_result of
         None \<Rightarrow> Inl (RuntimeInvariantError ''join source has no persisted parallel result'')
       | Some (RPar r) \<Rightarrow> construct validate_par_result r
       | Some _ \<Rightarrow> Inl (ValidationError ''ParallelResult'')))"

definition subgraph_result :: "branch_result \<Rightarrow> py_error + exec_result" where
  "subgraph_result b = (let base = exec_result_of ES_Succeeded (br_summary b)
        \<lparr>xr_changed := br_changed b, xr_artifacts := br_artifacts b\<rparr> in
     case br_status b of
       BS_Succeeded \<Rightarrow> construct validate_exec_result base
     | BS_Failed \<Rightarrow> construct validate_exec_result
         (base\<lparr>xr_status := ES_Failed, xr_failure := Some (join_with ''; '' (br_failures b))\<rparr>)
     | BS_Cancelled \<Rightarrow> construct validate_exec_result (base\<lparr>xr_status := ES_Cancelled\<rparr>)
     | _ \<Rightarrow> (case br_error b of None \<Rightarrow> Inl AssertionError
         | Some e \<Rightarrow> construct validate_exec_result
             (base\<lparr>xr_status := ES_Error, xr_error := Some e\<rparr>)))"

section \<open>Cancelling and blocking branches\<close>

definition cancelled_branch :: "string \<Rightarrow> string \<Rightarrow> branch_result" where
  "cancelled_branch b reason = \<lparr>br_id = b, br_status = BS_Cancelled,
     br_summary = ''branch cancelled by durable '' @ reason @ '' barrier'', br_completed = [],
     br_changed = [], br_artifacts = [], br_failures = [], br_error = None\<rparr>"

definition cancellable :: "bool \<Rightarrow> branch_state \<Rightarrow> bool" where
  "cancellable include_active s \<longleftrightarrow> s = BH_Pending \<or> (include_active \<and> s = BH_Active)"

definition cancel_branch :: "bool \<Rightarrow> string \<Rightarrow> branch_row \<Rightarrow> (db, unit) op" where
  "cancel_branch include_active reason row =
     bind_op (lift_sum (construct validate_branch_result (cancelled_branch (bh_branch row) reason)))
       (\<lambda>r. modify (update_branch (bh_run row) (bh_container row) (bh_branch row)
          (\<lambda>b. if cancellable include_active (bh_status b)
               then b\<lparr>bh_status := BH_Ended BS_Cancelled, bh_result := Some r\<rparr> else b)))"

definition cancel_branches_tx :: "string \<Rightarrow> string \<Rightarrow> bool \<Rightarrow> int \<Rightarrow> (db, unit) op" where
  "cancel_branches_tx run reason include_active now =
     bind_op (gets (\<lambda>d. filter (\<lambda>b. bh_run b = run \<and> cancellable include_active (bh_status b))
        (db_branches d)))
       (\<lambda>rows. seq_op (for_each (cancel_branch include_active reason) rows)
         (if rows = [] then ret () else checkpoint run (''parallel_'' @ reason @ ''_barrier'')))"

definition cancel_pending :: "string \<Rightarrow> string \<Rightarrow> ('x world, unit) thread" where
  "cancel_pending run reason = tx (cancel_branches_tx run reason False)"

definition cancel_incomplete :: "string \<Rightarrow> string \<Rightarrow> ('x world, unit) thread" where
  "cancel_incomplete run reason = tx (cancel_branches_tx run reason True)"

definition blocked_branch :: "string \<Rightarrow> string \<Rightarrow> bool \<Rightarrow> py_error + branch_result" where
  "blocked_branch b reason error_status =
     bind_sum (construct validate_error
       \<lparr>er_kind = EK_Infrastructure,
        er_code = (if error_status then ''parallel.external_uncertain'' else ''parallel.budget_exhausted''),
        er_message = reason, er_retryable = False, er_details = []\<rparr>) (\<lambda>e.
     construct validate_branch_result
       \<lparr>br_id = b, br_status = (if error_status then BS_Error else BS_Blocked),
        br_summary = reason, br_completed = [], br_changed = [], br_artifacts = [],
        br_failures = [], br_error = Some e\<rparr>)"

definition end_branch :: "branch_result \<Rightarrow> branch_row \<Rightarrow> branch_row" where
  "end_branch r b = b\<lparr>bh_status := BH_Ended (br_status r), bh_current := None, bh_result := Some r\<rparr>"

definition block_branch_tx :: "string \<Rightarrow> string \<Rightarrow> branch_result \<Rightarrow> int \<Rightarrow> (db, unit) op" where
  "block_branch_tx run c r now = seq_op (modify (update_branch run c (br_id r) (end_branch r)))
     (checkpoint run ''parallel_branch_blocked'')"

definition block_branch ::
  "string \<Rightarrow> string \<Rightarrow> string \<Rightarrow> string \<Rightarrow> bool \<Rightarrow> ('x world, unit) thread" where
  "block_branch run c b reason error_status =
     bind_t (lift_t (blocked_branch b reason error_status)) (\<lambda>r. tx (block_branch_tx run c r))"

section \<open>Ending a branch with a result\<close>

definition branch_status_of :: "result \<Rightarrow> py_error + branch_status" where
  "branch_status_of r = (case r of
     RExec x \<Rightarrow> Inr (case xr_status x of ES_Succeeded \<Rightarrow> BS_Succeeded | ES_Failed \<Rightarrow> BS_Failed
       | ES_Error \<Rightarrow> BS_Error | ES_Cancelled \<Rightarrow> BS_Cancelled)
   | RVer v \<Rightarrow> (case vr_status v of
        VS_Pending \<Rightarrow> Inl (RuntimeInvariantError ''pending result cannot finish a branch'')
      | VS_Passed \<Rightarrow> Inr BS_Succeeded | VS_Failed \<Rightarrow> Inr BS_Failed | VS_Error \<Rightarrow> Inr BS_Error
      | VS_Cancelled \<Rightarrow> Inr BS_Cancelled)
   | RPar p \<Rightarrow> Inl (RuntimeInvariantError ''parallel aggregate cannot finish a branch''))"

definition result_failures :: "result \<Rightarrow> string list" where
  "result_failures r = (case r of
     RExec x \<Rightarrow> (case xr_failure x of None \<Rightarrow> [] | Some f \<Rightarrow> if f = [] then [] else [f])
   | RVer v \<Rightarrow> vr_failures v | RPar p \<Rightarrow> [])"

definition result_error :: "result \<Rightarrow> error option" where
  "result_error r = (case r of RExec x \<Rightarrow> xr_error x | RVer v \<Rightarrow> vr_error v | RPar p \<Rightarrow> None)"

definition branch_node_rows :: "string \<Rightarrow> string \<Rightarrow> string \<Rightarrow> db \<Rightarrow> branch_node_row list" where
  "branch_node_rows run c b d = order_by bn_node
     (filter (\<lambda>n. bn_run n = run \<and> bn_container n = c \<and> bn_branch n = b) (db_branch_nodes d))"

definition finished_branch ::
  "string \<Rightarrow> string \<Rightarrow> string \<Rightarrow> branch_status \<Rightarrow> result \<Rightarrow> db \<Rightarrow> py_error + branch_result" where
  "finished_branch run c b status r d =
     (let rows = branch_node_rows run c b d; payloads = List.map_filter bn_result rows in
      bind_sum (collect (construct validate_artifact) (concat (map result_artifacts payloads))) (\<lambda>arts.
      construct validate_branch_result
        \<lparr>br_id = b, br_status = status, br_summary = result_summary r,
         br_completed = sort (map bn_node (filter (\<lambda>n. bn_status n = NS_Succeeded) rows)),
         br_changed = sorted_set (concat (map payload_changed payloads)),
         br_artifacts = by_id arts, br_failures = result_failures r, br_error = result_error r\<rparr>))"

definition finish_branch_tx :: "string \<Rightarrow> string \<Rightarrow> branch_result \<Rightarrow> int \<Rightarrow> (db, unit) op" where
  "finish_branch_tx run c r now = seq_op (modify (update_branch run c (br_id r) (end_branch r)))
     (seq_op (checkpoint run ''parallel_branch_finished'')
       (enqueue_event ''branch.finished'' run (Some c) None
         [(''branch_id'', JStr (br_id r)), (''status'', JStr (bs_value (br_status r)))]))"

definition finish_branch :: "string \<Rightarrow> string \<Rightarrow> string \<Rightarrow> result \<Rightarrow> ('x world, unit) thread" where
  "finish_branch run c b r =
     bind_t (lift_t (branch_status_of r)) (\<lambda>status.
     bind_t (reading (\<lambda>now. finished_branch run c b status r)) (\<lambda>br.
     seq_t (tx (finish_branch_tx run c br)) flush_t))"

section \<open>Routing inside a branch\<close>

definition branch_counts :: "string \<Rightarrow> string \<Rightarrow> string \<Rightarrow> db \<Rightarrow> string \<Rightarrow> string \<Rightarrow> int" where
  "branch_counts run c b d x y =
     (case lookup_row bedge_key (run, c, b, x, y) (db_branch_edges d) of
        None \<Rightarrow> 0 | Some t \<Rightarrow> bt_count t)"

definition bump_bedge :: "string \<Rightarrow> string \<Rightarrow> string \<Rightarrow> string \<Rightarrow> string \<Rightarrow> db \<Rightarrow> db" where
  "bump_bedge run c b x y d = d\<lparr>db_branch_edges := upsert_row bedge_key
     \<lparr>bt_run = run, bt_container = c, bt_branch = b, bt_from = x, bt_to = y, bt_count = 1\<rparr>
     (\<lambda>t. t\<lparr>bt_count := bt_count t + 1\<rparr>) (db_branch_edges d)\<rparr>"

definition spend_repair :: "budget_row \<Rightarrow> budget_row" where
  "spend_repair b = b\<lparr>bd_repairs := bd_repairs b + 1\<rparr>"

definition ready_bnode :: "branch_node_row \<Rightarrow> branch_node_row" where
  "ready_bnode n = n\<lparr>bn_status := NS_Ready, bn_result := None, bn_resolved := False\<rparr>"

text \<open>Taking an edge: \<open>repair\<close> says whether it is charged to the run's repair budget.\<close>

definition take_bedge :: "string \<Rightarrow> string \<Rightarrow> string \<Rightarrow> edge \<Rightarrow> db \<Rightarrow> db" where
  "take_bedge run c b e =
     update_branch run c b (\<lambda>r. r\<lparr>bh_current := Some (ed_to e)\<rparr>) \<circ>
     update_bnode run c b (ed_to e) ready_bnode \<circ>
     update_bnode run c b (ed_from e) (\<lambda>n. n\<lparr>bn_resolved := True\<rparr>) \<circ>
     bump_bedge run c b (ed_from e) (ed_to e)"

definition repair_bnode :: "string \<Rightarrow> string \<Rightarrow> string \<Rightarrow> string \<Rightarrow> db \<Rightarrow> db" where
  "repair_bnode run c b n =
     update_bnode run c b n (\<lambda>r. r\<lparr>bn_repairs := bn_repairs r + 1\<rparr>) \<circ> update_budget run spend_repair"

definition repairs_left :: "string \<Rightarrow> db \<Rightarrow> bool" where
  "repairs_left run d = (case find_budget run d of None \<Rightarrow> False
     | Some b \<Rightarrow> bd_repairs b < bd_max_repairs b)"

text \<open>
  The transaction of \<open>_route\<close>: its value is \<open>None\<close> when a barrier stopped it, and otherwise
  whether the repair budget is exhausted.
\<close>

definition branch_route_tx ::
  "string \<Rightarrow> string \<Rightarrow> string \<Rightarrow> edge \<Rightarrow> bool \<Rightarrow> int \<Rightarrow> (db, bool option) op" where
  "branch_route_tx run c b e repair now = bind_op (ask (required_run run)) (\<lambda>r.
     if rn_barrier r \<noteq> None then ret None
     else bind_op (gets (\<lambda>d. repair \<and> \<not> repairs_left run d)) (\<lambda>exhausted.
       if exhausted then ret (Some True)
       else seq_op (modify (if repair then repair_bnode run c b (ed_from e) else id))
         (seq_op (modify (take_bedge run c b e))
         (seq_op (checkpoint run ''parallel_route_selected'') (ret (Some False))))))"

definition route_source ::
  "string \<Rightarrow> string \<Rightarrow> string \<Rightarrow> string \<Rightarrow> db \<Rightarrow> py_error + int \<times> (string \<Rightarrow> string \<Rightarrow> int)" where
  "route_source run c b n d = (case find_bnode run c b n d of
     None \<Rightarrow> Inl (RuntimeInvariantError ''parallel branch route source is missing'')
   | Some r \<Rightarrow> Inr (bn_count r, branch_counts run c b d))"

definition subgraph_of :: "node \<Rightarrow> string \<Rightarrow> py_error + subgraph" where
  "subgraph_of c b =
     (if nd_type c = NT_Subgraph then
        (case nd_subgraph c of None \<Rightarrow> Inl AssertionError | Some g \<Rightarrow> Inr g)
      else (case nd_parallel c of None \<Rightarrow> Inl AssertionError
        | Some p \<Rightarrow> (case find (\<lambda>x. pb_id x = b) (ps_branches p) of
            None \<Rightarrow> Inl (RuntimeInvariantError (''parallel branch is missing: '' @ b))
          | Some x \<Rightarrow> Inr (pb_graph x))))"

definition branch_route ::
  "string \<Rightarrow> node \<Rightarrow> string \<Rightarrow> node \<Rightarrow> result \<Rightarrow> ('x world, unit) thread" where
  "branch_route run c b n r =
     bind_t (lift_t (subgraph_of c b)) (\<lambda>g.
     bind_t (reading (\<lambda>now. route_source run (nd_id c) b (nd_id n))) (\<lambda>(attempts, counts).
     case select_edge (sb_edges g) (nd_id n) counts r attempts of
       None \<Rightarrow> finish_branch run (nd_id c) b r
     | Some e \<Rightarrow>
         bind_t (tx (branch_route_tx run (nd_id c) b e (is_repair e r))) (\<lambda>exhausted.
         if exhausted = Some True
         then block_branch run (nd_id c) b ''shared repair budget exhausted'' False
         else return_t ())))"

section \<open>Attempts of a branch\<close>

definition update_battempt ::
  "string \<Rightarrow> (branch_attempt_row \<Rightarrow> branch_attempt_row) \<Rightarrow> db \<Rightarrow> db" where
  "update_battempt k f d = d\<lparr>db_branch_attempts := change_row ba_id k f (db_branch_attempts d)\<rparr>"

definition branch_attempt_id :: "string \<Rightarrow> string \<Rightarrow> string \<Rightarrow> string \<Rightarrow> int \<Rightarrow> string" where
  "branch_attempt_id run c b n i =
     run @ '':'' @ c @ '':'' @ b @ '':'' @ n @ '':'' @ int_str i"

definition insert_battempt :: "branch_attempt_row \<Rightarrow> (db, unit) op" where
  "insert_battempt a = bind_op (gets db_branch_attempts) (\<lambda>t.
     seq_op (guard (ba_id a \<notin> ba_id ` set t \<and> battempt_key a \<notin> battempt_key ` set t)
              (IntegrityError ''parallel_branch_attempts''))
       (modify (\<lambda>d. d\<lparr>db_branch_attempts := t @ [a]\<rparr>)))"

definition spend_call :: "budget_row \<Rightarrow> budget_row" where
  "spend_call b = b\<lparr>bd_calls := bd_calls b + 1\<rparr>"

definition calls_left :: "string \<Rightarrow> db \<Rightarrow> bool" where
  "calls_left run d = (case find_budget run d of None \<Rightarrow> False
     | Some b \<Rightarrow> bd_calls b < bd_max_calls b)"

definition run_bnode :: "int \<Rightarrow> int \<Rightarrow> branch_node_row \<Rightarrow> branch_node_row" where
  "run_bnode number now n = n\<lparr>bn_status := NS_Running, bn_count := number, bn_result := None,
     bn_resolved := False,
     bn_first := (case bn_first n of None \<Rightarrow> Some now | Some t \<Rightarrow> Some t)\<rparr>"

definition qualified_id :: "string \<Rightarrow> string \<Rightarrow> string \<Rightarrow> string" where
  "qualified_id c b n = c @ ''.'' @ b @ ''.'' @ n"

definition budget_stop :: py_error where
  "budget_stop = RuntimeErr ''parallel budget exhausted''"

definition open_run :: "run_row \<Rightarrow> bool" where
  "open_run r \<longleftrightarrow> rn_status r = RS_Running \<and> rn_barrier r = None"

definition start_branch_attempt_tx ::
  "host \<Rightarrow> string \<Rightarrow> string \<Rightarrow> string \<Rightarrow> node \<Rightarrow> int \<Rightarrow> (db, string) op" where
  "start_branch_attempt_tx H run c b n now =
     bind_op (ask (required_run run)) (\<lambda>r.
     seq_op (guard (open_run r)
       (RuntimeInvariantError ''execution barrier forbids a parallel branch attempt''))
     (bind_op (gets (calls_left run)) (\<lambda>left.
     seq_op (guard left budget_stop)
     (bind_op (ask (\<lambda>d. case find_bnode run c b (nd_id n) d of
          None \<Rightarrow> Inl (RuntimeInvariantError ''only a ready parallel branch node can start'')
        | Some row \<Rightarrow> if bn_status row = NS_Ready then Inr row
            else Inl (RuntimeInvariantError ''only a ready parallel branch node can start''))) (\<lambda>row.
     seq_op (guard (\<not> node_budget_reached now (nd_budget n) (bn_count row) (bn_first row) (bn_cost row)
                False True) budget_stop)
     (let number = bn_count row + 1; attempt = branch_attempt_id run c b (nd_id n) number in
      seq_op (modify (update_branch run c b (\<lambda>x. x\<lparr>bh_status := BH_Active\<rparr>)))
      (seq_op (modify (update_bnode run c b (nd_id n) (run_bnode number now)))
      (seq_op (insert_battempt \<lparr>ba_id = attempt, ba_run = run, ba_container = c, ba_branch = b,
           ba_node = nd_id n, ba_number = number, ba_status = NS_Running, ba_result = None\<rparr>)
      (seq_op (modify (update_budget run spend_call))
      (seq_op (trigger_external H run n (qualified_id c b (nd_id n)))
      (seq_op (checkpoint run ''parallel_attempt_started'')
      (seq_op (enqueue_event ''branch.node.started'' run (Some (qualified_id c b (nd_id n)))
           (Some attempt) [(''container_node_id'', JStr c), (''branch_id'', JStr b)])
        (ret attempt)))))))))))))"

definition start_branch_attempt ::
  "'x env \<Rightarrow> string \<Rightarrow> string \<Rightarrow> string \<Rightarrow> node \<Rightarrow> ('x world, string) thread" where
  "start_branch_attempt E run c b n =
     bind_t (tx (start_branch_attempt_tx (e_host E) run c b n)) (\<lambda>a. seq_t flush_t (return_t a))"

section \<open>Results of a branch\<close>

definition branch_pending_tx ::
  "string \<Rightarrow> string \<Rightarrow> string \<Rightarrow> string \<Rightarrow> result \<Rightarrow> int \<Rightarrow> (db, unit) op" where
  "branch_pending_tx run filed attempt handle r now =
     seq_op (modify (checkpoint_handle run filed handle))
     (seq_op (modify (update_battempt attempt (\<lambda>a. a\<lparr>ba_result := Some r\<rparr>)))
       (checkpoint run ''parallel_external_checkpointed''))"

definition result_role :: "result \<Rightarrow> string" where
  "result_role r = (case r of RVer _ \<Rightarrow> ''verifier'' | _ \<Rightarrow> ''executor'')"

text \<open>The transaction's value: whether the run was still going, so that the result is routed.\<close>

definition branch_result_tx ::
  "string \<Rightarrow> string \<Rightarrow> string \<Rightarrow> string \<Rightarrow> string \<Rightarrow> result \<Rightarrow> int \<Rightarrow> (db, bool) op" where
  "branch_result_tx run c b n attempt r now = bind_op (ask (required_run run)) (\<lambda>row.
     if terminal (rn_status row) then ret False
     else seq_op (modify (update_battempt attempt
            (\<lambda>a. a\<lparr>ba_status := node_status r, ba_result := Some r\<rparr>)))
      (seq_op (modify (update_bnode run c b n
            (\<lambda>x. x\<lparr>bn_status := node_status r, bn_result := Some r, bn_resolved := False\<rparr>)))
      (seq_op (for_each (register_artifact run (qualified_id c b n) (result_role r))
            (result_artifacts r))
      (seq_op (checkpoint run ''parallel_result_checkpointed'') (ret True)))))"

definition persist_branch_result ::
  "string \<Rightarrow> node \<Rightarrow> string \<Rightarrow> node \<Rightarrow> string \<Rightarrow> result \<Rightarrow> ('x world, unit) thread" where
  "persist_branch_result run c b n attempt r =
     (if is_pending r then
        (case r of RVer v \<Rightarrow>
           (if blank_opt (vr_handle v)
            then raise_t (RuntimeInvariantError ''pending branch Verifier requires an external handle'')
            else seq_t (tx (branch_pending_tx run (qualified_id (nd_id c) b (nd_id n)) attempt
                    (the (vr_handle v)) r)) flush_t)
         | _ \<Rightarrow> return_t ())
      else bind_t (tx (branch_result_tx run (nd_id c) b (nd_id n) attempt r)) (\<lambda>going.
        if going then seq_t flush_t (branch_route run c b n r) else return_t ()))"

definition latest_battempt ::
  "string \<Rightarrow> string \<Rightarrow> string \<Rightarrow> string \<Rightarrow> db \<Rightarrow> branch_attempt_row option" where
  "latest_battempt run c b n d =
     (case order_by (\<lambda>a. - ba_number a) (filter (\<lambda>a. ba_run a = run \<and> ba_container a = c \<and>
             ba_branch a = b \<and> ba_node a = n) (db_branch_attempts d)) of
        [] \<Rightarrow> None | a # _ \<Rightarrow> Some a)"

definition pending_call :: "handle_row option \<Rightarrow> string option \<Rightarrow> (handle_row \<times> string \<times> string) option" where
  \<comment> \<open>a handle row with a handle, and an attempt: what an external verifier can be asked about\<close>
  "pending_call h a = (case (h, a) of
     (Some row, Some attempt) \<Rightarrow> map_option (\<lambda>x. (row, x, attempt)) (xh_handle row) | _ \<Rightarrow> None)"

definition continue_branch_external ::
  "'x env \<Rightarrow> string \<Rightarrow> node \<Rightarrow> string \<Rightarrow> node \<Rightarrow> ('x world, unit) thread" where
  "continue_branch_external E run c b n =
     bind_t (reading (\<lambda>now d. Inr (pending_call
        (find_handle run (qualified_id (nd_id c) b (nd_id n)) d)
        (map_option ba_id (latest_battempt run (nd_id c) b (nd_id n) d))))) (\<lambda>p.
     case p of
       None \<Rightarrow> block_branch run (nd_id c) b ''external trigger outcome is uncertain'' True
     | Some (row, handle, attempt) \<Rightarrow> bind_t (query_handle E row handle) (\<lambda>v.
         persist_branch_result run c b n attempt (RVer v)))"

section \<open>One step of a branch\<close>

definition with_id :: "string \<Rightarrow> node \<Rightarrow> node" where
  "with_id k n = Node k (nd_type n) (nd_objective n) (nd_config n) (nd_budget n) (nd_subgraph n)
     (nd_parallel n) (nd_join n)"

definition nested_node :: "subgraph \<Rightarrow> string \<Rightarrow> py_error + node" where
  "nested_node g k = (case node_of (sb_nodes g) k of
     None \<Rightarrow> Inl (RuntimeInvariantError (''subgraph node is missing: '' @ k)) | Some n \<Rightarrow> Inr n)"

text \<open>The row of the branch's current node; \<open>None\<close> when the branch has none.\<close>

definition current_bnode ::
  "string \<Rightarrow> string \<Rightarrow> string \<Rightarrow> db \<Rightarrow> py_error + branch_node_row option" where
  "current_bnode run c b d = (case Option.bind (find_branch run c b d) bh_current of
     None \<Rightarrow> Inr None
   | Some k \<Rightarrow> (case find_bnode run c b k d of
       None \<Rightarrow> Inl (RuntimeInvariantError ''parallel branch current node is missing'')
     | Some row \<Rightarrow> Inr (Some row)))"

text \<open>Reading a stored result as the type the node's kind has.\<close>

definition stored_result :: "node \<Rightarrow> result \<Rightarrow> py_error + result" where
  "stored_result n r = (case r of
     RVer v \<Rightarrow> if nd_type n = NT_Verifier then construct validate_result r
              else Inl (ValidationError ''ExecutorResult'')
   | RExec x \<Rightarrow> if nd_type n = NT_Verifier then Inl (ValidationError ''VerifierResult'')
              else construct validate_result r
   | RPar p \<Rightarrow> Inl (ValidationError ''ParallelResult''))"

definition attempt_branch ::
  "'x env \<Rightarrow> string \<Rightarrow> node \<Rightarrow> string \<Rightarrow> node \<Rightarrow> ('x world, unit) thread" where
  "attempt_branch E run c b n =
     bind_t (catch_t (map_t Some (start_branch_attempt E run (nd_id c) b n)) (\<lambda>exc.
        if exc = budget_stop
        then seq_t (block_branch run (nd_id c) b ''shared budget exhausted'' False) (return_t None)
        else raise_t exc)) (\<lambda>started.
     case started of None \<Rightarrow> return_t ()
     | Some attempt \<Rightarrow>
         bind_t (invoke_leaf E run (with_id (qualified_id (nd_id c) b (nd_id n)) n) attempt) (\<lambda>res.
         case res of None \<Rightarrow> return_t ()
         | Some r \<Rightarrow> persist_branch_result run c b n attempt r))"

definition branch_step_uninstrumented ::
  "'x env \<Rightarrow> string \<Rightarrow> node \<Rightarrow> string \<Rightarrow> ('x world, unit) thread" where
  "branch_step_uninstrumented E run c b =
     bind_t (read_barrier run) (\<lambda>barrier.
     if barrier \<noteq> None then return_t ()
     else bind_t (lift_t (subgraph_of c b)) (\<lambda>g.
       bind_t (reading (\<lambda>now. current_bnode run (nd_id c) b)) (\<lambda>current.
       case current of None \<Rightarrow> return_t ()
       | Some row \<Rightarrow>
           bind_t (lift_t (nested_node g (bn_node row))) (\<lambda>n.
           if bn_status row = NS_Running then continue_branch_external E run c b n
           else case (if bn_resolved row then None else bn_result row) of
               Some r \<Rightarrow> bind_t (lift_t (stored_result n r)) (branch_route run c b n)
             | None \<Rightarrow> attempt_branch E run c b n))))"

text \<open>\<open>_branch_step\<close> reads the aggregate once more for its span, which may raise.\<close>

definition branch_step :: "'x env \<Rightarrow> string \<Rightarrow> node \<Rightarrow> string \<Rightarrow> ('x world, unit) thread" where
  "branch_step E run c b = seq_t (branch_step_uninstrumented E run c b)
     (seq_t (read_aggregate run (nd_id c)) (return_t ()))"

section \<open>One step of a container\<close>

definition concurrency :: "node \<Rightarrow> py_error + int" where
  "concurrency c = (if nd_type c = NT_Parallel then
       (case nd_parallel c of None \<Rightarrow> Inl AssertionError | Some p \<Rightarrow> Inr (ps_max p))
     else Inr 1)"

definition schedulable :: "string \<Rightarrow> string \<Rightarrow> int \<Rightarrow> db \<Rightarrow> string list" where
  "schedulable run c limit d = map bh_branch (take (nat limit)
     (order_by (\<lambda>b. (if bh_status b = BH_Active then 0 else 1 :: nat, bh_order b, bh_branch b))
       (filter (\<lambda>b. \<not> branch_ended (bh_status b)) (container_rows run c d))))"

definition container_result :: "node \<Rightarrow> par_result \<Rightarrow> py_error + result" where
  "container_result c r = (if nd_type c = NT_Parallel then Inr (RPar r)
     else bind_sum (subgraph_result (hd (pr_branches r))) (\<lambda>x. Inr (RExec x)))"

definition container_step :: "'x env \<Rightarrow> string \<Rightarrow> node \<Rightarrow> ('x world, result option) thread" where
  "container_step E run c =
     bind_t (read_barrier run) (\<lambda>barrier.
     if barrier \<noteq> None then return_t None
     else bind_t (lift_t (concurrency c)) (\<lambda>limit.
       bind_t (reading (\<lambda>now d. Inr (schedulable run (nd_id c) limit d))) (\<lambda>rows.
       seq_t (if rows = [] then return_t ()
              else bind_t (reads (e_schedule E)) (\<lambda>schedule.
                     thread_pool schedule (map (branch_step E run c) rows)))
       (bind_t (read_barrier run) (\<lambda>barrier.
        if barrier = Some B_Interrupt \<or> barrier = Some B_Cancel then
          bind_t (read_barrier run) (\<lambda>reason.
          seq_t (cancel_incomplete run
                  (case reason of None \<Rightarrow> ''cancel'' | Some x \<Rightarrow> barrier_value x))
            (return_t None))
        else bind_t (read_aggregate run (nd_id c)) (\<lambda>a.
          case a of None \<Rightarrow> return_t None
          | Some r \<Rightarrow> map_t Some (lift_t (container_result c r))))))))"

end
