(* ===== verification/Engine.thy ===== *)
theory Engine
  imports Parallel
begin

text \<open>
  The serial scheduler \<open>GraphRuntime\<close> of \<open>runtime/engine.py\<close>: creating, recovering, running,
  cancelling and controlling a run, charging and reserving cost, and the transactions in between.
  Each method is a thread whose steps are its transactions and its reads, in the code's order.
\<close>

section \<open>Creating a run\<close>

definition referenced_runs :: "relationship \<Rightarrow> string list" where
  "referenced_runs rel = List.map_filter id [rl_parent rel, rl_supersedes rel]"

definition check_referenced :: "relationship \<Rightarrow> db \<Rightarrow> string \<Rightarrow> py_error + unit" where
  "check_referenced rel d k = (if find_run k d \<noteq> None then Inr ()
     else Inl (ValueError ((if rl_parent rel = Some k then ''parent Run'' else ''superseded Run'') @
       '' does not exist: '' @ k)))"

definition is_checkpoint_restart :: "restart_from option \<Rightarrow> bool" where
  "is_checkpoint_restart r = (case r of None \<Rightarrow> False | Some f \<Rightarrow> rf_strategy f = SG_Checkpoint)"

definition restart_ref :: "restart_from option \<Rightarrow> string option" where
  "restart_ref r = Option.bind r rf_reference"

text \<open>
  \<open>_validate_run_lineage\<close>. Python iterates over a set of at most two run ids; which of two missing
  ones is named is not determined, the model takes the parent.
\<close>

definition validate_lineage :: "host \<Rightarrow> exec_graph \<Rightarrow> string \<Rightarrow> relationship \<Rightarrow>
    restart_from option \<Rightarrow> db \<Rightarrow> py_error + run_image option" where
  "validate_lineage H g chash rel restart d =
     bind_sum (collect (check_referenced rel d) (referenced_runs rel)) (\<lambda>_.
     if \<not> is_checkpoint_restart restart then Inr None
     else if referenced_runs rel = []
       then Inl (ValueError ''checkpoint restart requires a parent or superseded Run'')
     else (case find (\<lambda>c. Some (cp_ref c) = restart_ref restart) (db_checkpoints d) of
         None \<Rightarrow> Inl (ValueError (''checkpoint does not exist: '' @
                (case restart_ref restart of None \<Rightarrow> ''None'' | Some k \<Rightarrow> k)))
       | Some c \<Rightarrow>
           if cp_run c \<notin> set (referenced_runs rel)
           then Inl (ValueError ''checkpoint does not belong to the parent or superseded Run'')
           else if im_graph_hash (cp_state c) \<noteq> h_graph_hash H g
           then Inl (ValueError ''checkpoint Graph hash does not match the new Run'')
           else if im_contract_hash (cp_state c) \<noteq> chash
           then Inl (ValueError ''checkpoint Contract hash does not match the new Run'')
           else Inr (Some (cp_state c))))"

definition insert_run :: "run_row \<Rightarrow> (db, unit) op" where
  "insert_run r = insert_or_fail ''runs'' rn_id r db_runs (\<lambda>t d. d\<lparr>db_runs := t\<rparr>)"

definition insert_node :: "node_row \<Rightarrow> (db, unit) op" where
  "insert_node r = insert_or_fail ''nodes'' node_key r db_nodes (\<lambda>t d. d\<lparr>db_nodes := t\<rparr>)"

definition insert_budget :: "budget_row \<Rightarrow> (db, unit) op" where
  "insert_budget r = insert_or_fail ''budgets'' bd_run r db_budgets (\<lambda>t d. d\<lparr>db_budgets := t\<rparr>)"

definition edge_key :: "traversal_row \<Rightarrow> string \<times> string \<times> string" where
  "edge_key t = (tv_run t, tv_from t, tv_to t)"

definition insert_edge :: "traversal_row \<Rightarrow> (db, unit) op" where
  "insert_edge r = insert_or_fail ''edge_traversals'' edge_key r db_edges (\<lambda>t d. d\<lparr>db_edges := t\<rparr>)"

definition new_run :: "host \<Rightarrow> string \<Rightarrow> string \<Rightarrow> exec_graph \<Rightarrow> string \<Rightarrow> relationship \<Rightarrow>
    restart_from option \<Rightarrow> run_image option \<Rightarrow> run_row" where
  "new_run H run project g chash rel restart im = \<lparr>rn_id = run, rn_project = project,
     rn_contract = g_contract g, rn_contract_hash = chash, rn_graph_id = g_id g,
     rn_graph_hash = h_graph_hash H g, rn_graph = g, rn_status = RS_Running, rn_barrier = None,
     rn_current = (case Option.bind im im_current of None \<Rightarrow> Some (g_entry g) | Some k \<Rightarrow> Some k),
     rn_parent = rl_parent rel, rn_supersedes = rl_supersedes rel, rn_restart = restart,
     rn_reason = None, rn_error = None, rn_unverified = [], rn_effects = []\<rparr>"

definition new_node :: "string \<Rightarrow> exec_graph \<Rightarrow> node_image list \<Rightarrow> node \<Rightarrow> node_row" where
  "new_node run g inherited n =
     (case find (\<lambda>i. ni_node i = nd_id n) inherited of
        None \<Rightarrow> \<lparr>nr_run = run, nr_node = nd_id n, nr_type = nd_type n,
          nr_status = (if nd_id n = g_entry g then NS_Ready else NS_Pending), nr_count = 0,
          nr_result = None, nr_resolved = False, nr_first = None, nr_cost = 0, nr_repairs = 0\<rparr>
      | Some i \<Rightarrow> \<lparr>nr_run = run, nr_node = nd_id n, nr_type = nd_type n,
          nr_status = (if ni_status i = NS_Running then NS_Ready else ni_status i),
          nr_count = ni_count i, nr_result = ni_result i, nr_resolved = ni_resolved i,
          nr_first = None, nr_cost = 0, nr_repairs = 0\<rparr>)"

definition new_budget :: "string \<Rightarrow> budget \<Rightarrow> int \<Rightarrow> budget_row" where
  "new_budget run b now = \<lparr>bd_run = run, bd_max_duration = bg_max_duration b,
     bd_max_calls = bg_max_calls b, bd_max_repairs = bg_max_repairs b,
     bd_max_cost = bg_max_cost b, bd_calls = 0, bd_repairs = 0,
     bd_cost = (if bg_max_cost b \<noteq> None then Some 0 else None), bd_started = now\<rparr>"

definition inherit_artifact :: "string \<Rightarrow> run_image \<Rightarrow> run_artifact_row \<Rightarrow> (db, unit) op" where
  "inherit_artifact run im a = modify (\<lambda>d. d\<lparr>db_run_artifacts :=
     insert_or_ignore artifact_key (a\<lparr>ra_run := run, ra_from := Some (im_run im)\<rparr>)
       (db_run_artifacts d)\<rparr>)"

definition inherit_run :: "string \<Rightarrow> run_image \<Rightarrow> (db, unit) op" where
  "inherit_run run im = seq_op (for_each (\<lambda>t. insert_edge (t\<lparr>tv_run := run\<rparr>)) (im_edges im))
     (for_each (inherit_artifact run im) (im_artifacts im))"

definition opt_json :: "string option \<Rightarrow> json" where
  "opt_json x = (case x of None \<Rightarrow> JNull | Some s \<Rightarrow> JStr s)"

definition restart_json :: "restart_from option \<Rightarrow> json" where
  "restart_json r = (case r of None \<Rightarrow> JNull | Some f \<Rightarrow> JObj [(''schema_version'', JStr ''1.0''),
     (''strategy'', JStr (sg_value (rf_strategy f))), (''reference'', opt_json (rf_reference f))])"

definition create_run_tx :: "host \<Rightarrow> string \<Rightarrow> string \<Rightarrow> exec_graph \<Rightarrow> string \<Rightarrow> budget \<Rightarrow>
    relationship \<Rightarrow> restart_from option \<Rightarrow> int \<Rightarrow> (db, unit) op" where
  "create_run_tx H run project g chash budget rel restart now =
     bind_op (ask (validate_lineage H g chash rel restart)) (\<lambda>im.
     seq_op (insert_run (new_run H run project g chash rel restart im))
     (seq_op (for_each (\<lambda>n. insert_node (new_node run g (case im of None \<Rightarrow> [] | Some i \<Rightarrow> im_nodes i) n))
        (g_nodes g))
     (seq_op (initialize H run (g_nodes g))
     (seq_op (case im of None \<Rightarrow> ret () | Some i \<Rightarrow> inherit run i)
     (seq_op (insert_budget (new_budget run budget now))
     (seq_op (case im of None \<Rightarrow> ret () | Some i \<Rightarrow> inherit_run run i)
     (seq_op (checkpoint run ''run_created'')
       (enqueue_event ''run.created'' run None None
         [(''graph_hash'', JStr (h_graph_hash H g)), (''contract_hash'', JStr chash),
          (''parent_run_id'', opt_json (rl_parent rel)),
          (''supersedes_run_id'', opt_json (rl_supersedes rel)),
          (''restart_from'', restart_json restart)]))))))))"

definition set_graph :: "string \<Rightarrow> exec_graph \<Rightarrow> ('x world, unit) thread" where
  "set_graph run g = atomic (modify (\<lambda>w. w\<lparr>w_graphs := (w_graphs w)(run \<mapsto> g)\<rparr>))"

definition create_run :: "'x env \<Rightarrow> string \<Rightarrow> string \<Rightarrow> exec_graph \<Rightarrow> string \<Rightarrow> budget \<Rightarrow>
    relationship option \<Rightarrow> restart_from option \<Rightarrow> ('x world, unit) thread" where
  "create_run E run project g chash budget rel restart =
     bind_t (lift_t (case rel of Some r \<Rightarrow> Inr r
       | None \<Rightarrow> construct validate_relationship
           \<lparr>rl_run = run, rl_parent = None, rl_supersedes = None\<rparr>)) (\<lambda>r.
     seq_t (require_t (rl_run r = run) (ValueError ''RunRelationship.run_id must equal run_id''))
     (seq_t (tx (create_run_tx (e_host E) run project g chash budget r restart))
     (seq_t (set_graph run g) flush_t)))"

section \<open>Starting and finishing attempts\<close>

definition update_attempt :: "string \<Rightarrow> (attempt_row \<Rightarrow> attempt_row) \<Rightarrow> db \<Rightarrow> db" where
  "update_attempt k f d = d\<lparr>db_attempts := change_row at_id k f (db_attempts d)\<rparr>"

definition attempt_id :: "string \<Rightarrow> string \<Rightarrow> int \<Rightarrow> string" where
  "attempt_id run n i = run @ '':'' @ n @ '':'' @ int_str i"

definition attempt_key :: "attempt_row \<Rightarrow> string \<times> string \<times> int" where
  "attempt_key a = (at_run a, at_node a, at_number a)"

definition insert_attempt :: "attempt_row \<Rightarrow> (db, unit) op" where
  "insert_attempt a = bind_op (gets db_attempts) (\<lambda>t.
     seq_op (guard (at_id a \<notin> at_id ` set t \<and> attempt_key a \<notin> attempt_key ` set t)
              (IntegrityError ''attempts''))
       (modify (\<lambda>d. d\<lparr>db_attempts := t @ [a]\<rparr>)))"

definition run_node :: "int \<Rightarrow> int \<Rightarrow> node_row \<Rightarrow> node_row" where
  "run_node number now n = n\<lparr>nr_status := NS_Running, nr_count := number, nr_result := None,
     nr_resolved := False,
     nr_first := (case nr_first n of None \<Rightarrow> Some now | Some t \<Rightarrow> Some t)\<rparr>"

definition counts_call :: "node \<Rightarrow> bool" where
  "counts_call n \<longleftrightarrow> \<not> container_type (nd_type n)"

definition start_attempt_tx :: "host \<Rightarrow> string \<Rightarrow> node \<Rightarrow> int \<Rightarrow> (db, string) op" where
  "start_attempt_tx H run n now =
     bind_op (ask (required_run run)) (\<lambda>r.
     seq_op (guard (open_run r) (RuntimeInvariantError ''execution barrier forbids a new attempt''))
     (bind_op (gets (\<lambda>d. find_budget run d \<noteq> None \<and> (counts_call n \<longrightarrow> calls_left run d))) (\<lambda>left.
     seq_op (guard left BudgetExhausted)
     (bind_op (ask (\<lambda>d. case find_node run (nd_id n) d of
          None \<Rightarrow> Inl (RuntimeInvariantError ''only a ready node can start an attempt'')
        | Some row \<Rightarrow> if nr_status row = NS_Ready then Inr row
            else Inl (RuntimeInvariantError ''only a ready node can start an attempt''))) (\<lambda>row.
     seq_op (guard (\<not> node_budget_reached now (nd_budget n) (nr_count row) (nr_first row) (nr_cost row)
                False True) BudgetExhausted)
     (let number = nr_count row + 1; attempt = attempt_id run (nd_id n) number in
      seq_op (modify (update_node run (nd_id n) (run_node number now)))
      (seq_op (insert_attempt \<lparr>at_id = attempt, at_run = run, at_node = nd_id n, at_number = number,
           at_status = NS_Running, at_result = None\<rparr>)
      (seq_op (modify (if counts_call n then update_budget run spend_call else id))
      (seq_op (trigger_external H run n (nd_id n))
      (seq_op (checkpoint run ''attempt_started'')
      (seq_op (enqueue_event ''node.started'' run (Some (nd_id n)) (Some attempt) [])
        (ret attempt))))))))))))"

definition start_attempt :: "'x env \<Rightarrow> string \<Rightarrow> node \<Rightarrow> ('x world, string) thread" where
  "start_attempt E run n =
     bind_t (tx (start_attempt_tx (e_host E) run n)) (\<lambda>a. seq_t flush_t (return_t a))"

text \<open>\<open>_invoke\<close>: the boundary call of a node of the graph, exceptions turned into error results.\<close>

definition is_container :: "node \<Rightarrow> bool" where
  "is_container n \<longleftrightarrow> nd_type n = NT_Parallel \<or> nd_type n = NT_Subgraph"

definition invoke :: "'x env \<Rightarrow> string \<Rightarrow> node \<Rightarrow> string \<Rightarrow> ('x world, result option) thread" where
  "invoke E run n attempt = guarded_boundary n
     (if is_container n then container_step E run n
      else if nd_type n = NT_Join then map_t (\<lambda>r. Some (RPar r)) (join_node run n)
      else call_boundary E run n attempt)"

definition pending_result_tx ::
  "string \<Rightarrow> string \<Rightarrow> string \<Rightarrow> string \<Rightarrow> result \<Rightarrow> int \<Rightarrow> (db, unit) op" where
  "pending_result_tx run n attempt handle r now =
     seq_op (modify (checkpoint_handle run n handle))
     (seq_op (modify (update_attempt attempt (\<lambda>a. a\<lparr>at_result := Some r\<rparr>)))
     (seq_op (for_each (register_artifact run n ''verifier'') (result_artifacts r))
     (seq_op (checkpoint run ''external_handle_checkpointed'')
       (enqueue_event ''verifier.pending'' run (Some n) (Some attempt)
         [(''external_handle'', JStr handle)]))))"

definition result_tx :: "string \<Rightarrow> string \<Rightarrow> string \<Rightarrow> result \<Rightarrow> int \<Rightarrow> (db, unit) op" where
  "result_tx run n attempt r now =
     seq_op (modify (update_attempt attempt
       (\<lambda>a. a\<lparr>at_status := node_status r, at_result := Some r\<rparr>)))
     (seq_op (modify (update_node run n
       (\<lambda>x. x\<lparr>nr_status := node_status r, nr_result := Some r, nr_resolved := False\<rparr>)))
     (seq_op (for_each (register_artifact run n (result_role r)) (result_artifacts r))
     (seq_op (checkpoint run ''result_checkpointed'')
       (enqueue_event ''node.finished'' run (Some n) (Some attempt)
         [(''status'', JStr (payload_status r))]))))"

definition persist_result ::
  "string \<Rightarrow> string \<Rightarrow> string \<Rightarrow> result \<Rightarrow> ('x world, unit) thread" where
  "persist_result run n attempt r =
     (if is_pending r then
        (case r of RVer v \<Rightarrow>
           (if blank_opt (vr_handle v)
            then raise_t (RuntimeInvariantError ''pending Verifier result requires an external handle'')
            else seq_t (tx (pending_result_tx run n attempt (the (vr_handle v)) r)) flush_t)
         | _ \<Rightarrow> return_t ())
      else seq_t (tx (result_tx run n attempt r)) flush_t)"

section \<open>Routing\<close>

definition edge_counts :: "string \<Rightarrow> db \<Rightarrow> string \<Rightarrow> string \<Rightarrow> int" where
  "edge_counts run d x y = (case lookup_row edge_key (run, x, y) (db_edges d) of
     None \<Rightarrow> 0 | Some t \<Rightarrow> tv_count t)"

definition bump_edge :: "string \<Rightarrow> string \<Rightarrow> string \<Rightarrow> db \<Rightarrow> db" where
  "bump_edge run x y d = d\<lparr>db_edges := upsert_row edge_key
     \<lparr>tv_run = run, tv_from = x, tv_to = y, tv_count = 1\<rparr>
     (\<lambda>t. t\<lparr>tv_count := tv_count t + 1\<rparr>) (db_edges d)\<rparr>"

definition ready_node :: "node_row \<Rightarrow> node_row" where
  "ready_node n = n\<lparr>nr_status := NS_Ready, nr_result := None, nr_resolved := False\<rparr>"

definition take_edge :: "string \<Rightarrow> edge \<Rightarrow> db \<Rightarrow> db" where
  "take_edge run e =
     update_run run (\<lambda>r. r\<lparr>rn_current := Some (ed_to e)\<rparr>) \<circ>
     update_node run (ed_to e) ready_node \<circ>
     update_node run (ed_from e) (\<lambda>n. n\<lparr>nr_resolved := True\<rparr>)"

definition charge_repair :: "string \<Rightarrow> string \<Rightarrow> db \<Rightarrow> db" where
  "charge_repair run n = update_node run n (\<lambda>r. r\<lparr>nr_repairs := nr_repairs r + 1\<rparr>) \<circ>
     update_budget run spend_repair"

text \<open>Whether the run's or the node's repair budget is spent; a missing row does not count.\<close>

definition repairs_exhausted :: "string \<Rightarrow> node \<Rightarrow> db \<Rightarrow> bool" where
  "repairs_exhausted run n d \<longleftrightarrow>
     (case find_budget run d of None \<Rightarrow> False | Some b \<Rightarrow> bd_repairs b \<ge> bd_max_repairs b) \<or>
     (case (nd_budget n, find_node run (nd_id n) d) of
        (Some b, Some row) \<Rightarrow> nr_repairs row \<ge> bg_max_repairs b | _ \<Rightarrow> False)"

text \<open>The value: \<open>None\<close> when a barrier stopped the route, else whether the budget is exhausted.\<close>

definition route_tx ::
  "string \<Rightarrow> exec_graph \<Rightarrow> edge \<Rightarrow> bool \<Rightarrow> int \<Rightarrow> (db, bool option) op" where
  "route_tx run g e repair now =
     bind_op (ask (required_run run)) (\<lambda>r.
     if rn_barrier r \<noteq> None then ret None
     else bind_op (lift_sum (graph_node g (ed_from e))) (\<lambda>n.
       bind_op (gets (\<lambda>d. repair \<and> repairs_exhausted run n d)) (\<lambda>exhausted.
       if exhausted then ret (Some True)
       else seq_op (modify (bump_edge run (ed_from e) (ed_to e)))
         (seq_op (modify (if repair then charge_repair run (ed_from e) else id))
         (seq_op (modify (take_edge run e))
         (seq_op (checkpoint run ''route_selected'')
         (seq_op (enqueue_event ''route.selected'' run (Some (ed_from e)) None
            [(''to_node'', JStr (ed_to e))])
           (ret (Some False)))))))))"

text \<open>What \<open>_route_result\<close> reads; \<open>None\<close> when the route is already resolved.\<close>

definition route_input ::
  "string \<Rightarrow> string \<Rightarrow> db \<Rightarrow> py_error + (result \<times> int \<times> (string \<Rightarrow> string \<Rightarrow> int)) option" where
  "route_input run n d = (case find_node run n d of
     None \<Rightarrow> Inl (RuntimeInvariantError ''cannot route a node without a result'')
   | Some row \<Rightarrow> (case nr_result row of
       None \<Rightarrow> Inl (RuntimeInvariantError ''cannot route a node without a result'')
     | Some r \<Rightarrow> Inr (if nr_resolved row then None else Some (r, nr_count row, edge_counts run d))))"

text \<open>No edge applies: the run ends as the result says.\<close>

definition end_of_route :: "result \<Rightarrow> terminal_status \<times> terminal_reason \<times> error option" where
  "end_of_route r = (let s = payload_status r in
     if s = ''succeeded'' \<or> s = ''passed'' then (TS_Succeeded, TR_Completed, None)
     else if s = ''failed'' then (TS_Failed, TR_AcceptanceFailed, None)
     else if s = ''blocked'' then (TS_Failed, TR_BudgetExhausted, None)
     else if s = ''cancelled'' then (TS_Cancelled, TR_HumanCancelled, None)
     else (TS_Error, TR_ExecutionError, if s = ''error'' then payload_error r else None))"

definition route_result :: "string \<Rightarrow> exec_graph \<Rightarrow> string \<Rightarrow> ('x world, unit) thread" where
  "route_result run g n =
     bind_t (read_barrier run) (\<lambda>barrier.
     if barrier \<noteq> None then honor_barrier run
     else bind_t (reading (\<lambda>now. route_input run n)) (\<lambda>input.
       case input of None \<Rightarrow> return_t ()
       | Some (r, attempts, counts) \<Rightarrow>
          (case select_edge (g_edges g) n counts r attempts of
             None \<Rightarrow> (case end_of_route r of (status, reason, err) \<Rightarrow> finish run status reason err)
           | Some e \<Rightarrow>
               bind_t (tx (route_tx run g e (is_repair e r))) (\<lambda>exhausted.
               case exhausted of None \<Rightarrow> return_t ()
               | Some x \<Rightarrow>
                   seq_t (if x then finish run TS_Failed TR_BudgetExhausted None else return_t ())
                     flush_t))))"

section \<open>External verifiers\<close>

definition latest_attempt :: "string \<Rightarrow> string \<Rightarrow> db \<Rightarrow> attempt_row option" where
  "latest_attempt run n d =
     (case order_by (\<lambda>a. - at_number a)
         (filter (\<lambda>a. at_run a = run \<and> at_node a = n) (db_attempts d)) of
        [] \<Rightarrow> None | a # _ \<Rightarrow> Some a)"

definition route_if_running :: "string \<Rightarrow> exec_graph \<Rightarrow> string \<Rightarrow> ('x world, unit) thread" where
  "route_if_running run g n = bind_t (read_status run) (\<lambda>s.
     if s = RS_Running then route_result run g n else return_t ())"

definition continue_external :: "'x env \<Rightarrow> string \<Rightarrow> node \<Rightarrow> ('x world, unit) thread" where
  "continue_external E run n =
     bind_t (reading (\<lambda>now d. Inr (pending_call (find_handle run (nd_id n) d)
        (map_option at_id (latest_attempt run (nd_id n) d))))) (\<lambda>p.
     case p of None \<Rightarrow> finish_uncertain run (nd_id n)
     | Some (row, handle, attempt) \<Rightarrow>
         bind_t (query_handle E row handle) (\<lambda>v.
         seq_t (persist_result run (nd_id n) attempt (RVer v))
           (if vr_status v = VS_Pending then return_t ()
            else seq_t (honor_barrier run)
              (bind_t (read_status run) (\<lambda>s.
               if s = RS_Running
               then bind_t (read_graph run) (\<lambda>g. route_result run g (nd_id n))
               else return_t ())))))"

section \<open>The scheduler\<close>

text \<open>The first running node, else the first ready one, in the order of the node ids.\<close>

definition next_node_row :: "string \<Rightarrow> db \<Rightarrow> node_row option" where
  "next_node_row run d =
     (case order_by (\<lambda>n. (if nr_status n = NS_Running then 0 else 1 :: nat, nr_node n))
         (filter (\<lambda>n. nr_run n = run \<and> (nr_status n = NS_Running \<or> nr_status n = NS_Ready)) (db_nodes d)) of
        [] \<Rightarrow> None | n # _ \<Rightarrow> Some n)"

definition unresolved_row :: "string \<Rightarrow> db \<Rightarrow> node_row option" where
  "unresolved_row run d =
     (case order_by nr_node
         (filter (\<lambda>n. nr_run n = run \<and> \<not> nr_resolved n \<and> nr_result n \<noteq> None) (db_nodes d)) of
        [] \<Rightarrow> None | n # _ \<Rightarrow> Some n)"

text \<open>An iteration of the loop returns, or goes on and says whether it counts as a step.\<close>

datatype iteration = Returned run_status | Again bool

definition end_with :: "string \<Rightarrow> terminal_status \<Rightarrow> terminal_reason \<Rightarrow> ('x world, iteration) thread" where
  "end_with run status reason =
     seq_t (finish run status reason None) (return_t (Returned (rs_of_ts status)))"

definition continue_container ::
  "'x env \<Rightarrow> string \<Rightarrow> exec_graph \<Rightarrow> node \<Rightarrow> ('x world, unit) thread" where
  "continue_container E run g n =
     bind_t (reading (\<lambda>now d. case latest_attempt run (nd_id n) d of
        None \<Rightarrow> Inl (RuntimeInvariantError ''running container node has no attempt'')
      | Some a \<Rightarrow> Inr (at_id a))) (\<lambda>attempt.
     bind_t (container_step E run n) (\<lambda>res.
     case res of None \<Rightarrow> return_t ()
     | Some r \<Rightarrow> seq_t (persist_result run (nd_id n) attempt r)
         (seq_t (honor_barrier run) (route_if_running run g (nd_id n)))))"

definition after_attempt ::
  "string \<Rightarrow> exec_graph \<Rightarrow> node \<Rightarrow> string \<Rightarrow> result \<Rightarrow> ('x world, iteration) thread" where
  "after_attempt run g n attempt r =
     seq_t (persist_result run (nd_id n) attempt r)
     (if is_pending r then return_t (Again True)
      else seq_t (honor_barrier run)
       (bind_t (read_status run) (\<lambda>s.
        if s = RS_Paused \<or> terminal s then return_t (Returned s)
        else bind_t (reading (budget_limit_reached run (Some n) False False)) (\<lambda>reached.
          if reached then end_with run TS_Failed TR_BudgetExhausted
          else seq_t (route_result run g (nd_id n)) (return_t (Again True))))))"

definition attempt_node ::
  "'x env \<Rightarrow> string \<Rightarrow> exec_graph \<Rightarrow> node \<Rightarrow> ('x world, iteration) thread" where
  "attempt_node E run g n =
     bind_t (catch_t (map_t Some (start_attempt E run n)) (\<lambda>exc.
        if exc = BudgetExhausted then return_t None else raise_t exc)) (\<lambda>started.
     case started of None \<Rightarrow> end_with run TS_Failed TR_BudgetExhausted
     | Some attempt \<Rightarrow> bind_t (invoke E run n attempt) (\<lambda>res.
         case res of None \<Rightarrow> return_t (Again True)
         | Some r \<Rightarrow> after_attempt run g n attempt r))"

definition schedule_node :: "'x env \<Rightarrow> string \<Rightarrow> exec_graph \<Rightarrow> ('x world, iteration) thread" where
  "schedule_node E run g =
     bind_t (reading (\<lambda>now d. Inr (next_node_row run d))) (\<lambda>next.
     case next of
       None \<Rightarrow> bind_t (reading (\<lambda>now d. Inr (unresolved_row run d))) (\<lambda>u.
         case u of
           None \<Rightarrow> raise_t (RuntimeInvariantError ''running Run has no schedulable or unresolved node'')
         | Some row \<Rightarrow> seq_t (route_result run g (nr_node row)) (return_t (Again False)))
     | Some row \<Rightarrow> bind_t (lift_t (graph_node g (nr_node row))) (\<lambda>n.
         if nr_status row = NS_Running
         then seq_t (if is_container n then continue_container E run g n
                     else continue_external E run n) (return_t (Again True))
         else attempt_node E run g n))"

definition run_iteration :: "'x env \<Rightarrow> string \<Rightarrow> exec_graph \<Rightarrow> ('x world, iteration) thread" where
  "run_iteration E run g =
     bind_t (read_status run) (\<lambda>s.
     if terminal s \<or> s = RS_Paused then return_t (Returned s)
     else if s = RS_PauseRequested
       then seq_t (pause_at_safe_point run) (return_t (Returned RS_Paused))
     else bind_t (read_barrier run) (\<lambda>barrier.
       if barrier = Some B_Interrupt
       then seq_t (cancel_incomplete run ''interrupt'') (end_with run TS_Interrupted TR_HumanInterrupted)
       else bind_t (reading (budget_limit_reached run None False False)) (\<lambda>reached.
         if reached then end_with run TS_Failed TR_BudgetExhausted
         else schedule_node E run g)))"

text \<open>
  The \<open>while\<close> loop of \<open>_run\<close>. The first argument bounds the number of iterations of the model;
  \<open>None\<close> is the value when that bound ran out before the loop returned.
\<close>

fun run_loop :: "nat \<Rightarrow> 'x env \<Rightarrow> string \<Rightarrow> exec_graph \<Rightarrow> int option \<Rightarrow> int \<Rightarrow>
    ('x world, run_status option) thread" where
  "run_loop 0 E run g max_steps steps = return_t None"
| "run_loop (Suc fuel) E run g max_steps steps =
     (if (case max_steps of None \<Rightarrow> True | Some m \<Rightarrow> steps < m) then
        bind_t (run_iteration E run g) (\<lambda>out.
          case out of Returned s \<Rightarrow> return_t (Some s)
          | Again counts \<Rightarrow> run_loop fuel E run g max_steps (if counts then steps + 1 else steps))
      else map_t Some (read_status run))"

definition run_run :: "nat \<Rightarrow> 'x env \<Rightarrow> string \<Rightarrow> int option \<Rightarrow> ('x world, run_status option) thread" where
  "run_run fuel E run_id max_steps =
     bind_t (read_graph run_id) (\<lambda>g.
     bind_t (run_loop fuel E run_id g max_steps 0) (\<lambda>s.
     seq_t (snapshot run_id) (return_t s)))"

end
