(* ===== verification/Engine_Control.thy ===== *)
theory Engine_Control
  imports Engine
begin

text \<open>
  The calls that reach \<open>GraphRuntime\<close> (\<open>runtime/engine.py\<close>) from outside its scheduler: cancelling,
  charging and reserving cost, storing an artifact, control intents, recovery after a restart and
  the read-only queries. They run beside the scheduler, from other threads or processes.
\<close>

section \<open>Cancelling external handles\<close>

definition cancel_outcome :: "ver_result option \<Rightarrow> string \<times> string option" where
  "cancel_outcome out = (case out of
     Some v \<Rightarrow> if vr_status v = VS_Cancelled then (''cancelled'', None)
       else (''unknown'', Some ''external handle cancellation result is unknown; effect may continue'')
   | None \<Rightarrow> (''unknown'', Some ''external handle cancellation result is unknown; effect may continue''))"

definition guarded_cancel ::
  "('x world, ver_result option) thread \<Rightarrow> ('x world, string \<times> string option) thread" where
  "guarded_cancel m = catch_t (map_t cancel_outcome m) (\<lambda>exc. return_t
     (''unknown'', Some ''external handle cancellation raised an error; effect may continue''))"

definition cancel_call ::
  "'x env \<Rightarrow> handle_row \<Rightarrow> string \<Rightarrow> ('x world, string \<times> string option) thread" where
  "cancel_call E h handle = (case (e_cancel_for E, xh_verifier h, e_cancel E) of
     (Some c, Some v, _) \<Rightarrow> guarded_cancel (c v (xh_revision h) handle)
   | (_, _, Some c) \<Rightarrow> guarded_cancel (c handle)
   | _ \<Rightarrow> return_t (''unsupported'',
       Some ''external handle cancellation is unsupported; effect may continue''))"

definition cancel_handle_tx ::
  "string \<Rightarrow> string \<Rightarrow> string \<times> string option \<Rightarrow> int \<Rightarrow> (db, unit) op" where
  "cancel_handle_tx run node outcome now =
     (case outcome of (state, residual) \<Rightarrow>
       seq_op (modify (update_handle run node
         (\<lambda>h. h\<lparr>xh_cancel := Some state, xh_residual := residual\<rparr>)))
       (seq_op (checkpoint run ''external_handle_cancelled'')
         (enqueue_event (if state = ''cancelled'' then ''verifier.cancelled''
             else ''verifier.cancel_unknown'') run (Some node) None
           [(''cancel_state'', JStr state), (''residual_effect'', opt_json residual)])))"

definition live_handles :: "string \<Rightarrow> db \<Rightarrow> (handle_row \<times> string) list" where
  "live_handles run d = List.map_filter (\<lambda>h. map_option (\<lambda>x. (h, x)) (xh_handle h))
     (filter (\<lambda>h. xh_run h = run \<and> xh_trigger h = Checkpointed) (db_handles d))"

definition cancel_external_handles :: "'x env \<Rightarrow> string \<Rightarrow> ('x world, unit) thread" where
  "cancel_external_handles E run =
     bind_t (reading (\<lambda>now d. Inr (live_handles run d))) (\<lambda>hs.
     seq_t (for_each_t (\<lambda>(h, handle). bind_t (cancel_call E h handle) (\<lambda>outcome.
         tx (cancel_handle_tx run (xh_node h) outcome))) hs) flush_t)"

section \<open>Cancelling a run\<close>

definition set_status :: "run_status \<Rightarrow> barrier option \<Rightarrow> run_row \<Rightarrow> run_row" where
  "set_status s b r = r\<lparr>rn_status := s, rn_barrier := b\<rparr>"

definition cancel_run_tx :: "string \<Rightarrow> int \<Rightarrow> (db, bool) op" where
  "cancel_run_tx run now = bind_op (ask (required_run run)) (\<lambda>r.
     if terminal (rn_status r) then ret False
     else seq_op (modify (update_run run (set_status RS_Quiescing (Some B_Cancel))))
       (seq_op (checkpoint run ''cancel_requested'')
       (seq_op (enqueue_event ''run.cancel_requested'' run None None []) (ret True))))"

definition cancel :: "'x env \<Rightarrow> string \<Rightarrow> ('x world, unit) thread" where
  "cancel E run = bind_t (tx (cancel_run_tx run)) (\<lambda>going.
     if going then seq_t (cancel_incomplete run ''cancel'')
       (seq_t (cancel_external_handles E run) (finish run TS_Cancelled TR_HumanCancelled None))
     else return_t ())"

section \<open>Cost\<close>

text \<open>\<open>COALESCE(cost_units, 0) + ?\<close>\<close>

definition add_cost :: "rat \<Rightarrow> budget_row \<Rightarrow> budget_row" where
  "add_cost c b = b\<lparr>bd_cost := Some (case_option 0 id (bd_cost b) + c)\<rparr>"

definition add_node_cost :: "string \<Rightarrow> string option \<Rightarrow> rat \<Rightarrow> db \<Rightarrow> db" where
  "add_node_cost run n c = (case n of None \<Rightarrow> id
     | Some k \<Rightarrow> update_node run k (\<lambda>r. r\<lparr>nr_cost := nr_cost r + c\<rparr>))"

text \<open>The cost in an event's payload is a JSON number.\<close>

definition charge_tx :: "string \<Rightarrow> rat \<Rightarrow> string option \<Rightarrow> int \<Rightarrow> (db, unit) op" where
  "charge_tx run c n now = bind_op (ask (required_run run)) (\<lambda>r.
     seq_op (guard (\<not> terminal (rn_status r))
       (RuntimeInvariantError ''cannot charge cost to a terminal Run''))
     (seq_op (modify (update_budget run (add_cost c)))
     (seq_op (modify (add_node_cost run n c))
     (seq_op (checkpoint run ''cost_charged'')
       (enqueue_event ''budget.updated'' run n None [(''cost_units'', JFloat c)])))))"

definition node_opt :: "exec_graph \<Rightarrow> string option \<Rightarrow> py_error + node option" where
  "node_opt g n = (case n of None \<Rightarrow> Inr None
     | Some k \<Rightarrow> bind_sum (graph_node g k) (\<lambda>x. Inr (Some x)))"

definition charge_cost :: "string \<Rightarrow> rat \<Rightarrow> string option \<Rightarrow> ('x world, unit) thread" where
  "charge_cost run c n =
     seq_t (require_t (c > 0) (ValueError ''cost_units must be positive''))
     (bind_t (read_graph run) (\<lambda>g.
      bind_t (lift_t (node_opt g n)) (\<lambda>node.
      seq_t (tx (charge_tx run c n))
      (seq_t flush_t
      (bind_t (reading (budget_limit_reached run node True False)) (\<lambda>reached.
       if reached then finish run TS_Failed TR_BudgetExhausted None else return_t ()))))))"

definition reservation_key :: "reservation_row \<Rightarrow> string \<times> string" where
  "reservation_key r = (rv_run r, rv_id r)"

text \<open>
  Whether the node, when one is named, has room for the cost. The graph comes from the runtime's
  cache, whose absence raises.
\<close>

definition node_has_room ::
  "(py_error + exec_graph) \<Rightarrow> string \<Rightarrow> string option \<Rightarrow> rat \<Rightarrow> db \<Rightarrow> py_error + bool" where
  "node_has_room graph run n c d = (case n of None \<Rightarrow> Inr True
     | Some k \<Rightarrow> bind_sum (bind_sum graph (\<lambda>g. graph_node g k)) (\<lambda>node.
         case find_node run k d of
           None \<Rightarrow> Inl (RuntimeInvariantError ''budget reservation node is missing'')
         | Some row \<Rightarrow> Inr (case Option.bind (nd_budget node) bg_max_cost of
              None \<Rightarrow> True | Some m \<Rightarrow> \<not> nr_cost row + c > m)))"

definition run_has_room :: "string \<Rightarrow> rat \<Rightarrow> db \<Rightarrow> py_error + bool" where
  "run_has_room run c d = (case Option.bind (find_budget run d)
        (\<lambda>b. map_option (\<lambda>m. (b, m)) (bd_max_cost b)) of
     None \<Rightarrow> Inl (RuntimeInvariantError ''cost reservation requires a configured cost budget'')
   | Some (b, m) \<Rightarrow> Inr (\<not> case_option 0 id (bd_cost b) + c > m))"

text \<open>The values: whether the cost is reserved, and whether this call wrote it.\<close>

definition reserve_write ::
  "string \<Rightarrow> string \<Rightarrow> rat \<Rightarrow> string option \<Rightarrow> (db, bool \<times> bool) op" where
  "reserve_write run k c n =
     seq_op (insert_or_fail ''shared_budget_reservations'' reservation_key
       \<lparr>rv_run = run, rv_id = k, rv_node = n, rv_cost = c\<rparr> db_reservations
       (\<lambda>t d. d\<lparr>db_reservations := t\<rparr>))
     (seq_op (modify (update_budget run (add_cost c)))
     (seq_op (modify (add_node_cost run n c))
     (seq_op (checkpoint run ''cost_reserved'')
     (seq_op (enqueue_event ''budget.reserved'' run n None
         [(''reservation_id'', JStr k), (''cost_units'', JFloat c)]) (ret (True, True))))))"

definition reserve_tx ::
  "(py_error + exec_graph) \<Rightarrow> string \<Rightarrow> string \<Rightarrow> rat \<Rightarrow> string option \<Rightarrow> int \<Rightarrow>
    (db, bool \<times> bool) op" where
  "reserve_tx graph run k c n now =
     bind_op (gets (\<lambda>d. lookup_row reservation_key (run, k) (db_reservations d))) (\<lambda>existing.
     case existing of
       Some row \<Rightarrow> seq_op (guard (rv_cost row = c \<and> rv_node row = n)
           (RuntimeInvariantError ''budget reservation identity collision'')) (ret (True, False))
     | None \<Rightarrow> bind_op (ask (required_run run)) (\<lambda>r.
         if \<not> open_run r then ret (False, False)
         else bind_op (ask (run_has_room run c)) (\<lambda>room.
           if \<not> room then ret (False, False)
           else bind_op (ask (node_has_room graph run n c)) (\<lambda>node_room.
             if \<not> node_room then ret (False, False) else reserve_write run k c n))))"

definition cached_graph :: "string \<Rightarrow> 'x world \<Rightarrow> py_error + exec_graph" where
  "cached_graph run w = (case w_graphs w run of
     None \<Rightarrow> Inl (RecoveryError ''Run must be created or recovered before scheduling'')
   | Some g \<Rightarrow> Inr g)"

definition reserve_atomic ::
  "string \<Rightarrow> string \<Rightarrow> rat \<Rightarrow> string option \<Rightarrow> ('x world, bool \<times> bool) thread" where
  "reserve_atomic run k c n = atomic (\<lambda>w. tx_op (reserve_tx (cached_graph run w) run k c n) w)"

definition reserve_cost ::
  "string \<Rightarrow> string \<Rightarrow> rat \<Rightarrow> string option \<Rightarrow> ('x world, bool) thread" where
  "reserve_cost run k c n =
     seq_t (require_t (k \<noteq> [] \<and> c > 0)
       (ValueError ''reservation_id and positive cost_units are required''))
     (bind_t (reserve_atomic run k c n) (\<lambda>(ok, wrote).
      if wrote then seq_t flush_t (return_t ok) else return_t ok))"

section \<open>Artifacts\<close>

text \<open>\<open>store_artifact\<close>, after \<open>ArtifactStore.put_bytes\<close> has returned the artifact.\<close>

definition store_artifact_tx :: "string \<Rightarrow> artifact \<Rightarrow> int \<Rightarrow> (db, unit) op" where
  "store_artifact_tx run a now = seq_op (ask (required_run run))
     (seq_op (register_artifact run [] ''runtime'' a) (checkpoint run ''artifact_registered''))"

definition store_artifact :: "string \<Rightarrow> artifact \<Rightarrow> ('x world, artifact) thread" where
  "store_artifact run a = seq_t (tx (store_artifact_tx run a)) (seq_t flush_t (return_t a))"

section \<open>Control intents\<close>

definition insert_intent :: "control_intent \<Rightarrow> control_outcome \<Rightarrow> int \<Rightarrow> (db, unit) op" where
  "insert_intent i out now = insert_or_fail ''control_intents'' ir_id
     \<lparr>ir_id = intent_id i, ir_run = intent_run i, ir_intent = i, ir_outcome = out,
      ir_created = now\<rparr> db_intents (\<lambda>t d. d\<lparr>db_intents := t\<rparr>)"

definition record_control_tx :: "query_intent \<Rightarrow> int \<Rightarrow> (db, unit) op" where
  "record_control_tx i now = seq_op (insert_intent (QueryIntent i) CO_Applied now)
     (enqueue_event ''query.snapshot.generated'' (in_run i) None None
       [(''intent_id'', JStr (in_id i)), (''action'', JStr (qa_value (qi_action i)))])"

definition control_query :: "query_intent \<Rightarrow> ('x world, action_result) thread" where
  "control_query i =
     seq_t (snapshot (in_run i))
     (seq_t (tx (record_control_tx i))
     (bind_t (read_status (in_run i)) (\<lambda>s.
      bind_t (lift_t (construct validate_action_result
        \<lparr>ac_intent = in_id i, ac_outcome = CO_Applied, ac_changed = False,
         ac_status = Some (rs_value s), ac_message = ''read-only snapshot generated'',
         ac_error = None\<rparr>)) (\<lambda>r.
      seq_t flush_t (return_t r)))))"

text \<open>The transition of a state-change action: the new status, the new barrier and the event.\<close>

definition control_change ::
  "change_action \<Rightarrow> run_status \<Rightarrow> (run_status \<times> barrier option \<times> string) option" where
  "control_change a s =
     (if a = CA_Pause \<and> s = RS_Running
        then Some (RS_PauseRequested, Some B_Pause, ''run.pause_requested'')
      else if a = CA_Resume \<and> s = RS_Paused then Some (RS_Running, None, ''run.resumed'')
      else if a = CA_Interrupt \<and> (s = RS_Running \<or> s = RS_PauseRequested \<or> s = RS_Paused)
        then Some (RS_Quiescing, Some B_Interrupt, ''run.interrupt_requested'')
      else None)"

definition control_tx :: "change_intent \<Rightarrow> int \<Rightarrow> (db, bool \<times> string) op" where
  "control_tx i now = (let run = in_run i in
     bind_op (ask (required_run run)) (\<lambda>r.
     case control_change (ci_action i) (rn_status r) of
       Some (s, b, event) \<Rightarrow>
         seq_op (modify (update_run run (set_status s b)))
         (seq_op (insert_intent (ChangeIntent i) CO_Applied now)
         (seq_op (checkpoint run (''control:'' @ ca_value (ci_action i)))
         (seq_op (enqueue_event event run None None [(''intent_id'', JStr (in_id i))])
           (ret (True, ''control applied'')))))
     | None \<Rightarrow>
         seq_op (insert_intent (ChangeIntent i) CO_Rejected now)
         (seq_op (checkpoint run (''control:'' @ ca_value (ci_action i)))
         (seq_op (enqueue_event ''control.action.rejected'' run None None
             [(''intent_id'', JStr (in_id i))])
           (ret (False, ca_value (ci_action i) @ '' is invalid from '' @ rs_value (rn_status r)))))))"

definition control_state :: "'x env \<Rightarrow> change_intent \<Rightarrow> ('x world, action_result) thread" where
  "control_state E i = (let run = in_run i in
     bind_t (tx (control_tx i)) (\<lambda>(changed, message).
     seq_t flush_t
     (seq_t (if ci_action i = CA_Interrupt \<and> changed
             then seq_t (cancel_pending run ''interrupt'') (cancel_external_handles E run)
             else return_t ())
     (bind_t (read_status run) (\<lambda>s.
      lift_t (construct validate_action_result
        \<lparr>ac_intent = in_id i, ac_outcome = (if changed then CO_Applied else CO_Rejected),
         ac_changed = changed, ac_status = Some (rs_value s), ac_message = message,
         ac_error = None\<rparr>))))))"

definition control :: "'x env \<Rightarrow> control_intent \<Rightarrow> ('x world, action_result) thread" where
  "control E i = (case i of QueryIntent q \<Rightarrow> control_query q | ChangeIntent c \<Rightarrow> control_state E c)"

section \<open>Recovery\<close>

definition uncertain_handle :: "string \<Rightarrow> db \<Rightarrow> string option" where
  "uncertain_handle run d = map_option xh_node (find (\<lambda>h. xh_run h = run \<and>
     xh_trigger h = Triggering \<and> xh_handle h = None) (db_handles d))"

definition local_running :: "string \<Rightarrow> db \<Rightarrow> string option" where
  "local_running run d = map_option nr_node (find (\<lambda>n. nr_run n = run \<and> nr_status n = NS_Running \<and>
     Option.bind (find_handle run (nr_node n) d) xh_handle = None \<and>
     \<not> container_type (nr_type n)) (db_nodes d))"

definition recovery_check ::
  "host \<Rightarrow> string \<Rightarrow> exec_graph \<Rightarrow> string \<Rightarrow> db \<Rightarrow> py_error + string option" where
  "recovery_check H run g chash d = bind_sum (required_run run d) (\<lambda>r.
     if rn_contract_hash r \<noteq> chash
     then Inl (RecoveryError ''Contract hash mismatch; refusing recovery'')
     else if rn_graph_hash r \<noteq> h_graph_hash H g
     then Inl (RecoveryError ''Graph hash mismatch; refusing recovery'')
     else Inr (case uncertain_handle run d of Some k \<Rightarrow> Some k | None \<Rightarrow> local_running run d))"

definition recover :: "'x env \<Rightarrow> string \<Rightarrow> exec_graph \<Rightarrow> string \<Rightarrow> ('x world, unit) thread" where
  "recover E run g chash =
     bind_t (reading (\<lambda>now. recovery_check (e_host E) run g chash)) (\<lambda>uncertain.
     seq_t (set_graph run g)
     (seq_t flush_t
       (case uncertain of None \<Rightarrow> return_t () | Some k \<Rightarrow> finish_uncertain run k)))"

text \<open>
  \<open>GraphRuntime.__init__\<close> in a new process: the cache of graphs is empty, and the outbox is flushed.
\<close>

definition boot :: "'x world \<Rightarrow> 'x world" where
  "boot w = flush_world (w\<lparr>w_graphs := \<lambda>_. None\<rparr>)"

section \<open>Reading\<close>

definition latest_checkpoint :: "string \<Rightarrow> ('x world, string) thread" where
  "latest_checkpoint run = reading (\<lambda>now d. bind_sum (required_run run d) (\<lambda>_.
     case filter (\<lambda>c. cp_run c = run) (db_checkpoints d) of
       [] \<Rightarrow> Inl (RuntimeInvariantError ''Run has no checkpoint'')
     | cs \<Rightarrow> Inr (cp_ref (last cs))))"

definition node_result :: "string \<Rightarrow> string \<Rightarrow> ('x world, result) thread" where
  "node_result run n = reading (\<lambda>now d. case Option.bind (find_node run n d) nr_result of
     None \<Rightarrow> Inl (RuntimeInvariantError ''node result is not available'')
   | Some r \<Rightarrow> construct validate_result r)"

text \<open>\<open>runtime/barriers.py\<close>: the guard other components put before a side effect.\<close>

definition guard_is_open :: "string \<Rightarrow> db \<Rightarrow> bool" where
  "guard_is_open run d = (case find_run run d of None \<Rightarrow> False | Some r \<Rightarrow> open_run r)"

definition require_open :: "string \<Rightarrow> string \<Rightarrow> ('x world, unit) thread" where
  "require_open run effect = reading (\<lambda>now d. if guard_is_open run d then Inr ()
     else Inl (RuntimeErr (''persisted Run barrier forbids '' @ effect)))"

end
