(* ===== verification/Steps.thy ===== *)
theory Steps
  imports Engine_Control
begin

text \<open>
  Reasoning about every atomic step of the runtime, whatever else runs beside it. \<open>op_in R m\<close> says
  that a database operation stays in a relation; the locale gives its rules for every preorder, and
  the lifting rules carry them to the threads. The second half is the system: a pool of calls
  into the runtime, each step of which the scheduler of the operating system picks, process
  crashes, and the world outside.
\<close>

lemmas tx_defs = create_run_tx_def start_attempt_tx_def pending_result_tx_def result_tx_def
  route_tx_def finish_tx_def store_report_def note_uncertain_def pause_tx_def cancel_branches_tx_def
  block_branch_tx_def finish_branch_tx_def branch_route_tx_def start_branch_attempt_tx_def
  branch_pending_tx_def branch_result_tx_def cancel_run_tx_def cancel_handle_tx_def charge_tx_def
  reserve_tx_def reserve_write_def store_artifact_tx_def record_control_tx_def control_tx_def

section \<open>Relations that operations stay in\<close>

definition op_in :: "('s \<Rightarrow> 's \<Rightarrow> bool) \<Rightarrow> ('s, 'a) op \<Rightarrow> bool" where
  "op_in R m \<longleftrightarrow> (\<forall>s. R s (snd (m s)))"

text \<open>The same for the outcomes without an exception, the only ones a transaction commits.\<close>

definition ok_in :: "('s \<Rightarrow> 's \<Rightarrow> bool) \<Rightarrow> ('s, 'a) op \<Rightarrow> bool" where
  "ok_in R m \<longleftrightarrow> (\<forall>s x t. m s = (Inr x, t) \<longrightarrow> R s t)"

lemma op_ok: "op_in R m \<Longrightarrow> ok_in R m"
  unfolding op_in_def ok_in_def by (metis snd_conv)

lemma ok_inI: "(\<And>s x t. m s = (Inr x, t) \<Longrightarrow> R s t) \<Longrightarrow> ok_in R m"
  by (simp add: ok_in_def)

lemma ok_inD: "ok_in R m \<Longrightarrow> m s = (Inr x, t) \<Longrightarrow> R s t"
  by (simp add: ok_in_def)

lemma op_inD: "op_in R m \<Longrightarrow> R s (snd (m s))"
  by (simp add: op_in_def)

lemma op_in_mono: "op_in R m \<Longrightarrow> (\<And>s t. R s t \<Longrightarrow> Q s t) \<Longrightarrow> op_in Q m"
  by (simp add: op_in_def)

lemma op_in_preserves: "op_in (preserves P) m \<longleftrightarrow> keeps P m"
  by (simp add: op_in_def keeps_def preserves_def)

locale step_preorder =
  fixes R :: "'s \<Rightarrow> 's \<Rightarrow> bool"
  assumes refl: "R s s"
    and trans: "R s t \<Longrightarrow> R t u \<Longrightarrow> R s u"
begin

lemma op_ret: "op_in R (ret x)"
  by (simp add: op_in_def ret_def refl)

lemma op_raise: "op_in R (raise e)"
  by (simp add: op_in_def raise_def refl)

lemma op_gets: "op_in R (gets f)"
  by (simp add: op_in_def gets_def refl)

lemma op_ask: "op_in R (ask f)"
  by (simp add: op_in_def ask_def refl)

lemma op_guard: "op_in R (guard b e)"
  by (simp add: op_in_def guard_def refl)

lemma op_lift: "op_in R (lift_sum r)"
  by (simp add: op_in_def lift_sum_def refl)

lemma op_modify: "(\<And>s. R s (f s)) \<Longrightarrow> op_in R (modify f)"
  by (simp add: op_in_def modify_def)

lemma op_bind: "op_in R m \<Longrightarrow> (\<And>x. op_in R (f x)) \<Longrightarrow> op_in R (bind_op m f)"
  unfolding op_in_def bind_op_def
  by (auto split: prod.split sum.split) (metis snd_conv trans)+

lemma op_seq: "op_in R m \<Longrightarrow> op_in R n \<Longrightarrow> op_in R (seq_op m n)"
  unfolding op_in_def seq_op_def
  by (auto split: prod.split sum.split) (metis snd_conv trans)+

lemma op_for_each: "(\<And>x. x \<in> set xs \<Longrightarrow> op_in R (f x)) \<Longrightarrow> op_in R (for_each f xs)"
  by (induction xs) (auto intro: op_ret op_seq)

lemma op_if: "(b \<Longrightarrow> op_in R m) \<Longrightarrow> (\<not> b \<Longrightarrow> op_in R n) \<Longrightarrow> op_in R (if b then m else n)"
  by simp

lemma op_option: "(x = None \<Longrightarrow> op_in R m) \<Longrightarrow> (\<And>y. x = Some y \<Longrightarrow> op_in R (f y))
    \<Longrightarrow> op_in R (case x of None \<Rightarrow> m | Some y \<Rightarrow> f y)"
  by (cases x) auto

lemma op_pair: "(\<And>y z. x = (y, z) \<Longrightarrow> op_in R (f y z)) \<Longrightarrow> op_in R (case x of (y, z) \<Rightarrow> f y z)"
  by (cases x) auto

lemma star: "R\<^sup>*\<^sup>* s t \<Longrightarrow> R s t"
  by (induction rule: rtranclp_induct) (auto intro: refl trans)

lemma run_in: "steps_in R t \<Longrightarrow> R s (snd (run_thread t s))"
  by (blast intro: star steps_run)

lemmas op_intros = op_ret op_raise op_gets op_ask op_guard op_lift op_modify op_bind op_seq
  op_for_each op_if op_option op_pair

end

lemma op_in_insert:
  "(\<And>d t. insert_row k r (g d) = Some t \<Longrightarrow> R d (p t d)) \<Longrightarrow> (\<And>d. R d d) \<Longrightarrow>
    op_in R (insert_or_fail n k r g p)"
  by (simp add: op_in_def insert_or_fail_def split: option.split)

lemma preserves_preorder: "step_preorder (preserves P)"
  by unfold_locales (auto simp: preserves_def)

section \<open>From the database to the world\<close>

lemma steps_tx:
  assumes "\<And>now. ok_in R (m now)"
    and "\<And>w. Q w w"
    and "\<And>w d. R (w_db w) d \<Longrightarrow> Q w (w\<lparr>w_db := d\<rparr>)"
  shows "steps_in Q (tx m)"
proof (unfold tx_def, rule steps_atomic)
  fix w
  show "Q w (snd (tx_op m w))"
  proof (cases "m (w_now w) (w_db w)")
    case (Pair r d)
    show ?thesis
    proof (cases r)
      case (Inl e)
      with Pair assms(2) show ?thesis by (simp add: tx_op_def)
    next
      case (Inr x)
      with Pair have "R (w_db w) d" using ok_inD [OF assms(1)] by blast
      with assms(3) Pair Inr show ?thesis by (simp add: tx_op_def)
    qed
  qed
qed

lemma steps_reading: "(\<And>w. Q w w) \<Longrightarrow> steps_in Q (reading f)"
  unfolding reading_def by (rule steps_atomic) simp

lemma steps_reads_refl: "(\<And>w. Q w w) \<Longrightarrow> steps_in Q (reads f)"
  unfolding reads_def gets_def by (rule steps_atomic) simp

lemma steps_require_seq [steps_intros]:
  "(b \<Longrightarrow> steps_in R n) \<Longrightarrow> steps_in R (seq_t (require_t b e) n)"
  by (simp add: seq_t_def require_t_def)

lemma steps_case_barrier [steps_intros]:
  "steps_in R m \<Longrightarrow> steps_in R n \<Longrightarrow> steps_in R k \<Longrightarrow>
    steps_in R (case b of B_Pause \<Rightarrow> m | B_Interrupt \<Rightarrow> n | B_Cancel \<Rightarrow> k)"
  by (cases b) simp_all

lemma steps_case_result [steps_intros]:
  "(\<And>x. r = RExec x \<Longrightarrow> steps_in R (f x)) \<Longrightarrow> (\<And>x. r = RVer x \<Longrightarrow> steps_in R (g x)) \<Longrightarrow>
    (\<And>x. r = RPar x \<Longrightarrow> steps_in R (h x)) \<Longrightarrow>
    steps_in R (case r of RExec x \<Rightarrow> f x | RVer x \<Rightarrow> g x | RPar x \<Rightarrow> h x)"
  by (cases r) simp_all

lemma steps_case_iteration [steps_intros]:
  "(\<And>s. out = Returned s \<Longrightarrow> steps_in R (f s)) \<Longrightarrow> (\<And>b. out = Again b \<Longrightarrow> steps_in R (g b)) \<Longrightarrow>
    steps_in R (case out of Returned s \<Rightarrow> f s | Again b \<Rightarrow> g b)"
  by (cases out) simp_all

section \<open>Providers\<close>

text \<open>
  The Executor and the Verifier change what is outside the runtime. They reach its database only
  by calling the runtime, and such a call is a thread of its own in the system below.
\<close>

definition outside_step :: "'x world \<Rightarrow> 'x world \<Rightarrow> bool" where
  "outside_step w w' \<longleftrightarrow> (\<exists>x. w' = w\<lparr>w_ext := x\<rparr>)"

definition env_quiet :: "'x env \<Rightarrow> bool" where
  "env_quiet E \<longleftrightarrow>
     (\<forall>r n a. steps_in outside_step (e_execute E r n a)) \<and>
     (\<forall>r n a k. steps_in outside_step (e_verify E r n a k)) \<and>
     (\<forall>h. steps_in outside_step (e_query E h)) \<and>
     (\<forall>q v i h. e_query_for E = Some q \<longrightarrow> steps_in outside_step (q v i h)) \<and>
     (\<forall>c h. e_cancel E = Some c \<longrightarrow> steps_in outside_step (c h)) \<and>
     (\<forall>c v i h. e_cancel_for E = Some c \<longrightarrow> steps_in outside_step (c v i h))"

section \<open>The runtime as the sum of its transactions\<close>

text \<open>
  The arguments of a call are instances of the protocol models, so they passed their validators.
\<close>

definition new_run_args ::
  "string \<Rightarrow> exec_graph \<Rightarrow> budget \<Rightarrow> relationship option \<Rightarrow> bool" where
  "new_run_args run g budget rel \<longleftrightarrow> wf_graph g \<and> validate_budget budget = Inr () \<and>
     (case rel of None \<Rightarrow> True | Some r \<Rightarrow> validate_relationship r = Inr ())"

text \<open>
  The interface between the transactions and everything built from them: a relation on worlds
  that every transaction of the runtime stays in, and that reading, flushing, caching a graph and
  quiet providers stay in too. Every method of the runtime then stays in it, step by step.
\<close>

locale runtime_steps =
  fixes R :: "'x world \<Rightarrow> 'x world \<Rightarrow> bool"
  assumes refl: "R w w"
    and outside: "R w (w\<lparr>w_ext := x\<rparr>)"
    and flushes: "R w (flush_world w)"
    and caches: "R w (w\<lparr>w_graphs := gs\<rparr>)"
    and create: "wf_graph g \<Longrightarrow> validate_budget budget = Inr () \<Longrightarrow>
      validate_relationship rel = Inr () \<Longrightarrow> rl_run rel = r \<Longrightarrow>
      steps_in R (tx (create_run_tx H r p g h budget rel restart))"
    and start: "steps_in R (tx (start_attempt_tx H r n))"
    and pending: "steps_in R (tx (pending_result_tx r k a handle res))"
    and result: "steps_in R (tx (result_tx r k a res))"
    and route: "steps_in R (tx (route_tx r g e rep))"
    and ends: "steps_in R (tx (finish_tx r status reason err))"
    and freeze: "steps_in R (tx (store_report r f))"
    and uncertain: "steps_in R (tx (note_uncertain r k))"
    and pause: "steps_in R (tx (pause_tx r))"
    and cancel_branches: "steps_in R (tx (cancel_branches_tx r why act))"
    and block: "steps_in R (tx (block_branch_tx r c br))"
    and branch_end: "steps_in R (tx (finish_branch_tx r c br))"
    and branch_routes: "steps_in R (tx (branch_route_tx r c b e rep))"
    and branch_start: "steps_in R (tx (start_branch_attempt_tx H r c b n))"
    and branch_pending: "steps_in R (tx (branch_pending_tx r k a handle res))"
    and branch_result: "steps_in R (tx (branch_result_tx r c b k a res))"
    and cancels: "steps_in R (tx (cancel_run_tx r))"
    and cancel_handle: "steps_in R (tx (cancel_handle_tx r k out))"
    and charges: "cost > 0 \<Longrightarrow> steps_in R (tx (charge_tx r cost nd))"
    and reserves: "cost > 0 \<Longrightarrow> steps_in R (reserve_atomic r k cost nd)"
    and artifact: "steps_in R (tx (store_artifact_tx r art))"
    and queries: "steps_in R (tx (record_control_tx q))"
    and controls: "steps_in R (tx (control_tx i))"
    and events: "steps_in R (tx (\<lambda>now. enqueue_event ty r None None payload))"
begin

lemma provider: "steps_in outside_step t \<Longrightarrow> steps_in R t"
  by (erule steps_mono) (auto simp: outside_step_def outside)

lemma reading_in: "steps_in R (reading f)"
  by (rule steps_reading) (rule refl)

lemma reads_in: "steps_in R (reads f)"
  by (rule steps_reads_refl) (rule refl)

lemma atomic_read: "steps_in R (atomic (\<lambda>w. (f w, w)))"
  by (rule steps_atomic) (simp add: refl)

lemma flush_in: "steps_in R flush_t"
  unfolding flush_t_def by (rule steps_atomic) (simp add: modify_def flushes)

lemma set_graph_in: "steps_in R (set_graph r g)"
  unfolding set_graph_def by (rule steps_atomic) (simp add: modify_def caches)

lemma read_graph_in: "steps_in R (read_graph r)"
  unfolding read_graph_def by (rule atomic_read)

lemma status_in: "steps_in R (read_status r)" "steps_in R (read_barrier r)"
  "steps_in R (snapshot r)" "steps_in R (read_aggregate r c)"
  unfolding read_status_def read_barrier_def snapshot_def read_aggregate_def
  by (rule reading_in)+

lemmas base_steps = steps_intros reading_in reads_in atomic_read flush_in set_graph_in
  read_graph_in status_in

lemma freeze_report_in: "steps_in R (freeze_report r)"
  unfolding freeze_report_def by (intro base_steps freeze)

lemma finish_in: "steps_in R (finish r status reason err)"
  unfolding finish_def by (intro base_steps ends freeze_report_in)

lemma finish_uncertain_in: "steps_in R (finish_uncertain r k)"
  unfolding finish_uncertain_def by (intro base_steps uncertain finish_in)

lemma pause_in: "steps_in R (pause_at_safe_point r)"
  unfolding pause_at_safe_point_def by (intro base_steps pause)

lemma honor_in: "steps_in R (honor_barrier r)"
  unfolding honor_barrier_def by (intro base_steps steps_case_barrier pause_in finish_in)

lemma call_in: "env_quiet E \<Longrightarrow> steps_in R (call_boundary E r n a)"
  unfolding call_boundary_def
  by (intro base_steps provider) (auto simp: env_quiet_def)

lemma guarded_in: "steps_in R m \<Longrightarrow> steps_in R (guarded_boundary n m)"
  unfolding guarded_boundary_def by (intro base_steps)

lemma invoke_leaf_in: "env_quiet E \<Longrightarrow> steps_in R (invoke_leaf E r n a)"
  unfolding invoke_leaf_def by (intro guarded_in call_in)

lemma query_in: "env_quiet E \<Longrightarrow> steps_in R (query_handle E h k)"
proof -
  assume "env_quiet E"
  then have "\<And>q v i h. e_query_for E = Some q \<Longrightarrow> steps_in R (q v i h)" "\<And>h. steps_in R (e_query E h)"
    by (auto simp: env_quiet_def intro: provider)
  then show ?thesis unfolding query_handle_def by (auto split: option.split)
qed

lemmas shared_steps = base_steps freeze_report_in finish_in finish_uncertain_in pause_in honor_in
  guarded_in invoke_leaf_in query_in

end

section \<open>Every method of the coordinator and of the runtime\<close>

context runtime_steps begin

lemma block_in: "steps_in R (block_branch r c b why err)"
  unfolding block_branch_def by (intro shared_steps block steps_lift)

lemma finish_branch_in: "steps_in R (finish_branch r c b res)"
  unfolding finish_branch_def by (intro shared_steps branch_end steps_lift)

lemma branch_route_in: "steps_in R (branch_route r c b n res)"
  unfolding branch_route_def
  by (intro shared_steps branch_routes steps_lift block_in finish_branch_in)

lemma persist_branch_in: "steps_in R (persist_branch_result r c b n a res)"
  unfolding persist_branch_result_def
  by (intro shared_steps branch_pending branch_result branch_route_in)

lemma continue_branch_in: "env_quiet E \<Longrightarrow> steps_in R (continue_branch_external E r c b n)"
  unfolding continue_branch_external_def
  by (intro shared_steps block_in persist_branch_in)

lemma start_branch_in: "steps_in R (start_branch_attempt E r c b n)"
  unfolding start_branch_attempt_def by (intro shared_steps branch_start)

lemma attempt_branch_in: "env_quiet E \<Longrightarrow> steps_in R (attempt_branch E r c b n)"
  unfolding attempt_branch_def
  by (intro shared_steps start_branch_in block_in persist_branch_in)

lemma branch_step_in: "env_quiet E \<Longrightarrow> steps_in R (branch_step E r c b)"
  unfolding branch_step_def branch_step_uninstrumented_def
  by (intro shared_steps steps_lift continue_branch_in branch_route_in attempt_branch_in)

lemma pool_in: "env_quiet E \<Longrightarrow> steps_in R (thread_pool sched (map (branch_step E r c) bs))"
  by (intro steps_pool) (auto intro: branch_step_in)

lemma cancel_incomplete_in: "steps_in R (cancel_incomplete r why)" "steps_in R (cancel_pending r why)"
  unfolding cancel_incomplete_def cancel_pending_def by (intro cancel_branches)+

lemma container_in: "env_quiet E \<Longrightarrow> steps_in R (container_step E r c)"
  unfolding container_step_def
  by (intro shared_steps steps_lift pool_in cancel_incomplete_in)

lemma start_in: "steps_in R (start_attempt E r n)"
  unfolding start_attempt_def by (intro shared_steps start)

lemma invoke_in: "env_quiet E \<Longrightarrow> steps_in R (invoke E r n a)"
  unfolding invoke_def join_node_def
  by (intro shared_steps container_in call_in)

lemma persist_in: "steps_in R (persist_result r n a res)"
  unfolding persist_result_def by (intro shared_steps pending result)

lemma route_in: "steps_in R (route_result r g n)"
  unfolding route_result_def by (intro shared_steps route)

lemma continue_external_in: "env_quiet E \<Longrightarrow> steps_in R (continue_external E r n)"
  unfolding continue_external_def by (intro shared_steps persist_in route_in)

lemma continue_container_in: "env_quiet E \<Longrightarrow> steps_in R (continue_container E r g n)"
  unfolding continue_container_def route_if_running_def
  by (intro shared_steps container_in persist_in route_in)

lemma end_with_in: "steps_in R (end_with r st why)"
  unfolding end_with_def by (intro shared_steps)

lemma after_attempt_in: "steps_in R (after_attempt r g n a res)"
  unfolding after_attempt_def by (intro shared_steps persist_in end_with_in route_in)

lemma attempt_node_in: "env_quiet E \<Longrightarrow> steps_in R (attempt_node E r g n)"
  unfolding attempt_node_def
  by (intro shared_steps start_in end_with_in invoke_in after_attempt_in)

lemma schedule_node_in: "env_quiet E \<Longrightarrow> steps_in R (schedule_node E r g)"
  unfolding schedule_node_def
  by (intro shared_steps steps_lift route_in continue_container_in continue_external_in attempt_node_in)

lemma iteration_in: "env_quiet E \<Longrightarrow> steps_in R (run_iteration E r g)"
  unfolding run_iteration_def
  by (intro shared_steps cancel_incomplete_in end_with_in schedule_node_in)

lemma loop_in: "env_quiet E \<Longrightarrow> steps_in R (run_loop fuel E r g m k)"
  by (induction fuel arbitrary: k) (auto intro!: shared_steps iteration_in)

lemma run_run_in: "env_quiet E \<Longrightarrow> steps_in R (run_run fuel E r m)"
  unfolding run_run_def by (intro shared_steps loop_in)

lemma cancel_call_in: "env_quiet E \<Longrightarrow> steps_in R (cancel_call E h k)"
proof -
  assume "env_quiet E"
  then have "\<And>c v i h. e_cancel_for E = Some c \<Longrightarrow> steps_in R (c v i h)"
    "\<And>c h. e_cancel E = Some c \<Longrightarrow> steps_in R (c h)"
    by (auto simp: env_quiet_def intro: provider)
  then show ?thesis
    unfolding cancel_call_def guarded_cancel_def
    by (auto intro!: base_steps split: option.split)
qed

lemma cancel_external_in: "env_quiet E \<Longrightarrow> steps_in R (cancel_external_handles E r)"
  unfolding cancel_external_handles_def by (intro shared_steps cancel_call_in cancel_handle)

lemma cancel_in: "env_quiet E \<Longrightarrow> steps_in R (cancel E r)"
  unfolding cancel_def by (intro shared_steps cancels cancel_incomplete_in cancel_external_in)

lemma charge_in: "steps_in R (charge_cost r c n)"
  unfolding charge_cost_def by (intro shared_steps steps_lift charges)

lemma reserve_in: "steps_in R (reserve_cost r k c n)"
  unfolding reserve_cost_def by (intro shared_steps reserves) simp

lemma store_artifact_in: "steps_in R (store_artifact r a)"
  unfolding store_artifact_def by (intro shared_steps artifact)

lemma control_in: "env_quiet E \<Longrightarrow> steps_in R (control E i)"
  unfolding control_def control_query_def control_state_def Let_def
  by (cases i) (auto intro!: shared_steps steps_lift queries controls cancel_incomplete_in
      cancel_external_in)

lemma recover_in: "steps_in R (recover E r g h)"
  unfolding recover_def by (intro shared_steps)

lemma create_in:
  "new_run_args r g b rel \<Longrightarrow> steps_in R (create_run E r p g h b rel restart)"
proof -
  assume ok: "new_run_args r g b rel"
  have tx: "steps_in R (tx (create_run_tx (e_host E) r p g h b x restart))"
    if "rl_run x = r" and "validate_relationship x = Inr ()" for x
    using ok that by (intro create) (simp_all add: new_run_args_def)
  show ?thesis
  proof (cases rel)
    case (Some x)
    with ok tx show ?thesis
      by (auto simp: create_run_def lift_t_def new_run_args_def intro!: shared_steps)
  next
    case None
    show ?thesis
    proof (cases "construct validate_relationship \<lparr>rl_run = r, rl_parent = None, rl_supersedes = None\<rparr>")
      case (Inl e)
      with None show ?thesis by (simp add: create_run_def lift_t_def)
    next
      case (Inr x)
      then have x: "x = \<lparr>rl_run = r, rl_parent = None, rl_supersedes = None\<rparr>"
        "validate_relationship x = Inr ()" by simp_all
      have "create_run E r p g h b rel restart =
          seq_t (require_t (rl_run x = r) (ValueError ''RunRelationship.run_id must equal run_id''))
          (seq_t (tx (create_run_tx (e_host E) r p g h b x restart)) (seq_t (set_graph r g) flush_t))"
        by (simp add: create_run_def lift_t_def None Inr)
      with x tx show ?thesis by (auto intro!: shared_steps)
    qed
  qed
qed

end

end
