(* ===== verification/System.thy ===== *)
theory System
  imports Steps
begin

text \<open>
  The system: calls into the runtime (\<open>runtime/engine.py\<close>), each a thread, from as many callers as
  there are; every step is one atomic step of one of them, a crash that drops them all and starts
  a new process, a tick of the clock, or a change of the world outside. A crash may fall inside
  a flush, after any number of its file appends and marks.
\<close>

inductive api_call :: "'x env \<Rightarrow> ('x world, unit) thread \<Rightarrow> bool" for E where
  call_create: "new_run_args r g b rel \<Longrightarrow> api_call E (create_run E r p g h b rel restart)"
| call_run: "api_call E (map_t (\<lambda>_. ()) (run_run fuel E r m))"
| call_cancel: "api_call E (cancel E r)"
| call_charge: "api_call E (charge_cost r c n)"
| call_reserve: "api_call E (map_t (\<lambda>_. ()) (reserve_cost r k c n))"
| call_artifact: "api_call E (map_t (\<lambda>_. ()) (store_artifact r a))"
| call_control: "api_call E (map_t (\<lambda>_. ()) (control E i))"
| call_recover: "api_call E (recover E r g h)"
| call_event: "api_call E (record_event ty r payload)"
| call_report: "api_call E (map_t (\<lambda>_. ()) (live_report r))"


context runtime_steps begin

lemma record_event_in: "steps_in R (record_event ty r payload)"
  unfolding record_event_def by (rule events)

lemma live_report_in: "steps_in R (live_report r)"
  unfolding live_report_def by (intro shared_steps)

lemma api_in: "api_call E t \<Longrightarrow> env_quiet E \<Longrightarrow> steps_in R t"
  by (induction rule: api_call.induct)
    (auto intro!: steps_map create_in run_run_in cancel_in charge_in reserve_in store_artifact_in
      control_in recover_in record_event_in live_report_in)

end

type_synonym 'x system = "('x world, unit) thread list \<times> 'x world"

definition crash_at :: "nat \<Rightarrow> 'x world \<Rightarrow> 'x world" where
  "crash_at n w = boot (fold flush_micro (take n (flush_steps w)) w)"

inductive sys_step :: "'x env \<Rightarrow> 'x system \<Rightarrow> 'x system \<Rightarrow> bool" for E where
  sys_call: "api_call E t \<Longrightarrow> sys_step E (ts, w) (ts @ [t], w)"
| sys_go: "sys_step E (ts, w) (step_nth i (ts, w))"
| sys_crash: "sys_step E (ts, w) ([], crash_at n w)"
| sys_tick: "sys_step E (ts, w) (ts, w\<lparr>w_now := t\<rparr>)"
| sys_outside: "sys_step E (ts, w) (ts, w\<lparr>w_ext := x\<rparr>)"

definition first_world :: "int \<Rightarrow> 'x \<Rightarrow> 'x world" where
  "first_world t x = \<lparr>w_db = empty_db, w_log = [], w_graphs = (\<lambda>_. None), w_now = t, w_ext = x\<rparr>"

inductive reach :: "'x env \<Rightarrow> 'x system \<Rightarrow> bool" for E where
  reach_first: "reach E ([], first_world t x)"
| reach_step: "reach E s \<Longrightarrow> sys_step E s s' \<Longrightarrow> reach E s'"

inductive_cases sys_stepE: "sys_step E s s'"

lemma step_nth_pool:
  assumes "\<And>t. t \<in> set ts \<Longrightarrow> steps_in R t" and "step_nth i (ts, w) = (ts', w')"
  shows "(\<forall>t \<in> set ts'. steps_in R t) \<and> (w' = w \<or> R w w')"
proof (cases "i < length ts")
  case True
  show ?thesis
  proof (cases "ts ! i")
    case (Done r)
    with True assms show ?thesis by (auto simp: step_nth_def)
  next
    case (Step g)
    with True assms(1) have g: "steps_in R (Step g)" by (metis nth_mem)
    from assms(2) True Step have ts': "ts' = ts[i := fst (g w)]" and w': "w' = snd (g w)"
      by (auto simp: step_nth_def case_prod_beta)
    have "steps_in R t" if "t \<in> set ts'" for t
      using that g assms(1) set_update_subset_insert [of ts i "fst (g w)"] unfolding ts' by auto
    with g w' show ?thesis by simp
  qed
next
  case False
  with assms show ?thesis by (auto simp: step_nth_def)
qed

lemma crash_at_db:
  "\<exists>t. w_db (crash_at n w) = (w_db w)\<lparr>db_outbox := t\<rparr> \<and>
     map ob_event t = map ob_event (db_outbox (w_db w))"
proof -
  let ?v = "fold flush_micro (take n (flush_steps w)) w"
  obtain t where t: "w_db ?v = (w_db w)\<lparr>db_outbox := t\<rparr>"
    "map ob_event t = map ob_event (db_outbox (w_db w))"
    using flush_fold_frame [of "take n (flush_steps w)" w] by blast
  obtain u where "w_db (crash_at n w) = (w_db ?v)\<lparr>db_outbox := u\<rparr>"
    "map ob_event u = map ob_event (db_outbox (w_db ?v))"
    using flush_world_db [of "?v\<lparr>w_graphs := \<lambda>_. None\<rparr>"] by (auto simp: crash_at_def boot_def)
  with t show ?thesis by auto
qed

section \<open>What every step of the system does\<close>

text \<open>
  A relation on worlds that the transactions, and also crashes and the clock, stay in: then every
  step of every reachable system stays in it.
\<close>

locale system_relation = runtime_steps +
  assumes crash: "R w (crash_at n w)"
    and tick: "R w (w\<lparr>w_now := t\<rparr>)"
begin

lemma pool_in_reach: "reach E s \<Longrightarrow> env_quiet E \<Longrightarrow> t \<in> set (fst s) \<Longrightarrow> steps_in R t"
proof (induction arbitrary: t rule: reach.induct)
  case (reach_first now x)
  then show ?case by simp
next
  case (reach_step s s')
  from reach_step.hyps(2) show ?case
  proof cases
    case (sys_call u ts w)
    with reach_step show ?thesis by (auto intro: api_in)
  next
    case (sys_go ts w i)
    obtain ts' w' where n: "step_nth i (ts, w) = (ts', w')" by fastforce
    have "\<And>t. t \<in> set ts \<Longrightarrow> steps_in R t" using reach_step.IH reach_step.prems sys_go by simp
    from step_nth_pool [OF this n] show ?thesis using reach_step.prems sys_go n by auto
  qed (use reach_step in auto)
qed

lemma every_step: "env_quiet E \<Longrightarrow> reach E s \<Longrightarrow> sys_step E s s' \<Longrightarrow> R (snd s) (snd s')"
proof -
  assume q: "env_quiet E" and r: "reach E s" and "sys_step E s s'"
  from this(3) show ?thesis
  proof cases
    case (sys_call t ts w)
    then show ?thesis by (simp add: refl)
  next
    case (sys_go ts w i)
    obtain ts' w' where n: "step_nth i (ts, w) = (ts', w')" by fastforce
    have "\<And>t. t \<in> set ts \<Longrightarrow> steps_in R t" using pool_in_reach [OF r q] sys_go by simp
    from step_nth_pool [OF this n] sys_go n show ?thesis by (auto simp: refl)
  qed (simp_all add: crash tick outside)
qed

end

text \<open>An invariant: what a first world has and every step preserves.\<close>

locale system_invariant =
  fixes I :: "'x world \<Rightarrow> bool"
  assumes related: "system_relation (preserves I)"
    and initially: "I (first_world t x)"
begin

lemma always: "reach E s \<Longrightarrow> env_quiet E \<Longrightarrow> I (snd s)"
proof (induction rule: reach.induct)
  case (reach_first t x)
  then show ?case by (simp add: initially)
next
  case (reach_step s s')
  then show ?case using system_relation.every_step [OF related] by (auto simp: preserves_def)
qed

end

section \<open>Relations on databases\<close>

text \<open>
  Most relations speak of the database alone. Then it is the transactions themselves that have to
  stay in it, and, for the flush, a change of the delivery marks.
\<close>

definition on_db :: "(db \<Rightarrow> db \<Rightarrow> bool) \<Rightarrow> 'x world \<Rightarrow> 'x world \<Rightarrow> bool" where
  "on_db D w w' \<longleftrightarrow> D (w_db w) (w_db w')"

locale tx_relation =
  fixes D :: "db \<Rightarrow> db \<Rightarrow> bool"
  assumes refl: "D d d"
    and create: "wf_graph g \<Longrightarrow> validate_budget budget = Inr () \<Longrightarrow>
      validate_relationship rel = Inr () \<Longrightarrow> rl_run rel = r \<Longrightarrow>
      ok_in D (create_run_tx H r p g h budget rel restart now)"
    and start: "ok_in D (start_attempt_tx H r n now)"
    and pending: "ok_in D (pending_result_tx r k a handle res now)"
    and result: "ok_in D (result_tx r k a res now)"
    and route: "ok_in D (route_tx r g e rep now)"
    and ends: "ok_in D (finish_tx r status reason err now)"
    and freeze: "ok_in D (store_report r f now)"
    and uncertain: "ok_in D (note_uncertain r k now)"
    and pause: "ok_in D (pause_tx r now)"
    and cancel_branches: "ok_in D (cancel_branches_tx r why act now)"
    and block: "ok_in D (block_branch_tx r c br now)"
    and branch_end: "ok_in D (finish_branch_tx r c br now)"
    and branch_routes: "ok_in D (branch_route_tx r c b e rep now)"
    and branch_start: "ok_in D (start_branch_attempt_tx H r c b n now)"
    and branch_pending: "ok_in D (branch_pending_tx r k a handle res now)"
    and branch_result: "ok_in D (branch_result_tx r c b k a res now)"
    and cancels: "ok_in D (cancel_run_tx r now)"
    and cancel_handle: "ok_in D (cancel_handle_tx r k out now)"
    and charges: "cost > 0 \<Longrightarrow> ok_in D (charge_tx r cost nd now)"
    and reserves: "cost > 0 \<Longrightarrow> ok_in D (reserve_tx gr r k cost nd now)"
    and artifact: "ok_in D (store_artifact_tx r art now)"
    and queries: "ok_in D (record_control_tx q now)"
    and controls: "ok_in D (control_tx i now)"
    and events: "ok_in D (enqueue_event ty r None None payload)"
begin

lemma lift_tx: "(\<And>now. ok_in D (m now)) \<Longrightarrow> steps_in (on_db D) (tx m)"
  by (rule steps_tx [where R = D]) (auto simp: on_db_def refl)

lemma lift_reserve:
  assumes "cost > 0"
  shows "steps_in (on_db D) (reserve_atomic r k cost nd :: ('b world, bool \<times> bool) thread)"
  unfolding reserve_atomic_def
proof (rule steps_atomic)
  fix w :: "'b world"
  show "on_db D w (snd (tx_op (reserve_tx (cached_graph r w) r k cost nd) w))"
    using ok_inD [OF reserves [OF assms]] unfolding tx_op_def on_db_def
    by (auto simp: refl split: prod.split sum.split)
qed

end

locale db_relation = tx_relation +
  assumes marks: "map ob_event t = map ob_event (db_outbox d) \<Longrightarrow> D d (d\<lparr>db_outbox := t\<rparr>)"
begin

lemma lift_micro: "on_db D w (fold flush_micro ss w)"
proof -
  obtain t where "w_db (fold flush_micro ss w) = (w_db w)\<lparr>db_outbox := t\<rparr>"
    and "map ob_event t = map ob_event (db_outbox (w_db w))"
    using flush_fold_frame [of ss w] by blast
  then show ?thesis by (simp add: on_db_def marks)
qed

lemma lift_flush: "on_db D w (flush_world w)"
  unfolding flush_world_def by (rule lift_micro)

lemma lift_crash: "on_db D w (crash_at n w)"
proof -
  obtain t where "w_db (crash_at n w) = (w_db w)\<lparr>db_outbox := t\<rparr>"
    and "map ob_event t = map ob_event (db_outbox (w_db w))"
    using crash_at_db [of n w] by blast
  then show ?thesis by (simp add: on_db_def marks)
qed

lemma as_system: "system_relation (on_db D :: 'x world \<Rightarrow> 'x world \<Rightarrow> bool)"
  by unfold_locales
    ((rule lift_tx lift_reserve lift_crash lift_flush;
       (rule create start pending result route ends freeze uncertain pause cancel_branches block
         branch_end branch_routes branch_start branch_pending branch_result cancels cancel_handle
         charges artifact queries controls events)?; assumption?)
     | simp add: on_db_def refl)+

end

text \<open>A relation on databases gives one on worlds.\<close>

sublocale db_relation \<subseteq> lifted: system_relation "on_db D :: 'x world \<Rightarrow> 'x world \<Rightarrow> bool"
  by (rule as_system)

text \<open>An invariant of the database: the empty one has it, every transaction keeps it.\<close>

lemma on_db_preserves: "on_db (preserves P) = preserves (\<lambda>w. P (w_db w))"
  by (simp add: fun_eq_iff on_db_def preserves_def)

locale db_invariant =
  fixes P :: "db \<Rightarrow> bool"
  assumes kept: "db_relation (preserves P)"
    and at_first: "P empty_db"

sublocale db_invariant \<subseteq> world: system_invariant "\<lambda>w :: 'x world. P (w_db w)"
proof (rule system_invariant.intro)
  show "system_relation (preserves (\<lambda>w :: 'x world. P (w_db w)))"
    unfolding on_db_preserves [symmetric] by (rule db_relation.as_system [OF kept])
  show "P (w_db (first_world t x))" for t and x :: 'x
    by (simp add: first_world_def at_first)
qed

end
