(* ===== verification/Writes.thy ===== *)
theory Writes
  imports System
begin

text \<open>
  The transactions taken apart into the single writes they make. A relation on databases that
  every write of a kind stays in is shown, once, to hold for all the transactions made of such
  writes: \<open>quiet_writes\<close> covers those that neither start nor route nor charge anything,
  \<open>metering\<close> also those that route and charge, \<open>starting\<close> those that start attempts,
  \<open>meter_writes\<close> those that create a run, and \<open>all_writes\<close> all of them.
\<close>

section \<open>The columns a write leaves alone\<close>

definition run_identity :: "run_row \<Rightarrow> run_row" where
  \<comment> \<open>a run without the columns that an operation updates\<close>
  "run_identity r = r\<lparr>rn_status := RS_Draft, rn_barrier := None, rn_current := None,
     rn_reason := None, rn_error := None, rn_unverified := [], rn_effects := []\<rparr>"

definition noted_ok :: "run_row \<Rightarrow> run_row \<Rightarrow> bool" where
  \<comment> \<open>what a write notes as unverified, or as an external effect, is well formed\<close>
  "noted_ok r r' \<longleftrightarrow>
     (\<forall>u \<in> set (rn_unverified r'). u \<in> set (rn_unverified r) \<or> validate_unverified u = Inr ()) \<and>
     (\<forall>x \<in> set (rn_effects r'). x \<in> set (rn_effects r) \<or> validate_external_effect x = Inr ())"

lemma noted_same: "rn_unverified r' = rn_unverified r \<Longrightarrow> rn_effects r' = rn_effects r \<Longrightarrow> noted_ok r r'"
  by (simp add: noted_ok_def)

lemma noted_uncertain [simp]:
  "noted_ok r (r\<lparr>rn_unverified := [uncertain_item run n], rn_effects := [uncertain_effect run n]\<rparr>)"
  by (simp add: noted_ok_def uncertain_item_def uncertain_effect_def validate_unverified_def
      validate_external_effect_def)

definition node_meters :: "node_row \<Rightarrow> node_row" where
  \<comment> \<open>a node's key, kind, attempt count, first start, cost and repairs\<close>
  "node_meters n = n\<lparr>nr_status := NS_Pending, nr_result := None, nr_resolved := False\<rparr>"

definition bnode_meters :: "branch_node_row \<Rightarrow> branch_node_row" where
  "bnode_meters n = n\<lparr>bn_status := NS_Pending, bn_result := None, bn_resolved := False\<rparr>"

definition attempt_identity :: "attempt_row \<Rightarrow> attempt_row" where
  "attempt_identity a = a\<lparr>at_status := NS_Pending, at_result := None\<rparr>"

definition battempt_identity :: "branch_attempt_row \<Rightarrow> branch_attempt_row" where
  "battempt_identity a = a\<lparr>ba_status := NS_Pending, ba_result := None\<rparr>"

definition branch_identity :: "branch_row \<Rightarrow> branch_row" where
  "branch_identity b = b\<lparr>bh_status := BH_Pending, bh_current := None, bh_result := None\<rparr>"

definition handle_identity :: "handle_row \<Rightarrow> handle_row" where
  "handle_identity h = h\<lparr>xh_trigger := Triggering, xh_handle := None, xh_cancel := None,
     xh_residual := None\<rparr>"

definition budget_limits :: "budget_row \<Rightarrow> budget_row" where
  "budget_limits b = b\<lparr>bd_calls := 0, bd_repairs := 0, bd_cost := None\<rparr>"

lemma node_meters_key: "node_meters a = node_meters b \<Longrightarrow> node_key a = node_key b"
  by (cases a; cases b) (simp add: node_meters_def node_key_def)

lemmas identity_defs = run_identity_def node_meters_def bnode_meters_def attempt_identity_def
  battempt_identity_def branch_identity_def handle_identity_def budget_limits_def node_key_def
  bnode_key_def noted_same end_run_def set_status_def run_node_def run_bnode_def spend_call_def
  spend_repair_def ready_node_def ready_bnode_def add_cost_def end_branch_def

section \<open>Writes that start, route and charge nothing\<close>

locale quiet_writes = step_preorder D for D :: "db \<Rightarrow> db \<Rightarrow> bool" +
  assumes run_write: "(\<And>r. run_identity (f r) = run_identity r) \<Longrightarrow> (\<And>r. noted_ok r (f r)) \<Longrightarrow>
      D d (update_run run f d)"
    and node_write: "(\<And>r. node_meters (g r) = node_meters r) \<Longrightarrow> D d (update_node run n g d)"
    and bnode_write: "(\<And>r. bnode_meters (h r) = bnode_meters r) \<Longrightarrow>
      D d (update_bnode run c b n h d)"
    and attempt_write: "(\<And>r. attempt_identity (f1 r) = attempt_identity r) \<Longrightarrow>
      D d (update_attempt k f1 d)"
    and battempt_write: "(\<And>r. battempt_identity (f2 r) = battempt_identity r) \<Longrightarrow>
      D d (update_battempt k f2 d)"
    and branch_write: "(\<And>r. branch_identity (f3 r) = branch_identity r) \<Longrightarrow>
      D d (update_branch run c b f3 d)"
    and handle_write: "(\<And>r. handle_identity (f4 r) = handle_identity r) \<Longrightarrow>
      D d (update_handle run n f4 d)"
    and event_write: "D d (snd (enqueue_event ty run nd aid p d))"
    and checkpoint_write: "find_run (rn_id row) d = Some row \<Longrightarrow> D d (add_checkpoint row reason d)"
    and artifact_write: "D d (put_artifact m d)"
    and link_write: "artifact_key l \<notin> artifact_key ` set (db_run_artifacts d) \<Longrightarrow>
      D d (d\<lparr>db_run_artifacts := db_run_artifacts d @ [l]\<rparr>)"
    and report_write: "D d (put_report run rep d)"
    and intent_write: "ir_id ir \<notin> ir_id ` set (db_intents d) \<Longrightarrow>
      D d (d\<lparr>db_intents := db_intents d @ [ir]\<rparr>)"
begin

lemma enqueue_in: "op_in D (enqueue_event ty run n a p)"
  by (simp add: op_in_def event_write)

lemma checkpoint_in: "op_in D (checkpoint run reason)"
proof -
  have "D d (snd (checkpoint run reason d))" for d
  proof (cases "find_run run d")
    case None
    then show ?thesis by (simp add: checkpoint_def op_defs required_run_def refl)
  next
    case (Some row)
    then have "rn_id row = run" unfolding find_run_def by (rule lookup_row_key)
    with Some checkpoint_write [of row d reason] show ?thesis
      by (simp add: checkpoint_def op_defs required_run_def)
  qed
  then show ?thesis by (simp add: op_in_def)
qed

lemma insert_intent_in: "op_in D (insert_intent i out now)"
  unfolding insert_intent_def
  by (rule op_in_insert) (auto simp: insert_row_def refl intro: intent_write split: if_splits)

lemma link_in: "op_in D (link_artifact run n role k)"
proof -
  have "D d (snd (link_artifact run n role k d))" for d
  proof (cases "(run, k, n, role) \<in> artifact_key ` set (db_run_artifacts d)")
    case True
    then show ?thesis by (simp add: link_artifact_def op_defs refl)
  next
    case False
    let ?l = "\<lparr>ra_run = run, ra_artifact = k, ra_node = n, ra_role = role, ra_from = None\<rparr>"
    let ?d = "d\<lparr>db_run_artifacts := db_run_artifacts d @ [?l]\<rparr>"
    have "D d ?d" using False by (intro link_write) (simp add: artifact_key_def)
    moreover have "D ?d (snd (link_artifact run n role k d))"
      using False event_write [of ?d] by (simp add: link_artifact_def op_defs)
    ultimately show ?thesis by (rule trans)
  qed
  then show ?thesis by (simp add: op_in_def)
qed

lemma register_in: "op_in D (register_artifact run n role a)"
  unfolding register_artifact_def by (intro op_intros link_in artifact_write)

lemma checkpoint_handle_in: "D d (checkpoint_handle run n k d)"
  unfolding checkpoint_handle_def by (intro handle_write) (simp add: identity_defs)

lemma cancel_branch_in: "op_in D (cancel_branch act why b)"
  unfolding cancel_branch_def
  by (intro op_intros branch_write) (simp add: identity_defs)

lemmas quiet_rules = op_intros run_write node_write bnode_write attempt_write battempt_write
  branch_write handle_write checkpoint_handle_in report_write enqueue_in checkpoint_in
  insert_intent_in register_in cancel_branch_in

lemma quiet_txs:
  "op_in D (pending_result_tx r k a handle res now)"
  "op_in D (result_tx r k a res now)"
  "op_in D (finish_tx r status reason err now)"
  "op_in D (store_report r f now)"
  "op_in D (note_uncertain r k now)"
  "op_in D (pause_tx r now)"
  "op_in D (cancel_branches_tx r why act now)"
  "op_in D (block_branch_tx r c br now)"
  "op_in D (finish_branch_tx r c br now)"
  "op_in D (branch_pending_tx r k a handle res now)"
  "op_in D (branch_result_tx r c b k a res now)"
  "op_in D (cancel_run_tx r now)"
  "op_in D (cancel_handle_tx r k out now)"
  "op_in D (store_artifact_tx r art now)"
  "op_in D (record_control_tx q now)"
  "op_in D (control_tx i now)"
  unfolding tx_defs Let_def
  by (intro quiet_rules; simp add: identity_defs)+

end

section \<open>The transactions that spend\<close>

locale spending = quiet_writes D for D :: "db \<Rightarrow> db \<Rightarrow> bool" +
  assumes create: "wf_graph g \<Longrightarrow> validate_budget budget = Inr () \<Longrightarrow>
      validate_relationship rel = Inr () \<Longrightarrow> rl_run rel = r \<Longrightarrow>
      ok_in D (create_run_tx H r p g h budget rel restart now)"
    and start: "ok_in D (start_attempt_tx H r n now)"
    and route: "ok_in D (route_tx r g e rep now)"
    and branch_routes: "ok_in D (branch_route_tx r c b e rep now)"
    and branch_start: "ok_in D (start_branch_attempt_tx H r c b n now)"
    and charges: "cost > 0 \<Longrightarrow> ok_in D (charge_tx r cost nd now)"
    and reserves: "cost > 0 \<Longrightarrow> ok_in D (reserve_tx gr r k cost nd now)"

sublocale spending \<subseteq> txs: tx_relation D
  by unfold_locales
    (rule refl create start route branch_routes branch_start charges reserves
      quiet_txs [THEN op_ok] enqueue_in [THEN op_ok]; assumption?)+

section \<open>Every write\<close>

locale metering = quiet_writes D for D :: "db \<Rightarrow> db \<Rightarrow> bool" +
  assumes node_meter: "(\<And>r. node_key (g r) = node_key r) \<Longrightarrow> D d (update_node run n g d)"
    and bnode_meter: "(\<And>r. bnode_key (h r) = bnode_key r) \<Longrightarrow> D d (update_bnode run c b n h d)"
    and budget_meter: "(\<And>r. budget_limits (f r) = budget_limits r) \<Longrightarrow>
      D d (update_budget run f d)"
    and edge_meter: "D d (bump_edge run x y d)" "D d (bump_bedge run c b x y d)"
    and trigger_write: "op_in D (trigger_external H run nd k)"
    and reserve_write: "op_in D (insert_or_fail nm reservation_key rv db_reservations
      (\<lambda>t d. d\<lparr>db_reservations := t\<rparr>))"
begin

lemma cond_in: "(b \<Longrightarrow> D d (f d)) \<Longrightarrow> (\<not> b \<Longrightarrow> D d (g d)) \<Longrightarrow> D d ((if b then f else g) d)"
  by simp

lemma comp_in: "(\<And>d. D d (f d)) \<Longrightarrow> (\<And>d. D d (g d)) \<Longrightarrow> D d ((f \<circ> g) d)"
  by (auto intro: trans)

lemma id_in: "D d (id d)"
  by (simp add: refl)

lemma cost_in: "D d (add_node_cost run nd cost d)"
proof (cases nd)
  case None
  then show ?thesis by (simp add: add_node_cost_def refl)
next
  case (Some k)
  have "D d (update_node run k (\<lambda>r. r\<lparr>nr_cost := nr_cost r + cost\<rparr>) d)"
    by (intro node_meter) (simp add: identity_defs)
  with Some show ?thesis by (simp add: add_node_cost_def)
qed

lemmas meter_rules = quiet_rules node_meter bnode_meter budget_meter edge_meter trigger_write
  reserve_write cost_in cond_in comp_in id_in

lemma meter_txs:
  "op_in D (route_tx r g e rep now)"
  "op_in D (branch_route_tx r c b e rep now)"
  "op_in D (charge_tx r cost nd now)"
  "op_in D (reserve_tx gr r k cost nd now)"
  unfolding tx_defs Let_def take_edge_def charge_repair_def take_bedge_def repair_bnode_def
  by (intro meter_rules; simp add: identity_defs)+

end

locale starting = metering D for D :: "db \<Rightarrow> db \<Rightarrow> bool" +
  assumes attempt_inserts: "op_in D (insert_attempt aa)" "op_in D (insert_battempt ba)"
begin

lemma starting_txs:
  "op_in D (start_attempt_tx H r n now)"
  "op_in D (start_branch_attempt_tx H r c b n now)"
  unfolding tx_defs Let_def
  by (intro meter_rules attempt_inserts; simp add: identity_defs)+

end

locale meter_writes = metering D for D :: "db \<Rightarrow> db \<Rightarrow> bool" +
  assumes insert_writes: "op_in D (insert_branch br)" "op_in D (insert_bnode bn)"
      "op_in D (insert_bedge be)" "op_in D (insert_run rr)" "op_in D (insert_node nn)"
      "op_in D (insert_budget bb)" "op_in D (insert_edge ee)"
    and inherit_artifacts: "op_in D (inherit_artifact run im art)"
begin

lemma inherit_in: "op_in D (inherit run im)" "op_in D (inherit_run run im)"
  unfolding inherit_def inherit_branch_def inherit_bnode_def inherit_bedge_def inherit_run_def
  by (intro op_intros insert_writes inherit_artifacts bnode_meter branch_write;
      simp add: identity_defs)+

lemma initialize_in: "op_in D (initialize H run ns)"
  unfolding initialize_def initialize_node_def by (intro op_intros insert_writes)

lemma create_in: "op_in D (create_run_tx H r p g h budget rel restart now)"
  unfolding create_run_tx_def
  by (intro quiet_rules insert_writes inherit_in initialize_in)

end

locale all_writes = starting D + meter_writes D for D :: "db \<Rightarrow> db \<Rightarrow> bool"

sublocale all_writes \<subseteq> spend: spending D
  by unfold_locales (rule create_in [THEN op_ok] meter_txs [THEN op_ok] starting_txs [THEN op_ok])+

end
