(* ===== verification/Journal.thy ===== *)
theory Journal
  imports Writes
begin

text \<open>
  What the runtime never takes back, under any interleaving of its callers and across crashes:
  rows of the log-like tables stay as they were written, a run keeps its identity, its graph and
  contract hashes and its lineage, a frozen report stays what it is, budgets keep their limits.
\<close>

section \<open>The journal\<close>

definition events_of :: "db \<Rightarrow> event list" where
  "events_of d = map ob_event (db_outbox d)"

definition journal :: "db \<Rightarrow> db \<Rightarrow> bool" where
  "journal d d' \<longleftrightarrow>
     prefix (map run_identity (db_runs d)) (map run_identity (db_runs d')) \<and>
     prefix (map node_key (db_nodes d)) (map node_key (db_nodes d')) \<and>
     prefix (map attempt_identity (db_attempts d)) (map attempt_identity (db_attempts d')) \<and>
     prefix (map battempt_identity (db_branch_attempts d))
       (map battempt_identity (db_branch_attempts d')) \<and>
     prefix (map budget_limits (db_budgets d)) (map budget_limits (db_budgets d')) \<and>
     prefix (db_checkpoints d) (db_checkpoints d') \<and>
     prefix (db_intents d) (db_intents d') \<and>
     prefix (db_reports d) (db_reports d') \<and>
     prefix (db_artifacts d) (db_artifacts d') \<and>
     prefix (db_run_artifacts d) (db_run_artifacts d') \<and>
     prefix (db_reservations d) (db_reservations d') \<and>
     prefix (events_of d) (events_of d')"

lemma journal_node_rows:
  "(\<And>r. node_key (f r) = node_key r) \<Longrightarrow>
    map node_key (db_nodes (update_node run n f d)) = map node_key (db_nodes d)"
  by (simp add: update_node_def change_row_def map_update_where)

lemma journal_appends:
  "op_in journal (insert_branch br)" "op_in journal (insert_bnode bn)"
  "op_in journal (insert_bedge be)" "op_in journal (insert_run rr)" "op_in journal (insert_node nn)"
  "op_in journal (insert_budget bb)" "op_in journal (insert_edge ee)"
  "op_in journal (insert_or_fail nm reservation_key rv db_reservations
     (\<lambda>t d. d\<lparr>db_reservations := t\<rparr>))"
  unfolding insert_branch_def insert_bnode_def insert_bedge_def insert_run_def insert_node_def
    insert_budget_def insert_edge_def
  by (rule op_in_insert; clarsimp simp: insert_row_Some journal_def events_of_def)+

lemma journal_attempts:
  "op_in journal (insert_attempt a)" "op_in journal (insert_battempt b)"
  by (auto simp: op_in_def insert_attempt_def insert_battempt_def op_defs journal_def events_of_def)

lemma journal_trigger: "op_in journal (trigger_external H run n k)"
proof -
  have "op_in journal (put_trigger run k v i)" for v i
    by (auto simp: op_in_def put_trigger_def Let_def op_defs journal_def events_of_def)
  moreover have "op_in journal (ret ())"
    by (simp add: op_in_def ret_def journal_def)
  ultimately show ?thesis
    by (auto simp: trigger_external_def Let_def op_in_def bind_op_def lift_sum_def journal_def
        split: sum.split option.split)
qed

interpretation journal: all_writes journal
proof (unfold_locales, goal_cases)
  case (2 s t u)
  then show ?case by (auto simp: journal_def intro: prefix_order.trans)
next
  case (4 g d run n)
  then have "\<And>r. node_key (g r) = node_key r" by (metis node_meters_key)
  then show ?case by (simp add: journal_def journal_node_rows) (simp add: update_node_def events_of_def)
qed ((rule journal_trigger journal_appends journal_attempts |
    simp add: journal_def events_of_def update_run_def update_bnode_def
      update_attempt_def update_battempt_def update_branch_def update_handle_def update_budget_def
      change_row_def map_update_where enqueue_event_def modify_def add_checkpoint_def
      put_artifact_def put_report_def insert_or_ignore_def bump_edge_def bump_bedge_def op_in_def
      inherit_artifact_def update_node_def)+)

interpretation journal_db: db_relation journal
  by unfold_locales (simp add: journal_def events_of_def)

end
