(* ===== verification/Effects.thy ===== *)
theory Effects
  imports Journal
begin

text \<open>
  What a transaction that commits has found and done: the checks it passed, read off the database
  it started from, and the rows it leaves, for the transactions of \<open>runtime/engine.py\<close> and
  \<open>runtime/parallel.py\<close> that start attempts, take routes and spend budgets.
\<close>

section \<open>Inversion of the small operations\<close>

lemma ask_InrE: "ask f d = (Inr x, d') \<Longrightarrow> (d' = d \<Longrightarrow> f d = Inr x \<Longrightarrow> P) \<Longrightarrow> P"
  by (auto simp: ask_def)

lemma gets_InrE: "gets f d = (Inr x, d') \<Longrightarrow> (d' = d \<Longrightarrow> x = f d \<Longrightarrow> P) \<Longrightarrow> P"
  by (auto simp: gets_def)

lemma guard_InrE: "guard b e d = (Inr x, d') \<Longrightarrow> (d' = d \<Longrightarrow> b \<Longrightarrow> P) \<Longrightarrow> P"
  by (simp add: guard_def split: if_splits)

lemma modify_InrE: "modify f d = (Inr x, d') \<Longrightarrow> (d' = f d \<Longrightarrow> P) \<Longrightarrow> P"
  by (simp add: modify_def)

lemma ret_InrE: "ret y d = (Inr x, d') \<Longrightarrow> (d' = d \<Longrightarrow> x = y \<Longrightarrow> P) \<Longrightarrow> P"
  by (simp add: ret_def)

lemma raise_InrE: "raise e d = (Inr x, d') \<Longrightarrow> P"
  by (simp add: raise_def)

lemma lift_InrE: "lift_sum r d = (Inr x, d') \<Longrightarrow> (d' = d \<Longrightarrow> r = Inr x \<Longrightarrow> P) \<Longrightarrow> P"
  by (simp add: lift_sum_def)

lemma required_run_Inr [simp]: "required_run run d = Inr r \<longleftrightarrow> find_run run d = Some r"
  by (simp add: required_run_def split: option.split)

lemma find_run_id: "find_run run d = Some r \<Longrightarrow> rn_id r = run"
  unfolding find_run_def by (rule lookup_row_key)

lemma checkpoint_InrE:
  "checkpoint run reason d = (Inr u, d') \<Longrightarrow>
    (\<And>r. find_run run d = Some r \<Longrightarrow> d' = add_checkpoint r reason d \<Longrightarrow> P) \<Longrightarrow> P"
  unfolding checkpoint_def by (auto elim!: bind_op_InrE ask_InrE modify_InrE)

definition with_event :: "string \<Rightarrow> string \<Rightarrow> string option \<Rightarrow> string option \<Rightarrow>
    (string \<times> json) list \<Rightarrow> db \<Rightarrow> db" where
  "with_event ty run n a p d = snd (enqueue_event ty run n a p d)"

lemma enqueue_InrE:
  "enqueue_event ty run n a p d = (Inr u, d') \<Longrightarrow> (d' = with_event ty run n a p d \<Longrightarrow> P) \<Longrightarrow> P"
  by (simp add: with_event_def)

lemma insert_attempt_InrE:
  "insert_attempt a d = (Inr u, d') \<Longrightarrow>
    (at_id a \<notin> at_id ` set (db_attempts d) \<Longrightarrow> attempt_key a \<notin> attempt_key ` set (db_attempts d) \<Longrightarrow>
      d' = d\<lparr>db_attempts := db_attempts d @ [a]\<rparr> \<Longrightarrow> P) \<Longrightarrow> P"
  unfolding insert_attempt_def
  by (auto elim!: bind_op_InrE seq_op_InrE gets_InrE guard_InrE modify_InrE)

lemma insert_battempt_InrE:
  "insert_battempt a d = (Inr u, d') \<Longrightarrow>
    (ba_id a \<notin> ba_id ` set (db_branch_attempts d) \<Longrightarrow>
      battempt_key a \<notin> battempt_key ` set (db_branch_attempts d) \<Longrightarrow>
      d' = d\<lparr>db_branch_attempts := db_branch_attempts d @ [a]\<rparr> \<Longrightarrow> P) \<Longrightarrow> P"
  unfolding insert_battempt_def
  by (auto elim!: bind_op_InrE seq_op_InrE gets_InrE guard_InrE modify_InrE)

lemma trigger_InrE:
  assumes "trigger_external H run n k d = (Inr u, d')"
  obtains hs where "d' = d\<lparr>db_handles := hs\<rparr>"
proof (cases "nd_type n = NT_Verifier \<and> is_external n")
  case False
  with assms have "d' = d\<lparr>db_handles := db_handles d\<rparr>"
    by (auto simp: trigger_external_def elim!: ret_InrE)
  then show ?thesis by (rule that)
next
  case True
  with assms that show ?thesis
    unfolding trigger_external_def put_trigger_def Let_def
    by (auto elim!: bind_op_InrE seq_op_InrE gets_InrE guard_InrE modify_InrE lift_InrE)
qed

lemma insert_or_fail_InrE:
  "insert_or_fail nm key r get put d = (Inr u, d') \<Longrightarrow>
    (key r \<notin> key ` set (get d) \<Longrightarrow> d' = put (get d @ [r]) d \<Longrightarrow> P) \<Longrightarrow> P"
  by (auto simp: insert_or_fail_def insert_row_def split: if_splits)

lemmas inversions = bind_op_InrE seq_op_InrE ask_InrE gets_InrE guard_InrE modify_InrE ret_InrE
  raise_InrE lift_InrE checkpoint_InrE enqueue_InrE insert_attempt_InrE insert_battempt_InrE
  trigger_InrE insert_or_fail_InrE

text \<open>A checkpoint and an event change nothing but their own tables and the counter.\<close>

lemma write_frames [simp]:
  "db_runs (add_checkpoint r why d) = db_runs d" "db_nodes (add_checkpoint r why d) = db_nodes d"
  "db_attempts (add_checkpoint r why d) = db_attempts d" "db_edges (add_checkpoint r why d) = db_edges d"
  "db_budgets (add_checkpoint r why d) = db_budgets d" "db_handles (add_checkpoint r why d) = db_handles d"
  "db_reports (add_checkpoint r why d) = db_reports d" "db_outbox (add_checkpoint r why d) = db_outbox d"
  "db_branches (add_checkpoint r why d) = db_branches d"
  "db_branch_nodes (add_checkpoint r why d) = db_branch_nodes d"
  "db_branch_attempts (add_checkpoint r why d) = db_branch_attempts d"
  "db_branch_edges (add_checkpoint r why d) = db_branch_edges d"
  "db_reservations (add_checkpoint r why d) = db_reservations d"
  "db_intents (add_checkpoint r why d) = db_intents d"
  "db_artifacts (add_checkpoint r why d) = db_artifacts d"
  "db_run_artifacts (add_checkpoint r why d) = db_run_artifacts d"
  "db_runs (with_event ty run n a p d) = db_runs d" "db_nodes (with_event ty run n a p d) = db_nodes d"
  "db_attempts (with_event ty run n a p d) = db_attempts d"
  "db_edges (with_event ty run n a p d) = db_edges d"
  "db_budgets (with_event ty run n a p d) = db_budgets d"
  "db_handles (with_event ty run n a p d) = db_handles d"
  "db_reports (with_event ty run n a p d) = db_reports d"
  "db_checkpoints (with_event ty run n a p d) = db_checkpoints d"
  "db_branches (with_event ty run n a p d) = db_branches d"
  "db_branch_nodes (with_event ty run n a p d) = db_branch_nodes d"
  "db_branch_attempts (with_event ty run n a p d) = db_branch_attempts d"
  "db_branch_edges (with_event ty run n a p d) = db_branch_edges d"
  "db_reservations (with_event ty run n a p d) = db_reservations d"
  "db_intents (with_event ty run n a p d) = db_intents d"
  "db_artifacts (with_event ty run n a p d) = db_artifacts d"
  "db_run_artifacts (with_event ty run n a p d) = db_run_artifacts d"
  by (simp_all add: add_checkpoint_def with_event_def enqueue_event_def modify_def)

lemma update_frames [simp]:
  "db_budgets (update_node r n f d) = db_budgets d" "db_runs (update_node r n f d) = db_runs d"
  "db_attempts (update_node r n f d) = db_attempts d" "db_edges (update_node r n f d) = db_edges d"
  "db_reservations (update_node r n f d) = db_reservations d"
  "db_budgets (update_run r g d) = db_budgets d" "db_nodes (update_run r g d) = db_nodes d"
  "db_attempts (update_run r g d) = db_attempts d" "db_edges (update_run r g d) = db_edges d"
  "db_nodes (update_budget r h d) = db_nodes d" "db_runs (update_budget r h d) = db_runs d"
  "db_attempts (update_budget r h d) = db_attempts d" "db_edges (update_budget r h d) = db_edges d"
  "db_branch_nodes (update_budget r h d) = db_branch_nodes d"
  "db_branch_attempts (update_budget r h d) = db_branch_attempts d"
  "db_branch_attempts (update_node r n f d) = db_branch_attempts d"
  "db_branch_attempts (update_run r g d) = db_branch_attempts d"
  "db_branch_nodes (update_node r n f d) = db_branch_nodes d"
  "db_branch_nodes (update_run r g d) = db_branch_nodes d"
  "db_budgets (update_branch r c b f3 d) = db_budgets d"
  "db_runs (update_branch r c b f3 d) = db_runs d"
  "db_nodes (update_branch r c b f3 d) = db_nodes d"
  "db_attempts (update_branch r c b f3 d) = db_attempts d"
  "db_branch_attempts (update_branch r c b f3 d) = db_branch_attempts d"
  "db_branch_nodes (update_branch r c b f3 d) = db_branch_nodes d"
  "db_budgets (update_bnode r c b n f4 d) = db_budgets d"
  "db_runs (update_bnode r c b n f4 d) = db_runs d"
  "db_nodes (update_bnode r c b n f4 d) = db_nodes d"
  "db_attempts (update_bnode r c b n f4 d) = db_attempts d"
  "db_branch_attempts (update_bnode r c b n f4 d) = db_branch_attempts d"
  "db_budgets (bump_edge r x y d) = db_budgets d" "db_runs (bump_edge r x y d) = db_runs d"
  "db_nodes (bump_edge r x y d) = db_nodes d" "db_attempts (bump_edge r x y d) = db_attempts d"
  "db_branch_nodes (bump_edge r x y d) = db_branch_nodes d"
  "db_branch_attempts (bump_edge r x y d) = db_branch_attempts d"
  "db_budgets (bump_bedge r c b x y d) = db_budgets d" "db_runs (bump_bedge r c b x y d) = db_runs d"
  "db_nodes (bump_bedge r c b x y d) = db_nodes d"
  "db_attempts (bump_bedge r c b x y d) = db_attempts d"
  "db_branch_nodes (bump_bedge r c b x y d) = db_branch_nodes d"
  "db_branch_attempts (bump_bedge r c b x y d) = db_branch_attempts d"
  by (simp_all add: update_node_def update_run_def update_budget_def update_branch_def
      update_bnode_def bump_edge_def bump_bedge_def)

section \<open>Starting an attempt\<close>

definition new_attempt :: "string \<Rightarrow> string \<Rightarrow> int \<Rightarrow> attempt_row" where
  "new_attempt run n i = \<lparr>at_id = attempt_id run n i, at_run = run, at_node = n, at_number = i,
     at_status = NS_Running, at_result = None\<rparr>"

definition new_battempt :: "string \<Rightarrow> string \<Rightarrow> string \<Rightarrow> string \<Rightarrow> int \<Rightarrow> branch_attempt_row" where
  "new_battempt run c b n i = \<lparr>ba_id = branch_attempt_id run c b n i, ba_run = run,
     ba_container = c, ba_branch = b, ba_node = n, ba_number = i, ba_status = NS_Running,
     ba_result = None\<rparr>"

lemma start_attempt_effect:
  assumes "start_attempt_tx H run n now d = (Inr a, d')"
  obtains r row where "find_run run d = Some r" and "open_run r"
    and "find_budget run d \<noteq> None" and "counts_call n \<Longrightarrow> calls_left run d"
    and "find_node run (nd_id n) d = Some row" and "nr_status row = NS_Ready"
    and "\<not> node_budget_reached now (nd_budget n) (nr_count row) (nr_first row) (nr_cost row) False True"
    and "a = attempt_id run (nd_id n) (nr_count row + 1)"
    and "db_runs d' = db_runs d"
    and "db_nodes d' = db_nodes (update_node run (nd_id n) (run_node (nr_count row + 1) now) d)"
    and "db_attempts d' = db_attempts d @ [new_attempt run (nd_id n) (nr_count row + 1)]"
    and "db_budgets d' = db_budgets (if counts_call n then update_budget run spend_call d else d)"
    and "db_branch_attempts d' = db_branch_attempts d"
proof -
  from assms obtain r row where
    "find_run run d = Some r" "open_run r" "find_budget run d \<noteq> None"
    "counts_call n \<longrightarrow> calls_left run d" "find_node run (nd_id n) d = Some row"
    "nr_status row = NS_Ready"
    "\<not> node_budget_reached now (nd_budget n) (nr_count row) (nr_first row) (nr_cost row) False True"
    "a = attempt_id run (nd_id n) (nr_count row + 1)"
    "db_runs d' = db_runs d"
    "db_nodes d' = db_nodes (update_node run (nd_id n) (run_node (nr_count row + 1) now) d)"
    "db_attempts d' = db_attempts d @ [new_attempt run (nd_id n) (nr_count row + 1)]"
    "db_budgets d' = db_budgets (if counts_call n then update_budget run spend_call d else d)"
    "db_branch_attempts d' = db_branch_attempts d"
    unfolding start_attempt_tx_def Let_def new_attempt_def
    by (auto elim!: inversions split: option.splits if_splits simp: update_budget_def)
  then show ?thesis using that by blast
qed

lemma start_branch_attempt_effect:
  assumes "start_branch_attempt_tx H run c b n now d = (Inr a, d')"
  obtains r row where "find_run run d = Some r" and "open_run r" and "calls_left run d"
    and "find_bnode run c b (nd_id n) d = Some row" and "bn_status row = NS_Ready"
    and "\<not> node_budget_reached now (nd_budget n) (bn_count row) (bn_first row) (bn_cost row) False True"
    and "a = branch_attempt_id run c b (nd_id n) (bn_count row + 1)"
    and "db_runs d' = db_runs d" and "db_nodes d' = db_nodes d" and "db_attempts d' = db_attempts d"
    and "db_branch_nodes d' =
      db_branch_nodes (update_bnode run c b (nd_id n) (run_bnode (bn_count row + 1) now) d)"
    and "db_branch_attempts d' =
      db_branch_attempts d @ [new_battempt run c b (nd_id n) (bn_count row + 1)]"
    and "db_budgets d' = db_budgets (update_budget run spend_call d)"
proof -
  from assms obtain r row where
    "find_run run d = Some r" "open_run r" "calls_left run d"
    "find_bnode run c b (nd_id n) d = Some row" "bn_status row = NS_Ready"
    "\<not> node_budget_reached now (nd_budget n) (bn_count row) (bn_first row) (bn_cost row) False True"
    "a = branch_attempt_id run c b (nd_id n) (bn_count row + 1)"
    "db_runs d' = db_runs d" "db_nodes d' = db_nodes d" "db_attempts d' = db_attempts d"
    "db_branch_nodes d' =
      db_branch_nodes (update_bnode run c b (nd_id n) (run_bnode (bn_count row + 1) now) d)"
    "db_branch_attempts d' =
      db_branch_attempts d @ [new_battempt run c b (nd_id n) (bn_count row + 1)]"
    "db_budgets d' = db_budgets (update_budget run spend_call d)"
    unfolding start_branch_attempt_tx_def Let_def new_battempt_def
    by (auto elim!: inversions split: option.splits if_splits
        simp: update_budget_def update_bnode_def update_branch_def)
  then show ?thesis using that by blast
qed

section \<open>Routes\<close>

text \<open>A route that was taken, or not because of a barrier or an exhausted budget.\<close>

lemma route_effect:
  assumes "route_tx run g e repair now d = (Inr x, d')"
  obtains "x = None" and "d' = d"
  | n where "x = Some True" and "d' = d" and "repair" and "graph_node g (ed_from e) = Inr n"
      and "repairs_exhausted run n d"
  | r n where "x = Some False" and "find_run run d = Some r" and "rn_barrier r = None"
      and "graph_node g (ed_from e) = Inr n" and "\<not> (repair \<and> repairs_exhausted run n d)"
      and "db_runs d' = db_runs (take_edge run e d)"
      and "db_nodes d' = db_nodes (take_edge run e (if repair then charge_repair run (ed_from e) d else d))"
      and "db_edges d' = db_edges (bump_edge run (ed_from e) (ed_to e) d)"
      and "db_budgets d' = db_budgets (if repair then update_budget run spend_repair d else d)"
      and "db_attempts d' = db_attempts d"
proof -
  from assms consider "x = None" "d' = d"
  | n where "x = Some True" "d' = d" "repair" "graph_node g (ed_from e) = Inr n"
      "repairs_exhausted run n d"
  | r n where "x = Some False" "find_run run d = Some r" "rn_barrier r = None"
      "graph_node g (ed_from e) = Inr n" "\<not> (repair \<and> repairs_exhausted run n d)"
      "db_runs d' = db_runs (take_edge run e d)"
      "db_nodes d' = db_nodes (take_edge run e (if repair then charge_repair run (ed_from e) d else d))"
      "db_edges d' = db_edges (bump_edge run (ed_from e) (ed_to e) d)"
      "db_budgets d' = db_budgets (if repair then update_budget run spend_repair d else d)"
      "db_attempts d' = db_attempts d"
    unfolding route_tx_def
    by (auto elim!: inversions split: if_splits
        simp: take_edge_def charge_repair_def update_node_def update_run_def bump_edge_def
          update_budget_def)
  then show ?thesis using that by cases
qed

lemma branch_route_effect:
  assumes "branch_route_tx run c b e repair now d = (Inr x, d')"
  obtains "d' = d"
  | r where "x = Some False" and "find_run run d = Some r" and "rn_barrier r = None"
      and "repair \<Longrightarrow> repairs_left run d"
      and "db_branch_edges d' = db_branch_edges (bump_bedge run c b (ed_from e) (ed_to e) d)"
      and "db_budgets d' = db_budgets (if repair then update_budget run spend_repair d else d)"
proof -
  from assms consider "d' = d"
  | r where "x = Some False" "find_run run d = Some r" "rn_barrier r = None"
      "repair \<longrightarrow> repairs_left run d"
      "db_branch_edges d' = db_branch_edges (bump_bedge run c b (ed_from e) (ed_to e) d)"
      "db_budgets d' = db_budgets (if repair then update_budget run spend_repair d else d)"
    unfolding branch_route_tx_def
    by (auto elim!: inversions split: if_splits
        simp: take_bedge_def repair_bnode_def update_branch_def update_bnode_def bump_bedge_def
          update_budget_def)
  then show ?thesis using that by cases auto
qed

section \<open>Cost\<close>

lemma add_node_cost_frames [simp]:
  "db_budgets (add_node_cost run n c d) = db_budgets d" "db_runs (add_node_cost run n c d) = db_runs d"
  "db_attempts (add_node_cost run n c d) = db_attempts d"
  "db_reservations (add_node_cost run n c d) = db_reservations d"
  by (simp_all add: add_node_cost_def split: option.split)

lemma charge_effect:
  assumes "charge_tx run c n now d = (Inr u, d')"
  obtains r where "find_run run d = Some r" and "\<not> terminal (rn_status r)"
    and "db_budgets d' = db_budgets (update_budget run (add_cost c) d)" and "db_runs d' = db_runs d"
    and "db_nodes d' = db_nodes (add_node_cost run n c d)"
proof -
  from assms obtain r where "find_run run d = Some r" "\<not> terminal (rn_status r)"
    "db_budgets d' = db_budgets (update_budget run (add_cost c) d)" "db_runs d' = db_runs d"
    "db_nodes d' = db_nodes (add_node_cost run n c d)"
    unfolding charge_tx_def
    by (auto elim!: inversions simp: add_node_cost_def update_node_def split: option.splits)
  then show ?thesis using that by blast
qed

lemma reserve_effect:
  assumes "reserve_tx gr run k c n now d = (Inr x, d')"
  obtains "snd x = False" and "d' = d"
  | r where "x = (True, True)" and "find_run run d = Some r" and "open_run r"
      and "run_has_room run c d = Inr True" and "node_has_room gr run n c d = Inr True"
      and "lookup_row reservation_key (run, k) (db_reservations d) = None"
      and "db_reservations d' =
        db_reservations d @ [\<lparr>rv_run = run, rv_id = k, rv_node = n, rv_cost = c\<rparr>]"
      and "db_budgets d' = db_budgets (update_budget run (add_cost c) d)" and "db_runs d' = db_runs d"
      and "db_nodes d' = db_nodes (add_node_cost run n c d)"
proof -
  from assms consider "snd x = False" "d' = d"
  | r where "x = (True, True)" "find_run run d = Some r" "open_run r"
      "run_has_room run c d = Inr True" "node_has_room gr run n c d = Inr True"
      "lookup_row reservation_key (run, k) (db_reservations d) = None"
      "db_reservations d' =
        db_reservations d @ [\<lparr>rv_run = run, rv_id = k, rv_node = n, rv_cost = c\<rparr>]"
      "db_budgets d' = db_budgets (update_budget run (add_cost c) d)" "db_runs d' = db_runs d"
      "db_nodes d' = db_nodes (add_node_cost run n c d)"
    unfolding reserve_tx_def reserve_write_def
    by (auto elim!: inversions split: if_splits option.splits
        simp: add_node_cost_def update_node_def update_budget_def)
  then show ?thesis using that by cases auto
qed

end
