(* ===== verification/Budgets.thy ===== *)
theory Budgets
  imports Effects
begin

text \<open>
  The budgets of a run: under any interleaving of callers, branches and crashes, the calls and the
  repairs a run has made never exceed its limits, because each is counted in the transaction
  that checks the limit.
\<close>

section \<open>The invariant\<close>

definition budget_row_ok :: "budget_row \<Rightarrow> bool" where
  "budget_row_ok b \<longleftrightarrow> 0 \<le> bd_calls b \<and> bd_calls b \<le> bd_max_calls b \<and> 0 \<le> bd_repairs b \<and>
     bd_repairs b \<le> bd_max_repairs b \<and> validate_budget (budget_of_row b) = Inr () \<and>
     (case bd_cost b of None \<Rightarrow> True | Some c \<Rightarrow> 0 \<le> c)"

definition budgets_ok :: "db \<Rightarrow> bool" where
  "budgets_ok d \<longleftrightarrow> distinct (map bd_run (db_budgets d)) \<and> (\<forall>b \<in> set (db_budgets d). budget_row_ok b)"

lemma budgets_frame: "db_budgets d' = db_budgets d \<Longrightarrow> preserves budgets_ok d d'"
  by (simp add: preserves_def budgets_ok_def)

lemma find_budget_in: "find_budget run d = Some b \<Longrightarrow> b \<in> set (db_budgets d) \<and> bd_run b = run"
  by (auto simp: find_budget_def lookup_row_def dest: find_SomeD)

text \<open>An update of the one row of a run keeps the invariant when it keeps that row right.\<close>

lemma budgets_update:
  assumes ok: "budgets_ok d" and key: "\<And>b. bd_run (f b) = bd_run b"
    and row: "\<And>b. find_budget run d = Some b \<Longrightarrow> budget_row_ok b \<Longrightarrow> budget_row_ok (f b)"
  shows "budgets_ok (update_budget run f d)"
proof -
  have "budget_row_ok (f b)" if "b \<in> set (db_budgets d)" and "bd_run b = run" for b
  proof (rule row)
    show "find_budget run d = Some b"
      using ok that by (auto simp: find_budget_def lookup_row_def budgets_ok_def
          intro: find_key_distinct [of bd_run, simplified])
    show "budget_row_ok b" using ok that by (simp add: budgets_ok_def)
  qed
  with ok key show ?thesis
    by (auto simp: budgets_ok_def update_budget_def change_row_def map_update_where
        set_update_where)
qed

section \<open>Transactions that do not touch budgets\<close>

lemma budgets_quiet_trigger: "op_in (preserves budgets_ok) (trigger_external H run n k)"
  by (auto simp: op_in_def trigger_external_def put_trigger_def Let_def op_defs budgets_frame
      split: sum.split option.split)

interpretation budgets: quiet_writes "preserves budgets_ok"
proof (unfold_locales, goal_cases)
  case (2 s t u)
  then show ?case by (auto simp: preserves_def)
qed (simp add: budgets_frame update_run_def update_node_def update_bnode_def update_attempt_def
    update_battempt_def update_branch_def update_handle_def enqueue_event_def modify_def
    add_checkpoint_def put_artifact_def put_report_def)+

section \<open>Transactions that spend\<close>

lemma budgets_inserts:
  "op_in (preserves budgets_ok) (insert_branch br)" "op_in (preserves budgets_ok) (insert_bnode bn)"
  "op_in (preserves budgets_ok) (insert_bedge be)" "op_in (preserves budgets_ok) (insert_run rr)"
  "op_in (preserves budgets_ok) (insert_node nn)" "op_in (preserves budgets_ok) (insert_edge ee)"
  unfolding insert_branch_def insert_bnode_def insert_bedge_def insert_run_def insert_node_def
    insert_edge_def
  by (rule op_in_insert; simp add: budgets_frame)+

lemma budgets_new:
  assumes "validate_budget b = Inr ()"
  shows "op_in (preserves budgets_ok) (insert_budget (new_budget run b now))"
proof -
  have "budget_row_ok (new_budget run b now)"
    using assms by (auto simp: budget_row_ok_def new_budget_def budget_of_row_def validate_budget_def)
  then show ?thesis
    unfolding insert_budget_def
    by (intro op_in_insert) (auto simp: insert_row_Some preserves_def budgets_ok_def)
qed

lemma budgets_inherit: "op_in (preserves budgets_ok) (inherit run im)"
  "op_in (preserves budgets_ok) (inherit_run run im)"
proof -
  show "op_in (preserves budgets_ok) (inherit run im)"
    unfolding inherit_def inherit_branch_def inherit_bnode_def inherit_bedge_def
    by (intro budgets.op_intros budgets_inserts) (simp_all add: budgets_frame)
  show "op_in (preserves budgets_ok) (inherit_run run im)"
    unfolding inherit_run_def inherit_artifact_def
    by (intro budgets.op_intros budgets_inserts) (simp_all add: budgets_frame)
qed

lemma spend_call_ok:
  "budgets_ok d \<Longrightarrow> calls_left run d \<Longrightarrow> budgets_ok (update_budget run spend_call d)"
  by (rule budgets_update)
    (auto simp: spend_call_def budget_row_ok_def calls_left_def budget_of_row_def)

lemma spend_repair_ok:
  "budgets_ok d \<Longrightarrow> (\<And>b. find_budget run d = Some b \<Longrightarrow> bd_repairs b < bd_max_repairs b) \<Longrightarrow>
    budgets_ok (update_budget run spend_repair d)"
  by (rule budgets_update) (auto simp: spend_repair_def budget_row_ok_def budget_of_row_def)

lemma add_cost_ok: "budgets_ok d \<Longrightarrow> c > 0 \<Longrightarrow> budgets_ok (update_budget run (add_cost c) d)"
  by (rule budgets_update)
    (auto simp: add_cost_def budget_row_ok_def budget_of_row_def split: option.splits)

lemma budgets_same: "db_budgets d' = db_budgets d'' \<Longrightarrow> budgets_ok d'' \<Longrightarrow> budgets_ok d'"
  by (simp add: budgets_ok_def)

interpretation budgets_spend: spending "preserves budgets_ok"
proof (unfold_locales, goal_cases)
  case (1 g budget rel r H p h restart now)
  show ?case
    unfolding create_run_tx_def initialize_def initialize_node_def
    by (intro op_ok budgets.quiet_rules budgets_inserts budgets_new budgets_inherit 1)
next
  case (2 H r n now)
  show ?case
  proof (rule ok_inI)
    fix d a d'
    assume "start_attempt_tx H r n now d = (Inr a, d')"
    then show "preserves budgets_ok d d'"
      by (rule start_attempt_effect)
        (auto simp: preserves_def intro: budgets_same spend_call_ok split: if_splits)
  qed
next
  case (3 r g e rep now)
  show ?case
  proof (rule ok_inI)
    fix d x d'
    assume "route_tx r g e rep now d = (Inr x, d')"
    then show "preserves budgets_ok d d'"
    proof (cases rule: route_effect)
      case (3 row n)
      then show ?thesis
        by (auto simp: preserves_def repairs_exhausted_def
            intro!: budgets_same [OF 3(9)] spend_repair_ok split: option.splits)
    qed (simp_all add: preserves_def)
  qed
next
  case (4 r c b e rep now)
  show ?case
  proof (rule ok_inI)
    fix d x d'
    assume "branch_route_tx r c b e rep now d = (Inr x, d')"
    then show "preserves budgets_ok d d'"
    proof (cases rule: branch_route_effect)
      case (2 row)
      then show ?thesis
        by (auto simp: preserves_def repairs_left_def
            intro!: budgets_same [OF 2(6)] spend_repair_ok split: option.splits)
    qed (simp_all add: preserves_def)
  qed
next
  case (5 H r c b n now)
  show ?case
  proof (rule ok_inI)
    fix d a d'
    assume "start_branch_attempt_tx H r c b n now d = (Inr a, d')"
    then show "preserves budgets_ok d d'"
      by (rule start_branch_attempt_effect)
        (auto simp: preserves_def intro: budgets_same spend_call_ok)
  qed
next
  case (6 cost r nd now)
  show ?case
  proof (rule ok_inI)
    fix d u d'
    assume "charge_tx r cost nd now d = (Inr u, d')"
    then show "preserves budgets_ok d d'"
      using 6 by (elim charge_effect) (auto simp: preserves_def intro: budgets_same add_cost_ok)
  qed
next
  case (7 cost gr r k nd now)
  show ?case
  proof (rule ok_inI)
    fix d x d'
    assume "reserve_tx gr r k cost nd now d = (Inr x, d')"
    then show "preserves budgets_ok d d'"
      using 7 by (elim reserve_effect) (auto simp: preserves_def intro: budgets_same add_cost_ok)
  qed
qed

interpretation budgets_db: db_relation "preserves budgets_ok"
  by unfold_locales (simp add: budgets_frame)

interpretation budgets_always: db_invariant budgets_ok
  by unfold_locales (simp_all add: budgets_ok_def empty_db_def)

end
