(* ===== verification/Samples.thy ===== *)
theory Samples
  imports System
begin

text \<open>
  A concrete run for the witnesses: an implement node and a verifier with a repair edge, in the
  style of \<open>tests/test_runtime_execution.py\<close>, and an environment whose Verifier fails as often as
  the outside state says.
\<close>

definition sample_budget :: budget where
  "sample_budget = \<lparr>bg_max_duration = 100, bg_max_calls = 5, bg_max_repairs = 2,
     bg_max_cost = Some 10\<rparr>"

definition leaf :: "string \<Rightarrow> node_type \<Rightarrow> node" where
  "leaf k t = Node k t ''do'' [] None None None None"

definition sample_edge :: edge where
  "sample_edge = \<lparr>ed_from = ''i'', ed_to = ''v'', ed_cond = None, ed_max = None\<rparr>"

definition sample_repair :: edge where
  "sample_repair = \<lparr>ed_from = ''v'', ed_to = ''i'', ed_cond = Some \<lparr>rc_field = RF_Status,
     rc_op = RO_Equals, rc_value = CScalar (SStr ''failed'')\<rparr>, ed_max = Some 2\<rparr>"

definition sample_graph :: exec_graph where
  "sample_graph = \<lparr>g_id = ''g'', g_contract = \<lparr>cr_id = ''c'', cr_revision = 1\<rparr>, g_entry = ''i'',
     g_nodes = [leaf ''i'' NT_Agent, leaf ''v'' NT_Verifier],
     g_edges = [sample_edge, sample_repair]\<rparr>"

definition sample_host :: host where
  "sample_host = \<lparr>h_graph_hash = g_id, h_sub_hash = sb_id, h_str = (\<lambda>j. ''x''),
     h_int = (\<lambda>j. Inr 1)\<rparr>"

definition sample_env :: "nat env" where
  "sample_env = \<lparr>e_host = sample_host,
     e_execute = (\<lambda>r n a. return_t (exec_result_of ES_Succeeded ''ok'')),
     e_verify = (\<lambda>r n a k. atomic (\<lambda>w. (Inr (if w_ext w = 0 then ver_result_of VS_Passed ''fine''
        else ver_result_of VS_Failed ''bad''\<lparr>vr_failures := [''x'']\<rparr>), w\<lparr>w_ext := w_ext w - 1\<rparr>))),
     e_query = (\<lambda>h. return_t (ver_result_of VS_Passed ''fine'')), e_query_for = None,
     e_cancel = None, e_cancel_for = None, e_schedule = (\<lambda>w. [])\<rparr>"

definition sample_create :: "(nat world, unit) thread" where
  "sample_create =
     create_run sample_env ''r'' ''p'' sample_graph ''h'' sample_budget None None"

definition sample_world :: "nat world" where
  \<comment> \<open>the world after the run was created\<close>
  "sample_world = snd (run_thread sample_create (first_world 0 1))"

lemma sample_quiet: "env_quiet sample_env"
  by (auto simp: env_quiet_def sample_env_def outside_step_def return_t_def atomic_def)

lemma sample_wf_graph: "wf_graph sample_graph"
  by code_simp

lemma sample_args: "new_run_args ''r'' sample_graph sample_budget None"
  by (simp add: new_run_args_def sample_wf_graph) (simp add: sample_budget_def validate_budget_def)

text \<open>A thread of the pool that is alone runs to its end.\<close>

lemma step_alone:
  "sys_step E ([Step g], w) ([fst (g w)], snd (g w))"
  using sys_go [of E "[Step g]" w 0] by (simp add: step_nth_def case_prod_beta)

lemma step_second:
  "sys_step E ([u, Step g], w) ([u, fst (g w)], snd (g w))"
  using sys_go [of E "[u, Step g]" w 1] by (simp add: step_nth_def case_prod_beta)

lemma run_second:
  "(sys_step E)\<^sup>*\<^sup>* ([u, t], w) ([u, Done (fst (run_thread t w))], snd (run_thread t w))"
proof (induction t arbitrary: w)
  case (Done r)
  then show ?case by simp
next
  case (Step g)
  have "(sys_step E)\<^sup>*\<^sup>* ([u, fst (g w)], snd (g w))
     ([u, Done (fst (run_thread (fst (g w)) (snd (g w))))], snd (run_thread (fst (g w)) (snd (g w))))"
    by (rule Step.IH) (auto simp: fsts.simps prod_set_defs intro: rangeI)
  with step_second [of E u g w] show ?case by (simp add: converse_rtranclp_into_rtranclp)
qed

lemma run_alone: "(sys_step E)\<^sup>*\<^sup>* ([t], w) ([Done (fst (run_thread t w))], snd (run_thread t w))"
proof (induction t arbitrary: w)
  case (Done r)
  then show ?case by simp
next
  case (Step g)
  have "(sys_step E)\<^sup>*\<^sup>* ([fst (g w)], snd (g w))
     ([Done (fst (run_thread (fst (g w)) (snd (g w))))], snd (run_thread (fst (g w)) (snd (g w))))"
    by (rule Step.IH) (auto simp: fsts.simps prod_set_defs intro: rangeI)
  with step_alone [of E g w] show ?case by (simp add: converse_rtranclp_into_rtranclp)
qed

lemma reach_steps: "(sys_step E)\<^sup>*\<^sup>* s s' \<Longrightarrow> reach E s \<Longrightarrow> reach E s'"
  by (induction rule: rtranclp_induct) (auto intro: reach_step)

lemma sample_reach: "reach sample_env ([Done (fst (run_thread sample_create (first_world 0 1)))], sample_world)"
proof -
  have "sys_step sample_env ([], first_world 0 1) ([] @ [sample_create], first_world 0 1)"
    unfolding sample_create_def by (intro sys_call call_create sample_args)
  then have "reach sample_env ([sample_create], first_world 0 1)"
    by (auto intro: reach_step reach_first)
  with run_alone [of sample_env sample_create "first_world 0 1"] show ?thesis
    unfolding sample_world_def by (rule reach_steps)
qed

text \<open>The thread with number \<open>i\<close> takes \<open>n\<close> steps.\<close>

definition go :: "nat \<Rightarrow> nat \<Rightarrow> 'x system \<Rightarrow> 'x system" where
  "go i n = (step_nth i ^^ n)"

lemma go_0 [simp]: "go i 0 s = s"
  by (simp add: go_def)

lemma go_Suc: "go i (Suc n) s = step_nth i (go i n s)"
  by (simp add: go_def)

lemma reach_go: "reach E s \<Longrightarrow> reach E (go i n s)"
proof (induction n)
  case 0
  then show ?case by simp
next
  case (Suc n)
  obtain ts w where "go i n s = (ts, w)" by fastforce
  with Suc show ?case by (auto simp: go_Suc intro: reach_step sys_go)
qed

lemma sys_step_go: "sys_step E s (step_nth i s)"
  by (cases s) (simp add: sys_go)

definition sample_run :: "(nat world, unit) thread" where
  "sample_run = map_t (\<lambda>_. ()) (run_run 9 sample_env ''r'' None)"

definition sample_pool :: "nat system" where
  \<comment> \<open>the run is created, and a caller is about to run it\<close>
  "sample_pool =
     ([Done (fst (run_thread sample_create (first_world 0 1))), sample_run], sample_world)"

lemma sample_pool_reach: "reach sample_env sample_pool"
proof -
  have "reach sample_env ([Done (fst (run_thread sample_create (first_world 0 1)))] @ [sample_run],
      sample_world)"
    unfolding sample_run_def by (intro reach_step [OF sample_reach] sys_call call_run)
  then show ?thesis by (simp add: sample_pool_def)
qed

definition sample_done :: "nat world" where
  \<comment> \<open>the run at its end: one repair, then success\<close>
  "sample_done = snd (run_thread sample_run sample_world)"

lemma sample_done_reach: "\<exists>ts. reach sample_env (ts, sample_done)"
  using reach_steps [OF run_second sample_pool_reach [unfolded sample_pool_def]]
  unfolding sample_done_def by blast

text \<open>A second call, run to its end after the creation of the run.\<close>

lemma sample_call_reach:
  assumes "api_call sample_env t"
  shows "\<exists>ts. reach sample_env (ts, snd (run_thread t sample_world))"
proof -
  let ?u = "Done (fst (run_thread sample_create (first_world 0 1)))"
  have "reach sample_env ([?u] @ [t], sample_world)"
    by (intro reach_step [OF sample_reach] sys_call assms)
  then have "reach sample_env ([?u, t], sample_world)" unfolding append.simps .
  then have "reach sample_env ([?u, Done (fst (run_thread t sample_world))], snd (run_thread t sample_world))"
    by (rule reach_steps [OF run_second])
  then show ?thesis by blast
qed

end
