(* ===== verification/Run_Rows.thy ===== *)
theory Run_Rows
  imports Budgets Samples
begin

text \<open>
  The rows of a run: each has a well-formed graph, contract reference, lineage and notes, exactly
  one budget row, and one node row for each node of its graph. It is an invariant of the system,
  so the reports and snapshots that the runtime builds from these rows pass their validators.
\<close>

section \<open>What creating a run writes\<close>

definition same_core :: "db \<Rightarrow> db \<Rightarrow> bool" where
  "same_core d d' \<longleftrightarrow> db_runs d' = db_runs d \<and> db_nodes d' = db_nodes d \<and>
     db_budgets d' = db_budgets d \<and> db_attempts d' = db_attempts d \<and>
     db_reports d' = db_reports d \<and> db_handles d' = db_handles d"

interpretation core: step_preorder same_core
  by unfold_locales (simp_all add: same_core_def)

lemma core_inserts:
  "op_in same_core (insert_branch br)" "op_in same_core (insert_bnode bn)"
  "op_in same_core (insert_bedge be)" "op_in same_core (insert_edge ee)"
  unfolding insert_branch_def insert_bnode_def insert_bedge_def insert_edge_def
  by (rule op_in_insert; simp add: same_core_def)+

lemma core_branches: "op_in same_core (initialize H run ns)" "op_in same_core (inherit run im)"
  "op_in same_core (inherit_run run im)"
  unfolding initialize_def initialize_node_def inherit_def inherit_branch_def inherit_bnode_def
    inherit_bedge_def inherit_run_def inherit_artifact_def
  by (intro core.op_intros core_inserts;
      simp add: same_core_def update_branch_def update_bnode_def)+

lemma core_InrE:
  "op_in same_core m \<Longrightarrow> m d = (Inr x, d') \<Longrightarrow> (same_core d d' \<Longrightarrow> P) \<Longrightarrow> P"
  unfolding op_in_def by (metis snd_conv)

lemma insert_nodes_effect:
  "for_each (\<lambda>n. insert_node (f n)) ns d = (Inr u, d') \<Longrightarrow>
    d' = d\<lparr>db_nodes := db_nodes d @ map f ns\<rparr> \<and>
    distinct (map node_key (map f ns)) \<and> node_key ` set (map f ns) \<inter> node_key ` set (db_nodes d) = {}"
proof (induction ns arbitrary: d)
  case Nil
  then show ?case by (auto elim!: inversions)
next
  case (Cons n ns)
  from Cons.prems have ns: "for_each (\<lambda>n. insert_node (f n)) ns (d\<lparr>db_nodes := db_nodes d @ [f n]\<rparr>) = (Inr u, d')"
    and new: "node_key (f n) \<notin> node_key ` set (db_nodes d)"
    unfolding for_each.simps insert_node_def by (auto elim!: inversions)
  from Cons.IH [OF ns] new show ?case by auto
qed

text \<open>A created run adds its row, its budget row and a row for each node, and no other of these.\<close>

lemma create_effect:
  assumes "create_run_tx H run p g h budget rel restart now d = (Inr x, d')"
  obtains im where "validate_lineage H g h rel restart d = Inr im"
    and "run \<notin> rn_id ` set (db_runs d)"
    and "db_runs d' = db_runs d @ [new_run H run p g h rel restart im]"
    and "db_nodes d' = db_nodes d @ map (new_node run g (case im of None \<Rightarrow> [] | Some i \<Rightarrow> im_nodes i)) (g_nodes g)"
    and "distinct (map node_key (map (new_node run g (case im of None \<Rightarrow> [] | Some i \<Rightarrow> im_nodes i)) (g_nodes g)))"
    and "node_key ` set (map (new_node run g (case im of None \<Rightarrow> [] | Some i \<Rightarrow> im_nodes i)) (g_nodes g)) \<inter>
      node_key ` set (db_nodes d) = {}"
    and "run \<notin> bd_run ` set (db_budgets d)"
    and "db_budgets d' = db_budgets d @ [new_budget run budget now]"
    and "db_attempts d' = db_attempts d" and "db_reports d' = db_reports d"
proof -
  from assms obtain im d1 d2 d3 d4 u1 u2 u3 u4 where
    lin: "validate_lineage H g h rel restart d = Inr im"
    and run: "run \<notin> rn_id ` set (db_runs d)"
    and nodes: "for_each (\<lambda>n. insert_node (new_node run g (case im of None \<Rightarrow> [] | Some i \<Rightarrow> im_nodes i) n))
        (g_nodes g) (d\<lparr>db_runs := db_runs d @ [new_run H run p g h rel restart im]\<rparr>) = (Inr u1, d1)"
    and init: "initialize H run (g_nodes g) d1 = (Inr u2, d2)"
    and inh: "(case im of None \<Rightarrow> ret () | Some i \<Rightarrow> inherit run i) d2 = (Inr u3, d3)"
    and bud: "run \<notin> bd_run ` set (db_budgets d3)"
    and inh2: "(case im of None \<Rightarrow> ret () | Some i \<Rightarrow> inherit_run run i)
        (d3\<lparr>db_budgets := db_budgets d3 @ [new_budget run budget now]\<rparr>) = (Inr u4, d4)"
    and rest: "same_core d4 d'"
    unfolding create_run_tx_def insert_run_def insert_budget_def
    by (elim inversions) (simp add: same_core_def new_run_def new_budget_def)
  have opt: "op_in same_core (case im of None \<Rightarrow> ret () | Some i \<Rightarrow> f i)"
    if "\<And>i. op_in same_core (f i)" for f
    by (intro core.op_intros that)
  have "same_core d1 d2" by (rule core_InrE [OF core_branches(1) init])
  moreover have "same_core d2 d3" by (rule core_InrE [OF opt [OF core_branches(2)] inh])
  ultimately have "same_core d1 d3" by (rule core.trans)
  moreover have "same_core (d3\<lparr>db_budgets := db_budgets d3 @ [new_budget run budget now]\<rparr>) d4"
    by (rule core_InrE [OF opt [OF core_branches(3)] inh2])
  from this rest
  have "same_core (d3\<lparr>db_budgets := db_budgets d3 @ [new_budget run budget now]\<rparr>) d'" by (rule core.trans)
  moreover note insert_nodes_effect [OF nodes]
  ultimately show ?thesis using lin run bud by (intro that) (auto simp: same_core_def)
qed

section \<open>The invariant\<close>

definition run_ok :: "run_row \<Rightarrow> bool" where
  "run_ok r \<longleftrightarrow> wf_graph (rn_graph r) \<and> rn_contract r = g_contract (rn_graph r) \<and>
     validate_relationship (relationship_of r) = Inr () \<and>
     (\<forall>u \<in> set (rn_unverified r). validate_unverified u = Inr ()) \<and>
     (\<forall>x \<in> set (rn_effects r). validate_external_effect x = Inr ())"

definition runs_ok :: "db \<Rightarrow> bool" where
  "runs_ok d \<longleftrightarrow> distinct (map rn_id (db_runs d)) \<and> distinct (map node_key (db_nodes d)) \<and>
     map bd_run (db_budgets d) = map rn_id (db_runs d) \<and>
     (\<forall>r \<in> set (db_runs d). run_ok r \<and>
        (\<forall>n \<in> set (g_nodes (rn_graph r)). (rn_id r, nd_id n) \<in> node_key ` set (db_nodes d)))"

lemma runs_frame:
  assumes "db_runs d' = db_runs d" and "map node_key (db_nodes d') = map node_key (db_nodes d)"
    and "map bd_run (db_budgets d') = map bd_run (db_budgets d)"
  shows "preserves runs_ok d d'"
proof -
  from assms(2) have "node_key ` set (db_nodes d') = node_key ` set (db_nodes d)"
    by (metis list.set_map)
  with assms show ?thesis by (simp add: preserves_def runs_ok_def)
qed

lemma run_ok_write: "run_identity r' = run_identity r \<Longrightarrow> noted_ok r r' \<Longrightarrow> run_ok r \<Longrightarrow> run_ok r'"
  by (cases r; cases r') (auto simp: run_ok_def run_identity_def noted_ok_def relationship_of_def)

lemma run_identity_graph:
  "run_identity r' = run_identity r \<Longrightarrow> rn_id r' = rn_id r \<and> rn_graph r' = rn_graph r"
  by (cases r; cases r') (simp add: run_identity_def)

lemma runs_write:
  assumes "\<And>r. run_identity (f r) = run_identity r" and "\<And>r. noted_ok r (f r)"
  shows "preserves runs_ok d (update_run run f d)"
proof -
  have id: "rn_id (f r) = rn_id r" and graph: "rn_graph (f r) = rn_graph r" for r
    using run_identity_graph [OF assms(1)] by simp_all
  have "run_ok r \<Longrightarrow> run_ok (f r)" for r by (rule run_ok_write [OF assms])
  then show ?thesis
    by (auto simp: preserves_def runs_ok_def update_run_def change_row_def map_update_where
        set_update_where id graph)
qed

lemma runs_trigger: "op_in (preserves runs_ok) (trigger_external H run n k)"
  by (auto simp: op_in_def trigger_external_def put_trigger_def Let_def op_defs runs_frame
      split: sum.split option.split)

lemma budget_limits_run: "budget_limits a = budget_limits b \<Longrightarrow> bd_run a = bd_run b"
  by (cases a; cases b) (simp add: budget_limits_def)

interpretation runs: starting "preserves runs_ok"
proof (unfold_locales, goal_cases)
  case (2 s t u)
  then show ?case by (auto simp: preserves_def)
next
  case (3 f d run)
  then show ?case by (rule runs_write)
next
  case (4 g d run n)
  then have "\<And>r. node_key (g r) = node_key r" by (metis node_meters_key)
  then show ?case
    by (intro runs_frame) (simp_all add: update_node_def change_row_def map_update_where)
next
  case (18 f d run)
  then have "\<And>b. bd_run (f b) = bd_run b" by (metis budget_limits_run)
  then show ?case
    by (intro runs_frame) (simp_all add: update_budget_def change_row_def map_update_where)
next
  case (21 H run nd k)
  show ?case by (rule runs_trigger)
next
  case (22 nm rv)
  show ?case by (rule op_in_insert; simp add: runs_frame)
next
  case (23 a)
  show ?case
    by (auto simp: op_in_def insert_attempt_def op_defs runs_frame)
next
  case (24 b)
  show ?case
    by (auto simp: op_in_def insert_battempt_def op_defs runs_frame)
qed ((rule runs_frame; simp add: update_bnode_def update_attempt_def update_battempt_def
    update_branch_def update_handle_def enqueue_event_def modify_def add_checkpoint_def
    put_artifact_def put_report_def update_node_def change_row_def map_update_where bump_edge_def
    bump_bedge_def) | simp add: preserves_def)+

text \<open>Creating a run adds a row with everything the invariant asks for.\<close>

lemma runs_create:
  assumes "wf_graph g" and "validate_relationship rel = Inr ()" and "rl_run rel = r"
  shows "ok_in (preserves runs_ok) (create_run_tx H r p g h budget rel restart now)"
proof (rule ok_inI)
  fix d x d'
  assume "create_run_tx H r p g h budget rel restart now d = (Inr x, d')"
  then show "preserves runs_ok d d'"
  proof (rule create_effect)
    fix im :: "run_image option"
    let ?im = "case im of None \<Rightarrow> [] | Some i \<Rightarrow> im_nodes i"
    assume new: "r \<notin> rn_id ` set (db_runs d)"
      and runs: "db_runs d' = db_runs d @ [new_run H r p g h rel restart im]"
      and nodes: "db_nodes d' = db_nodes d @ map (new_node r g ?im) (g_nodes g)"
      and dist: "distinct (map node_key (map (new_node r g ?im) (g_nodes g)))"
      and apart: "node_key ` set (map (new_node r g ?im) (g_nodes g)) \<inter> node_key ` set (db_nodes d) = {}"
      and budgets: "db_budgets d' = db_budgets d @ [new_budget r budget now]"
    define row ns b where "row = new_run H r p g h rel restart im"
      and "ns = map (new_node r g ?im) (g_nodes g)" and "b = new_budget r budget now"
    have "run_ok row"
      using assms by (cases rel) (auto simp: row_def run_ok_def new_run_def relationship_of_def)
    moreover have "rn_id row = r" "rn_graph row = g" "bd_run b = r"
      by (simp_all add: row_def b_def new_run_def new_budget_def)
    moreover have "(r, nd_id n) \<in> node_key ` set ns" if "n \<in> set (g_nodes g)" for n
      using that by (auto simp: ns_def node_key_def new_node_def image_iff split: option.split intro!: bexI)
    moreover have "set (map node_key (db_nodes d)) \<inter> set (map node_key ns) = {}"
      using apart unfolding ns_def set_map by (simp add: Int_commute image_comp)
    moreover note new dist [folded ns_def]
    ultimately show ?thesis
      unfolding preserves_def runs_ok_def runs nodes budgets row_def [symmetric] ns_def [symmetric]
        b_def [symmetric] map_append distinct_append set_append image_Un by auto
  qed
qed

interpretation runs_spend: spending "preserves runs_ok"
  by unfold_locales
    (rule runs_create runs.meter_txs [THEN op_ok] runs.starting_txs [THEN op_ok]; assumption?)+

interpretation runs_db: db_relation "preserves runs_ok"
  by unfold_locales (simp add: runs_frame)

interpretation runs_always: db_invariant runs_ok
  by unfold_locales (simp add: runs_ok_def empty_db_def)

text \<open>What it gives about one run.\<close>

lemma runs_okD:
  assumes "runs_ok d" and "find_run run d = Some r"
  shows "r \<in> set (db_runs d)" and "rn_id r = run" and "run_ok r" and "distinct (map rn_id (db_runs d))"
    and "\<exists>b. find_budget run d = Some b"
    and "n \<in> set (g_nodes (rn_graph r)) \<Longrightarrow> \<exists>row. find_node run (nd_id n) d = Some row"
proof -
  show r: "r \<in> set (db_runs d)" and id: "rn_id r = run"
    using assms(2) by (auto simp: find_run_def lookup_row_def dest: find_SomeD)
  show "run_ok r" and "distinct (map rn_id (db_runs d))"
    using assms(1) r by (auto simp: runs_ok_def)
  have "run \<in> set (map bd_run (db_budgets d))"
    using assms(1) r id by (auto simp: runs_ok_def)
  then show "\<exists>b. find_budget run d = Some b"
    by (metis find_budget_def lookup_row_None list.set_map not_None_eq)
  show "\<exists>row. find_node run (nd_id n) d = Some row" if "n \<in> set (g_nodes (rn_graph r))"
    using assms(1) r id that
    by (metis find_node_def lookup_row_None not_None_eq runs_ok_def)
qed

end
