(* ===== verification/Event_Log.thy ===== *)
theory Event_Log
  imports Journal
begin

text \<open>
  The event log under concurrency and crashes: every transaction only appends new, undelivered
  events to the outbox, so the log stays a prefix of the outbox in every reachable state, each
  event at most once, and a flush completes it.
\<close>

section \<open>Transactions and the outbox\<close>

definition outbox_grows :: "db \<Rightarrow> db \<Rightarrow> bool" where
  "outbox_grows d d' \<longleftrightarrow> (\<exists>es. db_outbox d' = db_outbox d @ map (outbox_entry False) es \<and>
     db_uuid d \<le> db_uuid d' \<and> distinct (map ev_id es) \<and>
     (\<forall>e \<in> set es. \<exists>n. db_uuid d \<le> n \<and> n < db_uuid d' \<and> ev_id e = uuid_str n))"

lemma outbox_frame:
  "db_outbox d' = db_outbox d \<Longrightarrow> db_uuid d \<le> db_uuid d' \<Longrightarrow> outbox_grows d d'"
  by (auto simp: outbox_grows_def)

lemma outbox_grows_trans: "outbox_grows d d' \<Longrightarrow> outbox_grows d' d'' \<Longrightarrow> outbox_grows d d''"
proof -
  assume "outbox_grows d d'" and "outbox_grows d' d''"
  then obtain es fs where
    es: "db_outbox d' = db_outbox d @ map (outbox_entry False) es" "db_uuid d \<le> db_uuid d'"
      "distinct (map ev_id es)"
      "\<And>e. e \<in> set es \<Longrightarrow> \<exists>n. db_uuid d \<le> n \<and> n < db_uuid d' \<and> ev_id e = uuid_str n" and
    fs: "db_outbox d'' = db_outbox d' @ map (outbox_entry False) fs" "db_uuid d' \<le> db_uuid d''"
      "distinct (map ev_id fs)"
      "\<And>e. e \<in> set fs \<Longrightarrow> \<exists>n. db_uuid d' \<le> n \<and> n < db_uuid d'' \<and> ev_id e = uuid_str n"
    unfolding outbox_grows_def by blast
  have "ev_id a \<noteq> ev_id b" if "a \<in> set es" and "b \<in> set fs" for a b
    using es(4) [OF that(1)] fs(4) [OF that(2)] by (auto simp: uuid_str_inj)
  then have "distinct (map ev_id (es @ fs))" using es(3) fs(3) by auto
  moreover have "\<exists>n. db_uuid d \<le> n \<and> n < db_uuid d'' \<and> ev_id e = uuid_str n"
    if "e \<in> set (es @ fs)" for e
  proof (cases "e \<in> set es")
    case True
    with es(4) fs(2) show ?thesis by (meson less_le_trans)
  next
    case False
    with that fs(4) es(2) show ?thesis by (metis Un_iff le_trans set_append)
  qed
  ultimately show ?thesis
    using es(1,2) fs(1,2) unfolding outbox_grows_def by (intro exI [of _ "es @ fs"]) auto
qed

lemma outbox_enqueue: "outbox_grows d (snd (enqueue_event ty run n a p d))"
  unfolding outbox_grows_def enqueue_event_def modify_def
  by (rule exI [where x = "[\<lparr>ev_id = uuid_str (db_uuid d), ev_type = ty, ev_run = run, ev_node = n,
      ev_attempt = a, ev_payload = p\<rparr>]"]) (auto simp: outbox_entry_def)

lemma outbox_appends:
  "op_in outbox_grows (insert_branch br)" "op_in outbox_grows (insert_bnode bn)"
  "op_in outbox_grows (insert_bedge be)" "op_in outbox_grows (insert_run rr)"
  "op_in outbox_grows (insert_node nn)" "op_in outbox_grows (insert_budget bb)"
  "op_in outbox_grows (insert_edge ee)"
  "op_in outbox_grows (insert_or_fail nm reservation_key rv db_reservations
     (\<lambda>t d. d\<lparr>db_reservations := t\<rparr>))"
  unfolding insert_branch_def insert_bnode_def insert_bedge_def insert_run_def insert_node_def
    insert_budget_def insert_edge_def
  by (rule op_in_insert; simp add: outbox_frame)+

lemma outbox_attempts:
  "op_in outbox_grows (insert_attempt a)" "op_in outbox_grows (insert_battempt b)"
  by (auto simp: op_in_def insert_attempt_def insert_battempt_def op_defs outbox_frame)

lemma outbox_trigger: "op_in outbox_grows (trigger_external H run n k)"
  by (auto simp: op_in_def trigger_external_def put_trigger_def Let_def op_defs outbox_frame
      split: sum.split option.split)

interpretation outbox_writes: all_writes outbox_grows
proof (unfold_locales, goal_cases)
  case (2 s t u)
  then show ?case by (rule outbox_grows_trans)
next
  case (10 ty run nd a p d)
  show ?case by (rule outbox_enqueue)
qed ((rule outbox_trigger outbox_appends outbox_attempts |
    simp add: outbox_frame update_run_def update_bnode_def update_attempt_def update_battempt_def
      update_branch_def update_handle_def update_budget_def add_checkpoint_def put_artifact_def
      put_report_def bump_edge_def bump_bedge_def op_in_def inherit_artifact_def update_node_def
      modify_def)+)

section \<open>The invariant of the system\<close>

lemma outbox_grows_ok:
  assumes "outbox_ok w" and "outbox_grows (w_db w) d"
  shows "outbox_ok (w\<lparr>w_db := d\<rparr>)"
proof -
  from assms(1) obtain A B C where s: "outbox_split w A B C" by (auto simp: outbox_ok_def)
  from assms(2) obtain es where
    es: "db_outbox d = db_outbox (w_db w) @ map (outbox_entry False) es"
      "db_uuid (w_db w) \<le> db_uuid d" "distinct (map ev_id es)"
      "\<And>e. e \<in> set es \<Longrightarrow> \<exists>n. db_uuid (w_db w) \<le> n \<and> n < db_uuid d \<and> ev_id e = uuid_str n"
    unfolding outbox_grows_def by blast
  have old: "\<exists>n < db_uuid (w_db w). ev_id e = uuid_str n" if "e \<in> set (A @ B)" for e
    using s that unfolding outbox_split_def by blast
  have "ev_id a \<noteq> ev_id b" if "a \<in> set (A @ B)" and "b \<in> set es" for a b
    using old [OF that(1)] es(4) [OF that(2)] by (auto simp: uuid_str_inj)
  moreover have "distinct (map ev_id (A @ B))" using s by (simp add: outbox_split_def)
  ultimately have dist: "distinct (map ev_id (A @ B @ es))" using es(3) by auto
  have ids: "\<exists>n < db_uuid d. ev_id e = uuid_str n" if "e \<in> set (A @ B @ es)" for e
  proof (cases "e \<in> set es")
    case True
    with es(4) show ?thesis by blast
  next
    case False
    with that old [of e] es(2) show ?thesis by (auto intro: less_le_trans)
  qed
  have "outbox_split (w\<lparr>w_db := d\<rparr>) A (B @ es) C"
    using s es(1) dist ids unfolding outbox_split_def by (auto intro: prefix_prefix)
  then show ?thesis by (auto simp: outbox_ok_def)
qed

lemma outbox_ok_frame:
  "w_db w' = w_db w \<Longrightarrow> w_log w' = w_log w \<Longrightarrow> outbox_ok w \<Longrightarrow> outbox_ok w'"
  by (auto simp: outbox_ok_def outbox_split_def)

lemma outbox_tx:
  assumes "\<And>now. ok_in outbox_grows (m now)"
  shows "steps_in (preserves outbox_ok) (tx m)"
  by (rule steps_tx [where R = outbox_grows]) (auto simp: assms preserves_def intro: outbox_grows_ok)

lemma outbox_reserve:
  assumes "cost > 0"
  shows "steps_in (preserves outbox_ok) (reserve_atomic r k cost nd)"
  unfolding reserve_atomic_def
proof (rule steps_atomic)
  fix w :: "'a world"
  show "preserves outbox_ok w (snd (tx_op (reserve_tx (cached_graph r w) r k cost nd) w))"
    using ok_inD [OF outbox_writes.spend.reserves [OF assms]] unfolding tx_op_def preserves_def
    by (auto intro: outbox_grows_ok split: prod.split sum.split)
qed

lemma outbox_crash: "outbox_ok w \<Longrightarrow> outbox_ok (crash_at n w)"
proof -
  assume "outbox_ok w"
  then obtain A B C where s: "outbox_split w A B C" by (auto simp: outbox_ok_def)
  have "outbox_ok (fold flush_micro (take n (flush_steps w)) w)"
    unfolding flush_steps_eq [OF s] by (rule flush_prefix_ok [OF s])
  then show ?thesis
    unfolding crash_at_def boot_def by (intro flush_world_ok) (rule outbox_ok_frame; simp)
qed

interpretation outbox_runtime: runtime_steps "preserves outbox_ok"
  by unfold_locales
    ((rule outbox_tx outbox_reserve outbox_writes.spend.create outbox_writes.spend.start
        outbox_writes.spend.route outbox_writes.spend.branch_routes outbox_writes.spend.branch_start
        outbox_writes.spend.charges outbox_writes.quiet_txs [THEN op_ok]
        outbox_writes.enqueue_in [THEN op_ok]; assumption?)
     | simp add: preserves_def flush_world_ok outbox_ok_frame [of _ w for w])+

interpretation outbox_relation: system_relation "preserves outbox_ok"
  by unfold_locales (auto simp: preserves_def outbox_crash outbox_ok_frame [of _ w for w])

interpretation outbox_always: system_invariant outbox_ok
proof unfold_locales
  show "outbox_ok (first_world t x)" for t and x :: 'x
    by (auto simp: outbox_ok_def outbox_split_def first_world_def empty_db_def
        intro!: exI [where x = "[]"])
qed

end
