(* ===== verification/Safety.thy ===== *)
theory Safety
  imports Event_Log Budgets Samples
begin

text \<open>
  What holds in every reachable state of the system, whoever calls the runtime and wherever the
  process stops: budgets are not exceeded, the event log is the outbox published in order and
  once, and the journal of a run is never rewritten.
\<close>

section \<open>Reachable samples\<close>

lemma sample_budget_row:
  "find_budget ''r'' (w_db sample_world) = Some (new_budget ''r'' sample_budget 0)"
  by code_simp

lemma sample_budget_in: "new_budget ''r'' sample_budget 0 \<in> set (db_budgets (w_db sample_world))"
  using sample_budget_row find_budget_in by blast

lemma sample_done_report:
  "lookup_row rp_run ''r'' (db_reports (w_db sample_done)) \<noteq> None"
  by code_simp

section \<open>Budgets\<close>

text \<open>
  C1. In every reachable state, for every budget row, the executor calls and the repairs charged
  to the run are within the limits it was created with: whatever the interleaving of scheduler,
  branches, other callers and crashes.
\<close>

theorem calls_and_repairs_bounded:
  assumes "reach E s" and "env_quiet E" and "b \<in> set (db_budgets (w_db (snd s)))"
  shows "0 \<le> bd_calls b \<and> bd_calls b \<le> bd_max_calls b \<and>
    0 \<le> bd_repairs b \<and> bd_repairs b \<le> bd_max_repairs b"
  using budgets_always.world.always [OF assms(1,2)] assms(3)
  by (auto simp: budgets_ok_def budget_row_ok_def)

theorem calls_and_repairs_bounded_witness:
  "0 \<le> bd_calls (new_budget ''r'' sample_budget 0) \<and>
   bd_calls (new_budget ''r'' sample_budget 0) \<le> bd_max_calls (new_budget ''r'' sample_budget 0) \<and>
   0 \<le> bd_repairs (new_budget ''r'' sample_budget 0) \<and>
   bd_repairs (new_budget ''r'' sample_budget 0) \<le> bd_max_repairs (new_budget ''r'' sample_budget 0)"
  by (rule calls_and_repairs_bounded [OF sample_reach sample_quiet]) (simp add: sample_budget_in)

section \<open>The event log\<close>

lemma outbox_split_prefix: "outbox_split w A B C \<Longrightarrow> prefix (w_log w) (events_of (w_db w))"
  by (auto simp: outbox_split_def events_of_def o_def)

lemma outbox_ok_log:
  assumes "outbox_ok w"
  shows "prefix (w_log w) (events_of (w_db w))" and "distinct (map ev_id (events_of (w_db w)))"
    and "w_log (flush_world w) = events_of (w_db w)"
proof -
  from assms obtain A B C where s: "outbox_split w A B C" by (auto simp: outbox_ok_def)
  then show p: "prefix (w_log w) (events_of (w_db w))" by (rule outbox_split_prefix)
  from s show "distinct (map ev_id (events_of (w_db w)))"
    by (simp add: outbox_split_def events_of_def o_def)
  from p show "w_log (flush_world w) = events_of (w_db w)"
    by (auto simp: flush_world_log [OF assms] unlogged_def events_of_def prefix_def)
qed

text \<open>
  C2. In every reachable state the log file holds a prefix of the events that the committed
  transactions queued, in their order, and no event twice.
\<close>

theorem event_log_is_prefix:
  assumes "reach E s" and "env_quiet E"
  shows "prefix (w_log (snd s)) (events_of (w_db (snd s))) \<and> distinct (map ev_id (w_log (snd s)))"
proof -
  note ok = outbox_always.always [OF assms]
  have "distinct (map ev_id (events_of (w_db (snd s))))" by (rule outbox_ok_log(2) [OF ok])
  with outbox_ok_log(1) [OF ok] show ?thesis by (auto simp: prefix_def)
qed

theorem event_log_is_prefix_witness:
  "prefix (w_log sample_world) (events_of (w_db sample_world)) \<and>
   distinct (map ev_id (w_log sample_world))"
  using event_log_is_prefix [OF sample_reach sample_quiet] by simp

lemma events_of_flush: "events_of (w_db (fold flush_micro ss w)) = events_of (w_db w)"
  using flush_fold_frame [of ss w] by (auto simp: events_of_def)

text \<open>
  C3. A process may stop inside a flush, after any number of its file appends and delivery marks;
  the flush of the next process's start completes the log: every queued event is there, once,
  in order.
\<close>

theorem crash_in_flush_recovers_log:
  assumes "reach E s" and "env_quiet E"
  shows "w_log (crash_at n (snd s)) = events_of (w_db (snd s)) \<and>
    distinct (map ev_id (w_log (crash_at n (snd s))))"
proof -
  let ?v = "fold flush_micro (take n (flush_steps (snd s))) (snd s)"
  note ok = outbox_always.always [OF assms]
  obtain A B C where "outbox_split (snd s) A B C" using ok by (auto simp: outbox_ok_def)
  from flush_prefix_ok [OF this, of n] flush_steps_eq [OF this] have "outbox_ok ?v" by simp
  then have "outbox_ok (?v\<lparr>w_graphs := \<lambda>_. None\<rparr>)" by (rule outbox_ok_frame [rotated 2]) simp_all
  from outbox_ok_log(3) [OF this] outbox_ok_log(2) [OF ok] show ?thesis
    by (simp add: crash_at_def boot_def events_of_flush)
qed

theorem crash_in_flush_recovers_log_witness:
  "w_log (crash_at 1 sample_world) = events_of (w_db sample_world) \<and>
   distinct (map ev_id (w_log (crash_at 1 sample_world)))"
  using crash_in_flush_recovers_log [OF sample_reach sample_quiet, of 1] unfolding snd_conv .

section \<open>The journal of a run\<close>

lemma journal_steps:
  assumes "(sys_step E)\<^sup>*\<^sup>* s s'" and "reach E s" and "env_quiet E"
  shows "journal (w_db (snd s)) (w_db (snd s'))"
  using assms(1)
proof (induction rule: rtranclp_induct)
  case base
  then show ?case by (rule journal.refl)
next
  case (step t u)
  have "reach E t" using step.hyps(1) assms(2) by (rule reach_steps)
  from journal_db.lifted.every_step [OF assms(3) this step.hyps(2)] step.IH show ?case
    unfolding on_db_def by (blast intro: journal.trans)
qed

text \<open>
  C4. Nothing the runtime recorded is taken back: between any two reachable states, the runs
  with their graph hash, contract hash and lineage, the attempts, the checkpoints, the control
  intents, the frozen reports and the events only grow at the end.
\<close>

theorem journal_only_grows:
  assumes "reach E s" and "env_quiet E" and "(sys_step E)\<^sup>*\<^sup>* s s'"
  shows "prefix (map run_identity (db_runs (w_db (snd s)))) (map run_identity (db_runs (w_db (snd s')))) \<and>
    prefix (map attempt_identity (db_attempts (w_db (snd s))))
      (map attempt_identity (db_attempts (w_db (snd s')))) \<and>
    prefix (db_checkpoints (w_db (snd s))) (db_checkpoints (w_db (snd s'))) \<and>
    prefix (db_intents (w_db (snd s))) (db_intents (w_db (snd s'))) \<and>
    prefix (db_reports (w_db (snd s))) (db_reports (w_db (snd s'))) \<and>
    prefix (events_of (w_db (snd s))) (events_of (w_db (snd s')))"
  using journal_steps [OF assms(3,1,2)] by (simp add: journal_def)

lemma sample_first_steps:
  "(sys_step sample_env)\<^sup>*\<^sup>* ([], first_world 0 1)
    ([Done (fst (run_thread sample_create (first_world 0 1)))], sample_world)"
proof -
  have "sys_step sample_env ([], first_world 0 1) ([] @ [sample_create], first_world 0 1)"
    unfolding sample_create_def by (intro sys_call call_create sample_args)
  then show ?thesis
    using run_alone [of sample_env sample_create "first_world 0 1"]
    unfolding sample_world_def by (auto intro: converse_rtranclp_into_rtranclp)
qed

theorem journal_only_grows_witness:
  "prefix (db_reports empty_db) (db_reports (w_db sample_world)) \<and>
   prefix (events_of empty_db) (events_of (w_db sample_world))"
  using journal_only_grows [OF reach_first sample_quiet sample_first_steps]
  by (simp add: first_world_def)

lemma lookup_row_prefix: "prefix t t' \<Longrightarrow> lookup_row k x t = Some r \<Longrightarrow> lookup_row k x t' = Some r"
  by (auto simp: prefix_def lookup_row_def)

text \<open>
  C5. A FinalReport, once frozen, is what every later reading of it returns, in this process or in
  a later one.
\<close>

theorem final_report_is_frozen:
  assumes "reach E s" and "env_quiet E" and "(sys_step E)\<^sup>*\<^sup>* s s'"
    and "fst (run_thread (final_report run) (snd s)) = Inr f"
  shows "fst (run_thread (final_report run) (snd s')) = Inr f"
proof -
  from assms(4) obtain r where r: "lookup_row rp_run run (db_reports (w_db (snd s))) = Some r"
    and f: "rp_report r = f"
    by (auto simp: final_report_def split: option.splits)
  have "prefix (db_reports (w_db (snd s))) (db_reports (w_db (snd s')))"
    using journal_steps [OF assms(3,1,2)] by (simp add: journal_def)
  from lookup_row_prefix [OF this r] f show ?thesis by (simp add: final_report_def)
qed

theorem final_report_is_frozen_witness:
  "\<exists>f. fst (run_thread (final_report ''r'') (sample_done\<lparr>w_now := 5\<rparr>)) = Inr f \<and>
     fst (run_thread (final_report ''r'') sample_done) = Inr f"
proof -
  obtain ts where r: "reach sample_env (ts, sample_done)" using sample_done_reach by blast
  obtain f where f: "fst (run_thread (final_report ''r'') sample_done) = Inr f"
    using sample_done_report by (auto simp: final_report_def)
  have "(sys_step sample_env)\<^sup>*\<^sup>* (ts, sample_done) (ts, sample_done\<lparr>w_now := 5\<rparr>)"
    by (rule r_into_rtranclp) (rule sys_tick)
  from final_report_is_frozen [OF r sample_quiet this, of "''r''" f] f show ?thesis by simp
qed

end
