(* ===== verification/Attempts.thy ===== *)
theory Attempts
  imports Effects Samples
begin

text \<open>
  When attempts start and how they are numbered: a new attempt, of a node or of a branch, only on
  a run that is running without a barrier, from a ready node, with the next number; and no two
  attempts of a run share an identifier, whatever the callers.
\<close>

section \<open>Transactions that start nothing\<close>

definition same_attempts :: "db \<Rightarrow> db \<Rightarrow> bool" where
  "same_attempts d d' \<longleftrightarrow>
     map attempt_identity (db_attempts d') = map attempt_identity (db_attempts d) \<and>
     map battempt_identity (db_branch_attempts d') = map battempt_identity (db_branch_attempts d)"

lemma attempts_frame:
  "db_attempts d' = db_attempts d \<Longrightarrow> db_branch_attempts d' = db_branch_attempts d \<Longrightarrow>
    same_attempts d d'"
  by (simp add: same_attempts_def)

lemma same_trigger: "op_in same_attempts (trigger_external H run n k)"
  by (auto simp: op_in_def trigger_external_def put_trigger_def Let_def op_defs attempts_frame
      split: sum.split option.split)

lemma same_appends:
  "op_in same_attempts (insert_branch br)" "op_in same_attempts (insert_bnode bn)"
  "op_in same_attempts (insert_bedge be)" "op_in same_attempts (insert_run rr)"
  "op_in same_attempts (insert_node nn)" "op_in same_attempts (insert_budget bb)"
  "op_in same_attempts (insert_edge ee)"
  "op_in same_attempts (insert_or_fail nm reservation_key rv db_reservations
     (\<lambda>t d. d\<lparr>db_reservations := t\<rparr>))"
  unfolding insert_branch_def insert_bnode_def insert_bedge_def insert_run_def insert_node_def
    insert_budget_def insert_edge_def
  by (rule op_in_insert; simp add: attempts_frame)+

interpretation same_attempts: meter_writes same_attempts
proof (unfold_locales, goal_cases)
  case (2 s t u)
  then show ?case by (simp add: same_attempts_def)
qed ((rule same_trigger same_appends |
    simp add: same_attempts_def update_run_def update_bnode_def update_attempt_def
      update_battempt_def update_branch_def update_handle_def update_budget_def change_row_def
      map_update_where enqueue_event_def modify_def add_checkpoint_def put_artifact_def
      put_report_def bump_edge_def bump_bedge_def op_in_def inherit_artifact_def update_node_def)+)

section \<open>Every new attempt is allowed\<close>

definition attempt_allowed :: "db \<Rightarrow> attempt_row \<Rightarrow> bool" where
  "attempt_allowed d a \<longleftrightarrow>
     (case (find_run (at_run a) d, find_node (at_run a) (at_node a) d) of
        (Some r, Some row) \<Rightarrow> open_run r \<and> nr_status row = NS_Ready \<and> at_number a = nr_count row + 1
      | _ \<Rightarrow> False)"

definition battempt_allowed :: "db \<Rightarrow> branch_attempt_row \<Rightarrow> bool" where
  "battempt_allowed d a \<longleftrightarrow>
     (case (find_run (ba_run a) d, find_bnode (ba_run a) (ba_container a) (ba_branch a) (ba_node a) d) of
        (Some r, Some row) \<Rightarrow> open_run r \<and> bn_status row = NS_Ready \<and>
          ba_number a = bn_count row + 1 \<and> calls_left (ba_run a) d
      | _ \<Rightarrow> False)"

definition new_attempts :: "db \<Rightarrow> db \<Rightarrow> attempt_row list" where
  "new_attempts d d' = drop (length (db_attempts d)) (db_attempts d')"

definition new_battempts :: "db \<Rightarrow> db \<Rightarrow> branch_attempt_row list" where
  "new_battempts d d' = drop (length (db_branch_attempts d)) (db_branch_attempts d')"

definition starts_allowed :: "db \<Rightarrow> db \<Rightarrow> bool" where
  "starts_allowed d d' \<longleftrightarrow> list_all (attempt_allowed d) (new_attempts d d') \<and>
     list_all (battempt_allowed d) (new_battempts d d')"

lemma same_starts: "same_attempts d d' \<Longrightarrow> starts_allowed d d'"
proof -
  assume "same_attempts d d'"
  then have "length (db_attempts d') = length (db_attempts d)"
    and "length (db_branch_attempts d') = length (db_branch_attempts d)"
    unfolding same_attempts_def by (metis length_map)+
  then show ?thesis by (simp add: starts_allowed_def new_attempts_def new_battempts_def)
qed

lemma same_ok: "ok_in same_attempts m \<Longrightarrow> ok_in starts_allowed m"
  by (auto simp: ok_in_def intro: same_starts)

lemmas same_txs = same_attempts.quiet_txs [THEN op_ok, THEN same_ok]
  same_attempts.meter_txs [THEN op_ok, THEN same_ok] same_attempts.create_in [THEN op_ok, THEN same_ok]
  same_attempts.enqueue_in [THEN op_ok, THEN same_ok]

lemma start_allowed: "ok_in starts_allowed (start_attempt_tx H r n now)"
proof (rule ok_inI)
  fix d a d'
  assume "start_attempt_tx H r n now d = (Inr a, d')"
  then show "starts_allowed d d'"
    by (rule start_attempt_effect)
      (simp add: starts_allowed_def new_attempts_def new_battempts_def attempt_allowed_def
        new_attempt_def)
qed

lemma branch_start_allowed: "ok_in starts_allowed (start_branch_attempt_tx H r c b n now)"
proof (rule ok_inI)
  fix d a d'
  assume "start_branch_attempt_tx H r c b n now d = (Inr a, d')"
  then show "starts_allowed d d'"
    by (rule start_branch_attempt_effect)
      (simp add: starts_allowed_def new_attempts_def new_battempts_def battempt_allowed_def
        new_battempt_def)
qed

interpretation starts: db_relation starts_allowed
  by unfold_locales
    (rule same_txs start_allowed branch_start_allowed
      | simp add: starts_allowed_def new_attempts_def new_battempts_def)+

text \<open>
  C6. Every atomic step of the system, whoever takes it: an attempt that it starts is of a run
  which is RUNNING with no barrier at that moment, from a node that is ready, with the next
  number; for a branch also with an executor call left in the budget.
\<close>

theorem attempts_start_only_when_open:
  assumes "reach E s" and "env_quiet E" and "sys_step E s s'"
  shows "list_all (attempt_allowed (w_db (snd s))) (new_attempts (w_db (snd s)) (w_db (snd s'))) \<and>
    list_all (battempt_allowed (w_db (snd s))) (new_battempts (w_db (snd s)) (w_db (snd s')))"
  using starts.lifted.every_step [OF assms(2,1,3)] by (simp add: on_db_def starts_allowed_def)

theorem attempts_start_only_when_open_witness:
  "let d = w_db (snd (go 1 5 sample_pool)); d' = w_db (snd (go 1 6 sample_pool))
   in list_all (attempt_allowed d) (new_attempts d d') \<and> map at_id (new_attempts d d') = [''r:i:1'']"
proof -
  have "sys_step sample_env (go 1 5 sample_pool) (go 1 6 sample_pool)"
    using sys_step_go [of sample_env "go 1 5 sample_pool" 1] go_Suc [of 1 5 sample_pool] by simp
  from attempts_start_only_when_open [OF reach_go [OF sample_pool_reach] sample_quiet this]
  have "list_all (attempt_allowed (w_db (snd (go 1 5 sample_pool))))
     (new_attempts (w_db (snd (go 1 5 sample_pool))) (w_db (snd (go 1 6 sample_pool))))" by simp
  moreover have "map at_id (new_attempts (w_db (snd (go 1 5 sample_pool)))
     (w_db (snd (go 1 6 sample_pool)))) = [''r:i:1'']" by code_simp
  ultimately show ?thesis unfolding Let_def by simp
qed

section \<open>The numbers of the attempts\<close>

text \<open>
  Node ids have no colon, so an attempt's identifier determines its run, node and number. A node's
  count is at least the number of every attempt made from it.
\<close>

definition numbering_ok :: "node_row list \<Rightarrow> attempt_row list \<Rightarrow> bool" where
  "numbering_ok ns as \<longleftrightarrow> distinct (map node_key ns) \<and>
     (\<forall>n \<in> set ns. CHR '':'' \<notin> set (nr_node n)) \<and> distinct (map attempt_key as) \<and>
     (\<forall>a \<in> set as. at_id a = attempt_id (at_run a) (at_node a) (at_number a) \<and>
        (\<exists>n \<in> set ns. node_key n = (at_run a, at_node a) \<and> at_number a \<le> nr_count n))"

lemma node_meters_count: "node_meters a = node_meters b \<Longrightarrow> nr_count a = nr_count b"
  by (cases a; cases b) (simp add: node_meters_def)

definition attempts_ok :: "db \<Rightarrow> bool" where
  "attempts_ok d \<longleftrightarrow> numbering_ok (db_nodes d) (db_attempts d)"

definition node_count :: "node_row \<Rightarrow> (string \<times> string) \<times> int" where
  "node_count n = (node_key n, nr_count n)"

lemma numbering_view:
  "numbering_ok ns as \<longleftrightarrow> distinct (map fst (map node_count ns)) \<and>
     (\<forall>((r, k), c) \<in> set (map node_count ns). CHR '':'' \<notin> set k) \<and>
     distinct (map attempt_key (map attempt_identity as)) \<and>
     (\<forall>a \<in> set (map attempt_identity as).
        at_id a = attempt_id (at_run a) (at_node a) (at_number a) \<and>
        (\<exists>(k, c) \<in> set (map node_count ns). k = (at_run a, at_node a) \<and> at_number a \<le> c))"
  by (simp add: numbering_ok_def node_count_def node_key_def [abs_def] attempt_identity_def
      attempt_key_def [abs_def] comp_def case_prod_beta)

lemma numbering_frame:
  "map node_count (db_nodes d') = map node_count (db_nodes d) \<Longrightarrow>
    map attempt_identity (db_attempts d') = map attempt_identity (db_attempts d) \<Longrightarrow>
    preserves attempts_ok d d'"
  unfolding preserves_def attempts_ok_def numbering_view by simp

lemma attempt_id_inj:
  assumes "attempt_id r n i = attempt_id r' n' i'"
    and "CHR '':'' \<notin> set n" and "CHR '':'' \<notin> set n'"
  shows "r = r' \<and> n = n' \<and> i = i'"
proof -
  have "(r @ '':'' @ n) @ CHR '':'' # int_str i = (r' @ '':'' @ n') @ CHR '':'' # int_str i'"
    using assms(1) by (simp add: attempt_id_def)
  then have "r @ '':'' @ n = r' @ '':'' @ n' \<and> int_str i = int_str i'"
    by (intro append_sep_inj) (auto simp: int_str_no_colon)
  then have "r @ CHR '':'' # n = r' @ CHR '':'' # n'" and "i = i'" by (auto dest: int_str_inj)
  with append_sep_inj [OF assms(2,3)] show ?thesis by blast
qed

lemma numbering_ids:
  assumes "numbering_ok ns as"
  shows "distinct (map at_id as)"
proof -
  have colon: "CHR '':'' \<notin> set (at_node a)" if "a \<in> set as" for a
    using assms that by (force simp: numbering_ok_def node_key_def)
  have "attempt_key a = attempt_key b" if "a \<in> set as" "b \<in> set as" "at_id a = at_id b" for a b
  proof -
    have "attempt_id (at_run a) (at_node a) (at_number a) =
        attempt_id (at_run b) (at_node b) (at_number b)"
      using assms that by (simp add: numbering_ok_def)
    from attempt_id_inj [OF this colon [OF that(1)] colon [OF that(2)]]
    show ?thesis by (simp add: attempt_key_def)
  qed
  moreover have "inj_on attempt_key (set as)"
    using assms by (simp add: numbering_ok_def distinct_map)
  ultimately have "inj_on at_id (set as)" unfolding inj_on_def by blast
  then show ?thesis using assms by (simp add: numbering_ok_def distinct_map)
qed

text \<open>The writes that keep the numbering: all the quiet ones, and those that only add a node.\<close>

lemma numbering_node_write:
  "(\<And>n. node_count (f n) = node_count n) \<Longrightarrow> preserves attempts_ok d (update_node r k f d)"
  by (rule numbering_frame) (simp_all add: update_node_def change_row_def map_update_where)

interpretation numbering: quiet_writes "preserves attempts_ok"
proof (unfold_locales, goal_cases)
  case (2 s t u)
  then show ?case by (auto simp: preserves_def)
next
  case (4 g d run n)
  then show ?case
    by (intro numbering_node_write) (metis node_count_def node_meters_count node_meters_key)
qed (rule numbering_frame; simp add: update_run_def update_bnode_def update_attempt_def
    update_battempt_def update_branch_def update_handle_def enqueue_event_def modify_def
    add_checkpoint_def put_artifact_def put_report_def change_row_def map_update_where)+

lemma numbering_inserts:
  "op_in (preserves attempts_ok) (insert_branch br)" "op_in (preserves attempts_ok) (insert_bnode bn)"
  "op_in (preserves attempts_ok) (insert_bedge be)" "op_in (preserves attempts_ok) (insert_run rr)"
  "op_in (preserves attempts_ok) (insert_budget bb)" "op_in (preserves attempts_ok) (insert_edge ee)"
  unfolding insert_branch_def insert_bnode_def insert_bedge_def insert_run_def insert_budget_def
    insert_edge_def
  by (rule op_in_insert; simp add: numbering_frame)+

lemma numbering_new_node:
  assumes "CHR '':'' \<notin> set (nr_node row)"
  shows "op_in (preserves attempts_ok) (insert_node row)"
  unfolding insert_node_def
  by (rule op_in_insert)
    (use assms in \<open>auto simp: insert_row_Some preserves_def attempts_ok_def numbering_ok_def\<close>)

lemma numbering_inherit: "op_in (preserves attempts_ok) (inherit run im)"
  "op_in (preserves attempts_ok) (inherit_run run im)"
proof -
  show "op_in (preserves attempts_ok) (inherit run im)"
    unfolding inherit_def inherit_branch_def inherit_bnode_def inherit_bedge_def
    by (intro numbering.op_intros numbering_inserts numbering_frame)
      (simp_all add: update_branch_def update_bnode_def)
  show "op_in (preserves attempts_ok) (inherit_run run im)"
    unfolding inherit_run_def inherit_artifact_def
    by (intro numbering.op_intros numbering_inserts) (simp_all add: numbering_frame)
qed

lemma new_node_id: "nr_node (new_node run g im n) = nd_id n"
  by (simp add: new_node_def split: option.split)

lemma wf_graph_node_id:
  "wf_graph g \<Longrightarrow> n \<in> set (g_nodes g) \<Longrightarrow> CHR '':'' \<notin> set (nd_id n)"
  by (rule id_pattern_no_colon, rule validate_node_container(1))
    (auto simp: wf_graph_def wf_node_def wf_leaf_def list_all_iff)

lemma numbering_create:
  "wf_graph g \<Longrightarrow>
    op_in (preserves attempts_ok) (create_run_tx H r p g h budget rel restart now)"
  unfolding create_run_tx_def initialize_def initialize_node_def
  by (intro numbering.quiet_rules numbering_inserts numbering_inherit numbering_new_node)
    (simp add: new_node_id wf_graph_node_id)

lemma numbering_next:
  assumes ok: "numbering_ok ns as" and row: "lookup_row node_key (r, k) ns = Some row"
  shows "numbering_ok (update_where (\<lambda>x. node_key x = (r, k)) (run_node (nr_count row + 1) now) ns)
    (as @ [new_attempt r k (nr_count row + 1)])"
proof -
  let ?f = "run_node (nr_count row + 1) now"
  let ?ns = "update_where (\<lambda>x. node_key x = (r, k)) ?f ns"
  have key: "node_key (?f x) = node_key x" for x by (simp add: run_node_def node_key_def)
  have id: "nr_node (?f x) = nr_node x" and count: "nr_count (?f x) = nr_count row + 1" for x
    by (simp_all add: run_node_def)
  have in_ns: "row \<in> set ns" "node_key row = (r, k)"
    using row by (auto simp: lookup_row_def dest: find_SomeD)
  have only: "x = row" if "x \<in> set ns" "node_key x = (r, k)" for x
    using ok that in_ns by (auto simp: numbering_ok_def intro: distinct_key_eq [of node_key])
  have f_in: "?f row \<in> set ?ns" using in_ns by (auto simp: set_update_where)
  have old: "\<exists>n \<in> set ?ns. node_key n = (at_run a, at_node a) \<and> at_number a \<le> nr_count n"
    if "a \<in> set as" for a
  proof -
    from ok that obtain n where n: "n \<in> set ns" "node_key n = (at_run a, at_node a)"
      "at_number a \<le> nr_count n" unfolding numbering_ok_def by blast
    show ?thesis
    proof (cases "node_key n = (r, k)")
      case True
      with only n have "n = row" by blast
      with n f_in key count show ?thesis by (intro bexI [of _ "?f row"]) auto
    next
      case False
      with n show ?thesis by (intro bexI [of _ n]) (auto simp: set_update_where)
    qed
  qed
  have fresh: "attempt_key (new_attempt r k (nr_count row + 1)) \<notin> attempt_key ` set as"
  proof
    assume "attempt_key (new_attempt r k (nr_count row + 1)) \<in> attempt_key ` set as"
    then obtain a where a: "a \<in> set as" "at_run a = r" "at_node a = k" "at_number a = nr_count row + 1"
      by (auto simp: attempt_key_def new_attempt_def)
    with ok obtain n where "n \<in> set ns" "node_key n = (r, k)" "at_number a \<le> nr_count n"
      unfolding numbering_ok_def by metis
    with only a(4) show False by fastforce
  qed
  have "distinct (map node_key ?ns)"
    using ok by (simp add: numbering_ok_def map_update_where key)
  moreover have "\<forall>n \<in> set ?ns. CHR '':'' \<notin> set (nr_node n)"
    using ok by (auto simp: numbering_ok_def set_update_where id)
  moreover have "at_id (new_attempt r k i) = attempt_id r k i" "at_run (new_attempt r k i) = r"
    "at_node (new_attempt r k i) = k" "at_number (new_attempt r k i) = i" for i
    by (simp_all add: new_attempt_def)
  moreover have "\<exists>n \<in> set ?ns. node_key n = (r, k) \<and> nr_count row + 1 \<le> nr_count n"
    using f_in key in_ns count by (intro bexI [of _ "?f row"]) auto
  ultimately show ?thesis
    using ok old fresh by (simp add: numbering_ok_def)
qed

lemma numbering_start: "ok_in (preserves attempts_ok) (start_attempt_tx H r n now)"
proof (rule ok_inI)
  fix d a d'
  assume "start_attempt_tx H r n now d = (Inr a, d')"
  then show "preserves attempts_ok d d'"
  proof (rule start_attempt_effect)
    fix ra row
    assume row: "find_node r (nd_id n) d = Some row"
      and nodes: "db_nodes d' = db_nodes (update_node r (nd_id n) (run_node (nr_count row + 1) now) d)"
      and atts: "db_attempts d' = db_attempts d @ [new_attempt r (nd_id n) (nr_count row + 1)]"
    have "numbering_ok
        (update_where (\<lambda>x. node_key x = (r, nd_id n)) (run_node (nr_count row + 1) now) (db_nodes d))
        (db_attempts d @ [new_attempt r (nd_id n) (nr_count row + 1)])"
      if "attempts_ok d"
      using that row unfolding find_node_def attempts_ok_def by (rule numbering_next)
    then show "preserves attempts_ok d d'"
      by (simp add: preserves_def attempts_ok_def nodes atts update_node_def change_row_def)
  qed
qed

lemma numbering_routes:
  "op_in (preserves attempts_ok) (route_tx r g e rep now)"
  "op_in (preserves attempts_ok) (branch_route_tx r c b e rep now)"
  "op_in (preserves attempts_ok) (charge_tx r cost nd now)"
  "op_in (preserves attempts_ok) (reserve_tx gr r k cost nd now)"
proof -
  have repair: "preserves attempts_ok d (charge_repair run n d)" for run n d
    by (rule numbering_frame)
      (simp_all add: charge_repair_def update_node_def update_budget_def change_row_def
        map_update_where node_count_def node_key_def)
  have take: "preserves attempts_ok d (take_edge run e' d)" for run e' d
    by (rule numbering_frame)
      (simp_all add: take_edge_def update_node_def update_run_def change_row_def
        map_update_where node_count_def node_key_def ready_node_def)
  have cost: "preserves attempts_ok d (add_node_cost run k c' d)" for run k c' d
    by (rule numbering_frame)
      (simp_all add: add_node_cost_def update_node_def change_row_def
        map_update_where node_count_def node_key_def split: option.split)
  have other: "preserves attempts_ok d (bump_edge run x y d)"
    "preserves attempts_ok d (repair_bnode run c' b' n d)"
    "preserves attempts_ok d (take_bedge run c' b' e' d)"
    "preserves attempts_ok d (update_budget run f d)" for run x y d c' b' n e' f
    by (rule numbering_frame;
        simp add: bump_edge_def repair_bnode_def take_bedge_def update_budget_def update_bnode_def
          update_branch_def bump_bedge_def)+
  have reservation: "op_in (preserves attempts_ok) (insert_or_fail nm reservation_key rv
      db_reservations (\<lambda>t d. d\<lparr>db_reservations := t\<rparr>))" for nm rv
    by (rule op_in_insert; simp add: numbering_frame)
  have same: "preserves attempts_ok d (id d)" for d by (simp add: preserves_def)
  show "op_in (preserves attempts_ok) (route_tx r g e rep now)"
    "op_in (preserves attempts_ok) (branch_route_tx r c b e rep now)"
    "op_in (preserves attempts_ok) (charge_tx r cost nd now)"
    "op_in (preserves attempts_ok) (reserve_tx gr r k cost nd now)"
    unfolding tx_defs
    by (intro numbering.quiet_rules repair take cost other reservation same; simp add: same repair other)+
qed

lemma numbering_branch_start:
  "ok_in (preserves attempts_ok) (start_branch_attempt_tx H r c b n now)"
proof (rule ok_inI)
  fix d a d'
  assume "start_branch_attempt_tx H r c b n now d = (Inr a, d')"
  then show "preserves attempts_ok d d'"
    by (rule start_branch_attempt_effect) (simp add: numbering_frame)
qed

interpretation numbering_spend: spending "preserves attempts_ok"
  by unfold_locales
    (rule numbering_create [THEN op_ok] numbering_start numbering_routes [THEN op_ok]
      numbering_branch_start; assumption?)+

interpretation numbering_db: db_relation "preserves attempts_ok"
  by unfold_locales (simp add: numbering_frame)

interpretation numbering_always: db_invariant attempts_ok
  by unfold_locales (simp add: attempts_ok_def numbering_ok_def empty_db_def)

text \<open>
  C7. In every reachable state, no two attempts share an identifier or a (run, node, number) key;
  each identifier is run, node and number joined by colons; and no attempt has a number above the
  attempt count of its node.
\<close>

theorem attempts_are_numbered:
  assumes "reach E s" and "env_quiet E" and "d = w_db (snd s)"
  shows "distinct (map at_id (db_attempts d)) \<and> distinct (map attempt_key (db_attempts d)) \<and>
    (\<forall>a \<in> set (db_attempts d). at_id a = attempt_id (at_run a) (at_node a) (at_number a) \<and>
      (\<exists>n \<in> set (db_nodes d). node_key n = (at_run a, at_node a) \<and> at_number a \<le> nr_count n))"
proof -
  have "numbering_ok (db_nodes d) (db_attempts d)"
    using numbering_always.world.always [OF assms(1,2)] by (simp add: attempts_ok_def assms(3))
  with numbering_ids [OF this] show ?thesis by (simp add: numbering_ok_def)
qed

theorem attempts_are_numbered_witness:
  "distinct (map at_id (db_attempts (w_db sample_done))) \<and>
   map at_id (db_attempts (w_db sample_done)) = [''r:i:1'', ''r:v:1'', ''r:i:2'', ''r:v:2'']"
proof -
  obtain ts where r: "reach sample_env (ts, sample_done)" using sample_done_reach by blast
  have "map at_id (db_attempts (w_db sample_done)) = [''r:i:1'', ''r:v:1'', ''r:i:2'', ''r:v:2'']"
    by code_simp
  with attempts_are_numbered [OF r sample_quiet refl] show ?thesis unfolding snd_conv by blast
qed

section \<open>When a start succeeds\<close>

lemma numbering_fresh:
  assumes "attempts_ok d" and "find_node r k d = Some row"
  shows "attempt_id r k (nr_count row + 1) \<notin> at_id ` set (db_attempts d)"
    and "(r, k, nr_count row + 1) \<notin> attempt_key ` set (db_attempts d)"
proof -
  have n: "numbering_ok (update_where (\<lambda>x. node_key x = (r, k)) (run_node (nr_count row + 1) 0)
      (db_nodes d)) (db_attempts d @ [new_attempt r k (nr_count row + 1)])"
    using assms unfolding attempts_ok_def find_node_def by (rule numbering_next)
  from numbering_ids [OF n] show "attempt_id r k (nr_count row + 1) \<notin> at_id ` set (db_attempts d)"
    by (simp add: new_attempt_def)
  from n show "(r, k, nr_count row + 1) \<notin> attempt_key ` set (db_attempts d)"
    by (simp add: numbering_ok_def new_attempt_def attempt_key_def)
qed

lemma find_run_frame: "db_runs d' = db_runs d \<Longrightarrow> find_run k d' = find_run k d"
  by (simp add: find_run_def)

lemma checkpoint_Some:
  "find_run run d = Some r \<Longrightarrow> checkpoint run why d = (Inr (), add_checkpoint r why d)"
  by (simp add: checkpoint_def op_defs required_run_def)

text \<open>
  C8. In every reachable state, \<open>_start_attempt\<close> succeeds exactly when its guards hold: the run is
  RUNNING without a barrier, a budget row exists with a call left if the node counts calls, the
  node is ready and its own budget is not reached. The insertion never fails on a duplicate. (For
  a node that is not an external Verifier, whose configuration may make the trigger raise.)
\<close>

theorem start_attempt_succeeds_iff:
  assumes "reach E s" and "env_quiet E" and "d = w_db (snd s)"
    and "\<not> (nd_type n = NT_Verifier \<and> is_external n)"
  shows "(\<exists>a d'. start_attempt_tx H run n now d = (Inr a, d')) \<longleftrightarrow>
    (\<exists>r row. find_run run d = Some r \<and> open_run r \<and> find_budget run d \<noteq> None \<and>
       (counts_call n \<longrightarrow> calls_left run d) \<and> find_node run (nd_id n) d = Some row \<and>
       nr_status row = NS_Ready \<and>
       \<not> node_budget_reached now (nd_budget n) (nr_count row) (nr_first row) (nr_cost row) False True)"
    (is "?ok \<longleftrightarrow> ?guards")
proof
  assume ?ok
  then obtain a d' where "start_attempt_tx H run n now d = (Inr a, d')" by blast
  then show ?guards by (rule start_attempt_effect) blast
next
  assume ?guards
  then obtain r row where g: "find_run run d = Some r" "open_run r" "\<exists>b. find_budget run d = Some b"
    "counts_call n \<longrightarrow> calls_left run d" "find_node run (nd_id n) d = Some row" "nr_status row = NS_Ready"
    "\<not> node_budget_reached now (nd_budget n) (nr_count row) (nr_first row) (nr_cost row) False True"
    by auto
  have ok: "attempts_ok d"
    using numbering_always.world.always [OF assms(1,2)] by (simp add: assms(3))
  have cp: "checkpoint run why d' = (Inr (), add_checkpoint r why d')" if "db_runs d' = db_runs d" for why d'
    using g(1) find_run_frame [OF that] by (simp add: checkpoint_Some)
  from assms(4) have trig: "trigger_external H run n k = ret ()" for k
    by (auto simp: trigger_external_def)
  show ?ok
    using g numbering_fresh [OF ok g(5)]
    unfolding start_attempt_tx_def Let_def insert_attempt_def trig
    by (auto simp: op_defs required_run_def cp enqueue_event_def attempt_key_def)
qed

theorem start_attempt_succeeds_iff_witness:
  "\<exists>a d'. start_attempt_tx sample_host ''r'' (leaf ''i'' NT_Agent) 0 (w_db sample_world) = (Inr a, d')"
proof -
  have guards: "\<exists>r row. find_run ''r'' (w_db sample_world) = Some r \<and> open_run r \<and>
       find_budget ''r'' (w_db sample_world) \<noteq> None \<and>
       (counts_call (leaf ''i'' NT_Agent) \<longrightarrow> calls_left ''r'' (w_db sample_world)) \<and>
       find_node ''r'' (nd_id (leaf ''i'' NT_Agent)) (w_db sample_world) = Some row \<and>
       nr_status row = NS_Ready \<and>
       \<not> node_budget_reached 0 (nd_budget (leaf ''i'' NT_Agent)) (nr_count row) (nr_first row)
         (nr_cost row) False True"
  proof (intro exI conjI)
    show "find_run ''r'' (w_db sample_world) = Some (hd (db_runs (w_db sample_world)))"
      "open_run (hd (db_runs (w_db sample_world)))" "find_budget ''r'' (w_db sample_world) \<noteq> None"
      "counts_call (leaf ''i'' NT_Agent) \<longrightarrow> calls_left ''r'' (w_db sample_world)"
      "find_node ''r'' (nd_id (leaf ''i'' NT_Agent)) (w_db sample_world) =
         Some (hd (db_nodes (w_db sample_world)))"
      "nr_status (hd (db_nodes (w_db sample_world))) = NS_Ready"
      "\<not> node_budget_reached 0 (nd_budget (leaf ''i'' NT_Agent))
         (nr_count (hd (db_nodes (w_db sample_world)))) (nr_first (hd (db_nodes (w_db sample_world))))
         (nr_cost (hd (db_nodes (w_db sample_world)))) False True"
      by code_simp+
  qed
  have leaf: "\<not> (nd_type (leaf ''i'' NT_Agent) = NT_Verifier \<and> is_external (leaf ''i'' NT_Agent))"
    by (simp add: leaf_def)
  show ?thesis
    using start_attempt_succeeds_iff [OF sample_reach sample_quiet refl leaf, of sample_host "''r''" 0]
      guards unfolding snd_conv by blast
qed

end
