(* ===== verification/Ending.thy ===== *)
theory Ending
  imports Run_Rows Safety Attempts
begin

text \<open>
  How a run ends: \<open>_finish\<close> and \<open>_freeze_report\<close> of \<open>runtime/engine.py\<close>. In every reachable state the
  rows of a run pass the validators of what is built from them, so an ended run gets its report,
  with the status, reason and error it ended with.
\<close>

section \<open>Snapshots and reports of a good database\<close>

lemma collect_construct: "\<forall>x \<in> set xs. v x = Inr () \<Longrightarrow> collect (construct v) xs = Inr xs"
  by (induction xs) (simp_all add: construct_ok)

lemma usage_valid: "budget_row_ok b \<Longrightarrow> validate_budget_usage (usage_of_row now b) = Inr ()"
  by (auto simp: budget_row_ok_def validate_budget_usage_def usage_of_row_def split: option.splits)

lemma find_budget_ok: "budgets_ok d \<Longrightarrow> find_budget run d = Some b \<Longrightarrow> budget_row_ok b"
  by (auto simp: budgets_ok_def dest: find_budget_in)

lemma snapshot_of_ok:
  assumes "budgets_ok d" and "runs_ok d" and "find_run run d = Some r"
  obtains s where "snapshot_of run now d = Inr s" and "sn_run s = run" and "sn_status s = rn_status r"
    and "sn_relationship s = relationship_of r"
proof -
  from runs_okD [OF assms(2,3)] obtain b where b: "find_budget run d = Some b"
    and rel: "validate_relationship (relationship_of r) = Inr ()" by (auto simp: run_ok_def)
  have bud: "validate_budget (budget_of_row b) = Inr ()"
    using find_budget_ok [OF assms(1) b] by (simp add: budget_row_ok_def)
  have req: "required_run run d = Inr r" using assms(3) by simp
  have "\<exists>s. snapshot_of run now d = Inr s \<and> sn_run s = run \<and> sn_status s = rn_status r \<and>
      sn_relationship s = relationship_of r"
    unfolding snapshot_of_def req bind_sum_simps
    by (simp add: b construct_ok bud rel usage_valid [OF find_budget_ok [OF assms(1) b]])
  then show ?thesis using that by blast
qed

text \<open>The ways a run may end, as the validator of the report has them.\<close>

definition ending_ok :: "terminal_status \<Rightarrow> terminal_reason \<Rightarrow> error option \<Rightarrow> bool" where
  "ending_ok status reason err \<longleftrightarrow> reason \<in> set (allowed_reasons status) \<and>
     (status = TS_Error \<longleftrightarrow> err \<noteq> None) \<and>
     (case err of None \<Rightarrow> True | Some e \<Rightarrow> validate_error e = Inr ())"

definition evidence_ok :: "string \<Rightarrow> db \<Rightarrow> bool" where
  "evidence_ok run d \<longleftrightarrow>
     (\<forall>m \<in> set (verifier_artifacts run d). validate_artifact (artifact_of_row m) = Inr ())"

lemma final_report_of_ok:
  assumes run: "find_run run d = Some r" and ok: "run_ok r" and ev: "evidence_ok run d"
    and status: "rn_status r = rs_of_ts status" "sn_status s = rs_of_ts status"
    and reason: "rn_reason r = Some reason" and ending: "ending_ok status reason (rn_error r)"
  obtains f where "final_report_of run s now d = Inr f" and "fr_status f = status"
    and "fr_reason f = reason" and "fr_error f = rn_error r"
    and "fr_relationship f = sn_relationship s" and "fr_contract f = rn_contract r"
    and "fr_unverified f = rn_unverified r" and "fr_effects f = rn_effects r"
proof -
  have contract: "validate_contract_ref (rn_contract r) = Inr ()"
    using ok by (simp add: run_ok_def wf_graph_def)
  have evidence: "collect (\<lambda>m. construct validate_artifact (artifact_of_row m)) (verifier_artifacts run d)
      = Inr (map artifact_of_row (verifier_artifacts run d))"
    using ev by (intro collect_Inr) (simp add: construct_def evidence_ok_def)
  have unverified: "collect (construct validate_unverified) (rn_unverified r) = Inr (rn_unverified r)"
    and effects: "collect (construct validate_external_effect) (rn_effects r) = Inr (rn_effects r)"
    using ok by (simp_all add: collect_construct run_ok_def)
  have err: "(case rn_error r of None \<Rightarrow> Inr None
      | Some e \<Rightarrow> bind_sum (construct validate_error e) (\<lambda>e. Inr (Some e))) = Inr (rn_error r)"
    using ending by (auto simp: ending_ok_def construct_def split: option.split)
  have req: "required_run run d = Inr r" using run by simp
  have "\<exists>f. final_report_of run s now d = Inr f \<and> fr_status f = status \<and> fr_reason f = reason \<and>
      fr_error f = rn_error r \<and> fr_relationship f = sn_relationship s \<and>
      fr_contract f = rn_contract r \<and> fr_unverified f = rn_unverified r \<and> fr_effects f = rn_effects r"
    using ending unfolding final_report_of_def req bind_sum_simps evidence ending_ok_def
    by (simp add: construct_ok contract status reason unverified effects err)
      (auto simp: validate_final_report_def)
  then show ?thesis using that by blast
qed

section \<open>Finishing\<close>

lemma required_run_found: "find_run run d = Some r \<Longrightarrow> required_run run d = Inr r"
  by simp

lemma find_run_update:
  assumes "find_run run d = Some r" and "\<And>x. rn_id (f x) = rn_id x"
  shows "find_run run (update_run run f d) = Some (f r)"
  using assms lookup_change_row [of rn_id f run run] by (simp add: find_run_def update_run_def)

lemma end_run_id [simp]: "rn_id (end_run status reason err r) = rn_id r"
  by (simp add: end_run_def)

definition ended_db :: "string \<Rightarrow> terminal_status \<Rightarrow> terminal_reason \<Rightarrow> error option \<Rightarrow> run_row \<Rightarrow> db \<Rightarrow> db" where
  "ended_db run status reason err r d =
     with_event ''run.finished'' run None None
       [(''status'', JStr (ts_value status)), (''reason'', JStr (tr_value reason))]
       (add_checkpoint (end_run status reason err r) ''terminal''
         (update_run run (end_run status reason err) d))"

lemma finish_tx_ends:
  assumes "find_run run d = Some r" and "\<not> terminal (rn_status r)"
  shows "finish_tx run status reason err now d = (Inr True, ended_db run status reason err r d)"
proof -
  have "find_run run (update_run run (end_run status reason err) d) = Some (end_run status reason err r)"
    using assms(1) by (rule find_run_update) simp
  from checkpoint_Some [OF this] show ?thesis
    unfolding finish_tx_def ended_db_def bind_op_def seq_op_def ask_def required_run_found [OF assms(1)]
    by (simp add: assms(2) modify_def with_event_def ret_def enqueue_event_def)
qed

lemma ended_db_frames [simp]:
  "db_runs (ended_db run status reason err r d) = change_row rn_id run (end_run status reason err) (db_runs d)"
  "db_nodes (ended_db run status reason err r d) = db_nodes d"
  "db_budgets (ended_db run status reason err r d) = db_budgets d"
  "db_reports (ended_db run status reason err r d) = db_reports d"
  "db_artifacts (ended_db run status reason err r d) = db_artifacts d"
  "db_run_artifacts (ended_db run status reason err r d) = db_run_artifacts d"
  "db_attempts (ended_db run status reason err r d) = db_attempts d"
  "db_branches (ended_db run status reason err r d) = db_branches d"
  by (simp_all add: ended_db_def update_run_def)

lemma evidence_frame:
  "db_artifacts d' = db_artifacts d \<Longrightarrow> db_run_artifacts d' = db_run_artifacts d \<Longrightarrow>
    evidence_ok run d' = evidence_ok run d"
  by (simp add: evidence_ok_def verifier_artifacts_def)

text \<open>A report row that is not there yet is put as it is.\<close>

lemma put_report_new:
  assumes "lookup_row rp_run run (db_reports d) = None"
  shows "lookup_row rp_run run (db_reports (put_report run f d)) = Some \<lparr>rp_run = run, rp_report = f\<rparr>"
proof -
  from assms have "run \<notin> rp_run ` set (db_reports d)" by (simp add: lookup_row_None)
  then show ?thesis
    using assms by (simp add: put_report_def insert_or_ignore_def) (simp add: lookup_row_def)
qed

lemma finish_run:
  assumes ok: "budgets_ok (w_db w)" "runs_ok (w_db w)" "outbox_ok w"
    and run: "find_run run (w_db w) = Some r" "\<not> terminal (rn_status r)"
    and ending: "ending_ok status reason err" and ev: "evidence_ok run (w_db w)"
    and none: "lookup_row rp_run run (db_reports (w_db w)) = None"
  obtains w' f where "run_thread (finish run status reason err) w = (Inr (), w')"
    and "find_run run (w_db w') = Some (end_run status reason err r)"
    and "lookup_row rp_run run (db_reports (w_db w')) = Some \<lparr>rp_run = run, rp_report = f\<rparr>"
    and "fr_status f = status" and "fr_reason f = reason" and "fr_error f = err"
    and "fr_relationship f = relationship_of r" and "fr_contract f = rn_contract r"
    and "fr_unverified f = rn_unverified r" and "fr_effects f = rn_effects r"
    and "w_log w' = events_of (w_db w')" and "db_branches (w_db w') = db_branches (w_db w)"
proof -
  define d1 where "d1 = ended_db run status reason err r (w_db w)"
  define r1 where "r1 = end_run status reason err r"
  have tx1: "finish_tx run status reason err (w_now w) (w_db w) = (Inr True, d1)"
    unfolding d1_def using run by (rule finish_tx_ends)
  have run1: "find_run run d1 = Some r1"
    using find_run_update [OF run(1)] by (simp add: d1_def r1_def find_run_def update_run_def)
  have pres: "preserves runs_ok (w_db w) d1" "preserves budgets_ok (w_db w) d1"
    using op_inD [OF runs.quiet_txs(3)] op_inD [OF budgets.quiet_txs(3)] tx1 by (metis snd_conv)+
  then have ok1: "budgets_ok d1" "runs_ok d1" using ok by (auto simp: preserves_def)
  obtain s where s: "snapshot_of run (w_now w) d1 = Inr s" "sn_status s = rn_status r1"
    "sn_relationship s = relationship_of r1"
    using snapshot_of_ok [OF ok1 run1] by metis
  have r1: "rn_status r1 = rs_of_ts status" "rn_reason r1 = Some reason" "rn_error r1 = err"
    "rn_contract r1 = rn_contract r" "relationship_of r1 = relationship_of r"
    "rn_unverified r1 = rn_unverified r" "rn_effects r1 = rn_effects r"
    by (simp_all add: r1_def end_run_def relationship_of_def)
  have ev1: "evidence_ok run d1" 
    using ev evidence_frame [of d1 "w_db w" run] by (simp add: d1_def)
  obtain f where f: "final_report_of run s (w_now w) d1 = Inr f" "fr_status f = status"
    "fr_reason f = reason" "fr_error f = rn_error r1" "fr_relationship f = sn_relationship s"
    "fr_contract f = rn_contract r1" "fr_unverified f = rn_unverified r1" "fr_effects f = rn_effects r1"
    by (rule final_report_of_ok [OF run1 runs_okD(3) [OF ok1(2) run1] ev1 r1(1)
          s(2) [unfolded r1(1)] r1(2) ending [folded r1(3)]])
  define d2 where "d2 = with_event ''report.final.frozen'' run None None [] (put_report run f d1)"
  have tx2: "store_report run f (w_now w) d1 = (Inr (), d2)"
    by (simp add: store_report_def d2_def with_event_def seq_op_def modify_def enqueue_event_def)
  have log: "outbox_ok (w\<lparr>w_db := d1\<rparr>)"
    using op_inD [OF outbox_writes.quiet_txs(3)] tx1 ok(3) by (metis outbox_grows_ok snd_conv)
  then have log2: "outbox_ok (w\<lparr>w_db := d2\<rparr>)"
    using op_inD [OF outbox_writes.quiet_txs(4) [where r = run and f = f and now = "w_now w"], of d1] tx2
      outbox_grows_ok [of "w\<lparr>w_db := d1\<rparr>" d2] by simp
  define w' where "w' = flush_world (w\<lparr>w_db := d2\<rparr>)"
  obtain t where t: "w_db w' = d2\<lparr>db_outbox := t\<rparr>" "map ob_event t = map ob_event (db_outbox d2)"
    using flush_world_db [of "w\<lparr>w_db := d2\<rparr>"] by (auto simp: w'_def)
  have "run_thread (finish run status reason err) w = (Inr (), w')"
    unfolding finish_def freeze_report_def snapshot_def
    by (simp add: bind_op_def seq_op_def tx_op_def tx1 s(1) f(1) tx2 modify_def w'_def)
  moreover have "find_run run (w_db w') = Some r1"
    using run1 by (simp add: t d2_def find_run_def put_report_def)
  moreover have "lookup_row rp_run run (db_reports (w_db w')) = Some \<lparr>rp_run = run, rp_report = f\<rparr>"
    using put_report_new [of run d1 f] none by (simp add: t d2_def) (simp add: d1_def)
  moreover have "w_log w' = events_of (w_db w')"
  proof -
    have "w_log w' = events_of d2" using outbox_ok_log(3) [OF log2] by (simp add: w'_def)
    then show ?thesis by (simp add: t events_of_def)
  qed
  moreover have "db_branches (w_db w') = db_branches (w_db w)"
    by (simp add: t d2_def put_report_def) (simp add: d1_def)
  ultimately show ?thesis using that f s(3) r1 unfolding r1_def by metis
qed



text \<open>
  When no edge leaves a node, the status, reason and error with which the run is ended belong
  together, for every result that passed its validators and is not pending.
\<close>

theorem end_of_route_is_consistent:
  assumes "validate_result r = Inr ()" and "\<not> is_pending r"
    and "case payload_error r of None \<Rightarrow> True | Some e \<Rightarrow> validate_error e = Inr ()"
    and "end_of_route r = (status, reason, err)"
  shows "ending_ok status reason err"
proof (cases r)
  case (RExec x)
  with assms show ?thesis
    by (cases "xr_status x")
      (auto simp: end_of_route_def ending_ok_def validate_exec_result_def split: option.splits)
next
  case (RVer v)
  with assms show ?thesis
    by (cases "vr_status v")
      (auto simp: end_of_route_def ending_ok_def validate_ver_result_def is_pending_def
        split: option.splits)
next
  case (RPar p)
  with assms show ?thesis
    by (cases "pr_status p")
      (auto simp: end_of_route_def ending_ok_def validate_par_result_def error_branch_def
        split: option.splits)
qed

theorem end_of_route_is_consistent_witness:
  "end_of_route (RVer (ver_result_of VS_Failed ''bad''\<lparr>vr_failures := [''x'']\<rparr>)) =
     (TS_Failed, TR_AcceptanceFailed, None) \<and> ending_ok TS_Failed TR_AcceptanceFailed None"
proof -
  let ?r = "RVer (ver_result_of VS_Failed ''bad''\<lparr>vr_failures := [''x'']\<rparr>)"
  have v: "validate_result ?r = Inr ()" and p: "\<not> is_pending ?r"
    and e: "case payload_error ?r of None \<Rightarrow> True | Some e \<Rightarrow> validate_error e = Inr ()"
    and r: "end_of_route ?r = (TS_Failed, TR_AcceptanceFailed, None)"
    by (simp_all add: validate_ver_result_def ver_result_of_def is_pending_def end_of_route_def)
  from end_of_route_is_consistent [OF v p e r] r show ?thesis by blast
qed

text \<open>
  A run that has ended is left alone: finishing and cancelling it change nothing at all, an
  attempt cannot start and cost cannot be charged, both refused without a trace.
\<close>

theorem ended_run_is_left_alone:
  assumes "find_run run (w_db w) = Some r" and "terminal (rn_status r)"
  shows "run_thread (finish run status reason err) w = (Inr (), w) \<and>
    run_thread (cancel E run) w = (Inr (), w) \<and>
    run_thread (start_attempt E run n) w =
      (Inl (RuntimeInvariantError ''execution barrier forbids a new attempt''), w) \<and>
    run_thread (tx (charge_tx run c k)) w =
      (Inl (RuntimeInvariantError ''cannot charge cost to a terminal Run''), w)"
proof -
  have "rn_status r \<noteq> RS_Running" using assms(2) by (cases "rn_status r") simp_all
  then show ?thesis
    using assms unfolding finish_def cancel_def start_attempt_def run_bind run_seq run_tx tx_op_def
      finish_tx_def cancel_run_tx_def start_attempt_tx_def charge_tx_def
    by (simp add: bind_op_def seq_op_def ask_def required_run_found ret_def guard_def open_run_def)
qed

theorem ended_run_is_left_alone_witness:
  "run_thread (cancel sample_env ''r'') sample_done = (Inr (), sample_done)"
proof -
  have "map_option rn_status (find_run ''r'' (w_db sample_done)) = Some RS_Succeeded" by code_simp
  then obtain r where "find_run ''r'' (w_db sample_done) = Some r" and "terminal (rn_status r)" by auto
  from ended_run_is_left_alone [OF this, of _ _ _ sample_env "leaf ''i'' NT_Agent" 1 None]
  show ?thesis by blast
qed

end
