(* ===== verification/Control_Laws.thy ===== *)
theory Control_Laws
  imports Ending
begin

text \<open>
  Control intents (\<open>GraphRuntime.control\<close> of \<open>runtime/engine.py\<close>): read-only queries change no run,
  state changes follow the transition table of the run's status and its barrier, an intent is
  applied at most once, and a barrier stops every new effect.
\<close>

section \<open>The abstract machine\<close>

text \<open>
  Status and barrier of a run as a control intent may move them: the documented transitions, and
  no others.
\<close>

inductive control_step ::
  "change_action \<Rightarrow> run_status \<times> barrier option \<Rightarrow> run_status \<times> barrier option \<Rightarrow> bool" where
  pause: "control_step CA_Pause (RS_Running, b) (RS_PauseRequested, Some B_Pause)"
| resume: "control_step CA_Resume (RS_Paused, b) (RS_Running, None)"
| interrupt: "s \<in> {RS_Running, RS_PauseRequested, RS_Paused} \<Longrightarrow>
    control_step CA_Interrupt (s, b) (RS_Quiescing, Some B_Interrupt)"

inductive_cases control_stepE: "control_step a s t"

definition control_view :: "run_row \<Rightarrow> run_status \<times> barrier option" where
  "control_view r = (rn_status r, rn_barrier r)"

lemma control_change_step:
  "control_change a (rn_status r) = Some (s, b, e) \<Longrightarrow> control_step a (control_view r) (s, b)"
  by (auto simp: control_change_def control_view_def intro: control_step.intros split: if_splits)

lemma control_change_none:
  "control_change a (rn_status r) = None \<Longrightarrow> \<not> control_step a (control_view r) t"
  by (auto simp: control_change_def control_view_def elim!: control_stepE split: if_splits)

lemma set_status_id [simp]: "rn_id (set_status s b r) = rn_id r"
  by (simp add: set_status_def)

lemma find_update_other: "k \<noteq> run \<Longrightarrow> (\<And>r. rn_id (f r) = rn_id r) \<Longrightarrow>
    find_run k (update_run run f d) = find_run k d"
  using lookup_change_row [of rn_id f k run] by (simp add: find_run_def update_run_def)

text \<open>The row an intent leaves, and the row of the intent.\<close>

definition controlled :: "change_action \<Rightarrow> run_row \<Rightarrow> run_row" where
  "controlled a r = (case control_change a (rn_status r) of
     None \<Rightarrow> r | Some (s, b, e) \<Rightarrow> set_status s b r)"

definition applied :: "change_action \<Rightarrow> run_row \<Rightarrow> bool" where
  "applied a r \<longleftrightarrow> control_change a (rn_status r) \<noteq> None"

lemma control_tx_result:
  assumes run: "find_run (in_run i) d = Some r" and new: "in_id i \<notin> ir_id ` set (db_intents d)"
  obtains d' msg where "control_tx i now d = (Inr (applied (ci_action i) r, msg), d')"
    and "find_run (in_run i) d' = Some (controlled (ci_action i) r)"
    and "\<And>k. k \<noteq> in_run i \<Longrightarrow> find_run k d' = find_run k d"
    and "db_intents d' = db_intents d @ [\<lparr>ir_id = in_id i, ir_run = in_run i, ir_intent = ChangeIntent i,
      ir_outcome = (if applied (ci_action i) r then CO_Applied else CO_Rejected), ir_created = now\<rparr>]"
    and "db_nodes d' = db_nodes d" and "db_attempts d' = db_attempts d" and "db_budgets d' = db_budgets d"
proof -
  let ?row = "\<lambda>out. \<lparr>ir_id = in_id i, ir_run = in_run i, ir_intent = ChangeIntent i,
      ir_outcome = out, ir_created = now\<rparr>"
  have ins: "insert_intent (ChangeIntent i) out now d0 =
      (Inr (), d0\<lparr>db_intents := db_intents d0 @ [?row out]\<rparr>)" if "db_intents d0 = db_intents d" for out d0
    using new that by (simp add: insert_intent_def insert_or_fail_def insert_row_def)
  show ?thesis
  proof (cases "control_change (ci_action i) (rn_status r)")
    case None
    have "checkpoint (in_run i) why (d\<lparr>db_intents := t\<rparr>) = (Inr (), add_checkpoint r why (d\<lparr>db_intents := t\<rparr>))"
      for why t using run by (intro checkpoint_Some) (simp add: find_run_def)
    with None run that show ?thesis
      by (simp add: control_tx_def Let_def bind_op_def seq_op_def ask_def required_run_found ins
          applied_def controlled_def ret_def enqueue_event_def modify_def find_run_def add_checkpoint_def)
  next
    case (Some x)
    obtain s b e where x: "x = (s, b, e)" by (cases x)
    let ?d = "update_run (in_run i) (set_status s b) d"
    have upd: "find_run (in_run i) ?d = Some (set_status s b r)"
      using run by (intro find_run_update) simp_all
    then have cp: "checkpoint (in_run i) why (?d\<lparr>db_intents := t\<rparr>) =
        (Inr (), add_checkpoint (set_status s b r) why (?d\<lparr>db_intents := t\<rparr>))" for why t
      by (intro checkpoint_Some) (simp add: find_run_def)
    have int: "db_intents ?d = db_intents d" "db_nodes ?d = db_nodes d" "db_attempts ?d = db_attempts d"
      "db_budgets ?d = db_budgets d"
      by (simp_all add: update_run_def)
    have other: "k \<noteq> in_run i \<Longrightarrow> find_run k ?d = find_run k d" for k
      by (rule find_update_other) simp_all
    have eq: "control_tx i now d = (Inr (applied (ci_action i) r, ''control applied''),
        with_event e (in_run i) None None [(''intent_id'', JStr (in_id i))]
          (add_checkpoint (set_status s b r) (''control:'' @ ca_value (ci_action i))
            (?d\<lparr>db_intents := db_intents d @ [?row CO_Applied]\<rparr>)))"
      using Some run
      by (simp add: control_tx_def Let_def bind_op_def seq_op_def ask_def required_run_found x
          ins [OF int(1)] int modify_def cp with_event_def enqueue_event_def ret_def applied_def)
    show ?thesis
      using Some x upd other int
      by (intro that [OF eq]) (simp_all add: applied_def controlled_def find_run_def)
  qed
qed


definition sample_base :: "string \<Rightarrow> string \<Rightarrow> intent_base" where
  "sample_base k run = \<lparr>in_id = k, in_message = ''m'', in_actor = ''a'', in_project = ''p'',
     in_run = run, in_reason = \<lparr>cn_code = RC_HumanRequest, cn_detail = None\<rparr>, in_confidence = 1,
     in_confirm = False\<rparr>"

definition sample_change :: "string \<Rightarrow> change_action \<Rightarrow> change_intent" where
  "sample_change k a = intent_base.extend (sample_base k ''r'')
     \<lparr>ci_action = a, ci_urgency = UR_Normal, ci_revision = None, ci_restart = None\<rparr>"

definition sample_query :: "string \<Rightarrow> query_intent" where
  "sample_query k = intent_base.extend (sample_base k ''r'') \<lparr>qi_action = QA_Progress\<rparr>"

lemma sample_intent_simps [simp]:
  "in_id (sample_change k a) = k" "in_run (sample_change k a) = ''r''" "ci_action (sample_change k a) = a"
  "in_id (sample_query k) = k" "in_run (sample_query k) = ''r''"
  by (simp_all add: sample_change_def sample_query_def sample_base_def intent_base.defs)

lemma sample_row: "\<exists>r. find_run ''r'' (w_db sample_world) = Some r \<and> rn_status r = RS_Running \<and> rn_barrier r = None"
proof -
  have "map_option (\<lambda>r. (rn_status r, rn_barrier r)) (find_run ''r'' (w_db sample_world)) = Some (RS_Running, None)"
    by code_simp
  then show ?thesis by auto
qed

lemma sample_no_intents: "db_intents (w_db sample_world) = []"
  by code_simp


section \<open>Pausing and resuming\<close>

lemma set_status_twice [simp]: "set_status s b (set_status s' b' r) = set_status s b r"
  by (simp add: set_status_def)

lemma pause_tx_result:
  assumes "find_run run d = Some r" and "rn_status r \<noteq> RS_Paused"
  obtains d' where "pause_tx run now d = (Inr True, d')"
    and "find_run run d' = Some (r\<lparr>rn_status := RS_Paused\<rparr>)" and "db_intents d' = db_intents d"
proof -
  have upd: "find_run run (update_run run (\<lambda>r. r\<lparr>rn_status := RS_Paused\<rparr>) d) = Some (r\<lparr>rn_status := RS_Paused\<rparr>)"
    using assms(1) by (intro find_run_update) simp_all
  have "pause_tx run now d = (Inr True, with_event ''run.paused'' run None None []
      (add_checkpoint (r\<lparr>rn_status := RS_Paused\<rparr>) ''paused'' (update_run run (\<lambda>r. r\<lparr>rn_status := RS_Paused\<rparr>) d)))"
    using assms checkpoint_Some [OF upd]
    by (simp add: pause_tx_def bind_op_def seq_op_def ask_def required_run_found modify_def
        with_event_def enqueue_event_def ret_def)
  from that [OF this] upd show ?thesis by (simp add: find_run_def update_run_def)
qed

text \<open>
  Pause, the safe point, resume: for two fresh intents on a running run without a barrier, the
  run is paused in between, and at the end its row is, in every column, what it was before.
\<close>

theorem pause_resume_roundtrip:
  assumes "find_run run d = Some r" and "rn_status r = RS_Running" and "rn_barrier r = None"
    and "ci_action p = CA_Pause" and "in_run p = run" and "in_id p \<notin> ir_id ` set (db_intents d)"
    and "ci_action q = CA_Resume" and "in_run q = run" and "in_id q \<notin> ir_id ` set (db_intents d)"
    and "in_id p \<noteq> in_id q"
  shows "\<exists>m1 d1 d2 m2 d3. control_tx p t1 d = (Inr (True, m1), d1) \<and>
    pause_tx run t2 d1 = (Inr True, d2) \<and>
    map_option rn_status (find_run run d2) = Some RS_Paused \<and>
    control_tx q t3 d2 = (Inr (True, m2), d3) \<and> find_run run d3 = Some r"
proof -
  obtain d1 m1 where c1: "control_tx p t1 d = (Inr (True, m1), d1)"
    and r1: "find_run run d1 = Some (set_status RS_PauseRequested (Some B_Pause) r)"
    and i1: "in_id q \<notin> ir_id ` set (db_intents d1)"
  proof (rule control_tx_result [of p d r t1])
    fix d1 m1
    assume "control_tx p t1 d = (Inr (applied (ci_action p) r, m1), d1)"
      and "find_run (in_run p) d1 = Some (controlled (ci_action p) r)"
      and "db_intents d1 = db_intents d @ [\<lparr>ir_id = in_id p, ir_run = in_run p, ir_intent = ChangeIntent p,
        ir_outcome = (if applied (ci_action p) r then CO_Applied else CO_Rejected), ir_created = t1\<rparr>]"
    with assms that show ?thesis by (simp add: applied_def controlled_def control_change_def)
  qed (use assms in auto)
  obtain d2 where c2: "pause_tx run t2 d1 = (Inr True, d2)"
    and r2: "find_run run d2 = Some (set_status RS_Paused (Some B_Pause) r)"
    and i2: "in_id q \<notin> ir_id ` set (db_intents d2)"
    by (rule pause_tx_result [OF r1, of t2]) (use i1 that in \<open>auto simp: set_status_def\<close>)
  have r3: "set_status RS_Running None r = r"
    using assms(2,3) by (simp add: set_status_def)
  obtain d3 m2 where "control_tx q t3 d2 = (Inr (True, m2), d3)" and "find_run run d3 = Some r"
  proof (rule control_tx_result [of q d2 "set_status RS_Paused (Some B_Pause) r" t3])
    fix d3 m2
    assume "control_tx q t3 d2 = (Inr (applied (ci_action q) (set_status RS_Paused (Some B_Pause) r), m2), d3)"
      and "find_run (in_run q) d3 = Some (controlled (ci_action q) (set_status RS_Paused (Some B_Pause) r))"
    with assms r3 that show ?thesis
      by (simp add: applied_def controlled_def control_change_def)
        (simp add: set_status_def)
  qed (use assms r2 i2 in auto)
  with c1 c2 r2 show ?thesis by (auto simp: set_status_def)
qed

theorem pause_resume_roundtrip_witness:
  "\<exists>r m1 d1 d2 m2 d3. find_run ''r'' (w_db sample_world) = Some r \<and>
    control_tx (sample_change ''p'' CA_Pause) 1 (w_db sample_world) = (Inr (True, m1), d1) \<and>
    pause_tx ''r'' 2 d1 = (Inr True, d2) \<and>
    control_tx (sample_change ''q'' CA_Resume) 3 d2 = (Inr (True, m2), d3) \<and> find_run ''r'' d3 = Some r"
proof -
  obtain r where r: "find_run ''r'' (w_db sample_world) = Some r" "rn_status r = RS_Running" "rn_barrier r = None"
    using sample_row by blast
  from pause_resume_roundtrip [OF r, of "sample_change ''p'' CA_Pause" "sample_change ''q'' CA_Resume" 1 2 3]
    r(1) sample_no_intents show ?thesis by auto
qed

section \<open>An intent is recorded once\<close>

lemma duplicate_intent_tx:
  assumes "find_run (in_run i) d = Some r" and "in_id i \<in> ir_id ` set (db_intents d)"
  shows "fst (control_tx i now d) = Inl (IntegrityError ''control_intents'')"
proof -
  have ins: "insert_intent (ChangeIntent i) out now d0 = (Inl (IntegrityError ''control_intents''), d0)"
    if "db_intents d0 = db_intents d" for out d0
    using assms(2) that by (simp add: insert_intent_def insert_or_fail_def insert_row_def)
  show ?thesis
    using assms(1) unfolding control_tx_def Let_def
    by (simp add: bind_op_def seq_op_def ask_def required_run_found modify_def ins update_run_def
        split: option.split)
qed

text \<open>
  A state-change intent that was recorded before is refused when it is submitted again, and
  the second submission leaves no trace: no second transition, no event, no row.
\<close>

theorem repeated_intent_is_refused:
  assumes "find_run (in_run i) (w_db w) = Some r" and "in_id i \<in> ir_id ` set (db_intents (w_db w))"
  shows "run_thread (control E (ChangeIntent i)) w = (Inl (IntegrityError ''control_intents''), w)"
proof -
  obtain d' where "control_tx i (w_now w) (w_db w) = (Inl (IntegrityError ''control_intents''), d')"
    using duplicate_intent_tx [OF assms, of "w_now w"] by (metis prod.collapse)
  then show ?thesis
    by (simp add: control_def control_state_def Let_def bind_op_def tx_op_def)
qed

definition sample_paused :: "nat world" where
  "sample_paused = snd (run_thread (control sample_env (ChangeIntent (sample_change ''k'' CA_Pause))) sample_world)"

theorem repeated_intent_is_refused_witness:
  "run_thread (control sample_env (ChangeIntent (sample_change ''k'' CA_Pause))) sample_paused =
     (Inl (IntegrityError ''control_intents''), sample_paused)"
proof -
  have paused: "map_option rn_status (find_run ''r'' (w_db sample_paused)) = Some RS_PauseRequested"
    and ids: "map ir_id (db_intents (w_db sample_paused)) = [''k'']" by code_simp+
  from paused obtain r where r: "find_run ''r'' (w_db sample_paused) = Some r" by auto
  have "''k'' \<in> set (map ir_id (db_intents (w_db sample_paused)))" unfolding ids by simp
  with r show ?thesis by (intro repeated_intent_is_refused) simp_all
qed

section \<open>Queries\<close>

definition same_runs :: "db \<Rightarrow> db \<Rightarrow> bool" where
  "same_runs d d' \<longleftrightarrow> db_runs d' = db_runs d \<and> db_nodes d' = db_nodes d \<and>
     db_attempts d' = db_attempts d \<and> db_edges d' = db_edges d \<and> db_budgets d' = db_budgets d \<and>
     db_branches d' = db_branches d \<and> db_reports d' = db_reports d \<and>
     db_checkpoints d' = db_checkpoints d \<and> db_handles d' = db_handles d"

lemma snapshot_frame: "same_runs d d' \<Longrightarrow> snapshot_of run now d' = snapshot_of run now d"
  by (cases "lookup_row bd_run run (db_budgets d)")
    (simp_all add: same_runs_def snapshot_of_def required_run_def find_run_def find_budget_def)

lemma record_control_frame:
  "record_control_tx q now d = (x, d') \<Longrightarrow> same_runs d d'"
  by (auto simp: record_control_tx_def insert_intent_def insert_or_fail_def op_defs enqueue_event_def
      same_runs_def split: option.splits)

lemma flush_same_runs: "same_runs (w_db w) (w_db (flush_world w))"
  using flush_world_db [of w] by (auto simp: same_runs_def)

lemma query_frame:
  "same_runs (w_db w) (w_db (snd (run_thread (control_query q) w))) \<and>
   w_now (snd (run_thread (control_query q) w)) = w_now w"
proof -
  have refl: "same_runs d d" for d by (simp add: same_runs_def)
  have trans: "same_runs d d' \<Longrightarrow> same_runs d' d'' \<Longrightarrow> same_runs d d''" for d d' d''
    by (simp add: same_runs_def)
  obtain x d where t: "record_control_tx q (w_now w) (w_db w) = (x, d)" by fastforce
  note same = record_control_frame [OF t]
  have "same_runs (w_db w) (w_db (flush_world (w\<lparr>w_db := d\<rparr>)))"
    using same flush_same_runs [of "w\<lparr>w_db := d\<rparr>"] by (auto intro: trans)
  with same refl t show ?thesis
    unfolding control_query_def snapshot_def read_status_def
    by (auto simp: bind_op_def seq_op_def tx_op_def lift_sum_def modify_def ret_def
        split: sum.splits)
qed

text \<open>
  A read-only query, whatever it returns, leaves the snapshot of every run as it was, and with
  it the execution fingerprint; it reports no change of state.
\<close>

theorem query_keeps_fingerprint:
  "(case run_thread (control E (QueryIntent q)) w of (res, w') \<Rightarrow>
     fst (run_thread (snapshot run) w') = fst (run_thread (snapshot run) w) \<and>
     map_sum id execution_fingerprint (fst (run_thread (snapshot run) w')) =
       map_sum id execution_fingerprint (fst (run_thread (snapshot run) w)) \<and>
     (case res of Inl e \<Rightarrow> True | Inr a \<Rightarrow> ac_changed a = False \<and> ac_intent a = in_id q))"
proof -
  obtain res w' where r: "run_thread (control_query q) w = (res, w')" by fastforce
  have "same_runs (w_db w) (w_db w')" "w_now w' = w_now w" using query_frame [of w q] r by auto
  then have s: "fst (run_thread (snapshot run) w') = fst (run_thread (snapshot run) w)"
    by (simp add: snapshot_def snapshot_frame)
  have "ac_changed a = False \<and> ac_intent a = in_id q" if "res = Inr a" for a
    using r that unfolding control_query_def
    by (auto simp: lift_sum_def elim!: bind_op_InrE seq_op_InrE ret_InrE)
  with s r show ?thesis by (simp add: control_def split: sum.split)
qed

end
