(* ===== verification/Stopping.thy ===== *)
theory Stopping
  imports Control_Laws
begin

text \<open>
  What stops a run: a barrier refuses every new effect; an interrupt, an exhausted budget, a
  cancellation and an uncertain recovery each end the run within one step of the scheduler or one
  call, with the FinalReport frozen.
\<close>

section \<open>Barriers\<close>

text \<open>
  C16. While a run has a barrier, no attempt of a node or of a branch starts, no route is taken, no
  new cost is reserved and the guard before side effects raises; each of these leaves the database
  exactly as it was.
\<close>

theorem barrier_stops_effects:
  assumes "find_run run (w_db w) = Some r" and "rn_barrier r \<noteq> None"
    and "lookup_row reservation_key (run, k) (db_reservations (w_db w)) = None"
  shows "start_attempt_tx H run n now (w_db w) =
      (Inl (RuntimeInvariantError ''execution barrier forbids a new attempt''), w_db w) \<and>
    start_branch_attempt_tx H run c b n now (w_db w) =
      (Inl (RuntimeInvariantError ''execution barrier forbids a parallel branch attempt''), w_db w) \<and>
    route_tx run g e repair now (w_db w) = (Inr None, w_db w) \<and>
    branch_route_tx run c b e repair now (w_db w) = (Inr None, w_db w) \<and>
    reserve_tx gr run k cost nd now (w_db w) = (Inr (False, False), w_db w) \<and>
    run_thread (require_open run effect) w =
      (Inl (RuntimeErr (''persisted Run barrier forbids '' @ effect)), w)"
proof -
  have "\<not> open_run r" using assms(2) by (simp add: open_run_def)
  then show ?thesis
    using assms
    by (auto simp add: start_attempt_tx_def start_branch_attempt_tx_def route_tx_def branch_route_tx_def
        reserve_tx_def require_open_def guard_is_open_def op_defs required_run_found)
qed

theorem barrier_stops_effects_witness:
  "run_thread (require_open ''r'' ''delivery'') sample_paused =
     (Inl (RuntimeErr ''persisted Run barrier forbids delivery''), sample_paused)"
proof -
  have "map_option rn_barrier (find_run ''r'' (w_db sample_paused)) = Some (Some B_Pause)"
    and none: "lookup_row reservation_key (''r'', ''x'') (db_reservations (w_db sample_paused)) = None"
    by code_simp+
  then obtain r where "find_run ''r'' (w_db sample_paused) = Some r" and "rn_barrier r \<noteq> None" by auto
  from barrier_stops_effects [OF this none, of sample_host "leaf ''i'' NT_Agent" 0 "''c''" "''b''" sample_graph
      sample_edge False "Inr sample_graph" 1 None "''delivery''"]
  show ?thesis by simp
qed

section \<open>Branch rows have names\<close>

definition branches_named :: "db \<Rightarrow> bool" where
  "branches_named d \<longleftrightarrow> (\<forall>b \<in> set (db_branches d). bh_branch b \<noteq> [])"

lemma named_frame:
  "map branch_identity (db_branches d') = map branch_identity (db_branches d) \<Longrightarrow>
    preserves branches_named d d'"
proof -
  assume "map branch_identity (db_branches d') = map branch_identity (db_branches d)"
  then have "map bh_branch (map branch_identity (db_branches d')) =
      map bh_branch (map branch_identity (db_branches d))" by simp
  then have "bh_branch ` set (db_branches d') = bh_branch ` set (db_branches d)"
    by (simp add: branch_identity_def comp_def flip: set_map)
  then show ?thesis by (auto simp: preserves_def branches_named_def) (metis image_iff)
qed

lemma named_frames: "db_branches d' = db_branches d \<Longrightarrow> preserves branches_named d d'"
  by (rule named_frame) simp

lemma named_trigger: "op_in (preserves branches_named) (trigger_external H run n k)"
  by (auto simp: op_in_def trigger_external_def put_trigger_def Let_def op_defs named_frames
      split: sum.split option.split)

lemma named_inserts:
  "op_in (preserves branches_named) (insert_bnode bn)" "op_in (preserves branches_named) (insert_bedge be)"
  "op_in (preserves branches_named) (insert_run rr)" "op_in (preserves branches_named) (insert_node nn)"
  "op_in (preserves branches_named) (insert_budget bb)" "op_in (preserves branches_named) (insert_edge ee)"
  "op_in (preserves branches_named) (insert_or_fail nm reservation_key rv db_reservations
     (\<lambda>t d. d\<lparr>db_reservations := t\<rparr>))"
  "op_in (preserves branches_named) (insert_attempt aa)"
  "op_in (preserves branches_named) (insert_battempt ba)"
  unfolding insert_bnode_def insert_bedge_def insert_run_def insert_node_def insert_budget_def
    insert_edge_def
  by ((rule op_in_insert; simp add: named_frames) |
      auto simp: op_in_def insert_attempt_def insert_battempt_def op_defs named_frames)+

interpretation named: starting "preserves branches_named"
proof (unfold_locales, goal_cases)
  case (2 s t u)
  then show ?case by (auto simp: preserves_def)
qed ((rule named_trigger named_inserts) | rule named_frame; simp add: update_run_def update_node_def
    update_bnode_def update_attempt_def update_battempt_def update_branch_def update_handle_def
    update_budget_def enqueue_event_def modify_def add_checkpoint_def put_artifact_def
    put_report_def change_row_def map_update_where bump_edge_def bump_bedge_def)+

lemma named_branch:
  "pb_id b \<noteq> [] \<Longrightarrow> op_in (preserves branches_named) (insert_branch (new_branch H run c i b))"
  unfolding insert_branch_def
  by (rule op_in_insert)
    (auto simp: insert_row_Some preserves_def branches_named_def new_branch_def)

lemma container_branches_named:
  assumes "wf_node n" and "container_branches n = Inr bs" and "b \<in> set bs"
  shows "pb_id b \<noteq> []"
  using assms
  by (auto simp: container_branches_def wf_node_def wf_parallel_def validate_parallel_iff
      id_pattern_nonempty split: if_splits option.splits)

lemma named_initialize:
  assumes "\<And>n. n \<in> set ns \<Longrightarrow> wf_node n"
  shows "op_in (preserves branches_named) (initialize H run ns)"
proof -
  have "op_in (preserves branches_named) (initialize_node H run n)" if n: "n \<in> set ns" for n
  proof (cases "container_branches n")
    case (Inl e)
    then show ?thesis
      by (simp add: initialize_node_def op_in_def bind_op_def lift_sum_def preserves_def)
  next
    case (Inr bs)
    have "op_in (preserves branches_named) (for_each (\<lambda>(i, b). seq_op (insert_branch (new_branch H run (nd_id n) i b))
       (for_each (\<lambda>m. insert_bnode (new_bnode run (nd_id n) b m)) (sb_nodes (pb_graph b)))) (enumerate 0 bs))"
      using container_branches_named [OF assms [OF n] Inr]
      by (intro named.op_intros named_branch named_inserts) (auto simp: enumerate_eq_zip dest: set_zip_rightD)
    with Inr show ?thesis
      by (simp add: initialize_node_def op_in_def bind_op_def lift_sum_def)
  qed
  then show ?thesis unfolding initialize_def by (intro named.op_intros)
qed

lemma named_inherit: "op_in (preserves branches_named) (inherit run im)"
  "op_in (preserves branches_named) (inherit_run run im)"
  unfolding inherit_def inherit_branch_def inherit_bnode_def inherit_bedge_def inherit_run_def
    inherit_artifact_def
  by (intro named.op_intros named_inserts named.branch_write named_frames;
      simp add: update_bnode_def branch_identity_def)+

lemma named_create:
  "wf_graph g \<Longrightarrow>
    op_in (preserves branches_named) (create_run_tx H r p g h budget rel restart now)"
  unfolding create_run_tx_def
  by (intro named.quiet_rules named_inserts named_inherit named_initialize)
    (auto simp: wf_graph_def list_all_iff)

interpretation named_spend: spending "preserves branches_named"
  by unfold_locales (rule named_create [THEN op_ok] named.meter_txs [THEN op_ok] named.starting_txs [THEN op_ok];
      assumption?)+

interpretation named_db: db_relation "preserves branches_named"
  by unfold_locales (simp add: named_frames)

interpretation named_always: db_invariant branches_named
  by unfold_locales (simp add: branches_named_def empty_db_def)

section \<open>Cancelling branches\<close>

text \<open>Everything but the branch rows, the checkpoints and the identifier counter.\<close>

definition same_rest :: "db \<Rightarrow> db \<Rightarrow> bool" where
  "same_rest d d' \<longleftrightarrow> db_runs d' = db_runs d \<and> db_nodes d' = db_nodes d \<and>
     db_budgets d' = db_budgets d \<and> db_attempts d' = db_attempts d \<and>
     db_reports d' = db_reports d \<and> db_handles d' = db_handles d \<and>
     db_artifacts d' = db_artifacts d \<and> db_run_artifacts d' = db_run_artifacts d"

definition branches_later :: "db \<Rightarrow> db \<Rightarrow> bool" where
  "branches_later d d' \<longleftrightarrow> (\<forall>b' \<in> set (db_branches d'). \<exists>b \<in> set (db_branches d).
     branch_key b' = branch_key b \<and> (b' = b \<or> bh_status b' = BH_Ended BS_Cancelled))"

lemma branches_later_refl: "db_branches d' = db_branches d \<Longrightarrow> branches_later d d'"
  by (auto simp: branches_later_def)

lemma branches_later_trans: "branches_later d d' \<Longrightarrow> branches_later d' d'' \<Longrightarrow> branches_later d d''"
  unfolding branches_later_def by metis

lemma cancelled_not_cancellable [simp]: "\<not> cancellable act (BH_Ended s)"
  by (simp add: cancellable_def)

lemma cancel_branch_result:
  assumes "bh_branch row \<noteq> []"
  obtains d' where "cancel_branch act why row d = (Inr (), d')" and "same_rest d d'"
    and "branches_later d d'"
    and "\<And>b'. b' \<in> set (db_branches d') \<Longrightarrow> branch_key b' = branch_key row \<Longrightarrow>
      \<not> cancellable act (bh_status b')"
proof -
  let ?r = "cancelled_branch (bh_branch row) why"
  have "validate_branch_result ?r = Inr ()"
    using assms by (simp add: validate_branch_result_def cancelled_branch_def error_branch_def)
  then have c: "construct validate_branch_result ?r = Inr ?r" by (rule construct_ok)
  let ?f = "\<lambda>b. if cancellable act (bh_status b)
      then b\<lparr>bh_status := BH_Ended BS_Cancelled, bh_result := Some ?r\<rparr> else b"
  let ?d = "update_branch (bh_run row) (bh_container row) (bh_branch row) ?f d"
  have "cancel_branch act why row d = (Inr (), ?d)"
    by (simp add: cancel_branch_def bind_op_def lift_sum_def modify_def c)
  moreover have "same_rest d ?d" by (simp add: same_rest_def update_branch_def)
  moreover have key: "branch_key (b\<lparr>bh_status := st, bh_result := res\<rparr>) = branch_key b" for b st res
    by (simp add: branch_key_def)
  have "branches_later d ?d"
    by (auto simp: branches_later_def update_branch_def change_row_def set_update_where key)
      (metis)
  moreover have "\<not> cancellable act (bh_status b')"
    if "b' \<in> set (db_branches ?d)" and "branch_key b' = branch_key row" for b'
    using that by (auto simp: update_branch_def change_row_def set_update_where branch_key_def)
  ultimately show ?thesis by (rule that)
qed

lemma cancel_rows_result:
  assumes "\<And>row. row \<in> set rows \<Longrightarrow> bh_branch row \<noteq> []"
  shows "\<exists>d'. for_each (cancel_branch act why) rows d = (Inr (), d') \<and> same_rest d d' \<and>
    branches_later d d' \<and> (\<forall>b' \<in> set (db_branches d'). branch_key b' \<in> branch_key ` set rows \<longrightarrow>
      \<not> cancellable act (bh_status b'))"
  using assms
proof (induction rows arbitrary: d)
  case Nil
  then show ?case by (simp add: ret_def same_rest_def branches_later_refl)
next
  case (Cons row rows)
  have "bh_branch row \<noteq> []" using Cons.prems by simp
  then show ?case
  proof (rule cancel_branch_result [of row act why d])
    fix d1
    assume c: "cancel_branch act why row d = (Inr (), d1)" and s: "same_rest d d1"
      and l: "branches_later d d1"
      and n: "\<And>b'. b' \<in> set (db_branches d1) \<Longrightarrow> branch_key b' = branch_key row \<Longrightarrow>
        \<not> cancellable act (bh_status b')"
    obtain d' where d': "for_each (cancel_branch act why) rows d1 = (Inr (), d')" "same_rest d1 d'"
      "branches_later d1 d'" "\<forall>b' \<in> set (db_branches d'). branch_key b' \<in> branch_key ` set rows \<longrightarrow>
        \<not> cancellable act (bh_status b')"
      using Cons.IH [of d1] Cons.prems by auto
    have "\<not> cancellable act (bh_status b')" if "b' \<in> set (db_branches d')" "branch_key b' = branch_key row" for b'
      using d'(3) that n unfolding branches_later_def by (metis cancelled_not_cancellable)
    with c s l d' show ?thesis
      by (auto simp: seq_op_def same_rest_def intro: branches_later_trans)
  qed
qed

lemma cancel_branches_result:
  assumes "branches_named d" and "find_run run d = Some r"
  obtains d' where "cancel_branches_tx run why act now d = (Inr (), d')" and "same_rest d d'"
    and "\<And>b. b \<in> set (db_branches d') \<Longrightarrow> bh_run b = run \<Longrightarrow> \<not> cancellable act (bh_status b)"
proof -
  let ?rows = "filter (\<lambda>b. bh_run b = run \<and> cancellable act (bh_status b)) (db_branches d)"
  have "\<And>row. row \<in> set ?rows \<Longrightarrow> bh_branch row \<noteq> []" using assms(1) by (simp add: branches_named_def)
  from cancel_rows_result [of ?rows act why d, OF this] obtain d1 where
    d1: "for_each (cancel_branch act why) ?rows d = (Inr (), d1)" "same_rest d d1" "branches_later d d1"
    and none: "\<And>b'. b' \<in> set (db_branches d1) \<Longrightarrow> branch_key b' \<in> branch_key ` set ?rows \<Longrightarrow>
      \<not> cancellable act (bh_status b')" by blast
  have quiet: "\<not> cancellable act (bh_status b')" if b': "b' \<in> set (db_branches d1)" "bh_run b' = run" for b'
  proof -
    from d1(3) b'(1) obtain b where b: "b \<in> set (db_branches d)" "branch_key b' = branch_key b"
      "b' = b \<or> bh_status b' = BH_Ended BS_Cancelled" unfolding branches_later_def by blast
    show ?thesis
    proof
      assume c: "cancellable act (bh_status b')"
      with b have "b' = b" by auto
      with b b' c have "b \<in> set ?rows" by simp
      with none [OF b'(1)] b(2) c show False by blast
    qed
  qed
  let ?d = "if ?rows = [] then d1 else add_checkpoint r (''parallel_'' @ why @ ''_barrier'') d1"
  have "find_run run d1 = Some r" using d1(2) assms(2) by (simp add: same_rest_def find_run_def)
  from checkpoint_Some [OF this] have tx:
    "cancel_branches_tx run why act now d = (Inr (), ?d)"
    by (auto simp: cancel_branches_tx_def bind_op_def gets_def seq_op_def d1(1) ret_def)
  show ?thesis
  proof (rule that [OF tx])
    show "same_rest d ?d" using d1(2) by (simp add: same_rest_def)
    show "\<not> cancellable act (bh_status b)" if "b \<in> set (db_branches ?d)" "bh_run b = run" for b
      using that quiet [of b] by (simp split: if_splits)
  qed
qed

text \<open>A run that its scheduler can end: what an ending needs of the world.\<close>

definition endable :: "string \<Rightarrow> run_row \<Rightarrow> 'x world \<Rightarrow> bool" where
  "endable run r w \<longleftrightarrow> find_run run (w_db w) = Some r \<and> \<not> terminal (rn_status r) \<and>
     evidence_ok run (w_db w) \<and> lookup_row rp_run run (db_reports (w_db w)) = None"

definition sound :: "'x world \<Rightarrow> bool" where
  "sound w \<longleftrightarrow> budgets_ok (w_db w) \<and> runs_ok (w_db w) \<and> outbox_ok w \<and> branches_named (w_db w)"

lemma reach_sound: "reach E s \<Longrightarrow> env_quiet E \<Longrightarrow> sound (snd s)"
  by (simp add: sound_def budgets_always.world.always runs_always.world.always
      outbox_always.always named_always.world.always)

text \<open>How a run has ended: its status, and a report of the same status and reason.\<close>

definition ended :: "string \<Rightarrow> terminal_status \<Rightarrow> terminal_reason \<Rightarrow> error option \<Rightarrow> 'x world \<Rightarrow> bool" where
  "ended run status reason err w \<longleftrightarrow>
     (\<exists>r row. find_run run (w_db w) = Some r \<and> rn_status r = rs_of_ts status \<and> rn_barrier r = None \<and>
        lookup_row rp_run run (db_reports (w_db w)) = Some row \<and>
        fr_status (rp_report row) = status \<and> fr_reason (rp_report row) = reason \<and>
        fr_error (rp_report row) = err \<and> w_log w = events_of (w_db w))"

lemma finish_ended:
  assumes "sound w" and "endable run r w" and "ending_ok status reason err"
  obtains w' where "run_thread (finish run status reason err) w = (Inr (), w')"
    and "ended run status reason err w'" and "db_branches (w_db w') = db_branches (w_db w)"
proof (rule finish_run [of w run r status reason err])
  fix w' f
  assume "run_thread (finish run status reason err) w = (Inr (), w')"
    and "find_run run (w_db w') = Some (end_run status reason err r)"
    and "lookup_row rp_run run (db_reports (w_db w')) = Some \<lparr>rp_run = run, rp_report = f\<rparr>"
    and "fr_status f = status" "fr_reason f = reason" "fr_error f = err"
    and "w_log w' = events_of (w_db w')" and "db_branches (w_db w') = db_branches (w_db w)"
  note f = this
  from f(2-7) have "ended run status reason err w'" by (simp add: ended_def) (simp add: end_run_def)
  from that [OF f(1) this f(8)] show ?thesis .
qed (use assms in \<open>auto simp: sound_def endable_def\<close>)

section \<open>Interrupting and running out of budget\<close>

lemma cancel_incomplete_world:
  assumes "sound w" and "find_run run (w_db w) = Some r"
  obtains d' where "run_thread (cancel_incomplete run why) w = (Inr (), w\<lparr>w_db := d'\<rparr>)"
    and "sound (w\<lparr>w_db := d'\<rparr>)" and "same_rest (w_db w) d'"
    and "\<And>b. b \<in> set (db_branches d') \<Longrightarrow> bh_run b = run \<Longrightarrow> branch_ended (bh_status b)"
proof (rule cancel_branches_result [of "w_db w" run r why True "w_now w"])
  fix d'
  assume tx: "cancel_branches_tx run why True (w_now w) (w_db w) = (Inr (), d')"
    and same: "same_rest (w_db w) d'"
    and none: "\<And>b. b \<in> set (db_branches d') \<Longrightarrow> bh_run b = run \<Longrightarrow> \<not> cancellable True (bh_status b)"
  have d': "d' = snd (cancel_branches_tx run why True (w_now w) (w_db w))" by (simp add: tx)
  have "sound (w\<lparr>w_db := d'\<rparr>)"
    using assms(1) op_inD [OF budgets.quiet_txs(7)] op_inD [OF runs.quiet_txs(7)]
      op_inD [OF named.quiet_txs(7)] outbox_grows_ok [OF _ op_inD [OF outbox_writes.quiet_txs(7)], of w]
    unfolding d' by (simp add: sound_def preserves_def)
  moreover have "branch_ended (bh_status b)" if "b \<in> set (db_branches d')" "bh_run b = run" for b
    using none [OF that] by (cases "bh_status b") (simp_all add: cancellable_def branch_ended_def)
  ultimately show ?thesis
    using tx same by (intro that) (simp_all add: cancel_incomplete_def tx_op_def)
qed (use assms in \<open>auto simp: sound_def\<close>)

lemma endable_rest:
  "endable run r w \<Longrightarrow> same_rest (w_db w) d \<Longrightarrow> endable run r (w\<lparr>w_db := d\<rparr>)"
  by (simp add: endable_def same_rest_def find_run_def evidence_ok_def verifier_artifacts_def)

lemma ending_simps [simp]:
  "ending_ok TS_Interrupted TR_HumanInterrupted None" "ending_ok TS_Failed TR_BudgetExhausted None"
  "ending_ok TS_Cancelled TR_HumanCancelled None"
  by (simp_all add: ending_ok_def)

lemma loop_returns:
  "run_thread (run_iteration E run g) w = (Inr (Returned s), w') \<Longrightarrow>
    run_thread (run_loop (Suc n) E run g None k) w = (Inr (Some s), w')"
  by (simp add: bind_op_def return_t_def)

text \<open>
  When an interrupt is pending, the next iteration of the scheduler is its last, in every
  reachable state: it cancels the branches, ends the run as INTERRUPTED and freezes the report.
  Whatever the fuel, the loop returns that status.
\<close>

theorem interrupt_ends_run:
  assumes "reach E s" and "env_quiet E" and "w = snd s" and "endable run r w"
    and "rn_barrier r = Some B_Interrupt" and "rn_status r = RS_Quiescing"
  shows "\<exists>w'. run_thread (run_loop (Suc n) E run g None k) w = (Inr (Some RS_Interrupted), w') \<and>
    ended run TS_Interrupted TR_HumanInterrupted None w'"
proof -
  note sound = reach_sound [OF assms(1,2), folded assms(3)]
  have run: "find_run run (w_db w) = Some r" using assms(4) by (simp add: endable_def)
  obtain d where c: "run_thread (cancel_incomplete run ''interrupt'') w = (Inr (), w\<lparr>w_db := d\<rparr>)"
    and ok: "sound (w\<lparr>w_db := d\<rparr>)" and same: "same_rest (w_db w) d"
    using cancel_incomplete_world [OF sound run] by metis
  obtain w' where f: "run_thread (finish run TS_Interrupted TR_HumanInterrupted None) (w\<lparr>w_db := d\<rparr>) =
      (Inr (), w')" and e: "ended run TS_Interrupted TR_HumanInterrupted None w'"
    using finish_ended [OF ok endable_rest [OF assms(4) same] ending_simps(1)] by metis
  have "run_thread (run_iteration E run g) w = (Inr (Returned RS_Interrupted), w')"
    unfolding run_iteration_def read_status_def read_barrier_def run_bind run_reading end_with_def
    using run assms(5,6) c f
    by (simp add: bind_op_def seq_op_def run_status_of_def barrier_of_def required_run_found ret_def)
  from loop_returns [OF this] e show ?thesis by blast
qed

definition sample_interrupt :: "(nat world, unit) thread" where
  "sample_interrupt = map_t (\<lambda>_. ()) (control sample_env (ChangeIntent (sample_change ''k'' CA_Interrupt)))"

definition sample_interrupted :: "nat world" where
  "sample_interrupted = snd (run_thread sample_interrupt sample_world)"

lemma sample_interrupted_facts:
  "\<exists>ts. reach sample_env (ts, sample_interrupted)"
  "map_option (\<lambda>r. (rn_status r, rn_barrier r)) (find_run ''r'' (w_db sample_interrupted)) =
     Some (RS_Quiescing, Some B_Interrupt)"
  "evidence_ok ''r'' (w_db sample_interrupted)"
  "lookup_row rp_run ''r'' (db_reports (w_db sample_interrupted)) = None"
proof -
  show "\<exists>ts. reach sample_env (ts, sample_interrupted)"
    unfolding sample_interrupted_def sample_interrupt_def by (intro sample_call_reach call_control)
  show "map_option (\<lambda>r. (rn_status r, rn_barrier r)) (find_run ''r'' (w_db sample_interrupted)) =
     Some (RS_Quiescing, Some B_Interrupt)"
    and "lookup_row rp_run ''r'' (db_reports (w_db sample_interrupted)) = None" by code_simp+
  show "evidence_ok ''r'' (w_db sample_interrupted)" unfolding evidence_ok_def by code_simp
qed

theorem interrupt_ends_run_witness:
  "\<exists>w'. run_thread (run_loop 1 sample_env ''r'' sample_graph None 0) sample_interrupted =
     (Inr (Some RS_Interrupted), w') \<and> ended ''r'' TS_Interrupted TR_HumanInterrupted None w'"
proof -
  obtain ts where reach: "reach sample_env (ts, sample_interrupted)"
    using sample_interrupted_facts(1) by blast
  obtain r where r: "find_run ''r'' (w_db sample_interrupted) = Some r" "rn_status r = RS_Quiescing"
    "rn_barrier r = Some B_Interrupt" using sample_interrupted_facts(2) by auto
  then have "endable ''r'' r sample_interrupted"
    using sample_interrupted_facts(3,4) by (simp add: endable_def)
  from interrupt_ends_run [OF reach sample_quiet snd_conv [symmetric] this r(3,2), of 0 sample_graph 0]
  show ?thesis by (simp del: run_loop.simps)
qed

text \<open>
  When the duration or the cost of a running run is used up, the next iteration of the
  scheduler ends it as FAILED with reason BUDGET_EXHAUSTED and freezes the report.
\<close>

theorem exhausted_budget_ends_run:
  assumes "reach E s" and "env_quiet E" and "w = snd s" and "endable run r w"
    and "rn_barrier r = None" and "rn_status r = RS_Running"
    and "budget_limit_reached run None False False (w_now w) (w_db w) = Inr True"
  shows "\<exists>w'. run_thread (run_loop (Suc n) E run g None k) w = (Inr (Some RS_Failed), w') \<and>
    ended run TS_Failed TR_BudgetExhausted None w'"
proof -
  have run: "find_run run (w_db w) = Some r" using assms(4) by (simp add: endable_def)
  obtain w' where f: "run_thread (finish run TS_Failed TR_BudgetExhausted None) w = (Inr (), w')"
    and e: "ended run TS_Failed TR_BudgetExhausted None w'"
    using finish_ended [OF reach_sound [OF assms(1,2), folded assms(3)] assms(4) ending_simps(2)] by metis
  have "run_thread (run_iteration E run g) w = (Inr (Returned RS_Failed), w')"
    unfolding run_iteration_def read_status_def read_barrier_def run_bind run_reading end_with_def
    using run assms(5-7) f
    by (simp add: bind_op_def seq_op_def run_status_of_def barrier_of_def required_run_found ret_def)
  from loop_returns [OF this] e show ?thesis by blast
qed

theorem exhausted_budget_ends_run_witness:
  "\<exists>w'. run_thread (run_loop 1 sample_env ''r'' sample_graph None 0) (sample_world\<lparr>w_now := 100000000\<rparr>) =
     (Inr (Some RS_Failed), w') \<and> ended ''r'' TS_Failed TR_BudgetExhausted None w'"
proof -
  let ?w = "sample_world\<lparr>w_now := 100000000\<rparr>"
  have reach: "reach sample_env ([Done (fst (run_thread sample_create (first_world 0 1)))], ?w)"
    by (rule reach_step [OF sample_reach]) (rule sys_tick)
  obtain r where r: "find_run ''r'' (w_db ?w) = Some r" "rn_status r = RS_Running" "rn_barrier r = None"
    using sample_row by auto
  have none: "lookup_row rp_run ''r'' (db_reports (w_db sample_world)) = None"
    and spent: "budget_limit_reached ''r'' None False False 100000000 (w_db sample_world) = Inr True"
    by code_simp+
  have ev: "evidence_ok ''r'' (w_db sample_world)" unfolding evidence_ok_def by code_simp
  have "endable ''r'' r ?w" using r none ev by (simp add: endable_def)
  from exhausted_budget_ends_run [OF reach sample_quiet snd_conv [symmetric] this r(3,2), of 0 sample_graph 0]
  show ?thesis using spent by (simp del: run_loop.simps)
qed

section \<open>Cancelling a run\<close>

lemma sound_tx:
  assumes "sound w" and "op_in (preserves budgets_ok) m" and "op_in (preserves runs_ok) m"
    and "op_in (preserves branches_named) m" and "op_in outbox_grows m" and "m (w_db w) = (x, d)"
  shows "sound (w\<lparr>w_db := d\<rparr>)"
proof -
  have d: "d = snd (m (w_db w))" using assms(6) by simp
  show ?thesis
    using assms(1) op_inD [OF assms(2)] op_inD [OF assms(3)] op_inD [OF assms(4)]
      outbox_grows_ok [OF _ op_inD [OF assms(5)], of w]
    unfolding d by (simp add: sound_def preserves_def)
qed

lemma sound_flush: "sound w \<Longrightarrow> sound (flush_world w)"
proof -
  assume s: "sound w"
  obtain t where "w_db (flush_world w) = (w_db w)\<lparr>db_outbox := t\<rparr>" using flush_world_db [of w] by blast
  with s flush_world_ok [of w] show ?thesis
    by (simp add: sound_def budgets_ok_def runs_ok_def branches_named_def)
qed

lemma endable_flush: "endable run r w \<Longrightarrow> endable run r (flush_world w)"
proof -
  assume e: "endable run r w"
  obtain t where "w_db (flush_world w) = (w_db w)\<lparr>db_outbox := t\<rparr>" using flush_world_db [of w] by blast
  with e show ?thesis
    by (simp add: endable_def find_run_def evidence_ok_def verifier_artifacts_def)
qed

lemma flush_branches: "db_branches (w_db (flush_world w)) = db_branches (w_db w)"
  using flush_world_db [of w] by auto

lemma cancel_run_result:
  assumes "find_run run d = Some r" and "\<not> terminal (rn_status r)"
  obtains d' where "cancel_run_tx run now d = (Inr True, d')"
    and "find_run run d' = Some (set_status RS_Quiescing (Some B_Cancel) r)"
    and "db_reports d' = db_reports d" and "db_artifacts d' = db_artifacts d"
    and "db_run_artifacts d' = db_run_artifacts d" and "db_handles d' = db_handles d"
proof -
  let ?d = "update_run run (set_status RS_Quiescing (Some B_Cancel)) d"
  have upd: "find_run run ?d = Some (set_status RS_Quiescing (Some B_Cancel) r)"
    using assms(1) by (intro find_run_update) simp_all
  have tx: "cancel_run_tx run now d = (Inr True, with_event ''run.cancel_requested'' run None None []
      (add_checkpoint (set_status RS_Quiescing (Some B_Cancel) r) ''cancel_requested'' ?d))"
    using assms checkpoint_Some [OF upd]
    by (simp add: cancel_run_tx_def bind_op_def seq_op_def ask_def required_run_found modify_def
        with_event_def enqueue_event_def ret_def)
  show ?thesis by (rule that [OF tx]) (use upd in \<open>simp_all add: find_run_def update_run_def\<close>)
qed



end
