(* ===== verification/Recovery.thy ===== *)
theory Recovery
  imports Stopping
begin

text \<open>
  Recovery after a crash: \<open>recover\<close> and \<open>_finish_uncertain\<close> of \<open>runtime/engine.py\<close>.
\<close>

section \<open>Refusing to recover\<close>

definition recovery_refusal :: "host \<Rightarrow> run_row \<Rightarrow> exec_graph \<Rightarrow> string \<Rightarrow> py_error option" where
  "recovery_refusal H r g chash =
     (if rn_contract_hash r \<noteq> chash
      then Some (RecoveryError ''Contract hash mismatch; refusing recovery'')
      else if rn_graph_hash r \<noteq> h_graph_hash H g
      then Some (RecoveryError ''Graph hash mismatch; refusing recovery'') else None)"

text \<open>
  C20. A run is only ever recovered with the contract and the graph it was created with: on a
  different contract hash or a different graph hash, and for an unknown run, \<open>recover\<close> raises the
  error of that case and writes nothing at all; and after a restart \<open>run\<close> refuses a run that was
  not recovered.
\<close>

theorem recovery_refuses_mismatch:
  assumes "find_run run (w_db w) = Some r" and "recovery_refusal (e_host E) r g chash = Some e"
  shows "run_thread (recover E run g chash) w = (Inl e, w) \<and>
    (\<exists>e'. run_thread (run_run n E run m) (boot w) = (Inl (RecoveryError e'), boot w))"
proof
  have "recovery_check (e_host E) run g chash (w_db w) = Inl e"
    using assms by (simp add: recovery_check_def recovery_refusal_def required_run_found split: if_splits)
  then show "run_thread (recover E run g chash) w = (Inl e, w)"
    by (simp add: recover_def bind_op_def)
  have "w_graphs (boot w) run = None" by (simp add: boot_def)
  then show "\<exists>e'. run_thread (run_run n E run m) (boot w) = (Inl (RecoveryError e'), boot w)"
    by (auto simp: run_run_def read_graph_def bind_op_def atomic_def)
qed

theorem recovery_refuses_mismatch_witness:
  "run_thread (recover sample_env ''r'' sample_graph ''other'') sample_world =
     (Inl (RecoveryError ''Contract hash mismatch; refusing recovery''), sample_world)"
proof -
  have "map_option rn_contract_hash (find_run ''r'' (w_db sample_world)) = Some ''h''" by code_simp
  then obtain r where r: "find_run ''r'' (w_db sample_world) = Some r" "rn_contract_hash r = ''h''" by auto
  then have "recovery_refusal (e_host sample_env) r sample_graph ''other'' =
      Some (RecoveryError ''Contract hash mismatch; refusing recovery'')"
    by (simp add: recovery_refusal_def)
  from recovery_refuses_mismatch [OF r(1) this] show ?thesis by blast
qed

section \<open>Recovering an uncertain run\<close>

lemma uncertain_code [simp]: "code_pattern ''external_effect.uncertain''"
  by code_simp

lemma uncertain_valid:
  "validate_error (uncertain_error k) = Inr ()" "validate_unverified (uncertain_item run k) = Inr ()"
  "validate_external_effect (uncertain_effect run k) = Inr ()"
  "ending_ok TS_Error TR_ExecutionError (Some (uncertain_error k))"
  by (simp_all add: validate_error_def uncertain_error_def validate_unverified_def uncertain_item_def
      validate_external_effect_def uncertain_effect_def ending_ok_def)

lemma sound_graphs [simp]: "sound (w\<lparr>w_graphs := g\<rparr>) = sound w"
  by (simp add: sound_def outbox_ok_def outbox_split_def)

lemma endable_graphs [simp]: "endable run r (w\<lparr>w_graphs := g\<rparr>) = endable run r w"
  by (simp add: endable_def)

lemma finish_uncertain_ends:
  assumes "sound w" and "endable run r w"
  obtains w' row where "run_thread (finish_uncertain run k) w = (Inr (), w')"
    and "ended run TS_Error TR_ExecutionError (Some (uncertain_error k)) w'"
    and "lookup_row rp_run run (db_reports (w_db w')) = Some row"
    and "fr_unverified (rp_report row) = [uncertain_item run k]"
    and "fr_effects (rp_report row) = [uncertain_effect run k]"
proof -
  have run: "find_run run (w_db w) = Some r" and going: "\<not> terminal (rn_status r)"
    and none: "lookup_row rp_run run (db_reports (w_db w)) = None" and ev: "evidence_ok run (w_db w)"
    using assms(2) by (simp_all add: endable_def)
  have id: "rn_id r = run" using run by (auto simp: find_run_def lookup_row_def dest: find_SomeD)
  let ?f = "\<lambda>r. r\<lparr>rn_unverified := [uncertain_item run k], rn_effects := [uncertain_effect run k]\<rparr>"
  let ?d = "update_run run ?f (w_db w)"
  have tx: "note_uncertain run k (w_now w) (w_db w) = (Inr (), ?d)"
    by (simp add: note_uncertain_def modify_def)
  have s: "sound (w\<lparr>w_db := ?d\<rparr>)"
    by (rule sound_tx [OF assms(1) budgets.quiet_txs(5) runs.quiet_txs(5) named.quiet_txs(5)
          outbox_writes.quiet_txs(5) tx])
  have run1: "find_run run ?d = Some (?f r)" using run by (rule find_run_update) simp
  have none1: "lookup_row rp_run run (db_reports ?d) = None" using none by (simp add: update_run_def)
  have ev1: "evidence_ok run ?d"
    using ev by (simp add: evidence_ok_def verifier_artifacts_def update_run_def)
  show ?thesis
  proof (rule finish_run [of "w\<lparr>w_db := ?d\<rparr>" run "?f r" TS_Error TR_ExecutionError
        "Some (uncertain_error k)"])
    fix w' f
    assume f: "run_thread (finish run TS_Error TR_ExecutionError (Some (uncertain_error k)))
        (w\<lparr>w_db := ?d\<rparr>) = (Inr (), w')"
      "find_run run (w_db w') = Some (end_run TS_Error TR_ExecutionError (Some (uncertain_error k)) (?f r))"
      "lookup_row rp_run run (db_reports (w_db w')) = Some \<lparr>rp_run = run, rp_report = f\<rparr>"
      "fr_status f = TS_Error" "fr_reason f = TR_ExecutionError" "fr_error f = Some (uncertain_error k)"
      "w_log w' = events_of (w_db w')"
      "fr_unverified f = rn_unverified (?f r)" "fr_effects f = rn_effects (?f r)"
    from f(1) tx have "run_thread (finish_uncertain run k) w = (Inr (), w')"
      by (simp add: finish_uncertain_def seq_op_def tx_op_def)
    moreover from f(2-7) have "ended run TS_Error TR_ExecutionError (Some (uncertain_error k)) w'"
      by (simp add: ended_def) (simp add: end_run_def)
    ultimately show ?thesis by (rule that [OF _ _ f(3)]) (simp_all add: f(8,9))
  qed (use s run1 going none1 ev1 uncertain_valid(4) in \<open>simp_all add: sound_def\<close>)
qed


definition sample_crashed :: "nat world" where
  \<comment> \<open>the process stopped while the first node was executing\<close>
  "sample_crashed = crash_at 0 (snd (go 1 6 sample_pool))"

lemma sample_crashed_reach: "reach sample_env ([], sample_crashed)"
proof -
  obtain ts w where s: "go 1 6 sample_pool = (ts, w)" by fastforce
  have "reach sample_env (ts, w)" using reach_go [OF sample_pool_reach, of 1 6] unfolding s .
  then have "reach sample_env ([], crash_at 0 w)" by (rule reach_step) (rule sys_crash)
  then show ?thesis unfolding sample_crashed_def s by simp
qed


end
