(* ===== verification/Progress.thy ===== *)
theory Progress
  imports Recovery
begin

text \<open>
  The scheduler's loop comes to an end: for a graph whose nodes are all executed locally, each
  iteration that does not return uses up an executor call or resolves a result.
\<close>

section \<open>What is left to do\<close>

definition calls_room :: "string \<Rightarrow> db \<Rightarrow> nat" where
  "calls_room run d = (case find_budget run d of None \<Rightarrow> 0 | Some b \<Rightarrow> nat (bd_max_calls b - bd_calls b))"

definition unresolved :: "string \<Rightarrow> node_row \<Rightarrow> bool" where
  "unresolved run n \<longleftrightarrow> nr_run n = run \<and> \<not> nr_resolved n \<and> nr_result n \<noteq> None"

definition unresolved_count :: "string \<Rightarrow> db \<Rightarrow> nat" where
  "unresolved_count run d = length (filter (unresolved run) (db_nodes d))"

definition work_left :: "string \<Rightarrow> db \<Rightarrow> nat" where
  "work_left run d = calls_room run d + unresolved_count run d"

text \<open>No barrier, and no node of the run is executing.\<close>

definition idle :: "string \<Rightarrow> node_row list \<Rightarrow> bool" where
  "idle run ns \<longleftrightarrow> (\<forall>n \<in> set ns. nr_run n = run \<longrightarrow> nr_status n \<noteq> NS_Running)"

definition quiescent :: "string \<Rightarrow> db \<Rightarrow> bool" where
  "quiescent run d \<longleftrightarrow>
     (\<exists>r. find_run run d = Some r \<and> rn_barrier r = None) \<and> idle run (db_nodes d)"

definition has_ended :: "string \<Rightarrow> db \<Rightarrow> bool" where
  "has_ended run d \<longleftrightarrow> (\<exists>r. find_run run d = Some r \<and> terminal (rn_status r))"

lemma work_left_frame:
  "db_nodes d' = db_nodes d \<Longrightarrow> db_budgets d' = db_budgets d \<Longrightarrow> work_left run d' = work_left run d"
  by (simp add: work_left_def calls_room_def unresolved_count_def find_budget_def)

lemma quiescent_frame:
  "db_nodes d' = db_nodes d \<Longrightarrow> db_runs d' = db_runs d \<Longrightarrow> quiescent run d' = quiescent run d"
  by (simp add: quiescent_def find_run_def)

lemma has_ended_frame: "db_runs d' = db_runs d \<Longrightarrow> has_ended run d' = has_ended run d"
  by (simp add: has_ended_def find_run_def)

lemma flush_same [simp]:
  "db_nodes (w_db (flush_world w)) = db_nodes (w_db w)"
  "db_budgets (w_db (flush_world w)) = db_budgets (w_db w)"
  "db_runs (w_db (flush_world w)) = db_runs (w_db w)"
  using flush_world_db [of w] by auto

text \<open>Counting the rows that a change of one row leaves unresolved.\<close>

lemma filter_update_le:
  assumes "\<And>x. P (f x) \<Longrightarrow> P x"
  shows "length (filter P (update_where q f xs)) \<le> length (filter P xs)"
  using assms by (induction xs) auto

lemma filter_update_less:
  assumes "\<And>x. q x \<Longrightarrow> \<not> P (f x)" and "x \<in> set xs" and "q x" and "P x"
  shows "length (filter P (update_where q f xs)) < length (filter P xs)"
proof -
  have le: "length (filter P (update_where q f ys)) \<le> length (filter P ys)" for ys
    using assms(1) by (induction ys) auto
  from assms(2) obtain ys zs where "xs = ys @ x # zs" by (auto simp: in_set_conv_decomp)
  then show ?thesis using le [of ys] le [of zs] assms(1,3,4) by simp
qed

lemma filter_update_one:
  assumes "distinct (map key xs)"
  shows "length (filter P (update_where (\<lambda>x. key x = k) f xs)) \<le> Suc (length (filter P xs))"
  using assms
proof (induction xs)
  case (Cons x xs)
  show ?case
  proof (cases "key x = k")
    case True
    then have "r \<in> set xs \<Longrightarrow> key r \<noteq> k" for r
      using Cons.prems by (metis distinct.simps(2) image_eqI list.set_map list.simps(9))
    then have "update_where (\<lambda>x. key x = k) f xs = xs" by (intro update_where_none) blast
    with True show ?thesis by simp
  qed (use Cons in auto)
qed simp

section \<open>Ending\<close>

lemma run_reading_InrE:
  assumes "run_thread (reading f) w = (Inr x, w')"
  obtains "f (w_now w) (w_db w) = Inr x" and "w' = w"
proof -
  from assms have "(f (w_now w) (w_db w), w) = (Inr x, w')" unfolding reading_def run_atomic .
  then show ?thesis using that by blast
qed

lemma run_flush_InrE:
  "run_thread flush_t w = (Inr x, w') \<Longrightarrow> (w' = flush_world w \<Longrightarrow> P) \<Longrightarrow> P"
  unfolding flush_t_def run_atomic by (erule modify_InrE)

lemma run_tx_InrE:
  assumes "run_thread (tx m) w = (Inr x, w')"
  obtains d where "m (w_now w) (w_db w) = (Inr x, d)" and "w' = w\<lparr>w_db := d\<rparr>"
proof -
  obtain r d where m: "m (w_now w) (w_db w) = (r, d)" by fastforce
  with assms that show ?thesis by (cases r) (simp_all add: tx_op_def)
qed

lemma run_return_InrE: "run_thread (return_t y) w = (Inr x, w') \<Longrightarrow> (x = y \<Longrightarrow> w' = w \<Longrightarrow> P) \<Longrightarrow> P"
  unfolding run_return by (erule ret_InrE)

lemma run_bind_InrE:
  "run_thread (bind_t m f) w = (Inr x, w') \<Longrightarrow>
    (\<And>y v. run_thread m w = (Inr y, v) \<Longrightarrow> run_thread (f y) v = (Inr x, w') \<Longrightarrow> P) \<Longrightarrow> P"
  unfolding run_bind by (erule bind_op_InrE)

lemma run_seq_InrE:
  "run_thread (seq_t m n) w = (Inr x, w') \<Longrightarrow>
    (\<And>y v. run_thread m w = (Inr y, v) \<Longrightarrow> run_thread n v = (Inr x, w') \<Longrightarrow> P) \<Longrightarrow> P"
  unfolding run_seq by (erule seq_op_InrE)

lemma run_lift_InrE:
  "run_thread (lift_t r) w = (Inr x, w') \<Longrightarrow> (r = Inr x \<Longrightarrow> w' = w \<Longrightarrow> P) \<Longrightarrow> P"
  by (cases r) (auto simp: lift_t_def return_t_def raise_t_def)

lemma run_raise_InrE: "run_thread (raise_t e) w = (Inr x, w') \<Longrightarrow> P"
  by (simp add: raise_def)

lemmas run_inversions = run_bind_InrE run_seq_InrE run_reading_InrE run_tx_InrE run_flush_InrE
  run_return_InrE run_lift_InrE run_raise_InrE

lemma freeze_runs:
  "run_thread (freeze_report run) w = (Inr u, w') \<Longrightarrow> db_runs (w_db w') = db_runs (w_db w)"
  unfolding freeze_report_def snapshot_def
  by (elim run_inversions)
    (auto simp: store_report_def put_report_def elim!: inversions)

lemma finish_ends:
  assumes "run_thread (finish run status reason err) w = (Inr u, w')"
  shows "has_ended run (w_db w')"
proof -
  from assms obtain ended d where t: "finish_tx run status reason err (w_now w) (w_db w) = (Inr ended, d)"
    and rest: "run_thread (if ended then seq_t (freeze_report run) flush_t else return_t ()) (w\<lparr>w_db := d\<rparr>) =
      (Inr u, w')"
    unfolding finish_def by (elim run_inversions) blast
  have "db_runs (w_db w') = db_runs d"
  proof (cases ended)
    case True
    with rest obtain y v where "run_thread (freeze_report run) (w\<lparr>w_db := d\<rparr>) = (Inr y, v)" "w' = flush_world v"
      unfolding if_P [OF True] by (elim run_seq_InrE run_flush_InrE)
    then show ?thesis using freeze_runs by fastforce
  next
    case False
    with rest have "w' = w\<lparr>w_db := d\<rparr>" by (auto elim: run_return_InrE simp del: run_return)
    then show ?thesis by simp
  qed
  moreover have "has_ended run d"
  proof -
    from t obtain r where r: "find_run run (w_db w) = Some r" unfolding finish_tx_def by (auto elim!: inversions)
    show ?thesis
    proof (cases "terminal (rn_status r)")
      case True
      with t r show ?thesis by (auto simp: finish_tx_def has_ended_def elim!: inversions)
    next
      case False
      then have "d = ended_db run status reason err r (w_db w)"
        using finish_tx_ends [OF r] t by simp
      moreover have "find_run run (update_run run (end_run status reason err) (w_db w)) =
          Some (end_run status reason err r)" using r by (rule find_run_update) simp
      ultimately show ?thesis
        by (simp add: has_ended_def find_run_def update_run_def) (simp add: end_run_def)
    qed
  qed
  ultimately show ?thesis by (rule has_ended_frame [THEN iffD2])
qed

section \<open>A route resolves a result\<close>

definition progress :: "string \<Rightarrow> db \<Rightarrow> db \<Rightarrow> bool" where
  "progress run d d' \<longleftrightarrow> has_ended run d' \<or> (quiescent run d' \<and> work_left run d' < work_left run d)"

lemma nodes_update [simp]:
  "db_nodes (update_node run k f d) = update_where (\<lambda>r. node_key r = (run, k)) f (db_nodes d)"
  by (simp add: update_node_def change_row_def)

lemma idle_update:
  assumes "idle run ns" and "\<And>r. nr_run (f r) = nr_run r"
    and "\<And>r. nr_status r \<noteq> NS_Running \<Longrightarrow> nr_status (f r) \<noteq> NS_Running"
  shows "idle run (update_where q f ns)"
  using assms by (auto simp: idle_def set_update_where)

lemma calls_room_repair [simp]: "calls_room run (update_budget run' spend_repair d) = calls_room run d"
proof -
  have "map_option (\<lambda>b. (bd_max_calls b, bd_calls b)) (find_budget run (update_budget run' spend_repair d)) =
      map_option (\<lambda>b. (bd_max_calls b, bd_calls b)) (find_budget run d)"
    by (simp add: find_budget_def update_budget_def lookup_change_row spend_repair_def option.map_comp o_def)
  then show ?thesis
    by (auto simp: calls_room_def split: option.splits)
qed

lemma calls_room_cong: "db_budgets d' = db_budgets d \<Longrightarrow> calls_room run d' = calls_room run d"
  by (simp add: calls_room_def find_budget_def)

lemma route_taken:
  assumes quiet: "quiescent run d" and row: "find_node run (ed_from e) d = Some row" "unresolved run row"
    and nodes: "db_nodes d' = db_nodes (take_edge run e (if repair then charge_repair run (ed_from e) d else d))"
    and runs: "db_runs d' = db_runs (take_edge run e d)"
    and budgets: "db_budgets d' = db_budgets (if repair then update_budget run spend_repair d else d)"
  shows "quiescent run d' \<and> work_left run d' < work_left run d"
proof -
  define from_key to_key where "from_key = (\<lambda>r. node_key r = (run, ed_from e))"
    and "to_key = (\<lambda>r. node_key r = (run, ed_to e))"
  define ns where "ns = (if repair then update_where from_key (\<lambda>r. r\<lparr>nr_repairs := nr_repairs r + 1\<rparr>) (db_nodes d)
    else db_nodes d)"
  have nodes': "db_nodes d' = update_where to_key ready_node (update_where from_key (\<lambda>n. n\<lparr>nr_resolved := True\<rparr>) ns)"
    by (simp add: nodes take_edge_def charge_repair_def ns_def from_key_def to_key_def)
  have in_d: "row \<in> set (db_nodes d)" and key: "from_key row"
    using row by (auto simp: find_node_def lookup_row_def from_key_def dest: find_SomeD)
  obtain row' where row': "row' \<in> set ns" "from_key row'" "unresolved run row'"
  proof (cases repair)
    case True
    have "row\<lparr>nr_repairs := nr_repairs row + 1\<rparr> \<in> set ns"
      using True in_d key by (auto simp: ns_def set_update_where)
    then show ?thesis by (rule that) (use key row(2) in \<open>simp_all add: from_key_def node_key_def unresolved_def\<close>)
  qed (use in_d key row(2) that in \<open>simp add: ns_def\<close>)
  have "unresolved_count run d' \<le> length (filter (unresolved run) (update_where from_key (\<lambda>n. n\<lparr>nr_resolved := True\<rparr>) ns))"
    unfolding unresolved_count_def nodes' by (rule filter_update_le) (simp add: unresolved_def ready_node_def)
  also have "\<dots> < length (filter (unresolved run) ns)"
    by (rule filter_update_less [where P = "unresolved run" and q = from_key and x = row', OF _ row']) (simp add: unresolved_def)
  also have "\<dots> \<le> unresolved_count run d"
    by (auto simp: ns_def unresolved_count_def unresolved_def intro!: filter_update_le)
  finally have "unresolved_count run d' < unresolved_count run d" .
  moreover have "calls_room run d' = calls_room run d"
    using calls_room_cong [OF budgets] by simp
  moreover from quiet obtain r where r: "find_run run d = Some r" "rn_barrier r = None" by (auto simp: quiescent_def)
  have "find_run run d' = Some (r\<lparr>rn_current := Some (ed_to e)\<rparr>)"
    using find_run_update [OF r(1), of "\<lambda>r. r\<lparr>rn_current := Some (ed_to e)\<rparr>"]
    by (simp add: find_run_def runs take_edge_def update_run_def)
  moreover have "idle run (db_nodes d')"
    using quiet unfolding nodes' ns_def quiescent_def
    by (auto intro!: idle_update simp: ready_node_def)
  ultimately show ?thesis using r(2) by (simp add: quiescent_def work_left_def)
qed

lemma route_value: "route_tx run g e repair now d = (Inr None, d') \<Longrightarrow> quiescent run d \<Longrightarrow> False"
  unfolding route_tx_def by (auto simp: quiescent_def elim!: inversions split: if_splits)

lemma route_result_progress:
  assumes quiet: "quiescent run (w_db w)" and row: "find_node run k (w_db w) = Some row" "unresolved run row"
    and go: "run_thread (route_result run g k) w = (Inr u, w')"
  shows "progress run (w_db w) (w_db w')"
proof -
  from quiet obtain r where r: "find_run run (w_db w) = Some r" "rn_barrier r = None" by (auto simp: quiescent_def)
  obtain y where y: "nr_result row = Some y" "\<not> nr_resolved row" using row(2) by (auto simp: unresolved_def)
  define rest :: "('a world, unit) thread" where "rest = (case select_edge (g_edges g) k (edge_counts run (w_db w)) y (nr_count row) of
        None \<Rightarrow> (case end_of_route y of (status, reason, err) \<Rightarrow> finish run status reason err)
      | Some e \<Rightarrow> bind_t (tx (route_tx run g e (is_repair e y))) (\<lambda>exhausted.
          case exhausted of None \<Rightarrow> return_t ()
          | Some x \<Rightarrow> seq_t (if x then finish run TS_Failed TR_BudgetExhausted None else return_t ()) flush_t))"
  have "run_thread (route_result run g k) w = run_thread rest w"
    unfolding route_result_def read_barrier_def reading_def run_bind run_atomic bind_op_def
    using r row(1) y
    by (simp add: barrier_of_def required_run_found route_input_def rest_def
        bind_op_def)
  with go have route: "run_thread rest w = (Inr u, w')" by simp
  show ?thesis
  proof (cases "select_edge (g_edges g) k (edge_counts run (w_db w)) y (nr_count row)")
    case None
    obtain a b c where abc: "end_of_route y = (a, b, c)" by (cases "end_of_route y")
    from route None have "run_thread (finish run a b c) w = (Inr u, w')" by (simp add: abc rest_def)
    from finish_ends [OF this] show ?thesis by (simp add: progress_def)
  next
    case (Some e)
    then have from_e: "ed_from e = k" by (auto simp: select_edge_def dest: find_SomeD)
    from route [unfolded rest_def Some option.case] obtain x d where
      t: "route_tx run g e (is_repair e y) (w_now w) (w_db w) = (Inr x, d)"
      and rest: "run_thread (case x of None \<Rightarrow> return_t ()
          | Some x \<Rightarrow> seq_t (if x then finish run TS_Failed TR_BudgetExhausted None else return_t ()) flush_t)
          (w\<lparr>w_db := d\<rparr>) = (Inr u, w')"
      by (elim run_bind_InrE run_tx_InrE) blast
    from t show ?thesis
    proof (cases rule: route_effect)
      case 1
      with route_value t quiet show ?thesis by blast
    next
      case 2
      with rest obtain v where "run_thread (finish run TS_Failed TR_BudgetExhausted None) (w\<lparr>w_db := d\<rparr>) = (Inr (), v)"
        and "w' = flush_world v" by (auto elim!: run_seq_InrE run_flush_InrE simp del: run_seq)
      from finish_ends [OF this(1)] this(2) show ?thesis
        by (simp add: progress_def has_ended_frame [of "w_db (flush_world v)" "w_db v"])
    next
      case (3 r' n)
      from rest 3(1) have w': "w' = flush_world (w\<lparr>w_db := d\<rparr>)"
        by (auto elim!: run_seq_InrE run_flush_InrE run_return_InrE simp del: run_seq run_return)
      have "quiescent run d \<and> work_left run d < work_left run (w_db w)"
        by (rule route_taken [OF quiet row(1) [folded from_e] row(2) 3(7,6,9)])
      moreover have "quiescent run (w_db w') = quiescent run d" "work_left run (w_db w') = work_left run d"
        by (rule quiescent_frame work_left_frame; simp add: w')+
      ultimately show ?thesis by (simp add: progress_def)
    qed
  qed
qed

section \<open>An attempt uses up a call\<close>

text \<open>The Verifier answers within the call: its result is never pending.\<close>

definition answers_at_once :: "'x env \<Rightarrow> bool" where
  "answers_at_once E \<longleftrightarrow> (\<forall>run n a k w v w'.
     run_thread (e_verify E run n a k) w = (Inr v, w') \<longrightarrow> vr_status v \<noteq> VS_Pending)"

lemma answersD:
  "answers_at_once E \<Longrightarrow> run_thread (e_verify E run n a k) w = (Inr v, w') \<Longrightarrow> vr_status v \<noteq> VS_Pending"
  unfolding answers_at_once_def by blast

lemma outside_run: "steps_in outside_step t \<Longrightarrow> w_db (snd (run_thread t w)) = w_db w"
proof -
  assume "steps_in outside_step t"
  then have "steps_in (\<lambda>w w'. w_db w' = w_db w) t" by (rule steps_mono) (auto simp: outside_step_def)
  from steps_run [OF this, of w] show ?thesis by (induction rule: rtranclp_induct) simp_all
qed

lemma call_boundary_outcome:
  assumes "env_quiet E" and "answers_at_once E"
  shows "w_db (snd (run_thread (call_boundary E run n a) w)) = w_db w"
    and "run_thread (call_boundary E run n a) w = (Inr x, w') \<Longrightarrow> \<exists>r. x = Some r \<and> \<not> is_pending r"
proof -
  have "steps_in outside_step (call_boundary E run n a)"
    using assms(1) by (auto simp: env_quiet_def call_boundary_def intro: steps_map)
  then show "w_db (snd (run_thread (call_boundary E run n a) w)) = w_db w" by (rule outside_run)
  show "\<exists>r. x = Some r \<and> \<not> is_pending r" if "run_thread (call_boundary E run n a) w = (Inr x, w')"
    using that answersD [OF assms(2)] unfolding call_boundary_def map_t_def
    by (auto simp: is_pending_def split: if_splits elim!: run_bind_InrE run_return_InrE
        simp del: run_bind run_return)
qed

lemma boundary_error_outcome: "boundary_error n e = Inr r \<Longrightarrow> \<not> is_pending r"
  by (auto simp: boundary_error_def is_pending_def construct_def ver_result_of_def
      split: bind_splits if_splits sum.splits)

lemma invoke_outcome:
  assumes "env_quiet E" and "answers_at_once E" and "counts_call n"
    and "run_thread (invoke E run n a) w = (Inr x, w')"
  shows "w_db w' = w_db w" and "\<exists>r. x = Some r \<and> \<not> is_pending r"
proof -
  have inv: "invoke E run n a = guarded_boundary n (call_boundary E run n a)"
    using assms(3) by (simp add: invoke_def is_container_def counts_call_def container_type_def)
  obtain y v where c: "run_thread (call_boundary E run n a) w = (y, v)" by fastforce
  note out = call_boundary_outcome(1) [OF assms(1,2), of run n a w, unfolded c]
  have "w_db w' = w_db v \<and> (\<exists>r. x = Some r \<and> \<not> is_pending r)"
  proof (cases y)
    case (Inl e)
    with assms(4) c have "run_thread (lift_t (map_sum id Some (boundary_error n e))) v = (Inr x, w')"
      unfolding inv guarded_boundary_def run_catch catch_op_def by simp
    then obtain r where "boundary_error n e = Inr r" "x = Some r" "w' = v"
      by (elim run_lift_InrE) (cases "boundary_error n e", auto)
    then show ?thesis using boundary_error_outcome by blast
  next
    case (Inr z)
    with assms(4) c have "x = z" "w' = v"
      unfolding inv guarded_boundary_def run_catch catch_op_def by simp_all
    moreover have "run_thread (call_boundary E run n a) w = (Inr z, v)" using c Inr by simp
    ultimately show ?thesis using call_boundary_outcome(2) [OF assms(1,2)] by blast
  qed
  then show "w_db w' = w_db w" and "\<exists>r. x = Some r \<and> \<not> is_pending r" using out by simp_all
qed

lemma honor_nothing:
  assumes "find_run run (w_db w) = Some r" and "rn_barrier r = None"
  shows "run_thread (honor_barrier run) w = (Inr (), w)"
  using assms
  by (simp add: honor_barrier_def read_barrier_def reading_def barrier_of_def required_run_found
      bind_op_def ret_def)

text \<open>Recording a result: the node has stopped, and its result waits for a route.\<close>

lemma core_artifacts: "op_in same_core (for_each (register_artifact run k role) xs)"
  unfolding register_artifact_def link_artifact_def
  by (intro core.op_intros; simp add: same_core_def put_artifact_def enqueue_event_def modify_def op_in_def)

lemma persist_recorded:
  assumes "\<not> is_pending r" and "run_thread (persist_result run k a r) w = (Inr u, w')"
  shows "db_nodes (w_db w') = update_where (\<lambda>x. node_key x = (run, k))
      (\<lambda>x. x\<lparr>nr_status := node_status r, nr_result := Some r, nr_resolved := False\<rparr>) (db_nodes (w_db w))"
    and "db_runs (w_db w') = db_runs (w_db w)" and "db_budgets (w_db w') = db_budgets (w_db w)"
proof -
  from assms obtain d where t: "result_tx run k a r (w_now w) (w_db w) = (Inr (), d)"
    and w': "w' = flush_world (w\<lparr>w_db := d\<rparr>)"
    unfolding persist_result_def by (auto elim!: run_seq_InrE run_tx_InrE run_flush_InrE simp del: run_seq run_tx)
  let ?f = "\<lambda>x. x\<lparr>nr_status := node_status r, nr_result := Some r, nr_resolved := False\<rparr>"
  let ?d = "update_node run k ?f (update_attempt a (\<lambda>x. x\<lparr>at_status := node_status r, at_result := Some r\<rparr>) (w_db w))"
  from t obtain v d1 where "for_each (register_artifact run k (result_role r)) (result_artifacts r) ?d = (Inr v, d1)"
    and rest: "db_nodes d = db_nodes d1" "db_runs d = db_runs d1" "db_budgets d = db_budgets d1"
    unfolding result_tx_def by (elim inversions) simp
  from core_InrE [OF core_artifacts this(1)] have "same_core ?d d1" by blast
  with w' rest show "db_nodes (w_db w') = update_where (\<lambda>x. node_key x = (run, k)) ?f (db_nodes (w_db w))"
    and "db_runs (w_db w') = db_runs (w_db w)" and "db_budgets (w_db w') = db_budgets (w_db w)"
    by (simp_all add: same_core_def update_attempt_def)
qed

lemma settled_status: "\<not> is_pending r \<Longrightarrow> node_status r \<noteq> NS_Running"
proof (cases r)
  case (RVer v)
  then show "\<not> is_pending r \<Longrightarrow> ?thesis" by (cases "vr_status v") (simp_all add: is_pending_def)
next
  case (RExec x)
  then show ?thesis by (cases "xr_status x") simp_all
next
  case (RPar x)
  then show ?thesis by (cases "pr_status x") simp_all
qed

lemma spend_call_room:
  assumes "calls_left run d"
  shows "Suc (calls_room run (update_budget run spend_call d)) = calls_room run d"
  using assms
  by (auto simp: calls_left_def calls_room_def find_budget_def update_budget_def lookup_change_row
      spend_call_def split: option.splits)

lemma start_attempt_room:
  assumes "counts_call n" and "run_thread (start_attempt E run n) w = (Inr a, w')"
  obtains number now row where
    "db_nodes (w_db w') = update_where (\<lambda>r. node_key r = (run, nd_id n)) (run_node number now) (db_nodes (w_db w))"
    and "find_node run (nd_id n) (w_db w) = Some row"
    and "db_runs (w_db w') = db_runs (w_db w)"
    and "Suc (calls_room run (w_db w')) = calls_room run (w_db w)"
proof -
  from assms(2) obtain d where t: "start_attempt_tx (e_host E) run n (w_now w) (w_db w) = (Inr a, d)"
    and w': "w' = flush_world (w\<lparr>w_db := d\<rparr>)"
    unfolding start_attempt_def by (elim run_inversions) simp
  from t show ?thesis
  proof (rule start_attempt_effect)
    fix row
    assume row: "find_node run (nd_id n) (w_db w) = Some row" and left: "counts_call n \<Longrightarrow> calls_left run (w_db w)"
      and nodes: "db_nodes d = db_nodes (update_node run (nd_id n) (run_node (nr_count row + 1) (w_now w)) (w_db w))"
      and runs: "db_runs d = db_runs (w_db w)"
      and budgets: "db_budgets d = db_budgets (if counts_call n then update_budget run spend_call (w_db w) else w_db w)"
    have "calls_room run (w_db w') = calls_room run (update_budget run spend_call (w_db w))"
      by (rule calls_room_cong) (simp add: w' budgets assms(1))
    then show ?thesis
      using spend_call_room [OF left [OF assms(1)]] row nodes runs by (intro that) (simp_all add: w')
  qed
qed

lemma end_with_returned:
  "run_thread (end_with run s e) w = (Inr (Again c), w') \<Longrightarrow> P"
  unfolding end_with_def by (elim run_inversions) simp

lemma after_attempt_again:
  assumes "\<not> is_pending r" and "run_thread (after_attempt run g n a r) w = (Inr (Again c), w')"
  obtains v v' where "run_thread (persist_result run (nd_id n) a r) w = (Inr (), v)"
    and "run_thread (honor_barrier run) v = (Inr (), v')"
    and "run_thread (route_result run g (nd_id n)) v' = (Inr (), w')"
proof -
  from assms obtain v v' where p: "run_thread (persist_result run (nd_id n) a r) w = (Inr (), v)"
    and h: "run_thread (honor_barrier run) v = (Inr (), v')"
    and rest: "run_thread (bind_t (read_status run) (\<lambda>s.
        if s = RS_Paused \<or> terminal s then return_t (Returned s)
        else bind_t (reading (budget_limit_reached run (Some n) False False)) (\<lambda>reached.
          if reached then end_with run TS_Failed TR_BudgetExhausted
          else seq_t (route_result run g (nd_id n)) (return_t (Again True))))) v' = (Inr (Again c), w')"
    unfolding after_attempt_def by (auto elim!: run_seq_InrE simp del: run_seq run_bind)
  from rest have "run_thread (route_result run g (nd_id n)) v' = (Inr (), w')"
    unfolding read_status_def
    by (auto elim!: run_bind_InrE run_reading_InrE run_seq_InrE run_return_InrE end_with_returned
        split: if_splits simp del: run_seq run_bind run_return)
  with p h show ?thesis by (rule that)
qed

lemma attempt_progress:
  assumes quiet: "quiescent run (w_db w)" and keys: "distinct (map node_key (db_nodes (w_db w)))"
    and env: "env_quiet E" "answers_at_once E" and leaf: "counts_call n"
    and go: "run_thread (attempt_node E run g n) w = (Inr (Again c), w')"
  shows "progress run (w_db w) (w_db w')"
proof -
  from quiet obtain r where r: "find_run run (w_db w) = Some r" "rn_barrier r = None"
    by (auto simp: quiescent_def)
  obtain x v where s: "run_thread (catch_t (map_t Some (start_attempt E run n)) (\<lambda>exc.
        if exc = BudgetExhausted then return_t None else raise_t exc)) w = (Inr x, v)"
    and rest: "run_thread (case x of None \<Rightarrow> end_with run TS_Failed TR_BudgetExhausted
     | Some attempt \<Rightarrow> bind_t (invoke E run n attempt) (\<lambda>res.
         case res of None \<Rightarrow> return_t (Again True)
         | Some r \<Rightarrow> after_attempt run g n attempt r)) v = (Inr (Again c), w')"
    using go unfolding attempt_node_def by (elim run_bind_InrE)
  obtain a where x: "x = Some a"
    using rest by (cases x) (auto elim: end_with_returned)
  have start: "run_thread (start_attempt E run n) w = (Inr a, v)"
    using s x unfolding run_catch catch_op_def map_t_def
    by (auto simp: bind_op_def ret_def raise_def split: prod.splits sum.splits if_splits)
  from rest x obtain y v2 where inv: "run_thread (invoke E run n a) v = (Inr y, v2)"
    and rest2: "run_thread (case y of None \<Rightarrow> return_t (Again True)
         | Some r \<Rightarrow> after_attempt run g n a r) v2 = (Inr (Again c), w')"
    by (auto elim!: run_bind_InrE simp del: run_bind)
  note db2 = invoke_outcome(1) [OF env leaf inv]
  obtain res where res: "y = Some res" "\<not> is_pending res"
    using invoke_outcome(2) [OF env leaf inv] by blast
  from rest2 res(1) have "run_thread (after_attempt run g n a res) v2 = (Inr (Again c), w')" by simp
  then obtain v3 v4 where per: "run_thread (persist_result run (nd_id n) a res) v2 = (Inr (), v3)"
    and honor: "run_thread (honor_barrier run) v3 = (Inr (), v4)"
    and route: "run_thread (route_result run g (nd_id n)) v4 = (Inr (), w')"
    by (rule after_attempt_again [OF res(2)])
  obtain number now row where nodes1: "db_nodes (w_db v) =
        update_where (\<lambda>r. node_key r = (run, nd_id n)) (run_node number now) (db_nodes (w_db w))"
    and row: "find_node run (nd_id n) (w_db w) = Some row" and runs1: "db_runs (w_db v) = db_runs (w_db w)"
    and room: "Suc (calls_room run (w_db v)) = calls_room run (w_db w)"
    by (rule start_attempt_room [OF leaf start])
  note per = persist_recorded [OF res(2) per]
  define f :: "node_row \<Rightarrow> node_row" where "f = (\<lambda>x. x\<lparr>nr_status := node_status res, nr_result := Some res, nr_resolved := False\<rparr>)"
  define here :: "node_row \<Rightarrow> bool" where "here = (\<lambda>x. node_key x = (run, nd_id n))"
  have "db_nodes (w_db v3) = update_where here f (update_where here (run_node number now) (db_nodes (w_db w)))"
    using per(1) by (simp add: db2 nodes1 f_def here_def)
  also have "\<dots> = update_where here (f \<circ> run_node number now) (db_nodes (w_db w))"
    by (auto simp: update_where_def here_def run_node_def node_key_def)
  finally have nodes3: "db_nodes (w_db v3) = update_where here (f \<circ> run_node number now) (db_nodes (w_db w))" .
  have runs3: "db_runs (w_db v3) = db_runs (w_db w)" using per(2) by (simp add: db2 runs1)
  then have r3: "find_run run (w_db v3) = Some r" using r(1) by (simp add: find_run_def)
  have v4: "v4 = v3" using honor honor_nothing [OF r3 r(2)] by simp
  have idle3: "idle run (db_nodes (w_db v3))"
    unfolding nodes3
    using quiet by (intro idle_update) (simp_all add: quiescent_def f_def run_node_def settled_status [OF res(2)])
  then have quiet3: "quiescent run (w_db v3)" using r3 r(2) by (simp add: quiescent_def)
  have row3: "find_node run (nd_id n) (w_db v3) = Some ((f \<circ> run_node number now) row)"
    using row lookup_change_row [of node_key "f \<circ> run_node number now" "(run, nd_id n)" "(run, nd_id n)" "db_nodes (w_db w)"]
    by (simp add: find_node_def nodes3 change_row_def here_def f_def run_node_def node_key_def)
  have "nr_run row = run" using row by (auto simp: find_node_def lookup_row_def node_key_def dest: find_SomeD)
  then have un3: "unresolved run ((f \<circ> run_node number now) row)" by (simp add: unresolved_def f_def run_node_def)
  have "unresolved_count run (w_db v3) \<le> Suc (unresolved_count run (w_db w))"
    unfolding unresolved_count_def nodes3 here_def by (rule filter_update_one [OF keys])
  moreover have "calls_room run (w_db v3) = calls_room run (w_db v)"
    by (rule calls_room_cong) (use per(3) db2 in simp)
  ultimately have "work_left run (w_db v3) \<le> work_left run (w_db w)"
    using room by (simp add: work_left_def)
  moreover have "progress run (w_db v3) (w_db w')"
    by (rule route_result_progress [OF quiet3 row3 un3 route [unfolded v4]])
  ultimately show ?thesis by (auto simp: progress_def)
qed

section \<open>The loop\<close>

definition all_local :: "exec_graph \<Rightarrow> bool" where
  "all_local g \<longleftrightarrow> (\<forall>n \<in> set (g_nodes g). counts_call n)"

lemma order_by_hd: "order_by f xs = x # ys \<Longrightarrow> x \<in> set xs"
  by (metis list.set_intros(1) set_order_by)

lemma schedule_progress:
  assumes quiet: "quiescent run (w_db w)" and keys: "distinct (map node_key (db_nodes (w_db w)))"
    and env: "env_quiet E" "answers_at_once E" and leaves: "all_local g"
    and go: "run_thread (schedule_node E run g) w = (Inr (Again c), w')"
  shows "progress run (w_db w) (w_db w')"
proof (cases "next_node_row run (w_db w)")
  case None
  with go obtain row where u: "unresolved_row run (w_db w) = Some row"
    and r: "run_thread (route_result run g (nr_node row)) w = (Inr (), w')"
    unfolding schedule_node_def
    by (auto elim!: run_bind_InrE run_reading_InrE run_seq_InrE run_return_InrE run_raise_InrE
        split: option.splits simp del: run_seq run_bind run_return run_raise)
  from u have row: "row \<in> set (db_nodes (w_db w))" "unresolved run row"
    by (auto simp: unresolved_row_def unresolved_def split: list.splits dest: order_by_hd)
  have "find_node run (nr_node row) (w_db w) = Some row"
    using find_key_distinct [OF keys row(1)] row(2)
    by (simp add: find_node_def lookup_row_def unresolved_def node_key_def)
  from route_result_progress [OF quiet this row(2) r] show ?thesis .
next
  case (Some row)
  then have row: "row \<in> set (db_nodes (w_db w))" "nr_run row = run"
    by (auto simp: next_node_row_def split: list.splits dest: order_by_hd)
  then have idle: "nr_status row \<noteq> NS_Running" using quiet by (auto simp: quiescent_def idle_def)
  with go Some obtain n where n: "graph_node g (nr_node row) = Inr n"
    and a: "run_thread (attempt_node E run g n) w = (Inr (Again c), w')"
    unfolding schedule_node_def
    by (auto elim!: run_bind_InrE run_reading_InrE run_lift_InrE simp del: run_bind)
  from n have "n \<in> set (g_nodes g)" by (auto simp: graph_node_def split: option.splits dest: node_of_SomeD)
  with leaves have "counts_call n" by (simp add: all_local_def)
  from attempt_progress [OF quiet keys env this a] show ?thesis .
qed

lemma iteration_progress:
  assumes quiet: "quiescent run (w_db w)" and keys: "distinct (map node_key (db_nodes (w_db w)))"
    and env: "env_quiet E" "answers_at_once E" and leaves: "all_local g"
    and go: "run_thread (run_iteration E run g) w = (Inr (Again c), w')"
  shows "progress run (w_db w) (w_db w')"
proof -
  from go have "run_thread (schedule_node E run g) w = (Inr (Again c), w')"
    unfolding run_iteration_def read_status_def read_barrier_def
    by (auto elim!: run_bind_InrE run_reading_InrE run_seq_InrE run_return_InrE end_with_returned
        split: if_splits simp del: run_seq run_bind run_return)
  from schedule_progress [OF quiet keys env leaves this] show ?thesis .
qed

lemma ended_iteration:
  assumes "has_ended run (w_db w)"
  obtains s where "run_thread (run_iteration E run g) w = (Inr (Returned s), w)"
proof -
  from assms obtain r where "find_run run (w_db w) = Some r" "terminal (rn_status r)"
    by (auto simp: has_ended_def)
  then have "run_thread (run_iteration E run g) w = (Inr (Returned (rn_status r)), w)"
    by (simp add: run_iteration_def read_status_def reading_def run_status_of_def required_run_found
        bind_op_def ret_def)
  then show ?thesis by (rule that)
qed

lemma iteration_runs_ok:
  assumes "runs_ok (w_db w)" and "env_quiet E" and "run_thread (run_iteration E run g) w = (x, w')"
  shows "runs_ok (w_db w')"
proof -
  have "(on_db (preserves runs_ok))\<^sup>*\<^sup>* w w'"
    using steps_run [OF runs_db.lifted.iteration_in [OF assms(2)], of w run g] assms(3) by simp
  then show ?thesis
    using assms(1) by (induction rule: rtranclp_induct) (auto simp: on_db_def preserves_def)
qed

lemma loop_returns_from:
  assumes env: "env_quiet E" "answers_at_once E" and leaves: "all_local g"
  shows "runs_ok (w_db w) \<Longrightarrow> has_ended run (w_db w) \<and> fuel \<ge> 1 \<or>
      quiescent run (w_db w) \<and> work_left run (w_db w) + 2 \<le> fuel \<Longrightarrow>
    fst (run_thread (run_loop fuel E run g m k) w) \<noteq> Inr None"
proof (induction fuel arbitrary: w k)
  case (Suc fuel)
  show ?case
  proof (cases "case m of None \<Rightarrow> True | Some m \<Rightarrow> k < m")
    case False
    then show ?thesis
      by (auto simp: map_t_def read_status_def reading_def bind_op_def ret_def split: sum.splits)
  next
    case True
    obtain out w' where it: "run_thread (run_iteration E run g) w = (out, w')" by fastforce
    note ok' = iteration_runs_ok [OF Suc.prems(1) env(1) it]
    consider e where "out = Inl e" | s where "out = Inr (Returned s)" | c where "out = Inr (Again c)"
      by (cases out) (metis iteration.exhaust)+
    then show ?thesis
    proof cases
      case (3 c)
      have "\<not> has_ended run (w_db w)" using ended_iteration [of run w E g] it 3 by auto
      with Suc.prems(2) have q: "quiescent run (w_db w)" "work_left run (w_db w) + 2 \<le> Suc fuel" by auto
      have "distinct (map node_key (db_nodes (w_db w)))" using Suc.prems(1) by (simp add: runs_ok_def)
      from iteration_progress [OF q(1) this env leaves it [unfolded 3]]
      have "has_ended run (w_db w') \<and> fuel \<ge> 1 \<or>
          quiescent run (w_db w') \<and> work_left run (w_db w') + 2 \<le> fuel"
        using q(2) by (auto simp: progress_def)
      from Suc.IH [OF ok' this] True it 3 show ?thesis by (simp add: bind_op_def)
    qed (use True it in \<open>simp_all add: bind_op_def ret_def\<close>)
  qed
qed simp

text \<open>
  C24. The scheduler comes to an end. In every reachable state, for a run without a barrier none of
  whose nodes is executing, whose graph has only locally executed nodes, and whose Verifier answers
  within the call: \<open>run\<close> returns a status or raises within as many iterations as executor calls and
  unrouted results are left, plus two. No cycle of repair edges keeps it going.
\<close>

theorem run_terminates:
  assumes "reach E s" and "env_quiet E" and "answers_at_once E" and "all_local g" and "w = snd s"
    and "find_run run (w_db w) = Some r" and "rn_barrier r = None" and "idle run (db_nodes (w_db w))"
    and "work_left run (w_db w) + 2 \<le> fuel"
  shows "(\<exists>status. fst (run_thread (run_loop fuel E run g m 0) w) = Inr (Some status)) \<or>
    (\<exists>e. fst (run_thread (run_loop fuel E run g m 0) w) = Inl e)"
proof -
  have ok: "runs_ok (w_db w)" using runs_always.world.always [OF assms(1,2)] assms(5) by simp
  have "quiescent run (w_db w)" using assms(6-8) by (simp add: quiescent_def)
  then have "fst (run_thread (run_loop fuel E run g m 0) w) \<noteq> Inr None"
    using assms(9) by (intro loop_returns_from [OF assms(2-4) ok]) simp
  then show ?thesis
    by (cases "fst (run_thread (run_loop fuel E run g m 0) w)") (auto simp flip: not_None_eq)
qed

lemma sample_answers: "answers_at_once sample_env"
  by (auto simp: answers_at_once_def sample_env_def ver_result_of_def split: if_splits)

theorem run_terminates_witness:
  "(\<exists>status. fst (run_thread (run_loop 7 sample_env ''r'' sample_graph None 0) sample_world) = Inr (Some status)) \<or>
   (\<exists>e. fst (run_thread (run_loop 7 sample_env ''r'' sample_graph None 0) sample_world) = Inl e)"
proof -
  obtain r where r: "find_run ''r'' (w_db sample_world) = Some r" "rn_barrier r = None"
    using sample_row by auto
  have idle: "idle ''r'' (db_nodes (w_db sample_world))" unfolding idle_def by code_simp
  have "work_left ''r'' (w_db sample_world) = 5" by code_simp
  then have fuel: "work_left ''r'' (w_db sample_world) + 2 \<le> 7" by simp
  have "all_local sample_graph" unfolding all_local_def by code_simp
  from run_terminates [OF sample_reach sample_quiet sample_answers this snd_conv [symmetric] r idle fuel]
  show ?thesis .
qed

section \<open>A cancellation that was cut off\<close>

lemma stuck_iteration:
  assumes "find_run run (w_db w) = Some r" and "rn_status r = RS_Quiescing" and "rn_barrier r = Some B_Cancel"
    and "budget_limit_reached run None False False (w_now w) (w_db w) = Inr False"
    and "next_node_row run (w_db w) = None" and "unresolved_row run (w_db w) = Some row"
  shows "run_thread (run_iteration E run g) w = (Inr (Again False), w)"
proof -
  have "run_thread (route_result run g k) w = (Inr (), w)" for k
    using assms(1,3)
    by (simp add: route_result_def honor_barrier_def read_barrier_def reading_def barrier_of_def
        required_run_found bind_op_def ret_def)
  then show ?thesis
    using assms
    by (simp add: run_iteration_def schedule_node_def read_status_def read_barrier_def reading_def
        run_status_of_def barrier_of_def required_run_found bind_op_def seq_op_def ret_def)
qed

text \<open>
  \<open>cancel\<close> first commits the status QUIESCING with the barrier \<open>cancel\<close> and ends the run later.
  If the process stops in between while a result waits for its route, then a later \<open>run\<close> (after
  \<open>recover\<close>) changes nothing and never returns as long as the budget lasts: every iteration finds the same
  unresolved result, and the route is refused by the barrier that no one clears.
\<close>

theorem cut_off_cancel_spins:
  assumes "find_run run (w_db w) = Some r" and "rn_status r = RS_Quiescing" and "rn_barrier r = Some B_Cancel"
    and "budget_limit_reached run None False False (w_now w) (w_db w) = Inr False"
    and "next_node_row run (w_db w) = None" and "unresolved_row run (w_db w) = Some row"
  shows "run_thread (run_loop fuel E run g None k) w = (Inr None, w)"
proof (induction fuel)
  case 0
  then show ?case by (simp add: ret_def)
next
  case (Suc fuel)
  with stuck_iteration [OF assms, of E g] show ?case by (simp add: bind_op_def)
qed

definition sample_cut_off :: "nat system" where
  \<comment> \<open>a result is recorded, a cancellation commits its first transaction, and the process stops\<close>
  "sample_cut_off = ([], crash_at 0 (snd (go 2 1 (fst (go 1 8 sample_pool) @ [cancel sample_env ''r''],
     snd (go 1 8 sample_pool)))))"

lemma sample_cut_off_reach: "reach sample_env sample_cut_off"
proof -
  obtain ts w where s: "go 1 8 sample_pool = (ts, w)" by fastforce
  have "reach sample_env (ts, w)" using reach_go [OF sample_pool_reach, of 1 8] unfolding s .
  then have "reach sample_env (ts @ [cancel sample_env ''r''], w)"
    by (rule reach_step) (intro sys_call call_cancel)
  then have r: "reach sample_env (go 2 1 (ts @ [cancel sample_env ''r''], w))" by (rule reach_go)
  obtain us v where g: "go 2 1 (ts @ [cancel sample_env ''r''], w) = (us, v)" by fastforce
  from r have "reach sample_env ([], crash_at 0 v)" unfolding g by (rule reach_step) (rule sys_crash)
  then show ?thesis unfolding sample_cut_off_def s fst_conv snd_conv g .
qed

theorem cut_off_cancel_spins_witness:
  "reach sample_env sample_cut_off \<and>
   run_thread (run_loop 1000 sample_env ''r'' sample_graph None 0) (snd sample_cut_off) =
     (Inr None, snd sample_cut_off)"
proof
  show "reach sample_env sample_cut_off" by (rule sample_cut_off_reach)
  have st: "map_option (\<lambda>r. (rn_status r, rn_barrier r)) (find_run ''r'' (w_db (snd sample_cut_off))) =
      Some (RS_Quiescing, Some B_Cancel)"
    and budget: "budget_limit_reached ''r'' None False False (w_now (snd sample_cut_off))
      (w_db (snd sample_cut_off)) = Inr False"
    and next_none: "next_node_row ''r'' (w_db (snd sample_cut_off)) = None"
    and waiting: "map_option nr_node (unresolved_row ''r'' (w_db (snd sample_cut_off))) = Some ''i''"
    by code_simp+
  from st obtain r where r: "find_run ''r'' (w_db (snd sample_cut_off)) = Some r"
    "rn_status r = RS_Quiescing" "rn_barrier r = Some B_Cancel" by auto
  from waiting obtain row where "unresolved_row ''r'' (w_db (snd sample_cut_off)) = Some row" by auto
  from cut_off_cancel_spins [OF r budget next_none this]
  show "run_thread (run_loop 1000 sample_env ''r'' sample_graph None 0) (snd sample_cut_off) =
     (Inr None, snd sample_cut_off)" .
qed

end
