(* ===== verification/Races.thy ===== *)
theory Races
  imports Progress
begin

text \<open>
  Two reachable interleavings that the code does not rule out; neither is a property of a single
  call, both need a second caller or a crash between two transactions of one method.
\<close>

definition call_and_go :: "(nat world, unit) thread \<Rightarrow> nat \<Rightarrow> nat \<Rightarrow> nat system \<Rightarrow> nat system" where
  \<comment> \<open>a new call with number \<open>i\<close> takes \<open>n\<close> steps\<close>
  "call_and_go t i n s = go i n (fst s @ [t], snd s)"

lemma reach_call_and_go: "reach sample_env s \<Longrightarrow> api_call sample_env t \<Longrightarrow> reach sample_env (call_and_go t i n s)"
  unfolding call_and_go_def
  by (rule reach_go, cases s) (auto intro: reach_step sys_call)

definition run_status_in :: "nat system \<Rightarrow> run_status option" where
  "run_status_in s = map_option rn_status (find_run ''r'' (w_db (snd s)))"

definition paused_request :: "(nat world, unit) thread" where
  "paused_request = map_t (\<lambda>_. ()) (control sample_env (ChangeIntent (sample_change ''k'' CA_Pause)))"

text \<open>
  \<open>_pause_at_safe_point\<close> writes PAUSED without looking at the status again: a scheduler that has read
  PAUSE_REQUESTED, then a complete \<open>cancel\<close>, then the scheduler's write. The run has ended, its
  report is frozen as CANCELLED, and it is PAUSED afterwards.
\<close>

definition before_late_pause :: "nat system" where
  "before_late_pause = call_and_go (cancel sample_env ''r'') 3 12 (call_and_go sample_run 2 2
     (call_and_go paused_request 1 12 ([Done (fst (run_thread sample_create (first_world 0 1)))], sample_world)))"

lemma before_late_pause_reach: "reach sample_env before_late_pause"
  unfolding before_late_pause_def paused_request_def sample_run_def
  by (intro reach_call_and_go sample_reach call_cancel call_run call_control)

lemma late_pause_revives_run:
  "reach sample_env before_late_pause \<and> run_status_in before_late_pause = Some RS_Cancelled \<and>
   lookup_row rp_run ''r'' (db_reports (w_db (snd before_late_pause))) \<noteq> None \<and>
   run_status_in (step_nth 2 before_late_pause) = Some RS_Paused"
proof (intro conjI)
  show "reach sample_env before_late_pause" by (rule before_late_pause_reach)
  show "run_status_in before_late_pause = Some RS_Cancelled"
    and "run_status_in (step_nth 2 before_late_pause) = Some RS_Paused"
    and "lookup_row rp_run ''r'' (db_reports (w_db (snd before_late_pause))) \<noteq> None"
    by code_simp+
qed

text \<open>
  \<open>_finish\<close> commits the terminal status before \<open>_freeze_report\<close> runs: when the process stops in
  between, the run has ended without a FinalReport, and ending it again does nothing.
\<close>

definition cut_off_finish :: "nat system" where
  "cut_off_finish = ([], crash_at 0 (snd (call_and_go (cancel sample_env ''r'') 1 5
     ([Done (fst (run_thread sample_create (first_world 0 1)))], sample_world))))"

lemma cut_off_finish_reach: "reach sample_env cut_off_finish"
proof -
  define s where "s = call_and_go (cancel sample_env ''r'') 1 5
     ([Done (fst (run_thread sample_create (first_world 0 1)))], sample_world)"
  have "reach sample_env s"
    unfolding s_def by (intro reach_call_and_go sample_reach call_cancel)
  then have "reach sample_env ([], crash_at 0 (snd s))"
    by (cases s) (auto intro: reach_step sys_crash)
  then show ?thesis by (simp add: cut_off_finish_def s_def)
qed

lemma cut_off_finish_loses_report:
  "reach sample_env cut_off_finish \<and> run_status_in cut_off_finish = Some RS_Cancelled \<and>
   lookup_row rp_run ''r'' (db_reports (w_db (snd cut_off_finish))) = None \<and>
   run_thread (finish ''r'' TS_Cancelled TR_HumanCancelled None) (snd cut_off_finish) =
     (Inr (), snd cut_off_finish)"
proof -
  have st: "run_status_in cut_off_finish = Some RS_Cancelled"
    and none: "lookup_row rp_run ''r'' (db_reports (w_db (snd cut_off_finish))) = None" by code_simp+
  from st obtain r where r: "find_run ''r'' (w_db (snd cut_off_finish)) = Some r" "rn_status r = RS_Cancelled"
    by (auto simp: run_status_in_def)
  then have "run_thread (finish ''r'' TS_Cancelled TR_HumanCancelled None) (snd cut_off_finish) =
     (Inr (), snd cut_off_finish)"
    by (simp add: finish_def finish_tx_def tx_op_def bind_op_def ask_def required_run_found ret_def)
  with cut_off_finish_reach st none show ?thesis by blast
qed

end
