(* ===== verification/Reservations.thy ===== *)
theory Reservations
  imports Run_Rows Safety
begin

text \<open>
  Cost reservations (\<open>reserve_cost\<close>): each is made once, is covered by the cost charged to its run,
  and together they stay within the cost limit of the run.
\<close>

section \<open>Transactions that make no reservation\<close>

definition same_reservations :: "db \<Rightarrow> db \<Rightarrow> bool" where
  "same_reservations d d' \<longleftrightarrow> db_reservations d' = db_reservations d"

lemma reservations_kept:
  "start_attempt_tx H run n now d = (Inr a, d') \<Longrightarrow> db_reservations d' = db_reservations d"
  "route_tx run g e repair now d = (Inr x, d') \<Longrightarrow> db_reservations d' = db_reservations d"
  "branch_route_tx run c b e repair now d = (Inr x, d') \<Longrightarrow> db_reservations d' = db_reservations d"
  "start_branch_attempt_tx H run c b n now d = (Inr a, d') \<Longrightarrow> db_reservations d' = db_reservations d"
  "charge_tx run cost nd now d = (Inr u, d') \<Longrightarrow> db_reservations d' = db_reservations d"
  unfolding start_attempt_tx_def route_tx_def branch_route_tx_def start_branch_attempt_tx_def
    charge_tx_def insert_attempt_def insert_battempt_def trigger_external_def put_trigger_def Let_def
  by (auto elim!: inversions split: if_splits option.splits
      simp: take_edge_def charge_repair_def take_bedge_def repair_bnode_def update_branch_def
        update_bnode_def bump_bedge_def bump_edge_def update_budget_def update_node_def
        update_run_def add_node_cost_def)


lemma reservations_trigger: "op_in same_reservations (trigger_external H run n k)"
  by (auto simp: op_in_def trigger_external_def put_trigger_def Let_def op_defs same_reservations_def
      split: sum.split option.split)

lemma reservations_inserts:
  "op_in same_reservations (insert_branch br)" "op_in same_reservations (insert_bnode bn)"
  "op_in same_reservations (insert_bedge be)" "op_in same_reservations (insert_run rr)"
  "op_in same_reservations (insert_node nn)" "op_in same_reservations (insert_edge ee)"
  "op_in same_reservations (insert_budget bb)"
  unfolding insert_branch_def insert_bnode_def insert_bedge_def insert_run_def insert_node_def
    insert_edge_def insert_budget_def
  by (rule op_in_insert; simp add: same_reservations_def)+

interpretation unreserved: quiet_writes same_reservations
  by unfold_locales (simp_all add: same_reservations_def update_run_def update_node_def update_bnode_def
      update_attempt_def update_battempt_def update_branch_def update_handle_def enqueue_event_def
      modify_def add_checkpoint_def put_artifact_def put_report_def)

lemma reservations_branches:
  "op_in same_reservations (initialize H run ns)" "op_in same_reservations (inherit run im)"
  "op_in same_reservations (inherit_run run im)"
  unfolding initialize_def initialize_node_def inherit_def inherit_branch_def inherit_bnode_def
    inherit_bedge_def inherit_run_def inherit_artifact_def
  by (intro unreserved.op_intros reservations_inserts;
      simp add: same_reservations_def update_bnode_def update_branch_def)+

lemma reservations_create: "op_in same_reservations (create_run_tx H r p g h budget rel restart now)"
  unfolding create_run_tx_def
  by (intro unreserved.quiet_rules reservations_inserts reservations_branches)

section \<open>The invariant\<close>

definition reserved :: "string \<Rightarrow> db \<Rightarrow> rat" where
  "reserved run d = sum_list (map rv_cost (filter (\<lambda>v. rv_run v = run) (db_reservations d)))"

definition spent :: "budget_row \<Rightarrow> rat" where
  "spent b = case_option 0 id (bd_cost b)"

definition covers :: "db \<Rightarrow> budget_row \<Rightarrow> bool" where
  "covers d b \<longleftrightarrow> reserved (bd_run b) d \<le> spent b \<and>
     (case bd_max_cost b of None \<Rightarrow> reserved (bd_run b) d = 0 | Some m \<Rightarrow> reserved (bd_run b) d \<le> m)"

definition reservations_ok :: "db \<Rightarrow> bool" where
  "reservations_ok d \<longleftrightarrow> distinct (map bd_run (db_budgets d)) \<and>
     distinct (map reservation_key (db_reservations d)) \<and>
     rv_run ` set (db_reservations d) \<subseteq> bd_run ` set (db_budgets d) \<and>
     (\<forall>b \<in> set (db_budgets d). covers d b)"

definition cost_view :: "budget_row \<Rightarrow> string \<times> rat option \<times> rat option" where
  "cost_view b = (bd_run b, bd_cost b, bd_max_cost b)"

lemma covers_view:
  "cost_view b' = cost_view b \<Longrightarrow> db_reservations d' = db_reservations d \<Longrightarrow> covers d' b' = covers d b"
  by (cases "bd_max_cost b") (simp_all add: covers_def cost_view_def reserved_def spent_def)

lemma reserved_cong: "db_reservations d' = db_reservations d \<Longrightarrow> reserved run d' = reserved run d"
  by (simp add: reserved_def)

lemma reservations_by:
  assumes runs: "map bd_run (db_budgets d') = map bd_run (db_budgets d)"
    and keys: "reservations_ok d \<Longrightarrow> distinct (map reservation_key (db_reservations d'))"
    and res: "rv_run ` set (db_reservations d') \<subseteq> rv_run ` set (db_reservations d) \<union> bd_run ` set (db_budgets d)"
    and cov: "\<And>b'. reservations_ok d \<Longrightarrow> b' \<in> set (db_budgets d') \<Longrightarrow> covers d' b'"
  shows "preserves reservations_ok d d'"
  unfolding preserves_def
proof
  assume ok: "reservations_ok d"
  from runs have sets: "bd_run ` set (db_budgets d') = bd_run ` set (db_budgets d)"
    by (metis list.set_map)
  show "reservations_ok d'"
    unfolding reservations_ok_def sets runs
    using ok keys [OF ok] cov [OF ok] res by (simp add: reservations_ok_def) blast
qed

lemma reservations_frame:
  assumes "db_reservations d' = db_reservations d"
    and "map cost_view (db_budgets d') = map cost_view (db_budgets d)"
  shows "preserves reservations_ok d d'"
proof (rule reservations_by)
  from assms(2) have "map fst (map cost_view (db_budgets d')) = map fst (map cost_view (db_budgets d))"
    by (rule arg_cong)
  then show "map bd_run (db_budgets d') = map bd_run (db_budgets d)"
    by (simp add: o_def cost_view_def)
  show "covers d' b'" if ok: "reservations_ok d" and b': "b' \<in> set (db_budgets d')" for b'
  proof -
    from b' have "cost_view b' \<in> set (map cost_view (db_budgets d))" unfolding assms(2) [symmetric] by simp
    then obtain b where b: "b \<in> set (db_budgets d)" "cost_view b' = cost_view b" by auto
    with ok have "covers d b" by (simp add: reservations_ok_def)
    with covers_view [OF b(2) assms(1)] show ?thesis by simp
  qed
qed (use assms(1) in \<open>auto simp: reservations_ok_def\<close>)

lemma reservations_same: "db_reservations d' = db_reservations d \<Longrightarrow> db_budgets d' = db_budgets d \<Longrightarrow>
    preserves reservations_ok d d'"
  by (rule reservations_frame) simp_all

lemma spend_views: "cost_view (spend_call b) = cost_view b" "cost_view (spend_repair b) = cost_view b"
  by (simp_all add: cost_view_def spend_call_def spend_repair_def)

lemma update_views:
  "(\<And>b. cost_view (f b) = cost_view b) \<Longrightarrow>
    map cost_view (db_budgets (update_budget run f d)) = map cost_view (db_budgets d)"
  by (simp add: update_budget_def change_row_def map_update_where)

text \<open>Charging a cost, with or without the reservation of the same amount.\<close>

lemma add_cost_simps [simp]: "bd_run (add_cost c b) = bd_run b" "bd_max_cost (add_cost c b) = bd_max_cost b"
  "spent (add_cost c b) = spent b + c"
  by (simp_all add: add_cost_def spent_def)

lemma budgets_add_cost:
  "db_budgets (update_budget run (add_cost c) d) =
     map (\<lambda>b. if bd_run b = run then add_cost c b else b) (db_budgets d)"
  by (simp add: update_budget_def change_row_def update_where_def)

lemma charge_keeps_reservations:
  assumes "c > 0" and "db_reservations d' = db_reservations d"
    and "db_budgets d' = db_budgets (update_budget run (add_cost c) d)"
  shows "preserves reservations_ok d d'"
proof (rule reservations_by)
  show "map bd_run (db_budgets d') = map bd_run (db_budgets d)"
    unfolding assms(3) budgets_add_cost by simp
  show "covers d' b'" if ok: "reservations_ok d" and b': "b' \<in> set (db_budgets d')" for b'
  proof -
    from b' obtain b where b: "b \<in> set (db_budgets d)" "b' = (if bd_run b = run then add_cost c b else b)"
      unfolding assms(3) budgets_add_cost by auto
    have "covers d b" using ok b(1) by (simp add: reservations_ok_def)
    with b(2) assms(1) show ?thesis
      by (auto simp: covers_def reserved_cong [OF assms(2)] split: option.splits)
  qed
qed (use assms(2) in \<open>auto simp: reservations_ok_def\<close>)

lemma reserve_keeps_reservations:
  assumes "c > 0" and new: "lookup_row reservation_key (run, k) (db_reservations d) = None"
    and res: "db_reservations d' = db_reservations d @ [\<lparr>rv_run = run, rv_id = k, rv_node = n, rv_cost = c\<rparr>]"
    and budgets: "db_budgets d' = db_budgets (update_budget run (add_cost c) d)"
    and room: "run_has_room run c d = Inr True"
  shows "preserves reservations_ok d d'"
proof (rule reservations_by)
  show "map bd_run (db_budgets d') = map bd_run (db_budgets d)"
    unfolding budgets budgets_add_cost by simp
  have sum: "reserved x d' = reserved x d + (if x = run then c else 0)" for x
    by (simp add: reserved_def res)
  from room obtain a m where a: "find_budget run d = Some a" "bd_max_cost a = Some m" "spent a + c \<le> m"
    by (auto simp: run_has_room_def spent_def split: option.splits bind_splits)
  then have in_a: "a \<in> set (db_budgets d)" "bd_run a = run" by (auto dest: find_budget_in)
  show "covers d' b'" if ok: "reservations_ok d" and b': "b' \<in> set (db_budgets d')" for b'
  proof -
    from b' obtain b where b: "b \<in> set (db_budgets d)" "b' = (if bd_run b = run then add_cost c b else b)"
      unfolding budgets budgets_add_cost by auto
    have cov: "covers d b" and dist: "distinct (map bd_run (db_budgets d))"
      using ok b(1) by (simp_all add: reservations_ok_def)
    have "b = a" if "bd_run b = run"
      using dist b(1) in_a that by (simp add: distinct_map inj_on_def)
    with cov b(2) a show ?thesis
      by (auto simp: covers_def sum split: option.splits)
  qed
  show "distinct (map reservation_key (db_reservations d'))" if "reservations_ok d"
    using that new unfolding res
    by (auto simp: reservations_ok_def lookup_row_None reservation_key_def)
  show "rv_run ` set (db_reservations d') \<subseteq> rv_run ` set (db_reservations d) \<union> bd_run ` set (db_budgets d)"
    using in_a unfolding res by auto
qed

lemma create_keeps_reservations:
  assumes "validate_budget budget = Inr ()"
  shows "ok_in (preserves reservations_ok) (create_run_tx H r p g h budget rel restart now)"
proof (rule ok_inI)
  fix d x d'
  assume t: "create_run_tx H r p g h budget rel restart now d = (Inr x, d')"
  have same: "db_reservations d' = db_reservations d"
    using op_inD [OF reservations_create] t by (metis same_reservations_def snd_conv)
  from t show "preserves reservations_ok d d'"
  proof (rule create_effect)
    assume new: "r \<notin> bd_run ` set (db_budgets d)"
      and b: "db_budgets d' = db_budgets d @ [new_budget r budget now]"
    show "preserves reservations_ok d d'" unfolding preserves_def
    proof
      assume ok: "reservations_ok d"
      then have "filter (\<lambda>v. rv_run v = r) (db_reservations d) = []"
        using new by (auto simp: reservations_ok_def filter_empty_conv)
      then have "reserved r d' = 0" by (simp add: reserved_def same)
      then have "covers d' (new_budget r budget now)"
        using assms by (auto simp: covers_def new_budget_def spent_def validate_budget_def split: option.splits)
      moreover have "covers d' b \<longleftrightarrow> covers d b" for b by (rule covers_view [OF refl same])
      moreover have "bd_run (new_budget r budget now) = r" by (simp add: new_budget_def)
      ultimately show "reservations_ok d'" using ok new by (auto simp: reservations_ok_def b same)
    qed
  qed
qed


interpretation reservations_quiet: quiet_writes "preserves reservations_ok"
proof (unfold_locales, goal_cases)
  case (2 s t u)
  then show ?case by (auto simp: preserves_def)
qed (simp add: reservations_same update_run_def update_node_def update_bnode_def update_attempt_def
    update_battempt_def update_branch_def update_handle_def enqueue_event_def modify_def
    add_checkpoint_def put_artifact_def put_report_def)+

lemma spends_keep_reservations:
  assumes "db_reservations d' = db_reservations d"
    and "db_budgets d' = db_budgets d \<or> db_budgets d' = db_budgets (update_budget run spend_call d) \<or>
      db_budgets d' = db_budgets (update_budget run spend_repair d)"
  shows "preserves reservations_ok d d'"
  using assms(2) by (auto intro!: reservations_frame [OF assms(1)] simp: update_views spend_views)

interpretation reservations_spend: spending "preserves reservations_ok"
proof (unfold_locales, goal_cases)
  case (1 g budget rel r H p h restart now)
  show ?case by (rule create_keeps_reservations) (rule 1)
next
  case (2 H r n now)
  show ?case
    by (rule ok_inI, frule reservations_kept, erule start_attempt_effect)
      (auto intro: spends_keep_reservations split: if_splits)
next
  case (3 r g e rep now)
  show ?case
    by (rule ok_inI, frule reservations_kept, erule route_effect)
      (auto intro: spends_keep_reservations split: if_splits)
next
  case (4 r c b e rep now)
  show ?case
    by (rule ok_inI, frule reservations_kept, erule branch_route_effect)
      (auto intro: spends_keep_reservations split: if_splits)
next
  case (5 H r c b n now)
  show ?case
    by (rule ok_inI, frule reservations_kept, erule start_branch_attempt_effect)
      (auto intro: spends_keep_reservations)
next
  case (6 cost r nd now)
  then show ?case
    by (intro ok_inI, frule_tac reservations_kept(5), elim charge_effect)
      (auto intro: charge_keeps_reservations)
next
  case (7 cost gr r k nd now)
  then show ?case
    by (intro ok_inI, elim reserve_effect) (auto simp: preserves_def [of _ d d for d]
        intro: reserve_keeps_reservations)
qed

interpretation reservations_db: db_relation "preserves reservations_ok"
  by unfold_locales (simp add: reservations_same)

interpretation reservations_always: db_invariant reservations_ok
  by unfold_locales (simp_all add: reservations_ok_def empty_db_def)


text \<open>The sample run with one reservation of three units.\<close>

definition sample_reserve :: "(nat world, unit) thread" where
  "sample_reserve = map_t (\<lambda>_. ()) (reserve_cost ''r'' ''k'' 3 None)"

definition sample_reserved :: "nat world" where
  "sample_reserved = snd (run_thread sample_reserve sample_world)"

lemma sample_reserved_reach: "\<exists>ts. reach sample_env (ts, sample_reserved)"
  unfolding sample_reserved_def sample_reserve_def by (intro sample_call_reach call_reserve)


section \<open>Reserving once\<close>

lemma reserve_cost_result:
  assumes "run_thread (reserve_cost run k c n) w = (Inr ok, w')"
  obtains d wrote where "k \<noteq> []" and "c > 0"
    and "reserve_tx (cached_graph run w) run k c n (w_now w) (w_db w) = (Inr (ok, wrote), d)"
    and "w' = (if wrote then flush_world (w\<lparr>w_db := d\<rparr>) else w\<lparr>w_db := d\<rparr>)"
proof -
  obtain x d where t: "reserve_tx (cached_graph run w) run k c n (w_now w) (w_db w) = (x, d)" by fastforce
  from assms that show ?thesis
    unfolding reserve_cost_def reserve_atomic_def
    by (cases x) (auto simp: bind_op_def seq_op_def tx_op_def t require_t_def atomic_def modify_def
        return_t_def split: if_splits prod.splits sum.splits)
qed

text \<open>
  A cost is reserved exactly once: when \<open>reserve_cost\<close> answers yes, then the run's budget has been
  charged with exactly this cost if there was no such reservation before, and with nothing if there was, the
  row is there, and every later call with the same arguments, whatever happened in between (other
  callers, the end of the run, crashes), answers yes again and changes nothing. When it answers
  no, it has changed nothing.
\<close>

theorem reserve_exactly_once:
  assumes "reach E (ts, w)" and "env_quiet E" and "run_thread (reserve_cost run k c n) w = (Inr ok, w')"
  shows "(\<not> ok \<longrightarrow> w' = w) \<and>
    (ok \<longrightarrow> lookup_row reservation_key (run, k) (db_reservations (w_db w')) =
        Some \<lparr>rv_run = run, rv_id = k, rv_node = n, rv_cost = c\<rparr> \<and>
      map_option spent (find_budget run (w_db w')) = map_option (\<lambda>b. spent b +
        (if lookup_row reservation_key (run, k) (db_reservations (w_db w)) = None then c else 0))
        (find_budget run (w_db w)) \<and>
      (\<forall>us s. reach E (us, w') \<and> (sys_step E)\<^sup>*\<^sup>* (us, w') s \<longrightarrow>
        run_thread (reserve_cost run k c n) (snd s) = (Inr True, snd s)))"
proof -
  let ?row = "\<lparr>rv_run = run, rv_id = k, rv_node = n, rv_cost = c\<rparr>"
  from assms(3) obtain d wrote where args: "k \<noteq> []" "c > 0"
    and t: "reserve_tx (cached_graph run w) run k c n (w_now w) (w_db w) = (Inr (ok, wrote), d)"
    and w': "w' = (if wrote then flush_world (w\<lparr>w_db := d\<rparr>) else w\<lparr>w_db := d\<rparr>)"
    by (rule reserve_cost_result)
  have again: "run_thread (reserve_cost run k c n) v = (Inr True, v)"
    if "lookup_row reservation_key (run, k) (db_reservations (w_db v)) = Some ?row" for v :: "'a world"
    using that args unfolding reserve_cost_def reserve_atomic_def reserve_tx_def
    by (simp add: bind_op_def seq_op_def tx_op_def require_t_def atomic_def gets_def guard_def ret_def
        return_t_def)
  have later: "run_thread (reserve_cost run k c n) (snd s) = (Inr True, snd s)"
    if r: "reach E (us, w')" "(sys_step E)\<^sup>*\<^sup>* (us, w') s"
      and row: "lookup_row reservation_key (run, k) (db_reservations (w_db w')) = Some ?row" for us s
  proof (rule again)
    have "prefix (db_reservations (w_db w')) (db_reservations (w_db (snd s)))"
      using journal_steps [OF r(2,1) assms(2)] by (simp add: journal_def)
    from lookup_row_prefix [OF this row]
    show "lookup_row reservation_key (run, k) (db_reservations (w_db (snd s))) = Some ?row" .
  qed
  from t show ?thesis
  proof (cases rule: reserve_effect)
    case 1
    then have same: "w' = w" using w' by simp
    have "lookup_row reservation_key (run, k) (db_reservations (w_db w)) = Some ?row" if ok
    proof -
      from t that 1 obtain x where x: "lookup_row reservation_key (run, k) (db_reservations (w_db w)) = Some x"
        "rv_cost x = c" "rv_node x = n"
        unfolding reserve_tx_def reserve_write_def
        by (auto elim!: inversions split: option.splits if_splits)
      then have "rv_run x = run" "rv_id x = k"
        by (auto simp: lookup_row_def reservation_key_def dest: find_SomeD)
      with x have "x = ?row" by (simp add: reservation_row.equality)
      with x(1) show ?thesis by simp
    qed
    with same later show ?thesis by auto
  next
    case (2 r)
    let ?w = "flush_world (w\<lparr>w_db := d\<rparr>)"
    obtain u where u: "w_db ?w = d\<lparr>db_outbox := u\<rparr>" using flush_world_db [of "w\<lparr>w_db := d\<rparr>"] by auto
    have row: "lookup_row reservation_key (run, k) (db_reservations (w_db w')) = Some ?row"
      using 2 w' u by (simp add: lookup_row_def reservation_key_def find_append)
    have "map_option spent (find_budget run (w_db w')) = map_option (\<lambda>b. spent b + c) (find_budget run (w_db w))"
      using 2 w' u by (simp add: find_budget_def update_budget_def lookup_change_row option.map_comp o_def)
    with 2 row later show ?thesis by auto
  qed
qed

theorem reserve_exactly_once_witness:
  "run_thread (reserve_cost ''r'' ''k'' 3 None) sample_reserved = (Inr True, sample_reserved)"
proof -
  obtain ts where r: "reach sample_env (ts, sample_reserved)" using sample_reserved_reach by blast
  have w: "sample_reserved = snd (run_thread (reserve_cost ''r'' ''k'' 3 None) sample_world)"
    by (simp add: sample_reserved_def sample_reserve_def map_t_def bind_op_def
        return_t_def split: prod.split sum.split)
  have "fst (run_thread (reserve_cost ''r'' ''k'' 3 None) sample_world) = Inr True" by code_simp
  with w have "run_thread (reserve_cost ''r'' ''k'' 3 None) sample_world = (Inr True, sample_reserved)"
    by (metis prod.collapse)
  from reserve_exactly_once [OF sample_reach sample_quiet this] r show ?thesis by force
qed

end
