(* ===== verification/Aggregation.thy ===== *)
theory Aggregation
  imports Samples "HOL-Library.Multiset"
begin

text \<open>
  Joining the branches of a container (\<open>aggregate\<close> and \<open>_aggregate\<close> of \<open>runtime/parallel.py\<close>): the
  result is valid whenever its branches are, and does not depend on the order in which the
  branches were stored or finished.
\<close>

definition ended_rows :: "branch_row list \<Rightarrow> bool" where
  "ended_rows rows \<longleftrightarrow> rows \<noteq> [] \<and> distinct (map bh_branch rows) \<and>
     (\<forall>b \<in> set rows. branch_ended (bh_status b) \<and> (\<exists>r. bh_result b = Some r \<and>
        validate_branch_result r = Inr () \<and> br_id r = bh_branch b))"

definition results_of :: "branch_row list \<Rightarrow> branch_result list" where
  "results_of rows = map (\<lambda>b. the (bh_result b)) rows"

lemma collect_stored:
  assumes "\<forall>b \<in> set rows. \<exists>r. bh_result b = Some r \<and> validate_branch_result r = Inr ()"
  shows "collect stored_branch rows = Inr (results_of rows)"
  unfolding results_of_def
proof (rule collect_Inr)
  show "stored_branch b = Inr (the (bh_result b))" if "b \<in> set rows" for b
    using assms that by (force simp: stored_branch_def construct_ok)
qed

lemma failures_of_failed:
  assumes "\<forall>b \<in> set bs. validate_branch_result b = Inr ()" and "b \<in> set bs" and "br_status b = BS_Failed"
  shows "branch_failures bs \<noteq> []"
  using assms by (force simp: branch_failures_def validate_branch_result_def)

lemma aggregate_error_ok:
  "\<exists>e. aggregate_error status bs = Inr e \<and> (error_branch status \<longleftrightarrow> e \<noteq> None)"
proof -
  have "code_pattern ''parallel.branch_error''" "code_pattern ''parallel.blocked''" by code_simp+
  then show ?thesis
    by (auto simp: aggregate_error_def Let_def construct_ok validate_error_def)
qed

lemma joined_result_ok:
  assumes "bs \<noteq> []" and valid: "\<forall>b \<in> set bs. validate_branch_result b = Inr ()" and "c \<noteq> []"
    and ids: "sorted (map br_id bs)" "distinct (map br_id bs)"
  shows "\<exists>r. joined_result c bs = Inr r \<and> validate_par_result r = Inr () \<and> pr_node r = c \<and>
    pr_branches r = bs \<and> pr_status r = Max (br_status ` set bs)"
proof -
  obtain b rest where bs: "bs = b # rest" using assms(1) by (cases bs) auto
  define status where "status = max_status (br_status b) (map br_status rest)"
  have Max: "status = Max (br_status ` set bs)"
    unfolding status_def max_status_Max by (simp add: bs)
  then have "status \<in> br_status ` set bs" using assms(1) by simp
  then obtain x where "x \<in> set bs" "br_status x = status" by auto
  then have failures: "status = BS_Failed \<Longrightarrow> branch_failures bs \<noteq> []"
    using failures_of_failed [OF valid] by simp
  obtain e where e: "aggregate_error status bs = Inr e" "error_branch status \<longleftrightarrow> e \<noteq> None"
    using aggregate_error_ok by blast
  let ?r = "\<lparr>pr_node = c, pr_status = status,
      pr_summary = nat_str (length bs) @ '' branch result(s) joined as '' @ bs_value status,
      pr_branches = bs, pr_changed = sorted_set (concat (map br_changed bs)),
      pr_artifacts = by_id (concat (map br_artifacts bs)), pr_failures = branch_failures bs, pr_error = e\<rparr>"
  have "expected_status bs = Some status" by (simp add: expected_status_def bs status_def)
  then have v: "validate_par_result ?r = Inr ()"
    using assms(1,3) ids failures e(2) by (auto simp: validate_par_result_def)
  have "joined_result c bs = Inr ?r"
    using e(1) construct_ok [of validate_par_result, OF v] by (simp add: joined_result_def bs status_def [symmetric]) 
  with v Max show ?thesis by (intro exI [of _ ?r]) simp
qed

lemma order_by_perm:
  assumes "mset xs = mset ys" and "distinct (map f ys)"
  shows "order_by f xs = order_by f ys"
  unfolding order_by_def
proof (rule sort_key_inj_key_eq)
  show "mset xs = mset (sort_key f ys)" using assms(1) by simp
  have "set xs = set ys" using assms(1) by (rule mset_eq_setD)
  then show "inj_on f (set xs)" using assms(2) by (simp add: distinct_map)
qed simp

lemma container_rows_perm:
  "mset (db_branches d') = mset (db_branches d) \<Longrightarrow> mset (container_rows run c d') = mset (container_rows run c d)"
  by (simp add: container_rows_def mset_filter)

text \<open>
  C26. When every branch of a container has ended with a valid result, the aggregate exists, its own
  validator accepts it, its branches are exactly these results in the order of their ids, its status
  is the greatest by precedence, and it is the same for every order in which the branch rows are
  stored: the order in which the threads finish does not matter.
\<close>

theorem aggregate_is_deterministic:
  assumes rows: "ended_rows (container_rows run c d)" and "c \<noteq> []"
  shows "\<exists>r. aggregate run c d = Inr (Some r) \<and> validate_par_result r = Inr () \<and>
    mset (pr_branches r) = mset (results_of (container_rows run c d)) \<and>
    sorted (map br_id (pr_branches r)) \<and>
    pr_status r = Max (br_status ` set (pr_branches r)) \<and>
    (\<forall>d'. mset (db_branches d') = mset (db_branches d) \<longrightarrow> aggregate run c d' = Inr (Some r))"
proof -
  define rs where "rs = order_by bh_branch (container_rows run c d)"
  have set: "set rs = set (container_rows run c d)" and mset: "mset rs = mset (container_rows run c d)"
    by (simp_all add: rs_def order_by_def)
  have ne: "rs \<noteq> []" using rows by (simp add: ended_rows_def rs_def)
  have stored: "\<forall>b \<in> set rs. \<exists>r. bh_result b = Some r \<and> validate_branch_result r = Inr () \<and> br_id r = bh_branch b"
    and ended: "\<not> list_ex (\<lambda>b. \<not> branch_ended (bh_status b)) rs"
    using rows set by (auto simp: ended_rows_def list_ex_iff)
  have ids: "map br_id (results_of rs) = map bh_branch rs"
    using stored by (force simp: results_of_def)
  have sorted: "sorted (map bh_branch rs)" unfolding rs_def order_by_def by (rule sorted_sort_key)
  have "distinct (map bh_branch (container_rows run c d))" using rows by (simp add: ended_rows_def)
  then have dist: "distinct (map bh_branch rs)"
    using mset by (metis mset_eq_imp_distinct_iff mset_map)
  have valid: "\<forall>b \<in> set (results_of rs). validate_branch_result b = Inr ()"
    using stored by (force simp: results_of_def)
  obtain r where r: "joined_result c (results_of rs) = Inr r" "validate_par_result r = Inr ()"
    "pr_branches r = results_of rs" "pr_status r = Max (br_status ` set (results_of rs))"
  proof -
    have "results_of rs \<noteq> []" using ne by (simp add: results_of_def)
    from joined_result_ok [OF this valid assms(2)] that show ?thesis
      unfolding ids using sorted dist by blast
  qed
  have coll: "collect stored_branch rs = Inr (results_of rs)" by (rule collect_stored) (use stored in blast)
  have agg: "aggregate run c d = Inr (Some r)"
    using ne ended coll r(1) by (simp add: aggregate_def rs_def [symmetric])
  moreover have "aggregate run c d' = Inr (Some r)" if "mset (db_branches d') = mset (db_branches d)" for d'
  proof -
    have "order_by bh_branch (container_rows run c d') = rs"
      unfolding rs_def using rows
      by (intro order_by_perm container_rows_perm [OF that]) (simp add: ended_rows_def)
    then show ?thesis using agg by (simp add: aggregate_def rs_def)
  qed
  moreover have "mset (results_of rs) = mset (results_of (container_rows run c d))"
    using mset by (simp add: results_of_def)
  ultimately show ?thesis using r ids sorted by (intro exI [of _ r]) simp
qed

definition sample_branch :: "string \<Rightarrow> branch_status \<Rightarrow> branch_row" where
  "sample_branch k s = \<lparr>bh_run = ''r'', bh_container = ''p'', bh_branch = k, bh_order = 0,
     bh_graph = Subgraph ''s'' ''n'' [leaf ''n'' NT_Agent] [], bh_hash = ''x'', bh_status = BH_Ended s,
     bh_current = None, bh_result = Some \<lparr>br_id = k, br_status = s, br_summary = ''ok'', br_completed = [],
       br_changed = [], br_artifacts = [], br_failures = (if s = BS_Failed then [''no''] else []), br_error = None\<rparr>\<rparr>"

definition sample_branches :: db where
  "sample_branches = empty_db\<lparr>db_branches := [sample_branch ''b'' BS_Failed, sample_branch ''a'' BS_Succeeded]\<rparr>"

theorem aggregate_is_deterministic_witness:
  "\<exists>r. aggregate ''r'' ''p'' sample_branches = Inr (Some r) \<and> validate_par_result r = Inr () \<and>
     pr_status r = Max (br_status ` set (pr_branches r))"
proof -
  have "ended_rows (container_rows ''r'' ''p'' sample_branches)"
    by (simp add: ended_rows_def container_rows_def sample_branches_def sample_branch_def
        branch_ended_def validate_branch_result_def error_branch_def)
  from aggregate_is_deterministic [OF this] show ?thesis by auto
qed

end
