(* ===== verification/Routing.thy ===== *)
theory Routing
  imports Ending
begin

text \<open>
  Routes of accepted graphs (\<open>_route_result\<close> of \<open>runtime/engine.py\<close> on graphs that
  \<open>models/graph.py\<close> accepted): references resolve, so taking an edge cannot fail.
\<close>

lemma wf_graph_edge:
  assumes "wf_graph g" and "e \<in> set (g_edges g)"
  obtains a b where "graph_node g (ed_from e) = Inr a" and "a \<in> set (g_nodes g)" and "nd_id a = ed_from e"
    and "graph_node g (ed_to e) = Inr b" and "b \<in> set (g_nodes g)" and "nd_id b = ed_to e"
    and "ed_from e \<noteq> ed_to e"
proof -
  from assms have "ed_from e \<in> nd_id ` set (g_nodes g)" "ed_to e \<in> nd_id ` set (g_nodes g)" "ed_from e \<noteq> ed_to e"
    by (auto simp: wf_graph_def validate_graph_iff)
  then obtain a b where "node_of (g_nodes g) (ed_from e) = Some a" "node_of (g_nodes g) (ed_to e) = Some b"
    and "ed_from e \<noteq> ed_to e" by (meson node_of_exists)
  then show ?thesis by (intro that [of a b]) (auto simp: graph_node_def dest: node_of_SomeD)
qed

lemma find_node_update:
  assumes "\<And>x. node_key (f x) = node_key x"
  shows "find_node run k (update_node run k' f d) =
    (if k' = k then map_option f (find_node run k d) else find_node run k d)"
  using lookup_change_row [of node_key f "(run, k)" "(run, k')" "db_nodes d"] assms
  by (auto simp: find_node_def update_node_def)

lemma find_node_cong: "db_nodes d' = db_nodes d \<Longrightarrow> find_node run k d' = find_node run k d"
  by (simp add: find_node_def)

lemma find_run_cong: "db_runs d' = db_runs d \<Longrightarrow> find_run run d' = find_run run d"
  by (simp add: find_run_def)

lemma node_keys_kept [simp]:
  "node_key (ready_node x) = node_key x" "node_key (x\<lparr>nr_resolved := b\<rparr>) = node_key x"
  "node_key (x\<lparr>nr_repairs := i\<rparr>) = node_key x"
  by (simp_all add: node_key_def ready_node_def)



end
