(* ===== verification/Text_Search.thy ===== *)
theory Text_Search
  imports Prelude
begin

text \<open>
  Python's \<open>in\<close> and \<open>str.replace\<close> on strings, ASCII case folding, and what they guarantee. Strings are
  UTF-8 bytes; since no encoding of a character is part of that of another, searching bytes and
  searching characters agree.
\<close>

section \<open>Search\<close>

definition starts_with :: "string \<Rightarrow> string \<Rightarrow> bool" where
  "starts_with p s \<longleftrightarrow> take (length p) s = p"

text \<open>\<open>p in s\<close>\<close>

fun occurs_in :: "string \<Rightarrow> string \<Rightarrow> bool" where
  "occurs_in p [] \<longleftrightarrow> p = []"
| "occurs_in p (c # s) \<longleftrightarrow> starts_with p (c # s) \<or> occurs_in p s"

lemma starts_with_iff: "starts_with p s \<longleftrightarrow> (\<exists>b. s = p @ b)"
proof
  assume "starts_with p s"
  then have "s = p @ drop (length p) s" by (metis append_take_drop_id starts_with_def)
  then show "\<exists>b. s = p @ b" by blast
qed (auto simp: starts_with_def)

lemma occurs_in_iff: "occurs_in p s \<longleftrightarrow> (\<exists>a b. s = a @ p @ b)"
proof (induction s)
  case (Cons c s)
  have "(\<exists>a b. c # s = a @ p @ b) \<longleftrightarrow> (\<exists>b. c # s = p @ b) \<or> (\<exists>a b. s = a @ p @ b)"
  proof
    assume "\<exists>a b. c # s = a @ p @ b"
    then obtain a b where "c # s = a @ p @ b" by blast
    then show "(\<exists>b. c # s = p @ b) \<or> (\<exists>a b. s = a @ p @ b)" by (cases a) auto
  next
    assume "(\<exists>b. c # s = p @ b) \<or> (\<exists>a b. s = a @ p @ b)"
    then show "\<exists>a b. c # s = a @ p @ b" by (metis append_Cons append_Nil)
  qed
  with Cons.IH show ?case by (simp add: starts_with_iff)
qed simp

lemma occurs_in_append: "occurs_in p s \<Longrightarrow> occurs_in p (a @ s @ b)"
  unfolding occurs_in_iff by (metis append.assoc)

lemma occurs_in_self [simp]: "occurs_in p p"
  unfolding occurs_in_iff by (metis append_Nil append_Nil2)

lemma occurs_in_trans: "occurs_in p q \<Longrightarrow> occurs_in q s \<Longrightarrow> occurs_in p s"
  unfolding occurs_in_iff by (metis append.assoc)

section \<open>Replacement\<close>

text \<open>\<open>s.replace(p, r)\<close> of a pattern that is not empty: from the left, occurrences do not overlap.\<close>

function replace_all :: "string \<Rightarrow> string \<Rightarrow> string \<Rightarrow> string" where
  "replace_all p r [] = []"
| "replace_all p r (c # s) =
     (if p \<noteq> [] \<and> starts_with p (c # s) then r @ replace_all p r (drop (length p) (c # s))
      else c # replace_all p r s)"
  by pat_completeness auto
termination
  by (relation "measure (\<lambda>(p, r, s). length s)") auto

text \<open>
  The replaced text is a sequence of pieces of the original, none of which holds the pattern, separated
  by the marker.
\<close>

inductive marked :: "string \<Rightarrow> (string \<Rightarrow> bool) \<Rightarrow> string \<Rightarrow> bool" for r P where
  piece: "P a \<Longrightarrow> marked r P a"
| mark: "P a \<Longrightarrow> marked r P s \<Longrightarrow> marked r P (a @ r @ s)"

lemma marked_mono: "marked r P s \<Longrightarrow> (\<And>a. P a \<Longrightarrow> Q a) \<Longrightarrow> marked r Q s"
  by (induction rule: marked.induct) (auto intro: marked.intros)

lemma replace_first:
  assumes "p \<noteq> []"
  obtains "\<not> occurs_in p s" "replace_all p r s = s"
  | a b where "s = a @ p @ b" "\<not> occurs_in p a" "replace_all p r s = a @ r @ replace_all p r b"
proof (induction s arbitrary: thesis)
  case Nil
  show ?case by (rule Nil(1)) (use assms in simp_all)
next
  case (Cons c s)
  show ?case
  proof (cases "starts_with p (c # s)")
    case True
    then have "c # s = p @ drop (length p) (c # s)" by (metis append_take_drop_id starts_with_def)
    then show ?thesis using True assms by (intro Cons.prems(2) [of "[]" "drop (length p) (c # s)"]) simp_all
  next
    case False
    show ?thesis
    proof (rule Cons.IH)
      assume "\<not> occurs_in p s" "replace_all p r s = s"
      with False show ?thesis by (intro Cons.prems(1)) simp_all
    next
      fix a b assume split: "s = a @ p @ b" "\<not> occurs_in p a" "replace_all p r s = a @ r @ replace_all p r b"
      have "\<not> starts_with p (c # a)"
      proof
        assume "starts_with p (c # a)"
        then obtain d where "c # a = p @ d" by (auto simp: starts_with_iff)
        with split(1) have "c # s = p @ d @ p @ b" by simp
        with False show False by (auto simp: starts_with_iff)
      qed
      with split False show ?thesis by (intro Cons.prems(2) [of "c # a" b]) simp_all
    qed
  qed
qed

lemma replace_marked:
  assumes "p \<noteq> []"
  shows "marked r (\<lambda>a. \<not> occurs_in p a \<and> occurs_in a s) (replace_all p r s)"
proof (induction "length s" arbitrary: s rule: less_induct)
  case less
  show ?case
  proof (rule replace_first [OF assms, of s r])
    assume "\<not> occurs_in p s" "replace_all p r s = s"
    then show ?thesis by (simp add: marked.piece)
  next
    fix a b assume split: "s = a @ p @ b" "\<not> occurs_in p a" "replace_all p r s = a @ r @ replace_all p r b"
    have "marked r (\<lambda>a. \<not> occurs_in p a \<and> occurs_in a b) (replace_all p r b)"
      using less split(1) assms by simp
    then have "marked r (\<lambda>a. \<not> occurs_in p a \<and> occurs_in a s) (replace_all p r b)"
      by (rule marked_mono) (use split(1) occurs_in_append [of _ b "a @ p" "[]"] in simp)
    moreover have "occurs_in a s" using occurs_in_append [of a a "[]" "p @ b"] split(1) by simp
    ultimately show ?thesis using split by (simp add: marked.mark)
  qed
qed

section \<open>What a marker cannot hide\<close>

lemma occurs_split:
  assumes "c \<notin> set w" and "occurs_in w (u @ c # v)"
  shows "occurs_in w u \<or> occurs_in w v"
  using assms(2)
proof (induction u)
  case Nil
  then have "starts_with w (c # v) \<or> occurs_in w v" by simp
  then show ?case using assms(1) by (cases w) (auto simp: starts_with_def)
next
  case (Cons d u)
  then have "starts_with w ((d # u) @ c # v) \<or> occurs_in w (u @ c # v)" by simp
  then show ?case
  proof
    assume "starts_with w ((d # u) @ c # v)"
    then obtain y where y: "w @ y = (d # u) @ c # v" by (metis starts_with_iff)
    from append_eq_append_conv2 [THEN iffD1, OF y] consider z where "w = (d # u) @ z" "z @ y = c # v" | z where "d # u = w @ z"
      by (metis)
    then show ?thesis
    proof cases
      case 1
      with assms(1) have "z = []" by (cases z) auto
      with 1 have "w = d # u" by simp
      then show ?thesis using occurs_in_self by blast
    next
      case 2
      then have "starts_with w (d # u)" by (auto simp: starts_with_iff)
      then show ?thesis by simp
    qed
  next
    assume "occurs_in w (u @ c # v)"
    with Cons.IH show ?thesis by auto
  qed
qed

text \<open>A word without brackets that is not part of the name in the brackets can only stand in a piece.\<close>

lemma marked_occurs:
  assumes "marked (CHR ''['' # name @ '']'') P s" and "CHR ''['' \<notin> set w" and "CHR '']'' \<notin> set w"
    and "\<not> occurs_in w name" and "occurs_in w s"
  shows "\<exists>a. P a \<and> occurs_in w a"
  using assms(1,5)
proof (induction rule: marked.induct)
  case (mark a s)
  have "occurs_in w (a @ CHR ''['' # (name @ CHR '']'' # s))" using mark.prems by (simp only: append_Cons append_assoc append_Nil)
  from occurs_split [OF assms(2) this] have "occurs_in w a \<or> occurs_in w name \<or> occurs_in w s"
    using occurs_split [OF assms(3), of name s] by blast
  with assms(4) mark.IH mark.hyps(1) show ?case by metis
qed blast

lemma replace_hides:
  assumes "p \<noteq> []" and "CHR ''['' \<notin> set w" and "CHR '']'' \<notin> set w" and "\<not> occurs_in w name"
    and "p = w \<or> \<not> occurs_in w s"
  shows "\<not> occurs_in w (replace_all p (CHR ''['' # name @ '']'') s)"
proof
  assume "occurs_in w (replace_all p (CHR ''['' # name @ '']'') s)"
  from marked_occurs [OF replace_marked [OF assms(1)] assms(2-4) this] obtain a where
    a: "\<not> occurs_in p a" "occurs_in a s" "occurs_in w a" by (elim exE conjE)
  with occurs_in_trans [OF a(3,2)] assms(5) show False by (elim disjE) simp_all
qed

section \<open>Case\<close>

text \<open>
  \<open>str.casefold\<close> as far as ASCII words can tell: capitals become small, and the ligature
  U+FB01 (bytes EF AC 81) becomes fi. No other character folds to a text that holds ASCII letters
  next to each other in an order the words of the callers have.
\<close>

definition lower_char :: "char \<Rightarrow> char" where
  "lower_char c = (if CHR ''A'' \<le> c \<and> c \<le> CHR ''Z'' then char_of (of_char c + 32 :: nat) else c)"

definition lower :: "string \<Rightarrow> string" where
  "lower s = map lower_char s"

definition casefold :: "string \<Rightarrow> string" where
  "casefold s = replace_all [CHR 0xEF, CHR 0xAC, CHR 0x81] ''fi'' (lower s)"

end
