(* ===== verification/Redaction.thy ===== *)
theory Redaction
  imports Text_Search
begin

text \<open>
  \<open>SecretRedactor\<close> and \<open>StreamingSecretRedactor\<close> of \<open>verifier/policy.py\<close>, with \<open>SecretResolver\<close>: secrets and
  their encodings are removed from what a verifier printed before it is stored.
\<close>

section \<open>Encodings\<close>

text \<open>\<open>urllib.parse.quote(value, safe="")\<close>: all bytes but the unreserved ones become %XX.\<close>

definition unreserved :: "char \<Rightarrow> bool" where
  "unreserved c \<longleftrightarrow> CHR ''A'' \<le> c \<and> c \<le> CHR ''Z'' \<or> CHR ''a'' \<le> c \<and> c \<le> CHR ''z'' \<or>
     CHR ''0'' \<le> c \<and> c \<le> CHR ''9'' \<or> c \<in> set ''_.-~''"

definition hex_digit :: "nat \<Rightarrow> char" where
  "hex_digit n = ''0123456789ABCDEF'' ! n"

definition quote_char :: "char \<Rightarrow> string" where
  "quote_char c = (if unreserved c then [c]
     else [CHR ''%'', hex_digit (of_char c div 16), hex_digit (of_char c mod 16)])"

definition quote :: "string \<Rightarrow> string" where
  "quote s = concat (map quote_char s)"

text \<open>Base 64, with the alphabet as an argument.\<close>

definition b64_alphabet :: string where
  "b64_alphabet = ''ABCDEFGHIJKLMNOPQRSTUVWXYZabcdefghijklmnopqrstuvwxyz0123456789+/''"

definition b64_url_alphabet :: string where
  "b64_url_alphabet = ''ABCDEFGHIJKLMNOPQRSTUVWXYZabcdefghijklmnopqrstuvwxyz0123456789-_''"

fun b64_encode :: "string \<Rightarrow> nat list \<Rightarrow> string" where
  "b64_encode A [] = []"
| "b64_encode A [a] = [A ! (a div 4), A ! (a mod 4 * 16), CHR ''='', CHR ''='']"
| "b64_encode A [a, b] = [A ! (a div 4), A ! (a mod 4 * 16 + b div 16), A ! (b mod 16 * 4), CHR ''='']"
| "b64_encode A (a # b # c # s) =
     [A ! (a div 4), A ! (a mod 4 * 16 + b div 16), A ! (b mod 16 * 4 + c div 64), A ! (c mod 64)] @
     b64_encode A s"

definition b64 :: "string \<Rightarrow> string \<Rightarrow> string" where
  "b64 A s = b64_encode A (map of_char s)"

section \<open>The redactor\<close>

text \<open>\<open>SecretResolver.resolve\<close>: the declared references, in order; a missing one is an error.\<close>

definition resolve_secrets :: "(string \<times> string) list \<Rightarrow> string list \<Rightarrow> py_error + (string \<times> string) list" where
  "resolve_secrets values refs = collect (\<lambda>r. case map_of values r of
      None \<Rightarrow> Inl (NamedError ''SecretResolutionError'' (''declared secret reference is unavailable: '' @ r))
    | Some v \<Rightarrow> Inr (r, v)) refs"

text \<open>\<open>SecretRedactor.__init__\<close>: the forms of a secret; an empty one is skipped.\<close>

definition secret_forms :: "string \<Rightarrow> string list" where
  "secret_forms v = (if v = [] then [] else [v, quote v, b64 b64_alphabet v, b64 b64_url_alphabet v])"

text \<open>
  \<open>sorted(variants, key=len, reverse=True)\<close>: the forms without repetition, the longest first. The order among
  forms of one length is that of a Python set, which the model fixes and no property depends on.
\<close>

definition variants :: "string list \<Rightarrow> string list" where
  "variants secrets = sort_key (\<lambda>s. - int (length s)) (remdups (concat (map secret_forms secrets)))"

definition marker :: string where
  "marker = ''[REDACTED]''"

definition redact :: "string list \<Rightarrow> string \<Rightarrow> string" where
  "redact vs text = fold (\<lambda>s t. replace_all s marker t) vs text"

text \<open>
  \<open>StreamingSecretRedactor.feed\<close>: the carry of the object is the state; what is fed last is marked final.
\<close>

definition feed :: "string list \<Rightarrow> string \<Rightarrow> bool \<Rightarrow> string \<Rightarrow> string \<times> string" where
  "feed vs chunk final carry =
     (let carry = carry @ chunk in if \<not> final then ([], carry) else (redact vs carry, []))"

fun feed_all :: "string list \<Rightarrow> string list \<Rightarrow> string \<Rightarrow> string" where
  "feed_all vs [] carry = fst (feed vs [] True carry)"
| "feed_all vs (c # cs) carry = (let (out, carry) = feed vs c False carry in out @ feed_all vs cs carry)"

section \<open>What redaction guarantees\<close>

lemma feed_all_redacts: "feed_all vs cs carry = redact vs (carry @ concat cs)"
  by (induction cs arbitrary: carry) (simp_all add: feed_def)

text \<open>The encodings never hold a bracket.\<close>

definition plain_word :: "string \<Rightarrow> bool" where
  "plain_word s \<longleftrightarrow> CHR ''['' \<notin> set s \<and> CHR '']'' \<notin> set s"

lemma b64_chars:
  "length A = 64 \<Longrightarrow> list_all (\<lambda>n. n < 256) ns \<Longrightarrow> set (b64_encode A ns) \<subseteq> insert (CHR ''='') (set A)"
proof (induction A ns rule: b64_encode.induct)
  case (2 A a)
  then show ?case by (auto intro!: nth_mem)
next
  case (3 A a b)
  then have "a mod 4 * 16 + b div 16 < 64" "b mod 16 * 4 < 64" "a div 4 < 64" by auto
  with 3 show ?case by (auto intro!: nth_mem)
next
  case (4 A a b c s)
  then have "a mod 4 * 16 + b div 16 < 64" "b mod 16 * 4 + c div 64 < 64" "a div 4 < 64" "c mod 64 < 64" by auto
  with 4 show ?case by (auto intro!: nth_mem)
qed simp

lemma b64_plain: "length A = 64 \<Longrightarrow> plain_word A \<Longrightarrow> plain_word (b64 A s)"
  using b64_chars [of A "map of_char s"] by (auto simp: plain_word_def b64_def list_all_iff)

lemma quote_plain: "plain_word (quote s)"
proof -
  have digits: "plain_word ''0123456789ABCDEF''" by code_simp
  have hex: "CHR ''['' \<noteq> hex_digit n \<and> CHR '']'' \<noteq> hex_digit n" if "n < 16" for n
    using digits nth_mem [of n "''0123456789ABCDEF''"] that unfolding plain_word_def hex_digit_def by auto
  have "plain_word (quote_char c)" for c
  proof (cases "unreserved c")
    case True
    have "\<not> unreserved (CHR ''['')" "\<not> unreserved (CHR '']'')" by code_simp+
    with True show ?thesis by (auto simp: quote_char_def plain_word_def)
  next
    case False
    have "of_char c div 16 < (16 :: nat)" using nat_of_char_less_256 [of c] by linarith
    with hex [of "of_char c div 16"] hex [of "of_char c mod 16"] False show ?thesis
      by (simp add: quote_char_def plain_word_def)
  qed
  then show ?thesis by (auto simp: quote_def plain_word_def)
qed

lemma secret_forms_plain:
  assumes "form \<in> set (secret_forms v)" and "form \<noteq> v"
  shows "plain_word form"
proof -
  have "length b64_alphabet = 64" "plain_word b64_alphabet" "length b64_url_alphabet = 64" "plain_word b64_url_alphabet"
    by code_simp+
  with assms b64_plain quote_plain show ?thesis by (auto simp: secret_forms_def split: if_splits)
qed

lemma b64_encode_nonempty: "ns \<noteq> [] \<Longrightarrow> b64_encode A ns \<noteq> []"
  by (cases "(A, ns)" rule: b64_encode.cases) simp_all

lemma b64_nonempty: "v \<noteq> [] \<Longrightarrow> b64 A v \<noteq> []"
  by (simp add: b64_def b64_encode_nonempty)

lemma quote_nonempty: "v \<noteq> [] \<Longrightarrow> quote v \<noteq> []"
  by (cases v) (simp_all add: quote_def quote_char_def)

lemma secret_forms_nonempty:
  assumes "form \<in> set (secret_forms v)"
  shows "form \<noteq> []"
proof (cases "v = []")
  case False
  with assms have "form \<in> {v, quote v, b64 b64_alphabet v, b64 b64_url_alphabet v}" by (simp add: secret_forms_def)
  then show ?thesis using False b64_nonempty [OF False] quote_nonempty [OF False]
    by (elim insertE emptyE) simp_all
qed (use assms in \<open>simp add: secret_forms_def\<close>)

lemma set_variants: "set (variants secrets) = (\<Union>v \<in> set secrets. set (secret_forms v))"
  by (simp add: variants_def)

lemma marker_eq: "marker = CHR ''['' # ''REDACTED'' @ '']''"
  by (simp add: marker_def)

lemma redact_keeps_out:
  assumes "[] \<notin> set vs" and "plain_word w" and "\<not> occurs_in w ''REDACTED''" and "\<not> occurs_in w t"
  shows "\<not> occurs_in w (redact vs t)"
  using assms
proof (induction vs arbitrary: t)
  case (Cons s vs)
  then have "\<not> occurs_in w (replace_all s marker t)"
    unfolding marker_eq by (intro replace_hides) (auto simp: plain_word_def simp del: occurs_in.simps)
  with Cons show ?case by (simp add: redact_def)
qed (simp add: redact_def)

lemma redact_removes:
  assumes "[] \<notin> set vs" and "w \<in> set vs" and "plain_word w" and "\<not> occurs_in w ''REDACTED''"
  shows "\<not> occurs_in w (redact vs t)"
proof -
  obtain us ws where vs: "vs = us @ w # ws" using assms(2) by (meson split_list)
  have "\<not> occurs_in w (replace_all w marker (redact us t))"
    unfolding marker_eq using assms by (intro replace_hides) (auto simp: plain_word_def simp del: occurs_in.simps)
  then have "\<not> occurs_in w (redact ws (replace_all w marker (redact us t)))"
    using assms vs by (intro redact_keeps_out) simp_all
  then show ?thesis by (simp add: redact_def vs)
qed

text \<open>
  However the output of a verifier is cut into chunks, what the redactor writes holds no form of a secret
  (the secret itself, its percent encoding, its two base 64 encodings), whatever else is redacted and
  in whichever order forms of the same length are taken. Two kinds of forms are excepted, because the marker
  can put them back: parts of the word REDACTED, and secrets that hold brackets themselves.
\<close>

theorem redaction_hides_secrets:
  assumes "v \<in> set secrets" and "set vs = set (variants secrets)"
  shows "\<forall>form \<in> set (secret_forms v). (form = v \<longrightarrow> plain_word v) \<and> \<not> occurs_in form ''REDACTED'' \<longrightarrow>
    \<not> occurs_in form (feed_all vs chunks [])"
proof (intro ballI impI)
  fix form assume form: "form \<in> set (secret_forms v)"
    and ok: "(form = v \<longrightarrow> plain_word v) \<and> \<not> occurs_in form ''REDACTED''"
  have "[] \<notin> set vs" "form \<in> set vs" using assms form secret_forms_nonempty by (auto simp: set_variants)
  moreover have "plain_word form" using ok secret_forms_plain [OF form] by blast
  ultimately show "\<not> occurs_in form (feed_all vs chunks [])"
    unfolding feed_all_redacts using ok by (intro redact_removes) simp_all
qed

theorem redaction_hides_secrets_witness:
  "feed_all (variants [''s3cr/t'']) [''key=s3c'', ''r/t&b=czNjci90''] [] = ''key=[REDACTED]&b=[REDACTED]'' \<and>
   \<not> occurs_in ''s3cr%2Ft'' (feed_all (variants [''s3cr/t'']) [''key=s3c'', ''r/t&b=czNjci90''] [])"
proof (rule conjI)
  show "feed_all (variants [''s3cr/t'']) [''key=s3c'', ''r/t&b=czNjci90''] [] = ''key=[REDACTED]&b=[REDACTED]''"
    by code_simp
  have form: "''s3cr%2Ft'' \<in> set (secret_forms ''s3cr/t'')"
    and ok: "(''s3cr%2Ft'' = ''s3cr/t'' \<longrightarrow> plain_word ''s3cr/t'') \<and> \<not> occurs_in ''s3cr%2Ft'' ''REDACTED''"
    and secret: "''s3cr/t'' \<in> set [''s3cr/t'']" by code_simp+
  show "\<not> occurs_in ''s3cr%2Ft'' (feed_all (variants [''s3cr/t'']) [''key=s3c'', ''r/t&b=czNjci90''] [])"
    by (rule redaction_hides_secrets [OF secret refl, THEN bspec, OF form, THEN mp, OF ok])
qed

text \<open>
  The exceptions are real: a secret that is part of the marker is written out by the redactor itself,
  and a shorter secret rewrites the marker of a longer one.
\<close>

lemma marker_reveals_secret: "occurs_in ''ACTED'' (redact (variants [''ACTED'']) ''a ACTED b'')"
  by code_simp

end
