(* ===== verification/Contract.thy ===== *)
theory Contract
  imports Graph_Model
begin

text \<open>
  Task contracts: \<open>models/contract.py\<close> with its validators, and the lifecycle records of
  \<open>contracts/models.py\<close>. Canonical JSON and SHA-256 are parameters of what uses them.
\<close>

section \<open>models/contract.py\<close>

datatype contract_status = CS_Draft | CS_Frozen

record task_definition =
  td_id :: string
  td_title :: string
  td_description :: string

definition validate_task :: "task_definition \<Rightarrow> py_error + unit" where
  "validate_task t = first_error
     [min_length_1 ''task_id'' (td_id t), min_length_1 ''title'' (td_title t),
      min_length_1 ''description'' (td_description t)]"

record criterion =
  ac_criterion :: string
  ac_description :: string
  ac_refs :: "string list"

definition validate_criterion :: "criterion \<Rightarrow> py_error + unit" where
  "validate_criterion c = first_error
     [min_length_1 ''criterion_id'' (ac_criterion c), min_length_1 ''description'' (ac_description c),
      require (ac_refs c \<noteq> []) ''verifier_refs'']"

record verifier_requirement =
  vq_id :: string
  vq_type :: string
  vq_timeout :: int
  vq_required :: bool

definition validate_requirement :: "verifier_requirement \<Rightarrow> py_error + unit" where
  "validate_requirement v = first_error
     [min_length_1 ''verifier_id'' (vq_id v), min_length_1 ''verifier_type'' (vq_type v),
      require (vq_timeout v > 0) ''timeout_seconds'']"

record contract_policy =
  cp_protected :: "string list"
  cp_hosts :: "string list"
  cp_secrets :: "string list"

datatype delivery_type = DT_Patch | DT_Commit | DT_PullRequest | DT_ReportOnly

primrec dt_value :: "delivery_type \<Rightarrow> string" where
  "dt_value DT_Patch = ''patch''"
| "dt_value DT_Commit = ''commit''"
| "dt_value DT_PullRequest = ''pull_request''"
| "dt_value DT_ReportOnly = ''report_only''"

text \<open>\<open>auto_merge\<close> and \<open>revision_creates_new_contract\<close> have one admitted value each.\<close>

record human_policy =
  hp_queries :: bool
  hp_pause :: bool
  hp_interrupt :: bool
  hp_acceptance :: bool

record task_contract =
  tc_id :: string
  tc_revision :: int
  tc_status :: contract_status
  tc_supersedes :: "contract_ref option"
  tc_task :: task_definition
  tc_criteria :: "criterion list"
  tc_constraints :: "string list"
  tc_verifiers :: "verifier_requirement list"
  tc_policy :: contract_policy
  tc_delivery :: delivery_type
  tc_human :: human_policy
  tc_budget :: budget

text \<open>
  The fields' own checks, then \<open>revision_is_append_only\<close>, in the order of the code. The sorted list of
  unknown names is left out of the last message.
\<close>

definition validate_contract :: "task_contract \<Rightarrow> py_error + unit" where
  "validate_contract c =
     (let verifier_ids = map vq_id (tc_verifiers c);
          unknown = filter (\<lambda>r. r \<notin> set verifier_ids) (concat (map ac_refs (tc_criteria c)))
      in first_error
       [min_length_1 ''contract_id'' (tc_id c), require (tc_revision c \<ge> 1) ''revision'',
        require (tc_criteria c \<noteq> []) ''acceptance_criteria'', require (tc_verifiers c \<noteq> []) ''verifiers'',
        require (\<not> (tc_revision c = 1 \<and> tc_supersedes c \<noteq> None))
          ''revision 1 must not supersede another contract revision'',
        require (\<not> (tc_revision c > 1 \<and> tc_supersedes c = None))
          ''revision greater than 1 must reference the superseded revision'',
        require (\<not> (tc_revision c > 1 \<and> map_option cr_id (tc_supersedes c) \<noteq> Some (tc_id c)))
          ''supersedes.contract_id must match contract_id'',
        require (\<not> (tc_revision c > 1 \<and>
            (case tc_supersedes c of None \<Rightarrow> False | Some s \<Rightarrow> cr_revision s \<ge> tc_revision c)))
          ''supersedes.revision must be lower than revision'',
        require (distinct (map ac_criterion (tc_criteria c))) ''acceptance criterion IDs must be unique'',
        require (unknown = []) ''acceptance criteria reference unknown verifiers''])"

text \<open>A constructed contract: it and its parts passed their validators.\<close>

definition wf_contract :: "task_contract \<Rightarrow> bool" where
  "wf_contract c \<longleftrightarrow> validate_contract c = Inr () \<and> validate_task (tc_task c) = Inr () \<and>
     list_all (\<lambda>x. validate_criterion x = Inr ()) (tc_criteria c) \<and>
     list_all (\<lambda>v. validate_requirement v = Inr ()) (tc_verifiers c) \<and>
     validate_budget (tc_budget c) = Inr () \<and>
     (case tc_supersedes c of None \<Rightarrow> True | Some s \<Rightarrow> validate_contract_ref s = Inr ())"

section \<open>contracts/models.py\<close>

record acceptance_lock =
  al_id :: string
  al_contract :: string
  al_revision :: int
  al_hash :: string
  al_verifiers :: "(string \<times> string) list"
  al_message :: string
  al_created :: int

definition validate_lock :: "acceptance_lock \<Rightarrow> py_error + unit" where
  "validate_lock l = first_error
     [require (al_revision l \<ge> 1) ''contract_revision'', require (sha256_pattern (al_hash l)) ''contract_hash'']"

record frozen_contract =
  fz_contract :: task_contract
  fz_lock :: acceptance_lock

record contract_delta =
  dl_id :: string
  dl_contract :: string
  dl_source :: int
  dl_description :: string
  dl_replacement :: string

definition validate_delta :: "contract_delta \<Rightarrow> py_error + unit" where
  "validate_delta d = first_error
     [require (dl_source d \<ge> 1) ''source_revision'', min_length_1 ''description'' (dl_description d),
      min_length_1 ''replacement_description'' (dl_replacement d)]"

section \<open>Hashes\<close>

text \<open>
  \<open>canonical_json\<close> of the models and \<open>hashlib.sha256(...).hexdigest()\<close>: the model keeps values, so the
  serialisation is a function of the value, and the digest of bytes is a parameter too.
\<close>

record digests =
  dg_contract_json :: "task_contract \<Rightarrow> string"
  dg_verifier_json :: "verifier_requirement \<Rightarrow> string"
  dg_delta_json :: "contract_delta \<Rightarrow> string"
  dg_graph_json :: "exec_graph \<Rightarrow> string"
  dg_sha256 :: "string \<Rightarrow> string"

definition contract_sha :: "digests \<Rightarrow> task_contract \<Rightarrow> string" where
  "contract_sha D c = dg_sha256 D (dg_contract_json D c)"

definition verifier_sha :: "digests \<Rightarrow> verifier_requirement \<Rightarrow> string" where
  "verifier_sha D v = dg_sha256 D (dg_verifier_json D v)"

definition graph_sha :: "digests \<Rightarrow> exec_graph \<Rightarrow> string" where
  "graph_sha D g = dg_sha256 D (dg_graph_json D g)"

lemma validate_contract_iff:
  "validate_contract c = Inr () \<longleftrightarrow>
     tc_id c \<noteq> [] \<and> tc_revision c \<ge> 1 \<and> tc_criteria c \<noteq> [] \<and> tc_verifiers c \<noteq> [] \<and>
     (tc_revision c = 1 \<longrightarrow> tc_supersedes c = None) \<and>
     (tc_revision c > 1 \<longrightarrow> (\<exists>s. tc_supersedes c = Some s \<and> cr_id s = tc_id c \<and> cr_revision s < tc_revision c)) \<and>
     distinct (map ac_criterion (tc_criteria c)) \<and>
     (\<forall>x \<in> set (tc_criteria c). set (ac_refs x) \<subseteq> vq_id ` set (tc_verifiers c))"
proof -
  have "filter (\<lambda>r. r \<notin> set (map vq_id (tc_verifiers c))) (concat (map ac_refs (tc_criteria c))) = [] \<longleftrightarrow>
      (\<forall>x \<in> set (tc_criteria c). set (ac_refs x) \<subseteq> vq_id ` set (tc_verifiers c))"
    by (auto simp: filter_empty_conv)
  then show ?thesis
    by (cases "tc_supersedes c") (auto simp: validate_contract_def Let_def)
qed

end
