(* ===== verification/Control_Store.thy ===== *)
theory Control_Store
  imports Store Contract Text_Search
begin

text \<open>
  The tables of the state store that the control plane uses (migrations 4 to 6 and 10 of
  \<open>runtime/store.py\<close>), beside those of the runtime: one list of rows per table, with the keys its
  DDL declares. A transaction is a function of the whole store and is rolled back by an exception.
\<close>

section \<open>Rows\<close>

datatype draft_state = DR_Staged | DR_Frozen

record draft_row =
  dr_id :: string
  dr_conversation :: string
  dr_contract :: task_contract
  dr_hash :: string
  dr_state :: draft_state

record revision_row =
  rev_contract :: string
  rev_number :: int
  rev_body :: task_contract
  rev_hash :: string
  rev_message :: string

record delta_row =
  de_delta :: contract_delta
  de_new :: int
  de_message :: string

datatype plan_state = PL_Prepared | PL_Claimed | PL_Started

primrec pl_value :: "plan_state \<Rightarrow> string" where
  "pl_value PL_Prepared = ''prepared''"
| "pl_value PL_Claimed = ''start_claimed''"
| "pl_value PL_Started = ''started''"

record planned_row =
  pl_id :: string
  pl_project :: string
  pl_contract :: string
  pl_revision :: int
  pl_graph :: exec_graph
  pl_hash :: string
  pl_parent :: "string option"
  pl_supersedes :: "string option"
  pl_restart :: "restart_from option"
  pl_state :: plan_state

text \<open>\<open>AutonomousRunResult\<close> of \<open>delivery/coordinator.py\<close>, and the row of a start request.\<close>

record run_outcome =
  ro_run :: string
  ro_status :: string
  ro_report :: int
  ro_key :: string

record start_row =
  sr_key :: string
  sr_request :: string
  sr_run :: string
  sr_fingerprint :: string
  sr_completed :: bool
  sr_result :: "run_outcome option"

text \<open>Verifier revisions, the evidence of their lifecycle, and the contracts they are bound to.\<close>

datatype lifecycle = LC_Draft | LC_Validated | LC_Tested | LC_DryRun | LC_Frozen

primrec lc_value :: "lifecycle \<Rightarrow> string" where
  "lc_value LC_Draft = ''draft''"
| "lc_value LC_Validated = ''validated''"
| "lc_value LC_Tested = ''tested''"
| "lc_value LC_DryRun = ''dry_run''"
| "lc_value LC_Frozen = ''frozen''"

record revision_hashes =
  rh_manifest :: string
  rh_source :: string
  rh_tests :: string
  rh_fixtures :: "string option"

record capabilities =
  ca_hosts :: "string list"
  ca_read :: "string list"
  ca_write :: "string list"
  ca_secrets :: "string list"

text \<open>\<open>VerifierManifest\<close>; the container specification is kept as the JSON it is dumped to.\<close>

record manifest =
  mf_id :: string
  mf_revision :: int
  mf_type :: string
  mf_runtime :: string
  mf_entrypoint :: "string list"
  mf_capabilities :: capabilities
  mf_effects :: bool
  mf_container :: "json option"

record verifier_row =
  ve_id :: string
  ve_revision :: int
  ve_type :: string
  ve_manifest :: manifest
  ve_hashes :: revision_hashes
  ve_source :: string
  ve_tests :: string
  ve_fixtures :: "string option"
  ve_lifecycle :: lifecycle
  ve_message :: "string option"

record evidence_row =
  el_id :: string
  el_verifier :: string
  el_revision :: int
  el_lifecycle :: lifecycle
  el_result :: "(string \<times> json) list"
  el_artifact :: "string option"

record binding_row =
  bi_contract :: string
  bi_revision :: int
  bi_verifier :: string
  bi_number :: int
  bi_hashes :: revision_hashes

section \<open>The store\<close>

record control_db =
  cs_core :: db
  cs_drafts :: "draft_row list"
  cs_revisions :: "revision_row list"
  cs_locks :: "acceptance_lock list"
  cs_deltas :: "delta_row list"
  cs_planned :: "planned_row list"
  cs_starts :: "start_row list"
  cs_verifiers :: "verifier_row list"
  cs_evidence :: "evidence_row list"
  cs_bindings :: "binding_row list"

definition empty_control :: control_db where
  "empty_control = \<lparr>cs_core = empty_db, cs_drafts = [], cs_revisions = [], cs_locks = [], cs_deltas = [],
     cs_planned = [], cs_starts = [], cs_verifiers = [], cs_evidence = [], cs_bindings = []\<rparr>"

text \<open>\<open>with self.state.transaction()\<close>\<close>

definition committed :: "('s, 'a) op \<Rightarrow> ('s, 'a) op" where
  "committed m s = (case m s of (Inl e, _) \<Rightarrow> (Inl e, s) | (Inr x, t) \<Rightarrow> (Inr x, t))"

text \<open>Events join the transaction: the outbox is a table of the same database.\<close>

definition in_core :: "(db, 'a) op \<Rightarrow> (control_db, 'a) op" where
  "in_core m s = (let (r, d) = m (cs_core s) in (r, s\<lparr>cs_core := d\<rparr>))"

definition log_event :: "string \<Rightarrow> string \<Rightarrow> (string \<times> json) list \<Rightarrow> (control_db, unit) op" where
  "log_event ty run payload = in_core (enqueue_event ty run None None payload)"

text \<open>\<open>uuid4()\<close> draws from the same counter as the event identifiers.\<close>

definition fresh_uuid :: "(control_db, string) op" where
  "fresh_uuid s = (Inr (uuid_str (db_uuid (cs_core s))),
     s\<lparr>cs_core := (cs_core s)\<lparr>db_uuid := Suc (db_uuid (cs_core s))\<rparr>\<rparr>)"

text \<open>A key is free when no row of the table has it.\<close>

definition free_key :: "('r \<Rightarrow> 'k) \<Rightarrow> 'r \<Rightarrow> 'r list \<Rightarrow> bool" where
  "free_key key r t \<longleftrightarrow> key r \<notin> key ` set t"

definition draft_key :: "draft_row \<Rightarrow> string \<times> int \<times> string" where
  "draft_key r = (tc_id (dr_contract r), tc_revision (dr_contract r), dr_hash r)"

definition insert_draft :: "draft_row \<Rightarrow> (control_db, unit) op" where
  "insert_draft r = modify (\<lambda>s. if free_key dr_id r (cs_drafts s) \<and> free_key draft_key r (cs_drafts s)
     then s\<lparr>cs_drafts := cs_drafts s @ [r]\<rparr> else s)"

definition revision_key :: "revision_row \<Rightarrow> string \<times> int" where
  "revision_key r = (rev_contract r, rev_number r)"

definition revision_free :: "revision_row \<Rightarrow> control_db \<Rightarrow> bool" where
  "revision_free r s \<longleftrightarrow> free_key revision_key r (cs_revisions s) \<and> free_key rev_hash r (cs_revisions s)"

definition insert_revision :: "revision_row \<Rightarrow> (control_db, unit) op" where
  "insert_revision r s = (if revision_free r s then (Inr (), s\<lparr>cs_revisions := cs_revisions s @ [r]\<rparr>)
     else (Inl (IntegrityError ''contract_revisions''), s))"

definition lock_key :: "acceptance_lock \<Rightarrow> string \<times> int" where
  "lock_key l = (al_contract l, al_revision l)"

definition lock_free :: "acceptance_lock \<Rightarrow> control_db \<Rightarrow> bool" where
  "lock_free l s \<longleftrightarrow> free_key al_id l (cs_locks s) \<and> free_key lock_key l (cs_locks s)"

definition insert_lock :: "acceptance_lock \<Rightarrow> (control_db, unit) op" where
  "insert_lock l s = (if lock_free l s then (Inr (), s\<lparr>cs_locks := cs_locks s @ [l]\<rparr>)
     else (Inl (IntegrityError ''acceptance_locks''), s))"

definition delta_key :: "delta_row \<Rightarrow> string \<times> int" where
  "delta_key d = (dl_contract (de_delta d), de_new d)"

definition insert_delta :: "delta_row \<Rightarrow> (control_db, unit) op" where
  "insert_delta d s =
     (if free_key (dl_id \<circ> de_delta) d (cs_deltas s) \<and> free_key delta_key d (cs_deltas s)
      then (Inr (), s\<lparr>cs_deltas := cs_deltas s @ [d]\<rparr>) else (Inl (IntegrityError ''contract_deltas''), s))"

definition insert_planned :: "planned_row \<Rightarrow> (control_db, unit) op" where
  "insert_planned r s = (if free_key pl_id r (cs_planned s)
     then (Inr (), s\<lparr>cs_planned := cs_planned s @ [r]\<rparr>) else (Inl (IntegrityError ''planned_runs''), s))"

definition insert_start :: "start_row \<Rightarrow> (control_db, unit) op" where
  "insert_start r s = (if free_key sr_key r (cs_starts s)
     then (Inr (), s\<lparr>cs_starts := cs_starts s @ [r]\<rparr>) else (Inl (IntegrityError ''run_start_requests''), s))"

definition verifier_key :: "verifier_row \<Rightarrow> string \<times> int" where
  "verifier_key r = (ve_id r, ve_revision r)"

definition insert_verifier :: "verifier_row \<Rightarrow> (control_db, unit) op" where
  "insert_verifier r s = (if free_key verifier_key r (cs_verifiers s)
     then (Inr (), s\<lparr>cs_verifiers := cs_verifiers s @ [r]\<rparr>) else (Inl (IntegrityError ''verifier_revisions''), s))"

definition insert_evidence :: "evidence_row \<Rightarrow> (control_db, unit) op" where
  "insert_evidence r s = (if free_key el_id r (cs_evidence s)
     then (Inr (), s\<lparr>cs_evidence := cs_evidence s @ [r]\<rparr>)
     else (Inl (IntegrityError ''verifier_lifecycle_evidence''), s))"

definition binding_key :: "binding_row \<Rightarrow> string \<times> int \<times> string" where
  "binding_key r = (bi_contract r, bi_revision r, bi_verifier r)"

definition insert_binding :: "binding_row \<Rightarrow> (control_db, unit) op" where
  "insert_binding r s = (if free_key binding_key r (cs_bindings s)
     then (Inr (), s\<lparr>cs_bindings := cs_bindings s @ [r]\<rparr>)
     else (Inl (IntegrityError ''contract_verifier_bindings''), s))"

text \<open>Reading a JSON column validates what it holds.\<close>

definition load_contract :: "task_contract \<Rightarrow> py_error + task_contract" where
  "load_contract c = (if wf_contract c then Inr c else Inl (ValidationError ''TaskContract''))"

definition load_graph :: "exec_graph \<Rightarrow> py_error + exec_graph" where
  "load_graph g = (if wf_graph g then Inr g else Inl (ValidationError ''ExecutionGraph''))"

definition revision_of :: "string \<Rightarrow> int \<Rightarrow> control_db \<Rightarrow> revision_row option" where
  "revision_of c n s = lookup_row revision_key (c, n) (cs_revisions s)"

definition lock_of :: "string \<Rightarrow> int \<Rightarrow> control_db \<Rightarrow> acceptance_lock option" where
  "lock_of c n s = lookup_row lock_key (c, n) (cs_locks s)"

definition planned_of :: "string \<Rightarrow> control_db \<Rightarrow> planned_row option" where
  "planned_of k s = lookup_row pl_id k (cs_planned s)"

section \<open>Lemmas\<close>

lemma committed_Inr: "committed m s = (Inr x, t) \<longleftrightarrow> m s = (Inr x, t)"
  by (auto simp: committed_def split: prod.splits sum.splits)

lemma committed_Inl: "committed m s = (Inl e, t) \<longleftrightarrow> (\<exists>u. m s = (Inl e, u)) \<and> t = s"
  by (auto simp: committed_def split: prod.splits sum.splits)

text \<open>Success of the primitive operations.\<close>

lemma op_Inr:
  "ret a s = (Inr x, t) \<longleftrightarrow> x = a \<and> t = s"
  "gets f s = (Inr x, t) \<longleftrightarrow> x = f s \<and> t = s"
  "ask g s = (Inr x, t) \<longleftrightarrow> g s = Inr x \<and> t = s"
  "lift_sum r s = (Inr x, t) \<longleftrightarrow> r = Inr x \<and> t = s"
  "modify h s = (Inr u, t) \<longleftrightarrow> t = h s"
  "raise e s = (Inr x, t) \<longleftrightarrow> False"
  by (auto simp: op_defs)

lemma snd_of_pure:
  "snd (seq_op m (ret h) s) = snd (m s)"
  "snd (bind_op (lift_sum r) f s) = (case r of Inl e \<Rightarrow> s | Inr x \<Rightarrow> snd (f x s))"
  "snd (bind_op (ask q) f s) = (case q s of Inl e \<Rightarrow> s | Inr x \<Rightarrow> snd (f x s))"
  "snd (bind_op m (\<lambda>x. ret (u x)) s) = snd (m s)"
  by (auto simp: op_defs split: prod.splits sum.splits)

lemma in_core_frame:
  "in_core m s = (r, t) \<Longrightarrow> t = s\<lparr>cs_core := cs_core t\<rparr>"
  by (auto simp: in_core_def split: prod.splits)

lemma log_event_Inr:
  "log_event ty run p s = (Inr u, t) \<Longrightarrow>
    \<exists>d. db_uuid (cs_core s) \<le> db_uuid d \<and> t = s\<lparr>cs_core := d\<rparr>"
  by (auto simp: log_event_def in_core_def enqueue_event_def modify_def intro: exI [of _ "cs_core t"])

lemma log_event_eq: "log_event ty run p s =
    (Inr (), s\<lparr>cs_core := snd (enqueue_event ty run None None p (cs_core s))\<rparr>)"
  by (simp add: log_event_def in_core_def enqueue_event_def modify_def)

end
