(* ===== verification/Compiler.thy ===== *)
theory Compiler
  imports Contract "HOL-Library.Multiset"
begin

text \<open>
  \<open>compiler/execution.py\<close>: from a frozen task contract to the standard serial execution graph, and what
  holds of every graph it returns.
\<close>

section \<open>The graph of a contract\<close>

definition status_is :: "string \<Rightarrow> route_condition" where
  "status_is v = \<lparr>rc_field = RF_Status, rc_op = RO_Equals, rc_value = CScalar (SStr v)\<rparr>"

definition agent_node :: "string \<Rightarrow> string \<Rightarrow> node" where
  "agent_node k objective = Node k NT_Agent objective [] None None None None"

definition verify_id :: "verifier_requirement \<Rightarrow> string" where
  "verify_id v = ''verify.'' @ vq_id v"

definition verify_node :: "verifier_requirement \<Rightarrow> node" where
  "verify_node v = Node (verify_id v) NT_Verifier (''Run declared verifier '' @ vq_id v)
     [(''verifier_id'', JStr (vq_id v)), (''verifier_type'', JStr (vq_type v)),
      (''timeout_seconds'', JInt (vq_timeout v))] None None None None"

definition compiled_nodes :: "task_contract \<Rightarrow> verifier_requirement list \<Rightarrow> node list" where
  "compiled_nodes c vs =
     [agent_node ''inspect'' ''Inspect only the Contract-relevant repository surfaces'',
      agent_node ''implement'' (td_description (tc_task c))] @
     map verify_node vs @
     [agent_node ''repair'' ''Repair only evidence-backed acceptance failures'',
      agent_node ''review'' ''Independently review the frozen Contract and evidence'',
      agent_node ''review_fix'' ''Resolve only stable evidence-backed Review findings'',
      Node ''deliver'' NT_Delivery (''Prepare '' @ dt_value (tc_delivery c) @ '' delivery'') [] None None None None]"

definition plain_edge :: "string \<Rightarrow> string \<Rightarrow> edge" where
  "plain_edge x y = \<lparr>ed_from = x, ed_to = y, ed_cond = None, ed_max = None\<rparr>"

definition status_edge :: "string \<Rightarrow> string \<Rightarrow> string \<Rightarrow> int option \<Rightarrow> edge" where
  "status_edge x y s m = \<lparr>ed_from = x, ed_to = y, ed_cond = Some (status_is s), ed_max = m\<rparr>"

text \<open>\<open>contract.budget.max_repair_iterations or 1\<close>\<close>

definition repair_bound :: "task_contract \<Rightarrow> int" where
  "repair_bound c = (let n = bg_max_repairs (tc_budget c) in if n = 0 then 1 else n)"

text \<open>The loop over the verifiers; a verifier passes on to the next one, the last to the review.\<close>

fun verifier_edges :: "int \<Rightarrow> verifier_requirement list \<Rightarrow> edge list" where
  "verifier_edges m [] = []"
| "verifier_edges m (v # vs) =
     status_edge (verify_id v) (case vs of [] \<Rightarrow> ''review'' | w # _ \<Rightarrow> verify_id w) ''passed'' None #
     status_edge (verify_id v) ''repair'' ''failed'' (Some m) # verifier_edges m vs"

definition compiled_edges :: "task_contract \<Rightarrow> verifier_requirement \<Rightarrow> verifier_requirement list \<Rightarrow> edge list" where
  "compiled_edges c first vs =
     [plain_edge ''inspect'' ''implement'', plain_edge ''implement'' (verify_id first)] @
     verifier_edges (repair_bound c) vs @
     [plain_edge ''repair'' (verify_id first),
      status_edge ''review'' ''deliver'' ''succeeded'' None,
      status_edge ''review'' ''review_fix'' ''failed'' (Some (repair_bound c)),
      plain_edge ''review_fix'' (verify_id first)]"

definition compile_contract :: "digests \<Rightarrow> task_contract \<Rightarrow> py_error + exec_graph" where
  "compile_contract D c =
     (if tc_status c \<noteq> CS_Frozen
      then Inl (ValueError ''only an explicitly frozen Contract can compile an Execution Graph'')
      else let vs = order_by vq_id (tc_verifiers c) in
        bind_sum (collect (construct validate_node) (compiled_nodes c vs)) (\<lambda>nodes.
        case vs of [] \<Rightarrow> Inl (IndexError ''list index out of range'')
        | first # _ \<Rightarrow>
          bind_sum (collect (construct validate_edge) (compiled_edges c first vs)) (\<lambda>edges.
          bind_sum (construct validate_contract_ref \<lparr>cr_id = tc_id c, cr_revision = tc_revision c\<rparr>) (\<lambda>ref.
          construct validate_graph
            \<lparr>g_id = ''graph:'' @ tc_id c @ '':'' @ int_str (tc_revision c) @ '':'' @ take 16 (contract_sha D c),
             g_contract = ref, g_entry = ''inspect'', g_nodes = nodes, g_edges = edges\<rparr>))))"

section \<open>When a contract compiles\<close>

lemma order_by_sorts: "mset (order_by f xs) = mset xs"
  by (simp add: order_by_def)

lemma order_by_key_distinct: "distinct (map f (order_by f xs)) \<longleftrightarrow> distinct (map f xs)"
  by (metis mset_eq_imp_distinct_iff mset_map order_by_sorts)

lemma verify_id_simps [simp]:
  "verify_id v = verify_id w \<longleftrightarrow> vq_id v = vq_id w"
  "verify_id v \<noteq> ''inspect''" "verify_id v \<noteq> ''implement''" "verify_id v \<noteq> ''repair''"
  "verify_id v \<noteq> ''review''" "verify_id v \<noteq> ''review_fix''" "verify_id v \<noteq> ''deliver''"
  "''inspect'' \<noteq> verify_id v" "''implement'' \<noteq> verify_id v" "''repair'' \<noteq> verify_id v"
  "''review'' \<noteq> verify_id v" "''review_fix'' \<noteq> verify_id v" "''deliver'' \<noteq> verify_id v"
  by (simp_all add: verify_id_def)

lemma verify_id_pattern: "id_pattern (verify_id v) \<longleftrightarrow> list_all id_char (vq_id v)"
proof -
  have "list_all id_char ''verify.''" by code_simp
  then show ?thesis by (simp add: id_pattern_def verify_id_def)
qed

lemma compiled_node_ids:
  "map nd_id (compiled_nodes c vs) =
     [''inspect'', ''implement''] @ map verify_id vs @ [''repair'', ''review'', ''review_fix'', ''deliver'']"
  by (simp add: compiled_nodes_def agent_node_def verify_node_def)

lemma compiled_node_ok:
  assumes "td_description (tc_task c) \<noteq> []"
  shows "(\<forall>n \<in> set (compiled_nodes c vs). validate_node n = Inr ()) \<longleftrightarrow>
    (\<forall>v \<in> set vs. list_all id_char (vq_id v))"
proof -
  have ids: "id_pattern ''inspect''" "id_pattern ''implement''" "id_pattern ''repair''" "id_pattern ''review''"
    "id_pattern ''review_fix''" "id_pattern ''deliver''" by code_simp+
  have "validate_node (agent_node k ob) = Inr ()" if "id_pattern k" "ob \<noteq> []" for k ob
    using that by (simp add: agent_node_def validate_node_def container_type_def)
  moreover have "validate_node (verify_node v) = Inr () \<longleftrightarrow> list_all id_char (vq_id v)" for v
    by (simp add: verify_node_def validate_node_def container_type_def verify_id_pattern)
  moreover have "validate_node (Node ''deliver'' NT_Delivery ob [] None None None None) = Inr ()" if "ob \<noteq> []" for ob
    using that ids(6) by (simp add: validate_node_def container_type_def)
  ultimately show ?thesis using ids assms by (simp add: compiled_nodes_def)
qed

text \<open>The node that follows a verifier, and the edges of the loop.\<close>

definition next_target :: "verifier_requirement list \<Rightarrow> string" where
  "next_target ws = (case ws of [] \<Rightarrow> ''review'' | w # _ \<Rightarrow> verify_id w)"

definition passed_edge :: "verifier_requirement \<Rightarrow> verifier_requirement list \<Rightarrow> edge" where
  "passed_edge v ws = status_edge (verify_id v) (next_target ws) ''passed'' None"

lemma set_verifier_edges:
  "e \<in> set (verifier_edges m vs) \<longleftrightarrow>
     (\<exists>us v ws. vs = us @ v # ws \<and>
       (e = passed_edge v ws \<or> e = status_edge (verify_id v) ''repair'' ''failed'' (Some m)))"
proof (induction vs)
  case (Cons x xs)
  show ?case
    unfolding Cons_eq_append_conv verifier_edges.simps set_simps insert_iff Cons.IH
    by (auto simp: passed_edge_def next_target_def)
qed simp

lemma status_edge_ok:
  "validate_edge (status_edge x y s m) = Inr () \<longleftrightarrow> x \<noteq> [] \<and> y \<noteq> [] \<and> (case m of None \<Rightarrow> True | Some n \<Rightarrow> n \<ge> 1)"
  by (simp add: status_edge_def validate_edge_def)

lemma next_target_nonempty [simp]: "next_target ws \<noteq> []"
  by (simp add: next_target_def verify_id_def split: list.split)

lemma verify_id_nonempty [simp]: "verify_id v \<noteq> []"
  by (simp add: verify_id_def)

lemma repair_bound_pos: "validate_budget (tc_budget c) = Inr () \<Longrightarrow> repair_bound c \<ge> 1"
  by (auto simp: repair_bound_def Let_def validate_budget_def)

lemma compiled_edge_ok:
  assumes "validate_budget (tc_budget c) = Inr ()" and "e \<in> set (compiled_edges c first vs)"
  shows "validate_edge e = Inr ()"
proof -
  note bound = repair_bound_pos [OF assms(1)]
  have plain: "validate_edge (plain_edge x y) = Inr () \<longleftrightarrow> x \<noteq> [] \<and> y \<noteq> []" for x y
    by (simp add: plain_edge_def validate_edge_def)
  from assms(2) bound show ?thesis
    by (auto simp: compiled_edges_def set_verifier_edges passed_edge_def status_edge_ok plain)
qed

lemma compiled_edge_ends:
  assumes "vs = first # rest" and "e \<in> set (compiled_edges c first vs)"
  shows "ed_from e \<in> nd_id ` set (compiled_nodes c vs)" and "ed_to e \<in> nd_id ` set (compiled_nodes c vs)"
    and "distinct (map vq_id vs) \<Longrightarrow> ed_from e \<noteq> ed_to e"
proof -
  have ids: "nd_id ` set (compiled_nodes c vs) = set (map nd_id (compiled_nodes c vs))" by simp
  have next_in: "next_target ws \<in> nd_id ` set (compiled_nodes c vs)" if "vs = us @ ws" for us ws
    using that unfolding ids compiled_node_ids by (cases ws) (auto simp: next_target_def)
  show "ed_from e \<in> nd_id ` set (compiled_nodes c vs)"
    using assms unfolding ids compiled_node_ids
    by (auto simp: compiled_edges_def set_verifier_edges plain_edge_def status_edge_def passed_edge_def)
  show "ed_to e \<in> nd_id ` set (compiled_nodes c vs)"
  proof -
    consider us v ws where "vs = us @ v # ws" "e = passed_edge v ws" |
      "ed_to e \<in> {''implement'', verify_id first, ''repair'', ''deliver'', ''review_fix''}"
      using assms(2) by (auto simp: compiled_edges_def set_verifier_edges plain_edge_def status_edge_def)
    then show ?thesis
    proof cases
      case 1
      then have "ed_to e = next_target ws" by (simp add: passed_edge_def status_edge_def)
      with next_in [of "us @ [v]" ws] 1(1) show ?thesis by simp
    next
      case 2
      then show ?thesis using assms(1) unfolding ids compiled_node_ids by auto
    qed
  qed
  have next_other: "next_target ws \<noteq> verify_id v" if "distinct (map vq_id vs)" "vs = us @ v # ws" for us v ws
    using that by (cases ws) (auto simp: next_target_def)
  show "ed_from e \<noteq> ed_to e" if "distinct (map vq_id vs)"
    using assms(2) next_other [OF that] next_other [OF that, THEN not_sym]
    by (auto simp: compiled_edges_def set_verifier_edges plain_edge_def status_edge_def passed_edge_def)
qed

lemma collect_construct_ok: "\<forall>x \<in> set xs. v x = Inr () \<Longrightarrow> collect (construct v) xs = Inr xs"
  by (induction xs) (simp_all add: construct_ok)

lemma collect_construct_Inr: "collect (construct v) xs = Inr ys \<Longrightarrow> ys = xs \<and> (\<forall>x \<in> set xs. v x = Inr ())"
  by (induction xs arbitrary: ys) (auto simp: bind_sum_Inr construct_Inr)

lemma wf_contractD:
  assumes "wf_contract c"
  shows "td_description (tc_task c) \<noteq> []" and "validate_budget (tc_budget c) = Inr ()" and "tc_id c \<noteq> []"
    and "tc_revision c \<ge> 1" and "tc_verifiers c \<noteq> []"
  using assms by (auto simp: wf_contract_def validate_task_def validate_contract_iff)

lemma compiled_graph:
  assumes wf: "wf_contract c" and frozen: "tc_status c = CS_Frozen"
    and ids: "\<forall>v \<in> set (tc_verifiers c). list_all id_char (vq_id v)" "distinct (map vq_id (tc_verifiers c))"
  obtains g first rest where "compile_contract D c = Inr g" and "wf_graph g"
    and "order_by vq_id (tc_verifiers c) = first # rest" and "g_entry g = ''inspect''"
    and "g_edges g = compiled_edges c first (first # rest)" and "g_nodes g = compiled_nodes c (first # rest)"
    and "g_contract g = \<lparr>cr_id = tc_id c, cr_revision = tc_revision c\<rparr>"
proof -
  note c = wf_contractD [OF wf]
  define vs where "vs = order_by vq_id (tc_verifiers c)"
  have set: "set vs = set (tc_verifiers c)" and dist: "distinct (map vq_id vs)"
    using ids(2) by (simp_all add: vs_def order_by_key_distinct)
  from c(5) obtain first rest where vs: "vs = first # rest" by (cases vs) (auto simp: vs_def)
  have nodes: "\<forall>n \<in> set (compiled_nodes c vs). validate_node n = Inr ()"
    using compiled_node_ok [OF c(1), of vs] ids(1) set by simp
  have edges: "\<forall>e \<in> set (compiled_edges c first vs). validate_edge e = Inr ()"
    using compiled_edge_ok [OF c(2)] by blast
  have "distinct (map verify_id vs)" using dist by (auto simp: distinct_map inj_on_def)
  then have names: "distinct (map nd_id (compiled_nodes c vs))"
    unfolding compiled_node_ids by auto
  let ?ref = "\<lparr>cr_id = tc_id c, cr_revision = tc_revision c\<rparr>"
  let ?g = "\<lparr>g_id = ''graph:'' @ tc_id c @ '':'' @ int_str (tc_revision c) @ '':'' @ take 16 (contract_sha D c),
      g_contract = ?ref, g_entry = ''inspect'', g_nodes = compiled_nodes c vs, g_edges = compiled_edges c first vs\<rparr>"
  have ref: "validate_contract_ref ?ref = Inr ()" using c(3,4) by (simp add: validate_contract_ref_def)
  have types: "nd_type n \<noteq> NT_Join" "nd_subgraph n = None" "nd_parallel n = None" "nd_budget n = None"
    if "n \<in> set (compiled_nodes c vs)" for n
    using that by (auto simp: compiled_nodes_def agent_node_def verify_node_def)
  have valid: "validate_graph ?g = Inr ()"
    using names compiled_edge_ends [OF vs] dist types(1)
    by (auto simp: validate_graph_iff compiled_nodes_def agent_node_def)
  have ref': "construct validate_contract_ref ?ref = Inr ?ref" by (simp add: ref construct_def)
  have valid': "construct validate_graph ?g = Inr ?g" by (simp only: valid construct_def sum.case)
  have compiled: "compile_contract D c = Inr ?g"
    using frozen collect_construct_ok [OF nodes] collect_construct_ok [OF edges]
    by (simp only: compile_contract_def Let_def vs_def [symmetric] bind_sum_simps if_False simp_thms)
      (simp only: vs list.case ref' bind_sum_simps valid' [unfolded vs])
  have graph: "wf_graph ?g"
  proof -
    have "wf_node n" if "n \<in> set (compiled_nodes c vs)" for n
      using nodes types [OF that] that by (simp add: wf_node_def wf_leaf_def wf_budget_opt_def)
    moreover have "wf_edge e" if "e \<in> set (compiled_edges c first vs)" for e
    proof -
      have "case ed_cond e of None \<Rightarrow> True | Some c \<Rightarrow> validate_condition c = Inr ()"
        using that by (auto simp: compiled_edges_def set_verifier_edges plain_edge_def status_edge_def
            passed_edge_def status_is_def validate_condition_def is_list_def)
      with edges that show ?thesis by (simp add: wf_edge_def)
    qed
    ultimately show ?thesis using valid ref by (simp add: wf_graph_def list_all_iff)
  qed
  show ?thesis by (rule that [OF compiled graph vs [unfolded vs_def]]) (simp_all add: vs)
qed

lemma compiled_only_if:
  assumes "compile_contract D c = Inr g" and "wf_contract c"
  shows "tc_status c = CS_Frozen" and "\<forall>v \<in> set (tc_verifiers c). list_all id_char (vq_id v)"
    and "distinct (map vq_id (tc_verifiers c))"
proof -
  note wf = wf_contractD [OF assms(2)]
  define vs where "vs = order_by vq_id (tc_verifiers c)"
  from assms(1) show st: "tc_status c = CS_Frozen" by (auto simp: compile_contract_def split: if_splits)
  from wf(5) obtain first rest where vs: "vs = first # rest" by (cases vs) (auto simp: vs_def)
  from assms(1) st obtain nodes where nodes: "collect (construct validate_node) (compiled_nodes c vs) = Inr nodes"
    "distinct (map nd_id nodes)"
    by (auto simp: compile_contract_def Let_def vs_def [symmetric] vs bind_sum_Inr validate_graph_iff)
  from collect_construct_Inr [OF nodes(1)] have eq: "nodes = compiled_nodes c vs"
    and ok: "\<forall>n \<in> set (compiled_nodes c vs). validate_node n = Inr ()" by simp_all
  show "\<forall>v \<in> set (tc_verifiers c). list_all id_char (vq_id v)"
    using ok compiled_node_ok [OF wf(1), of vs] by (simp add: vs_def)
  have "distinct (map verify_id vs)" using nodes(2) unfolding eq compiled_node_ids by simp
  then have "distinct (map vq_id vs)" by (auto simp: distinct_map inj_on_def)
  then show "distinct (map vq_id (tc_verifiers c))" by (simp add: vs_def order_by_key_distinct)
qed

text \<open>
  C28. A task contract that passed its validators compiles exactly when it is frozen, its verifier ids
  are distinct and contain only identifier characters; and every graph that is returned is accepted by
  all validators of the graph model, so the runtime can execute it.
\<close>

theorem compiles_iff:
  assumes "wf_contract c"
  shows "((\<exists>g. compile_contract D c = Inr g) \<longleftrightarrow> tc_status c = CS_Frozen \<and>
      (\<forall>v \<in> set (tc_verifiers c). list_all id_char (vq_id v)) \<and> distinct (map vq_id (tc_verifiers c))) \<and>
    (\<forall>g. compile_contract D c = Inr g \<longrightarrow> wf_graph g)"
proof (intro conjI allI impI)
  show "(\<exists>g. compile_contract D c = Inr g) \<longleftrightarrow> tc_status c = CS_Frozen \<and>
      (\<forall>v \<in> set (tc_verifiers c). list_all id_char (vq_id v)) \<and> distinct (map vq_id (tc_verifiers c))"
    using compiled_graph [OF assms, of D] compiled_only_if [OF _ assms] by metis
  show "wf_graph g" if "compile_contract D c = Inr g" for g
    using compiled_graph [OF assms, of D] compiled_only_if [OF that assms] that by (metis Inr_inject)
qed

text \<open>A contract with two verifiers.\<close>

definition sample_requirement :: "string \<Rightarrow> verifier_requirement" where
  "sample_requirement k = \<lparr>vq_id = k, vq_type = ''command'', vq_timeout = 60, vq_required = True\<rparr>"

definition sample_contract :: task_contract where
  "sample_contract = \<lparr>tc_id = ''c'', tc_revision = 1, tc_status = CS_Frozen, tc_supersedes = None,
     tc_task = \<lparr>td_id = ''t'', td_title = ''T'', td_description = ''do''\<rparr>,
     tc_criteria = [\<lparr>ac_criterion = ''a'', ac_description = ''tests'', ac_refs = [''unit'']\<rparr>], tc_constraints = [],
     tc_verifiers = [sample_requirement ''unit'', sample_requirement ''lint''],
     tc_policy = \<lparr>cp_protected = [], cp_hosts = [], cp_secrets = []\<rparr>, tc_delivery = DT_Patch,
     tc_human = \<lparr>hp_queries = True, hp_pause = True, hp_interrupt = True, hp_acceptance = False\<rparr>,
     tc_budget = \<lparr>bg_max_duration = 100, bg_max_calls = 9, bg_max_repairs = 2, bg_max_cost = None\<rparr>\<rparr>"

definition sample_digests :: digests where
  "sample_digests = \<lparr>dg_contract_json = tc_id, dg_verifier_json = vq_id, dg_delta_json = dl_id,
     dg_graph_json = g_id, dg_sha256 = (\<lambda>s. replicate 64 (CHR ''0''))\<rparr>"

lemma sample_contract_wf: "wf_contract sample_contract"
  by code_simp

theorem compiles_iff_witness:
  "\<exists>g. compile_contract sample_digests sample_contract = Inr g \<and> wf_graph g"
proof -
  have frozen: "tc_status sample_contract = CS_Frozen"
    and ids: "\<forall>v \<in> set (tc_verifiers sample_contract). list_all id_char (vq_id v)"
    and dist: "distinct (map vq_id (tc_verifiers sample_contract))" by code_simp+
  from compiles_iff [OF sample_contract_wf, of sample_digests] frozen ids dist show ?thesis by blast
qed

section \<open>Delivery needs every verifier\<close>

text \<open>A walk along the edges of a graph.\<close>

fun walk :: "edge list \<Rightarrow> string \<Rightarrow> edge list \<Rightarrow> string \<Rightarrow> bool" where
  "walk es x [] y \<longleftrightarrow> x = y"
| "walk es x (e # p) y \<longleftrightarrow> e \<in> set es \<and> ed_from e = x \<and> walk es (ed_to e) p y"

lemma walk_snoc: "walk es x (p @ [e]) y \<longleftrightarrow> walk es x p (ed_from e) \<and> e \<in> set es \<and> ed_to e = y"
  by (induction p arbitrary: x) auto

text \<open>All verifiers in order, each left with \<open>passed\<close>, up to the node that follows them.\<close>

fun passes :: "verifier_requirement list \<Rightarrow> verifier_requirement list \<Rightarrow> edge list" where
  "passes [] ws = []"
| "passes (v # vs) ws = passed_edge v (vs @ ws) # passes vs ws"

lemma passes_snoc: "passes (us @ [u]) ws = passes us (u # ws) @ [passed_edge u ws]"
  by (induction us) simp_all

lemma edge_into_next:
  assumes vs: "vs = us @ u # ws" and dist: "distinct (map vq_id vs)" and first: "hd vs = first"
    and e: "e \<in> set (compiled_edges c first vs)" "ed_to e = next_target ws"
  shows "e = passed_edge u ws"
proof -
  have not_first: "next_target ws \<noteq> verify_id first"
    using vs dist first by (cases ws; cases us) (auto simp: next_target_def)
  from e not_first obtain us' v ws' where v: "vs = us' @ v # ws'" "e = passed_edge v ws'"
    by (cases ws) (auto simp: compiled_edges_def set_verifier_edges plain_edge_def status_edge_def next_target_def)
  with e(2) have same: "next_target ws' = next_target ws" by (simp add: passed_edge_def status_edge_def)
  have "length ws' = length ws"
  proof (cases ws)
    case Nil
    with same show ?thesis by (cases ws') (simp_all add: next_target_def)
  next
    case (Cons w rest)
    with same obtain w' rest' where w': "ws' = w' # rest'" "vq_id w' = vq_id w"
      by (cases ws') (auto simp: next_target_def)
    have "map vq_id vs ! (length us + 1) = vq_id w" "map vq_id vs ! (length us' + 1) = vq_id w"
      using w' by (simp add: vs Cons nth_append, simp add: v(1) nth_append)
    moreover have "length us + 1 < length (map vq_id vs)" "length us' + 1 < length (map vq_id vs)"
      using w' by (simp add: vs Cons, simp add: v(1))
    ultimately have "length us + 1 = length us' + 1" using nth_eq_iff_index_eq [OF dist] by metis
    moreover have "length vs = length us + 1 + length ws" "length vs = length us' + 1 + length ws'"
      by (simp add: vs, simp add: v(1))
    ultimately show ?thesis by simp
  qed
  moreover have "(us' @ [v]) @ ws' = (us @ [u]) @ ws" using vs v(1) by simp
  ultimately have "us' @ [v] = us @ [u] \<and> ws' = ws" by (simp add: append_eq_append_conv)
  with v(2) show ?thesis by simp
qed

lemma walk_into:
  assumes dist: "distinct (map vq_id vs)" and first: "hd vs = first"
  shows "vs = us @ ws \<Longrightarrow> walk (compiled_edges c first vs) ''inspect'' p (next_target ws) \<Longrightarrow>
    \<exists>q. p = q @ passes us ws"
proof (induction us arbitrary: ws p rule: rev_induct)
  case Nil
  then show ?case by simp
next
  case (snoc u us)
  have "next_target ws \<noteq> ''inspect''" by (simp add: next_target_def split: list.split)
  with snoc.prems(2) obtain p' e where p: "p = p' @ [e]" by (cases p rule: rev_cases) auto
  with snoc.prems(2) have e: "walk (compiled_edges c first vs) ''inspect'' p' (ed_from e)"
    "e \<in> set (compiled_edges c first vs)" "ed_to e = next_target ws" by (simp_all add: walk_snoc)
  have "vs = us @ u # ws" using snoc.prems(1) by simp
  note into = edge_into_next [OF this dist first e(2,3)]
  then have "ed_from e = next_target (u # ws)" by (simp add: passed_edge_def status_edge_def next_target_def)
  with snoc.IH [of "u # ws" p'] snoc.prems(1) e(1) obtain q where "p' = q @ passes us (u # ws)" by auto
  with p into show ?case by (auto simp: passes_snoc)
qed

text \<open>
  C29. In the graph of a contract, every walk from the entry to the delivery ends with all verifiers
  of the contract in order, each left by the edge for a passed result and none of them interrupted by a
  repair, then the review left with success: nothing is delivered on a way that did not pass every verifier since
  the last change.
\<close>

theorem delivery_needs_every_verifier:
  assumes "wf_contract c" and "compile_contract D c = Inr g"
    and "walk (g_edges g) (g_entry g) p ''deliver''"
  shows "\<exists>q. p = q @ passes (order_by vq_id (tc_verifiers c)) [] @
    [status_edge ''review'' ''deliver'' ''succeeded'' None]"
proof -
  note only = compiled_only_if [OF assms(2,1)]
  obtain first rest where g: "order_by vq_id (tc_verifiers c) = first # rest" "g_entry g = ''inspect''"
    "g_edges g = compiled_edges c first (first # rest)"
    using compiled_graph [OF assms(1) only, of D] assms(2) by (metis Inr_inject)
  have dist: "distinct (map vq_id (first # rest))"
    using only(3) order_by_key_distinct [of vq_id "tc_verifiers c"] by (simp only: g(1))
  from assms(3) g(2) obtain p' e where p: "p = p' @ [e]" by (cases p rule: rev_cases) auto
  with assms(3) g(2,3) have e: "walk (compiled_edges c first (first # rest)) ''inspect'' p' (ed_from e)"
    "e \<in> set (compiled_edges c first (first # rest))" "ed_to e = ''deliver''" by (simp_all add: walk_snoc)
  have "next_target ws \<noteq> ''deliver''" for ws by (simp add: next_target_def split: list.split)
  with e(2,3) have last: "e = status_edge ''review'' ''deliver'' ''succeeded'' None"
    by (auto simp: compiled_edges_def set_verifier_edges plain_edge_def status_edge_def passed_edge_def
        simp del: verifier_edges.simps)
  then have "ed_from e = next_target []" by (simp add: status_edge_def next_target_def)
  with walk_into [OF dist, of first "first # rest" "[]" c p'] e(1) obtain q where "p' = q @ passes (first # rest) []"
    by auto
  with p last g(1) show ?thesis by auto
qed

theorem delivery_needs_every_verifier_witness:
  "\<exists>g p q. compile_contract sample_digests sample_contract = Inr g \<and> walk (g_edges g) (g_entry g) p ''deliver'' \<and>
     p = q @ passes [sample_requirement ''lint'', sample_requirement ''unit''] [] @
       [status_edge ''review'' ''deliver'' ''succeeded'' None]"
proof -
  define vs where "vs = [sample_requirement ''lint'', sample_requirement ''unit'']"
  define p where "p = [plain_edge ''inspect'' ''implement'', plain_edge ''implement'' ''verify.lint''] @
      passes vs [] @ [status_edge ''review'' ''deliver'' ''succeeded'' None]"
  have order: "order_by vq_id (tc_verifiers sample_contract) = vs" unfolding vs_def by code_simp
  obtain g where g: "compile_contract sample_digests sample_contract = Inr g" "g_entry g = ''inspect''"
    "g_edges g = compiled_edges sample_contract (hd vs) vs"
  proof -
    have "\<forall>v \<in> set (tc_verifiers sample_contract). list_all id_char (vq_id v)"
      "distinct (map vq_id (tc_verifiers sample_contract))" "tc_status sample_contract = CS_Frozen" by code_simp+
    from compiled_graph [OF sample_contract_wf this(3,1,2), of sample_digests] that order show ?thesis
      by (metis list.sel(1))
  qed
  have "walk (compiled_edges sample_contract (hd vs) vs) ''inspect'' p ''deliver''"
    unfolding p_def vs_def by code_simp
  with g(2,3) have w: "walk (g_edges g) (g_entry g) p ''deliver''" by simp
  from delivery_needs_every_verifier [OF sample_contract_wf g(1) w] order g(1) w show ?thesis
    unfolding vs_def by auto
qed

end
