(* ===== verification/Contracts_Repo.thy ===== *)
theory Contracts_Repo
  imports Control_Store Compiler
begin

text \<open>
  \<open>contracts/repository.py\<close> and \<open>contracts/runs.py\<close>: staging and freezing drafts, revising frozen contracts,
  and planning runs of them. Each method is one transaction of the control store.
\<close>

section \<open>ContractRepository\<close>

text \<open>\<open>_confirmed\<close>: the message holds one of four words; the last three are the UTF-8 bytes of Chinese ones.\<close>

definition confirmation_words :: "string list" where
  "confirmation_words = [''confirm'',
     [CHR 0xE7, CHR 0xA1, CHR 0xAE, CHR 0xE8, CHR 0xAE, CHR 0xA4],
     [CHR 0xE5, CHR 0x90, CHR 0x8C, CHR 0xE6, CHR 0x84, CHR 0x8F],
     [CHR 0xE6, CHR 0x89, CHR 0xB9, CHR 0xE5, CHR 0x87, CHR 0x86]]"

definition confirmed :: "human_message \<Rightarrow> bool" where
  "confirmed m \<longleftrightarrow> list_ex (\<lambda>w. occurs_in w (casefold (hm_content m))) confirmation_words"

definition draft_id_of :: "digests \<Rightarrow> task_contract \<Rightarrow> string" where
  "draft_id_of D c = ''draft:'' @ tc_id c @ '':'' @ int_str (tc_revision c) @ '':'' @ take 16 (contract_sha D c)"

definition stage :: "digests \<Rightarrow> string \<Rightarrow> task_contract \<Rightarrow> (control_db, string) op" where
  "stage D conversation c =
     (if tc_status c \<noteq> CS_Draft then raise (ContractRevisionError ''only a draft Contract can be staged'')
      else committed
        (seq_op (insert_draft \<lparr>dr_id = draft_id_of D c, dr_conversation = conversation, dr_contract = c,
             dr_hash = contract_sha D c, dr_state = DR_Staged\<rparr>)
        (seq_op (log_event ''contract.draft.staged'' (''conversation:'' @ conversation)
             [(''draft_id'', JStr (draft_id_of D c)), (''contract_hash'', JStr (contract_sha D c))])
        (ret (draft_id_of D c)))))"

text \<open>\<open>_insert_frozen\<close>: the revision and its acceptance lock, with the hashes of the declared verifiers.\<close>

definition verifier_hashes :: "digests \<Rightarrow> task_contract \<Rightarrow> (string \<times> string) list" where
  "verifier_hashes D c = map (\<lambda>v. (vq_id v, verifier_sha D v)) (order_by vq_id (tc_verifiers c))"

definition revision_row_of :: "digests \<Rightarrow> task_contract \<Rightarrow> string \<Rightarrow> revision_row" where
  "revision_row_of D c message = \<lparr>rev_contract = tc_id c, rev_number = tc_revision c, rev_body = c,
     rev_hash = contract_sha D c, rev_message = message\<rparr>"

definition lock_row_of :: "digests \<Rightarrow> int \<Rightarrow> task_contract \<Rightarrow> string \<Rightarrow> acceptance_lock" where
  "lock_row_of D now c message =
     \<lparr>al_id = ''acceptance:'' @ tc_id c @ '':'' @ int_str (tc_revision c) @ '':'' @ take 16 (contract_sha D c),
      al_contract = tc_id c, al_revision = tc_revision c, al_hash = contract_sha D c,
      al_verifiers = verifier_hashes D c, al_message = message, al_created = now\<rparr>"

definition insert_frozen :: "digests \<Rightarrow> int \<Rightarrow> task_contract \<Rightarrow> string \<Rightarrow> (control_db, unit) op" where
  "insert_frozen D now c message = seq_op (insert_revision (revision_row_of D c message))
     (insert_lock (lock_row_of D now c message))"

text \<open>\<open>_frozen\<close>\<close>

definition frozen_of :: "string \<Rightarrow> int \<Rightarrow> control_db \<Rightarrow> py_error + frozen_contract" where
  "frozen_of c n s = (case (revision_of c n s, lock_of c n s) of
     (Some r, Some l) \<Rightarrow>
       bind_sum (load_contract (rev_body r)) (\<lambda>body.
       bind_sum (construct validate_lock l) (\<lambda>lock. Inr \<lparr>fz_contract = body, fz_lock = lock\<rparr>))
   | _ \<Rightarrow> Inl (ContractRevisionError ''frozen Contract is incomplete''))"

text \<open>\<open>confirmation.run_id or f"contract:..."\<close>: the run an event is filed under.\<close>

definition event_run :: "human_message \<Rightarrow> string \<Rightarrow> string" where
  "event_run m c = (case hm_run m of Some (x # xs) \<Rightarrow> x # xs | _ \<Rightarrow> ''contract:'' @ c)"

definition frozen_copy :: "task_contract \<Rightarrow> task_contract" where
  "frozen_copy c = c\<lparr>tc_status := CS_Frozen\<rparr>"

definition mark_draft :: "string \<Rightarrow> (control_db, unit) op" where
  "mark_draft k = modify (\<lambda>s. s\<lparr>cs_drafts := update_where (\<lambda>r. dr_id r = k) (\<lambda>r. r\<lparr>dr_state := DR_Frozen\<rparr>) (cs_drafts s)\<rparr>)"

definition freeze_draft :: "digests \<Rightarrow> int \<Rightarrow> string \<Rightarrow> human_message \<Rightarrow> task_contract \<Rightarrow> (control_db, frozen_contract) op" where
  "freeze_draft D now k m c =
     bind_op (gets (revision_of (tc_id c) (tc_revision c))) (\<lambda>existing.
     case existing of
       Some r \<Rightarrow> if rev_hash r \<noteq> contract_sha D c
         then raise (ContractRevisionError ''a different frozen Contract already owns this revision'')
         else ask (frozen_of (tc_id c) (tc_revision c))
     | None \<Rightarrow>
         seq_op (insert_frozen D now c (hm_id m))
         (seq_op (mark_draft k)
         (seq_op (log_event ''contract.frozen'' (event_run m (tc_id c))
            [(''contract_id'', JStr (tc_id c)), (''revision'', JInt (tc_revision c))])
         (ask (frozen_of (tc_id c) (tc_revision c))))))"

definition freeze :: "digests \<Rightarrow> int \<Rightarrow> string \<Rightarrow> human_message \<Rightarrow> (control_db, frozen_contract) op" where
  "freeze D now k m =
     (if \<not> confirmed m then raise (ContractRevisionError ''explicit Human confirmation is required'')
      else committed
        (bind_op (ask (\<lambda>s. case lookup_row dr_id k (cs_drafts s) of None \<Rightarrow> Inl (KeyError k)
           | Some r \<Rightarrow> load_contract (dr_contract r))) (\<lambda>c.
         freeze_draft D now k m (frozen_copy c))))"

text \<open>\<open>apply_delta\<close>: the next revision of a frozen contract, built on the latest one.\<close>

definition latest_revision :: "string \<Rightarrow> control_db \<Rightarrow> int option" where
  "latest_revision c s = (case filter (\<lambda>r. rev_contract r = c) (cs_revisions s) of
     [] \<Rightarrow> None | rs \<Rightarrow> Some (Max (set (map rev_number rs))))"

definition delta_source :: "contract_delta \<Rightarrow> control_db \<Rightarrow> py_error + task_contract" where
  "delta_source d s = (case revision_of (dl_contract d) (dl_source d) s of
     None \<Rightarrow> Inl (ContractRevisionError ''source Contract revision does not exist'')
   | Some r \<Rightarrow> if latest_revision (dl_contract d) s \<noteq> Some (dl_source d)
       then Inl (ContractRevisionError ''delta must apply to the latest frozen revision'')
       else load_contract (rev_body r))"

definition revised_contract :: "contract_delta \<Rightarrow> task_contract \<Rightarrow> py_error + task_contract" where
  "revised_contract d source =
     bind_sum (construct validate_contract_ref \<lparr>cr_id = tc_id source, cr_revision = tc_revision source\<rparr>) (\<lambda>ref.
     load_contract (source\<lparr>tc_revision := tc_revision source + 1, tc_supersedes := Some ref,
       tc_task := (tc_task source)\<lparr>td_description := dl_replacement d\<rparr>, tc_status := CS_Frozen\<rparr>))"

definition apply_delta :: "digests \<Rightarrow> int \<Rightarrow> contract_delta \<Rightarrow> human_message \<Rightarrow> (control_db, frozen_contract) op" where
  "apply_delta D now d m =
     (if \<not> confirmed m then raise (ContractRevisionError ''explicit Human confirmation is required'')
      else committed
        (bind_op (ask (delta_source d)) (\<lambda>source.
         bind_op (lift_sum (revised_contract d source)) (\<lambda>revised.
         seq_op (insert_frozen D now revised (hm_id m))
         (seq_op (insert_delta \<lparr>de_delta = d, de_new = tc_revision source + 1, de_message = hm_id m\<rparr>)
         (seq_op (log_event ''contract.revision.created'' (event_run m (tc_id revised))
            [(''delta_id'', JStr (dl_id d)), (''revision'', JInt (tc_revision source + 1))])
         (ask (frozen_of (tc_id revised) (tc_revision source + 1)))))))))"

definition revisions :: "string \<Rightarrow> control_db \<Rightarrow> py_error + task_contract list" where
  "revisions c s = collect (\<lambda>r. load_contract (rev_body r))
     (order_by rev_number (filter (\<lambda>r. rev_contract r = c) (cs_revisions s)))"

definition locks :: "string \<Rightarrow> control_db \<Rightarrow> py_error + acceptance_lock list" where
  "locks c s = collect (construct validate_lock)
     (order_by al_revision (filter (\<lambda>l. al_contract l = c) (cs_locks s)))"

definition replace_frozen :: "task_contract \<Rightarrow> control_db \<Rightarrow> py_error + unit" where
  "replace_frozen c s = bind_sum (revisions (tc_id c) s) (\<lambda>cs.
     Inl (ContractRevisionError (if cs \<noteq> [] then ''frozen Contract revisions cannot be replaced''
       else ''replacement is not a supported Contract operation'')))"

section \<open>RunPlanner\<close>

record planned_run =
  pr_id :: string
  pr_project :: string
  pr_graph :: exec_graph
  pr_relationship :: relationship
  pr_restart :: "restart_from option"
  pr_state :: plan_state

definition lock_matches :: "digests \<Rightarrow> frozen_contract \<Rightarrow> bool" where
  "lock_matches D f \<longleftrightarrow> al_contract (fz_lock f) = tc_id (fz_contract f) \<and>
     al_revision (fz_lock f) = tc_revision (fz_contract f) \<and> al_hash (fz_lock f) = contract_sha D (fz_contract f)"

definition default_run_id :: "digests \<Rightarrow> task_contract \<Rightarrow> string" where
  "default_run_id D c = ''run-'' @ take 24 (dg_sha256 D
     (tc_id c @ [CHR 0x00] @ int_str (tc_revision c) @ [CHR 0x00] @ contract_sha D c))"

definition planned_id :: "digests \<Rightarrow> task_contract \<Rightarrow> string option \<Rightarrow> string" where
  "planned_id D c given = (case given of Some (x # xs) \<Rightarrow> x # xs | _ \<Rightarrow> default_run_id D c)"

definition source_known :: "string option \<Rightarrow> control_db \<Rightarrow> bool" where
  "source_known source s = (case source of None \<Rightarrow> True
     | Some k \<Rightarrow> planned_of k s \<noteq> None \<or> find (\<lambda>r. rn_id r = k) (db_runs (cs_core s)) \<noteq> None)"

definition plan_row :: "digests \<Rightarrow> string \<Rightarrow> string \<Rightarrow> task_contract \<Rightarrow> exec_graph \<Rightarrow> string option \<Rightarrow>
    restart_from option \<Rightarrow> planned_row" where
  "plan_row D run project c g source restart =
     \<lparr>pl_id = run, pl_project = project, pl_contract = tc_id c, pl_revision = tc_revision c, pl_graph = g,
      pl_hash = graph_sha D g, pl_parent = source, pl_supersedes = source, pl_restart = restart,
      pl_state = PL_Prepared\<rparr>"

definition str_or_null :: "string option \<Rightarrow> json" where
  "str_or_null x = (case x of None \<Rightarrow> JNull | Some k \<Rightarrow> JStr k)"

definition plan_tx :: "digests \<Rightarrow> planned_row \<Rightarrow> (control_db, unit) op" where
  "plan_tx D row =
     bind_op (gets (source_known (pl_parent row))) (\<lambda>known.
     if \<not> known then raise (ValueError ''source Run does not exist'')
     else bind_op (gets (planned_of (pl_id row))) (\<lambda>existing.
       case existing of
         None \<Rightarrow> seq_op (insert_planned row)
           (log_event ''run.prepared'' (pl_id row)
             [(''contract_id'', JStr (pl_contract row)), (''contract_revision'', JInt (pl_revision row)),
              (''parent_run_id'', str_or_null (pl_parent row)), (''supersedes_run_id'', str_or_null (pl_parent row))])
       | Some old \<Rightarrow> if pl_hash old \<noteq> pl_hash row then raise (ValueError ''prepared Run ID collision'') else ret ()))"

definition plan_run :: "digests \<Rightarrow> string \<Rightarrow> frozen_contract \<Rightarrow> string option \<Rightarrow> restart_from option \<Rightarrow>
    string option \<Rightarrow> (control_db, planned_run) op" where
  "plan_run D project f source restart given =
     (let c = fz_contract f; run = planned_id D c given in
      if \<not> lock_matches D f then raise (ValueError ''acceptance lock does not match the frozen Contract'')
      else bind_op (lift_sum (compile_contract D c)) (\<lambda>g.
        bind_op (lift_sum (construct validate_relationship
          \<lparr>rl_run = run, rl_parent = source, rl_supersedes = source\<rparr>)) (\<lambda>rel.
        seq_op (committed (plan_tx D (plan_row D run project c g source restart)))
        (ret \<lparr>pr_id = run, pr_project = project, pr_graph = g, pr_relationship = rel, pr_restart = restart,
              pr_state = PL_Prepared\<rparr>))))"

definition get_planned :: "string \<Rightarrow> control_db \<Rightarrow> py_error + planned_run" where
  "get_planned k s = (case planned_of k s of None \<Rightarrow> Inl (KeyError k)
     | Some r \<Rightarrow> bind_sum (load_graph (pl_graph r)) (\<lambda>g.
         bind_sum (construct validate_relationship
           \<lparr>rl_run = pl_id r, rl_parent = pl_parent r, rl_supersedes = pl_supersedes r\<rparr>) (\<lambda>rel.
         Inr \<lparr>pr_id = pl_id r, pr_project = pl_project r, pr_graph = g, pr_relationship = rel,
           pr_restart = pl_restart r, pr_state = pl_state r\<rparr>)))"

end
