(* ===== verification/Run_Start.thy ===== *)
theory Run_Start
  imports Contracts_Repo Engine_Control
begin

text \<open>
  The explicit start of a planned run, \<open>delivery/coordinator.py\<close>: the prepared run is checked against its
  frozen contract and lock, claimed under an idempotency key, driven by the runtime in the store of
  the run, and completed. The control store and the store of a run are two databases.
\<close>

section \<open>Claim and completion\<close>

definition start_error :: "string \<Rightarrow> py_error" where
  "start_error = NamedError ''RunStartError''"

definition uncertain_error :: "string \<Rightarrow> py_error" where
  "uncertain_error = NamedError ''RunStartUncertainError''"

definition no_drift :: "digests \<Rightarrow> planned_row \<Rightarrow> revision_row \<Rightarrow> acceptance_lock \<Rightarrow> task_contract \<Rightarrow> exec_graph \<Rightarrow> bool" where
  "no_drift D p r l c g \<longleftrightarrow> contract_sha D c = rev_hash r \<and> contract_sha D c = al_hash l \<and> graph_sha D g = pl_hash p \<and>
     cr_id (g_contract g) = tc_id c \<and> cr_revision (g_contract g) = tc_revision c"

definition load_prepared :: "digests \<Rightarrow> string \<Rightarrow> control_db \<Rightarrow> py_error + planned_row \<times> exec_graph \<times> task_contract" where
  "load_prepared D run s = (case planned_of run s of None \<Rightarrow> Inl (KeyError run)
     | Some p \<Rightarrow> (case (revision_of (pl_contract p) (pl_revision p) s, lock_of (pl_contract p) (pl_revision p) s) of
         (Some r, Some l) \<Rightarrow>
           bind_sum (load_contract (rev_body r)) (\<lambda>c.
           bind_sum (load_graph (pl_graph p)) (\<lambda>g.
           if no_drift D p r l c g then Inr (p, g, c)
           else Inl (start_error ''frozen Contract, acceptance lock, or Graph drift detected'')))
       | _ \<Rightarrow> Inl (start_error ''frozen Contract or acceptance lock is missing'')))"

definition start_fingerprint :: "digests \<Rightarrow> string \<Rightarrow> planned_row \<Rightarrow> task_contract \<Rightarrow> string" where
  "start_fingerprint D run p c = dg_sha256 D (run @ [CHR 0x00] @ pl_hash p @ [CHR 0x00] @ contract_sha D c)"

text \<open>\<open>_claim\<close>: Some result is a replay, None the right to start.\<close>

definition replay :: "string \<Rightarrow> string \<Rightarrow> start_row \<Rightarrow> py_error + run_outcome option" where
  "replay run fp r =
     (if sr_fingerprint r \<noteq> fp \<or> sr_run r \<noteq> run then Inl (start_error ''run-start idempotency identity collision'')
      else case (sr_completed r, sr_result r) of
        (True, Some x) \<Rightarrow> Inr (Some x)
      | _ \<Rightarrow> Inl (uncertain_error ''run start was claimed but its outcome is unknown; refusing duplicate execution''))"

definition check_prepared :: "string \<Rightarrow> control_db \<Rightarrow> py_error + unit" where
  "check_prepared run s = (case planned_of run s of
     None \<Rightarrow> Inl (start_error ''prepared Run was not found'')
   | Some p \<Rightarrow> (case pl_state p of
       PL_Claimed \<Rightarrow> Inl (uncertain_error ''run start was claimed under another identity; refusing duplicate execution'')
     | PL_Started \<Rightarrow> Inl (start_error ''Run has already left the prepared state'')
     | PL_Prepared \<Rightarrow> Inr ()))"

definition claim_planned :: "string \<Rightarrow> control_db \<Rightarrow> control_db" where
  "claim_planned run s = s\<lparr>cs_planned := update_where (\<lambda>p. pl_id p = run \<and> pl_state p = PL_Prepared)
     (\<lambda>p. p\<lparr>pl_state := PL_Claimed\<rparr>) (cs_planned s)\<rparr>"

definition claim_tx :: "string \<Rightarrow> string \<Rightarrow> string \<Rightarrow> string \<Rightarrow> (control_db, run_outcome option) op" where
  "claim_tx run request key fp =
     bind_op (gets (\<lambda>s. lookup_row sr_key key (cs_starts s))) (\<lambda>existing.
     case existing of
       Some r \<Rightarrow> lift_sum (replay run fp r)
     | None \<Rightarrow>
         seq_op (ask (check_prepared run))
         (seq_op (insert_start \<lparr>sr_key = key, sr_request = request, sr_run = run, sr_fingerprint = fp,
             sr_completed = False, sr_result = None\<rparr>)
         (seq_op (modify (claim_planned run))
         (seq_op (log_event ''run.start.claimed'' run
             [(''request_id'', JStr request), (''idempotency_key'', JStr key)])
         (ret None)))))"

definition claim :: "string \<Rightarrow> string \<Rightarrow> string \<Rightarrow> string \<Rightarrow> (control_db, run_outcome option) op" where
  "claim run request key fp = committed (claim_tx run request key fp)"

text \<open>\<open>run\<close> up to the claim: the replay, or what the runtime is to execute.\<close>

definition begin_run :: "digests \<Rightarrow> string \<Rightarrow> string \<Rightarrow> string \<Rightarrow>
    (control_db, run_outcome option \<times> planned_row \<times> exec_graph \<times> task_contract) op" where
  "begin_run D run request key =
     (if request = [] \<or> key = [] then raise (start_error ''request and idempotency identities are required'')
      else bind_op (ask (load_prepared D run)) (\<lambda>(p, g, c).
        bind_op (claim run request key (start_fingerprint D run p c)) (\<lambda>answer.
        ret (answer, p, g, c))))"

definition completed_row :: "run_outcome \<Rightarrow> start_row \<Rightarrow> start_row" where
  "completed_row x r = r\<lparr>sr_completed := True, sr_result := Some x\<rparr>"

definition complete :: "run_outcome \<Rightarrow> (control_db, unit) op" where
  "complete x = committed
     (seq_op (modify (\<lambda>s. s\<lparr>
        cs_starts := update_where (\<lambda>r. sr_key r = ro_key x \<and> \<not> sr_completed r) (completed_row x) (cs_starts s),
        cs_planned := update_where (\<lambda>p. pl_id p = ro_run x) (\<lambda>p. p\<lparr>pl_state := PL_Started\<rparr>) (cs_planned s)\<rparr>))
     (log_event ''run.start.completed'' (ro_run x) [(''runtime_status'', JStr (ro_status x))]))"

section \<open>The runtime between claim and completion\<close>

text \<open>
  Create the run in its own store, or recover it when an earlier start got that far, and run it. \<open>None\<close> is
  the model's own value for a run loop cut off by its fuel.
\<close>

definition drive :: "nat \<Rightarrow> 'x env \<Rightarrow> digests \<Rightarrow> string \<Rightarrow> planned_row \<Rightarrow> exec_graph \<Rightarrow> task_contract \<Rightarrow>
    ('x world, run_status option) thread" where
  "drive fuel E D run p g c =
     bind_t (reading (\<lambda>now d. Inr (find (\<lambda>r. rn_id r = run) (db_runs d)))) (\<lambda>existing.
     seq_t (case existing of
         None \<Rightarrow> create_run E run (pl_project p) g (contract_sha D c) (tc_budget c) None None
       | Some _ \<Rightarrow> recover E run g (contract_sha D c))
     (run_run fuel E run None))"

definition start_outcome :: "run_status \<Rightarrow> string \<Rightarrow> string \<Rightarrow> int \<Rightarrow> py_error + run_outcome" where
  "start_outcome st run key report =
     (if st \<in> {RS_Succeeded, RS_Failed, RS_Error, RS_Interrupted, RS_Cancelled, RS_Rejected}
      then Inr \<lparr>ro_run = run, ro_status = rs_value st, ro_report = report, ro_key = key\<rparr>
      else Inl (start_error (''Run stopped in nonterminal state: '' @ rs_value st)))"

section \<open>Copies between the stores\<close>

text \<open>\<open>INSERT OR IGNORE\<close> of a row read from the other store.\<close>

definition adopt_revision :: "revision_row \<Rightarrow> control_db \<Rightarrow> control_db" where
  "adopt_revision r s = (if revision_free r s then s\<lparr>cs_revisions := cs_revisions s @ [r]\<rparr> else s)"

definition adopt_lock :: "acceptance_lock \<Rightarrow> control_db \<Rightarrow> control_db" where
  "adopt_lock l s = (if lock_free l s then s\<lparr>cs_locks := cs_locks s @ [l]\<rparr> else s)"

definition adopt_planned :: "planned_row \<Rightarrow> control_db \<Rightarrow> control_db" where
  "adopt_planned p s = (if free_key pl_id p (cs_planned s) then s\<lparr>cs_planned := cs_planned s @ [p]\<rparr> else s)"

definition adopt :: "('r \<Rightarrow> control_db \<Rightarrow> control_db) \<Rightarrow> 'r option \<Rightarrow> control_db \<Rightarrow> control_db" where
  "adopt f x s = (case x of None \<Rightarrow> s | Some r \<Rightarrow> f r s)"

definition copy_frozen_inputs :: "control_db \<Rightarrow> string \<Rightarrow> (control_db, unit) op" where
  "copy_frozen_inputs source run =
     (case planned_of run source of
       None \<Rightarrow> raise (KeyError run)
     | Some p \<Rightarrow> (case (revision_of (pl_contract p) (pl_revision p) source, lock_of (pl_contract p) (pl_revision p) source) of
         (Some r, Some l) \<Rightarrow> modify (\<lambda>t. adopt_lock l (adopt_revision r t))
       | _ \<Rightarrow> raise (start_error ''frozen inputs are incomplete'')))"

definition copy_revision_to_control :: "control_db \<Rightarrow> string \<Rightarrow> int \<Rightarrow> string option \<Rightarrow> (control_db, unit) op" where
  "copy_revision_to_control source run n next_run =
     (case find (\<lambda>r. rn_id r = run) (db_runs (cs_core source)) of
       None \<Rightarrow> raise (KeyError run)
     | Some row \<Rightarrow> (let c = cr_id (rn_contract row) in
         modify (\<lambda>t. adopt adopt_planned (Option.bind next_run (\<lambda>k. planned_of k source))
           (adopt adopt_lock (lock_of c n source) (adopt adopt_revision (revision_of c n source) t)))))"

end
