(* ===== verification/Verifier_Repo.thy ===== *)
theory Verifier_Repo
  imports Control_Store
begin

text \<open>
  \<open>verifier/lifecycle.py\<close>: verifier revisions are staged with the hashes of their files, pass validation, tests
  and a dry run, are frozen for a contract that declares them, and are checked against their
  hashes before each execution.
\<close>

section \<open>Hashes of files\<close>

text \<open>
  What is at a path: a file with its bytes, or a directory with all files below it, each by the parts of
  its path relative to the directory. Absent paths have no entry. Python orders paths by their parts.
\<close>

datatype fs_entry =
    FE_File string
  | FE_Dir "(string list \<times> string) list"

type_synonym file_system = "string \<Rightarrow> fs_entry option"

definition posix_path :: "string list \<Rightarrow> string" where
  "posix_path parts = join_with ''/'' parts"

definition tree_bytes :: "(string list \<times> string) list \<Rightarrow> string" where
  "tree_bytes files = concat (map (\<lambda>(parts, content). posix_path parts @ [CHR 0x00] @ content @ [CHR 0x00])
     (order_by fst files))"

definition lifecycle_error :: "string \<Rightarrow> py_error" where
  "lifecycle_error = NamedError ''VerifierLifecycleError''"

definition hash_path :: "(string \<Rightarrow> string) \<Rightarrow> file_system \<Rightarrow> string \<Rightarrow> py_error + string" where
  "hash_path sha fs p = (case fs p of
     Some (FE_File content) \<Rightarrow> Inr (sha content)
   | Some (FE_Dir files) \<Rightarrow> Inr (sha (tree_bytes files))
   | None \<Rightarrow> Inl (lifecycle_error (''Verifier input does not exist: '' @ p)))"

text \<open>\<open>_hash_path(None)\<close> is None.\<close>

definition hash_opt :: "(string \<Rightarrow> string) \<Rightarrow> file_system \<Rightarrow> string option \<Rightarrow> py_error + string option" where
  "hash_opt sha fs p = (case p of None \<Rightarrow> Inr None | Some q \<Rightarrow> bind_sum (hash_path sha fs q) (\<lambda>h. Inr (Some h)))"

definition validate_hashes :: "revision_hashes \<Rightarrow> py_error + unit" where
  "validate_hashes h = first_error
     [require (sha256_pattern (rh_manifest h)) ''manifest_sha256'', require (sha256_pattern (rh_source h)) ''source_sha256'',
      require (sha256_pattern (rh_tests h)) ''tests_sha256'',
      require (case rh_fixtures h of None \<Rightarrow> True | Some x \<Rightarrow> sha256_pattern x) ''fixtures_sha256'']"

text \<open>\<open>VerifierRepository.hashes\<close>; a path that is given always has a hash, so the fallback never applies.\<close>

definition hashes_of :: "(string \<Rightarrow> string) \<Rightarrow> (manifest \<Rightarrow> string) \<Rightarrow> file_system \<Rightarrow> manifest \<Rightarrow> string \<Rightarrow> string \<Rightarrow>
    string option \<Rightarrow> py_error + revision_hashes" where
  "hashes_of sha json fs m source tests fixtures =
     bind_sum (hash_path sha fs source) (\<lambda>hs.
     bind_sum (hash_path sha fs tests) (\<lambda>ht.
     bind_sum (hash_opt sha fs fixtures) (\<lambda>hf.
     construct validate_hashes \<lparr>rh_manifest = sha (json m), rh_source = hs, rh_tests = ht, rh_fixtures = hf\<rparr>)))"

section \<open>VerifierRepository\<close>

definition verifier_of :: "string \<Rightarrow> int \<Rightarrow> control_db \<Rightarrow> verifier_row option" where
  "verifier_of k n s = lookup_row verifier_key (k, n) (cs_verifiers s)"

definition max_of :: "('r \<Rightarrow> int) \<Rightarrow> ('r \<Rightarrow> bool) \<Rightarrow> 'r list \<Rightarrow> int option" where
  "max_of col p t = (case filter p t of [] \<Rightarrow> None | rs \<Rightarrow> Some (Max (set (map col rs))))"

definition latest_verifier :: "string \<Rightarrow> control_db \<Rightarrow> int option" where
  "latest_verifier k s = max_of ve_revision (\<lambda>r. ve_id r = k) (cs_verifiers s)"

definition staged_row :: "manifest \<Rightarrow> revision_hashes \<Rightarrow> string \<Rightarrow> string \<Rightarrow> string option \<Rightarrow> verifier_row" where
  "staged_row m h source tests fixtures = \<lparr>ve_id = mf_id m, ve_revision = mf_revision m, ve_type = mf_type m,
     ve_manifest = m, ve_hashes = h, ve_source = source, ve_tests = tests, ve_fixtures = fixtures,
     ve_lifecycle = LC_Draft, ve_message = None\<rparr>"

definition may_stage :: "manifest \<Rightarrow> control_db \<Rightarrow> py_error + unit" where
  "may_stage m s =
     (if verifier_of (mf_id m) (mf_revision m) s \<noteq> None
      then Inl (lifecycle_error ''Verifier revision already exists and is immutable'')
      else case latest_verifier (mf_id m) s of
        Some n \<Rightarrow> if mf_revision m \<noteq> n + 1
          then Inl (lifecycle_error ''Verifier revisions must be append-only'') else Inr ()
      | None \<Rightarrow> Inr ())"

definition stage_verifier :: "(string \<Rightarrow> string) \<Rightarrow> (manifest \<Rightarrow> string) \<Rightarrow> file_system \<Rightarrow> manifest \<Rightarrow> string \<Rightarrow> string \<Rightarrow>
    string option \<Rightarrow> (control_db, revision_hashes) op" where
  "stage_verifier sha json fs m source tests fixtures =
     bind_op (lift_sum (hashes_of sha json fs m source tests fixtures)) (\<lambda>h.
     seq_op (committed
       (seq_op (ask (may_stage m))
       (seq_op (insert_verifier (staged_row m h source tests fixtures))
       (log_event ''verifier.revision.staged''
          (''verifier:'' @ mf_id m @ '':'' @ int_str (mf_revision m))
          [(''verifier_id'', JStr (mf_id m)), (''revision'', JInt (mf_revision m))]))))
     (ret h))"

text \<open>\<open>record\<close>: one step of the lifecycle, with evidence that passed.\<close>

fun next_lifecycle :: "lifecycle \<Rightarrow> lifecycle option" where
  "next_lifecycle LC_Draft = Some LC_Validated"
| "next_lifecycle LC_Validated = Some LC_Tested"
| "next_lifecycle LC_Tested = Some LC_DryRun"
| "next_lifecycle _ = None"

definition evidence_passed :: "(string \<times> json) list \<Rightarrow> bool" where
  "evidence_passed result \<longleftrightarrow> map_of result ''passed'' = Some (JBool True)"

definition may_record :: "string \<Rightarrow> int \<Rightarrow> lifecycle \<Rightarrow> (string \<times> json) list \<Rightarrow> control_db \<Rightarrow> py_error + unit" where
  "may_record k n lc result s = (case verifier_of k n s of
     None \<Rightarrow> Inl (KeyError k)
   | Some r \<Rightarrow>
       if next_lifecycle (ve_lifecycle r) \<noteq> Some lc
       then Inl (lifecycle_error (''invalid Verifier lifecycle: '' @ lc_value (ve_lifecycle r) @ '' -> '' @ lc_value lc))
       else if \<not> evidence_passed result
       then Inl (lifecycle_error (lc_value lc @ '' evidence did not pass''))
       else Inr ())"

definition set_lifecycle :: "string \<Rightarrow> int \<Rightarrow> (verifier_row \<Rightarrow> verifier_row) \<Rightarrow> control_db \<Rightarrow> control_db" where
  "set_lifecycle k n f s = s\<lparr>cs_verifiers := change_row verifier_key (k, n) f (cs_verifiers s)\<rparr>"

definition record_evidence :: "string \<Rightarrow> int \<Rightarrow> lifecycle \<Rightarrow> (string \<times> json) list \<Rightarrow> string option \<Rightarrow> (control_db, unit) op" where
  "record_evidence k n lc result artifact = committed
     (seq_op (ask (may_record k n lc result))
     (seq_op (modify (set_lifecycle k n (\<lambda>r. r\<lparr>ve_lifecycle := lc\<rparr>)))
     (bind_op fresh_uuid (\<lambda>u.
      insert_evidence \<lparr>el_id = ''verifier-evidence:'' @ u, el_verifier = k, el_revision = n, el_lifecycle = lc,
        el_result = result, el_artifact = artifact\<rparr>))))"

text \<open>\<open>freeze\<close>: the maxima are over all bindings of the verifier, whichever contract they belong to.\<close>

definition may_freeze :: "string \<Rightarrow> int \<Rightarrow> string \<Rightarrow> int \<Rightarrow> control_db \<Rightarrow> py_error + revision_hashes" where
  "may_freeze k n c cn s = (case verifier_of k n s of
     None \<Rightarrow> Inl (KeyError k)
   | Some r \<Rightarrow>
       if ve_lifecycle r \<noteq> LC_DryRun
       then Inl (lifecycle_error ''validate, test, and dry-run must pass before freeze'')
       else case revision_of c cn s of
         None \<Rightarrow> Inl (lifecycle_error ''Verifier freeze requires an existing frozen Contract revision'')
       | Some cr \<Rightarrow> bind_sum (load_contract (rev_body cr)) (\<lambda>contract.
           case find (\<lambda>q. vq_id q = k) (tc_verifiers contract) of
             None \<Rightarrow> Inl (lifecycle_error ''frozen Contract does not declare this Verifier ID and type'')
           | Some q \<Rightarrow>
               if vq_type q \<noteq> ve_type r
               then Inl (lifecycle_error ''frozen Contract does not declare this Verifier ID and type'')
               else case (max_of bi_number (\<lambda>b. bi_verifier b = k) (cs_bindings s),
                          max_of bi_revision (\<lambda>b. bi_verifier b = k) (cs_bindings s)) of
                 (Some vmax, Some cmax) \<Rightarrow>
                   if n > vmax \<and> cn \<le> cmax
                   then Inl (lifecycle_error ''a new Verifier revision requires a new Contract revision'')
                   else construct validate_hashes (ve_hashes r)
               | _ \<Rightarrow> construct validate_hashes (ve_hashes r)))"

definition freeze_verifier :: "string \<Rightarrow> int \<Rightarrow> string \<Rightarrow> int \<Rightarrow> string \<Rightarrow> (control_db, revision_hashes) op" where
  "freeze_verifier k n c cn message =
     (if message = [] then raise (lifecycle_error ''Human confirmation is required before freeze'')
      else committed
        (bind_op (ask (may_freeze k n c cn)) (\<lambda>h.
         seq_op (modify (set_lifecycle k n (\<lambda>r. r\<lparr>ve_lifecycle := LC_Frozen, ve_message := Some message\<rparr>)))
         (seq_op (insert_binding \<lparr>bi_contract = c, bi_revision = cn, bi_verifier = k, bi_number = n, bi_hashes = h\<rparr>)
         (seq_op (log_event ''verifier.revision.frozen'' (''contract:'' @ c @ '':'' @ int_str cn)
            [(''verifier_id'', JStr k), (''revision'', JInt n)])
         (ret h))))))"

text \<open>\<open>verify_frozen\<close>, before each execution.\<close>

definition verify_frozen :: "(string \<Rightarrow> string) \<Rightarrow> (manifest \<Rightarrow> string) \<Rightarrow> file_system \<Rightarrow> string \<Rightarrow> int \<Rightarrow> control_db \<Rightarrow>
    py_error + revision_hashes" where
  "verify_frozen sha json fs k n s = (case verifier_of k n s of
     None \<Rightarrow> Inl (lifecycle_error ''Verifier revision is not frozen'')
   | Some r \<Rightarrow>
       if ve_lifecycle r \<noteq> LC_Frozen then Inl (lifecycle_error ''Verifier revision is not frozen'')
       else bind_sum (hashes_of sha json fs (ve_manifest r) (ve_source r) (ve_tests r) (ve_fixtures r)) (\<lambda>actual.
         bind_sum (construct validate_hashes (ve_hashes r)) (\<lambda>expected.
         if actual \<noteq> expected then Inl (lifecycle_error ''frozen Verifier hash drift; refusing execution'')
         else Inr expected)))"

end
