(* ===== verification/Control_Steps.thy ===== *)
theory Control_Steps
  imports Run_Start Verifier_Repo
begin

text \<open>
  The control plane as a step relation: any sequence of its operations with any arguments, and any
  change the runtime makes to its own tables of the same store. The locale says what each operation
  writes, under which guards; an invariant of the control plane is an interpretation of it.
\<close>

section \<open>Steps\<close>

text \<open>A run is planned of a frozen contract the repository returned.\<close>

inductive control_step :: "digests \<Rightarrow> (manifest \<Rightarrow> string) \<Rightarrow> control_db \<Rightarrow> control_db \<Rightarrow> bool" for D J where
  step_stage: "control_step D J s (snd (stage D conversation c s))"
| step_freeze: "control_step D J s (snd (freeze D now k m s))"
| step_delta: "control_step D J s (snd (apply_delta D now d m s))"
| step_plan: "frozen_of c n s = Inr f \<Longrightarrow>
    control_step D J s (snd (plan_run D project f source restart given s))"
| step_begin: "control_step D J s (snd (begin_run D run request key s))"
| step_complete: "control_step D J s (snd (complete x s))"
| step_stage_verifier: "control_step D J s (snd (stage_verifier (dg_sha256 D) J fs mf source tests fixtures s))"
| step_record: "control_step D J s (snd (record_evidence k n lc result artifact s))"
| step_freeze_verifier: "control_step D J s (snd (freeze_verifier k n c cn message s))"
| step_runtime: "db_uuid (cs_core s) \<le> db_uuid d \<Longrightarrow> control_step D J s (s\<lparr>cs_core := d\<rparr>)"

definition control_steps :: "digests \<Rightarrow> (manifest \<Rightarrow> string) \<Rightarrow> control_db \<Rightarrow> control_db \<Rightarrow> bool" where
  "control_steps D J = (control_step D J)\<^sup>*\<^sup>*"

definition control_reachable :: "digests \<Rightarrow> (manifest \<Rightarrow> string) \<Rightarrow> control_db \<Rightarrow> bool" where
  "control_reachable D J s \<longleftrightarrow> control_steps D J empty_control s"

section \<open>What the operations write\<close>

definition put_frozen :: "digests \<Rightarrow> int \<Rightarrow> task_contract \<Rightarrow> string \<Rightarrow> control_db \<Rightarrow> control_db" where
  "put_frozen D now c message s = s\<lparr>cs_revisions := cs_revisions s @ [revision_row_of D c message],
     cs_locks := cs_locks s @ [lock_row_of D now c message]\<rparr>"

lemma insert_frozen_Inr: "insert_frozen D now c message s = (Inr u, t) \<longleftrightarrow>
    revision_free (revision_row_of D c message) s \<and> lock_free (lock_row_of D now c message) s \<and>
    t = put_frozen D now c message s"
  by (auto simp: insert_frozen_def seq_op_def insert_revision_def insert_lock_def put_frozen_def lock_free_def)

definition put_evidence :: "string \<Rightarrow> int \<Rightarrow> lifecycle \<Rightarrow> evidence_row \<Rightarrow> control_db \<Rightarrow> control_db" where
  "put_evidence k n lc e s = (set_lifecycle k n (\<lambda>r. r\<lparr>ve_lifecycle := lc\<rparr>) s)
     \<lparr>cs_evidence := cs_evidence s @ [e]\<rparr>"

definition put_binding :: "binding_row \<Rightarrow> string \<Rightarrow> control_db \<Rightarrow> control_db" where
  "put_binding b message s = (set_lifecycle (bi_verifier b) (bi_number b)
     (\<lambda>r. r\<lparr>ve_lifecycle := LC_Frozen, ve_message := Some message\<rparr>) s)\<lparr>cs_bindings := cs_bindings s @ [b]\<rparr>"

definition put_start :: "start_row \<Rightarrow> control_db \<Rightarrow> control_db" where
  "put_start r s = claim_planned (sr_run r) (s\<lparr>cs_starts := cs_starts s @ [r]\<rparr>)"

definition put_complete :: "run_outcome \<Rightarrow> control_db \<Rightarrow> control_db" where
  "put_complete x s = s\<lparr>
     cs_starts := update_where (\<lambda>r. sr_key r = ro_key x \<and> \<not> sr_completed r) (completed_row x) (cs_starts s),
     cs_planned := update_where (\<lambda>p. pl_id p = ro_run x) (\<lambda>p. p\<lparr>pl_state := PL_Started\<rparr>) (cs_planned s)\<rparr>"

definition put_mark :: "string \<Rightarrow> control_db \<Rightarrow> control_db" where
  "put_mark k s = s\<lparr>cs_drafts := update_where (\<lambda>r. dr_id r = k) (\<lambda>r. r\<lparr>dr_state := DR_Frozen\<rparr>) (cs_drafts s)\<rparr>"

locale control_law =
  fixes D :: digests and J :: "manifest \<Rightarrow> string" and P :: "control_db \<Rightarrow> bool"
  assumes core: "P s \<Longrightarrow> db_uuid (cs_core s) \<le> db_uuid d \<Longrightarrow> P (s\<lparr>cs_core := d\<rparr>)"
    and drafted: "P s \<Longrightarrow> free_key dr_id dr (cs_drafts s) \<Longrightarrow> P (s\<lparr>cs_drafts := cs_drafts s @ [dr]\<rparr>)"
    and marked: "P s \<Longrightarrow> P (put_mark k s)"
    and frozen: "P s \<Longrightarrow> wf_contract c \<Longrightarrow> tc_status c = CS_Frozen \<Longrightarrow>
      revision_free (revision_row_of D c message) s \<Longrightarrow> lock_free (lock_row_of D now c message) s \<Longrightarrow>
      P (put_frozen D now c message s)"
    and deltas: "P s \<Longrightarrow> P (s\<lparr>cs_deltas := cs_deltas s @ [de]\<rparr>)"
    and planned: "P s \<Longrightarrow> frozen_of c' n s = Inr f \<Longrightarrow> compile_contract D (fz_contract f) = Inr g \<Longrightarrow>
      free_key pl_id (plan_row D run project (fz_contract f) g source restart) (cs_planned s) \<Longrightarrow>
      P (s\<lparr>cs_planned := cs_planned s @ [plan_row D run project (fz_contract f) g source restart]\<rparr>)"
    and claimed: "P s \<Longrightarrow> check_prepared (sr_run r) s = Inr () \<Longrightarrow> free_key sr_key r (cs_starts s) \<Longrightarrow>
      \<not> sr_completed r \<Longrightarrow> P (put_start r s)"
    and completed: "P s \<Longrightarrow> P (put_complete x s)"
    and staged: "P s \<Longrightarrow> may_stage mf s = Inr () \<Longrightarrow>
      hashes_of (dg_sha256 D) J fs mf source' tests fixtures = Inr h \<Longrightarrow>
      P (s\<lparr>cs_verifiers := cs_verifiers s @ [staged_row mf h source' tests fixtures]\<rparr>)"
    and evidence: "P s \<Longrightarrow> may_record (el_verifier e) (el_revision e) (el_lifecycle e) (el_result e) s = Inr () \<Longrightarrow>
      P (put_evidence (el_verifier e) (el_revision e) (el_lifecycle e) e s)"
    and bound: "P s \<Longrightarrow> may_freeze (bi_verifier b) (bi_number b) (bi_contract b) (bi_revision b) s = Inr (bi_hashes b) \<Longrightarrow>
      free_key binding_key b (cs_bindings s) \<Longrightarrow> P (put_binding b message s)"
begin

lemma committed_keeps: "P s \<Longrightarrow> (\<And>x t. m s = (Inr x, t) \<Longrightarrow> P t) \<Longrightarrow> P (snd (committed m s))"
  by (auto simp: committed_def split: prod.splits sum.splits)

lemma log_keeps: "log_event ty run p s = (Inr u, t) \<Longrightarrow> P s \<Longrightarrow> P t"
  using log_event_Inr core by metis

lemma insert_draft_keeps: "insert_draft r s = (Inr u, t) \<Longrightarrow> P s \<Longrightarrow> P t"
  by (auto simp: insert_draft_def op_Inr intro: drafted split: if_splits)

lemma mark_draft_keeps: "mark_draft k s = (Inr u, t) \<Longrightarrow> P s \<Longrightarrow> P t"
  using marked by (auto simp: mark_draft_def op_Inr put_mark_def)

lemma stage_keeps: "P s \<Longrightarrow> P (snd (stage D conversation c s))"
  unfolding stage_def
  by (cases "tc_status c = CS_Draft", simp_all add: raise_def)
    (auto intro!: committed_keeps elim!: seq_op_InrE simp: op_Inr dest: log_keeps insert_draft_keeps)

lemma freeze_draft_keeps:
  assumes "freeze_draft D now k m c s = (Inr f, t)" and P: "P s" and c: "wf_contract c" "tc_status c = CS_Frozen"
  shows "P t"
proof (cases "revision_of (tc_id c) (tc_revision c) s")
  case None
  with assms(1) obtain s1 s2 s3 where steps: "insert_frozen D now c (hm_id m) s = (Inr (), s1)"
    "mark_draft k s1 = (Inr (), s2)"
    "log_event ''contract.frozen'' (event_run m (tc_id c))
       [(''contract_id'', JStr (tc_id c)), (''revision'', JInt (tc_revision c))] s2 = (Inr (), s3)" "t = s3"
    unfolding freeze_draft_def by (auto elim!: bind_op_InrE seq_op_InrE simp: op_Inr)
  then have "P s1" using frozen [OF P c] by (simp add: insert_frozen_Inr)
  with steps show ?thesis using mark_draft_keeps log_keeps by blast
next
  case (Some r)
  with assms(1) P show ?thesis
    unfolding freeze_draft_def by (auto elim!: bind_op_InrE simp: op_Inr split: if_splits)
qed

lemma load_frozen: "load_contract c = Inr d \<Longrightarrow> wf_contract (frozen_copy d) \<and> tc_status (frozen_copy d) = CS_Frozen"
  by (auto simp: load_contract_def frozen_copy_def wf_contract_def validate_contract_def Let_def split: if_splits)

lemma freeze_keeps: "P s \<Longrightarrow> P (snd (freeze D now k m s))"
proof (cases "confirmed m")
  case True
  assume P: "P s"
  show ?thesis unfolding freeze_def using True P
  proof (simp, intro committed_keeps)
    fix x t assume "bind_op (ask (\<lambda>s. case lookup_row dr_id k (cs_drafts s) of None \<Rightarrow> Inl (KeyError k)
        | Some r \<Rightarrow> load_contract (dr_contract r))) (\<lambda>c. freeze_draft D now k m (frozen_copy c)) s = (Inr x, t)"
    then obtain r :: draft_row and c where c: "load_contract (dr_contract r) = Inr c" "freeze_draft D now k m (frozen_copy c) s = (Inr x, t)"
      by (auto elim!: bind_op_InrE simp: op_Inr split: option.splits)
    show "P t" by (rule freeze_draft_keeps [OF c(2) P]) (use load_frozen [OF c(1)] in simp_all)
  qed
qed (simp add: freeze_def raise_def)

lemma revised_ok: "revised_contract d c = Inr r \<Longrightarrow> wf_contract r \<and> tc_status r = CS_Frozen"
  by (auto simp: revised_contract_def bind_sum_Inr load_contract_def split: if_splits)

lemma apply_delta_keeps: "P s \<Longrightarrow> P (snd (apply_delta D now d m s))"
proof (cases "confirmed m")
  case True
  assume P: "P s"
  show ?thesis unfolding apply_delta_def using True
  proof (simp, intro committed_keeps [OF P])
    fix x t assume "bind_op (ask (delta_source d)) (\<lambda>source. bind_op (lift_sum (revised_contract d source)) (\<lambda>revised.
         seq_op (insert_frozen D now revised (hm_id m))
         (seq_op (insert_delta \<lparr>de_delta = d, de_new = tc_revision source + 1, de_message = hm_id m\<rparr>)
         (seq_op (log_event ''contract.revision.created'' (event_run m (tc_id revised))
            [(''delta_id'', JStr (dl_id d)), (''revision'', JInt (tc_revision source + 1))])
         (ask (frozen_of (tc_id revised) (tc_revision source + 1))))))) s = (Inr x, t)"
    then obtain source revised s1 s2 where steps: "revised_contract d source = Inr revised"
      "insert_frozen D now revised (hm_id m) s = (Inr (), s1)"
      "insert_delta \<lparr>de_delta = d, de_new = tc_revision source + 1, de_message = hm_id m\<rparr> s1 = (Inr (), s2)"
      "log_event ''contract.revision.created'' (event_run m (tc_id revised))
            [(''delta_id'', JStr (dl_id d)), (''revision'', JInt (tc_revision source + 1))] s2 = (Inr (), t)"
      by (auto elim!: bind_op_InrE seq_op_InrE simp: op_Inr)
    have "P s1" using steps(2) frozen [OF P] revised_ok [OF steps(1)] by (simp add: insert_frozen_Inr)
    then have "P s2" using steps(3) deltas by (auto simp: insert_delta_def split: if_splits)
    then show "P t" using steps(4) log_keeps by blast
  qed
qed (simp add: apply_delta_def raise_def)

lemma plan_tx_keeps:
  assumes "plan_tx D row s = (Inr u, t)" and P: "P s"
    and f: "frozen_of c n s = Inr f" "compile_contract D (fz_contract f) = Inr g"
    and row: "row = plan_row D run project (fz_contract f) g source restart"
  shows "P t"
proof (cases "planned_of (pl_id row) s")
  case None
  with assms(1) obtain s1 ty k p where steps: "insert_planned row s = (Inr (), s1)" "log_event ty k p s1 = (Inr (), t)"
    unfolding plan_tx_def by (auto elim!: bind_op_InrE seq_op_InrE simp: op_Inr split: if_splits)
  have "P s1" using steps(1) planned [OF P f, of run project source restart] row
    by (auto simp: insert_planned_def split: if_splits)
  with steps(2) log_keeps show ?thesis by blast
next
  case (Some old)
  with assms(1) P show ?thesis
    unfolding plan_tx_def by (auto elim!: bind_op_InrE simp: op_Inr split: if_splits)
qed

lemma plan_keeps: "frozen_of c n s = Inr f \<Longrightarrow> P s \<Longrightarrow> P (snd (plan_run D project f source restart given s))"
proof -
  assume f: "frozen_of c n s = Inr f" and P: "P s"
  let ?c = "fz_contract f" and ?run = "planned_id D (fz_contract f) given"
  have row: "P (snd (committed (plan_tx D (plan_row D ?run project ?c g source restart)) s))"
    if "compile_contract D ?c = Inr g" for g
    using plan_tx_keeps [OF _ P f that refl] by (blast intro: committed_keeps [OF P])
  show ?thesis
    unfolding plan_run_def Let_def using P row by (simp add: snd_of_pure raise_def split: sum.split)
qed

lemma begin_keeps: "P s \<Longrightarrow> P (snd (begin_run D run request key s))"
proof -
  assume P: "P s"
  have claim: "P (snd (claim run request key fp s))" for fp
    unfolding claim_def
  proof (rule committed_keeps [OF P])
    fix x t assume tx: "claim_tx run request key fp s = (Inr x, t)"
    show "P t"
    proof (cases "lookup_row sr_key key (cs_starts s)")
      case None
      define r where "r = \<lparr>sr_key = key, sr_request = request, sr_run = run, sr_fingerprint = fp,
        sr_completed = False, sr_result = None\<rparr>"
      from None tx obtain s1 s2 where steps: "check_prepared run s = Inr ()" "insert_start r s = (Inr (), s1)"
        "s2 = claim_planned run s1"
        "log_event ''run.start.claimed'' run [(''request_id'', JStr request), (''idempotency_key'', JStr key)] s2 = (Inr (), t)"
        unfolding claim_tx_def r_def by (auto elim!: bind_op_InrE seq_op_InrE simp: op_Inr)
      have "P (put_start r s)" if "free_key sr_key r (cs_starts s)"
        using claimed [OF P, of r] steps(1) that by (simp add: r_def)
      then have "P s2" using steps(2,3) by (auto simp: insert_start_def put_start_def r_def split: if_splits)
      with steps(4) log_keeps show ?thesis by blast
    qed (use tx P in \<open>auto simp: claim_tx_def elim!: bind_op_InrE simp: op_Inr\<close>)
  qed
  show ?thesis
    unfolding begin_run_def using P claim by (simp add: snd_of_pure raise_def split: sum.split)
qed

lemma complete_keeps: "P s \<Longrightarrow> P (snd (complete x s))"
proof -
  assume P: "P s"
  show ?thesis unfolding complete_def
    using completed [OF P, of x] log_keeps
    by (auto intro!: committed_keeps [OF P] elim!: seq_op_InrE simp: op_Inr put_complete_def)
qed

lemma stage_verifier_keeps: "P s \<Longrightarrow> P (snd (stage_verifier (dg_sha256 D) J fs m source tests fixtures s))"
proof -
  assume P: "P s"
  have "P (snd (committed (seq_op (ask (may_stage m)) (seq_op (insert_verifier (staged_row m h source tests fixtures))
      (log_event ty k p))) s))"
    if "hashes_of (dg_sha256 D) J fs m source tests fixtures = Inr h" for h ty k p
    using staged [OF P _ that] log_keeps
    by (auto intro!: committed_keeps [OF P] elim!: seq_op_InrE simp: op_Inr insert_verifier_def split: if_splits)
  then show ?thesis unfolding stage_verifier_def using P by (simp add: snd_of_pure split: sum.split)
qed

lemma record_keeps: "P s \<Longrightarrow> P (snd (record_evidence k n lc result artifact s))"
proof -
  assume P: "P s"
  define e where "e = (\<lambda>u. \<lparr>el_id = ''verifier-evidence:'' @ u, el_verifier = k, el_revision = n,
    el_lifecycle = lc, el_result = result, el_artifact = artifact\<rparr>)"
  show ?thesis unfolding record_evidence_def
  proof (intro committed_keeps [OF P])
    fix x t assume "seq_op (ask (may_record k n lc result)) (seq_op (modify (set_lifecycle k n (\<lambda>r. r\<lparr>ve_lifecycle := lc\<rparr>)))
      (bind_op fresh_uuid (\<lambda>u. insert_evidence \<lparr>el_id = ''verifier-evidence:'' @ u, el_verifier = k, el_revision = n,
        el_lifecycle = lc, el_result = result, el_artifact = artifact\<rparr>))) s = (Inr x, t)"
    then obtain u where may: "may_record k n lc result s = Inr ()"
      and t: "t = (put_evidence k n lc (e u) s)\<lparr>cs_core := (cs_core s)\<lparr>db_uuid := Suc (db_uuid (cs_core s))\<rparr>\<rparr>"
      unfolding e_def by (cases s, auto elim!: bind_op_InrE seq_op_InrE simp: op_Inr fresh_uuid_def insert_evidence_def
          put_evidence_def set_lifecycle_def split: if_splits)
    have put: "P (put_evidence k n lc (e u) s)" using evidence [OF P, of "e u"] may by (simp add: e_def)
    show "P t" unfolding t by (rule core [OF put]) (simp add: put_evidence_def set_lifecycle_def)
  qed
qed

lemma freeze_verifier_keeps: "P s \<Longrightarrow> P (snd (freeze_verifier k n c cn message s))"
proof -
  assume P: "P s"
  show ?thesis
  proof (cases "message = []")
    case False
    have "P t" if "bind_op (ask (may_freeze k n c cn)) (\<lambda>h.
         seq_op (modify (set_lifecycle k n (\<lambda>r. r\<lparr>ve_lifecycle := LC_Frozen, ve_message := Some message\<rparr>)))
         (seq_op (insert_binding \<lparr>bi_contract = c, bi_revision = cn, bi_verifier = k, bi_number = n, bi_hashes = h\<rparr>)
         (seq_op (log_event ty run p) (ret h)))) s = (Inr x, t)" for x t ty run p
    proof -
      from that obtain h s1 where h: "may_freeze k n c cn s = Inr h"
        and s1: "insert_binding \<lparr>bi_contract = c, bi_revision = cn, bi_verifier = k, bi_number = n, bi_hashes = h\<rparr>
          (set_lifecycle k n (\<lambda>r. r\<lparr>ve_lifecycle := LC_Frozen, ve_message := Some message\<rparr>) s) = (Inr (), s1)"
          "log_event ty run p s1 = (Inr (), t)"
        by (auto elim!: bind_op_InrE seq_op_InrE simp: op_Inr)
      have "P s1" using s1(1) bound [OF P, of "\<lparr>bi_contract = c, bi_revision = cn, bi_verifier = k, bi_number = n, bi_hashes = h\<rparr>"] h
        by (auto simp: insert_binding_def put_binding_def set_lifecycle_def split: if_splits)
      with s1(2) log_keeps show "P t" by blast
    qed
    with False show ?thesis unfolding freeze_verifier_def by (auto intro: committed_keeps [OF P])
  qed (simp add: freeze_verifier_def raise_def P)
qed

lemmas operations_keep = stage_keeps freeze_keeps apply_delta_keeps plan_keeps begin_keeps complete_keeps
  stage_verifier_keeps record_keeps freeze_verifier_keeps core

theorem step_keeps: "control_step D J s t \<Longrightarrow> P s \<Longrightarrow> P t"
  by (induction rule: control_step.induct) (rule operations_keep; assumption)+

theorem steps_keep: "control_steps D J s t \<Longrightarrow> P s \<Longrightarrow> P t"
  unfolding control_steps_def by (induction rule: rtranclp_induct) (auto intro: step_keeps)

end

end
