(* ===== verification/Revision_Laws.thy ===== *)
theory Revision_Laws
  imports Control_Steps "HOL-Library.Sublist"
begin

text \<open>
  Frozen contracts: each revision has exactly one acceptance lock that fits it, revisions and locks are
  never rewritten, and what a delta or a second freeze does.
\<close>

section \<open>Revisions and locks\<close>

text \<open>SHA-256 in hexadecimal.\<close>

definition hex_digests :: "digests \<Rightarrow> bool" where
  "hex_digests D \<longleftrightarrow> (\<forall>x. sha256_pattern (dg_sha256 D x))"

definition revision_fits :: "digests \<Rightarrow> revision_row \<Rightarrow> bool" where
  "revision_fits D r \<longleftrightarrow> r = revision_row_of D (rev_body r) (rev_message r) \<and> wf_contract (rev_body r) \<and>
     tc_status (rev_body r) = CS_Frozen"

definition lock_fits :: "digests \<Rightarrow> revision_row \<Rightarrow> acceptance_lock \<Rightarrow> bool" where
  "lock_fits D r l \<longleftrightarrow> l = lock_row_of D (al_created l) (rev_body r) (rev_message r)"

definition contracts_locked :: "digests \<Rightarrow> control_db \<Rightarrow> bool" where
  "contracts_locked D s \<longleftrightarrow> distinct (map revision_key (cs_revisions s)) \<and>
     (\<forall>r \<in> set (cs_revisions s). revision_fits D r) \<and> list_all2 (lock_fits D) (cs_revisions s) (cs_locks s)"

interpretation locked: control_law D J "contracts_locked D" for D J
  by unfold_locales
    (auto simp: contracts_locked_def put_frozen_def put_mark_def put_start_def put_complete_def claim_planned_def
      put_evidence_def put_binding_def set_lifecycle_def revision_free_def free_key_def revision_fits_def lock_fits_def
      revision_row_of_def lock_row_of_def intro!: list_all2_appendI)

text \<open>What is appended to, and never rewritten.\<close>

definition kept :: "control_db \<Rightarrow> control_db \<Rightarrow> bool" where
  "kept s t \<longleftrightarrow> prefix (cs_revisions s) (cs_revisions t) \<and> prefix (cs_locks s) (cs_locks t) \<and>
     prefix (cs_deltas s) (cs_deltas t) \<and> prefix (cs_evidence s) (cs_evidence t) \<and>
     prefix (cs_bindings s) (cs_bindings t)"

interpretation kept: control_law D J "kept s0" for D J s0
  by unfold_locales
    (auto simp: kept_def put_frozen_def put_mark_def put_start_def put_complete_def claim_planned_def
      put_evidence_def put_binding_def set_lifecycle_def)

lemma reachable_steps: "control_reachable D J s \<Longrightarrow> control_steps D J s t \<Longrightarrow> control_reachable D J t"
  unfolding control_reachable_def control_steps_def by simp

lemma reachable_locked: "control_reachable D J s \<Longrightarrow> contracts_locked D s"
  unfolding control_reachable_def
  by (erule locked.steps_keep) (simp add: contracts_locked_def empty_control_def)

lemma fits_key:
  assumes "lock_fits D r l" and "revision_fits D r"
  shows "lock_key l = revision_key r" and "al_hash l = rev_hash r" and "rev_hash r = contract_sha D (rev_body r)"
    and "al_verifiers l = verifier_hashes D (rev_body r)" and "al_contract l = tc_id (rev_body r)"
    and "al_revision l = tc_revision (rev_body r)" and "revision_key r = (tc_id (rev_body r), tc_revision (rev_body r))"
proof -
  obtain now message c where "l = lock_row_of D now c message" "r = revision_row_of D c message"
    using assms by (metis lock_fits_def revision_fits_def)
  then show "lock_key l = revision_key r" "al_hash l = rev_hash r" "rev_hash r = contract_sha D (rev_body r)"
    "al_verifiers l = verifier_hashes D (rev_body r)" "al_contract l = tc_id (rev_body r)"
    "al_revision l = tc_revision (rev_body r)" "revision_key r = (tc_id (rev_body r), tc_revision (rev_body r))"
    by (simp_all add: lock_row_of_def revision_row_of_def lock_key_def revision_key_def)
qed

lemma lock_keys:
  "list_all2 (lock_fits D) rs ls \<Longrightarrow> \<forall>r \<in> set rs. revision_fits D r \<Longrightarrow> map lock_key ls = map revision_key rs"
  by (induction rule: list_all2_induct) (simp_all add: fits_key(1))

lemma locked_lookup:
  assumes "contracts_locked D s" and "r \<in> set (cs_revisions s)"
  obtains l where "l \<in> set (cs_locks s)" "lock_fits D r l" "revision_of (rev_contract r) (rev_number r) s = Some r"
    "lock_of (rev_contract r) (rev_number r) s = Some l"
proof -
  have all: "list_all2 (lock_fits D) (cs_revisions s) (cs_locks s)" "\<forall>r \<in> set (cs_revisions s). revision_fits D r"
    and dist: "distinct (map revision_key (cs_revisions s))" using assms(1) by (auto simp: contracts_locked_def)
  obtain l where l: "l \<in> set (cs_locks s)" "lock_fits D r l"
    using all(1) assms(2) by (metis in_set_conv_nth list_all2_conv_all_nth)
  have key: "lock_key l = (rev_contract r, rev_number r)"
    using fits_key(1) [OF l(2)] all(2) assms(2) by (simp add: revision_key_def)
  have "distinct (map lock_key (cs_locks s))" using dist lock_keys [OF all] by simp
  from find_key_distinct [OF this l(1)] have "lock_of (rev_contract r) (rev_number r) s = Some l"
    by (simp add: lock_of_def lookup_row_def key)
  moreover have "revision_of (rev_contract r) (rev_number r) s = Some r"
    using find_key_distinct [OF dist assms(2)] by (simp add: revision_of_def lookup_row_def revision_key_def)
  ultimately show ?thesis using that l by blast
qed

lemma frozen_read:
  assumes "contracts_locked D s" and "r \<in> set (cs_revisions s)" and "hex_digests D"
  obtains l where "l \<in> set (cs_locks s)" "lock_fits D r l"
    "frozen_of (rev_contract r) (rev_number r) s = Inr \<lparr>fz_contract = rev_body r, fz_lock = l\<rparr>"
proof (rule locked_lookup [OF assms(1,2)])
  fix l assume l: "l \<in> set (cs_locks s)" "lock_fits D r l" "revision_of (rev_contract r) (rev_number r) s = Some r"
    "lock_of (rev_contract r) (rev_number r) s = Some l"
  have fit: "revision_fits D r" using assms(1,2) by (simp add: contracts_locked_def)
  then have wf: "wf_contract (rev_body r)" by (simp add: revision_fits_def)
  have "validate_lock l = Inr ()"
    using wf assms(3) by (simp add: validate_lock_def fits_key(2,3,6) [OF l(2) fit] hex_digests_def contract_sha_def
        wf_contract_def validate_contract_iff)
  then show ?thesis using that [OF l(1,2)] l(3,4) wf by (simp add: frozen_of_def load_contract_def construct_def)
qed

lemma frozen_ofD:
  assumes "frozen_of c n s = Inr f"
  obtains r l where "r \<in> set (cs_revisions s)" "rev_contract r = c" "rev_number r = n" "fz_contract f = rev_body r"
    "lock_of c n s = Some l" "fz_lock f = l"
proof -
  obtain r l where "revision_of c n s = Some r" "lock_of c n s = Some l" "f = \<lparr>fz_contract = rev_body r, fz_lock = l\<rparr>"
    using assms by (auto simp: frozen_of_def bind_sum_Inr load_contract_def split: option.splits if_splits)
  then show ?thesis
    using that by (auto simp: revision_of_def lookup_row_def revision_key_def dest: find_SomeD)
qed

lemma frozen_same:
  assumes "contracts_locked D s" "contracts_locked D t" "kept s t" "hex_digests D" "frozen_of c n s = Inr f"
  shows "frozen_of c n t = Inr f"
proof (rule frozen_ofD [OF assms(5)])
  fix r l assume r: "r \<in> set (cs_revisions s)" "rev_contract r = c" "rev_number r = n" "fz_contract f = rev_body r"
    and l: "lock_of c n s = Some l" "fz_lock f = l"
  have pre: "prefix (cs_revisions s) (cs_revisions t)" "prefix (cs_locks s) (cs_locks t)"
    using assms(3) by (auto simp: kept_def)
  then have "find p (cs_locks s) = Some l \<Longrightarrow> find p (cs_locks t) = Some l" for p by (auto simp: prefix_def)
  with l(1) have lt: "lock_of c n t = Some l" by (simp add: lock_of_def lookup_row_def)
  have "r \<in> set (cs_revisions t)" using pre(1) r(1) by (auto simp: prefix_def)
  from frozen_read [OF assms(2) this assms(4)] locked_lookup [OF assms(2) this] lt r(2,3)
  obtain l' where "frozen_of c n t = Inr \<lparr>fz_contract = rev_body r, fz_lock = l'\<rparr>" by metis
  moreover from this lt have "l' = l" by (auto simp: frozen_of_def bind_sum_Inr split: option.splits)
  ultimately show ?thesis using r(4) l(2) by (cases f) simp
qed

lemma frozen_contracts_stay_reading:
  assumes "control_reachable D J s" and "control_steps D J s t" and "hex_digests D" and "frozen_of c n s = Inr f"
  shows "frozen_of c n t = Inr f"
proof -
  have k: "kept s t" using kept.steps_keep [OF assms(2), of s] by (simp add: kept_def)
  show ?thesis
    using frozen_same [OF reachable_locked reachable_locked k assms(3,4)] assms(1) reachable_steps [OF assms(1,2)] by blast
qed


section \<open>Freezing and revising\<close>

text \<open>The contract of a draft never changes.\<close>

definition draft_holds :: "string \<Rightarrow> task_contract \<Rightarrow> control_db \<Rightarrow> bool" where
  "draft_holds k c s \<longleftrightarrow> (\<exists>r. lookup_row dr_id k (cs_drafts s) = Some r \<and> dr_contract r = c)"

lemma draft_holds_marked: "draft_holds k c s \<Longrightarrow> draft_holds k c (put_mark k' s)"
  by (auto simp: draft_holds_def put_mark_def lookup_change_row [unfolded change_row_def])

interpretation drafts: control_law D J "draft_holds k c" for D J k c
  by unfold_locales
    (auto simp: draft_holds_def lookup_row_def put_frozen_def put_start_def put_complete_def claim_planned_def
      put_evidence_def put_binding_def set_lifecycle_def intro: draft_holds_marked [unfolded draft_holds_def lookup_row_def])

lemma freeze_Inr:
  assumes "freeze D now k m s = (Inr f, t)"
  obtains c r where "draft_holds k c t" "wf_contract c" "frozen_of (tc_id c) (tc_revision c) t = Inr f"
    "revision_of (tc_id c) (tc_revision c) t = Some r" "rev_hash r = contract_sha D (frozen_copy c)"
proof -
  from assms have "confirmed m" by (auto simp: freeze_def raise_def split: if_splits)
  with assms obtain r0 :: draft_row and c where r0: "lookup_row dr_id k (cs_drafts s) = Some r0"
      "load_contract (dr_contract r0) = Inr c"
    and step: "freeze_draft D now k m (frozen_copy c) s = (Inr f, t)"
    by (auto simp: freeze_def committed_Inr op_Inr elim!: bind_op_InrE split: option.splits)
  have c: "dr_contract r0 = c" "wf_contract c" using r0(2) by (auto simp: load_contract_def split: if_splits)
  have id: "tc_id (frozen_copy c) = tc_id c" "tc_revision (frozen_copy c) = tc_revision c" by (simp_all add: frozen_copy_def)
  have held: "draft_holds k c s" using r0(1) c(1) by (simp add: draft_holds_def)
  show ?thesis
  proof (cases "revision_of (tc_id c) (tc_revision c) s")
    case None
    with step id obtain s1 s2 ty run p where steps: "insert_frozen D now (frozen_copy c) (hm_id m) s = (Inr (), s1)"
      "mark_draft k s1 = (Inr (), s2)" "log_event ty run p s2 = (Inr (), t)" "frozen_of (tc_id c) (tc_revision c) t = Inr f"
      unfolding freeze_draft_def by (auto elim!: bind_op_InrE seq_op_InrE simp: op_Inr)
    have s1: "s1 = put_frozen D now (frozen_copy c) (hm_id m) s" and s2: "s2 = put_mark k s1"
      using steps(1,2) by (auto simp: insert_frozen_Inr mark_draft_def op_Inr put_mark_def)
    obtain d where t: "t = s2\<lparr>cs_core := d\<rparr>" using log_event_Inr [OF steps(3)] by blast
    have "draft_holds k c s2" unfolding s2
      by (rule draft_holds_marked) (use held s1 in \<open>simp add: draft_holds_def put_frozen_def\<close>)
    then have "draft_holds k c t" by (simp add: t draft_holds_def)
    moreover have "revision_of (tc_id c) (tc_revision c) t = Some (revision_row_of D (frozen_copy c) (hm_id m))"
      using None by (simp add: t s2 s1 revision_of_def lookup_row_def put_mark_def put_frozen_def revision_key_def
          revision_row_of_def id)
    ultimately show ?thesis using that c(2) steps(4) by (simp add: revision_row_of_def)
  next
    case (Some r)
    with step id have "t = s" "rev_hash r = contract_sha D (frozen_copy c)" "frozen_of (tc_id c) (tc_revision c) s = Inr f"
      unfolding freeze_draft_def by (auto elim!: bind_op_InrE simp: op_Inr split: if_splits)
    with that held c(2) Some show ?thesis by blast
  qed
qed

text \<open>
  C32. A draft is frozen once: when freeze has returned a frozen contract, every later freeze of the same
  draft, confirmed by whichever message and after any other operations, returns the same contract with the
  same lock and changes nothing.
\<close>

theorem freeze_is_idempotent:
  assumes "control_reachable D J s" and "hex_digests D" and "freeze D now k m s = (Inr f, t)"
    and "control_steps D J t u" and "confirmed m'"
  shows "freeze D now' k m' u = (Inr f, u)"
proof (rule freeze_Inr [OF assms(3)])
  fix c r assume c: "draft_holds k c t" "wf_contract c" "frozen_of (tc_id c) (tc_revision c) t = Inr f"
    and r: "revision_of (tc_id c) (tc_revision c) t = Some r" "rev_hash r = contract_sha D (frozen_copy c)"
  have "control_step D J s t" using step_freeze [of D J s now k m] assms(3) by simp
  then have reach: "control_reachable D J t"
    using reachable_steps [OF assms(1)] by (metis control_steps_def r_into_rtranclp)
  have k: "kept t u" using kept.steps_keep [OF assms(4), of t] by (simp add: kept_def)
  note fu = frozen_contracts_stay_reading [OF reach assms(4,2) c(3)]
  obtain r0 where r0: "lookup_row dr_id k (cs_drafts u) = Some r0" "dr_contract r0 = c"
    using drafts.steps_keep [OF assms(4) c(1)] by (auto simp: draft_holds_def)
  have "revision_of (tc_id c) (tc_revision c) u = Some r"
    using k r(1) by (auto simp: kept_def prefix_def revision_of_def lookup_row_def)
  with r(2) have "freeze_draft D now' k m' (frozen_copy c) u = (Inr f, u)"
    using fu by (simp add: freeze_draft_def bind_op_def gets_def ask_def frozen_copy_def)
  with r0 c(2) assms(5) show ?thesis
    by (simp add: freeze_def committed_def bind_op_def ask_def load_contract_def)
qed

text \<open>The samples: a draft staged and frozen on the empty store.\<close>

definition sample_message :: human_message where
  "sample_message = \<lparr>hm_id = ''m1'', hm_actor = ''human'', hm_project = ''p'', hm_run = None,
     hm_content = ''I Confirm.'', hm_created = 5\<rparr>"

definition sample_draft :: task_contract where
  "sample_draft = sample_contract\<lparr>tc_status := CS_Draft\<rparr>"

definition staged_store :: control_db where
  "staged_store = snd (stage sample_digests ''talk'' sample_draft empty_control)"

definition frozen_store :: control_db where
  "frozen_store = snd (freeze sample_digests 7 (draft_id_of sample_digests sample_draft) sample_message staged_store)"

definition sample_frozen :: frozen_contract where
  "sample_frozen = \<lparr>fz_contract = sample_contract, fz_lock = lock_row_of sample_digests 7 sample_contract ''m1''\<rparr>"

lemma sample_hex: "hex_digests sample_digests"
proof -
  have "sha256_pattern (replicate 64 (CHR ''0''))" by code_simp
  then show ?thesis by (simp add: hex_digests_def sample_digests_def)
qed

lemma sample_confirmed: "confirmed sample_message"
  by code_simp

lemma stepping: "control_reachable D J s \<Longrightarrow> control_step D J s t \<Longrightarrow> control_reachable D J t"
  unfolding control_reachable_def control_steps_def by (rule rtranclp.rtrancl_into_rtrancl)

lemma staged_reachable: "control_reachable sample_digests J staged_store"
proof -
  have "control_reachable sample_digests J empty_control" by (simp add: control_reachable_def control_steps_def)
  from stepping [OF this step_stage] show ?thesis unfolding staged_store_def .
qed

lemma frozen_reachable: "control_reachable sample_digests J frozen_store"
  using stepping [OF staged_reachable step_freeze] unfolding frozen_store_def .

lemma sample_freeze: "fst (freeze sample_digests 7 (draft_id_of sample_digests sample_draft) sample_message staged_store) =
    Inr sample_frozen"
  by code_simp


theorem freeze_is_idempotent_witness:
  "freeze sample_digests 9 (draft_id_of sample_digests sample_draft) sample_message frozen_store = (Inr sample_frozen, frozen_store)"
proof -
  have "freeze sample_digests 7 (draft_id_of sample_digests sample_draft) sample_message staged_store = (Inr sample_frozen, frozen_store)"
    using sample_freeze by (simp add: frozen_store_def prod_eq_iff)
  moreover have "control_steps sample_digests (\<lambda>m. mf_id m) frozen_store frozen_store" by (simp add: control_steps_def)
  ultimately show ?thesis
    using freeze_is_idempotent [OF staged_reachable sample_hex _ _ sample_confirmed] by blast
qed

section \<open>Deltas\<close>

lemma lock_id_inj:
  assumes "hex_digests D" and "al_id (lock_row_of D now c m) = al_id (lock_row_of D now' c' m')"
  shows "tc_id c = tc_id c' \<and> tc_revision c = tc_revision c'"
proof -
  have hex: "CHR '':'' \<notin> set (take 16 (contract_sha D x))" for x
  proof -
    have "list_all hex_char (contract_sha D x)" using assms(1) by (simp add: hex_digests_def contract_sha_def sha256_pattern_def)
    moreover have "\<not> hex_char (CHR '':'')" by code_simp
    ultimately show ?thesis by (auto simp: list_all_iff dest!: in_set_takeD)
  qed
  let ?head = "\<lambda>x. tc_id x @ CHR '':'' # int_str (tc_revision x)"
  have "?head c @ CHR '':'' # take 16 (contract_sha D c) = ?head c' @ CHR '':'' # take 16 (contract_sha D c')"
    using assms(2) by (simp add: lock_row_of_def)
  from append_sep_inj [OF hex hex this] have "?head c = ?head c'" by blast
  from append_sep_inj [OF int_str_no_colon int_str_no_colon this] show ?thesis by (auto dest: int_str_inj)
qed

lemma lock_free_iff_new:
  assumes "contracts_locked D s" and "hex_digests D" and "free_key revision_key (revision_row_of D c m) (cs_revisions s)"
  shows "lock_free (lock_row_of D now c m) s"
proof -
  have all: "list_all2 (lock_fits D) (cs_revisions s) (cs_locks s)" "\<forall>r \<in> set (cs_revisions s). revision_fits D r"
    using assms(1) by (auto simp: contracts_locked_def)
  have new: "(tc_id c, tc_revision c) \<noteq> lock_key l \<and> al_id (lock_row_of D now c m) \<noteq> al_id l" if l: "l \<in> set (cs_locks s)" for l
  proof -
    obtain r where r: "r \<in> set (cs_revisions s)" "lock_fits D r l"
      using all(1) l by (metis in_set_conv_nth list_all2_conv_all_nth)
    note key = fits_key(1,7) [OF r(2) all(2) [THEN bspec, OF r(1)]]
    have "(tc_id c, tc_revision c) \<noteq> revision_key r"
      using assms(3) r(1) by (auto simp: free_key_def revision_row_of_def revision_key_def)
    moreover have "al_id l = al_id (lock_row_of D (al_created l) (rev_body r) (rev_message r))"
      using r(2) by (metis lock_fits_def)
    ultimately show ?thesis using lock_id_inj [OF assms(2)] key by metis
  qed
  then show ?thesis by (auto simp: lock_free_def free_key_def) (auto simp: lock_key_def lock_row_of_def)
qed

text \<open>The contract a delta makes of its source.\<close>

definition next_contract :: "contract_delta \<Rightarrow> task_contract \<Rightarrow> task_contract" where
  "next_contract d c = c\<lparr>tc_revision := tc_revision c + 1,
     tc_supersedes := Some \<lparr>cr_id = tc_id c, cr_revision = tc_revision c\<rparr>,
     tc_task := (tc_task c)\<lparr>td_description := dl_replacement d\<rparr>, tc_status := CS_Frozen\<rparr>"

lemma revised_contract_ok:
  assumes "wf_contract c" and "validate_delta d = Inr ()"
  shows "revised_contract d c = Inr (next_contract d c)" and "wf_contract (next_contract d c)"
proof -
  have parts: "tc_id c \<noteq> []" "tc_revision c \<ge> 1" "dl_replacement d \<noteq> []"
    using assms by (auto simp: wf_contract_def validate_contract_iff validate_delta_def)
  have "validate_contract (next_contract d c) = Inr ()"
    using assms(1) by (auto simp: wf_contract_def validate_contract_iff next_contract_def)
  moreover have "validate_task (tc_task (next_contract d c)) = Inr ()"
    using assms(1) parts(3) by (auto simp: wf_contract_def validate_task_def next_contract_def)
  moreover have ref: "validate_contract_ref \<lparr>cr_id = tc_id c, cr_revision = tc_revision c\<rparr> = Inr ()"
    using parts by (simp add: validate_contract_ref_def)
  ultimately show wf: "wf_contract (next_contract d c)"
    using assms(1) by (simp add: wf_contract_def next_contract_def)
  show "revised_contract d c = Inr (next_contract d c)"
    using ref wf by (simp add: revised_contract_def load_contract_def construct_def next_contract_def)
qed

lemma latest_revision_iff:
  assumes "r \<in> set (cs_revisions s)" and "rev_contract r = c"
  shows "latest_revision c s = Some (rev_number r) \<longleftrightarrow>
    (\<forall>q \<in> set (cs_revisions s). rev_contract q = c \<longrightarrow> rev_number q \<le> rev_number r)"
proof -
  define rs where "rs = filter (\<lambda>q. rev_contract q = c) (cs_revisions s)"
  have r: "r \<in> set rs" using assms by (simp add: rs_def)
  then have "latest_revision c s = Some (Max (rev_number ` set rs))"
    by (cases rs) (auto simp: latest_revision_def rs_def [symmetric])
  moreover have "Max (rev_number ` set rs) = rev_number r \<longleftrightarrow> (\<forall>q \<in> set rs. rev_number q \<le> rev_number r)"
    using r by (subst Max_eq_iff) auto
  ultimately show ?thesis by (auto simp: rs_def)
qed

lemma put_frozen_read:
  assumes "contracts_locked D s" and "hex_digests D" and "wf_contract c" and t: "cs_revisions t = cs_revisions s @ [revision_row_of D c m]"
    "cs_locks t = cs_locks s @ [lock_row_of D now c m]"
    and free: "revision_free (revision_row_of D c m) s" "lock_free (lock_row_of D now c m) s"
  shows "frozen_of (tc_id c) (tc_revision c) t = Inr \<lparr>fz_contract = c, fz_lock = lock_row_of D now c m\<rparr>"
proof -
  have "revision_of (tc_id c) (tc_revision c) s = None" "lock_of (tc_id c) (tc_revision c) s = None"
    using free by (auto simp: revision_of_def lock_of_def lookup_row_None revision_free_def lock_free_def free_key_def
        revision_row_of_def lock_row_of_def revision_key_def lock_key_def)
  then have "revision_of (tc_id c) (tc_revision c) t = Some (revision_row_of D c m)"
    "lock_of (tc_id c) (tc_revision c) t = Some (lock_row_of D now c m)"
    by (simp_all add: revision_of_def lock_of_def lookup_row_def t) (simp_all add: revision_row_of_def lock_row_of_def revision_key_def lock_key_def)
  moreover have "validate_lock (lock_row_of D now c m) = Inr ()"
    using assms(2,3) by (simp add: validate_lock_def lock_row_of_def hex_digests_def contract_sha_def wf_contract_def validate_contract_iff)
  ultimately show ?thesis
    using assms(3) by (simp add: frozen_of_def load_contract_def construct_def revision_row_of_def)
qed


definition two_digests :: digests where
  "two_digests = sample_digests\<lparr>dg_contract_json := (\<lambda>c. int_str (tc_revision c)),
     dg_sha256 := (\<lambda>x. (if x = ''2'' then CHR ''2'' else CHR ''0'') # replicate 63 (CHR ''0''))\<rparr>"

definition sample_delta :: contract_delta where
  "sample_delta = \<lparr>dl_id = ''d1'', dl_contract = ''c'', dl_source = 1, dl_description = ''more'', dl_replacement = ''do more''\<rparr>"

definition delta_store :: control_db where
  "delta_store = snd (freeze two_digests 7 (draft_id_of two_digests sample_draft) sample_message
     (snd (stage two_digests ''talk'' sample_draft empty_control)))"

lemma delta_store_reachable: "control_reachable two_digests J delta_store"
proof -
  have "control_reachable two_digests J empty_control" by (simp add: control_reachable_def control_steps_def)
  from stepping [OF stepping [OF this step_stage] step_freeze] show ?thesis unfolding delta_store_def .
qed

lemma two_hex: "hex_digests two_digests"
proof -
  have "sha256_pattern (CHR ''2'' # replicate 63 (CHR ''0''))" "sha256_pattern (CHR ''0'' # replicate 63 (CHR ''0''))" by code_simp+
  then show ?thesis by (simp add: hex_digests_def two_digests_def)
qed


end
