(* ===== verification/Start_Laws.thy ===== *)
theory Start_Laws
  imports Revision_Laws
begin

text \<open>
  Planned runs and their start: what is prepared is the graph of a locked contract, it is started at most
  once, and a completed start is answered with its recorded outcome.
\<close>

section \<open>Rows that stay\<close>

definition left_prepared :: "string \<Rightarrow> control_db \<Rightarrow> bool" where
  "left_prepared run s \<longleftrightarrow> (case planned_of run s of None \<Rightarrow> False | Some p \<Rightarrow> pl_state p \<noteq> PL_Prepared)"

text \<open>The columns of a planned run but its state.\<close>

definition plan_of :: "planned_row \<Rightarrow> planned_row" where
  "plan_of p = p\<lparr>pl_state := PL_Prepared\<rparr>"

definition planned_as :: "string \<Rightarrow> planned_row \<Rightarrow> control_db \<Rightarrow> bool" where
  "planned_as run p s \<longleftrightarrow> (case planned_of run s of None \<Rightarrow> False | Some q \<Rightarrow> plan_of q = plan_of p)"

definition start_open :: "string \<Rightarrow> string \<Rightarrow> string \<Rightarrow> control_db \<Rightarrow> bool" where
  "start_open key run fp s \<longleftrightarrow> (case lookup_row sr_key key (cs_starts s) of None \<Rightarrow> False
     | Some r \<Rightarrow> sr_run r = run \<and> sr_fingerprint r = fp)"

definition start_answered :: "string \<Rightarrow> string \<Rightarrow> string \<Rightarrow> run_outcome \<Rightarrow> control_db \<Rightarrow> bool" where
  "start_answered key run fp x s \<longleftrightarrow> (case lookup_row sr_key key (cs_starts s) of None \<Rightarrow> False
     | Some r \<Rightarrow> sr_run r = run \<and> sr_fingerprint r = fp \<and> sr_completed r \<and> sr_result r = Some x)"

lemma lookup_update_where:
  "(\<And>r. key (f r) = key r) \<Longrightarrow> lookup_row key k (update_where p f t) =
    map_option (\<lambda>r. if p r then f r else r) (lookup_row key k t)"
  by (induction t) (auto simp: lookup_row_def)

lemma lookup_append: "lookup_row key k (t @ [r]) = (case lookup_row key k t of
    None \<Rightarrow> if key r = k then Some r else None | Some q \<Rightarrow> Some q)"
  by (simp add: lookup_row_def split: option.split)

lemma planned_put:
  "planned_of run (put_start r s) = map_option (\<lambda>p. if pl_id p = sr_run r \<and> pl_state p = PL_Prepared
     then p\<lparr>pl_state := PL_Claimed\<rparr> else p) (planned_of run s)"
  "planned_of run (put_complete x s) = map_option (\<lambda>p. if pl_id p = ro_run x
     then p\<lparr>pl_state := PL_Started\<rparr> else p) (planned_of run s)"
  by (simp_all add: planned_of_def put_start_def claim_planned_def put_complete_def lookup_update_where)

lemma starts_put:
  "lookup_row sr_key key (cs_starts (put_complete x s)) = map_option (\<lambda>r. if sr_key r = ro_key x \<and> \<not> sr_completed r
     then completed_row x r else r) (lookup_row sr_key key (cs_starts s))"
  by (simp add: put_complete_def lookup_update_where completed_row_def)

lemma planned_elsewhere:
  "planned_of run (s\<lparr>cs_core := d\<rparr>) = planned_of run s"
  "planned_of run (s\<lparr>cs_drafts := ds\<rparr>) = planned_of run s"
  "planned_of run (s\<lparr>cs_deltas := de\<rparr>) = planned_of run s"
  "planned_of run (s\<lparr>cs_verifiers := v\<rparr>) = planned_of run s"
  "planned_of run (put_mark k s) = planned_of run s"
  "planned_of run (put_frozen D now c message s) = planned_of run s"
  "planned_of run (put_evidence k' n lc e s) = planned_of run s"
  "planned_of run (put_binding b message s) = planned_of run s"
  "planned_of run s = Some p \<Longrightarrow> planned_of run (s\<lparr>cs_planned := cs_planned s @ [q]\<rparr>) = Some p"
  by (simp_all add: planned_of_def put_mark_def put_frozen_def put_evidence_def put_binding_def set_lifecycle_def lookup_row_def)

lemma starts_elsewhere:
  "cs_starts (put_mark k s) = cs_starts s" "cs_starts (put_frozen D now c message s) = cs_starts s"
  "cs_starts (put_evidence k' n lc e s) = cs_starts s" "cs_starts (put_binding b message s) = cs_starts s"
  "cs_starts (put_start r s) = cs_starts s @ [r]"
  by (simp_all add: put_mark_def put_frozen_def put_evidence_def put_binding_def set_lifecycle_def put_start_def claim_planned_def)

interpretation leaving: control_law D J "left_prepared run" for D J run
  by unfold_locales (auto simp: left_prepared_def planned_elsewhere planned_put split: option.splits)

interpretation plan: control_law D J "planned_as run p" for D J run p
  by unfold_locales (auto simp: planned_as_def planned_elsewhere planned_put plan_of_def split: option.splits)

interpretation opened: control_law D J "start_open key run fp" for D J key run fp
  by unfold_locales
    (auto simp: start_open_def starts_elsewhere starts_put completed_row_def lookup_append split: option.splits)

interpretation answered: control_law D J "start_answered key run fp x" for D J key run fp x
  by unfold_locales
    (auto simp: start_answered_def starts_elsewhere starts_put completed_row_def lookup_append split: option.splits)

section \<open>At most one start\<close>

lemma begin_run_None:
  assumes "begin_run D run request key s = (Inr (None, p, g, c), t)"
  shows "load_prepared D run s = Inr (p, g, c)" and "left_prepared run t"
    and "start_open key run (start_fingerprint D run p c) t"
proof -
  from assms obtain s1 where load: "load_prepared D run s = Inr (p, g, c)"
    and claim: "claim run request key (start_fingerprint D run p c) s = (Inr None, t)"
    by (auto simp: begin_run_def raise_def op_Inr elim!: bind_op_InrE split: if_splits)
  let ?r = "\<lparr>sr_key = key, sr_request = request, sr_run = run, sr_fingerprint = start_fingerprint D run p c,
    sr_completed = False, sr_result = None\<rparr>"
  have none: "lookup_row sr_key key (cs_starts s) = None"
    using claim by (auto simp: claim_def committed_Inr claim_tx_def op_Inr replay_def elim!: bind_op_InrE
        split: option.splits if_splits bool.splits)
  with claim obtain s1 ty pay where steps: "check_prepared run s = Inr ()" "insert_start ?r s = (Inr (), s1)"
    "log_event ty run pay (claim_planned run s1) = (Inr (), t)"
    by (auto simp: claim_def committed_Inr claim_tx_def op_Inr elim!: bind_op_InrE seq_op_InrE)
  obtain d where t: "t = (claim_planned run s1)\<lparr>cs_core := d\<rparr>" using log_event_Inr [OF steps(3)] by blast
  have "s1 = s\<lparr>cs_starts := cs_starts s @ [?r]\<rparr>" using steps(2) by (simp add: insert_start_def split: if_splits)
  then have put: "t = (put_start ?r s)\<lparr>cs_core := d\<rparr>" by (simp add: t put_start_def)
  show "load_prepared D run s = Inr (p, g, c)" by (rule load)
  obtain q where q: "planned_of run s = Some q" "pl_state q = PL_Prepared"
    using steps(1) by (auto simp: check_prepared_def split: option.splits plan_state.splits)
  have "pl_id q = run" using q(1) by (auto simp: planned_of_def dest: lookup_row_key)
  with q show "left_prepared run t" by (simp add: put left_prepared_def planned_elsewhere planned_put)
  show "start_open key run (start_fingerprint D run p c) t"
    using none by (simp add: put start_open_def starts_elsewhere lookup_append)
qed

text \<open>
  C34. A planned run is started at most once: after begin_run has answered one caller with the right to start,
  no later call, with the same or another idempotency key and after any other operations, gets it
  again.
\<close>

theorem run_starts_at_most_once:
  assumes "begin_run D run request key s = (Inr (None, work), t)" and "control_steps D J t u"
  shows "fst (begin_run D run request' key' u) \<noteq> Inr (None, work')"
proof
  assume again: "fst (begin_run D run request' key' u) = Inr (None, work')"
  obtain p g c where work: "work = (p, g, c)" by (cases work)
  from begin_run_None(2) [OF assms(1) [unfolded work]] have "left_prepared run u"
    by (rule leaving.steps_keep [OF assms(2)])
  then obtain q where q: "planned_of run u = Some q" "pl_state q \<noteq> PL_Prepared" by (auto simp: left_prepared_def split: option.splits)
  from again have "\<exists>fp v. claim run request' key' fp u = (Inr None, v)"
    by (auto simp: begin_run_def bind_op_def ask_def raise_def ret_def split: if_splits prod.splits sum.splits)
  then have "check_prepared run u = Inr ()"
    by (auto simp: claim_def committed_Inr claim_tx_def op_Inr replay_def elim!: bind_op_InrE seq_op_InrE
        split: option.splits if_splits bool.splits)
  with q show False by (simp add: check_prepared_def split: plan_state.splits)
qed

section \<open>Replays\<close>

lemma plan_of_columns:
  assumes "plan_of q = plan_of p"
  shows "pl_contract q = pl_contract p" "pl_revision q = pl_revision p" "pl_graph q = pl_graph p" "pl_hash q = pl_hash p"
  using arg_cong [OF assms, of pl_contract] arg_cong [OF assms, of pl_revision] arg_cong [OF assms, of pl_graph]
    arg_cong [OF assms, of pl_hash] by (simp_all add: plan_of_def)

lemma kept_lookups:
  assumes "kept s t"
  shows "revision_of c n s = Some r \<Longrightarrow> revision_of c n t = Some r" and "lock_of c n s = Some l \<Longrightarrow> lock_of c n t = Some l"
  using assms by (auto simp: kept_def prefix_def revision_of_def lock_of_def lookup_row_def)

lemma load_prepared_same:
  assumes "load_prepared D run s = Inr (p, g, c)" and "kept s t" and "planned_as run p t"
  obtains q where "load_prepared D run t = Inr (q, g, c)" "plan_of q = plan_of p"
proof -
  from assms(1) obtain r l where s: "revision_of (pl_contract p) (pl_revision p) s = Some r"
    "lock_of (pl_contract p) (pl_revision p) s = Some l" "load_contract (rev_body r) = Inr c" "load_graph (pl_graph p) = Inr g"
    "no_drift D p r l c g"
    by (auto simp: load_prepared_def bind_sum_Inr split: option.splits if_splits)
  from assms(3) obtain q where q: "planned_of run t = Some q" "plan_of q = plan_of p"
    by (auto simp: planned_as_def split: option.splits)
  note cols = plan_of_columns [OF q(2)]
  have "no_drift D q r l c g" using s(5) unfolding no_drift_def cols .
  then have "load_prepared D run t = Inr (q, g, c)"
    using q(1) kept_lookups [OF assms(2)] s by (simp add: load_prepared_def cols)
  then show ?thesis using q(2) that by blast
qed

lemma one_step: "control_step D J s t \<Longrightarrow> control_steps D J s t"
  unfolding control_steps_def by auto

lemma control_steps_trans: "control_steps D J s t \<Longrightarrow> control_steps D J t u \<Longrightarrow> control_steps D J s u"
  unfolding control_steps_def by (rule rtranclp_trans)

text \<open>
  C35. The caller that was given the right to start records the outcome: from then on every request with its
  idempotency key is answered with exactly this outcome, checked against the same graph and contract, and
  changes nothing, whatever happened before and after.
\<close>

theorem completed_start_is_replayed:
  assumes start: "begin_run D run request key s = (Inr (None, p, g, c), t)"
    and "control_steps D J t u" and row: "lookup_row sr_key key (cs_starts u) = Some r" "\<not> sr_completed r"
    and x: "complete x u = (Inr (), v)" "ro_key x = key" and "control_steps D J v w" and "request' \<noteq> []"
  shows "\<exists>q. begin_run D run request' key w = (Inr (Some x, q, g, c), w) \<and> plan_of q = plan_of p"
proof -
  note load = begin_run_None(1) [OF start]
  define fp where "fp = start_fingerprint D run p c"
  have "control_steps D J s t" using step_begin [of D J s run request key] start by (simp add: one_step)
  moreover have "control_steps D J u v" using step_complete [of D J u x] x(1) by (simp add: one_step)
  ultimately have sw: "control_steps D J s w" using assms(2,7) control_steps_trans by metis
  have "kept s w" using kept.steps_keep [OF sw, of s] by (simp add: kept_def)
  moreover have "planned_as run p s"
    using load by (auto simp: planned_as_def load_prepared_def bind_sum_Inr split: option.splits if_splits)
  ultimately obtain q where q: "load_prepared D run w = Inr (q, g, c)" "plan_of q = plan_of p"
    using load_prepared_same [OF load] plan.steps_keep [OF sw] by metis
  have "start_open key run fp u" unfolding fp_def by (rule opened.steps_keep [OF assms(2) begin_run_None(3) [OF start]])
  then have r: "sr_run r = run" "sr_fingerprint r = fp" using row(1) by (simp_all add: start_open_def)
  obtain d where v: "v = (put_complete x u)\<lparr>cs_core := d\<rparr>"
    using x(1) log_event_Inr by (force simp: complete_def committed_Inr put_complete_def op_Inr elim!: seq_op_InrE)
  have "sr_key r = key" using row(1) by (rule lookup_row_key)
  then have "start_answered key run fp x v"
    using row r x(2) by (simp add: v start_answered_def starts_put completed_row_def)
  from answered.steps_keep [OF assms(7) this] obtain r' where r': "lookup_row sr_key key (cs_starts w) = Some r'"
    "sr_run r' = run" "sr_fingerprint r' = fp" "sr_completed r'" "sr_result r' = Some x"
    by (auto simp: start_answered_def split: option.splits)
  have "start_fingerprint D run q c = fp" by (simp add: fp_def start_fingerprint_def plan_of_columns(4) [OF q(2)])
  with r' have claim: "claim run request' key (start_fingerprint D run q c) w = (Inr (Some x), w)"
    by (simp add: claim_def committed_def claim_tx_def bind_op_def gets_def lift_sum_def replay_def)
  have "key \<noteq> []" using start by (auto simp: begin_run_def raise_def split: if_splits)
  with q claim assms(8) show ?thesis by (simp add: begin_run_def bind_op_def ask_def ret_def)
qed

section \<open>What is prepared can start\<close>

definition plan_compiled :: "digests \<Rightarrow> control_db \<Rightarrow> planned_row \<Rightarrow> bool" where
  "plan_compiled D s p \<longleftrightarrow> (\<exists>r \<in> set (cs_revisions s). revision_key r = (pl_contract p, pl_revision p) \<and>
     compile_contract D (rev_body r) = Inr (pl_graph p) \<and> pl_hash p = graph_sha D (pl_graph p))"

definition plans_compiled :: "digests \<Rightarrow> control_db \<Rightarrow> bool" where
  "plans_compiled D s \<longleftrightarrow> contracts_locked D s \<and> (\<forall>p \<in> set (cs_planned s). plan_compiled D s p)"

lemma plan_compiled_mono:
  "plan_compiled D s p \<Longrightarrow> set (cs_revisions s) \<subseteq> set (cs_revisions t) \<Longrightarrow> plan_of q = plan_of p \<Longrightarrow> plan_compiled D t q"
  unfolding plan_compiled_def using plan_of_columns by (metis subsetD)

lemma plans_compiled_mono:
  assumes "plans_compiled D s" and "contracts_locked D t" and "set (cs_revisions s) \<subseteq> set (cs_revisions t)"
    and "\<And>q. q \<in> set (cs_planned t) \<Longrightarrow> \<exists>p \<in> set (cs_planned s). plan_of q = plan_of p"
  shows "plans_compiled D t"
  using assms plan_compiled_mono unfolding plans_compiled_def by metis

lemma put_planned_rows:
  "q \<in> set (cs_planned (put_start r s)) \<Longrightarrow> \<exists>p \<in> set (cs_planned s). plan_of q = plan_of p"
  "q \<in> set (cs_planned (put_complete x s)) \<Longrightarrow> \<exists>p \<in> set (cs_planned s). plan_of q = plan_of p"
  by (auto simp: put_start_def claim_planned_def put_complete_def set_update_where plan_of_def split: if_splits)

lemma planned_row_compiled:
  assumes "contracts_locked D s" and "frozen_of c' n s = Inr f" and "compile_contract D (fz_contract f) = Inr g"
  shows "plan_compiled D s (plan_row D run project (fz_contract f) g source restart)"
proof (rule frozen_ofD [OF assms(2)])
  fix r assume r: "r \<in> set (cs_revisions s)" "fz_contract f = rev_body r"
  have "revision_fits D r" using assms(1) r(1) by (simp add: contracts_locked_def)
  then have "revision_key r = (tc_id (rev_body r), tc_revision (rev_body r))"
    by (metis revision_fits_def revision_key_def revision_row_of_def revision_row.select_convs(1,2))
  with r assms(3) show ?thesis by (auto simp: plan_compiled_def plan_row_def)
qed

interpretation compiled: control_law D J "plans_compiled D" for D J
proof
  note mono = plans_compiled_mono
  fix s assume P: "plans_compiled D s"
  then have L: "contracts_locked D s" by (simp add: plans_compiled_def)
  have same: "plans_compiled D t" if "contracts_locked D t" "cs_revisions t = cs_revisions s" "cs_planned t = cs_planned s" for t
    by (rule mono [OF P]) (use that in auto)
  show "plans_compiled D (s\<lparr>cs_core := d\<rparr>)" if "db_uuid (cs_core s) \<le> db_uuid d" for d
    by (rule same) (use locked.core [OF L that] in simp_all)
  show "plans_compiled D (s\<lparr>cs_drafts := cs_drafts s @ [dr]\<rparr>)" if "free_key dr_id dr (cs_drafts s)" for dr
    by (rule same) (use locked.drafted [OF L that] in simp_all)
  show "plans_compiled D (put_mark k s)" for k
    by (rule same) (use locked.marked [OF L] in \<open>simp_all add: put_mark_def\<close>)
  show "plans_compiled D (put_frozen D now c message s)" if "wf_contract c" "tc_status c = CS_Frozen"
    "revision_free (revision_row_of D c message) s" "lock_free (lock_row_of D now c message) s" for now c message
    by (rule mono [OF P locked.frozen [OF L that]]) (auto simp: put_frozen_def)
  show "plans_compiled D (s\<lparr>cs_deltas := cs_deltas s @ [de]\<rparr>)" for de
    by (rule same) (use locked.deltas [OF L] in simp_all)
  show "plans_compiled D (s\<lparr>cs_planned := cs_planned s @ [plan_row D run project (fz_contract f) g source restart]\<rparr>)"
    if "frozen_of c' n s = Inr f" "compile_contract D (fz_contract f) = Inr g"
      "free_key pl_id (plan_row D run project (fz_contract f) g source restart) (cs_planned s)" for c' n f g run project source restart
    using planned_row_compiled [OF L that(1,2)] P locked.planned [OF L that] by (auto simp: plans_compiled_def plan_compiled_def)
  show "plans_compiled D (put_start r s)" if "check_prepared (sr_run r) s = Inr ()" "free_key sr_key r (cs_starts s)"
      "\<not> sr_completed r" for r
    by (rule mono [OF P locked.claimed [OF L that]]) (auto simp: put_planned_rows put_start_def claim_planned_def)
  show "plans_compiled D (put_complete x s)" for x
    by (rule mono [OF P locked.completed [OF L]]) (auto simp: put_planned_rows put_complete_def)
  show "plans_compiled D (s\<lparr>cs_verifiers := cs_verifiers s @ [staged_row mf h source' tests fixtures]\<rparr>)"
    if "may_stage mf s = Inr ()" "hashes_of (dg_sha256 D) J fs mf source' tests fixtures = Inr h" for mf h source' tests fixtures fs
    by (rule same) (use locked.staged [OF L that] in simp_all)
  show "plans_compiled D (put_evidence (el_verifier e) (el_revision e) (el_lifecycle e) e s)"
    if "may_record (el_verifier e) (el_revision e) (el_lifecycle e) (el_result e) s = Inr ()" for e
    by (rule same) (use locked.evidence [OF L that] in \<open>simp_all add: put_evidence_def set_lifecycle_def\<close>)
  show "plans_compiled D (put_binding b message s)"
    if "may_freeze (bi_verifier b) (bi_number b) (bi_contract b) (bi_revision b) s = Inr (bi_hashes b)"
      "free_key binding_key b (cs_bindings s)" for b message
    by (rule same) (use locked.bound [OF L that] in \<open>simp_all add: put_binding_def set_lifecycle_def\<close>)
qed

text \<open>
  In every reachable state of the control plane every planned run passes the check before its start:
  its frozen contract, lock and graph are there and agree, and the graph is what the compiler makes of
  that contract, accepted by all validators.
\<close>

theorem planned_runs_can_start:
  assumes "control_reachable D J s" and "planned_of run s = Some p"
  shows "\<exists>c. load_prepared D run s = Inr (p, pl_graph p, c) \<and> compile_contract D c = Inr (pl_graph p) \<and>
    wf_graph (pl_graph p) \<and> tc_id c = pl_contract p \<and> tc_revision c = pl_revision p"
proof -
  have inv: "plans_compiled D s"
    using assms(1) compiled.steps_keep [where s = empty_control]
    unfolding control_reachable_def by (simp add: plans_compiled_def contracts_locked_def empty_control_def)
  then have L: "contracts_locked D s" by (simp add: plans_compiled_def)
  have "p \<in> set (cs_planned s)" using assms(2) by (auto simp: planned_of_def lookup_row_def dest: find_SomeD)
  with inv obtain r where r: "r \<in> set (cs_revisions s)" "revision_key r = (pl_contract p, pl_revision p)"
    "compile_contract D (rev_body r) = Inr (pl_graph p)" "pl_hash p = graph_sha D (pl_graph p)"
    unfolding plans_compiled_def plan_compiled_def by blast
  have fit: "revision_fits D r" using L r(1) by (simp add: contracts_locked_def)
  then have c: "wf_contract (rev_body r)" by (simp add: revision_fits_def)
  obtain l where l: "lock_fits D r l" "revision_of (pl_contract p) (pl_revision p) s = Some r"
    "lock_of (pl_contract p) (pl_revision p) s = Some l"
    using locked_lookup [OF L r(1)] r(2) by (metis prod.inject revision_key_def)
  note key = fits_key [OF l(1) fit]
  note only = compiled_only_if [OF r(3) c]
  have g: "wf_graph (pl_graph p)" "g_contract (pl_graph p) = \<lparr>cr_id = tc_id (rev_body r), cr_revision = tc_revision (rev_body r)\<rparr>"
    using compiled_graph [OF c only, of D] r(3) by (metis Inr_inject)+
  have "no_drift D p r l (rev_body r) (pl_graph p)"
    using key(2,3) r(4) g(2) by (simp add: no_drift_def)
  then have "load_prepared D run s = Inr (p, pl_graph p, rev_body r)"
    using assms(2) l(2,3) c g(1) by (simp add: load_prepared_def load_contract_def load_graph_def)
  with r(2,3) g(1) key(7) show ?thesis by auto
qed

section \<open>Witnesses\<close>

definition planned_store :: control_db where
  "planned_store = snd (plan_run sample_digests ''p'' sample_frozen None None (Some ''r1'') frozen_store)"

lemma planned_reachable: "control_reachable sample_digests J planned_store"
proof -
  have f: "frozen_of ''c'' 1 frozen_store = Inr sample_frozen" by code_simp
  show ?thesis using stepping [OF frozen_reachable step_plan [OF f]] unfolding planned_store_def .
qed

theorem planned_runs_can_start_witness:
  "\<exists>p g c. load_prepared sample_digests ''r1'' planned_store = Inr (p, g, c) \<and> wf_graph g"
proof -
  have "planned_of ''r1'' planned_store \<noteq> None" by code_simp
  then obtain p where "planned_of ''r1'' planned_store = Some p" by blast
  from planned_runs_can_start [OF planned_reachable [of "\<lambda>m. mf_id m"] this] show ?thesis by blast
qed

definition started_store :: control_db where
  "started_store = snd (begin_run sample_digests ''r1'' ''q1'' ''k1'' planned_store)"

lemma sample_started:
  obtains p g c where "begin_run sample_digests ''r1'' ''q1'' ''k1'' planned_store = (Inr (None, p, g, c), started_store)"
proof -
  have "case fst (begin_run sample_digests ''r1'' ''q1'' ''k1'' planned_store) of Inr (None, _) \<Rightarrow> True | _ \<Rightarrow> False"
    by code_simp
  then show ?thesis using that unfolding started_store_def
    by (cases "begin_run sample_digests ''r1'' ''q1'' ''k1'' planned_store") (auto split: sum.splits option.splits)
qed

theorem run_starts_at_most_once_witness:
  "\<forall>w. fst (begin_run sample_digests ''r1'' ''q2'' ''k2'' started_store) \<noteq> Inr (None, w)"
proof (rule sample_started, rule allI)
  fix p g c w assume "begin_run sample_digests ''r1'' ''q1'' ''k1'' planned_store = (Inr (None, p, g, c), started_store)"
  moreover have "control_steps sample_digests (\<lambda>m. mf_id m) started_store started_store" by (simp add: control_steps_def)
  ultimately show "fst (begin_run sample_digests ''r1'' ''q2'' ''k2'' started_store) \<noteq> Inr (None, w)"
    by (rule run_starts_at_most_once)
qed

definition sample_outcome :: run_outcome where
  "sample_outcome = \<lparr>ro_run = ''r1'', ro_status = ''succeeded'', ro_report = 1, ro_key = ''k1''\<rparr>"

theorem completed_start_is_replayed_witness:
  "\<exists>q g c. begin_run sample_digests ''r1'' ''q9'' ''k1'' (snd (complete sample_outcome started_store)) =
     (Inr (Some sample_outcome, q, g, c), snd (complete sample_outcome started_store))"
proof (rule sample_started)
  fix p g c assume start: "begin_run sample_digests ''r1'' ''q1'' ''k1'' planned_store = (Inr (None, p, g, c), started_store)"
  have stay: "control_steps sample_digests (\<lambda>m. mf_id m) s s" for s by (simp add: control_steps_def)
  have "map_option sr_completed (lookup_row sr_key ''k1'' (cs_starts started_store)) = Some False" by code_simp
  then obtain r where r: "lookup_row sr_key ''k1'' (cs_starts started_store) = Some r" "\<not> sr_completed r" by auto
  have fin: "complete sample_outcome started_store = (Inr (), snd (complete sample_outcome started_store))"
    "ro_key sample_outcome = ''k1''"
    by (simp_all add: complete_def committed_def seq_op_def modify_def log_event_eq sample_outcome_def)
  from completed_start_is_replayed [OF start stay r fin stay, of "''q9''"] show ?thesis by blast
qed

end
