(* ===== verification/Verifier_Laws.thy ===== *)
theory Verifier_Laws
  imports Revision_Laws
begin

text \<open>
  Verifier revisions: one that is bound to a contract went through all stages with evidence that passed, is
  declared by the contract, and runs only while its files have the hashes that were frozen.
\<close>

section \<open>The invariant\<close>

definition passed_stage :: "control_db \<Rightarrow> string \<Rightarrow> int \<Rightarrow> lifecycle \<Rightarrow> bool" where
  "passed_stage s k n lc \<longleftrightarrow> (\<exists>e \<in> set (cs_evidence s). el_verifier e = k \<and> el_revision e = n \<and>
     el_lifecycle e = lc \<and> evidence_passed (el_result e))"

primrec stages_before :: "lifecycle \<Rightarrow> lifecycle list" where
  "stages_before LC_Draft = []"
| "stages_before LC_Validated = [LC_Validated]"
| "stages_before LC_Tested = [LC_Validated, LC_Tested]"
| "stages_before LC_DryRun = [LC_Validated, LC_Tested, LC_DryRun]"
| "stages_before LC_Frozen = [LC_Validated, LC_Tested, LC_DryRun]"

definition verifier_backed :: "digests \<Rightarrow> (manifest \<Rightarrow> string) \<Rightarrow> control_db \<Rightarrow> verifier_row \<Rightarrow> bool" where
  "verifier_backed D J s r \<longleftrightarrow> (\<forall>lc \<in> set (stages_before (ve_lifecycle r)). passed_stage s (ve_id r) (ve_revision r) lc) \<and>
     (\<exists>fs. hashes_of (dg_sha256 D) J fs (ve_manifest r) (ve_source r) (ve_tests r) (ve_fixtures r) = Inr (ve_hashes r))"

definition declares :: "control_db \<Rightarrow> string \<Rightarrow> int \<Rightarrow> string \<Rightarrow> string \<Rightarrow> bool" where
  "declares s c n k ty \<longleftrightarrow> (\<exists>r \<in> set (cs_revisions s). revision_key r = (c, n) \<and>
     (\<exists>q \<in> set (tc_verifiers (rev_body r)). vq_id q = k \<and> vq_type q = ty))"

definition binding_backed :: "control_db \<Rightarrow> binding_row \<Rightarrow> bool" where
  "binding_backed s b \<longleftrightarrow> (\<exists>r \<in> set (cs_verifiers s). verifier_key r = (bi_verifier b, bi_number b) \<and>
     ve_lifecycle r = LC_Frozen \<and> ve_hashes r = bi_hashes b \<and> declares s (bi_contract b) (bi_revision b) (bi_verifier b) (ve_type r))"

definition verifiers_sound :: "digests \<Rightarrow> (manifest \<Rightarrow> string) \<Rightarrow> control_db \<Rightarrow> bool" where
  "verifiers_sound D J s \<longleftrightarrow> distinct (map verifier_key (cs_verifiers s)) \<and>
     (\<forall>r \<in> set (cs_verifiers s). verifier_backed D J s r) \<and> (\<forall>b \<in> set (cs_bindings s). binding_backed s b)"

text \<open>The tables the invariant reads may grow at the end.\<close>

lemma verifiers_sound_mono:
  assumes "verifiers_sound D J s" and "cs_verifiers t = cs_verifiers s" and "cs_bindings t = cs_bindings s"
    and "set (cs_evidence s) \<subseteq> set (cs_evidence t)" and "set (cs_revisions s) \<subseteq> set (cs_revisions t)"
  shows "verifiers_sound D J t"
proof -
  have stage: "passed_stage s k n lc \<Longrightarrow> passed_stage t k n lc" "declares s c n k ty \<Longrightarrow> declares t c n k ty" for k n lc c ty
    using assms(4,5) by (auto simp: passed_stage_def declares_def)
  have "verifier_backed D J s r \<Longrightarrow> verifier_backed D J t r" for r
    using stage(1) by (auto simp: verifier_backed_def)
  moreover have "binding_backed s b \<Longrightarrow> binding_backed t b" for b
    unfolding binding_backed_def assms(2) using stage(2) by blast
  ultimately show ?thesis using assms(1-3) by (simp add: verifiers_sound_def)
qed

text \<open>A step of the lifecycle changes the row it names, and keeps all columns but stage and message.\<close>

lemma set_lifecycle_rows:
  assumes "\<And>r. verifier_key (f r) = verifier_key r"
  shows "map verifier_key (cs_verifiers (set_lifecycle k n f s)) = map verifier_key (cs_verifiers s)"
    and "r \<in> set (cs_verifiers (set_lifecycle k n f s)) \<longleftrightarrow>
      (\<exists>q \<in> set (cs_verifiers s). r = (if verifier_key q = (k, n) then f q else q))"
  using assms by (auto simp: set_lifecycle_def change_row_def update_where_def)

lemma verifier_of_in: "verifier_of k n s = Some r \<Longrightarrow> r \<in> set (cs_verifiers s) \<and> verifier_key r = (k, n)"
  by (auto simp: verifier_of_def lookup_row_def dest: find_SomeD)

lemma put_evidence_sound:
  assumes "verifiers_sound D J s" and may: "may_record (el_verifier e) (el_revision e) (el_lifecycle e) (el_result e) s = Inr ()"
  shows "verifiers_sound D J (put_evidence (el_verifier e) (el_revision e) (el_lifecycle e) e s)"
proof -
  let ?k = "el_verifier e" and ?n = "el_revision e" and ?lc = "el_lifecycle e"
  let ?f = "\<lambda>r. r\<lparr>ve_lifecycle := ?lc\<rparr>" and ?t = "put_evidence (el_verifier e) (el_revision e) (el_lifecycle e) e s"
  from may obtain r0 where r0: "verifier_of ?k ?n s = Some r0" "next_lifecycle (ve_lifecycle r0) = Some ?lc"
    and passed: "evidence_passed (el_result e)"
    by (auto simp: may_record_def split: option.splits if_splits)
  have same: "cs_verifiers ?t = cs_verifiers (set_lifecycle ?k ?n ?f s)" "cs_bindings ?t = cs_bindings s"
    "cs_revisions ?t = cs_revisions s" "cs_evidence ?t = cs_evidence s @ [e]"
    by (simp_all add: put_evidence_def set_lifecycle_def)
  have key: "verifier_key (?f r) = verifier_key r" for r by (simp add: verifier_key_def)
  note rows = set_lifecycle_rows [of ?f, OF key]
  have dist: "distinct (map verifier_key (cs_verifiers s))" using assms(1) by (simp add: verifiers_sound_def)
  have stage: "passed_stage s k n lc \<Longrightarrow> passed_stage ?t k n lc" "passed_stage ?t ?k ?n ?lc" for k n lc
    using passed by (auto simp: passed_stage_def same)
  have only: "q = r0" if "q \<in> set (cs_verifiers s)" "verifier_key q = (?k, ?n)" for q
    using distinct_key_eq [OF dist that(1)] verifier_of_in [OF r0(1)] that(2) by metis
  have backed: "verifier_backed D J ?t r" if "r \<in> set (cs_verifiers ?t)" for r
  proof -
    from that obtain q where q: "q \<in> set (cs_verifiers s)" "r = (if verifier_key q = (?k, ?n) then ?f q else q)"
      unfolding same(1) rows(2) by blast
    have old: "verifier_backed D J s q" using assms(1) q(1) by (simp add: verifiers_sound_def)
    show ?thesis
    proof (cases "verifier_key q = (?k, ?n)")
      case True
      with only q(1) have "next_lifecycle (ve_lifecycle q) = Some ?lc" using r0(2) by blast
      then have "set (stages_before ?lc) \<subseteq> insert ?lc (set (stages_before (ve_lifecycle q)))"
        by (cases "ve_lifecycle q") auto
      with True q(2) old stage show ?thesis unfolding verifier_backed_def by (auto simp: verifier_key_def)
    qed (use q(2) old stage(1) in \<open>auto simp: verifier_backed_def\<close>)
  qed
  have bound: "binding_backed ?t b" if b: "b \<in> set (cs_bindings s)" for b
  proof -
    from assms(1) b obtain q where q: "q \<in> set (cs_verifiers s)" "verifier_key q = (bi_verifier b, bi_number b)"
      "ve_lifecycle q = LC_Frozen" "ve_hashes q = bi_hashes b" "declares s (bi_contract b) (bi_revision b) (bi_verifier b) (ve_type q)"
      unfolding verifiers_sound_def binding_backed_def by blast
    have "verifier_key q \<noteq> (?k, ?n)" using only [OF q(1)] q(3) r0(2) by auto
    then have "q \<in> set (cs_verifiers ?t)" unfolding same(1) rows(2) using q(1) by auto
    with q(2-5) show ?thesis unfolding binding_backed_def declares_def same(3) by blast
  qed
  show ?thesis using dist backed bound rows(1) [of ?k ?n s] by (simp add: verifiers_sound_def same)
qed

lemma put_binding_sound:
  assumes "verifiers_sound D J s"
    and may: "may_freeze (bi_verifier b) (bi_number b) (bi_contract b) (bi_revision b) s = Inr (bi_hashes b)"
  shows "verifiers_sound D J (put_binding b message s)"
proof -
  let ?k = "bi_verifier b" and ?n = "bi_number b" and ?t = "put_binding b message s"
  let ?f = "\<lambda>r. r\<lparr>ve_lifecycle := LC_Frozen, ve_message := Some message\<rparr>"
  from may obtain r0 cr q0 where r0: "verifier_of ?k ?n s = Some r0" "ve_lifecycle r0 = LC_DryRun"
      "bi_hashes b = ve_hashes r0"
    and cr: "revision_of (bi_contract b) (bi_revision b) s = Some cr"
    and q0: "find (\<lambda>q. vq_id q = ?k) (tc_verifiers (rev_body cr)) = Some q0" "vq_type q0 = ve_type r0"
    by (auto simp: may_freeze_def bind_sum_Inr load_contract_def split: option.splits if_splits)
  have same: "cs_verifiers ?t = cs_verifiers (set_lifecycle ?k ?n ?f s)" "cs_bindings ?t = cs_bindings s @ [b]"
    "cs_revisions ?t = cs_revisions s" "cs_evidence ?t = cs_evidence s"
    by (simp_all add: put_binding_def set_lifecycle_def)
  have key: "verifier_key (?f r) = verifier_key r" for r by (simp add: verifier_key_def)
  note rows = set_lifecycle_rows [of ?f, OF key]
  have dist: "distinct (map verifier_key (cs_verifiers s))" using assms(1) by (simp add: verifiers_sound_def)
  have stage: "passed_stage ?t = passed_stage s" "declares ?t = declares s" by (simp_all add: fun_eq_iff passed_stage_def declares_def same)
  have only: "q = r0" if "q \<in> set (cs_verifiers s)" "verifier_key q = (?k, ?n)" for q
    using distinct_key_eq [OF dist that(1)] verifier_of_in [OF r0(1)] that(2) by metis
  have backed: "verifier_backed D J ?t r" if "r \<in> set (cs_verifiers ?t)" for r
  proof -
    from that obtain q where q: "q \<in> set (cs_verifiers s)" "r = (if verifier_key q = (?k, ?n) then ?f q else q)"
      unfolding same(1) rows(2) by blast
    have "verifier_backed D J s q" using assms(1) q(1) by (simp add: verifiers_sound_def)
    with only [OF q(1)] q(2) r0(2) show ?thesis by (auto simp: verifier_backed_def stage split: if_splits)
  qed
  have old: "binding_backed ?t d" if d: "d \<in> set (cs_bindings s)" for d
  proof -
    from assms(1) d obtain q where q: "q \<in> set (cs_verifiers s)" "verifier_key q = (bi_verifier d, bi_number d)"
      "ve_lifecycle q = LC_Frozen" "ve_hashes q = bi_hashes d" "declares s (bi_contract d) (bi_revision d) (bi_verifier d) (ve_type q)"
      unfolding verifiers_sound_def binding_backed_def by blast
    have "verifier_key q \<noteq> (?k, ?n)" using only [OF q(1)] q(3) r0(2) by auto
    then have "q \<in> set (cs_verifiers ?t)" unfolding same(1) rows(2) using q(1) by auto
    with q(2-5) show ?thesis unfolding binding_backed_def stage by blast
  qed
  have new: "binding_backed ?t b"
  proof -
    have "?f r0 \<in> set (cs_verifiers ?t)" unfolding same(1) rows(2) using verifier_of_in [OF r0(1)] by auto
    moreover have "declares s (bi_contract b) (bi_revision b) ?k (ve_type r0)"
      using cr find_SomeD [OF q0(1)] q0(2) by (auto simp: declares_def revision_of_def lookup_row_def dest: find_SomeD)
    moreover have "verifier_key (?f r0) = (?k, ?n)" using verifier_of_in [OF r0(1)] by (simp add: verifier_key_def)
    ultimately show ?thesis using r0(3) unfolding binding_backed_def stage by (intro bexI [of _ "?f r0"]) simp_all
  qed
  show ?thesis using dist backed old new rows(1) [of ?k ?n s] by (simp add: verifiers_sound_def same)
qed

lemma staged_sound:
  assumes "verifiers_sound D J s" and "may_stage mf s = Inr ()"
    and "hashes_of (dg_sha256 D) J fs mf source tests fixtures = Inr h"
  shows "verifiers_sound D J (s\<lparr>cs_verifiers := cs_verifiers s @ [staged_row mf h source tests fixtures]\<rparr>)"
proof -
  let ?r = "staged_row mf h source tests fixtures" let ?t = "s\<lparr>cs_verifiers := cs_verifiers s @ [?r]\<rparr>"
  have "verifier_of (mf_id mf) (mf_revision mf) s = None" using assms(2) by (auto simp: may_stage_def split: if_splits)
  then have "verifier_key ?r \<notin> verifier_key ` set (cs_verifiers s)"
    by (simp add: verifier_of_def lookup_row_None verifier_key_def staged_row_def)
  then have dist: "distinct (map verifier_key (cs_verifiers ?t))" using assms(1) by (simp add: verifiers_sound_def)
  have new: "verifier_backed D J ?t ?r" using assms(3) by (auto simp: verifier_backed_def staged_row_def)
  have old: "verifier_backed D J ?t r" if "r \<in> set (cs_verifiers s)" for r
    using assms(1) that by (simp add: verifiers_sound_def verifier_backed_def passed_stage_def)
  have "binding_backed ?t b" if b: "b \<in> set (cs_bindings s)" for b
  proof -
    from assms(1) b obtain r where "r \<in> set (cs_verifiers s)" "verifier_key r = (bi_verifier b, bi_number b)"
      "ve_lifecycle r = LC_Frozen" "ve_hashes r = bi_hashes b" "declares s (bi_contract b) (bi_revision b) (bi_verifier b) (ve_type r)"
      unfolding verifiers_sound_def binding_backed_def by blast
    then show ?thesis unfolding binding_backed_def declares_def by auto
  qed
  with dist new old show ?thesis by (simp add: verifiers_sound_def)
qed

interpretation verifiers: control_law D J "verifiers_sound D J" for D J
  by unfold_locales
    (rule put_binding_sound put_evidence_sound staged_sound verifiers_sound_mono; assumption?;
      auto simp: put_frozen_def put_mark_def put_start_def put_complete_def claim_planned_def)+

section \<open>What a binding promises\<close>

lemma hashes_valid: "hashes_of sha J fs m source tests fixtures = Inr h \<Longrightarrow> validate_hashes h = Inr ()"
  by (auto simp: hashes_of_def bind_sum_Inr)

lemma verify_frozen_iff:
  assumes "verifier_of k n s = Some r" and "ve_lifecycle r = LC_Frozen" and "validate_hashes (ve_hashes r) = Inr ()"
  shows "verify_frozen sha J fs k n s = Inr h \<longleftrightarrow> h = ve_hashes r \<and>
    hashes_of sha J fs (ve_manifest r) (ve_source r) (ve_tests r) (ve_fixtures r) = Inr h"
  using assms by (auto simp: verify_frozen_def bind_sum_Inr construct_def split: if_splits)

text \<open>
  C37. In every reachable state of the control plane a verifier that is bound to a contract revision is a frozen
  revision whose validation, tests and dry run have recorded evidence that passed, and the contract
  declares its id and type; its check before an execution succeeds exactly when manifest, source, tests and
  fixtures have, at that moment, the hashes the binding recorded.
\<close>

theorem bound_verifier_is_proven:
  assumes "control_reachable D J s" and "b \<in> set (cs_bindings s)"
  shows "\<exists>r. verifier_of (bi_verifier b) (bi_number b) s = Some r \<and> ve_lifecycle r = LC_Frozen \<and>
    (\<forall>lc \<in> {LC_Validated, LC_Tested, LC_DryRun}. passed_stage s (bi_verifier b) (bi_number b) lc) \<and>
    declares s (bi_contract b) (bi_revision b) (bi_verifier b) (ve_type r) \<and>
    (\<forall>fs h. verify_frozen (dg_sha256 D) J fs (bi_verifier b) (bi_number b) s = Inr h \<longleftrightarrow> h = bi_hashes b \<and>
      hashes_of (dg_sha256 D) J fs (ve_manifest r) (ve_source r) (ve_tests r) (ve_fixtures r) = Inr h)"
proof -
  have inv: "verifiers_sound D J s"
    using assms(1) verifiers.steps_keep [where s = empty_control]
    unfolding control_reachable_def by (simp add: verifiers_sound_def empty_control_def)
  with assms(2) obtain r where r: "r \<in> set (cs_verifiers s)" "verifier_key r = (bi_verifier b, bi_number b)"
    "ve_lifecycle r = LC_Frozen" "ve_hashes r = bi_hashes b" "declares s (bi_contract b) (bi_revision b) (bi_verifier b) (ve_type r)"
    unfolding verifiers_sound_def binding_backed_def by blast
  have found: "verifier_of (bi_verifier b) (bi_number b) s = Some r"
    using inv find_key_distinct [OF _ r(1), of verifier_key] r(2) by (simp add: verifiers_sound_def verifier_of_def lookup_row_def)
  have backed: "verifier_backed D J s r" using inv r(1) by (simp add: verifiers_sound_def)
  then have "validate_hashes (ve_hashes r) = Inr ()" using hashes_valid unfolding verifier_backed_def by blast
  note check = verify_frozen_iff [OF found r(3) this, unfolded r(4)]
  have "\<forall>lc \<in> {LC_Validated, LC_Tested, LC_DryRun}. passed_stage s (bi_verifier b) (bi_number b) lc"
    using backed r(2,3) by (simp add: verifier_backed_def verifier_key_def)
  with found r(3,5) check show ?thesis by blast
qed

section \<open>Witness\<close>

definition sample_manifest :: manifest where
  "sample_manifest = \<lparr>mf_id = ''unit'', mf_revision = 1, mf_type = ''builtin/command'', mf_runtime = ''python'',
     mf_entrypoint = [], mf_capabilities = \<lparr>ca_hosts = [], ca_read = [], ca_write = [], ca_secrets = []\<rparr>,
     mf_effects = False, mf_container = None\<rparr>"

definition sample_files :: file_system where
  "sample_files p = (if p = ''/v/src'' then Some (FE_Dir [([''a'', ''b.py''], ''x''), ([''a.py''], ''y'')])
     else if p = ''/v/test.py'' then Some (FE_File ''t'') else None)"

definition declared_draft :: task_contract where
  "declared_draft = sample_draft\<lparr>tc_verifiers := [(sample_requirement ''unit'')\<lparr>vq_type := ''builtin/command''\<rparr>]\<rparr>"

definition bound_steps :: "(control_db \<Rightarrow> control_db) list" where
  "bound_steps =
     [\<lambda>s. snd (stage sample_digests ''talk'' declared_draft s),
      \<lambda>s. snd (freeze sample_digests 7 (draft_id_of sample_digests declared_draft) sample_message s),
      \<lambda>s. snd (stage_verifier (dg_sha256 sample_digests) mf_id sample_files sample_manifest ''/v/src'' ''/v/test.py'' None s),
      \<lambda>s. snd (record_evidence ''unit'' 1 LC_Validated [(''passed'', JBool True)] None s),
      \<lambda>s. snd (record_evidence ''unit'' 1 LC_Tested [(''passed'', JBool True)] None s),
      \<lambda>s. snd (record_evidence ''unit'' 1 LC_DryRun [(''passed'', JBool True)] None s),
      \<lambda>s. snd (freeze_verifier ''unit'' 1 ''c'' 1 ''m1'' s)]"

definition bound_store :: control_db where
  "bound_store = fold (\<lambda>f s. f s) bound_steps empty_control"

lemma bound_reachable: "control_reachable sample_digests mf_id bound_store"
proof -
  have "control_reachable sample_digests mf_id empty_control" by (simp add: control_reachable_def control_steps_def)
  then show ?thesis unfolding bound_store_def bound_steps_def
    by (simp, intro stepping [OF _ step_freeze_verifier] stepping [OF _ step_record]
        stepping [OF _ step_stage_verifier] stepping [OF _ step_freeze] stepping [OF _ step_stage])
qed

theorem bound_verifier_is_proven_witness:
  "\<exists>r. verifier_of ''unit'' 1 bound_store = Some r \<and> ve_lifecycle r = LC_Frozen \<and>
     (\<exists>h. verify_frozen (dg_sha256 sample_digests) mf_id sample_files ''unit'' 1 bound_store = Inr h)"
proof -
  have "map bi_verifier (cs_bindings bound_store) = [''unit'']" "map bi_number (cs_bindings bound_store) = [1]" by code_simp+
  then obtain b where b: "b \<in> set (cs_bindings bound_store)" "bi_verifier b = ''unit''" "bi_number b = 1" by auto
  have "case verify_frozen (dg_sha256 sample_digests) mf_id sample_files ''unit'' 1 bound_store of Inr _ \<Rightarrow> True | _ \<Rightarrow> False"
    by code_simp
  then obtain h where "verify_frozen (dg_sha256 sample_digests) mf_id sample_files ''unit'' 1 bound_store = Inr h"
    by (auto split: sum.splits)
  with bound_verifier_is_proven [OF bound_reachable b(1), unfolded b(2,3)] show ?thesis by blast
qed

end
