(* ===== verification/Artifact_Store.thy ===== *)
theory Artifact_Store
  imports Protocol "HOL-Library.Sublist"
begin

text \<open>
  \<open>runtime/artifacts.py\<close> and \<open>runtime/frozen.py\<close>: files addressed by the hash of their content, written by
  many threads and processes that can stop at any point, and hash locks of control files.
\<close>

section \<open>Paths\<close>

text \<open>An absolute path is the list of its parts; the store holds no symbolic links.\<close>

type_synonym path = "string list"

fun split_on :: "char \<Rightarrow> string \<Rightarrow> string list" where
  "split_on c [] = [[]]"
| "split_on c (x # s) = (if x = c then [] # split_on c s
     else case split_on c s of [] \<Rightarrow> [[x]] | p # ps \<Rightarrow> (x # p) # ps)"

text \<open>\<open>Path(uri)\<close> drops empty parts and dots; \<open>resolve\<close> follows the double dots, and nothing is above the root.\<close>

definition path_parts :: "string \<Rightarrow> path" where
  "path_parts uri = filter (\<lambda>p. p \<noteq> [] \<and> p \<noteq> ''.'') (split_on (CHR ''/'') uri)"

definition is_absolute :: "string \<Rightarrow> bool" where
  "is_absolute uri \<longleftrightarrow> (case uri of c # _ \<Rightarrow> c = CHR ''/'' | [] \<Rightarrow> False)"

definition resolve_parts :: "path \<Rightarrow> path \<Rightarrow> path" where
  "resolve_parts base ps = fold (\<lambda>p acc. if p = ''..'' then butlast acc else acc @ [p]) ps base"

definition resolve_uri :: "path \<Rightarrow> string \<Rightarrow> path" where
  "resolve_uri base uri = resolve_parts (if is_absolute uri then [] else base) (path_parts uri)"

section \<open>ArtifactStore\<close>

text \<open>Files with their content and modification time.\<close>

type_synonym files = "path \<Rightarrow> (string \<times> int) option"

definition relative_path :: "string \<Rightarrow> path" where
  "relative_path digest = [''sha256'', take 2 digest, digest]"

definition artifact_uri :: "string \<Rightarrow> string" where
  "artifact_uri digest = join_with ''/'' (relative_path digest)"

definition target_path :: "path \<Rightarrow> string \<Rightarrow> path" where
  "target_path base digest = base @ relative_path digest"

text \<open>\<open>target.with_name(f".tmp-{uuid.uuid4().hex}")\<close>\<close>

definition temp_path :: "path \<Rightarrow> string \<Rightarrow> string \<Rightarrow> path" where
  "temp_path base digest uuid = base @ [''sha256'', take 2 digest, ''.tmp-'' @ uuid]"

definition artifact_of :: "string \<Rightarrow> string \<Rightarrow> string option \<Rightarrow> artifact_kind \<Rightarrow> int \<Rightarrow> artifact" where
  "artifact_of digest content media kind mtime =
     \<lparr>ar_id = ''sha256:'' @ digest, ar_kind = kind, ar_uri = artifact_uri digest, ar_sha = Some digest,
      ar_media = media, ar_size = Some (int (length content)), ar_created = mtime\<rparr>"

definition read_bytes :: "path \<Rightarrow> string \<Rightarrow> files \<Rightarrow> py_error + string" where
  "read_bytes base uri fs = (let p = resolve_uri base uri in
     if p \<noteq> base \<and> \<not> strict_prefix base p then Inl (ValueError ''artifact URI escapes the store'')
     else case fs p of None \<Rightarrow> Inl (OSErr ''no such file'') | Some (content, _) \<Rightarrow> Inr content)"

text \<open>
  \<open>put_bytes\<close> goes through the states of a job: the check for the target, the temporary file that grows while it is
  written, the rename, and the reading of the modification time for the result.
\<close>

datatype phase = Ph_Check | Ph_Write nat | Ph_Stat

record job =
  jb_content :: string
  jb_media :: "string option"
  jb_kind :: artifact_kind
  jb_uuid :: string
  jb_phase :: phase

definition job_target :: "(string \<Rightarrow> string) \<Rightarrow> path \<Rightarrow> job \<Rightarrow> path" where
  "job_target sha base j = target_path base (sha (jb_content j))"

definition job_temp :: "(string \<Rightarrow> string) \<Rightarrow> path \<Rightarrow> job \<Rightarrow> path" where
  "job_temp sha base j = temp_path base (sha (jb_content j)) (jb_uuid j)"

text \<open>\<open>target.exists()\<close> and the comparison with what is there.\<close>

definition check_target :: "(string \<Rightarrow> string) \<Rightarrow> path \<Rightarrow> files \<Rightarrow> job \<Rightarrow> py_error + bool" where
  "check_target sha base fs j = (case fs (job_target sha base j) of
     None \<Rightarrow> Inr False
   | Some (content, _) \<Rightarrow> if content \<noteq> jb_content j then Inl (RuntimeErr ''artifact digest collision'') else Inr True)"

definition write_temp :: "(string \<Rightarrow> string) \<Rightarrow> path \<Rightarrow> job \<Rightarrow> nat \<Rightarrow> int \<Rightarrow> files \<Rightarrow> files" where
  "write_temp sha base j n now fs = fs(job_temp sha base j \<mapsto> (take n (jb_content j), now))"

definition rename_temp :: "(string \<Rightarrow> string) \<Rightarrow> path \<Rightarrow> job \<Rightarrow> files \<Rightarrow> files" where
  "rename_temp sha base j fs = (fs(job_target sha base j := fs (job_temp sha base j)))(job_temp sha base j := None)"

definition job_result :: "(string \<Rightarrow> string) \<Rightarrow> path \<Rightarrow> files \<Rightarrow> job \<Rightarrow> artifact option" where
  "job_result sha base fs j = map_option (\<lambda>(_, mtime).
     artifact_of (sha (jb_content j)) (jb_content j) (jb_media j) (jb_kind j) mtime) (fs (job_target sha base j))"

text \<open>One call that nothing interrupts.\<close>

definition put_bytes :: "(string \<Rightarrow> string) \<Rightarrow> path \<Rightarrow> string \<Rightarrow> int \<Rightarrow> string \<Rightarrow> string option \<Rightarrow> artifact_kind \<Rightarrow>
    files \<Rightarrow> (py_error + artifact) \<times> files" where
  "put_bytes sha base uuid now content media kind fs =
     (let j = \<lparr>jb_content = content, jb_media = media, jb_kind = kind, jb_uuid = uuid, jb_phase = Ph_Check\<rparr> in
      case check_target sha base fs j of
        Inl e \<Rightarrow> (Inl e, fs)
      | Inr present \<Rightarrow>
          if \<not> present \<and> fs (job_temp sha base j) \<noteq> None then (Inl (OSErr ''file exists''), fs)
          else let fs' = if present then fs else rename_temp sha base j (write_temp sha base j (length content) now fs) in
          (case job_result sha base fs' j of
             None \<Rightarrow> (Inl (OSErr ''no such file''), fs')
           | Some a \<Rightarrow> (Inr a, fs')))"

section \<open>Any interleaving, any crash\<close>

text \<open>
  The shared state: the files, the calls in flight, and what calls have returned (the content and the artifact).
  A write can stop after any number of bytes; a crash ends all calls in flight and leaves the files.
\<close>

record astore =
  as_files :: files
  as_jobs :: "job list"
  as_returned :: "(string \<times> artifact) list"

inductive artifact_step :: "(string \<Rightarrow> string) \<Rightarrow> path \<Rightarrow> astore \<Rightarrow> astore \<Rightarrow> bool" for sha base where
  put_call: "jb_phase j = Ph_Check \<Longrightarrow> artifact_step sha base s (s\<lparr>as_jobs := j # as_jobs s\<rparr>)"
| put_found: "as_jobs s = us @ j # vs \<Longrightarrow> jb_phase j = Ph_Check \<Longrightarrow> check_target sha base (as_files s) j = Inr True \<Longrightarrow>
    artifact_step sha base s (s\<lparr>as_jobs := us @ j\<lparr>jb_phase := Ph_Stat\<rparr> # vs\<rparr>)"
| put_collision: "as_jobs s = us @ j # vs \<Longrightarrow> jb_phase j = Ph_Check \<Longrightarrow> check_target sha base (as_files s) j = Inl e \<Longrightarrow>
    artifact_step sha base s (s\<lparr>as_jobs := us @ vs\<rparr>)"
| put_create: "as_jobs s = us @ j # vs \<Longrightarrow> jb_phase j = Ph_Check \<Longrightarrow> check_target sha base (as_files s) j = Inr False \<Longrightarrow>
    as_files s (job_temp sha base j) = None \<Longrightarrow>
    artifact_step sha base s (s\<lparr>as_files := write_temp sha base j 0 now (as_files s),
      as_jobs := us @ j\<lparr>jb_phase := Ph_Write 0\<rparr> # vs\<rparr>)"
| put_write: "as_jobs s = us @ j # vs \<Longrightarrow> jb_phase j = Ph_Write n \<Longrightarrow> n \<le> m \<Longrightarrow> m \<le> length (jb_content j) \<Longrightarrow>
    artifact_step sha base s (s\<lparr>as_files := write_temp sha base j m now (as_files s),
      as_jobs := us @ j\<lparr>jb_phase := Ph_Write m\<rparr> # vs\<rparr>)"
| put_rename: "as_jobs s = us @ j # vs \<Longrightarrow> jb_phase j = Ph_Write (length (jb_content j)) \<Longrightarrow>
    artifact_step sha base s (s\<lparr>as_files := rename_temp sha base j (as_files s),
      as_jobs := us @ j\<lparr>jb_phase := Ph_Stat\<rparr> # vs\<rparr>)"
| put_give: "as_jobs s = us @ j # vs \<Longrightarrow> jb_phase j = Ph_Stat \<Longrightarrow> job_result sha base (as_files s) j = Some a \<Longrightarrow>
    artifact_step sha base s (s\<lparr>as_jobs := us @ vs, as_returned := (jb_content j, a) # as_returned s\<rparr>)"
| put_fail: "as_jobs s = us @ j # vs \<Longrightarrow> artifact_step sha base s (s\<lparr>as_jobs := us @ vs\<rparr>)"
| put_crash: "artifact_step sha base s (s\<lparr>as_jobs := []\<rparr>)"

section \<open>The invariant\<close>

definition writing :: "job \<Rightarrow> bool" where
  "writing j \<longleftrightarrow> (case jb_phase j of Ph_Write _ \<Rightarrow> True | _ \<Rightarrow> False)"

definition hex_sha :: "(string \<Rightarrow> string) \<Rightarrow> bool" where
  "hex_sha sha \<longleftrightarrow> (\<forall>x. sha256_pattern (sha x))"

definition addressed :: "(string \<Rightarrow> string) \<Rightarrow> path \<Rightarrow> files \<Rightarrow> bool" where
  "addressed sha base fs \<longleftrightarrow> (\<forall>d content mtime. sha256_pattern d \<longrightarrow>
     fs (target_path base d) = Some (content, mtime) \<longrightarrow> sha content = d)"

definition job_ok :: "(string \<Rightarrow> string) \<Rightarrow> path \<Rightarrow> files \<Rightarrow> job \<Rightarrow> bool" where
  "job_ok sha base fs j \<longleftrightarrow> (case jb_phase j of
     Ph_Check \<Rightarrow> True
   | Ph_Write n \<Rightarrow> \<exists>mtime. fs (job_temp sha base j) = Some (take n (jb_content j), mtime)
   | Ph_Stat \<Rightarrow> fs (job_target sha base j) \<noteq> None)"

definition returned_ok :: "(string \<Rightarrow> string) \<Rightarrow> path \<Rightarrow> files \<Rightarrow> string \<times> artifact \<Rightarrow> bool" where
  "returned_ok sha base fs ca \<longleftrightarrow> fs (target_path base (sha (fst ca))) \<noteq> None \<and>
     (\<exists>media kind mtime. snd ca = artifact_of (sha (fst ca)) (fst ca) media kind mtime)"

definition store_ok :: "(string \<Rightarrow> string) \<Rightarrow> path \<Rightarrow> astore \<Rightarrow> bool" where
  "store_ok sha base s \<longleftrightarrow> addressed sha base (as_files s) \<and>
     (\<forall>j \<in> set (as_jobs s). job_ok sha base (as_files s) j) \<and>
     distinct (map (job_temp sha base) (filter writing (as_jobs s))) \<and>
     (\<forall>ca \<in> set (as_returned s). returned_ok sha base (as_files s) ca)"

lemma digest_not_temp: "sha256_pattern d \<Longrightarrow> d \<noteq> ''.tmp-'' @ u"
proof
  assume "sha256_pattern d" "d = ''.tmp-'' @ u"
  moreover have "\<not> hex_char (CHR ''.'')" by code_simp
  ultimately show False by (simp add: sha256_pattern_def)
qed

lemma target_neq_temp:
  assumes "sha256_pattern d"
  shows "target_path base d \<noteq> temp_path base e u" and "temp_path base e u \<noteq> target_path base d"
  using digest_not_temp [OF assms, of u] by (auto simp: target_path_def temp_path_def relative_path_def)

lemma target_inj [simp]: "target_path base d = target_path base e \<longleftrightarrow> d = e"
  by (auto simp: target_path_def relative_path_def)

text \<open>Writing a temporary file touches no target and no other temporary file.\<close>

lemma write_temp_frame:
  assumes "hex_sha sha"
  shows "sha256_pattern d \<Longrightarrow> write_temp sha base j n now fs (target_path base d) = fs (target_path base d)"
    and "job_temp sha base i \<noteq> job_temp sha base j \<Longrightarrow> write_temp sha base j n now fs (job_temp sha base i) = fs (job_temp sha base i)"
  using target_neq_temp by (auto simp: write_temp_def job_temp_def)

lemma rename_temp_frame:
  assumes "hex_sha sha" and "fs (job_temp sha base j) = Some (jb_content j, mtime)"
  shows "sha256_pattern d \<Longrightarrow> rename_temp sha base j fs (target_path base d) =
      (if d = sha (jb_content j) then Some (jb_content j, mtime) else fs (target_path base d))"
    and "job_temp sha base i \<noteq> job_temp sha base j \<Longrightarrow> rename_temp sha base j fs (job_temp sha base i) = fs (job_temp sha base i)"
proof -
  have "sha256_pattern (sha (jb_content j))" using assms(1) by (simp add: hex_sha_def)
  note apart = target_neq_temp [OF this]
  show "sha256_pattern d \<Longrightarrow> rename_temp sha base j fs (target_path base d) =
      (if d = sha (jb_content j) then Some (jb_content j, mtime) else fs (target_path base d))"
    using assms(2) target_neq_temp by (auto simp: rename_temp_def job_target_def job_temp_def)
  show "job_temp sha base i \<noteq> job_temp sha base j \<Longrightarrow> rename_temp sha base j fs (job_temp sha base i) = fs (job_temp sha base i)"
    using apart by (auto simp: rename_temp_def job_target_def job_temp_def)
qed

text \<open>Files that keep their targets keep what was returned and the jobs past their rename.\<close>

lemma returned_mono:
  assumes "\<And>d. sha256_pattern d \<Longrightarrow> fs (target_path base d) \<noteq> None \<Longrightarrow> fs' (target_path base d) \<noteq> None" and "hex_sha sha"
  shows "returned_ok sha base fs ca \<Longrightarrow> returned_ok sha base fs' ca"
  using assms by (auto simp: returned_ok_def hex_sha_def)

lemma job_mono:
  assumes "\<And>d. sha256_pattern d \<Longrightarrow> fs (target_path base d) \<noteq> None \<Longrightarrow> fs' (target_path base d) \<noteq> None" and "hex_sha sha"
    and "writing i \<Longrightarrow> fs' (job_temp sha base i) = fs (job_temp sha base i)"
  shows "job_ok sha base fs i \<Longrightarrow> job_ok sha base fs' i"
  using assms by (auto simp: job_ok_def writing_def hex_sha_def job_target_def split: phase.splits)

lemma store_ok_replace:
  assumes ok: "store_ok sha base s" and jobs: "as_jobs s = us @ j # vs" and "hex_sha sha"
    and files: "addressed sha base fs'"
      "\<And>d. sha256_pattern d \<Longrightarrow> as_files s (target_path base d) \<noteq> None \<Longrightarrow> fs' (target_path base d) \<noteq> None"
      "\<And>i. i \<in> set us \<union> set vs \<Longrightarrow> writing i \<Longrightarrow> fs' (job_temp sha base i) = as_files s (job_temp sha base i)"
    and new: "\<And>i. i \<in> set js \<Longrightarrow> job_ok sha base fs' i" "length js \<le> 1"
      "\<And>i k. i \<in> set js \<Longrightarrow> writing i \<Longrightarrow> k \<in> set us \<union> set vs \<Longrightarrow> writing k \<Longrightarrow> job_temp sha base i \<noteq> job_temp sha base k"
  shows "store_ok sha base (s\<lparr>as_files := fs', as_jobs := us @ js @ vs\<rparr>)"
proof -
  have "job_ok sha base fs' i" if "i \<in> set us \<union> set vs" for i
    by (rule job_mono [where fs = "as_files s" and fs' = fs' and base = base, OF files(2) assms(3)]) (use files(3) that ok jobs in \<open>auto simp: store_ok_def\<close>)
  moreover have "returned_ok sha base fs' ca" if "ca \<in> set (as_returned s)" for ca
    by (rule returned_mono [where fs = "as_files s" and fs' = fs' and base = base, OF files(2) assms(3)]) (use that ok in \<open>auto simp: store_ok_def\<close>)
  moreover have "distinct (map (job_temp sha base) (filter writing (us @ js @ vs)))"
  proof -
    have old: "distinct (map (job_temp sha base) (filter writing us @ filter writing vs))"
      using ok jobs by (auto simp: store_ok_def split: if_splits)
    show ?thesis
    proof (cases js)
      case (Cons i rest)
      with new(2) have js: "js = [i]" by (cases rest) auto
      with old new(3) show ?thesis by (auto simp: image_iff)
    qed (use old in simp)
  qed
  ultimately show ?thesis using files(1) new(1) by (auto simp: store_ok_def)
qed

lemma store_ok_put:
  assumes "store_ok sha base s" and "as_jobs s = us @ j # vs" and "hex_sha sha" and "addressed sha base fs'"
    and "\<And>d. sha256_pattern d \<Longrightarrow> as_files s (target_path base d) \<noteq> None \<Longrightarrow> fs' (target_path base d) \<noteq> None"
    and "\<And>i. i \<in> set us \<union> set vs \<Longrightarrow> writing i \<Longrightarrow> fs' (job_temp sha base i) = as_files s (job_temp sha base i)"
    and "job_ok sha base fs' i"
    and "\<And>k. writing i \<Longrightarrow> k \<in> set us \<union> set vs \<Longrightarrow> writing k \<Longrightarrow> job_temp sha base i \<noteq> job_temp sha base k"
  shows "store_ok sha base (s\<lparr>as_files := fs', as_jobs := us @ i # vs\<rparr>)"
  using store_ok_replace [OF assms(1-6), where js = "[i]"] assms(7,8) by force

lemma store_ok_drop:
  assumes "store_ok sha base s" and "as_jobs s = us @ j # vs" and "hex_sha sha"
  shows "store_ok sha base (s\<lparr>as_jobs := us @ vs\<rparr>)"
  using store_ok_replace [OF assms, of "as_files s" "[]"] assms(1) by (simp add: store_ok_def [of sha base s])

lemma write_temp_ok:
  assumes ok: "store_ok sha base s" and jobs: "as_jobs s = us @ j # vs" and hex: "hex_sha sha"
    and apart: "\<And>i. i \<in> set us \<union> set vs \<Longrightarrow> writing i \<Longrightarrow> job_temp sha base i \<noteq> job_temp sha base j"
  shows "store_ok sha base (s\<lparr>as_files := write_temp sha base j m now (as_files s),
    as_jobs := us @ j\<lparr>jb_phase := Ph_Write m\<rparr> # vs\<rparr>)"
proof -
  let ?fs = "write_temp sha base j m now (as_files s)" and ?j = "j\<lparr>jb_phase := Ph_Write m\<rparr>"
  have addr: "addressed sha base ?fs" using ok write_temp_frame(1) [OF hex] by (simp add: store_ok_def addressed_def)
  have targets: "?fs (target_path base d) \<noteq> None" if "sha256_pattern d" "as_files s (target_path base d) \<noteq> None" for d
    using that write_temp_frame(1) [OF hex] by simp
  have temps: "?fs (job_temp sha base i) = as_files s (job_temp sha base i)" if "i \<in> set us \<union> set vs" "writing i" for i
    using write_temp_frame(2) [OF hex apart [OF that]] .
  have mine: "job_ok sha base ?fs ?j" by (simp add: job_ok_def write_temp_def job_temp_def)
  have "job_temp sha base ?j \<noteq> job_temp sha base k" if "writing ?j" "k \<in> set us \<union> set vs" "writing k" for k
    using apart [OF that(2,3)] by (simp add: job_temp_def)
  from store_ok_put [OF ok jobs hex addr targets temps mine this] show ?thesis .
qed

lemma writing_temp:
  assumes "store_ok sha base s" and "i \<in> set (as_jobs s)" and "writing i"
  shows "as_files s (job_temp sha base i) \<noteq> None"
proof -
  have "job_ok sha base (as_files s) i" using assms(1,2) by (simp add: store_ok_def)
  with assms(3) show ?thesis by (auto simp: job_ok_def writing_def split: phase.splits)
qed

lemma others_apart:
  assumes "store_ok sha base s" and "as_jobs s = us @ j # vs" and "writing j" and "i \<in> set us \<union> set vs" and "writing i"
  shows "job_temp sha base i \<noteq> job_temp sha base j"
proof -
  have "distinct (map (job_temp sha base) (filter writing us @ j # filter writing vs))"
    using assms(1-3) by (simp add: store_ok_def)
  then have j: "job_temp sha base j \<notin> job_temp sha base ` set (filter writing us)"
    "job_temp sha base j \<notin> job_temp sha base ` set (filter writing vs)" by simp_all
  have "i \<in> set (filter writing us) \<or> i \<in> set (filter writing vs)" using assms(4,5) by simp
  then have "job_temp sha base i \<in> job_temp sha base ` set (filter writing us) \<or>
      job_temp sha base i \<in> job_temp sha base ` set (filter writing vs)" by (blast intro: imageI)
  with j show ?thesis by metis
qed

lemma store_ok_step:
  assumes step: "artifact_step sha base s t" and hex: "hex_sha sha" and ok: "store_ok sha base s"
  shows "store_ok sha base t"
  using step
proof cases
  case (put_call j)
  then show ?thesis using ok by (auto simp: store_ok_def job_ok_def writing_def)
next
  case (put_found us j vs)
  have "job_ok sha base (as_files s) (j\<lparr>jb_phase := Ph_Stat\<rparr>)"
    using put_found(4) by (auto simp: job_ok_def check_target_def job_target_def split: option.splits if_splits)
  then have "store_ok sha base (s\<lparr>as_files := as_files s, as_jobs := us @ j\<lparr>jb_phase := Ph_Stat\<rparr> # vs\<rparr>)"
    using ok by (intro store_ok_put [OF ok put_found(2) hex]) (simp_all add: store_ok_def writing_def)
  then show ?thesis using put_found(1) by simp
next
  case (put_collision us j vs e)
  then show ?thesis using store_ok_drop [OF ok put_collision(2) hex] by simp
next
  case (put_create us j vs now)
  have "job_temp sha base i \<noteq> job_temp sha base j" if "i \<in> set us \<union> set vs" "writing i" for i
  proof -
    have "i \<in> set (as_jobs s)" using that(1) put_create(2) by auto
    with writing_temp [OF ok this that(2)] put_create(5) show ?thesis by metis
  qed
  from write_temp_ok [OF ok put_create(2) hex this] show ?thesis using put_create(1) by simp
next
  case (put_write us j vs n m now)
  have "job_temp sha base i \<noteq> job_temp sha base j" if "i \<in> set us \<union> set vs" "writing i" for i
    using others_apart [OF ok put_write(2) _ that] put_write(3) by (simp add: writing_def)
  from write_temp_ok [OF ok put_write(2) hex this] show ?thesis using put_write(1) by simp
next
  case (put_rename us j vs)
  let ?fs = "rename_temp sha base j (as_files s)" and ?j = "j\<lparr>jb_phase := Ph_Stat\<rparr>"
  obtain mtime where temp: "as_files s (job_temp sha base j) = Some (jb_content j, mtime)"
    using ok put_rename(2,3) by (auto simp: store_ok_def job_ok_def)
  note frame = rename_temp_frame [where fs = "as_files s", OF hex temp]
  have apart: "job_temp sha base i \<noteq> job_temp sha base j" if "i \<in> set us \<union> set vs" "writing i" for i
    using others_apart [OF ok put_rename(2) _ that] put_rename(3) by (simp add: writing_def)
  have sha: "sha256_pattern (sha (jb_content j))" using hex by (simp add: hex_sha_def)
  have "addressed sha base ?fs" using ok frame(1) by (auto simp: store_ok_def addressed_def split: if_splits)
  moreover have "job_ok sha base ?fs ?j" using frame(1) [OF sha] by (simp add: job_ok_def job_target_def)
  moreover have "?fs (target_path base d) \<noteq> None" if "sha256_pattern d" "as_files s (target_path base d) \<noteq> None" for d
    using that frame(1) by simp
  moreover have "?fs (job_temp sha base i) = as_files s (job_temp sha base i)" if "i \<in> set us \<union> set vs" "writing i" for i
    using frame(2) [OF apart [OF that]] .
  ultimately have "store_ok sha base (s\<lparr>as_files := ?fs, as_jobs := us @ ?j # vs\<rparr>)"
    by (intro store_ok_put [OF ok put_rename(2) hex]) (simp_all add: writing_def)
  then show ?thesis using put_rename(1) by simp
next
  case (put_give us j vs a)
  have "returned_ok sha base (as_files s) (jb_content j, a)"
    using put_give(4) by (auto simp: job_result_def returned_ok_def job_target_def)
  then show ?thesis using store_ok_drop [OF ok put_give(2) hex] put_give(1) by (simp add: store_ok_def)
next
  case (put_fail us j vs)
  then show ?thesis using store_ok_drop [OF ok put_fail(2) hex] by simp
next
  case put_crash
  then show ?thesis using ok by (simp add: store_ok_def)
qed

section \<open>Reading back\<close>

lemma split_on_plain: "c \<notin> set a \<Longrightarrow> split_on c a = [a]"
  by (induction a) auto

lemma split_on_append: "c \<notin> set a \<Longrightarrow> split_on c (a @ c # s) = a # split_on c s"
  by (induction a) auto

definition plain_part :: "string \<Rightarrow> bool" where
  "plain_part p \<longleftrightarrow> p \<noteq> [] \<and> CHR ''/'' \<notin> set p \<and> p \<noteq> ''.'' \<and> p \<noteq> ''..''"

lemma hex_part:
  assumes "p \<noteq> []" and "list_all hex_char p"
  shows "plain_part p"
proof -
  have "\<not> hex_char (CHR ''/'')" "\<not> hex_char (CHR ''.'')" by code_simp+
  with assms show ?thesis by (auto simp: plain_part_def list_all_iff)
qed

lemma digest_parts:
  assumes "sha256_pattern d"
  shows "plain_part d" and "plain_part (take 2 d)"
proof -
  have d: "length d = 64" "list_all hex_char d" using assms by (auto simp: sha256_pattern_def)
  then have "d \<noteq> []" "take 2 d \<noteq> []" by auto
  moreover have "list_all hex_char (take 2 d)" using d(2) by (auto simp: list_all_iff dest: in_set_takeD)
  ultimately show "plain_part d" "plain_part (take 2 d)" using hex_part d(2) by blast+
qed

lemma resolve_plain: "list_all plain_part ps \<Longrightarrow> resolve_parts base ps = base @ ps"
  by (induction ps arbitrary: base) (auto simp: resolve_parts_def plain_part_def)

lemma resolve_artifact:
  assumes "sha256_pattern d"
  shows "resolve_uri base (artifact_uri d) = target_path base d"
proof -
  note parts = digest_parts [OF assms]
  have uri: "artifact_uri d = ''sha256'' @ CHR ''/'' # take 2 d @ CHR ''/'' # d"
    by (simp add: artifact_uri_def relative_path_def)
  have "split_on (CHR ''/'') (artifact_uri d) = [''sha256'', take 2 d, d]"
    unfolding uri using parts by (subst split_on_append, simp, subst split_on_append)
      (simp_all add: plain_part_def split_on_plain)
  then have "path_parts (artifact_uri d) = [''sha256'', take 2 d, d]"
    using parts by (simp add: path_parts_def plain_part_def)
  moreover have "\<not> is_absolute (artifact_uri d)" by (simp add: uri is_absolute_def)
  moreover have "list_all plain_part [''sha256'', take 2 d, d]" using parts by (simp add: plain_part_def)
  ultimately show ?thesis
    using resolve_plain [of "[''sha256'', take 2 d, d]" base] by (simp add: resolve_uri_def target_path_def relative_path_def)
qed

definition empty_astore :: astore where
  "empty_astore = \<lparr>as_files = \<lambda>_. None, as_jobs = [], as_returned = []\<rparr>"

definition artifact_steps :: "(string \<Rightarrow> string) \<Rightarrow> path \<Rightarrow> astore \<Rightarrow> astore \<Rightarrow> bool" where
  "artifact_steps sha base = (artifact_step sha base)\<^sup>*\<^sup>*"

lemma returned_stay: "artifact_step sha base s t \<Longrightarrow> set (as_returned s) \<subseteq> set (as_returned t)"
  by (induction rule: artifact_step.induct) auto

lemma steps_ok:
  assumes "artifact_steps sha base s t" and "hex_sha sha" and "store_ok sha base s"
  shows "store_ok sha base t \<and> set (as_returned s) \<subseteq> set (as_returned t)"
  using assms(1) unfolding artifact_steps_def
  by (induction rule: rtranclp_induct) (use assms store_ok_step returned_stay in \<open>auto, blast\<close>)

text \<open>
  C38. Whatever calls of put_bytes run at the same time and wherever the process is stopped, no file of the store
  is ever torn: what stands under a digest has this digest. An artifact that a call returned passes its
  validator, and reading its uri gives back exactly the bytes that were put, at any later time, as long as no other
  content has the same SHA-256.
\<close>

theorem artifacts_survive:
  assumes "artifact_steps sha base empty_astore s" and "hex_sha sha" and "(content, a) \<in> set (as_returned s)"
    and "artifact_steps sha base s t" and "\<forall>x. sha x = sha content \<longrightarrow> x = content"
  shows "read_bytes base (ar_uri a) (as_files t) = Inr content \<and> ar_sha a = Some (sha content) \<and>
    ar_size a = Some (int (length content)) \<and> validate_artifact a = Inr () \<and>
    (\<forall>d x mtime. sha256_pattern d \<and> as_files t (target_path base d) = Some (x, mtime) \<longrightarrow> sha x = d)"
proof -
  have "store_ok sha base empty_astore" by (simp add: store_ok_def empty_astore_def addressed_def)
  from steps_ok [OF assms(1,2) this] steps_ok [OF assms(4,2)] have ok: "store_ok sha base t"
    and "set (as_returned s) \<subseteq> set (as_returned t)" by blast+
  with assms(3) have "returned_ok sha base (as_files t) (content, a)" by (auto simp: store_ok_def)
  then obtain x mtime media kind m where f: "as_files t (target_path base (sha content)) = Some (x, mtime)"
    and a: "a = artifact_of (sha content) content media kind m" by (auto simp: returned_ok_def)
  have d: "sha256_pattern (sha content)" using assms(2) by (simp add: hex_sha_def)
  have addr: "addressed sha base (as_files t)" using ok by (simp add: store_ok_def)
  with d f assms(5) have "x = content" unfolding addressed_def by blast
  moreover have "strict_prefix base (target_path base (sha content))" by (auto simp: target_path_def relative_path_def strict_prefix_def)
  ultimately have "read_bytes base (ar_uri a) (as_files t) = Inr content"
    using f by (simp add: a artifact_of_def read_bytes_def resolve_artifact [OF d])
  moreover have "validate_artifact a = Inr ()"
    using d by (simp add: a artifact_of_def validate_artifact_def artifact_uri_def relative_path_def)
  ultimately show ?thesis using addr by (simp add: a artifact_of_def addressed_def)
qed

definition demo_sha :: "string \<Rightarrow> string" where
  "demo_sha x = replicate 64 (if x = ''ok'' then CHR ''a'' else CHR ''b'')"

definition demo_job :: "phase \<Rightarrow> job" where
  "demo_job p = \<lparr>jb_content = ''ok'', jb_media = None, jb_kind = AK_Evidence, jb_uuid = ''7'', jb_phase = p\<rparr>"

lemma demo_sha: "hex_sha demo_sha" "\<forall>x. demo_sha x = demo_sha ''ok'' \<longrightarrow> x = ''ok''"
proof -
  have "sha256_pattern (replicate 64 (CHR ''a''))" "sha256_pattern (replicate 64 (CHR ''b''))" by code_simp+
  then show "hex_sha demo_sha" by (simp add: hex_sha_def demo_sha_def)
  show "\<forall>x. demo_sha x = demo_sha ''ok'' \<longrightarrow> x = ''ok''" by (simp add: demo_sha_def)
qed

lemma demo_run:
  obtains s a where "artifact_steps demo_sha [] empty_astore s" and "(''ok'', a) \<in> set (as_returned s)"
proof -
  let ?step = "artifact_step demo_sha []"
  define s1 where "s1 = empty_astore\<lparr>as_jobs := [demo_job Ph_Check]\<rparr>"
  define s2 where "s2 = s1\<lparr>as_files := write_temp demo_sha [] (demo_job Ph_Check) 0 5 (as_files s1), as_jobs := [demo_job (Ph_Write 0)]\<rparr>"
  define s3 where "s3 = s2\<lparr>as_files := write_temp demo_sha [] (demo_job (Ph_Write 0)) 2 5 (as_files s2), as_jobs := [demo_job (Ph_Write 2)]\<rparr>"
  define s4 where "s4 = s3\<lparr>as_files := rename_temp demo_sha [] (demo_job (Ph_Write 2)) (as_files s3), as_jobs := [demo_job Ph_Stat]\<rparr>"
  have 1: "?step empty_astore s1"
    using put_call [of "demo_job Ph_Check" demo_sha "[]" empty_astore] by (simp add: s1_def demo_job_def empty_astore_def)
  have 2: "?step s1 s2"
    using put_create [of s1 "[]" "demo_job Ph_Check" "[]" demo_sha "[]" 5]
    by (simp add: s1_def s2_def demo_job_def empty_astore_def check_target_def)
  have 3: "?step s2 s3"
    using put_write [of s2 "[]" "demo_job (Ph_Write 0)" "[]" 0 2 demo_sha "[]" 5] by (simp add: s2_def s3_def demo_job_def)
  have 4: "?step s3 s4"
    using put_rename [of s3 "[]" "demo_job (Ph_Write 2)" "[]" demo_sha "[]"] by (simp add: s3_def s4_def demo_job_def)
  have "replicate 64 (CHR ''a'') \<noteq> ''.tmp-7''" by code_simp
  then have "job_result demo_sha [] (as_files s4) (demo_job Ph_Stat) \<noteq> None"
    by (simp add: s4_def s3_def s2_def rename_temp_def write_temp_def job_result_def job_temp_def job_target_def demo_job_def
        target_path_def temp_path_def relative_path_def demo_sha_def)
  then obtain a where a: "job_result demo_sha [] (as_files s4) (demo_job Ph_Stat) = Some a" by blast
  define s5 where "s5 = s4\<lparr>as_jobs := [], as_returned := (''ok'', a) # as_returned s4\<rparr>"
  have 5: "?step s4 s5"
    using a put_give [of s4 "[]" "demo_job Ph_Stat" "[]" demo_sha "[]" a] by (simp add: s5_def s4_def demo_job_def)
  have "artifact_steps demo_sha [] empty_astore s5"
    unfolding artifact_steps_def using 1 2 3 4 5 by (meson rtranclp.rtrancl_into_rtrancl rtranclp.rtrancl_refl)
  moreover have "(''ok'', a) \<in> set (as_returned s5)" by (simp add: s5_def)
  ultimately show ?thesis using that by blast
qed

theorem artifacts_survive_witness:
  "\<exists>s t a. artifact_step demo_sha [] s t \<and> as_jobs t = [] \<and> (''ok'', a) \<in> set (as_returned s) \<and>
     read_bytes [] (ar_uri a) (as_files t) = Inr ''ok''"
proof -
  obtain s a where s: "artifact_steps demo_sha [] empty_astore s" "(''ok'', a) \<in> set (as_returned s)" by (rule demo_run)
  have crash: "artifact_step demo_sha [] s (s\<lparr>as_jobs := []\<rparr>)" by (rule put_crash)
  then have "artifact_steps demo_sha [] s (s\<lparr>as_jobs := []\<rparr>)" unfolding artifact_steps_def by blast
  from artifacts_survive [OF s(1) demo_sha(1) s(2) this demo_sha(2)]
  have "read_bytes [] (ar_uri a) (as_files (s\<lparr>as_jobs := []\<rparr>)) = Inr ''ok''" by blast
  with crash s(2) show ?thesis by (intro exI [of _ s] exI [of _ "s\<lparr>as_jobs := []\<rparr>"]) auto
qed

text \<open>Reading never leaves the store: a uri with double dots or an absolute one is refused.\<close>

lemma reads_stay_inside:
  assumes "read_bytes base uri fs = Inr content"
  shows "\<exists>rest. resolve_uri base uri = base @ rest"
  using assms by (auto simp: read_bytes_def Let_def strict_prefix_def prefix_def split: if_splits)

section \<open>Frozen inputs\<close>

text \<open>
  \<open>FrozenInputs\<close>: the hashes of the control files at the start of a run. A file that cannot be read makes
  \<open>capture\<close> raise the error itself and \<open>verify\<close> a \<open>FrozenInputMismatch\<close>.
\<close>

type_synonym locked = "path \<times> string"

record frozen =
  fz_contract :: locked
  fz_graph :: locked
  fz_verifiers :: "locked list"
  fz_acceptance :: locked

definition file_digest :: "(string \<Rightarrow> string) \<Rightarrow> files \<Rightarrow> path \<Rightarrow> py_error + string" where
  "file_digest sha fs p = (case fs p of None \<Rightarrow> Inl (OSErr ''no such file'') | Some (content, _) \<Rightarrow> Inr (sha content))"

definition lock_file :: "(string \<Rightarrow> string) \<Rightarrow> files \<Rightarrow> path \<Rightarrow> py_error + locked" where
  "lock_file sha fs p = bind_sum (file_digest sha fs p) (\<lambda>d. Inr (p, d))"

definition capture :: "(string \<Rightarrow> string) \<Rightarrow> files \<Rightarrow> path \<Rightarrow> path \<Rightarrow> path list \<Rightarrow> path \<Rightarrow> py_error + frozen" where
  "capture sha fs contract graph verifiers lock =
     bind_sum (lock_file sha fs contract) (\<lambda>c.
     bind_sum (lock_file sha fs graph) (\<lambda>g.
     bind_sum (collect (lock_file sha fs) (sort verifiers)) (\<lambda>vs.
     bind_sum (lock_file sha fs lock) (\<lambda>l.
       Inr \<lparr>fz_contract = c, fz_graph = g, fz_verifiers = vs, fz_acceptance = l\<rparr>))))"

definition show_path :: "path \<Rightarrow> string" where
  "show_path p = CHR ''/'' # join_with ''/'' p"

definition verify_one :: "(string \<Rightarrow> string) \<Rightarrow> files \<Rightarrow> string \<Rightarrow> locked \<Rightarrow> py_error + unit" where
  "verify_one sha fs label = (\<lambda>(p, expected). case file_digest sha fs p of
     Inl _ \<Rightarrow> Inl (NamedError ''FrozenInputMismatch'' (label @ '' is unavailable: '' @ show_path p))
   | Inr actual \<Rightarrow> if actual \<noteq> expected
       then Inl (NamedError ''FrozenInputMismatch'' (label @ '' hash mismatch: '' @ show_path p)) else Inr ())"

definition verify_frozen :: "(string \<Rightarrow> string) \<Rightarrow> files \<Rightarrow> frozen \<Rightarrow> py_error + unit" where
  "verify_frozen sha fs z =
     bind_sum (verify_one sha fs ''contract'' (fz_contract z)) (\<lambda>_.
     bind_sum (verify_one sha fs ''graph'' (fz_graph z)) (\<lambda>_.
     bind_sum (collect (verify_one sha fs ''verifier'') (fz_verifiers z)) (\<lambda>_.
       verify_one sha fs ''acceptance lock'' (fz_acceptance z))))"

lemma verify_one_Inr: "verify_one sha fs label pd = Inr () \<longleftrightarrow> file_digest sha fs (fst pd) = Inr (snd pd)"
  by (cases pd) (auto simp: verify_one_def split: sum.splits)

lemma lock_file_Inr: "lock_file sha fs p = Inr l \<longleftrightarrow> fst l = p \<and> file_digest sha fs p = Inr (snd l)"
  by (cases l) (auto simp: lock_file_def bind_sum_Inr)

lemma locked_files:
  assumes "collect (lock_file sha fs) ps = Inr ls"
  shows "(\<exists>us. collect (verify_one sha fs' label) ls = Inr us) \<longleftrightarrow> (\<forall>p \<in> set ps. file_digest sha fs' p = file_digest sha fs p)"
  using assms by (induction ps arbitrary: ls) (auto simp: bind_sum_Inr lock_file_Inr verify_one_Inr)

text \<open>What was captured verifies exactly as long as every control file keeps its hash.\<close>

lemma verify_capture:
  assumes "capture sha fs contract graph verifiers lock = Inr z"
  shows "verify_frozen sha fs' z = Inr () \<longleftrightarrow>
    (\<forall>p \<in> {contract, graph, lock} \<union> set verifiers. file_digest sha fs' p = file_digest sha fs p)"
proof -
  obtain vs where vs: "collect (lock_file sha fs) (sort verifiers) = Inr vs" "fz_verifiers z = vs"
    and z: "fst (fz_contract z) = contract" "file_digest sha fs contract = Inr (snd (fz_contract z))"
      "fst (fz_graph z) = graph" "file_digest sha fs graph = Inr (snd (fz_graph z))"
      "fst (fz_acceptance z) = lock" "file_digest sha fs lock = Inr (snd (fz_acceptance z))"
    using assms by (auto simp: capture_def bind_sum_Inr lock_file_Inr)
  from locked_files [OF vs(1)] show ?thesis
    using z vs(2) by (auto simp: verify_frozen_def bind_sum_Inr verify_one_Inr)
qed

end
