(* ===== verification/Schema.thy ===== *)
theory Schema
  imports Prelude
begin

text \<open>
  The database as SQLite sees it while \<open>StateStore.migrate\<close> runs: tables with columns, constraints and rows,
  indexes, and the statements that the ten migration scripts of \<open>runtime/store.py\<close> use.
\<close>

section \<open>Catalog\<close>

text \<open>A real number is kept as the text that SQLite prints for it.\<close>

datatype cell = C_Null | C_Text string | C_Int int | C_Real string

datatype affinity = TEXT | INTEGER | REAL

record column =
  cl_name :: string
  cl_type :: affinity
  cl_not_null :: bool
  cl_default :: "cell option"
  cl_primary :: bool
  cl_autoincrement :: bool
  cl_unique :: bool
  cl_references :: "(string \<times> string) option"

datatype table_constraint =
    Primary_Key "string list"
  | Unique "string list"
  | Foreign_Key "string list" string "string list"

text \<open>A row lists its cells under their column names, in the order of the columns.\<close>

type_synonym cells = "(string \<times> cell) list"

record table =
  tb_name :: string
  tb_columns :: "column list"
  tb_constraints :: "table_constraint list"
  tb_rows :: "cells list"

record index =
  ix_name :: string
  ix_unique :: bool
  ix_table :: string
  ix_columns :: "string list"

record catalog =
  ct_tables :: "table list"
  ct_indexes :: "index list"

text \<open>The column definitions of the scripts.\<close>

definition new_column :: "affinity \<Rightarrow> string \<Rightarrow> column" where
  "new_column ty c = \<lparr>cl_name = c, cl_type = ty, cl_not_null = False, cl_default = None, cl_primary = False,
     cl_autoincrement = False, cl_unique = False, cl_references = None\<rparr>"

abbreviation "col_text \<equiv> new_column TEXT"
abbreviation "col_int \<equiv> new_column INTEGER"
abbreviation "col_real \<equiv> new_column REAL"

definition req :: "column \<Rightarrow> column" where "req c = c\<lparr>cl_not_null := True\<rparr>"
definition dflt :: "cell \<Rightarrow> column \<Rightarrow> column" where "dflt v c = c\<lparr>cl_default := Some v\<rparr>"
definition pkey :: "column \<Rightarrow> column" where "pkey c = c\<lparr>cl_primary := True\<rparr>"
definition auto_key :: "column \<Rightarrow> column" where "auto_key c = c\<lparr>cl_primary := True, cl_autoincrement := True\<rparr>"
definition uniq :: "column \<Rightarrow> column" where "uniq c = c\<lparr>cl_unique := True\<rparr>"
definition refs :: "string \<Rightarrow> string \<Rightarrow> column \<Rightarrow> column" where "refs t k c = c\<lparr>cl_references := Some (t, k)\<rparr>"

section \<open>Statements\<close>

text \<open>
  \<open>Fill t c f\<close> is \<open>UPDATE t SET c = f WHERE c IS NULL\<close>; its right-hand sides are the scalar subquery
  \<open>(SELECT c FROM s WHERE s.k = t.k)\<close> and the concatenation \<open>'text' || c\<close>.
\<close>

datatype fill = From_Table string string string | Text_Of string string

datatype statement =
    Create_Table string "column list" "table_constraint list"
  | Add_Column string column
  | Create_Index bool string string "string list"
  | Fill string string fill

definition table_named :: "string \<Rightarrow> catalog \<Rightarrow> table option" where
  "table_named t db = find (\<lambda>tb. tb_name tb = t) (ct_tables db)"

definition has_index :: "string \<Rightarrow> catalog \<Rightarrow> bool" where
  "has_index i db \<longleftrightarrow> i \<in> set (map ix_name (ct_indexes db))"

definition has_column :: "string \<Rightarrow> table \<Rightarrow> bool" where
  "has_column c tb \<longleftrightarrow> c \<in> set (map cl_name (tb_columns tb))"

definition cell_of :: "cells \<Rightarrow> string \<Rightarrow> cell" where
  "cell_of r c = (case map_of r c of None \<Rightarrow> C_Null | Some v \<Rightarrow> v)"

definition change_table :: "string \<Rightarrow> (table \<Rightarrow> table) \<Rightarrow> catalog \<Rightarrow> catalog" where
  "change_table t f db = db\<lparr>ct_tables := map (\<lambda>tb. if tb_name tb = t then f tb else tb) (ct_tables db)\<rparr>"

definition fill_value :: "catalog \<Rightarrow> fill \<Rightarrow> cells \<Rightarrow> cell" where
  "fill_value db f r = (case f of
     From_Table s c k \<Rightarrow> (case table_named s db of
         None \<Rightarrow> C_Null
       | Some tb \<Rightarrow> (case find (\<lambda>x. cell_of x k \<noteq> C_Null \<and> cell_of x k = cell_of r k) (tb_rows tb) of
             None \<Rightarrow> C_Null
           | Some x \<Rightarrow> cell_of x c))
   | Text_Of p c \<Rightarrow> (case cell_of r c of
         C_Null \<Rightarrow> C_Null
       | C_Text s \<Rightarrow> C_Text (p @ s)
       | C_Int i \<Rightarrow> C_Text (p @ int_str i)
       | C_Real s \<Rightarrow> C_Text (p @ s)))"

definition fill_row :: "string \<Rightarrow> (cells \<Rightarrow> cell) \<Rightarrow> cells \<Rightarrow> cells" where
  "fill_row c v r = map (\<lambda>(n, x). if n = c \<and> x = C_Null then (n, v r) else (n, x)) r"

text \<open>A unique index ignores keys with a null.\<close>

definition index_keys :: "string list \<Rightarrow> table \<Rightarrow> cell list list" where
  "index_keys cs tb = filter (\<lambda>k. C_Null \<notin> set k) (map (\<lambda>r. map (cell_of r) cs) (tb_rows tb))"

abbreviation sql_error :: "string \<Rightarrow> py_error" where
  "sql_error m \<equiv> NamedError ''OperationalError'' m"

definition no_table :: "string \<Rightarrow> py_error" where
  "no_table t = sql_error (''no such table: '' @ t)"

definition create_table :: "string \<Rightarrow> column list \<Rightarrow> table_constraint list \<Rightarrow> (catalog, unit) op" where
  "create_table t cs ks db =
     (if table_named t db \<noteq> None then (Inl (sql_error (''table '' @ t @ '' already exists'')), db)
      else if has_index t db then (Inl (sql_error (''there is already an index named '' @ t)), db)
      else (Inr (), db\<lparr>ct_tables := ct_tables db @
        [\<lparr>tb_name = t, tb_columns = cs, tb_constraints = ks, tb_rows = []\<rparr>]\<rparr>))"

definition add_column :: "string \<Rightarrow> column \<Rightarrow> (catalog, unit) op" where
  "add_column t c db = (case table_named t db of
     None \<Rightarrow> (Inl (no_table t), db)
   | Some tb \<Rightarrow>
       let v = (case cl_default c of None \<Rightarrow> C_Null | Some v \<Rightarrow> v) in
       if has_column (cl_name c) tb then (Inl (sql_error (''duplicate column name: '' @ cl_name c)), db)
       else if cl_not_null c \<and> v = C_Null \<and> tb_rows tb \<noteq> [] then
         (Inl (sql_error ''Cannot add a NOT NULL column with default value NULL''), db)
       else (Inr (), change_table t (\<lambda>tb. tb\<lparr>tb_columns := tb_columns tb @ [c],
         tb_rows := map (\<lambda>r. r @ [(cl_name c, v)]) (tb_rows tb)\<rparr>) db))"

definition create_index :: "bool \<Rightarrow> string \<Rightarrow> string \<Rightarrow> string list \<Rightarrow> (catalog, unit) op" where
  "create_index u i t cs db = (case table_named t db of
     None \<Rightarrow> (Inl (no_table t), db)
   | Some tb \<Rightarrow>
       if table_named i db \<noteq> None then (Inl (sql_error (''there is already a table named '' @ i)), db)
       else if has_index i db then (Inl (sql_error (''index '' @ i @ '' already exists'')), db)
       else if \<not> list_all (\<lambda>c. has_column c tb) cs then (Inl (sql_error (''table '' @ t @ '' has no such column'')), db)
       else if u \<and> \<not> distinct (index_keys cs tb) then (Inl (IntegrityError ''UNIQUE constraint failed''), db)
       else (Inr (), db\<lparr>ct_indexes := ct_indexes db @
         [\<lparr>ix_name = i, ix_unique = u, ix_table = t, ix_columns = cs\<rparr>]\<rparr>))"

definition fill_ready :: "string \<Rightarrow> fill \<Rightarrow> catalog \<Rightarrow> bool" where
  "fill_ready t f db = (case table_named t db of None \<Rightarrow> False | Some tb \<Rightarrow> (case f of
     From_Table s c k \<Rightarrow> has_column k tb \<and>
       (case table_named s db of None \<Rightarrow> False | Some st \<Rightarrow> has_column c st \<and> has_column k st)
   | Text_Of p c \<Rightarrow> has_column c tb))"

definition fill_column :: "string \<Rightarrow> string \<Rightarrow> fill \<Rightarrow> (catalog, unit) op" where
  "fill_column t c f db = (case table_named t db of
     None \<Rightarrow> (Inl (no_table t), db)
   | Some tb \<Rightarrow>
       if \<not> has_column c tb then (Inl (sql_error (''no such column: '' @ c)), db)
       else if \<not> fill_ready t f db then (Inl (sql_error ''no such table or column''), db)
       else (Inr (), change_table t (\<lambda>tb. tb\<lparr>tb_rows := map (fill_row c (fill_value db f)) (tb_rows tb)\<rparr>) db))"

fun execute :: "statement \<Rightarrow> (catalog, unit) op" where
  "execute (Create_Table t cs ks) = create_table t cs ks"
| "execute (Add_Column t c) = add_column t c"
| "execute (Create_Index u i t cs) = create_index u i t cs"
| "execute (Fill t c f) = fill_column t c f"

text \<open>\<open>executescript\<close>: every statement is committed by itself; the first that fails ends the script.\<close>

definition execute_script :: "statement list \<Rightarrow> (catalog, unit) op" where
  "execute_script ss = for_each execute ss"

end
