(* ===== verification/Schema_Scripts.thy ===== *)
theory Schema_Scripts
  imports Schema
begin

text \<open>
  The ten migration scripts at the end of \<open>runtime/store.py\<close>, statement by statement.
\<close>

definition migration_1 :: "statement list" where
  "migration_1 = [
    Create_Table ''runs''
      [pkey (col_text ''run_id''), req (col_text ''project_id''), req (col_text ''contract_id''),
       req (col_int ''contract_revision''), req (col_text ''contract_hash''), req (col_text ''graph_id''),
       req (col_text ''graph_hash''), req (col_text ''graph_json''), req (col_text ''status''), col_text ''barrier'',
       col_text ''current_node_id'', col_text ''parent_run_id'', col_text ''supersedes_run_id'',
       col_text ''restart_from_json'', col_text ''terminal_reason'', col_text ''error_json'',
       req (dflt (C_Text ''[]'') (col_text ''unverified_json'')),
       req (dflt (C_Text ''[]'') (col_text ''external_effects_json'')), req (col_text ''created_at''),
       req (col_text ''updated_at'')] [],
    Create_Table ''nodes''
      [req (refs ''runs'' ''run_id'' (col_text ''run_id'')), req (col_text ''node_id''), req (col_text ''node_type''),
       req (col_text ''status''), req (dflt (C_Int 0) (col_int ''attempt_count'')), col_text ''result_json'',
       req (dflt (C_Int 0) (col_int ''route_resolved''))]
      [Primary_Key [''run_id'', ''node_id'']],
    Create_Table ''attempts''
      [pkey (col_text ''attempt_id''), req (col_text ''run_id''), req (col_text ''node_id''),
       req (col_int ''attempt_number''), req (col_text ''status''), col_text ''result_json'',
       req (col_text ''started_at''), col_text ''finished_at'']
      [Unique [''run_id'', ''node_id'', ''attempt_number''],
       Foreign_Key [''run_id'', ''node_id''] ''nodes'' [''run_id'', ''node_id'']],
    Create_Table ''edge_traversals''
      [req (refs ''runs'' ''run_id'' (col_text ''run_id'')), req (col_text ''from_node''), req (col_text ''to_node''),
       req (col_int ''traversal_count'')]
      [Primary_Key [''run_id'', ''from_node'', ''to_node'']],
    Create_Table ''budgets''
      [pkey (refs ''runs'' ''run_id'' (col_text ''run_id'')), req (col_int ''max_duration_seconds''),
       req (col_int ''max_executor_calls''), req (col_int ''max_repair_iterations''), col_real ''max_cost_units'',
       req (dflt (C_Int 0) (col_int ''executor_calls'')), req (dflt (C_Int 0) (col_int ''repair_iterations'')),
       col_real ''cost_units''] [],
    Create_Table ''checkpoints''
      [auto_key (col_int ''checkpoint_id''), req (refs ''runs'' ''run_id'' (col_text ''run_id'')),
       req (col_text ''reason''), req (col_text ''state_json''), req (col_text ''created_at'')] [],
    Create_Table ''external_handles''
      [req (refs ''runs'' ''run_id'' (col_text ''run_id'')), req (col_text ''node_id''),
       req (uniq (col_text ''idempotency_key'')), req (col_text ''trigger_state''), col_text ''handle'',
       req (col_text ''updated_at'')]
      [Primary_Key [''run_id'', ''node_id'']],
    Create_Table ''control_intents''
      [pkey (col_text ''intent_id''), req (refs ''runs'' ''run_id'' (col_text ''run_id'')),
       req (col_text ''intent_kind''), req (col_text ''action''), req (col_text ''intent_json''),
       req (col_text ''outcome''), req (col_text ''created_at'')] [],
    Create_Table ''reports''
      [pkey (refs ''runs'' ''run_id'' (col_text ''run_id'')), req (col_text ''report_json''),
       req (col_text ''frozen_at'')] [],
    Create_Table ''artifact_metadata''
      [pkey (col_text ''artifact_id''), refs ''runs'' ''run_id'' (col_text ''run_id''), req (uniq (col_text ''uri'')),
       req (col_text ''sha256_digest''), col_text ''media_type'', req (col_int ''size_bytes''),
       req (col_text ''created_at'')] [],
    Create_Table ''event_outbox''
      [pkey (col_text ''event_id''), req (col_text ''event_json''), req (col_text ''created_at''),
       col_text ''delivered_at''] []]"

definition migration_2 :: "statement list" where
  "migration_2 = [
    Add_Column ''nodes'' (col_text ''first_started_at''),
    Add_Column ''nodes'' (req (dflt (C_Real ''0.0'') (col_real ''cost_units''))),
    Add_Column ''nodes'' (req (dflt (C_Int 0) (col_int ''repair_iterations''))),
    Add_Column ''budgets'' (col_text ''started_at''),
    Fill ''budgets'' ''started_at'' (From_Table ''runs'' ''created_at'' ''run_id''),
    Add_Column ''checkpoints'' (col_text ''checkpoint_ref''),
    Fill ''checkpoints'' ''checkpoint_ref'' (Text_Of ''checkpoint:'' ''checkpoint_id''),
    Create_Index True ''checkpoints_ref_unique'' ''checkpoints'' [''checkpoint_ref''],
    Add_Column ''artifact_metadata'' (req (dflt (C_Text ''evidence'') (col_text ''kind''))),
    Create_Table ''run_artifacts''
      [req (refs ''runs'' ''run_id'' (col_text ''run_id'')),
       req (refs ''artifact_metadata'' ''artifact_id'' (col_text ''artifact_id'')),
       req (dflt (C_Text '''') (col_text ''node_id'')), req (col_text ''role''), col_text ''inherited_from_run_id'']
      [Primary_Key [''run_id'', ''artifact_id'', ''node_id'', ''role'']]]"

definition migration_3 :: "statement list" where
  "migration_3 = [
    Create_Table ''executor_sessions''
      [pkey (col_text ''session_id''), req (col_text ''run_id''), req (col_text ''node_id''),
       req (col_text ''attempt_id''), req (col_text ''role''), req (col_text ''provider''),
       req (col_text ''provider_session_id''), req (col_text ''provider_version''), req (col_text ''status''),
       req (dflt (C_Int 0) (col_int ''continuation_count'')), req (dflt (C_Int 0) (col_int ''failure_count'')),
       col_int ''process_id'', col_text ''raw_stdout_artifact_id'', col_text ''raw_stderr_artifact_id'',
       col_text ''outcome_json'', req (col_text ''created_at''), req (col_text ''updated_at'')]
      [Unique [''provider'', ''provider_session_id'', ''attempt_id'']],
    Create_Index False ''executor_sessions_run_node'' ''executor_sessions'' [''run_id'', ''node_id'', ''created_at''],
    Create_Table ''supervised_processes''
      [pkey (col_text ''process_handle_id''), req (col_text ''run_id''),
       refs ''executor_sessions'' ''session_id'' (col_text ''session_id''), req (col_int ''process_id''),
       req (col_text ''status''), req (col_text ''started_at''), col_text ''settled_at''] [],
    Create_Table ''review_attempts''
      [pkey (col_text ''review_attempt_id''), req (col_text ''run_id''),
       req (refs ''executor_sessions'' ''session_id'' (col_text ''session_id'')), req (col_int ''attempt_number''),
       col_text ''verdict'', col_text ''result_artifact_id'', req (col_text ''created_at'')]
      [Unique [''run_id'', ''attempt_number'']],
    Create_Table ''verifier_executions''
      [pkey (col_text ''verifier_execution_id''), req (col_text ''run_id''), req (col_text ''node_id''),
       req (col_text ''attempt_id''), req (col_text ''argv_json''), req (col_text ''status''), col_int ''process_id'',
       col_text ''stdout_artifact_id'', col_text ''stderr_artifact_id'', req (col_text ''started_at''),
       col_text ''finished_at''] []]"

definition migration_4 :: "statement list" where
  "migration_4 = [
    Create_Table ''conversations''
      [pkey (col_text ''conversation_id''), req (col_text ''project_id''), req (col_text ''actor_id''),
       col_text ''active_run_id'', req (col_text ''status''), req (col_text ''created_at''),
       req (col_text ''updated_at'')] [],
    Create_Table ''human_messages''
      [pkey (col_text ''message_id''),
       req (refs ''conversations'' ''conversation_id'' (col_text ''conversation_id'')),
       req (col_text ''message_json''), req (col_text ''created_at'')] [],
    Create_Index False ''human_messages_conversation'' ''human_messages'' [''conversation_id'', ''created_at''],
    Create_Table ''intent_compilations''
      [pkey (col_text ''compilation_id''),
       req (refs ''conversations'' ''conversation_id'' (col_text ''conversation_id'')),
       req (refs ''human_messages'' ''message_id'' (col_text ''source_message_id'')), col_text ''intent_json'',
       req (col_real ''confidence''), col_text ''clarification'', req (col_text ''status''),
       req (col_text ''created_at'')] [],
    Create_Table ''pending_confirmations''
      [pkey (col_text ''confirmation_id''),
       req (refs ''conversations'' ''conversation_id'' (col_text ''conversation_id'')),
       req (col_text ''intent_json''), req (col_text ''status''), col_text ''result_json'',
       req (col_text ''created_at''), col_text ''resolved_at''] [],
    Create_Table ''discovery_sessions''
      [pkey (col_text ''session_id''), req (col_text ''conversation_id''), req (col_text ''project_root''),
       req (col_text ''state''), req (col_text ''scan_json''), req (col_text ''unknowns_json''),
       req (col_text ''answers_json''), col_text ''draft_json'', req (col_text ''source_message_id''),
       req (col_text ''created_at''), req (col_text ''updated_at'')] [],
    Create_Table ''contract_drafts''
      [pkey (col_text ''draft_id''), req (col_text ''conversation_id''), req (col_text ''contract_id''),
       req (col_int ''revision''), req (col_text ''contract_json''), req (col_text ''contract_hash''),
       req (col_text ''status''), req (col_text ''created_at'')]
      [Unique [''contract_id'', ''revision'', ''contract_hash'']],
    Create_Table ''contract_revisions''
      [req (col_text ''contract_id''), req (col_int ''revision''), req (col_text ''contract_json''),
       req (col_text ''contract_hash''), req (col_text ''confirmation_message_id''), req (col_text ''frozen_at'')]
      [Primary_Key [''contract_id'', ''revision''], Unique [''contract_hash'']],
    Create_Table ''acceptance_locks''
      [pkey (col_text ''lock_id''), req (col_text ''contract_id''), req (col_int ''contract_revision''),
       req (col_text ''contract_hash''), req (col_text ''verifier_hashes_json''),
       req (col_text ''confirmation_message_id''), req (col_text ''created_at'')]
      [Unique [''contract_id'', ''contract_revision''],
       Foreign_Key [''contract_id'', ''contract_revision''] ''contract_revisions'' [''contract_id'', ''revision'']],
    Create_Table ''contract_deltas''
      [pkey (col_text ''delta_id''), req (col_text ''contract_id''), req (col_int ''source_revision''),
       req (col_int ''new_revision''), req (col_text ''delta_json''), req (col_text ''confirmation_message_id''),
       req (col_text ''created_at'')]
      [Unique [''contract_id'', ''new_revision'']],
    Create_Table ''planned_runs''
      [pkey (col_text ''run_id''), req (col_text ''project_id''), req (col_text ''contract_id''),
       req (col_int ''contract_revision''), req (col_text ''graph_json''), req (col_text ''graph_hash''),
       col_text ''parent_run_id'', col_text ''supersedes_run_id'', col_text ''restart_from_json'',
       req (col_text ''status''), req (col_text ''created_at'')] []]"

definition migration_5 :: "statement list" where
  "migration_5 = [
    Create_Table ''verifier_revisions''
      [req (col_text ''verifier_id''), req (col_int ''revision''), req (col_text ''verifier_type''),
       req (col_text ''manifest_json''), req (col_text ''manifest_hash''), req (col_text ''source_hash''),
       req (col_text ''tests_hash''), col_text ''fixtures_hash'', req (col_text ''source_path''),
       req (col_text ''tests_path''), col_text ''fixtures_path'', req (col_text ''lifecycle''),
       req (col_text ''permission_summary''), col_text ''confirmation_message_id'', req (col_text ''created_at''),
       col_text ''frozen_at'']
      [Primary_Key [''verifier_id'', ''revision'']],
    Create_Table ''verifier_lifecycle_evidence''
      [pkey (col_text ''evidence_id''), req (col_text ''verifier_id''), req (col_int ''revision''),
       req (col_text ''lifecycle''), req (col_text ''result_json''), col_text ''artifact_id'',
       req (col_text ''created_at'')]
      [Foreign_Key [''verifier_id'', ''revision''] ''verifier_revisions'' [''verifier_id'', ''revision'']],
    Create_Table ''contract_verifier_bindings''
      [req (col_text ''contract_id''), req (col_int ''contract_revision''), req (col_text ''verifier_id''),
       req (col_int ''verifier_revision''), req (col_text ''hashes_json''), req (col_text ''created_at'')]
      [Primary_Key [''contract_id'', ''contract_revision'', ''verifier_id''],
       Foreign_Key [''verifier_id'', ''verifier_revision''] ''verifier_revisions'' [''verifier_id'', ''revision'']],
    Add_Column ''external_handles'' (col_text ''verifier_id''),
    Add_Column ''external_handles'' (col_int ''verifier_revision''),
    Add_Column ''external_handles'' (col_text ''cancel_state''),
    Add_Column ''external_handles'' (col_text ''report_artifact_id''),
    Add_Column ''external_handles'' (col_text ''residual_effect'')]"

definition migration_6 :: "statement list" where
  "migration_6 = [
    Create_Table ''phase5_review_attempts''
      [req (col_text ''run_id''), req (col_int ''attempt_number''), req (col_text ''status''),
       req (dflt (C_Int 0) (col_int ''fix_count'')),
       req (dflt (C_Text ''[]'') (col_text ''affected_verifiers_json'')), req (col_text ''created_at''),
       col_text ''invalidated_at'']
      [Primary_Key [''run_id'', ''attempt_number'']],
    Create_Table ''phase5_review_dimensions''
      [req (col_text ''run_id''), req (col_int ''attempt_number''), req (col_text ''dimension''),
       req (col_text ''session_id''), col_text ''result_json'', req (col_text ''created_at'')]
      [Primary_Key [''run_id'', ''attempt_number'', ''dimension''],
       Foreign_Key [''run_id'', ''attempt_number''] ''phase5_review_attempts'' [''run_id'', ''attempt_number'']],
    Create_Table ''requirement_matrix_revisions''
      [req (col_text ''contract_id''), req (col_int ''contract_revision''), req (col_int ''matrix_revision''),
       req (col_text ''matrix_json''), req (col_text ''matrix_hash''), req (col_text ''created_at'')]
      [Primary_Key [''contract_id'', ''contract_revision'', ''matrix_revision'']],
    Create_Table ''github_check_queries''
      [pkey (col_text ''query_id''), col_text ''run_id'', req (col_text ''repository''),
       req (col_text ''commit_sha''), req (col_text ''status_json''), req (col_text ''created_at'')] [],
    Create_Table ''pull_request_intents''
      [pkey (col_text ''idempotency_key''), req (col_text ''run_id''), req (col_text ''repository''),
       req (col_text ''base_branch''), req (col_text ''head_branch''), req (col_text ''spec_json''),
       req (col_text ''state''), req (col_text ''created_at''), req (col_text ''updated_at'')] [],
    Create_Table ''pull_request_handles''
      [pkey (refs ''pull_request_intents'' ''idempotency_key'' (col_text ''idempotency_key'')),
       req (col_text ''run_id''), req (col_text ''repository''), req (col_text ''base_branch''),
       req (col_text ''head_branch''), req (col_int ''pr_number''), req (col_text ''pr_url''),
       req (col_text ''node_id''), req (col_text ''created_at'')] [],
    Create_Table ''delivery_terminal_fixtures''
      [pkey (col_text ''run_id''), req (col_text ''contract_id''), req (col_int ''contract_revision''),
       req (col_text ''status''), req (col_text ''reason''), req (col_text ''created_at'')] [],
    Create_Table ''delivery_report_revisions''
      [req (col_text ''run_id''), req (col_int ''revision''), req (col_text ''terminal_status''),
       req (col_text ''terminal_reason''), req (col_text ''manifest_json''), req (col_text ''created_at'')]
      [Primary_Key [''run_id'', ''revision'']],
    Create_Table ''human_acceptance_records''
      [pkey (col_text ''record_id''), req (uniq (col_text ''source_message_id'')),
       req (uniq (col_text ''intent_id'')), req (col_text ''run_id''), req (col_text ''actor_id''),
       req (col_text ''action''), col_text ''reason'', req (col_int ''contract_revision''),
       req (col_int ''report_revision''), col_int ''new_contract_revision'', col_text ''new_run_id'',
       req (col_text ''created_at'')] []]"

definition migration_7 :: "statement list" where
  "migration_7 = [
    Add_Column ''pending_confirmations'' (col_text ''actor_id''),
    Add_Column ''pending_confirmations'' (col_text ''project_id''),
    Add_Column ''pending_confirmations'' (req (dflt (C_Int 1) (col_int ''protocol_major''))),
    Add_Column ''pending_confirmations'' (col_text ''expires_at''),
    Create_Table ''ipc_mutation_replays''
      [pkey (col_text ''idempotency_key''), req (col_text ''request_fingerprint''), req (col_text ''project_id''),
       req (col_text ''workspace_id''), req (col_text ''operation''), col_text ''response_json'',
       req (col_text ''state''), req (col_text ''created_at''), col_text ''completed_at''] []]"

definition migration_8 :: "statement list" where
  "migration_8 = [
    Create_Table ''parallel_branches''
      [req (refs ''runs'' ''run_id'' (col_text ''run_id'')), req (col_text ''container_node_id''),
       req (col_text ''branch_id''), req (col_int ''branch_order''), req (col_text ''subgraph_json''),
       req (col_text ''subgraph_hash''), req (col_text ''status''), col_text ''current_node_id'',
       col_text ''result_json'', col_text ''started_at'', col_text ''finished_at'']
      [Primary_Key [''run_id'', ''container_node_id'', ''branch_id'']],
    Create_Index False ''parallel_branches_schedulable'' ''parallel_branches'' [''run_id'', ''container_node_id'', ''status'', ''branch_order''],
    Create_Table ''parallel_branch_nodes''
      [req (col_text ''run_id''), req (col_text ''container_node_id''), req (col_text ''branch_id''),
       req (col_text ''node_id''), req (col_text ''node_type''), req (col_text ''status''),
       req (dflt (C_Int 0) (col_int ''attempt_count'')), col_text ''result_json'',
       req (dflt (C_Int 0) (col_int ''route_resolved'')), col_text ''first_started_at'',
       req (dflt (C_Real ''0.0'') (col_real ''cost_units'')), req (dflt (C_Int 0) (col_int ''repair_iterations''))]
      [Primary_Key [''run_id'', ''container_node_id'', ''branch_id'', ''node_id''],
       Foreign_Key [''run_id'', ''container_node_id'', ''branch_id''] ''parallel_branches'' [''run_id'', ''container_node_id'', ''branch_id'']],
    Create_Table ''parallel_branch_attempts''
      [pkey (col_text ''attempt_id''), req (col_text ''run_id''), req (col_text ''container_node_id''),
       req (col_text ''branch_id''), req (col_text ''node_id''), req (col_int ''attempt_number''),
       req (col_text ''status''), col_text ''result_json'', req (col_text ''started_at''), col_text ''finished_at'']
      [Unique [''run_id'', ''container_node_id'', ''branch_id'', ''node_id'', ''attempt_number''],
       Foreign_Key [''run_id'', ''container_node_id'', ''branch_id'', ''node_id''] ''parallel_branch_nodes'' [''run_id'', ''container_node_id'', ''branch_id'', ''node_id'']],
    Create_Table ''parallel_branch_edge_traversals''
      [req (col_text ''run_id''), req (col_text ''container_node_id''), req (col_text ''branch_id''),
       req (col_text ''from_node''), req (col_text ''to_node''), req (col_int ''traversal_count'')]
      [Primary_Key [''run_id'', ''container_node_id'', ''branch_id'', ''from_node'', ''to_node''],
       Foreign_Key [''run_id'', ''container_node_id'', ''branch_id''] ''parallel_branches'' [''run_id'', ''container_node_id'', ''branch_id'']],
    Create_Table ''shared_budget_reservations''
      [req (refs ''runs'' ''run_id'' (col_text ''run_id'')), req (col_text ''reservation_id''), col_text ''node_id'',
       req (col_real ''cost_units''), req (col_text ''created_at'')]
      [Primary_Key [''run_id'', ''reservation_id'']]]"

definition migration_9 :: "statement list" where
  "migration_9 = [
    Create_Table ''container_executions''
      [pkey (col_text ''execution_id''), req (col_text ''run_id''), req (col_text ''node_id''),
       req (col_text ''attempt_id''), req (uniq (col_text ''idempotency_key'')), req (uniq (col_text ''owner_id'')),
       req (col_text ''state''), uniq (col_text ''handle''), req (col_text ''image_digest''),
       req (col_text ''config_fingerprint''), req (dflt (C_Int 0) (col_int ''stdout_bytes'')),
       req (dflt (C_Int 0) (col_int ''stderr_bytes'')), req (dflt (C_Int 0) (col_int ''artifact_bytes'')),
       col_text ''result_json'', req (col_text ''cleanup_state''), col_text ''residual_effect'',
       col_text ''started_at'', col_text ''deadline_at'', col_text ''finished_at'', req (col_text ''created_at''),
       req (col_text ''updated_at'')] [],
    Create_Index False ''container_executions_run_state'' ''container_executions'' [''run_id'', ''state'', ''node_id'']]"

definition migration_10 :: "statement list" where
  "migration_10 = [
    Create_Table ''run_start_requests''
      [pkey (col_text ''idempotency_key''), req (col_text ''request_id''), req (col_text ''run_id''),
       req (col_text ''request_fingerprint''), req (col_text ''state''), col_text ''result_json'',
       col_text ''error_code'', req (col_text ''created_at''), col_text ''completed_at''] [],
    Create_Index False ''run_start_requests_run_state'' ''run_start_requests'' [''run_id'', ''state''],
    Create_Table ''delivery_stage_checkpoints''
      [req (col_text ''run_id''), req (col_text ''stage''), req (col_text ''attempt_identity''),
       req (col_text ''status''), col_text ''classification'',
       req (dflt (C_Text ''[]'') (col_text ''artifact_refs_json'')), col_text ''external_effect_key'',
       col_text ''external_handle'', col_text ''result_json'', req (col_text ''created_at''),
       col_text ''completed_at'']
      [Primary_Key [''run_id'', ''stage'', ''attempt_identity'']]]"


definition migrations :: "statement list list" where
  "migrations = [migration_1, migration_2, migration_3, migration_4, migration_5,
     migration_6, migration_7, migration_8, migration_9, migration_10]"

end
