(* ===== verification/Schema_Laws.thy ===== *)
theory Schema_Laws
  imports Schema_Scripts "HOL-Library.Sublist"
begin

text \<open>
  What the statements of the migration scripts do to a database with rows: which catalogs accept them, which rows they
  keep, and that the ten scripts are accepted one after the other.
\<close>

section \<open>Shapes\<close>

text \<open>The catalog without its rows decides whether a statement is accepted, but for two checks of rows.\<close>

definition shape :: "catalog \<Rightarrow> catalog" where
  "shape db = db\<lparr>ct_tables := map (tb_rows_update (\<lambda>_. [])) (ct_tables db)\<rparr>"

definition empty_catalog :: catalog where
  "empty_catalog = \<lparr>ct_tables = [], ct_indexes = []\<rparr>"

definition shape_at :: "nat \<Rightarrow> catalog" where
  "shape_at k = snd (execute_script (concat (take k migrations)) empty_catalog)"

fun rows_allow :: "catalog \<Rightarrow> statement \<Rightarrow> bool" where
  "rows_allow db (Add_Column t c) \<longleftrightarrow> (cl_not_null c \<longrightarrow> cl_default c \<notin> {None, Some C_Null})"
| "rows_allow db (Create_Index u i t cs) \<longleftrightarrow>
     (case table_named t db of None \<Rightarrow> True | Some tb \<Rightarrow> u \<longrightarrow> distinct (index_keys cs tb))"
| "rows_allow db _ \<longleftrightarrow> True"

lemma shape_simps [simp]:
  "table_named t (shape db) = map_option (tb_rows_update (\<lambda>_. [])) (table_named t db)"
  "has_index i (shape db) = has_index i db"
  "has_column c (tb_rows_update g tb) = has_column c tb"
  "ct_indexes (shape db) = ct_indexes db"
proof -
  have "find (\<lambda>tb. tb_name tb = t) (map (tb_rows_update (\<lambda>_. [])) tbs)
      = map_option (tb_rows_update (\<lambda>_. [])) (find (\<lambda>tb. tb_name tb = t) tbs)" for tbs :: "table list"
    by (induction tbs) auto
  then show "table_named t (shape db) = map_option (tb_rows_update (\<lambda>_. [])) (table_named t db)"
    by (simp add: table_named_def shape_def)
qed (simp_all add: has_index_def has_column_def shape_def)

lemma fill_ready_shape [simp]: "fill_ready t f (shape db) = fill_ready t f db"
  by (auto simp: fill_ready_def split: option.splits fill.splits)

lemma shape_change:
  assumes "\<And>tb. tb_rows_update (\<lambda>_. []) (f tb) = g (tb_rows_update (\<lambda>_. []) tb)" and "\<And>tb. tb_name (f tb) = tb_name tb"
  shows "shape (change_table t f db) = change_table t g (shape db)"
  using assms by (auto simp: shape_def change_table_def)

lemma shape_add [simp]:
  "shape (db\<lparr>ct_tables := ct_tables db @ [tb]\<rparr>)
    = (shape db)\<lparr>ct_tables := ct_tables (shape db) @ [tb_rows_update (\<lambda>_. []) tb]\<rparr>"
  "shape (db\<lparr>ct_indexes := is\<rparr>) = (shape db)\<lparr>ct_indexes := is\<rparr>"
  by (simp_all add: shape_def)

lemma execute_shape:
  assumes "execute st (shape db) = (Inr (), sh)" and "rows_allow db st"
  shows "\<exists>db'. execute st db = (Inr (), db') \<and> shape db' = sh"
proof (cases st)
  case (Create_Table t cs ks)
  then show ?thesis using assms(1) by (auto simp: create_table_def split: if_splits)
next
  case (Add_Column t c)
  then obtain tb where tb: "table_named t db = Some tb" using assms(1)
    by (auto simp: add_column_def split: option.splits)
  then show ?thesis using assms Add_Column
    by (auto simp: add_column_def Let_def intro!: shape_change split: if_splits)
next
  case (Create_Index u i t cs)
  then obtain tb where tb: "table_named t db = Some tb" using assms(1)
    by (auto simp: create_index_def split: option.splits)
  then show ?thesis using assms Create_Index
    by (auto simp: create_index_def split: if_splits)
next
  case (Fill t c f)
  then obtain tb where tb: "table_named t db = Some tb" using assms(1)
    by (auto simp: fill_column_def split: option.splits)
  then show ?thesis using assms Fill
    by (auto simp: fill_column_def intro!: shape_change split: if_splits)
qed

section \<open>Rows\<close>

text \<open>Rows have the columns of their table; a later catalog keeps the tables and only appends cells to their rows.\<close>

definition fits :: "catalog \<Rightarrow> bool" where
  "fits db \<longleftrightarrow> distinct (map tb_name (ct_tables db)) \<and>
     (\<forall>tb \<in> set (ct_tables db). \<forall>r \<in> set (tb_rows tb). map fst r = map cl_name (tb_columns tb))"

definition tables_kept :: "catalog \<Rightarrow> catalog \<Rightarrow> bool" where
  "tables_kept db db' \<longleftrightarrow> (\<forall>t tb. table_named t db = Some tb \<longrightarrow>
     (\<exists>tb'. table_named t db' = Some tb' \<and> list_all2 prefix (tb_rows tb) (tb_rows tb')))"

text \<open>Checkpoints are numbered: \<open>INTEGER PRIMARY KEY AUTOINCREMENT\<close>.\<close>

definition numbered_rows :: "cells list \<Rightarrow> bool" where
  "numbered_rows rs \<longleftrightarrow> (\<exists>ns. distinct ns \<and> map (\<lambda>r. map_of r ''checkpoint_id'') rs = map (Some \<circ> C_Int) ns)"

definition numbered :: "catalog \<Rightarrow> bool" where
  "numbered db \<longleftrightarrow> (\<forall>tb. table_named ''checkpoints'' db = Some tb \<longrightarrow> numbered_rows (tb_rows tb))"

lemma table_named_name: "table_named t db = Some tb \<Longrightarrow> tb \<in> set (ct_tables db) \<and> tb_name tb = t"
  unfolding table_named_def by (rule find_SomeD)

lemma table_named_unique: "fits db \<Longrightarrow> tb \<in> set (ct_tables db) \<Longrightarrow> table_named (tb_name tb) db = Some tb"
  by (auto simp: fits_def table_named_def intro: find_key_distinct [of tb_name])

lemma table_named_add [simp]:
  "table_named t (db\<lparr>ct_tables := ct_tables db @ [tb]\<rparr>) =
     (case table_named t db of None \<Rightarrow> if tb_name tb = t then Some tb else None | Some x \<Rightarrow> Some x)"
  "table_named t (db\<lparr>ct_indexes := is\<rparr>) = table_named t db"
  by (simp_all add: table_named_def split: option.splits)

lemma table_named_change:
  assumes "\<And>tb. tb_name (f tb) = tb_name tb"
  shows "table_named t (change_table s f db) = map_option (\<lambda>tb. if t = s then f tb else tb) (table_named t db)"
proof -
  have "find (\<lambda>tb. tb_name tb = t) (map (\<lambda>tb. if tb_name tb = s then f tb else tb) tbs)
      = map_option (\<lambda>tb. if t = s then f tb else tb) (find (\<lambda>tb. tb_name tb = t) tbs)" for tbs
    by (induction tbs) (auto simp: assms)
  then show ?thesis by (simp add: table_named_def change_table_def)
qed

lemma fst_fill_row [simp]: "map fst (fill_row c v r) = map fst r"
  by (auto simp: fill_row_def)

lemma fits_change:
  assumes "fits db" and "\<And>tb. tb_name (f tb) = tb_name tb"
    and "\<And>tb r. table_named t db = Some tb \<Longrightarrow> r \<in> set (tb_rows (f tb)) \<Longrightarrow>
      \<forall>x \<in> set (tb_rows tb). map fst x = map cl_name (tb_columns tb) \<Longrightarrow> map fst r = map cl_name (tb_columns (f tb))"
  shows "fits (change_table t f db)"
proof -
  have names: "map tb_name (ct_tables (change_table t f db)) = map tb_name (ct_tables db)"
    by (auto simp: change_table_def assms(2))
  have "map fst r = map cl_name (tb_columns x)" if "x \<in> set (ct_tables (change_table t f db))" "r \<in> set (tb_rows x)" for x r
  proof -
    obtain tb where tb: "tb \<in> set (ct_tables db)" "x = (if tb_name tb = t then f tb else tb)"
      using \<open>x \<in> _\<close> by (auto simp: change_table_def)
    have old: "\<forall>r \<in> set (tb_rows tb). map fst r = map cl_name (tb_columns tb)" using assms(1) tb(1) by (simp add: fits_def)
    show ?thesis
    proof (cases "tb_name tb = t")
      case True
      with table_named_unique [OF assms(1) tb(1)] have "table_named t db = Some tb" by simp
      from assms(3) [OF this _ old] tb(2) that(2) True show ?thesis by simp
    qed (use tb(2) that(2) old in simp)
  qed
  with names assms(1) show ?thesis by (simp add: fits_def)
qed

lemma execute_fits:
  assumes "execute st db = (Inr (), db')" and "fits db"
  shows "fits db'"
proof (cases st)
  case (Create_Table t cs ks)
  then have "table_named t db = None" and db': "db' = db\<lparr>ct_tables := ct_tables db @
      [\<lparr>tb_name = t, tb_columns = cs, tb_constraints = ks, tb_rows = []\<rparr>]\<rparr>"
    using assms(1) by (auto simp: create_table_def split: if_splits)
  then have "t \<notin> set (map tb_name (ct_tables db))" by (auto simp: table_named_def find_None_iff)
  with assms(2) show ?thesis by (auto simp: fits_def db')
next
  case (Add_Column t c)
  with assms show ?thesis
    by (auto simp: add_column_def Let_def intro!: fits_change split: option.splits if_splits)
next
  case (Create_Index u i t cs)
  with assms show ?thesis by (auto simp: create_index_def fits_def split: option.splits if_splits)
next
  case (Fill t c f)
  with assms show ?thesis by (auto simp: fill_column_def intro!: fits_change split: option.splits if_splits)
qed

text \<open>What a statement does to the rows of a table that was there before.\<close>

fun row_step :: "catalog \<Rightarrow> statement \<Rightarrow> string \<Rightarrow> cells \<Rightarrow> cells" where
  "row_step db (Add_Column s c) t r =
     (if s = t then r @ [(cl_name c, case cl_default c of None \<Rightarrow> C_Null | Some v \<Rightarrow> v)] else r)"
| "row_step db (Fill s c f) t r = (if s = t then fill_row c (fill_value db f) r else r)"
| "row_step db _ t r = r"

lemma row_step_same [simp]:
  "map (row_step db (Create_Table s cs ks) t) rs = rs"
  "map (row_step db (Create_Index u i s cs') t) rs = rs"
  "s \<noteq> t \<Longrightarrow> map (row_step db (Add_Column s c) t) rs = rs"
  "s \<noteq> t \<Longrightarrow> map (row_step db (Fill s n f) t) rs = rs"
  by (simp_all add: map_idI)

lemma execute_rows:
  assumes "execute st db = (Inr (), db')" and "table_named t db = Some tb"
  shows "\<exists>tb'. table_named t db' = Some tb' \<and> tb_rows tb' = map (row_step db st t) (tb_rows tb) \<and>
    (\<forall>c. has_column c tb \<longrightarrow> has_column c tb')"
proof (cases st)
  case (Create_Table s cs ks)
  with assms show ?thesis by (auto simp: create_table_def split: if_splits)
next
  case (Add_Column s c)
  with assms(1) obtain x where "table_named s db = Some x" by (auto simp: add_column_def split: option.splits)
  with assms Add_Column show ?thesis
    by (auto simp: add_column_def Let_def table_named_change has_column_def split: if_splits)
next
  case (Create_Index u i s cs)
  with assms show ?thesis by (auto simp: create_index_def split: option.splits if_splits)
next
  case (Fill s c f)
  with assms(1) obtain x where "table_named s db = Some x" by (auto simp: fill_column_def split: option.splits)
  with assms Fill show ?thesis
    by (auto simp: fill_column_def table_named_change has_column_def split: if_splits)
qed

definition new_in :: "catalog \<Rightarrow> string \<Rightarrow> string \<Rightarrow> bool" where
  "new_in db t c \<longleftrightarrow> (\<forall>tb r. table_named t db = Some tb \<longrightarrow> r \<in> set (tb_rows tb) \<longrightarrow> c \<notin> fst ` set r)"

lemma fill_row_append:
  assumes "c \<notin> fst ` set r"
  shows "prefix r (fill_row c v (r @ s))"
proof -
  have "map (\<lambda>(n, x). if n = c \<and> x = C_Null then (n, v (r @ s)) else (n, x)) r = r"
    using assms by (intro map_idI) (auto simp: image_iff)
  then show ?thesis by (simp add: fill_row_def)
qed

lemma row_step_prefix:
  assumes "prefix r0 r" and "\<And>c f. st = Fill t c f \<Longrightarrow> c \<notin> fst ` set r0"
  shows "prefix r0 (row_step db st t r)"
proof (cases st)
  case (Fill s c f)
  then show ?thesis using assms fill_row_append by (auto simp: prefix_def [of r0 r])
qed (use assms(1) in \<open>auto simp: prefix_def\<close>)

lemma execute_kept:
  assumes "tables_kept db0 db" and "execute st db = (Inr (), db')"
    and "\<And>t c f. st = Fill t c f \<Longrightarrow> new_in db0 t c"
  shows "tables_kept db0 db'"
  unfolding tables_kept_def
proof (intro allI impI)
  fix t tb0 assume tb0: "table_named t db0 = Some tb0"
  with assms(1) obtain tb where tb: "table_named t db = Some tb" and pre: "list_all2 prefix (tb_rows tb0) (tb_rows tb)"
    unfolding tables_kept_def by blast
  from execute_rows [OF assms(2) tb] obtain tb' where tb': "table_named t db' = Some tb'"
    and rows: "tb_rows tb' = map (row_step db st t) (tb_rows tb)" by blast
  have "list_all2 prefix (tb_rows tb0) (map (row_step db st t) (tb_rows tb))"
    unfolding list_all2_map2
  proof (rule list.rel_mono_strong [OF pre])
    fix r0 r assume r0: "r0 \<in> set (tb_rows tb0)" "prefix r0 r"
    have "c \<notin> fst ` set r0" if "st = Fill t c f" for c f
      using assms(3) [OF that] tb0 r0(1) unfolding new_in_def by blast
    with r0(2) show "prefix r0 (row_step db st t r)" by (rule row_step_prefix)
  qed
  with tb' rows show "\<exists>tb'. table_named t db' = Some tb' \<and> list_all2 prefix (tb_rows tb0) (tb_rows tb')" by simp
qed

lemma added_is_new:
  assumes "tables_kept db0 db" and "fits db" and "execute (Add_Column t c) db = (Inr (), db')"
  shows "new_in db0 t (cl_name c)"
  unfolding new_in_def
proof (intro allI impI)
  fix tb0 r0 assume tb0: "table_named t db0 = Some tb0" "r0 \<in> set (tb_rows tb0)"
  with assms(1) obtain tb where tb: "table_named t db = Some tb" "list_all2 prefix (tb_rows tb0) (tb_rows tb)"
    unfolding tables_kept_def by blast
  from tb0(2) obtain i where i: "i < length (tb_rows tb0)" "tb_rows tb0 ! i = r0" by (auto simp: in_set_conv_nth)
  define r where "r = tb_rows tb ! i"
  have r: "r \<in> set (tb_rows tb)" "prefix r0 r"
    using i list_all2_lengthD [OF tb(2)] list_all2_nthD [OF tb(2) i(1)] by (simp_all add: r_def)
  have "\<not> has_column (cl_name c) tb" using assms(3) tb(1) by (auto simp: add_column_def Let_def split: if_splits)
  moreover have "map fst r = map cl_name (tb_columns tb)"
    using assms(2) r(1) table_named_name [OF tb(1)] by (auto simp: fits_def)
  then have "fst ` set r = cl_name ` set (tb_columns tb)" by (metis list.set_map)
  ultimately have "cl_name c \<notin> fst ` set r" by (simp add: has_column_def)
  with r(2) show "cl_name c \<notin> fst ` set r0" using set_mono_prefix by blast
qed

lemma map_of_fill_row: "k \<noteq> c \<Longrightarrow> map_of (fill_row c v r) k = map_of r k"
proof -
  assume "k \<noteq> c"
  then have "map_of (map (\<lambda>(n, x). if n = c \<and> x = C_Null then (n, y) else (n, x)) r) k = map_of r k" for y
    by (induction r) auto
  then show ?thesis by (simp add: fill_row_def)
qed

lemma row_step_map_of:
  assumes "map_of r k = Some x" and "\<And>t c f. st = Fill t c f \<Longrightarrow> c \<noteq> k"
  shows "map_of (row_step db st t r) k = Some x"
  using assms by (cases st) (auto simp: map_of_fill_row)

lemma numbered_rows_step:
  assumes "numbered_rows rs" and "\<And>r x. r \<in> set rs \<Longrightarrow> map_of r ''checkpoint_id'' = Some x \<Longrightarrow> map_of (g r) ''checkpoint_id'' = Some x"
  shows "numbered_rows (map g rs)"
proof -
  obtain ns where ns: "distinct ns" "map (\<lambda>r. map_of r ''checkpoint_id'') rs = map (Some \<circ> C_Int) ns"
    using assms(1) by (auto simp: numbered_rows_def)
  have "map_of (g r) ''checkpoint_id'' = map_of r ''checkpoint_id''" if "r \<in> set rs" for r
  proof -
    have "map_of r ''checkpoint_id'' \<in> set (map (\<lambda>r. map_of r ''checkpoint_id'') rs)" using that by simp
    then have "map_of r ''checkpoint_id'' \<in> set (map (Some \<circ> C_Int) ns)" by (simp only: ns(2))
    then obtain x where "map_of r ''checkpoint_id'' = Some x" by auto
    with assms(2) [OF that this] show ?thesis by simp
  qed
  then have "map (\<lambda>r. map_of r ''checkpoint_id'') (map g rs) = map (Some \<circ> C_Int) ns" by (simp add: ns(2) [symmetric])
  with ns(1) show ?thesis unfolding numbered_rows_def by blast
qed

lemma execute_numbered:
  assumes "numbered db" and "execute st db = (Inr (), db')" and "\<And>t c f. st = Fill t c f \<Longrightarrow> c \<noteq> ''checkpoint_id''"
  shows "numbered db'"
proof (cases "table_named ''checkpoints'' db")
  case None
  then have "table_named ''checkpoints'' db' = Some tb \<Longrightarrow> tb_rows tb = []" for tb
    using assms(2) by (cases st) (auto simp: create_table_def add_column_def create_index_def fill_column_def Let_def
        table_named_change split: if_splits option.splits)
  then show ?thesis by (auto simp: numbered_def numbered_rows_def)
next
  case (Some tb)
  from execute_rows [OF assms(2) Some] obtain tb' where "table_named ''checkpoints'' db' = Some tb'"
    "tb_rows tb' = map (row_step db st ''checkpoints'') (tb_rows tb)" by blast
  moreover have "numbered_rows (map (row_step db st ''checkpoints'') (tb_rows tb))"
    using assms(1) Some row_step_map_of [OF _ assms(3)] by (intro numbered_rows_step) (auto simp: numbered_def)
  ultimately show ?thesis by (simp add: numbered_def)
qed

section \<open>Scripts\<close>

lemma for_each_append: "for_each f (xs @ ys) = seq_op (for_each f xs) (for_each f ys)"
  by (induction xs) (auto simp: op_defs split: prod.splits sum.splits)

lemma script_append_InrE:
  assumes "execute_script (as @ bs) db = (Inr (), db')"
  obtains m where "execute_script as db = (Inr (), m)" and "execute_script bs m = (Inr (), db')"
  using assms by (auto simp: execute_script_def for_each_append elim: seq_op_InrE)

lemma script_appendI:
  "execute_script as db = (Inr (), d) \<Longrightarrow> execute_script bs d = r \<Longrightarrow> execute_script (as @ bs) db = r"
  by (simp add: execute_script_def for_each_append seq_op_def)

lemma script_Cons [simp]: "execute_script (st # ss) = seq_op (execute st) (execute_script ss)"
  "execute_script [] = ret ()"
  by (simp_all add: execute_script_def)

text \<open>
  A script that adds tables and columns and fills only columns that it added itself, whatever the rows are.
\<close>

fun plain_script :: "(string \<times> string) list \<Rightarrow> statement list \<Rightarrow> bool" where
  "plain_script new [] \<longleftrightarrow> True"
| "plain_script new (Add_Column t c # ss) \<longleftrightarrow>
     (cl_not_null c \<longrightarrow> cl_default c \<notin> {None, Some C_Null}) \<and> plain_script ((t, cl_name c) # new) ss"
| "plain_script new (Create_Index u i t cs # ss) \<longleftrightarrow> \<not> u \<and> plain_script new ss"
| "plain_script new (Fill t c f # ss) \<longleftrightarrow> (t, c) \<in> set new \<and> c \<noteq> ''checkpoint_id'' \<and> plain_script new ss"
| "plain_script new (Create_Table t cs ks # ss) \<longleftrightarrow> plain_script new ss"

definition upgrades :: "statement list \<Rightarrow> bool" where
  "upgrades ss \<longleftrightarrow> (\<forall>db sh. fits db \<longrightarrow> numbered db \<longrightarrow> execute_script ss (shape db) = (Inr (), sh) \<longrightarrow>
     (\<exists>db'. execute_script ss db = (Inr (), db') \<and> shape db' = sh \<and> fits db' \<and> numbered db' \<and> tables_kept db db'))"

lemma tables_kept_refl: "tables_kept db db"
  by (auto simp: tables_kept_def intro: list.rel_refl)

lemma tables_kept_trans:
  assumes "tables_kept a b" and "tables_kept b c"
  shows "tables_kept a c"
  unfolding tables_kept_def
proof (intro allI impI)
  fix t x assume "table_named t a = Some x"
  with assms(1) obtain y where y: "table_named t b = Some y" "list_all2 prefix (tb_rows x) (tb_rows y)"
    unfolding tables_kept_def by blast
  with assms(2) obtain z where z: "table_named t c = Some z" "list_all2 prefix (tb_rows y) (tb_rows z)"
    unfolding tables_kept_def by blast
  have "list_all2 prefix (tb_rows x) (tb_rows z)"
    by (rule list_all2_trans [OF _ y(2) z(2)]) (rule prefix_order.trans)
  with z(1) show "\<exists>z. table_named t c = Some z \<and> list_all2 prefix (tb_rows x) (tb_rows z)" by blast
qed

lemma plain_upgrades':
  assumes "fits db" and "numbered db" and "tables_kept db0 db" and "execute_script ss (shape db) = (Inr (), sh)"
    and "plain_script new ss" and "\<And>t c. (t, c) \<in> set new \<Longrightarrow> new_in db0 t c"
  shows "\<exists>db'. execute_script ss db = (Inr (), db') \<and> shape db' = sh \<and> fits db' \<and> numbered db' \<and> tables_kept db0 db'"
  using assms
proof (induction ss arbitrary: db new)
  case Nil
  then show ?case by (simp add: ret_def)
next
  case (Cons st ss)
  from Cons.prems(4) obtain sh1 where sh1: "execute st (shape db) = (Inr (), sh1)" "execute_script ss sh1 = (Inr (), sh)"
    by (auto elim: seq_op_InrE)
  have allow: "rows_allow db st" using Cons.prems(5) by (cases st) (auto split: option.splits)
  from execute_shape [OF sh1(1) allow] obtain db1 where db1: "execute st db = (Inr (), db1)" "shape db1 = sh1" by blast
  define new1 where "new1 = (case st of Add_Column t c \<Rightarrow> (t, cl_name c) # new | _ \<Rightarrow> new)"
  have fill: "(t, c) \<in> set new" "c \<noteq> ''checkpoint_id''" if "st = Fill t c f" for t c f
    using Cons.prems(5) that by auto
  have kept: "tables_kept db0 db1"
    using execute_kept [OF Cons.prems(3) db1(1)] fill(1) Cons.prems(6) by blast
  have "numbered db1" using execute_numbered [OF Cons.prems(2) db1(1)] fill(2) by blast
  moreover have "new_in db0 t c" if "(t, c) \<in> set new1" for t c
    using that Cons.prems(6) added_is_new [OF Cons.prems(3,1)] db1(1) by (cases st) (auto simp: new1_def)
  moreover have "plain_script new1 ss" using Cons.prems(5) by (cases st) (auto simp: new1_def)
  ultimately obtain db' where "execute_script ss db1 = (Inr (), db')" "shape db' = sh" "fits db'" "numbered db'" "tables_kept db0 db'"
    using Cons.IH [OF execute_fits [OF db1(1) Cons.prems(1)] _ kept] sh1(2) db1(2) by metis
  with db1(1) show ?case by (auto simp: seq_op_def)
qed

lemma plain_upgrades:
  assumes "plain_script [] ss"
  shows "upgrades ss"
  unfolding upgrades_def
proof (intro allI impI)
  fix db sh assume "fits db" "numbered db" "execute_script ss (shape db) = (Inr (), sh)"
  from plain_upgrades' [OF this(1,2) tables_kept_refl this(3) assms]
  show "\<exists>db'. execute_script ss db = (Inr (), db') \<and> shape db' = sh \<and> fits db' \<and> numbered db' \<and> tables_kept db db'" by simp
qed

lemma upgrades_append:
  assumes "upgrades as" and "upgrades bs"
  shows "upgrades (as @ bs)"
  unfolding upgrades_def
proof (intro allI impI)
  fix db sh assume db: "fits db" "numbered db" and "execute_script (as @ bs) (shape db) = (Inr (), sh)"
  then obtain m where m: "execute_script as (shape db) = (Inr (), m)" "execute_script bs m = (Inr (), sh)"
    by (auto elim: script_append_InrE)
  with assms(1) db obtain d1 where d1: "execute_script as db = (Inr (), d1)" "shape d1 = m" "fits d1" "numbered d1" "tables_kept db d1"
    unfolding upgrades_def by blast
  with assms(2) m(2) obtain d2 where d2: "execute_script bs d1 = (Inr (), d2)" "shape d2 = sh" "fits d2" "numbered d2" "tables_kept d1 d2"
    unfolding upgrades_def by blast
  moreover have "execute_script (as @ bs) db = (Inr (), d2)"
    by (rule script_appendI [OF d1(1) d2(1)])
  ultimately show "\<exists>db'. execute_script (as @ bs) db = (Inr (), db') \<and> shape db' = sh \<and> fits db' \<and> numbered db' \<and> tables_kept db db'"
    using tables_kept_trans [OF d1(5)] by blast
qed

text \<open>The unique index over the references of checkpoints: they were made from their numbers just before.\<close>

lemma filled_ref:
  assumes "c \<notin> fst ` set r" and "map_of r k = Some (C_Int n)"
  shows "cell_of (fill_row c (fill_value db (Text_Of p k)) (r @ [(c, C_Null)])) c = C_Text (p @ int_str n)"
proof -
  have "map_of r c = None" using assms(1) by (simp add: map_of_eq_None_iff)
  moreover have "map_of (map (\<lambda>(m, x). if m = c \<and> x = C_Null then (m, v) else (m, x)) r) c = None" for v
    using assms(1) by (induction r) auto
  ultimately show ?thesis using assms(2)
    by (simp add: fill_row_def fill_value_def cell_of_def map_add_def)
qed

lemma refs_unique:
  assumes "fits db" and "numbered db"
    and "execute_script [Add_Column ''checkpoints'' (col_text ''checkpoint_ref''),
      Fill ''checkpoints'' ''checkpoint_ref'' (Text_Of ''checkpoint:'' ''checkpoint_id'')] db = (Inr (), db')"
    and "table_named ''checkpoints'' db' = Some tb'"
  shows "distinct (index_keys [''checkpoint_ref''] tb')"
proof -
  let ?c = "''checkpoint_ref''" and ?f = "Text_Of ''checkpoint:'' ''checkpoint_id''"
  obtain d where d: "execute (Add_Column ''checkpoints'' (col_text ?c)) db = (Inr (), d)"
    "execute (Fill ''checkpoints'' ?c ?f) d = (Inr (), db')"
    using assms(3) by (auto simp: ret_def elim!: seq_op_InrE)
  obtain tb where tb: "table_named ''checkpoints'' db = Some tb" "\<not> has_column ?c tb"
    using d(1) by (auto simp: add_column_def new_column_def Let_def split: option.splits if_splits)
  from execute_rows [OF d(1) tb(1)] obtain tb1 where tb1: "table_named ''checkpoints'' d = Some tb1"
    "tb_rows tb1 = map (\<lambda>r. r @ [(?c, C_Null)]) (tb_rows tb)" by (auto simp: new_column_def)
  from execute_rows [OF d(2) tb1(1)] assms(4) have rows:
    "tb_rows tb' = map (\<lambda>r. fill_row ?c (fill_value d ?f) (r @ [(?c, C_Null)])) (tb_rows tb)"
    by (simp add: tb1(2) comp_def)
  obtain ns where ns: "distinct ns" "map (\<lambda>r. map_of r ''checkpoint_id'') (tb_rows tb) = map (Some \<circ> C_Int) ns"
    using assms(2) tb(1) by (auto simp: numbered_def numbered_rows_def)
  have new: "?c \<notin> fst ` set r" if "r \<in> set (tb_rows tb)" for r
  proof -
    have "map fst r = map cl_name (tb_columns tb)" using assms(1) that table_named_name [OF tb(1)] by (auto simp: fits_def)
    then have "fst ` set r = cl_name ` set (tb_columns tb)" by (metis list.set_map)
    with tb(2) show ?thesis by (simp add: has_column_def)
  qed
  have "map (\<lambda>r. map (cell_of (fill_row ?c (fill_value d ?f) (r @ [(?c, C_Null)]))) [?c]) (tb_rows tb)
      = map (\<lambda>n. [C_Text (''checkpoint:'' @ int_str n)]) ns"
  proof (rule nth_equalityI)
    show len: "length (map (\<lambda>r. map (cell_of (fill_row ?c (fill_value d ?f) (r @ [(?c, C_Null)]))) [?c]) (tb_rows tb))
        = length (map (\<lambda>n. [C_Text (''checkpoint:'' @ int_str n)]) ns)"
      using arg_cong [OF ns(2), of length] by simp
    fix i assume "i < length (map (\<lambda>r. map (cell_of (fill_row ?c (fill_value d ?f) (r @ [(?c, C_Null)]))) [?c]) (tb_rows tb))"
    then have i: "i < length (tb_rows tb)" "i < length ns" using len by simp_all
    have "map_of (tb_rows tb ! i) ''checkpoint_id'' = Some (C_Int (ns ! i))"
      using arg_cong [OF ns(2), of "\<lambda>xs. xs ! i"] i by simp
    from filled_ref [OF new [OF nth_mem [OF i(1)]] this]
    show "map (\<lambda>r. map (cell_of (fill_row ?c (fill_value d ?f) (r @ [(?c, C_Null)]))) [?c]) (tb_rows tb) ! i
        = map (\<lambda>n. [C_Text (''checkpoint:'' @ int_str n)]) ns ! i" using i by simp
  qed
  moreover have "inj_on (\<lambda>n. [C_Text (''checkpoint:'' @ int_str n)]) (set ns)"
    by (auto intro!: inj_onI dest: int_str_inj)
  ultimately show ?thesis using ns(1) by (simp add: index_keys_def rows comp_def distinct_map)
qed

lemma upgrades_2: "upgrades migration_2"
proof -
  let ?index = "Create_Index True ''checkpoints_ref_unique'' ''checkpoints'' [''checkpoint_ref'']"
  let ?refs = "[Add_Column ''checkpoints'' (col_text ''checkpoint_ref''),
      Fill ''checkpoints'' ''checkpoint_ref'' (Text_Of ''checkpoint:'' ''checkpoint_id'')]"
  have split: "migration_2 = take 5 migration_2 @ (?refs @ [?index]) @ drop 8 migration_2"
    by (simp add: migration_2_def)
  have "upgrades (take 5 migration_2)" "upgrades (drop 8 migration_2)" and refs: "upgrades ?refs"
    by (rule plain_upgrades, code_simp)+
  moreover have "upgrades (?refs @ [?index])"
    unfolding upgrades_def
  proof (intro allI impI)
    fix db sh assume db: "fits db" "numbered db" "execute_script (?refs @ [?index]) (shape db) = (Inr (), sh)"
    obtain m where m: "execute_script ?refs (shape db) = (Inr (), m)" "execute_script [?index] m = (Inr (), sh)"
      using db(3) by (rule script_append_InrE)
    from refs db(1,2) m(1) obtain d where d: "execute_script ?refs db = (Inr (), d)" "shape d = m" "fits d" "numbered d" "tables_kept db d"
      unfolding upgrades_def by blast
    have "rows_allow d ?index" using refs_unique [OF db(1,2) d(1)] by (auto split: option.splits)
    moreover have "execute ?index (shape d) = (Inr (), sh)"
      using m(2) d(2) by (auto simp: ret_def elim!: seq_op_InrE)
    ultimately obtain d' where d': "execute ?index d = (Inr (), d')" "shape d' = sh" using execute_shape by blast
    have "execute_script (?refs @ [?index]) db = (Inr (), d')"
      by (rule script_appendI [OF d(1)]) (use d'(1) in \<open>simp add: seq_op_def ret_def\<close>)
    moreover have "fits d'" "numbered d'" "tables_kept db d'"
      using execute_fits [OF d'(1) d(3)] execute_numbered [OF d(4) d'(1)] execute_kept [OF d(5) d'(1)] by simp_all
    ultimately show "\<exists>db'. execute_script (?refs @ [?index]) db = (Inr (), db') \<and> shape db' = sh \<and> fits db' \<and> numbered db' \<and> tables_kept db db'"
      using d'(2) by blast
  qed
  ultimately show ?thesis by (subst split) (rule upgrades_append, assumption, rule upgrades_append, assumption+)
qed

lemma migrations_upgrade: "ss \<in> set migrations \<Longrightarrow> upgrades ss"
proof -
  have "plain_script [] migration_1" "plain_script [] migration_3" "plain_script [] migration_4" "plain_script [] migration_5"
    "plain_script [] migration_6" "plain_script [] migration_7" "plain_script [] migration_8" "plain_script [] migration_9"
    "plain_script [] migration_10" by code_simp+
  then show "ss \<in> set migrations \<Longrightarrow> upgrades ss"
    using upgrades_2 plain_upgrades by (auto simp: migrations_def)
qed

text \<open>
  What is known of a catalog without rows: its tables, its indexes, and the columns of some tables. It is enough to see
  that a script is accepted.
\<close>

type_synonym known = "string list \<times> string list \<times> (string \<times> string list) list"

definition fill_known :: "(string \<times> string list) list \<Rightarrow> string list \<Rightarrow> fill \<Rightarrow> bool" where
  "fill_known cols ns f \<longleftrightarrow> (case f of
     From_Table s x k \<Rightarrow> k \<in> set ns \<and> (case map_of cols s of None \<Rightarrow> False | Some ms \<Rightarrow> x \<in> set ms \<and> k \<in> set ms)
   | Text_Of p k \<Rightarrow> k \<in> set ns)"

fun check_statement :: "statement \<Rightarrow> known \<Rightarrow> known option" where
  "check_statement (Create_Table t cs ks) (ts, is, cols) =
     (if t \<in> set ts \<or> t \<in> set is then None else Some (t # ts, is, (t, map cl_name cs) # cols))"
| "check_statement (Add_Column t c) (ts, is, cols) = (case map_of cols t of None \<Rightarrow> None | Some ns \<Rightarrow>
     if cl_name c \<in> set ns then None else Some (ts, is, (t, cl_name c # ns) # filter (\<lambda>p. fst p \<noteq> t) cols))"
| "check_statement (Create_Index u i t cs) (ts, is, cols) = (case map_of cols t of None \<Rightarrow> None | Some ns \<Rightarrow>
     if i \<in> set ts \<or> i \<in> set is \<or> \<not> list_all (\<lambda>c. c \<in> set ns) cs then None else Some (ts, i # is, cols))"
| "check_statement (Fill t c f) (ts, is, cols) = (case map_of cols t of None \<Rightarrow> None | Some ns \<Rightarrow>
     if c \<in> set ns \<and> fill_known cols ns f then Some (ts, is, cols) else None)"

fun check_script :: "string list \<Rightarrow> statement list \<Rightarrow> known \<Rightarrow> known option" where
  "check_script keep [] (ts, is, cols) = Some (ts, is, filter (\<lambda>p. fst p \<in> set keep) cols)"
| "check_script keep (st # ss) k = (case check_statement st k of None \<Rightarrow> None | Some k' \<Rightarrow> check_script keep ss k')"


definition known_0 :: known where
  "known_0 =
    ([], [], [])"

definition known_1 :: known where
  "known_1 =
    ([''event_outbox'', ''artifact_metadata'', ''reports'', ''control_intents'', ''external_handles'',
    ''checkpoints'', ''budgets'', ''edge_traversals'', ''attempts'', ''nodes'', ''runs''], [],
    [(''artifact_metadata'', [''artifact_id'', ''run_id'', ''uri'', ''sha256_digest'', ''media_type'',
    ''size_bytes'', ''created_at'']), (''external_handles'', [''run_id'', ''node_id'', ''idempotency_key'',
    ''trigger_state'', ''handle'', ''updated_at'']), (''checkpoints'', [''checkpoint_id'', ''run_id'',
    ''reason'', ''state_json'', ''created_at'']), (''budgets'', [''run_id'', ''max_duration_seconds'',
    ''max_executor_calls'', ''max_repair_iterations'', ''max_cost_units'', ''executor_calls'',
    ''repair_iterations'', ''cost_units'']), (''nodes'', [''run_id'', ''node_id'', ''node_type'', ''status'',
    ''attempt_count'', ''result_json'', ''route_resolved'']), (''runs'', [''run_id'', ''project_id'',
    ''contract_id'', ''contract_revision'', ''contract_hash'', ''graph_id'', ''graph_hash'', ''graph_json'',
    ''status'', ''barrier'', ''current_node_id'', ''parent_run_id'', ''supersedes_run_id'',
    ''restart_from_json'', ''terminal_reason'', ''error_json'', ''unverified_json'', ''external_effects_json'',
    ''created_at'', ''updated_at''])])"

definition known_2 :: known where
  "known_2 =
    ([''run_artifacts'', ''event_outbox'', ''artifact_metadata'', ''reports'', ''control_intents'',
    ''external_handles'', ''checkpoints'', ''budgets'', ''edge_traversals'', ''attempts'', ''nodes'', ''runs''],
    [''checkpoints_ref_unique''], [(''external_handles'', [''run_id'', ''node_id'', ''idempotency_key'',
    ''trigger_state'', ''handle'', ''updated_at''])])"

definition known_3 :: known where
  "known_3 =
    ([''verifier_executions'', ''review_attempts'', ''supervised_processes'', ''executor_sessions'',
    ''run_artifacts'', ''event_outbox'', ''artifact_metadata'', ''reports'', ''control_intents'',
    ''external_handles'', ''checkpoints'', ''budgets'', ''edge_traversals'', ''attempts'', ''nodes'', ''runs''],
    [''executor_sessions_run_node'', ''checkpoints_ref_unique''], [(''external_handles'', [''run_id'',
    ''node_id'', ''idempotency_key'', ''trigger_state'', ''handle'', ''updated_at''])])"

definition known_4 :: known where
  "known_4 =
    ([''planned_runs'', ''contract_deltas'', ''acceptance_locks'', ''contract_revisions'', ''contract_drafts'',
    ''discovery_sessions'', ''pending_confirmations'', ''intent_compilations'', ''human_messages'',
    ''conversations'', ''verifier_executions'', ''review_attempts'', ''supervised_processes'',
    ''executor_sessions'', ''run_artifacts'', ''event_outbox'', ''artifact_metadata'', ''reports'',
    ''control_intents'', ''external_handles'', ''checkpoints'', ''budgets'', ''edge_traversals'', ''attempts'',
    ''nodes'', ''runs''], [''human_messages_conversation'', ''executor_sessions_run_node'',
    ''checkpoints_ref_unique''], [(''pending_confirmations'', [''confirmation_id'', ''conversation_id'',
    ''intent_json'', ''status'', ''result_json'', ''created_at'', ''resolved_at'']), (''external_handles'',
    [''run_id'', ''node_id'', ''idempotency_key'', ''trigger_state'', ''handle'', ''updated_at''])])"

definition known_5 :: known where
  "known_5 =
    ([''contract_verifier_bindings'', ''verifier_lifecycle_evidence'', ''verifier_revisions'', ''planned_runs'',
    ''contract_deltas'', ''acceptance_locks'', ''contract_revisions'', ''contract_drafts'',
    ''discovery_sessions'', ''pending_confirmations'', ''intent_compilations'', ''human_messages'',
    ''conversations'', ''verifier_executions'', ''review_attempts'', ''supervised_processes'',
    ''executor_sessions'', ''run_artifacts'', ''event_outbox'', ''artifact_metadata'', ''reports'',
    ''control_intents'', ''external_handles'', ''checkpoints'', ''budgets'', ''edge_traversals'', ''attempts'',
    ''nodes'', ''runs''], [''human_messages_conversation'', ''executor_sessions_run_node'',
    ''checkpoints_ref_unique''], [(''pending_confirmations'', [''confirmation_id'', ''conversation_id'',
    ''intent_json'', ''status'', ''result_json'', ''created_at'', ''resolved_at''])])"

definition known_6 :: known where
  "known_6 =
    ([''human_acceptance_records'', ''delivery_report_revisions'', ''delivery_terminal_fixtures'',
    ''pull_request_handles'', ''pull_request_intents'', ''github_check_queries'',
    ''requirement_matrix_revisions'', ''phase5_review_dimensions'', ''phase5_review_attempts'',
    ''contract_verifier_bindings'', ''verifier_lifecycle_evidence'', ''verifier_revisions'', ''planned_runs'',
    ''contract_deltas'', ''acceptance_locks'', ''contract_revisions'', ''contract_drafts'',
    ''discovery_sessions'', ''pending_confirmations'', ''intent_compilations'', ''human_messages'',
    ''conversations'', ''verifier_executions'', ''review_attempts'', ''supervised_processes'',
    ''executor_sessions'', ''run_artifacts'', ''event_outbox'', ''artifact_metadata'', ''reports'',
    ''control_intents'', ''external_handles'', ''checkpoints'', ''budgets'', ''edge_traversals'', ''attempts'',
    ''nodes'', ''runs''], [''human_messages_conversation'', ''executor_sessions_run_node'',
    ''checkpoints_ref_unique''], [(''pending_confirmations'', [''confirmation_id'', ''conversation_id'',
    ''intent_json'', ''status'', ''result_json'', ''created_at'', ''resolved_at''])])"

definition known_7 :: known where
  "known_7 =
    ([''ipc_mutation_replays'', ''human_acceptance_records'', ''delivery_report_revisions'',
    ''delivery_terminal_fixtures'', ''pull_request_handles'', ''pull_request_intents'',
    ''github_check_queries'', ''requirement_matrix_revisions'', ''phase5_review_dimensions'',
    ''phase5_review_attempts'', ''contract_verifier_bindings'', ''verifier_lifecycle_evidence'',
    ''verifier_revisions'', ''planned_runs'', ''contract_deltas'', ''acceptance_locks'', ''contract_revisions'',
    ''contract_drafts'', ''discovery_sessions'', ''pending_confirmations'', ''intent_compilations'',
    ''human_messages'', ''conversations'', ''verifier_executions'', ''review_attempts'',
    ''supervised_processes'', ''executor_sessions'', ''run_artifacts'', ''event_outbox'', ''artifact_metadata'',
    ''reports'', ''control_intents'', ''external_handles'', ''checkpoints'', ''budgets'', ''edge_traversals'',
    ''attempts'', ''nodes'', ''runs''], [''human_messages_conversation'', ''executor_sessions_run_node'',
    ''checkpoints_ref_unique''], [])"

definition known_8 :: known where
  "known_8 =
    ([''shared_budget_reservations'', ''parallel_branch_edge_traversals'', ''parallel_branch_attempts'',
    ''parallel_branch_nodes'', ''parallel_branches'', ''ipc_mutation_replays'', ''human_acceptance_records'',
    ''delivery_report_revisions'', ''delivery_terminal_fixtures'', ''pull_request_handles'',
    ''pull_request_intents'', ''github_check_queries'', ''requirement_matrix_revisions'',
    ''phase5_review_dimensions'', ''phase5_review_attempts'', ''contract_verifier_bindings'',
    ''verifier_lifecycle_evidence'', ''verifier_revisions'', ''planned_runs'', ''contract_deltas'',
    ''acceptance_locks'', ''contract_revisions'', ''contract_drafts'', ''discovery_sessions'',
    ''pending_confirmations'', ''intent_compilations'', ''human_messages'', ''conversations'',
    ''verifier_executions'', ''review_attempts'', ''supervised_processes'', ''executor_sessions'',
    ''run_artifacts'', ''event_outbox'', ''artifact_metadata'', ''reports'', ''control_intents'',
    ''external_handles'', ''checkpoints'', ''budgets'', ''edge_traversals'', ''attempts'', ''nodes'', ''runs''],
    [''parallel_branches_schedulable'', ''human_messages_conversation'', ''executor_sessions_run_node'',
    ''checkpoints_ref_unique''], [])"

definition known_9 :: known where
  "known_9 =
    ([''container_executions'', ''shared_budget_reservations'', ''parallel_branch_edge_traversals'',
    ''parallel_branch_attempts'', ''parallel_branch_nodes'', ''parallel_branches'', ''ipc_mutation_replays'',
    ''human_acceptance_records'', ''delivery_report_revisions'', ''delivery_terminal_fixtures'',
    ''pull_request_handles'', ''pull_request_intents'', ''github_check_queries'',
    ''requirement_matrix_revisions'', ''phase5_review_dimensions'', ''phase5_review_attempts'',
    ''contract_verifier_bindings'', ''verifier_lifecycle_evidence'', ''verifier_revisions'', ''planned_runs'',
    ''contract_deltas'', ''acceptance_locks'', ''contract_revisions'', ''contract_drafts'',
    ''discovery_sessions'', ''pending_confirmations'', ''intent_compilations'', ''human_messages'',
    ''conversations'', ''verifier_executions'', ''review_attempts'', ''supervised_processes'',
    ''executor_sessions'', ''run_artifacts'', ''event_outbox'', ''artifact_metadata'', ''reports'',
    ''control_intents'', ''external_handles'', ''checkpoints'', ''budgets'', ''edge_traversals'', ''attempts'',
    ''nodes'', ''runs''], [''container_executions_run_state'', ''parallel_branches_schedulable'',
    ''human_messages_conversation'', ''executor_sessions_run_node'', ''checkpoints_ref_unique''], [])"

definition known_10 :: known where
  "known_10 =
    ([''delivery_stage_checkpoints'', ''run_start_requests'', ''container_executions'',
    ''shared_budget_reservations'', ''parallel_branch_edge_traversals'', ''parallel_branch_attempts'',
    ''parallel_branch_nodes'', ''parallel_branches'', ''ipc_mutation_replays'', ''human_acceptance_records'',
    ''delivery_report_revisions'', ''delivery_terminal_fixtures'', ''pull_request_handles'',
    ''pull_request_intents'', ''github_check_queries'', ''requirement_matrix_revisions'',
    ''phase5_review_dimensions'', ''phase5_review_attempts'', ''contract_verifier_bindings'',
    ''verifier_lifecycle_evidence'', ''verifier_revisions'', ''planned_runs'', ''contract_deltas'',
    ''acceptance_locks'', ''contract_revisions'', ''contract_drafts'', ''discovery_sessions'',
    ''pending_confirmations'', ''intent_compilations'', ''human_messages'', ''conversations'',
    ''verifier_executions'', ''review_attempts'', ''supervised_processes'', ''executor_sessions'',
    ''run_artifacts'', ''event_outbox'', ''artifact_metadata'', ''reports'', ''control_intents'',
    ''external_handles'', ''checkpoints'', ''budgets'', ''edge_traversals'', ''attempts'', ''nodes'', ''runs''],
    [''run_start_requests_run_state'', ''container_executions_run_state'', ''parallel_branches_schedulable'',
    ''human_messages_conversation'', ''executor_sessions_run_node'', ''checkpoints_ref_unique''], [])"

lemma scripts_accepted:
  "check_script [''runs'', ''nodes'', ''budgets'', ''checkpoints'', ''artifact_metadata'', ''external_handles''] migration_1 known_0 = Some known_1"
  "check_script [''external_handles''] migration_2 known_1 = Some known_2"
  "check_script [''external_handles''] migration_3 known_2 = Some known_3"
  "check_script [''external_handles'', ''pending_confirmations''] migration_4 known_3 = Some known_4"
  "check_script [''pending_confirmations''] migration_5 known_4 = Some known_5"
  "check_script [''pending_confirmations''] migration_6 known_5 = Some known_6"
  "check_script [] migration_7 known_6 = Some known_7"
  "check_script [] migration_8 known_7 = Some known_8"
  "check_script [] migration_9 known_8 = Some known_9"
  "check_script [] migration_10 known_9 = Some known_10"
  by code_simp+

fun knows :: "known \<Rightarrow> catalog \<Rightarrow> bool" where
  "knows (ts, is, cols) db \<longleftrightarrow> tb_name ` set (ct_tables db) = set ts \<and> ix_name ` set (ct_indexes db) = set is \<and>
     (\<forall>t cs. map_of cols t = Some cs \<longrightarrow> (\<exists>tb. table_named t db = Some tb \<and> cl_name ` set (tb_columns tb) = set cs)) \<and>
     (\<forall>tb \<in> set (ct_tables db). tb_rows tb = [])"

lemma named_iff: "table_named t db \<noteq> None \<longleftrightarrow> t \<in> tb_name ` set (ct_tables db)"
  by (auto simp: table_named_def find_None_iff)

lemma map_of_filter_key: "map_of (filter (\<lambda>p. fst p \<noteq> t) xs) u = (if u = t then None else map_of xs u)"
  by (induction xs) auto

lemma map_of_filter_in: "map_of (filter (\<lambda>p. fst p \<in> K) xs) u = (if u \<in> K then map_of xs u else None)"
  by (induction xs) auto

lemma known_columns:
  "knows (ts, is, cols) db \<Longrightarrow> map_of cols t = Some cs \<Longrightarrow>
    \<exists>tb. table_named t db = Some tb \<and> cl_name ` set (tb_columns tb) = set cs"
  unfolding knows.simps by blast

lemma change_table_sets:
  assumes "\<And>tb. tb_name (f tb) = tb_name tb" and "\<And>tb. tb_rows tb = [] \<Longrightarrow> tb_rows (f tb) = []"
  shows "tb_name ` set (ct_tables (change_table t f db)) = tb_name ` set (ct_tables db)"
    and "ct_indexes (change_table t f db) = ct_indexes db"
    and "\<forall>tb \<in> set (ct_tables db). tb_rows tb = [] \<Longrightarrow> \<forall>tb \<in> set (ct_tables (change_table t f db)). tb_rows tb = []"
proof -
  have "map tb_name (ct_tables (change_table t f db)) = map tb_name (ct_tables db)"
    by (auto simp: change_table_def assms(1))
  from arg_cong [OF this, of set] show "tb_name ` set (ct_tables (change_table t f db)) = tb_name ` set (ct_tables db)"
    by simp
qed (use assms(2) in \<open>auto simp: change_table_def\<close>)

lemma check_create:
  assumes "knows (ts, is, cols) db" and "t \<notin> set ts" and "t \<notin> set is"
  shows "\<exists>db'. create_table t cs ks db = (Inr (), db') \<and> knows (t # ts, is, (t, map cl_name cs) # cols) db'"
proof -
  have none: "table_named t db = None" using assms(1,2) named_iff [of t db] by auto
  have "\<not> has_index t db" using assms(1,3) by (auto simp: has_index_def)
  then have "create_table t cs ks db = (Inr (), db\<lparr>ct_tables := ct_tables db @
      [\<lparr>tb_name = t, tb_columns = cs, tb_constraints = ks, tb_rows = []\<rparr>]\<rparr>)" (is "_ = (_, ?db')")
    using none by (simp add: create_table_def)
  moreover have "\<exists>tb. table_named u ?db' = Some tb \<and> cl_name ` set (tb_columns tb) = set ms"
    if "map_of ((t, map cl_name cs) # cols) u = Some ms" for u ms
  proof (cases "u = t")
    case False
    with that known_columns [OF assms(1), of u ms] show ?thesis by auto
  qed (use that none in auto)
  then have "knows (t # ts, is, (t, map cl_name cs) # cols) ?db'"
    using assms(1) unfolding knows.simps by simp
  ultimately show ?thesis by blast
qed

lemma check_add:
  assumes "knows (ts, is, cols) db" and "map_of cols t = Some ns" and "cl_name c \<notin> set ns"
  shows "\<exists>db'. add_column t c db = (Inr (), db') \<and>
    knows (ts, is, (t, cl_name c # ns) # filter (\<lambda>p. fst p \<noteq> t) cols) db'"
proof -
  obtain tb where tb: "table_named t db = Some tb" "cl_name ` set (tb_columns tb) = set ns"
    using known_columns [OF assms(1,2)] by blast
  have "tb_rows tb = []" using assms(1) table_named_name [OF tb(1)] by simp
  moreover have "\<not> has_column (cl_name c) tb" using tb(2) assms(3) by (simp add: has_column_def)
  moreover define f :: "table \<Rightarrow> table" where "f = (\<lambda>tb. tb\<lparr>tb_columns := tb_columns tb @ [c],
      tb_rows := map (\<lambda>r. r @ [(cl_name c, case cl_default c of None \<Rightarrow> C_Null | Some v \<Rightarrow> v)]) (tb_rows tb)\<rparr>)"
  ultimately have "add_column t c db = (Inr (), change_table t f db)" using tb(1) by (simp add: add_column_def Let_def)
  moreover have "knows (ts, is, (t, cl_name c # ns) # filter (\<lambda>p. fst p \<noteq> t) cols) (change_table t f db)"
  proof -
    have f: "\<And>tb. tb_name (f tb) = tb_name tb" "\<And>tb. tb_rows tb = [] \<Longrightarrow> tb_rows (f tb) = []"
      "\<And>tb. tb_columns (f tb) = tb_columns tb @ [c]" by (simp_all add: f_def)
    note named = table_named_change [where f = f and s = t and db = db, OF f(1)]
    have "\<exists>tb. table_named u (change_table t f db) = Some tb \<and> cl_name ` set (tb_columns tb) = set ms"
      if "map_of ((t, cl_name c # ns) # filter (\<lambda>p. fst p \<noteq> t) cols) u = Some ms" for u ms
    proof (cases "u = t")
      case False
      with that have "map_of cols u = Some ms" by (simp add: map_of_filter_key)
      with known_columns [OF assms(1)] False show ?thesis by (auto simp: named)
    qed (use that tb in \<open>auto simp: named f(3)\<close>)
    then show ?thesis
      using assms(1) change_table_sets [where f = f and t = t and db = db, OF f(1,2)] unfolding knows.simps by simp
  qed
  ultimately show ?thesis by blast
qed

lemma check_index:
  assumes "knows (ts, is, cols) db" and "map_of cols t = Some ns" and "i \<notin> set ts" and "i \<notin> set is"
    and "list_all (\<lambda>c. c \<in> set ns) cs"
  shows "\<exists>db'. create_index u i t cs db = (Inr (), db') \<and> knows (ts, i # is, cols) db'"
proof -
  obtain tb where tb: "table_named t db = Some tb" "cl_name ` set (tb_columns tb) = set ns"
    using known_columns [OF assms(1,2)] by blast
  have "tb_rows tb = []" using assms(1) table_named_name [OF tb(1)] by simp
  moreover have "table_named i db = None" using assms(1,3) named_iff [of i db] by auto
  moreover have "\<not> has_index i db" using assms(1,4) by (auto simp: has_index_def)
  moreover have "list_all (\<lambda>c. has_column c tb) cs" using assms(5) tb(2) by (auto simp: has_column_def list_all_iff)
  ultimately have "create_index u i t cs db = (Inr (), db\<lparr>ct_indexes := ct_indexes db @
      [\<lparr>ix_name = i, ix_unique = u, ix_table = t, ix_columns = cs\<rparr>]\<rparr>)"
    using tb(1) by (simp add: create_index_def index_keys_def)
  moreover have "knows (ts, i # is, cols) (db\<lparr>ct_indexes := ct_indexes db @
      [\<lparr>ix_name = i, ix_unique = u, ix_table = t, ix_columns = cs\<rparr>]\<rparr>)" using assms(1) by auto
  ultimately show ?thesis by blast
qed

lemma check_fill:
  assumes "knows (ts, is, cols) db" and "map_of cols t = Some ns" and "c \<in> set ns"
    and "fill_known cols ns f"
  shows "\<exists>db'. fill_column t c f db = (Inr (), db') \<and> knows (ts, is, cols) db'"
proof -
  obtain tb where tb: "table_named t db = Some tb" "cl_name ` set (tb_columns tb) = set ns"
    using known_columns [OF assms(1,2)] by blast
  define g :: "table \<Rightarrow> table" where "g = (\<lambda>tb. tb\<lparr>tb_rows := map (fill_row c (fill_value db f)) (tb_rows tb)\<rparr>)"
  have "fill_ready t f db"
    using assms(4) tb known_columns [OF assms(1)]
    by (fastforce simp: fill_ready_def fill_known_def has_column_def split: fill.splits option.splits)
  then have "fill_column t c f db = (Inr (), change_table t g db)"
    using tb assms(3) by (simp add: fill_column_def has_column_def g_def)
  moreover have "knows (ts, is, cols) (change_table t g db)"
  proof -
    have g: "\<And>tb. tb_name (g tb) = tb_name tb" "\<And>tb. tb_rows tb = [] \<Longrightarrow> tb_rows (g tb) = []"
      "\<And>tb. tb_columns (g tb) = tb_columns tb" by (simp_all add: g_def)
    note named = table_named_change [where f = g and s = t and db = db, OF g(1)]
    have "\<exists>tb. table_named u (change_table t g db) = Some tb \<and> cl_name ` set (tb_columns tb) = set ms"
      if "map_of cols u = Some ms" for u ms
      using known_columns [OF assms(1) that] by (cases "u = t") (auto simp: named g(3))
    then show ?thesis
      using assms(1) change_table_sets [where f = g and t = t and db = db, OF g(1,2)] unfolding knows.simps by simp
  qed
  ultimately show ?thesis by blast
qed

lemma check_statement_ok:
  assumes "check_statement st k = Some k'" and "knows k db"
  shows "\<exists>db'. execute st db = (Inr (), db') \<and> knows k' db'"
proof -
  obtain ts "is" cols where k: "k = (ts, is, cols)" by (cases k)
  from assms show ?thesis
    by (cases st) (auto simp: k simp del: knows.simps split: if_splits option.splits
        intro: check_create check_add check_index check_fill)
qed

lemma check_script_ok:
  assumes "check_script keep ss k = Some k'" and "knows k db"
  shows "\<exists>db'. execute_script ss db = (Inr (), db') \<and> knows k' db'"
  using assms
proof (induction ss arbitrary: k db)
  case Nil
  obtain ts "is" cols where k: "k = (ts, is, cols)" by (cases k)
  with Nil show ?case by (auto simp: ret_def map_of_filter_in split: if_splits)
next
  case (Cons st ss)
  then obtain m where m: "check_statement st k = Some m" "check_script keep ss m = Some k'" by (auto split: option.splits)
  from check_statement_ok [OF m(1) Cons.prems(2)] obtain d where d: "execute st db = (Inr (), d)" "knows m d" by blast
  from Cons.IH [OF m(2) d(2)] d(1) show ?case by (auto simp: seq_op_def)
qed

text \<open>A list of scripts, each accepted from what the one before leaves.\<close>

lemma check_scripts_ok:
  assumes "list_all2 (\<lambda>ss (k, k'). \<exists>keep. check_script keep ss k = Some k') sss ks" and "knows k0 db"
    and "successively (\<lambda>(_, k) (k', _). k = k') ((k0, k0) # ks)"
  shows "\<exists>db'. execute_script (concat sss) db = (Inr (), db')"
  using assms
proof (induction sss ks arbitrary: k0 db rule: list_all2_induct)
  case Nil
  then show ?case by (simp add: ret_def)
next
  case (Cons ss sss k ks)
  obtain a b where k: "k = (a, b)" by (cases k)
  with Cons.hyps(1) Cons.prems(2) obtain keep where "check_script keep ss k0 = Some b" by auto
  from check_script_ok [OF this Cons.prems(1)] obtain d where d: "execute_script ss db = (Inr (), d)" "knows b d" by blast
  have "successively (\<lambda>(_, k) (k', _). k = k') ((b, b) # ks)" using Cons.prems(2) k by (cases ks) auto
  from Cons.IH [OF d(2) this] obtain d' where "execute_script (concat sss) d = (Inr (), d')" by blast
  from script_appendI [OF d(1) this] show ?case by simp
qed

lemma all_scripts: "fst (execute_script (concat migrations) empty_catalog) = Inr ()"
proof -
  let ?ks = "[(known_0, known_1), (known_1, known_2), (known_2, known_3), (known_3, known_4), (known_4, known_5),
      (known_5, known_6), (known_6, known_7), (known_7, known_8), (known_8, known_9), (known_9, known_10)]"
  have "list_all2 (\<lambda>ss (k, k'). \<exists>keep. check_script keep ss k = Some k') migrations ?ks"
    unfolding migrations_def by (simp, intro conjI exI; rule scripts_accepted)
  moreover have "knows known_0 empty_catalog" by (simp add: known_0_def empty_catalog_def)
  moreover have "successively (\<lambda>(_, k) (k', _). k = k') ((known_0, known_0) # ?ks)" by simp
  ultimately have "\<exists>db. execute_script (concat migrations) empty_catalog = (Inr (), db)" by (rule check_scripts_ok)
  then show ?thesis by auto
qed

lemma ten_migrations [simp]: "length migrations = 10"
  by (simp add: migrations_def)

lemma shape_next:
  assumes "k < 10"
  shows "execute_script (migrations ! k) (shape_at k) = (Inr (), shape_at (Suc k))"
proof -
  have "concat migrations = concat (take (Suc k) migrations) @ concat (drop (Suc k) migrations)"
    by (simp flip: concat_append)
  then obtain m where "execute_script (concat (take (Suc k) migrations)) empty_catalog = (Inr (), m)"
    using all_scripts by (metis prod.collapse script_append_InrE)
  then have m: "execute_script (concat (take (Suc k) migrations)) empty_catalog = (Inr (), shape_at (Suc k))"
    by (simp add: shape_at_def)
  have "take (Suc k) migrations = take k migrations @ [migrations ! k]" using assms by (simp add: take_Suc_conv_app_nth)
  with m have "execute_script (concat (take k migrations) @ migrations ! k) empty_catalog = (Inr (), shape_at (Suc k))" by simp
  then obtain n where "execute_script (concat (take k migrations)) empty_catalog = (Inr (), n)"
    and n: "execute_script (migrations ! k) n = (Inr (), shape_at (Suc k))" by (rule script_append_InrE)
  then have "shape_at k = n" by (simp add: shape_at_def)
  with n show ?thesis by simp
qed

end
