(* ===== verification/Migrations.thy ===== *)
theory Migrations
  imports Schema_Laws
begin

text \<open>
  \<open>StateStore.migrate\<close> and the version properties of \<open>runtime/store.py\<close>, and that a database of any earlier
  version reaches the current one with its rows.
\<close>

section \<open>Operations\<close>

text \<open>
  The file holds the catalog and the versions in \<open>schema_migrations\<close>, which may not exist yet. An \<open>INSERT\<close> opens
  a transaction that the next \<open>executescript\<close> or the final commit ends; the scripts commit by statement.
\<close>

record db_file =
  df_catalog :: catalog
  df_ledger :: "nat list option"

record connection =
  cn_file :: db_file
  cn_pending :: "nat list"

definition applied :: "db_file \<Rightarrow> nat list" where
  "applied f = (case df_ledger f of None \<Rightarrow> [] | Some l \<Rightarrow> l)"

definition commit :: "connection \<Rightarrow> connection" where
  "commit c = c\<lparr>cn_file := (cn_file c)\<lparr>df_ledger := Some (applied (cn_file c) @ cn_pending c)\<rparr>, cn_pending := []\<rparr>"

definition run_script :: "statement list \<Rightarrow> (connection, unit) op" where
  "run_script ss c = (case execute_script ss (df_catalog (cn_file c)) of
     (r, cat) \<Rightarrow> (r, c\<lparr>cn_file := (cn_file c)\<lparr>df_catalog := cat\<rparr>\<rparr>))"

definition record_version :: "nat \<Rightarrow> (connection, unit) op" where
  "record_version v c = (if v \<in> set (applied (cn_file c)) \<union> set (cn_pending c)
     then (Inl (IntegrityError ''UNIQUE constraint failed: schema_migrations.version''), c)
     else (Inr (), c\<lparr>cn_pending := cn_pending c @ [v]\<rparr>))"

definition apply_migration :: "nat list \<Rightarrow> nat \<times> statement list \<Rightarrow> (connection, unit) op" where
  "apply_migration done vs = (if fst vs \<in> set done then ret () else
     seq_op (modify commit) (seq_op (run_script (snd vs)) (record_version (fst vs))))"

text \<open>\<open>CREATE TABLE IF NOT EXISTS\<close> outside a transaction; an exception rolls back the open one.\<close>

definition ensure_ledger :: "db_file \<Rightarrow> db_file" where
  "ensure_ledger f = f\<lparr>df_ledger := Some (applied f)\<rparr>"

definition migrate :: "(db_file, unit) op" where
  "migrate f = (let f = ensure_ledger f in
     case for_each (apply_migration (applied f)) (enumerate 1 migrations) \<lparr>cn_file = f, cn_pending = []\<rparr> of
       (Inl e, c) \<Rightarrow> (Inl e, cn_file c)
     | (Inr _, c) \<Rightarrow> (Inr (), cn_file (commit c)))"

text \<open>The head of the ledger, and the levels that earlier phases of the program read from it.\<close>

definition autonomous_delivery_version :: "db_file \<Rightarrow> py_error + nat" where
  "autonomous_delivery_version f = (case df_ledger f of
     None \<Rightarrow> Inl (no_table ''schema_migrations'')
   | Some l \<Rightarrow> Inr (if l = [] then 0 else Max (set l)))"

definition capped :: "nat \<Rightarrow> (db_file \<Rightarrow> py_error + nat) \<Rightarrow> db_file \<Rightarrow> py_error + nat" where
  "capped n v f = bind_sum (v f) (\<lambda>x. Inr (min x n))"

definition container_version :: "db_file \<Rightarrow> py_error + nat" where
  "container_version = capped 9 autonomous_delivery_version"

definition parallel_version :: "db_file \<Rightarrow> py_error + nat" where
  "parallel_version = capped 8 container_version"

definition service_version :: "db_file \<Rightarrow> py_error + nat" where
  "service_version = capped 7 parallel_version"

definition delivery_version :: "db_file \<Rightarrow> py_error + nat" where
  "delivery_version = capped 6 service_version"

definition database_version :: "db_file \<Rightarrow> py_error + nat" where
  "database_version = capped 5 delivery_version"

definition storage_version :: "db_file \<Rightarrow> py_error + nat" where
  "storage_version = capped 4 database_version"

definition latest_version :: "db_file \<Rightarrow> py_error + nat" where
  "latest_version = capped 3 storage_version"

definition schema_version :: "db_file \<Rightarrow> py_error + nat" where
  "schema_version = capped 2 latest_version"

section \<open>migrate\<close>

text \<open>A database of version \<open>k\<close>: the first \<open>k\<close> scripts have run and are recorded.\<close>

definition at_version :: "nat \<Rightarrow> db_file \<Rightarrow> bool" where
  "at_version k f \<longleftrightarrow> shape (df_catalog f) = shape_at k \<and> fits (df_catalog f) \<and> numbered (df_catalog f) \<and>
     distinct (applied f) \<and> set (applied f) = {1..k}"

lemma apply_next:
  assumes "k \<notin> set done" and "execute_script ss (df_catalog (cn_file c)) = (Inr (), cat)"
    and "k \<notin> set (applied (cn_file c)) \<union> set (cn_pending c)"
  shows "apply_migration done (k, ss) c =
    (Inr (), \<lparr>cn_file = \<lparr>df_catalog = cat, df_ledger = Some (applied (cn_file c) @ cn_pending c)\<rparr>, cn_pending = [k]\<rparr>)"
  using assms by (simp add: apply_migration_def commit_def run_script_def record_version_def op_defs applied_def)

lemma loop_upgrades:
  assumes "k \<le> 10" and "shape (df_catalog (cn_file c)) = shape_at k" and "fits (df_catalog (cn_file c))"
    and "numbered (df_catalog (cn_file c))" and "distinct (applied (cn_file c) @ cn_pending c)"
    and "set (applied (cn_file c) @ cn_pending c) = {1..k}" and "set done \<subseteq> {1..k}"
  shows "\<exists>c'. for_each (apply_migration done) (drop k (enumerate 1 migrations)) c = (Inr (), c') \<and>
    shape (df_catalog (cn_file c')) = shape_at 10 \<and> fits (df_catalog (cn_file c')) \<and> numbered (df_catalog (cn_file c')) \<and>
    distinct (applied (cn_file c') @ cn_pending c') \<and> set (applied (cn_file c') @ cn_pending c') = {1..10} \<and>
    tables_kept (df_catalog (cn_file c)) (df_catalog (cn_file c'))"
  using assms
proof (induction "10 - k" arbitrary: k c)
  case 0
  then have "k = 10" by simp
  with 0 show ?case by (intro exI [of _ c]) (simp add: ret_def tables_kept_refl)
next
  case (Suc x)
  then have k: "k < 10" by simp
  have drop: "drop k (enumerate 1 migrations) = (Suc k, migrations ! k) # drop (Suc k) (enumerate 1 migrations)"
    using k by (simp add: Cons_nth_drop_Suc [symmetric] nth_enumerate_eq)
  have "upgrades (migrations ! k)" using k by (intro migrations_upgrade nth_mem) simp
  moreover have "execute_script (migrations ! k) (shape (df_catalog (cn_file c))) = (Inr (), shape_at (Suc k))"
    using shape_next [OF k] Suc.prems(2) by simp
  ultimately obtain cat where cat: "execute_script (migrations ! k) (df_catalog (cn_file c)) = (Inr (), cat)"
    "shape cat = shape_at (Suc k)" "fits cat" "numbered cat" "tables_kept (df_catalog (cn_file c)) cat"
    using Suc.prems(3,4) unfolding upgrades_def by blast
  let ?c = "\<lparr>cn_file = \<lparr>df_catalog = cat, df_ledger = Some (applied (cn_file c) @ cn_pending c)\<rparr>, cn_pending = [Suc k]\<rparr>"
  have fresh: "Suc k \<notin> set (applied (cn_file c)) \<union> set (cn_pending c)" using Suc.prems(6) by auto
  have this_one: "apply_migration done (Suc k, migrations ! k) c = (Inr (), ?c)"
    by (rule apply_next [OF _ cat(1) fresh]) (use Suc.prems(7) in auto)
  have set: "set (applied (cn_file ?c) @ cn_pending ?c) = {1..Suc k}" using Suc.prems(6) by (auto simp: applied_def)
  have distinct: "distinct (applied (cn_file ?c) @ cn_pending ?c)" using Suc.prems(5) fresh by (simp add: applied_def)
  have x: "x = 10 - Suc k" "Suc k \<le> 10" "set done \<subseteq> {1..Suc k}" using Suc.hyps(2) k Suc.prems(7) by auto
  have c: "shape (df_catalog (cn_file ?c)) = shape_at (Suc k)" "fits (df_catalog (cn_file ?c))" "numbered (df_catalog (cn_file ?c))"
    using cat by simp_all
  from Suc.hyps(1) [OF x(1,2) c distinct set x(3)] obtain c' where
    rest: "for_each (apply_migration done) (drop (Suc k) (enumerate 1 migrations)) ?c = (Inr (), c')" and
    c': "shape (df_catalog (cn_file c')) = shape_at 10" "fits (df_catalog (cn_file c'))" "numbered (df_catalog (cn_file c'))"
      "distinct (applied (cn_file c') @ cn_pending c')" "set (applied (cn_file c') @ cn_pending c') = {1..10}"
      "tables_kept (df_catalog (cn_file ?c)) (df_catalog (cn_file c'))" by blast
  have "for_each (apply_migration done) (drop k (enumerate 1 migrations)) c = (Inr (), c')"
    unfolding drop using this_one rest by (simp add: seq_op_def)
  moreover have "tables_kept (df_catalog (cn_file c)) (df_catalog (cn_file c'))"
    using tables_kept_trans [OF cat(5)] c'(6) by simp
  ultimately show ?case using c'(1-5) by blast
qed

lemma done_skipped:
  assumes "\<And>v. v \<in> set vs \<Longrightarrow> fst v \<in> set done"
  shows "for_each (apply_migration done) vs = ret ()"
  using assms by (induction vs) (simp_all add: apply_migration_def op_defs fun_eq_iff)

text \<open>
  C39. A database of any earlier version, an empty file included, is brought to version 10 by migrate: no statement
  fails whatever the rows are, every table keeps its rows with all their cells, only new columns are appended, the
  ledger names each of the ten versions once, the compatibility levels read their fixed values, and a second
  migrate changes nothing.
\<close>

theorem migrate_upgrades:
  assumes "at_version k f" and "k \<le> 10"
  shows "\<exists>g. migrate f = (Inr (), g) \<and> at_version 10 g \<and> tables_kept (df_catalog f) (df_catalog g) \<and>
    autonomous_delivery_version g = Inr 10 \<and> database_version g = Inr 5 \<and> schema_version g = Inr 2 \<and> migrate g = (Inr (), g)"
proof -
  let ?f = "ensure_ledger f" and ?c = "\<lparr>cn_file = ensure_ledger f, cn_pending = []\<rparr>"
  have f: "df_catalog ?f = df_catalog f" "applied ?f = applied f" by (simp_all add: ensure_ledger_def applied_def)
  have dn: "set (applied f) = {1..k}" using assms(1) by (simp add: at_version_def)
  have "for_each (apply_migration (applied f)) (take k (enumerate 1 migrations)) = ret ()"
    by (rule done_skipped) (use assms(2) in \<open>auto simp: dn in_set_conv_nth nth_enumerate_eq\<close>)
  then have skip: "for_each (apply_migration (applied f)) (enumerate 1 migrations) ?c
      = for_each (apply_migration (applied f)) (drop k (enumerate 1 migrations)) ?c"
    by (subst append_take_drop_id [of k, symmetric], subst for_each_append) (simp add: op_defs)
  obtain c where c: "for_each (apply_migration (applied f)) (drop k (enumerate 1 migrations)) ?c = (Inr (), c)"
    "shape (df_catalog (cn_file c)) = shape_at 10" "fits (df_catalog (cn_file c))" "numbered (df_catalog (cn_file c))"
    "distinct (applied (cn_file c) @ cn_pending c)" "set (applied (cn_file c) @ cn_pending c) = {1..10}"
    "tables_kept (df_catalog f) (df_catalog (cn_file c))"
    using loop_upgrades [OF assms(2), of ?c "applied f"] assms(1) by (auto simp: at_version_def f)
  define g where "g = cn_file (commit c)"
  have g: "migrate f = (Inr (), g)" using skip c(1) by (simp add: migrate_def Let_def f g_def)
  have cat: "df_catalog g = df_catalog (cn_file c)" and ledger: "df_ledger g = Some (applied (cn_file c) @ cn_pending c)"
    by (simp_all add: g_def commit_def)
  have app: "applied g = applied (cn_file c) @ cn_pending c" by (simp add: applied_def ledger)
  have v10: "at_version 10 g" unfolding at_version_def app cat using c(2-6) by blast
  have "Max {1..10::nat} = 10" by (rule Max_eqI) auto
  then have head: "autonomous_delivery_version g = Inr 10"
    using c(6) by (auto simp: autonomous_delivery_version_def ledger)
  then have levels: "database_version g = Inr 5" "schema_version g = Inr 2"
    by (simp_all add: database_version_def schema_version_def latest_version_def storage_version_def delivery_version_def
        service_version_def parallel_version_def container_version_def capped_def)
  have "ensure_ledger g = g" by (simp add: ensure_ledger_def applied_def ledger)
  moreover have "for_each (apply_migration (applied g)) (enumerate 1 migrations) = ret ()"
    by (rule done_skipped) (use v10 in \<open>auto simp: at_version_def in_set_conv_nth nth_enumerate_eq\<close>)
  ultimately have "migrate g = (Inr (), g)" by (simp add: migrate_def Let_def op_defs commit_def applied_def ledger)
  with g v10 c(7) head levels cat show ?thesis by auto
qed

section \<open>A stop inside a migration\<close>

lemma execute_has_table:
  assumes "execute_script ss db = (Inr (), db')" and "table_named t db = Some tb"
  shows "\<exists>tb'. table_named t db' = Some tb' \<and> (\<forall>c. has_column c tb \<longrightarrow> has_column c tb')"
  using assms
proof (induction ss arbitrary: db tb)
  case (Cons st ss)
  then obtain d where d: "execute st db = (Inr (), d)" "execute_script ss d = (Inr (), db')" by (auto elim: seq_op_InrE)
  from execute_rows [OF d(1) Cons.prems(2)] Cons.IH [OF d(2)] show ?case by metis
qed (auto simp: ret_def)

definition first_again :: "statement \<Rightarrow> bool" where
  "first_again st \<longleftrightarrow> (case st of Create_Table _ _ _ \<Rightarrow> True | Add_Column _ _ \<Rightarrow> True | _ \<Rightarrow> False)"

lemma not_twice:
  assumes "first_again st" and "execute_script (st # ss) db = (Inr (), db')" and "shape d = shape db'"
  shows "\<exists>m. execute st d = (Inl (sql_error m), d)"
proof -
  obtain x where x: "execute st db = (Inr (), x)" "execute_script ss x = (Inr (), db')"
    using assms(2) by (auto elim: seq_op_InrE)
  have same: "map_option (tb_rows_update (\<lambda>_. [])) (table_named t d) = map_option (tb_rows_update (\<lambda>_. [])) (table_named t db')" for t
    using arg_cong [OF assms(3), of "table_named t"] by simp
  show ?thesis
  proof (cases st)
    case (Create_Table t cs ks)
    with x(1) have "table_named t x \<noteq> None" by (auto simp: create_table_def split: if_splits)
    with execute_has_table [OF x(2)] same [of t] have "table_named t d \<noteq> None" by fastforce
    with Create_Table show ?thesis by (auto simp: create_table_def)
  next
    case (Add_Column t c)
    with x(1) obtain tb where "table_named t x = Some tb" "has_column (cl_name c) tb"
      by (auto simp: add_column_def Let_def table_named_change has_column_def split: option.splits if_splits)
    with execute_has_table [OF x(2)] obtain tb' where tb': "table_named t db' = Some tb'" "has_column (cl_name c) tb'" by blast
    with same [of t] obtain y where y: "table_named t d = Some y" "tb_rows_update (\<lambda>_. []) y = tb_rows_update (\<lambda>_. []) tb'" by auto
    have "has_column (cl_name c) y" using tb'(2) shape_simps(3) [of "cl_name c"] y(2) by metis
    with Add_Column y(1) show ?thesis by (auto simp: add_column_def Let_def)
  qed (use assms(1) in \<open>simp_all add: first_again_def\<close>)
qed

lemma first_statements: "ss \<in> set migrations \<Longrightarrow> \<exists>st rest. ss = st # rest \<and> first_again st"
proof -
  have again: "first_again (Create_Table t cs ks)" "first_again (Add_Column t c)" for t cs ks c
    by (simp_all add: first_again_def)
  have "\<forall>ss \<in> set migrations. ss \<noteq> [] \<and> first_again (hd ss)"
    unfolding migrations_def list.set ball_simps
    by (simp only: migration_1_def migration_2_def migration_3_def migration_4_def migration_5_def migration_6_def
        migration_7_def migration_8_def migration_9_def migration_10_def list.sel again list.distinct not_False_eq_True simp_thms)
  then show "ss \<in> set migrations \<Longrightarrow> \<exists>st rest. ss = st # rest \<and> first_again st"
    by (metis list.collapse)
qed

text \<open>
  The statements of a script are committed one by one and its ledger row later. A process that stops in between
  leaves a database that no later \<open>migrate\<close> gets past: it raises the same error each time and changes nothing.
\<close>

lemma interrupted_migration_is_stuck:
  assumes "k < 10" and "0 < i" and "execute_script (take i (migrations ! k)) db = (Inr (), df_catalog f)"
    and "set (applied f) = {1..k}"
  shows "\<exists>m. migrate f = (Inl (sql_error m), ensure_ledger f)"
proof -
  let ?c = "\<lparr>cn_file = ensure_ledger f, cn_pending = []\<rparr>"
  have f: "df_catalog (ensure_ledger f) = df_catalog f" "applied (ensure_ledger f) = applied f"
    "commit ?c = ?c" by (simp_all add: ensure_ledger_def applied_def commit_def)
  obtain st rest where st: "migrations ! k = st # rest" "first_again st"
    using first_statements [of "migrations ! k"] assms(1) by auto
  from assms(2,3) st(1) have "execute_script (st # take (i - 1) rest) db = (Inr (), df_catalog f)" by (cases i) simp_all
  from not_twice [OF st(2) this refl] obtain m where m: "execute st (df_catalog f) = (Inl (sql_error m), df_catalog f)" by blast
  have skip: "for_each (apply_migration (applied f)) (take k (enumerate 1 migrations)) = ret ()"
    by (rule done_skipped) (use assms(1) in \<open>auto simp: assms(4) in_set_conv_nth nth_enumerate_eq\<close>)
  have "drop k (enumerate 1 migrations) = (Suc k, migrations ! k) # drop (Suc k) (enumerate 1 migrations)"
    using assms(1) by (simp add: Cons_nth_drop_Suc [symmetric] nth_enumerate_eq)
  moreover have "apply_migration (applied f) (Suc k, migrations ! k) ?c = (Inl (sql_error m), ?c)"
    using m st(1) assms(4) f by (simp add: apply_migration_def run_script_def op_defs)
  ultimately have "for_each (apply_migration (applied f)) (enumerate 1 migrations) ?c = (Inl (sql_error m), ?c)"
    using skip by (subst append_take_drop_id [of k, symmetric], subst for_each_append) (simp add: op_defs)
  then have "migrate f = (Inl (sql_error m), ensure_ledger f)" by (simp add: migrate_def Let_def f)
  then show ?thesis by blast
qed

section \<open>Samples\<close>

text \<open>A version-one database with two checkpoints; the second script fills in their references.\<close>

definition checkpoint_cells :: "int \<Rightarrow> cells" where
  "checkpoint_cells n = [(''checkpoint_id'', C_Int n), (''run_id'', C_Text ''r''), (''reason'', C_Text ''node''),
     (''state_json'', C_Text ''{}''), (''created_at'', C_Text ''t'')]"

definition old_file :: db_file where
  "old_file = \<lparr>df_catalog = change_table ''checkpoints'' (\<lambda>tb. tb\<lparr>tb_rows := [checkpoint_cells 1, checkpoint_cells 2]\<rparr>)
       (snd (execute_script migration_1 empty_catalog)), df_ledger = Some [1]\<rparr>"

lemma shape_at_1: "execute_script migration_1 (shape empty_catalog) = (Inr (), shape_at 1)"
  using shape_next [of 0] by (simp add: shape_at_def migrations_def ret_def shape_def empty_catalog_def)

lemma version_1:
  "shape (shape_at 1) = shape_at 1" "fits (shape_at 1)"
  "map_option (map cl_name \<circ> tb_columns) (table_named ''checkpoints'' (shape_at 1)) = Some (map fst (checkpoint_cells n))"
proof -
  have empty: "shape empty_catalog = empty_catalog" by (simp add: shape_def empty_catalog_def)
  have "upgrades migration_1" by (rule migrations_upgrade) (simp add: migrations_def)
  moreover have "fits empty_catalog" "numbered empty_catalog"
    by (simp_all add: fits_def numbered_def table_named_def empty_catalog_def)
  ultimately obtain db where "execute_script migration_1 empty_catalog = (Inr (), db)" "shape db = shape_at 1" "fits db"
    using shape_at_1 unfolding upgrades_def by blast
  then show "shape (shape_at 1) = shape_at 1" "fits (shape_at 1)" using shape_at_1 by (simp_all add: empty)
  have "map_option (map cl_name \<circ> tb_columns) (table_named ''checkpoints'' (snd (execute_script migration_1 empty_catalog)))
      = Some [''checkpoint_id'', ''run_id'', ''reason'', ''state_json'', ''created_at'']" by code_simp
  then show "map_option (map cl_name \<circ> tb_columns) (table_named ''checkpoints'' (shape_at 1)) = Some (map fst (checkpoint_cells n))"
    using shape_at_1 by (simp add: empty checkpoint_cells_def)
qed

lemma old_file_version: "at_version 1 old_file"
proof -
  define f :: "table \<Rightarrow> table" where "f = (\<lambda>tb. tb\<lparr>tb_rows := [checkpoint_cells 1, checkpoint_cells 2]\<rparr>)"
  have f: "\<And>tb. tb_name (f tb) = tb_name tb" by (simp add: f_def)
  have cat: "df_catalog old_file = change_table ''checkpoints'' f (shape_at 1)"
    using shape_at_1 by (simp add: old_file_def f_def shape_def empty_catalog_def)
  obtain tb where tb: "table_named ''checkpoints'' (shape_at 1) = Some tb" "map cl_name (tb_columns tb) = map fst (checkpoint_cells 1)"
    using version_1(3) [of 1] by auto
  have names: "map fst (checkpoint_cells n) = map fst (checkpoint_cells 1)" for n by (simp add: checkpoint_cells_def)
  have "shape (change_table ''checkpoints'' f (shape_at 1)) = change_table ''checkpoints'' id (shape (shape_at 1))"
    by (rule shape_change) (simp_all add: f_def)
  moreover have "change_table ''checkpoints'' id db = db" for db by (simp add: change_table_def map_idI)
  ultimately have shape: "shape (df_catalog old_file) = shape_at 1" by (simp only: cat version_1(1))
  have fits: "fits (df_catalog old_file)" unfolding cat
    by (rule fits_change [OF version_1(2)]) (use tb names in \<open>auto simp: f_def\<close>)
  have "numbered_rows [checkpoint_cells 1, checkpoint_cells 2]"
    unfolding numbered_rows_def by (intro exI [of _ "[1, 2]"]) (simp add: checkpoint_cells_def)
  moreover have "table_named ''checkpoints'' (df_catalog old_file) = Some (f tb)"
    unfolding cat table_named_change [where f = f, OF f] tb(1) by simp
  ultimately have "numbered (df_catalog old_file)" by (simp add: numbered_def f_def)
  moreover have "set (applied old_file) = {1..1}" "distinct (applied old_file)" by (simp_all add: applied_def old_file_def)
  ultimately show ?thesis using shape fits unfolding at_version_def by blast
qed

theorem migrate_upgrades_witness:
  "\<exists>g tb r. migrate old_file = (Inr (), g) \<and> schema_version g = Inr 2 \<and>
     table_named ''checkpoints'' (df_catalog g) = Some tb \<and> r \<in> set (tb_rows tb) \<and> prefix (checkpoint_cells 2) r"
proof -
  from migrate_upgrades [OF old_file_version] obtain g where g: "migrate old_file = (Inr (), g)" "schema_version g = Inr 2"
    and kept: "tables_kept (df_catalog old_file) (df_catalog g)" by auto
  have "map_option tb_rows (table_named ''checkpoints'' (df_catalog old_file)) = Some [checkpoint_cells 1, checkpoint_cells 2]"
    using version_1(3) [of 1] shape_at_1
    by (auto simp: old_file_def table_named_change shape_def empty_catalog_def)
  then obtain tb0 where tb0: "table_named ''checkpoints'' (df_catalog old_file) = Some tb0"
    "tb_rows tb0 = [checkpoint_cells 1, checkpoint_cells 2]" by auto
  with kept obtain tb where "table_named ''checkpoints'' (df_catalog g) = Some tb"
    "list_all2 prefix [checkpoint_cells 1, checkpoint_cells 2] (tb_rows tb)"
    unfolding tables_kept_def by fastforce
  with g show ?thesis by (auto simp: list_all2_Cons1)
qed

end
