(* ===== verification/Conversation.thy ===== *)
theory Conversation
  imports Store Text_Search
begin

text \<open>
  From a human message to a control action: \<open>conversation/repository.py\<close>, \<open>conversation/compiler.py\<close> and
  \<open>control/service.py\<close>. Each call is a thread of transactions and of calls into the runtime.
\<close>

section \<open>Text\<close>

text \<open>
  Words outside ASCII are written as their UTF-8 bytes. \<open>str.casefold\<close> turns capitals into small letters and
  replaces the characters of the table, the only ones whose folding holds an ASCII letter.
\<close>

definition fold_table :: "(string \<times> string) list" where
  "fold_table =
    [([CHR 0xC3, CHR 0x9F], ''ss''), ([CHR 0xC4, CHR 0xB0], ''i'' @ [CHR 0xCC, CHR 0x87]),
     ([CHR 0xC5, CHR 0x89], [CHR 0xCA, CHR 0xBC] @ ''n''), ([CHR 0xC5, CHR 0xBF], ''s''),
     ([CHR 0xC7, CHR 0xB0], ''j'' @ [CHR 0xCC, CHR 0x8C]),
     ([CHR 0xE1, CHR 0xBA, CHR 0x96], ''h'' @ [CHR 0xCC, CHR 0xB1]),
     ([CHR 0xE1, CHR 0xBA, CHR 0x97], ''t'' @ [CHR 0xCC, CHR 0x88]),
     ([CHR 0xE1, CHR 0xBA, CHR 0x98], ''w'' @ [CHR 0xCC, CHR 0x8A]),
     ([CHR 0xE1, CHR 0xBA, CHR 0x99], ''y'' @ [CHR 0xCC, CHR 0x8A]),
     ([CHR 0xE1, CHR 0xBA, CHR 0x9A], ''a'' @ [CHR 0xCA, CHR 0xBE]), ([CHR 0xE1, CHR 0xBA, CHR 0x9E], ''ss''),
     ([CHR 0xE2, CHR 0x84, CHR 0xAA], ''k''), ([CHR 0xEF, CHR 0xAC, CHR 0x80], ''ff''),
     ([CHR 0xEF, CHR 0xAC, CHR 0x81], ''fi''), ([CHR 0xEF, CHR 0xAC, CHR 0x82], ''fl''),
     ([CHR 0xEF, CHR 0xAC, CHR 0x83], ''ffi''), ([CHR 0xEF, CHR 0xAC, CHR 0x84], ''ffl''),
     ([CHR 0xEF, CHR 0xAC, CHR 0x85], ''st''), ([CHR 0xEF, CHR 0xAC, CHR 0x86], ''st'')]"

definition fold_text :: "string \<Rightarrow> string" where
  "fold_text s = fold (\<lambda>(c, r). replace_all c r) fold_table (lower s)"

text \<open>\<open>not value.strip()\<close>: nothing but white space.\<close>

definition white_space :: "string list" where
  "white_space =
    [[CHR 0x09], [CHR 0x0A], [CHR 0x0B], [CHR 0x0C], [CHR 0x0D], [CHR 0x1C], [CHR 0x1D], [CHR 0x1E], [CHR 0x1F],
     [CHR 0x20], [CHR 0xC2, CHR 0x85], [CHR 0xC2, CHR 0xA0], [CHR 0xE1, CHR 0x9A, CHR 0x80],
     [CHR 0xE2, CHR 0x80, CHR 0x80], [CHR 0xE2, CHR 0x80, CHR 0x81], [CHR 0xE2, CHR 0x80, CHR 0x82],
     [CHR 0xE2, CHR 0x80, CHR 0x83], [CHR 0xE2, CHR 0x80, CHR 0x84], [CHR 0xE2, CHR 0x80, CHR 0x85],
     [CHR 0xE2, CHR 0x80, CHR 0x86], [CHR 0xE2, CHR 0x80, CHR 0x87], [CHR 0xE2, CHR 0x80, CHR 0x88],
     [CHR 0xE2, CHR 0x80, CHR 0x89], [CHR 0xE2, CHR 0x80, CHR 0x8A], [CHR 0xE2, CHR 0x80, CHR 0xA8],
     [CHR 0xE2, CHR 0x80, CHR 0xA9], [CHR 0xE2, CHR 0x80, CHR 0xAF], [CHR 0xE2, CHR 0x81, CHR 0x9F],
     [CHR 0xE3, CHR 0x80, CHR 0x80]]"

definition all_white :: "string \<Rightarrow> bool" where
  "all_white s \<longleftrightarrow> fold (\<lambda>c. replace_all c []) white_space s = []"

text \<open>\<open>str.strip\<close>: white space is removed at both ends, one character at a time.\<close>

function strip_left :: "string list \<Rightarrow> string \<Rightarrow> string" where
  "strip_left ws s = (case find (\<lambda>c. c \<noteq> [] \<and> starts_with c s) ws of None \<Rightarrow> s | Some c \<Rightarrow> strip_left ws (drop (length c) s))"
  by pat_completeness auto
termination
  by (relation "measure (\<lambda>(_, s). length s)") (auto simp: starts_with_iff dest!: find_SomeD)

declare strip_left.simps [simp del]

definition strip_text :: "string \<Rightarrow> string" where
  "strip_text s = rev (strip_left (map rev white_space) (rev (strip_left white_space s)))"

text \<open>UTF-8 of code points above U+007F, for the longer texts.\<close>

definition utf8 :: "nat \<Rightarrow> string" where
  "utf8 c = (if c < 0x800 then [char_of (0xC0 + c div 64), char_of (0x80 + c mod 64)]
     else if c < 0x10000 then [char_of (0xE0 + c div 4096), char_of (0x80 + c div 64 mod 64), char_of (0x80 + c mod 64)]
     else [char_of (0xF0 + c div 262144), char_of (0x80 + c div 4096 mod 64), char_of (0x80 + c div 64 mod 64),
       char_of (0x80 + c mod 64)])"

definition text_of :: "nat list \<Rightarrow> string" where
  "text_of cs = concat (map utf8 cs)"

section \<open>IntentCompiler\<close>

primrec query_words :: "query_action \<Rightarrow> string list" where
  "query_words QA_Progress =
     [[CHR 0xE7, CHR 0x8A, CHR 0xB6, CHR 0xE6, CHR 0x80, CHR 0x81],
      [CHR 0xE8, CHR 0xBF, CHR 0x9B, CHR 0xE5, CHR 0xB1, CHR 0x95],
      [CHR 0xE5, CHR 0x81, CHR 0x9A, CHR 0xE5, CHR 0x88, CHR 0xB0], ''status'', ''progress'']"
| "query_words QA_Risk =
     [[CHR 0xE9, CHR 0xA3, CHR 0x8E, CHR 0xE9, CHR 0x99, CHR 0xA9], ''risk'']"
| "query_words QA_Evidence =
     [[CHR 0xE6, CHR 0x8A, CHR 0xA5, CHR 0xE5, CHR 0x91, CHR 0x8A],
      [CHR 0xE8, CHR 0xAF, CHR 0x81, CHR 0xE6, CHR 0x8D, CHR 0xAE], ''report'', ''evidence'']"

primrec change_words :: "change_action \<Rightarrow> string list" where
  "change_words CA_Pause =
     [[CHR 0xE6, CHR 0x9A, CHR 0x82, CHR 0xE5, CHR 0x81, CHR 0x9C], ''pause'']"
| "change_words CA_Resume =
     [[CHR 0xE6, CHR 0x81, CHR 0xA2, CHR 0xE5, CHR 0xA4, CHR 0x8D],
      [CHR 0xE7, CHR 0xBB, CHR 0xA7, CHR 0xE7, CHR 0xBB, CHR 0xAD], ''resume'']"
| "change_words CA_Interrupt =
     [[CHR 0xE4, CHR 0xB8, CHR 0xAD, CHR 0xE6, CHR 0x96, CHR 0xAD],
      [CHR 0xE5, CHR 0x81, CHR 0x9C, CHR 0xE6, CHR 0xAD, CHR 0xA2, CHR 0xE5, CHR 0xBD, CHR 0x93, CHR 0xE5, CHR 0x89, CHR 0x8D],
      ''interrupt'']"
| "change_words CA_Revise =
     [[CHR 0xE4, CHR 0xBF, CHR 0xAE, CHR 0xE8, CHR 0xAE, CHR 0xA2],
      [CHR 0xE4, CHR 0xBF, CHR 0xAE, CHR 0xE6, CHR 0x94, CHR 0xB9, CHR 0xE6, CHR 0x96, CHR 0xB9, CHR 0xE5, CHR 0x90, CHR 0x91],
      [CHR 0xE6, CHR 0x94, CHR 0xB9, CHR 0xE6, CHR 0x96, CHR 0xB9, CHR 0xE5, CHR 0x90, CHR 0x91], ''revise'']"
| "change_words CA_Restart =
     [[CHR 0xE9, CHR 0x87, CHR 0x8D, CHR 0xE6, CHR 0x96, CHR 0xB0, CHR 0xE5, CHR 0xBC, CHR 0x80, CHR 0xE5, CHR 0xA7, CHR 0x8B],
      [CHR 0xE9, CHR 0x87, CHR 0x8D, CHR 0xE5, CHR 0x90, CHR 0xAF], ''restart'']"
| "change_words CA_Accept =
     [[CHR 0xE6, CHR 0x8E, CHR 0xA5, CHR 0xE5, CHR 0x8F, CHR 0x97],
      [CHR 0xE9, CHR 0xAA, CHR 0x8C, CHR 0xE6, CHR 0x94, CHR 0xB6, CHR 0xE9, CHR 0x80, CHR 0x9A, CHR 0xE8, CHR 0xBF, CHR 0x87],
      ''accept'']"
| "change_words CA_Reject =
     [[CHR 0xE6, CHR 0x8B, CHR 0x92, CHR 0xE7, CHR 0xBB, CHR 0x9D],
      [CHR 0xE9, CHR 0xAA, CHR 0x8C, CHR 0xE6, CHR 0x94, CHR 0xB6, CHR 0xE4, CHR 0xB8, CHR 0x8D, CHR 0xE9, CHR 0x80, CHR 0x9A, CHR 0xE8, CHR 0xBF, CHR 0x87],
      ''reject'']"

datatype act = QueryAct query_action | ChangeAct change_action

definition mentions :: "string \<Rightarrow> string list \<Rightarrow> bool" where
  "mentions text ws \<longleftrightarrow> list_ex (\<lambda>w. occurs_in w text) ws"

definition matched :: "string \<Rightarrow> act list" where
  "matched content = (let text = fold_text content in
     map QueryAct (filter (\<lambda>q. mentions text (query_words q)) [QA_Progress, QA_Risk, QA_Evidence]) @
     map ChangeAct (filter (\<lambda>a. mentions text (change_words a))
       [CA_Pause, CA_Resume, CA_Interrupt, CA_Revise, CA_Restart, CA_Accept, CA_Reject]))"

primrec is_query :: "act \<Rightarrow> bool" where
  "is_query (QueryAct q) = True"
| "is_query (ChangeAct a) = False"

text \<open>Several queries are one query, by preference.\<close>

definition selected :: "act list \<Rightarrow> act list" where
  "selected ms = (if ms \<noteq> [] \<and> list_all is_query ms
     then [hd (filter (\<lambda>p. p \<in> set ms) [QueryAct QA_Progress, QueryAct QA_Risk, QueryAct QA_Evidence])] else ms)"

record compilation =
  co_intent :: "control_intent option"
  co_confidence :: rat
  co_clarification :: "string option"

definition say_several :: string where
  "say_several =
     text_of [0x68C0, 0x6D4B, 0x5230, 0x591A, 0x4E2A, 0x63A7, 0x5236, 0x52A8, 0x4F5C] @ '', '' @ text_of [0x8BF7,
     0x660E, 0x786E, 0x53EA, 0x9009, 0x62E9, 0x4E00, 0x4E2A, 0x3002]"

definition say_unclear :: string where
  "say_unclear =
     text_of [0x65E0, 0x6CD5, 0x53EF, 0x9760, 0x8BC6, 0x522B, 0x63A7, 0x5236, 0x610F, 0x56FE] @ '', '' @ text_of
     [0x8BF7, 0x660E, 0x786E, 0x8BF4, 0x660E, 0x67E5, 0x8BE2, 0x6216, 0x52A8, 0x4F5C, 0x3002]"

definition say_no_run :: string where
  "say_no_run =
     text_of [0x7F3A, 0x5C11, 0x660E, 0x786E, 0x7684, 0x76EE, 0x6807] @ '' Run, '' @ text_of [0x4E0D, 0x80FD,
     0x6267, 0x884C, 0x8BE5, 0x52A8, 0x4F5C, 0x3002]"

text \<open>\<open>message.run_id or active_run_id\<close>\<close>

definition target_run :: "human_message \<Rightarrow> string option \<Rightarrow> string option" where
  "target_run m active = (case hm_run m of Some (c # cs) \<Rightarrow> Some (c # cs) | _ \<Rightarrow> active)"

definition needs_confirmation :: "change_action \<Rightarrow> bool" where
  "needs_confirmation a \<longleftrightarrow> a \<in> {CA_Revise, CA_Restart, CA_Accept, CA_Reject}"

definition query_of :: "human_message \<Rightarrow> string \<Rightarrow> query_action \<Rightarrow> query_intent" where
  "query_of m run q = \<lparr>in_id = ''intent:'' @ hm_id m, in_message = hm_id m, in_actor = hm_actor m, in_project = hm_project m,
     in_run = run, in_reason = \<lparr>cn_code = RC_HumanRequest, cn_detail = None\<rparr>, in_confidence = 99 / 100, in_confirm = False,
     qi_action = q\<rparr>"

definition change_of :: "human_message \<Rightarrow> string \<Rightarrow> int \<Rightarrow> change_action \<Rightarrow> change_intent" where
  "change_of m run next a = \<lparr>in_id = ''intent:'' @ hm_id m, in_message = hm_id m, in_actor = hm_actor m,
     in_project = hm_project m, in_run = run,
     in_reason = \<lparr>cn_code = (if a = CA_Revise then RC_DirectionChange else RC_HumanRequest), cn_detail = None\<rparr>,
     in_confidence = 99 / 100, in_confirm = needs_confirmation a, ci_action = a,
     ci_urgency = (if a = CA_Pause \<or> a = CA_Interrupt then UR_Immediate else UR_Normal),
     ci_revision = (if a = CA_Revise then Some next else None),
     ci_restart = (if a = CA_Restart then Some \<lparr>rf_strategy = SG_CleanBase, rf_reference = None\<rparr> else None)\<rparr>"

definition unclear :: "rat \<Rightarrow> string \<Rightarrow> compilation" where
  "unclear c s = \<lparr>co_intent = None, co_confidence = c, co_clarification = Some s\<rparr>"

definition understood :: "control_intent \<Rightarrow> compilation" where
  "understood i = \<lparr>co_intent = Some i, co_confidence = 99 / 100, co_clarification = None\<rparr>"

definition compile_message :: "human_message \<Rightarrow> string option \<Rightarrow> int \<Rightarrow> py_error + compilation" where
  "compile_message m active next = (case selected (matched (hm_content m)) of
     [] \<Rightarrow> Inr (unclear (25 / 100) say_unclear)
   | [a] \<Rightarrow> (case target_run m active of
       None \<Rightarrow> Inr (unclear (4 / 10) say_no_run)
     | Some run \<Rightarrow> (case a of
         QueryAct q \<Rightarrow> bind_sum (construct validate_query_intent (query_of m run q)) (\<lambda>i. Inr (understood (QueryIntent i)))
       | ChangeAct c \<Rightarrow> bind_sum (construct validate_change_intent (change_of m run next c)) (\<lambda>i. Inr (understood (ChangeIntent i)))))
   | _ \<Rightarrow> Inr (unclear (2 / 10) say_several))"

section \<open>Tables\<close>

text \<open>Four tables of migrations 4 and 7, and the outbox beside them. Conversations stay active.\<close>

record conversation_row =
  cv_id :: string
  cv_project :: string
  cv_actor :: string
  cv_run :: "string option"

record message_row =
  me_conversation :: string
  me_message :: human_message

record compilation_row =
  cp_id :: string
  cp_conversation :: string
  cp_message :: string
  cp_compilation :: compilation

record reply =
  rp_applied :: bool
  rp_message :: string
  rp_intent :: "string option"
  rp_pending :: "string option"
  rp_action :: "action_result option"

record confirmation_row =
  cf_id :: string
  cf_conversation :: string
  cf_intent :: change_intent
  cf_result :: "reply option"
  cf_actor :: "string option"
  cf_project :: "string option"
  cf_protocol :: int
  cf_expires :: "int option"

record talk_db =
  tk_core :: db
  tk_conversations :: "conversation_row list"
  tk_messages :: "message_row list"
  tk_compilations :: "compilation_row list"
  tk_confirmations :: "confirmation_row list"

text \<open>
  The world of the service: its store, the clock, and the runtime. \<open>tw_calls\<close> is a history variable: the intents
  that were passed to the runtime or to the handler of the caller, each with the message that confirmed it.
\<close>

record 'x talk_world =
  tw_db :: talk_db
  tw_now :: int
  tw_calls :: "(control_intent \<times> human_message option) list"
  tw_ext :: 'x

definition talk_tx :: "(int \<Rightarrow> (talk_db, 'a) op) \<Rightarrow> ('x talk_world, 'a) thread" where
  "talk_tx m = atomic (\<lambda>w. case m (tw_now w) (tw_db w) of
     (Inl e, _) \<Rightarrow> (Inl e, w) | (Inr x, d) \<Rightarrow> (Inr x, w\<lparr>tw_db := d\<rparr>))"

definition talk_read :: "(int \<Rightarrow> talk_db \<Rightarrow> py_error + 'a) \<Rightarrow> ('x talk_world, 'a) thread" where
  "talk_read f = atomic (\<lambda>w. (f (tw_now w) (tw_db w), w))"

definition talk_event :: "string \<Rightarrow> string \<Rightarrow> (string \<times> json) list \<Rightarrow> (talk_db, unit) op" where
  "talk_event ty run payload d = (let (r, c) = enqueue_event ty run None None payload (tk_core d) in (r, d\<lparr>tk_core := c\<rparr>))"

definition conversation_run :: "string option \<Rightarrow> string \<Rightarrow> string" where
  "conversation_run run k = (case run of Some (c # cs) \<Rightarrow> c # cs | _ \<Rightarrow> ''conversation:'' @ k)"

section \<open>ConversationRepository\<close>

definition get_conversation :: "string \<Rightarrow> ('x talk_world, conversation_row) thread" where
  "get_conversation k = talk_read (\<lambda>_ d. case lookup_row cv_id k (tk_conversations d) of
     None \<Rightarrow> Inl (KeyError k) | Some r \<Rightarrow> Inr r)"

definition insert_conversation :: "conversation_row \<Rightarrow> (talk_db, unit) op" where
  "insert_conversation r d = (case insert_row cv_id r (tk_conversations d) of
     None \<Rightarrow> (Inl (IntegrityError ''UNIQUE constraint failed: conversations.conversation_id''), d)
   | Some t \<Rightarrow> (Inr (), d\<lparr>tk_conversations := t\<rparr>))"

definition create_conversation :: "string \<Rightarrow> string \<Rightarrow> string \<Rightarrow> string option \<Rightarrow> ('x talk_world, conversation_row) thread" where
  "create_conversation k project actor run =
     seq_t (require_t (\<not> all_white k \<and> \<not> all_white project \<and> \<not> all_white actor)
       (ValueError ''conversation, project, and actor IDs must not be empty''))
     (seq_t (talk_tx (\<lambda>_. seq_op
        (insert_conversation \<lparr>cv_id = k, cv_project = project, cv_actor = actor, cv_run = run\<rparr>)
        (talk_event ''conversation.created'' (conversation_run run k)
          [(''conversation_id'', JStr k), (''project_id'', JStr project)])))
     (get_conversation k))"

definition set_active_run :: "string \<Rightarrow> string option \<Rightarrow> ('x talk_world, unit) thread" where
  "set_active_run k run = talk_tx (\<lambda>_ d. if k \<notin> cv_id ` set (tk_conversations d) then (Inl (KeyError k), d)
     else (Inr (), d\<lparr>tk_conversations := update_where (\<lambda>r. cv_id r = k) (\<lambda>r. r\<lparr>cv_run := run\<rparr>) (tk_conversations d)\<rparr>))"

text \<open>A message with a known id must be the message that is stored; documents are compared as values.\<close>

definition put_message :: "string \<Rightarrow> human_message \<Rightarrow> (talk_db, unit) op" where
  "put_message k m d = (case lookup_row (hm_id \<circ> me_message) (hm_id m) (tk_messages d) of
     Some r \<Rightarrow> if me_message r \<noteq> m then (Inl (ValueError ''HumanMessage ID collision''), d) else (Inr (), d)
   | None \<Rightarrow> talk_event ''human.message.received'' (conversation_run (hm_run m) k)
       [(''conversation_id'', JStr k), (''message_id'', JStr (hm_id m)), (''actor_id'', JStr (hm_actor m))]
       (d\<lparr>tk_messages := tk_messages d @ [\<lparr>me_conversation = k, me_message = m\<rparr>]\<rparr>))"

definition append_message :: "string \<Rightarrow> human_message \<Rightarrow> ('x talk_world, unit) thread" where
  "append_message k m = bind_t (get_conversation k) (\<lambda>c.
     seq_t (require_t (hm_project m = cv_project c \<and> hm_actor m = cv_actor c)
       (ValueError ''HumanMessage actor/project does not match the Conversation''))
     (talk_tx (\<lambda>_. put_message k m)))"

definition messages_of :: "string \<Rightarrow> talk_db \<Rightarrow> human_message list" where
  "messages_of k d = order_by hm_created (map me_message (filter (\<lambda>r. me_conversation r = k) (tk_messages d)))"

section \<open>NaturalLanguageControlService\<close>

text \<open>
  The boundaries the service is built with: the runtime of a run (finding it may raise), its control and its
  fingerprint, and the optional observer and handler of the caller.
\<close>

record ('x, 'f) talk_env =
  te_resolve :: "string \<Rightarrow> ('x, unit) op"
  te_control :: "control_intent \<Rightarrow> ('x, action_result) op"
  te_fingerprint :: "string \<Rightarrow> ('x, 'f) op"
  te_observer :: "(query_intent \<Rightarrow> ('x, unit) op) option"
  te_handler :: "(change_intent \<Rightarrow> human_message option \<Rightarrow> ('x, action_result option) op) option"
  te_ttl :: int

definition outside :: "('x, 'a) op \<Rightarrow> ('x talk_world, 'a) thread" where
  "outside m = atomic (\<lambda>w. case m (tw_ext w) of (r, x) \<Rightarrow> (r, w\<lparr>tw_ext := x\<rparr>))"

definition outside_noted :: "control_intent \<Rightarrow> human_message option \<Rightarrow> ('x, 'a) op \<Rightarrow> ('x talk_world, 'a) thread" where
  "outside_noted i who m = atomic (\<lambda>w. case m (tw_ext w) of
     (r, x) \<Rightarrow> (r, w\<lparr>tw_ext := x, tw_calls := tw_calls w @ [(i, who)]\<rparr>))"

definition reply_of :: "string \<Rightarrow> action_result \<Rightarrow> reply" where
  "reply_of i r = \<lparr>rp_applied = (ac_outcome r = CO_Applied), rp_message = ac_message r, rp_intent = Some i,
     rp_pending = None, rp_action = Some r\<rparr>"

definition observed_reply :: "string \<Rightarrow> reply" where
  "observed_reply i = \<lparr>rp_applied = True,
     rp_message = ''Read-only Observer completed without execution-state changes.'',
     rp_intent = Some i, rp_pending = None, rp_action = None\<rparr>"

definition try_handler :: "('x, 'f) talk_env \<Rightarrow> control_intent \<Rightarrow> human_message option \<Rightarrow>
    ('x talk_world, action_result option) thread" where
  "try_handler E i who = (case (i, te_handler E) of
     (ChangeIntent c, Some h) \<Rightarrow> outside_noted i who (h c who)
   | _ \<Rightarrow> return_t None)"

definition observe :: "('x, 'f) talk_env \<Rightarrow> query_intent \<Rightarrow> (query_intent \<Rightarrow> ('x, unit) op) \<Rightarrow> ('x talk_world, reply) thread" where
  "observe E q ob =
     bind_t (outside (te_fingerprint E (in_run q))) (\<lambda>before.
     seq_t (outside_noted (QueryIntent q) None (ob q))
     (bind_t (outside (te_fingerprint E (in_run q))) (\<lambda>after.
      seq_t (require_t (after = before) (RuntimeErr ''read-only Observer changed the main Run''))
      (return_t (observed_reply (in_id q))))))"

definition apply_intent :: "('x, 'f) talk_env \<Rightarrow> control_intent \<Rightarrow> human_message option \<Rightarrow> ('x talk_world, reply) thread" where
  "apply_intent E i who = bind_t (try_handler E i who) (\<lambda>handled. case handled of
     Some r \<Rightarrow> return_t (reply_of (intent_id i) r)
   | None \<Rightarrow> seq_t (outside (te_resolve E (intent_run i)))
       (case (i, te_observer E) of
          (QueryIntent q, Some ob) \<Rightarrow> observe E q ob
        | _ \<Rightarrow> bind_t (outside_noted i who (te_control E i)) (\<lambda>r. return_t (reply_of (intent_id i) r))))"

definition compilation_event :: "string \<Rightarrow> string \<Rightarrow> compilation \<Rightarrow> (talk_db, unit) op" where
  "compilation_event k source c = talk_event ''control.intent.compiled''
     (case co_intent c of None \<Rightarrow> ''conversation:'' @ k | Some i \<Rightarrow> intent_run i)
     [(''compilation_id'', JStr (''compilation:'' @ source)),
      (''intent_id'', case co_intent c of None \<Rightarrow> JNull | Some i \<Rightarrow> JStr (intent_id i)),
      (''confidence'', JFloat (co_confidence c))]"

definition record_compilation :: "string \<Rightarrow> string \<Rightarrow> compilation \<Rightarrow> ('x talk_world, unit) thread" where
  "record_compilation k source c = talk_tx (\<lambda>_. seq_op
     (modify (\<lambda>d. d\<lparr>tk_compilations := insert_or_ignore cp_id
        \<lparr>cp_id = ''compilation:'' @ source, cp_conversation = k, cp_message = source, cp_compilation = c\<rparr> (tk_compilations d)\<rparr>))
     (compilation_event k source c))"

definition confirmation_of :: "string \<Rightarrow> human_message \<Rightarrow> int \<Rightarrow> change_intent \<Rightarrow> confirmation_row" where
  "confirmation_of k m expires i = \<lparr>cf_id = ''confirmation:'' @ in_id i, cf_conversation = k, cf_intent = i, cf_result = None,
     cf_actor = Some (hm_actor m), cf_project = Some (hm_project m), cf_protocol = 1, cf_expires = Some expires\<rparr>"

definition ask_confirmation :: "('x, 'f) talk_env \<Rightarrow> string \<Rightarrow> human_message \<Rightarrow> change_intent \<Rightarrow> ('x talk_world, reply) thread" where
  "ask_confirmation E k m i =
     seq_t (talk_tx (\<lambda>now. seq_op
       (modify (\<lambda>d. d\<lparr>tk_confirmations := insert_or_ignore cf_id (confirmation_of k m (now + te_ttl E) i) (tk_confirmations d)\<rparr>))
       (talk_event ''control.confirmation.requested'' (in_run i)
         [(''confirmation_id'', JStr (''confirmation:'' @ in_id i)), (''intent_id'', JStr (in_id i))])))
     (return_t \<lparr>rp_applied = False, rp_message = ''Explicit confirmation is required before applying this action.'',
        rp_intent = Some (in_id i), rp_pending = Some (''confirmation:'' @ in_id i), rp_action = None\<rparr>)"

definition refused :: "string \<Rightarrow> reply" where
  "refused s = \<lparr>rp_applied = False, rp_message = s, rp_intent = None, rp_pending = None, rp_action = None\<rparr>"

definition carry_out :: "('x, 'f) talk_env \<Rightarrow> string \<Rightarrow> human_message \<Rightarrow> compilation \<Rightarrow> ('x talk_world, reply) thread" where
  "carry_out E k m c = (case co_intent c of
     None \<Rightarrow> return_t (refused (case co_clarification c of Some (x # xs) \<Rightarrow> x # xs | _ \<Rightarrow> ''ambiguous''))
   | Some (ChangeIntent i) \<Rightarrow> if in_confirm i then ask_confirmation E k m i else apply_intent E (ChangeIntent i) None
   | Some (QueryIntent i) \<Rightarrow> apply_intent E (QueryIntent i) None)"

definition handle_message :: "('x, 'f) talk_env \<Rightarrow> string \<Rightarrow> human_message \<Rightarrow> ('x talk_world, reply) thread" where
  "handle_message E k m =
     seq_t (append_message k m)
     (bind_t (get_conversation k) (\<lambda>c.
      bind_t (Done (compile_message m (cv_run c) 2)) (\<lambda>compiled.
      seq_t (record_compilation k (hm_id m) compiled)
      (carry_out E k m compiled))))"

text \<open>\<open>confirm\<close>\<close>

definition assent_words :: "string list" where
  "assent_words = [''confirm'', [CHR 0xE7, CHR 0xA1, CHR 0xAE, CHR 0xE8, CHR 0xAE, CHR 0xA4], [CHR 0xE5, CHR 0x90, CHR 0x8C, CHR 0xE6, CHR 0x84, CHR 0x8F]]"

definition assents :: "human_message \<Rightarrow> bool" where
  "assents m \<longleftrightarrow> mentions (fold_text (hm_content m)) assent_words"

definition find_confirmation :: "string \<Rightarrow> string \<Rightarrow> talk_db \<Rightarrow> confirmation_row option" where
  "find_confirmation k cid d = find (\<lambda>r. cf_id r = cid \<and> cf_conversation r = k) (tk_confirmations d)"

text \<open>The checks between reading the row and using it; \<open>now\<close> is read after the row.\<close>

definition may_confirm :: "human_message \<Rightarrow> int \<Rightarrow> int \<Rightarrow> confirmation_row \<Rightarrow> py_error + unit" where
  "may_confirm m protocol now r =
     (if cf_actor r \<noteq> None \<and> cf_actor r \<noteq> Some (hm_actor m) then
        Inl (NamedError ''PermissionError'' ''pending confirmation belongs to another actor'')
      else if cf_project r \<noteq> None \<and> cf_project r \<noteq> Some (hm_project m) then
        Inl (NamedError ''PermissionError'' ''pending confirmation belongs to another project'')
      else if cf_protocol r \<noteq> protocol then Inl (ValueError ''pending confirmation protocol is incompatible'')
      else if (case cf_expires r of None \<Rightarrow> False | Some t \<Rightarrow> t \<le> now) then
        Inl (NamedError ''TimeoutError'' ''pending confirmation has expired'')
      else Inr ())"

definition close_confirmation :: "string \<Rightarrow> reply \<Rightarrow> (talk_db, unit) op" where
  "close_confirmation cid r = modify (\<lambda>d. d\<lparr>tk_confirmations :=
     update_where (\<lambda>c. cf_id c = cid \<and> cf_result c = None) (\<lambda>c. c\<lparr>cf_result := Some r\<rparr>) (tk_confirmations d)\<rparr>)"

definition settle :: "('x, 'f) talk_env \<Rightarrow> string \<Rightarrow> human_message \<Rightarrow> change_intent \<Rightarrow> ('x talk_world, reply) thread" where
  "settle E cid m i =
     bind_t (apply_intent E (ChangeIntent i) (Some m)) (\<lambda>reply.
     seq_t (talk_tx (\<lambda>_. seq_op (close_confirmation cid reply)
       (talk_event ''control.confirmation.applied'' (in_run i)
         [(''confirmation_id'', JStr cid), (''confirmation_message_id'', JStr (hm_id m))])))
     (return_t reply))"

definition confirm_message :: "('x, 'f) talk_env \<Rightarrow> string \<Rightarrow> string \<Rightarrow> human_message \<Rightarrow> int \<Rightarrow> ('x talk_world, reply) thread" where
  "confirm_message E k cid m protocol =
     seq_t (append_message k m)
     (if \<not> assents m then return_t (refused ''Explicit confirmation was absent.'')
      else bind_t (talk_read (\<lambda>_ d. case find_confirmation k cid d of None \<Rightarrow> Inl (KeyError cid) | Some r \<Rightarrow> Inr r)) (\<lambda>r.
        seq_t (talk_read (\<lambda>now _. may_confirm m protocol now r))
        (case cf_result r of
           Some old \<Rightarrow> return_t old
         | None \<Rightarrow> bind_t (Done (construct validate_change_intent (cf_intent r))) (settle E cid m))))"

end
