(* ===== verification/Rely.thy ===== *)
theory Rely
  imports Threads
begin

text \<open>
  What a thread may rely on while others run between its steps: the state only moves along a relation \<open>R\<close>
  and keeps an invariant \<open>I\<close>. \<open>secure R I Q s m\<close> says that from \<open>s\<close> on every step of the thread keeps both and
  that its value satisfies \<open>Q\<close> when it ends.
\<close>

inductive secure ::
  "('s \<Rightarrow> 's \<Rightarrow> bool) \<Rightarrow> ('s \<Rightarrow> bool) \<Rightarrow> ('a \<Rightarrow> 's \<Rightarrow> bool) \<Rightarrow> 's \<Rightarrow> ('s, 'a) thread \<Rightarrow> bool" for R I Q where
  secure_done: "(\<And>x. r = Inr x \<Longrightarrow> Q x s) \<Longrightarrow> secure R I Q s (Done r)"
| secure_step: "(\<And>t. R s t \<Longrightarrow> I t \<Longrightarrow> I (snd (g t)) \<and> R t (snd (g t)) \<and> secure R I Q (snd (g t)) (fst (g t))) \<Longrightarrow>
    secure R I Q s (Step g)"

inductive_cases secure_StepE: "secure R I Q s (Step g)"

named_theorems secure_rules \<open>rules for secure over the thread combinators\<close>

text \<open>A pool of threads: any of them takes its next step.\<close>

inductive pool_step :: "('s, 'a) thread list \<times> 's \<Rightarrow> ('s, 'a) thread list \<times> 's \<Rightarrow> bool" where
  pool_step: "pool_step (us @ Step g # vs, s) (us @ fst (g s) # vs, snd (g s))"

lemma pool_alone: "pool_step\<^sup>*\<^sup>* ([m], s) ([Done (fst (run_thread m s))], snd (run_thread m s))"
proof (induction m arbitrary: s)
  case (Step g)
  have "pool_step ([Step g], s) ([fst (g s)], snd (g s))" using pool_step [of "[]" g "[]" s] by simp
  moreover have "pool_step\<^sup>*\<^sup>* ([fst (g s)], snd (g s))
      ([Done (fst (run_thread (fst (g s)) (snd (g s))))], snd (run_thread (fst (g s)) (snd (g s))))"
    by (rule Step) (auto simp: fsts.simps prod_set_defs intro: rangeI)
  ultimately show ?case by (simp add: converse_rtranclp_into_rtranclp)
qed simp

locale rely_guarantee =
  fixes R :: "'s \<Rightarrow> 's \<Rightarrow> bool" and I :: "'s \<Rightarrow> bool"
  assumes rely_refl: "R s s"
    and rely_trans: "R s t \<Longrightarrow> R t u \<Longrightarrow> R s u"
begin

abbreviation "holds \<equiv> secure R I"

lemma later:
  assumes "holds Q s m" and "R s t" and "\<And>x s t. Q x s \<Longrightarrow> R s t \<Longrightarrow> Q x t"
  shows "holds Q t m"
  using assms(1,2)
proof cases
  case (secure_done r)
  then show ?thesis using assms(2,3) by (auto intro: secure.secure_done)
next
  case (secure_step g)
  then show ?thesis using assms(2) by (auto intro!: secure.secure_step dest: rely_trans)
qed

lemma bind [secure_rules]:
  assumes "holds Q s m" and "\<And>x t. Q x t \<Longrightarrow> R s t \<Longrightarrow> holds P t (f x)"
  shows "holds P s (bind_t m f)"
  using assms
proof (induction rule: secure.induct)
  case (secure_done r s)
  then show ?case using rely_refl by (cases r) (auto intro: secure.secure_done)
next
  case (secure_step s g)
  show ?case unfolding bind_t.simps
  proof (rule secure.secure_step)
    fix t assume t: "R s t" "I t"
    note here = secure_step.IH [OF t]
    have "holds P (snd (g t)) (bind_t (fst (g t)) f)"
    proof -
      have "holds P u (f x)" if "Q x u" "R (snd (g t)) u" for x u
        using secure_step.prems [OF that(1)] rely_trans t(1) here that(2) by blast
      with here show ?thesis by blast
    qed
    with here show "I (snd ((map_prod (\<lambda>m. bind_t m f) id \<circ> g) t)) \<and>
        R t (snd ((map_prod (\<lambda>m. bind_t m f) id \<circ> g) t)) \<and>
        holds P (snd ((map_prod (\<lambda>m. bind_t m f) id \<circ> g) t)) (fst ((map_prod (\<lambda>m. bind_t m f) id \<circ> g) t))"
      by simp
  qed
qed

lemma seq [secure_rules]:
  "holds Q s m \<Longrightarrow> (\<And>x t. Q x t \<Longrightarrow> R s t \<Longrightarrow> holds P t n) \<Longrightarrow> holds P s (seq_t m n)"
  unfolding seq_t_def by (rule bind)

lemma atomic_op [secure_rules]:
  assumes "\<And>t r u. R s t \<Longrightarrow> I t \<Longrightarrow> m t = (r, u) \<Longrightarrow> I u \<and> R t u \<and> (\<forall>x. r = Inr x \<longrightarrow> Q x u)"
  shows "holds Q s (atomic m)"
  unfolding atomic_def
proof (rule secure.secure_step)
  fix t assume t: "R s t" "I t"
  obtain r u where m: "m t = (r, u)" by (cases "m t")
  from assms [OF t m] show "I (snd (case m t of (r, t) \<Rightarrow> (Done r, t))) \<and> R t (snd (case m t of (r, t) \<Rightarrow> (Done r, t))) \<and>
      holds Q (snd (case m t of (r, t) \<Rightarrow> (Done r, t))) (fst (case m t of (r, t) \<Rightarrow> (Done r, t)))"
    by (auto simp: m intro: secure.secure_done)
qed

lemma simple_threads [secure_rules]:
  "Q x s \<Longrightarrow> holds Q s (return_t x)"
  "holds Q s (raise_t e)"
  "(b \<Longrightarrow> P () s) \<Longrightarrow> holds P s (require_t b e)"
  by (auto simp: return_t_def raise_t_def require_t_def intro: secure.secure_done)

text \<open>A thread whose every step is of a relation that keeps both, whatever state it meets.\<close>

lemma steps_secure:
  assumes "steps_in G m" and "\<And>t u. I t \<Longrightarrow> G t u \<Longrightarrow> I u \<and> R t u"
  shows "holds (\<lambda>_ _. True) s m"
  using assms(1)
proof (induction m arbitrary: s)
  case (Done r)
  show ?case by (rule secure.secure_done) simp
next
  case (Step g)
  show ?case
  proof (rule secure.secure_step)
    fix t assume t: "R s t" "I t"
    have "G t (snd (g t))" "steps_in G (fst (g t))" using Step.prems by simp_all
    moreover have "holds (\<lambda>_ _. True) (snd (g t)) (fst (g t))"
      by (rule Step.IH [OF _ _ calculation(2)]) (auto simp: fsts.simps prod_set_defs intro: rangeI)
    ultimately show "I (snd (g t)) \<and> R t (snd (g t)) \<and> holds (\<lambda>_ _. True) (snd (g t)) (fst (g t))"
      using assms(2) t(2) by blast
  qed
qed

text \<open>
  Any interleaving of secure threads keeps the invariant, and the threads stay secure; what they promise of their
  values must survive the steps of the others.
\<close>

lemma pool_values:
  assumes "pool_step (ms, s) (ms', s')" and "I s" and "\<And>m. m \<in> set ms \<Longrightarrow> holds Q s m"
    and stable: "\<And>x s t. Q x s \<Longrightarrow> R s t \<Longrightarrow> Q x t"
  shows "I s' \<and> R s s' \<and> (\<forall>m \<in> set ms'. holds Q s' m)"
  using assms(1)
proof cases
  case (pool_step us g vs)
  have "holds Q s (Step g)" using assms(3) pool_step(1) by simp
  then have g: "I (snd (g s)) \<and> R s (snd (g s)) \<and> holds Q (snd (g s)) (fst (g s))"
    using assms(2) rely_refl by (auto elim: secure_StepE)
  moreover have "holds Q (snd (g s)) m" if "m \<in> set us \<union> set vs" for m
    using later [OF assms(3) _ stable] that pool_step(1) g by auto
  ultimately show ?thesis using pool_step(2,3) by auto
qed

lemma pool:
  assumes "pool_step (ms, s) (ms', s')" and "I s" and "\<And>m. m \<in> set ms \<Longrightarrow> holds (\<lambda>_ _. True) s m"
  shows "I s' \<and> R s s' \<and> (\<forall>m \<in> set ms'. holds (\<lambda>_ _. True) s' m)"
  by (rule pool_values) (use assms in auto)

end

end
