(* ===== verification/Talk_Laws.thy ===== *)
theory Talk_Laws
  imports Conversation Rely
begin

text \<open>
  Any number of handle and confirm calls at the same time: what reaches the runtime was said by the actor it is
  attributed to, and what changes a run for good was confirmed by the same actor.
\<close>

section \<open>The service as a system\<close>

record 'x talk_state =
  ts_world :: "'x talk_world"
  ts_threads :: "('x talk_world, unit) thread list"

inductive talk_step :: "('x, 'f) talk_env \<Rightarrow> 'x talk_state \<Rightarrow> 'x talk_state \<Rightarrow> bool" for E where
  call_create: "talk_step E s (s\<lparr>ts_threads := seq_t (create_conversation k project actor run) (return_t ()) # ts_threads s\<rparr>)"
| call_set_run: "talk_step E s (s\<lparr>ts_threads := set_active_run k run # ts_threads s\<rparr>)"
| call_handle: "talk_step E s (s\<lparr>ts_threads := seq_t (handle_message E k m) (return_t ()) # ts_threads s\<rparr>)"
| call_confirm: "talk_step E s (s\<lparr>ts_threads := seq_t (confirm_message E k cid m protocol) (return_t ()) # ts_threads s\<rparr>)"
| thread_step: "pool_step (ts_threads s, ts_world s) (ms, w) \<Longrightarrow> talk_step E s (s\<lparr>ts_threads := ms, ts_world := w\<rparr>)"
| time_passes: "tw_now (ts_world s) \<le> now \<Longrightarrow> talk_step E s (s\<lparr>ts_world := (ts_world s)\<lparr>tw_now := now\<rparr>\<rparr>)"
| runtime_moves: "talk_step E s (s\<lparr>ts_world := (ts_world s)\<lparr>tw_ext := x\<rparr>\<rparr>)"
| service_stops: "talk_step E s (s\<lparr>ts_threads := []\<rparr>)"

definition empty_talk :: "'x \<Rightarrow> 'x talk_state" where
  "empty_talk x = \<lparr>ts_world = \<lparr>tw_db = \<lparr>tk_core = empty_db, tk_conversations = [], tk_messages = [],
     tk_compilations = [], tk_confirmations = []\<rparr>, tw_now = 0, tw_calls = [], tw_ext = x\<rparr>, ts_threads = []\<rparr>"

definition talk_steps :: "('x, 'f) talk_env \<Rightarrow> 'x talk_state \<Rightarrow> 'x talk_state \<Rightarrow> bool" where
  "talk_steps E = (talk_step E)\<^sup>*\<^sup>*"

section \<open>What was said and what was confirmed\<close>

definition said :: "'x talk_world \<Rightarrow> human_message set" where
  "said w = me_message ` set (tk_messages (tw_db w))"

text \<open>A recorded message of the actor names this action and no other.\<close>

definition asked :: "human_message set \<Rightarrow> change_intent \<Rightarrow> bool" where
  "asked M i \<longleftrightarrow> (\<exists>m \<in> M. hm_id m = in_message i \<and> hm_actor m = in_actor i \<and> hm_project m = in_project i \<and>
     matched (hm_content m) = [ChangeAct (ci_action i)])"

definition confirmed_by :: "human_message set \<Rightarrow> change_intent \<Rightarrow> human_message option \<Rightarrow> bool" where
  "confirmed_by M i who \<longleftrightarrow> (\<exists>c \<in> M. who = Some c \<and> assents c \<and> hm_actor c = in_actor i \<and> hm_project c = in_project i)"

definition authorised :: "human_message set \<Rightarrow> control_intent \<Rightarrow> human_message option \<Rightarrow> bool" where
  "authorised M i who \<longleftrightarrow> (case i of
     QueryIntent q \<Rightarrow> True
   | ChangeIntent c \<Rightarrow> asked M c \<and> (needs_confirmation (ci_action c) \<longrightarrow> confirmed_by M c who))"

definition talk_inv :: "'x talk_world \<Rightarrow> bool" where
  "talk_inv w \<longleftrightarrow>
     (\<forall>r \<in> set (tk_confirmations (tw_db w)). asked (said w) (cf_intent r) \<and>
        cf_actor r = Some (in_actor (cf_intent r)) \<and> cf_project r = Some (in_project (cf_intent r))) \<and>
     (\<forall>(i, who) \<in> set (tw_calls w). authorised (said w) i who)"

definition talk_grows :: "'x talk_world \<Rightarrow> 'x talk_world \<Rightarrow> bool" where
  "talk_grows w w' \<longleftrightarrow> said w \<subseteq> said w'"

lemma said_mono: "M \<subseteq> N \<Longrightarrow> asked M i \<Longrightarrow> asked N i" "M \<subseteq> N \<Longrightarrow> confirmed_by M i who \<Longrightarrow> confirmed_by N i who"
  unfolding asked_def confirmed_by_def by blast+

lemma authorised_mono: "M \<subseteq> N \<Longrightarrow> authorised M i who \<Longrightarrow> authorised N i who"
  using said_mono by (auto simp: authorised_def split: control_intent.splits)

interpretation talk: rely_guarantee talk_grows talk_inv
  by unfold_locales (auto simp: talk_grows_def)

text \<open>Transactions that leave confirmations alone and only add messages.\<close>

lemma talk_tx_secure:
  assumes "\<And>t x d. talk_grows w t \<Longrightarrow> talk_inv t \<Longrightarrow> m (tw_now t) (tw_db t) = (Inr x, d) \<Longrightarrow>
    talk_inv (t\<lparr>tw_db := d\<rparr>) \<and> talk_grows t (t\<lparr>tw_db := d\<rparr>) \<and> Q x (t\<lparr>tw_db := d\<rparr>)"
  shows "talk.holds Q w (talk_tx m)"
  unfolding talk_tx_def using assms
  by (intro talk.atomic_op) (auto simp: talk_grows_def split: prod.splits sum.splits)

lemma talk_read_secure:
  assumes "\<And>t x. talk_grows w t \<Longrightarrow> talk_inv t \<Longrightarrow> f (tw_now t) (tw_db t) = Inr x \<Longrightarrow> Q x t"
  shows "talk.holds Q w (talk_read f)"
  unfolding talk_read_def using assms by (intro talk.atomic_op) (auto simp: talk_grows_def)

lemma outside_secure:
  assumes "\<And>x t. talk_grows w t \<Longrightarrow> Q x t"
  shows "talk.holds Q w (outside m)"
  unfolding outside_def
proof (rule talk.atomic_op)
  fix t r u assume t: "talk_grows w t" "talk_inv t" "(case m (tw_ext t) of (r, x) \<Rightarrow> (r, t\<lparr>tw_ext := x\<rparr>)) = (r, u)"
  then have u: "u = t\<lparr>tw_ext := tw_ext u\<rparr>" by (auto split: prod.splits)
  have "said u = said t" by (subst u) (simp add: said_def)
  moreover have "talk_inv u" using t(2) by (subst u) (simp add: talk_inv_def said_def)
  ultimately show "talk_inv u \<and> talk_grows t u \<and> (\<forall>x. r = Inr x \<longrightarrow> Q x u)"
    using t(1) assms by (simp add: talk_grows_def)
qed

lemma outside_noted_secure:
  assumes "authorised (said w) i who" and "\<And>x t. talk_grows w t \<Longrightarrow> Q x t"
  shows "talk.holds Q w (outside_noted i who m)"
  unfolding outside_noted_def
proof (rule talk.atomic_op)
  fix t r u assume t: "talk_grows w t" "talk_inv t"
    and "(case m (tw_ext t) of (r, x) \<Rightarrow> (r, t\<lparr>tw_ext := x, tw_calls := tw_calls t @ [(i, who)]\<rparr>)) = (r, u)"
  then have u: "u = t\<lparr>tw_ext := tw_ext u, tw_calls := tw_calls t @ [(i, who)]\<rparr>" by (auto split: prod.splits)
  have same: "said u = said t" by (subst u) (simp add: said_def)
  have "authorised (said t) i who" using assms(1) authorised_mono t(1) by (auto simp: talk_grows_def)
  moreover have "tk_confirmations (tw_db u) = tk_confirmations (tw_db t)" "tw_calls u = tw_calls t @ [(i, who)]"
    by (subst u, simp)+
  ultimately have "talk_inv u" using t(2) by (auto simp: talk_inv_def same)
  then show "talk_inv u \<and> talk_grows t u \<and> (\<forall>x. r = Inr x \<longrightarrow> Q x u)"
    using t(1) assms(2) same by (simp add: talk_grows_def)
qed

section \<open>Calls\<close>

lemma talk_event_eq: "\<exists>c. talk_event ty run p d = (Inr (), d\<lparr>tk_core := c\<rparr>)"
  by (auto simp: talk_event_def enqueue_event_def modify_def)

lemma talk_event_Inr: "talk_event ty run p d = (Inr x, d') \<Longrightarrow> \<exists>c. d' = d\<lparr>tk_core := c\<rparr>"
  using talk_event_eq [of ty run p d] by auto

lemma more_messages:
  assumes "talk_inv t" and "tk_confirmations d = tk_confirmations (tw_db t)"
    and "me_message ` set (tk_messages (tw_db t)) \<subseteq> me_message ` set (tk_messages d)"
  shows "talk_inv (t\<lparr>tw_db := d\<rparr>) \<and> talk_grows t (t\<lparr>tw_db := d\<rparr>)"
proof -
  have sub: "said t \<subseteq> said (t\<lparr>tw_db := d\<rparr>)" using assms(3) by (simp add: said_def)
  have "talk_inv (t\<lparr>tw_db := d\<rparr>)"
    using assms(1,2) said_mono(1) [OF sub] authorised_mono [OF sub] unfolding talk_inv_def by fastforce
  with sub show ?thesis by (simp add: talk_grows_def)
qed

lemma get_secure: "talk.holds (\<lambda>_ _. True) w (get_conversation k)"
  unfolding get_conversation_def by (rule talk_read_secure) simp

lemma put_secure: "talk.holds (\<lambda>_ t. m \<in> said t) w (talk_tx (\<lambda>_. put_message k m))"
proof (rule talk_tx_secure)
  fix u and x :: unit and d assume u: "talk_inv u" "put_message k m (tw_db u) = (Inr x, d)"
  let ?old = "lookup_row (hm_id \<circ> me_message) (hm_id m) (tk_messages (tw_db u))"
  let ?put = "tw_db u\<lparr>tk_messages := tk_messages (tw_db u) @ [\<lparr>me_conversation = k, me_message = m\<rparr>]\<rparr>"
  obtain c where c: "?old = None \<longrightarrow> d = ?put\<lparr>tk_core := c\<rparr>"
  proof -
    obtain c where "talk_event ''human.message.received'' (conversation_run (hm_run m) k)
        [(''conversation_id'', JStr k), (''message_id'', JStr (hm_id m)), (''actor_id'', JStr (hm_actor m))] ?put = (Inr (), ?put\<lparr>tk_core := c\<rparr>)"
      using talk_event_eq by blast
    with u(2) that show thesis by (auto simp: put_message_def split: option.splits)
  qed
  have old: "d = tw_db u \<and> m \<in> said u" if "?old = Some r" for r
  proof -
    have "r \<in> set (tk_messages (tw_db u))" using that by (auto simp: lookup_row_def dest: find_SomeD)
    with u(2) that show ?thesis by (auto simp: put_message_def said_def split: if_splits)
  qed
  show "talk_inv (u\<lparr>tw_db := d\<rparr>) \<and> talk_grows u (u\<lparr>tw_db := d\<rparr>) \<and> m \<in> said (u\<lparr>tw_db := d\<rparr>)"
  proof (cases ?old)
    case None
    with c have d: "d = ?put\<lparr>tk_core := c\<rparr>" by simp
    have "talk_inv (u\<lparr>tw_db := d\<rparr>) \<and> talk_grows u (u\<lparr>tw_db := d\<rparr>)" by (rule more_messages [OF u(1)]) (auto simp: d)
    then show ?thesis by (simp add: d said_def)
  next
    case (Some r)
    with old show ?thesis using u(1) talk.rely_refl by simp
  qed
qed

lemma append_secure: "talk.holds (\<lambda>_ t. m \<in> said t) w (append_message k m)"
  unfolding append_message_def
  by (rule talk.bind [OF get_secure], rule talk.seq [OF talk.simple_threads(3)], rule TrueI, rule put_secure)

lemma create_secure: "talk.holds (\<lambda>_ _. True) w (create_conversation k project actor run)"
  unfolding create_conversation_def
proof (rule talk.seq [OF talk.simple_threads(3)], rule TrueI, rule talk.seq [OF _ get_secure], rule talk_tx_secure)
  fix t x d assume t: "talk_inv t" and d: "seq_op (insert_conversation \<lparr>cv_id = k, cv_project = project, cv_actor = actor, cv_run = run\<rparr>)
      (talk_event ''conversation.created'' (conversation_run run k) [(''conversation_id'', JStr k), (''project_id'', JStr project)])
      (tw_db t) = (Inr x, d)"
  then obtain e where "insert_conversation \<lparr>cv_id = k, cv_project = project, cv_actor = actor, cv_run = run\<rparr> (tw_db t) = (Inr (), e)"
    and "talk_event ''conversation.created'' (conversation_run run k) [(''conversation_id'', JStr k), (''project_id'', JStr project)] e = (Inr x, d)"
    by (auto elim: seq_op_InrE)
  then have "tk_confirmations d = tk_confirmations (tw_db t)" "tk_messages d = tk_messages (tw_db t)"
    using talk_event_eq [of "''conversation.created''" "conversation_run run k" "[(''conversation_id'', JStr k), (''project_id'', JStr project)]" e]
    by (auto simp: insert_conversation_def split: option.splits)
  with more_messages [OF t] show "talk_inv (t\<lparr>tw_db := d\<rparr>) \<and> talk_grows t (t\<lparr>tw_db := d\<rparr>) \<and> True" by simp
qed

lemma set_run_secure: "talk.holds (\<lambda>_ _. True) w (set_active_run k run)"
  unfolding set_active_run_def
  by (rule talk_tx_secure) (auto split: if_splits intro: more_messages [THEN conjunct1] more_messages [THEN conjunct2])

lemma apply_secure:
  assumes "authorised (said w) i who"
  shows "talk.holds (\<lambda>_ _. True) w (apply_intent E i who)"
proof -
  have later: "authorised (said t) i who" if "talk_grows w t" for t
    using assms authorised_mono that by (auto simp: talk_grows_def)
  have query: "authorised M (QueryIntent q) x" for M q x by (simp add: authorised_def)
  have observe: "talk.holds (\<lambda>_ _. True) t (observe E q ob)" for t q ob
    unfolding observe_def
    by (intro talk.bind talk.seq talk.simple_threads outside_secure outside_noted_secure query TrueI)
  have "talk.holds (\<lambda>_ _. True) w (try_handler E i who)"
    using assms by (auto simp: try_handler_def intro: outside_noted_secure talk.simple_threads split: control_intent.splits option.splits)
  then show ?thesis unfolding apply_intent_def
  proof (rule talk.bind)
    fix handled t assume t: "talk_grows w t"
    have control: "talk.holds (\<lambda>_ _. True) u (bind_t (outside_noted i who (te_control E i)) (\<lambda>r. return_t (reply_of (intent_id i) r)))"
      if "talk_grows t u" for u
      by (intro talk.bind talk.simple_threads outside_noted_secure TrueI later talk.rely_trans [OF t that])
    show "talk.holds (\<lambda>_ _. True) t (case handled of Some r \<Rightarrow> return_t (reply_of (intent_id i) r)
      | None \<Rightarrow> seq_t (outside (te_resolve E (intent_run i)))
          (case (i, te_observer E) of (QueryIntent q, Some ob) \<Rightarrow> observe E q ob
           | _ \<Rightarrow> bind_t (outside_noted i who (te_control E i)) (\<lambda>r. return_t (reply_of (intent_id i) r))))"
    proof (cases handled)
      case None
      show ?thesis unfolding None option.case
      proof (rule talk.seq [OF outside_secure])
        show "True" by simp
        fix u assume "talk_grows t u"
        then show "talk.holds (\<lambda>_ _. True) u (case (i, te_observer E) of (QueryIntent q, Some ob) \<Rightarrow> observe E q ob
           | _ \<Rightarrow> bind_t (outside_noted i who (te_control E i)) (\<lambda>r. return_t (reply_of (intent_id i) r)))"
          using control observe by (auto split: control_intent.splits option.splits)
      qed
    qed (simp add: talk.simple_threads)
  qed
qed

lemma compiled_change:
  assumes "compile_message m active n = Inr c" and "co_intent c = Some (ChangeIntent i)"
  shows "\<exists>run a. i = change_of m run n a \<and> matched (hm_content m) = [ChangeAct a]"
proof -
  have sel: "selected ms = [ChangeAct a] \<Longrightarrow> ms = [ChangeAct a]" for ms a
  proof -
    assume sel: "selected ms = [ChangeAct a]"
    show "ms = [ChangeAct a]"
    proof (cases "ms \<noteq> [] \<and> list_all is_query ms")
      case True
      let ?f = "filter (\<lambda>p. p \<in> set ms) [QueryAct QA_Progress, QueryAct QA_Risk, QueryAct QA_Evidence]"
      obtain x xs where ms: "ms = x # xs" using True by (cases ms) auto
      with True obtain q where "x = QueryAct q" by (cases x) auto
      with ms have "QueryAct q \<in> set ?f" by (cases q) auto
      then have "?f \<noteq> []" by (metis empty_iff empty_set)
      then have "hd ?f \<in> set ?f" by (rule hd_in_set)
      then have "is_query (hd ?f)" by (auto simp del: filter.simps)
      with sel True show ?thesis by (simp add: selected_def)
    qed (use sel in \<open>auto simp: selected_def\<close>)
  qed
  from assms obtain run a where "i = change_of m run n a" "selected (matched (hm_content m)) = [ChangeAct a]"
    by (auto simp: compile_message_def unclear_def understood_def bind_sum_Inr
        split: list.splits option.splits act.splits)
  with sel show ?thesis by blast
qed

lemma asked_change:
  assumes "i = change_of m run n a" and "matched (hm_content m) = [ChangeAct a]" and "m \<in> M"
  shows "asked M i" and "in_actor i = hm_actor m" and "in_project i = hm_project m" and "in_confirm i = needs_confirmation (ci_action i)"
  using assms by (auto simp: asked_def change_of_def)

lemma record_secure: "talk.holds (\<lambda>_ _. True) w (record_compilation k source c)"
  unfolding record_compilation_def
proof (rule talk_tx_secure)
  fix t and x :: unit and d assume t: "talk_inv t"
  let ?put = "\<lambda>d. d\<lparr>tk_compilations := insert_or_ignore cp_id
      \<lparr>cp_id = ''compilation:'' @ source, cp_conversation = k, cp_message = source, cp_compilation = c\<rparr> (tk_compilations d)\<rparr>"
  assume "seq_op (modify ?put) (compilation_event k source c) (tw_db t) = (Inr x, d)"
  then have "compilation_event k source c (?put (tw_db t)) = (Inr x, d)" by (simp add: op_defs)
  then obtain e where "d = (?put (tw_db t))\<lparr>tk_core := e\<rparr>"
    unfolding compilation_event_def by (auto dest: talk_event_Inr)
  with more_messages [OF t, of d] show "talk_inv (t\<lparr>tw_db := d\<rparr>) \<and> talk_grows t (t\<lparr>tw_db := d\<rparr>) \<and> True" by simp
qed

lemma change_confirmations:
  assumes "talk_inv t" and "tk_messages d = tk_messages (tw_db t)"
    and "\<And>r. r \<in> set (tk_confirmations d) \<Longrightarrow> asked (said t) (cf_intent r) \<and>
      cf_actor r = Some (in_actor (cf_intent r)) \<and> cf_project r = Some (in_project (cf_intent r))"
  shows "talk_inv (t\<lparr>tw_db := d\<rparr>) \<and> talk_grows t (t\<lparr>tw_db := d\<rparr>)"
proof -
  have "said (t\<lparr>tw_db := d\<rparr>) = said t" using assms(2) by (simp add: said_def)
  with assms(1,3) show ?thesis by (simp add: talk_inv_def talk_grows_def)
qed

lemma ask_secure:
  assumes "asked (said w) i" and "in_actor i = hm_actor m" and "in_project i = hm_project m"
  shows "talk.holds (\<lambda>_ _. True) w (ask_confirmation E k m i)"
  unfolding ask_confirmation_def
proof (rule talk.seq)
  let ?put = "\<lambda>now d. d\<lparr>tk_confirmations := insert_or_ignore cf_id (confirmation_of k m (now + te_ttl E) i) (tk_confirmations d)\<rparr>"
  let ?p = "[(''confirmation_id'', JStr (''confirmation:'' @ in_id i)), (''intent_id'', JStr (in_id i))]"
  show "talk.holds (\<lambda>_ _. True) w (talk_tx (\<lambda>now. seq_op (modify (?put now)) (talk_event ''control.confirmation.requested'' (in_run i) ?p)))"
  proof (rule talk_tx_secure)
    fix t and x :: unit and d assume t: "talk_grows w t" "talk_inv t"
    assume "seq_op (modify (?put (tw_now t))) (talk_event ''control.confirmation.requested'' (in_run i) ?p) (tw_db t) = (Inr x, d)"
    then have "talk_event ''control.confirmation.requested'' (in_run i) ?p (?put (tw_now t) (tw_db t)) = (Inr x, d)" by (simp add: op_defs)
    then obtain e where d: "d = (?put (tw_now t) (tw_db t))\<lparr>tk_core := e\<rparr>" by (auto dest: talk_event_Inr)
    have asked: "asked (said t) i" using assms(1) t(1) said_mono(1) by (auto simp: talk_grows_def)
    have "asked (said t) (cf_intent r) \<and> cf_actor r = Some (in_actor (cf_intent r)) \<and> cf_project r = Some (in_project (cf_intent r))"
      if "r \<in> set (tk_confirmations d)" for r
    proof -
      have "r \<in> set (tk_confirmations (tw_db t)) \<or> r = confirmation_of k m (tw_now t + te_ttl E) i"
        using that by (auto simp: d insert_or_ignore_def split: if_splits)
      then show ?thesis using t(2) asked assms(2,3) by (auto simp: talk_inv_def confirmation_of_def)
    qed
    moreover have "tk_messages d = tk_messages (tw_db t)" by (simp add: d)
    ultimately show "talk_inv (t\<lparr>tw_db := d\<rparr>) \<and> talk_grows t (t\<lparr>tw_db := d\<rparr>) \<and> True"
      using change_confirmations [OF t(2)] by blast
  qed
qed (simp add: talk.simple_threads)

lemma carry_out_secure:
  assumes "compile_message m active n = Inr c" and "m \<in> said w"
  shows "talk.holds (\<lambda>_ _. True) w (carry_out E k m c)"
proof (cases "co_intent c")
  case (Some i)
  show ?thesis
  proof (cases i)
    case (ChangeIntent ch)
    from compiled_change [OF assms(1)] Some ChangeIntent obtain run a where
      a: "ch = change_of m run n a" "matched (hm_content m) = [ChangeAct a]" by auto
    note asked = asked_change [OF a assms(2)]
    have "authorised (said w) (ChangeIntent ch) None" if "\<not> in_confirm ch"
      using that asked(1,4) by (simp add: authorised_def)
    then show ?thesis using ask_secure [OF asked(1-3)] by (auto simp: carry_out_def Some ChangeIntent intro: apply_secure)
  qed (simp add: carry_out_def Some apply_secure authorised_def)
qed (simp add: carry_out_def talk.simple_threads)

lemma handle_secure:
  fixes E :: "('x, 'f) talk_env"
  shows "talk.holds (\<lambda>_ _. True) w (handle_message E k m)"
  unfolding handle_message_def
proof (rule talk.seq [OF append_secure], rule talk.bind [OF get_secure], rule talk.bind)
  fix t u :: "'x talk_world" and c
  show "talk.holds (\<lambda>x _. compile_message m (cv_run c) 2 = Inr x) u (Done (compile_message m (cv_run c) 2))"
    by (rule secure.secure_done) simp
  fix x and v :: "'x talk_world" assume "compile_message m (cv_run c) 2 = Inr x" "m \<in> said t" "talk_grows t u" "talk_grows u v"
  then show "talk.holds (\<lambda>_ _. True) v (seq_t (record_compilation k (hm_id m) x) (carry_out E k m x))"
    by (intro talk.seq [OF record_secure] carry_out_secure) (auto simp: talk_grows_def)
qed

lemma find_confirmation_in: "find_confirmation k cid d = Some r \<Longrightarrow> r \<in> set (tk_confirmations d)"
  by (auto simp: find_confirmation_def dest: find_SomeD)

lemma settle_secure:
  assumes "authorised (said w) (ChangeIntent i) (Some m)"
  shows "talk.holds (\<lambda>_ _. True) w (settle E cid m i)"
  unfolding settle_def
proof (rule talk.bind [OF apply_secure [OF assms]], rule talk.seq, rule talk_tx_secure)
  fix reply s t and x :: unit and d
  let ?p = "[(''confirmation_id'', JStr cid), (''confirmation_message_id'', JStr (hm_id m))]"
  assume t: "talk_inv t" and "seq_op (close_confirmation cid reply) (talk_event ''control.confirmation.applied'' (in_run i) ?p) (tw_db t) = (Inr x, d)"
  then obtain e where d: "d = (snd (close_confirmation cid reply (tw_db t)))\<lparr>tk_core := e\<rparr>"
    by (auto simp: close_confirmation_def op_defs dest: talk_event_Inr)
  have "talk_inv (t\<lparr>tw_db := d\<rparr>) \<and> talk_grows t (t\<lparr>tw_db := d\<rparr>)"
    by (rule change_confirmations [OF t]) (use t in \<open>auto simp: d close_confirmation_def modify_def set_update_where talk_inv_def\<close>)
  then show "talk_inv (t\<lparr>tw_db := d\<rparr>) \<and> talk_grows t (t\<lparr>tw_db := d\<rparr>) \<and> True" by simp
qed (simp add: talk.simple_threads)

lemma confirm_secure:
  fixes E :: "('x, 'f) talk_env"
  shows "talk.holds (\<lambda>_ _. True) w (confirm_message E k cid m protocol)"
  unfolding confirm_message_def
proof (rule talk.seq [OF append_secure])
  fix t :: "'x talk_world" assume m: "m \<in> said t"
  let ?Q = "\<lambda>r (u :: 'x talk_world). asked (said u) (cf_intent r) \<and> cf_actor r = Some (in_actor (cf_intent r)) \<and> cf_project r = Some (in_project (cf_intent r))"
  let ?rest = "\<lambda>r. seq_t (talk_read (\<lambda>now _. may_confirm m protocol now r)) (case cf_result r of Some old \<Rightarrow> return_t old
      | None \<Rightarrow> bind_t (Done (construct validate_change_intent (cf_intent r))) (settle E cid m))"
  have rest: "talk.holds (\<lambda>_ _. True) u (?rest r)" if "assents m" "?Q r u" "talk_grows t u" for r u
  proof (rule talk.seq)
    show "talk.holds (\<lambda>_ v. \<exists>now. may_confirm m protocol now r = Inr ()) u (talk_read (\<lambda>now _. may_confirm m protocol now r))"
      by (rule talk_read_secure) (auto intro: exI)
    fix v assume ok: "\<exists>now. may_confirm m protocol now r = Inr ()" and v: "talk_grows u v"
    have "confirmed_by (said v) (cf_intent r) (Some m)"
      using ok that m v by (auto simp: may_confirm_def confirmed_by_def talk_grows_def split: if_splits)
    moreover have "asked (said v) (cf_intent r)" using that(2) v said_mono(1) by (auto simp: talk_grows_def)
    ultimately have auth: "authorised (said v) (ChangeIntent (cf_intent r)) (Some m)" by (simp add: authorised_def)
    show "talk.holds (\<lambda>_ _. True) v (case cf_result r of Some old \<Rightarrow> return_t old
      | None \<Rightarrow> bind_t (Done (construct validate_change_intent (cf_intent r))) (settle E cid m))"
    proof (cases "cf_result r")
      case None
      have "talk.holds (\<lambda>x z. x = cf_intent r \<and> talk_grows v z) v (Done (construct validate_change_intent (cf_intent r)))"
        by (rule secure.secure_done) (simp add: talk.rely_refl)
      then show ?thesis unfolding None option.case
      proof (rule talk.bind)
        fix x z assume "x = cf_intent r \<and> talk_grows v z"
        then show "talk.holds (\<lambda>_ _. True) z (settle E cid m x)"
          using auth authorised_mono by (intro settle_secure) (auto simp: talk_grows_def)
      qed
    qed (simp add: talk.simple_threads)
  qed
  show "talk.holds (\<lambda>_ _. True) t (if \<not> assents m then return_t (refused ''Explicit confirmation was absent.'')
      else bind_t (talk_read (\<lambda>_ d. case find_confirmation k cid d of None \<Rightarrow> Inl (KeyError cid) | Some r \<Rightarrow> Inr r)) ?rest)"
  proof (cases "assents m")
    case True
    have "talk.holds ?Q t (talk_read (\<lambda>_ d. case find_confirmation k cid d of None \<Rightarrow> Inl (KeyError cid) | Some r \<Rightarrow> Inr r))"
      by (rule talk_read_secure) (auto simp: talk_inv_def dest: find_confirmation_in split: option.splits)
    then have "talk.holds (\<lambda>_ _. True) t (bind_t (talk_read (\<lambda>_ d. case find_confirmation k cid d of
        None \<Rightarrow> Inl (KeyError cid) | Some r \<Rightarrow> Inr r)) ?rest)" by (rule talk.bind) (rule rest [OF True])
    with True show ?thesis by simp
  qed (simp add: talk.simple_threads)
qed

section \<open>Any interleaving\<close>

definition talk_ok :: "'x talk_state \<Rightarrow> bool" where
  "talk_ok s \<longleftrightarrow> talk_inv (ts_world s) \<and> (\<forall>m \<in> set (ts_threads s). talk.holds (\<lambda>_ _. True) (ts_world s) m)"

lemma unit_secure: "talk.holds (\<lambda>_ _. True) w m \<Longrightarrow> talk.holds (\<lambda>_ _. True) w (seq_t m (return_t ()))"
  by (rule talk.seq) (simp_all add: talk.simple_threads)

text \<open>The clock and the runtime move without touching what was said.\<close>

lemma talk_ok_other:
  assumes "talk_ok s" and "tw_db w = tw_db (ts_world s)" and "tw_calls w = tw_calls (ts_world s)"
  shows "talk_ok (s\<lparr>ts_world := w\<rparr>)"
proof -
  have same: "said w = said (ts_world s)" using assms(2) by (simp add: said_def)
  then have "talk_grows (ts_world s) w" by (simp add: talk_grows_def)
  with assms same show ?thesis
    by (auto simp: talk_ok_def talk_inv_def intro: talk.later)
qed

lemma talk_ok_step:
  assumes "talk_step E s t" and "talk_ok s"
  shows "talk_ok t"
  using assms(1)
proof cases
  case (thread_step ms w)
  from talk.pool [OF thread_step(2)] assms(2) show ?thesis by (simp add: thread_step(1) talk_ok_def)
next
  case (time_passes now)
  then show ?thesis using talk_ok_other [OF assms(2)] by simp
next
  case (runtime_moves y)
  then show ?thesis using talk_ok_other [OF assms(2)] by simp
qed (use assms(2) in \<open>auto simp: talk_ok_def intro: unit_secure create_secure set_run_secure handle_secure confirm_secure\<close>)

lemma talk_reachable_ok:
  assumes "talk_steps E (empty_talk x) s"
  shows "talk_ok s"
  using assms unfolding talk_steps_def
proof (induction rule: rtranclp_induct)
  case base
  show ?case by (simp add: talk_ok_def talk_inv_def empty_talk_def)
qed (rule talk_ok_step)

text \<open>
  C40. However the calls of the control service interleave and whatever the runtime does, a state change that reaches
  the runtime (or the handler of the caller) was asked for by a recorded message of the actor and project
  it is attributed to, which names this action and no other. A revision, restart, acceptance or
  rejection reaches it only on a recorded message with an explicit confirmation by the same actor in the same project.
\<close>

theorem human_decides:
  assumes "talk_steps E (empty_talk x) s" and "(ChangeIntent i, who) \<in> set (tw_calls (ts_world s))"
  shows "(\<exists>m \<in> said (ts_world s). hm_id m = in_message i \<and> hm_actor m = in_actor i \<and> hm_project m = in_project i \<and>
      matched (hm_content m) = [ChangeAct (ci_action i)]) \<and>
    (ci_action i \<in> {CA_Revise, CA_Restart, CA_Accept, CA_Reject} \<longrightarrow>
      (\<exists>c \<in> said (ts_world s). who = Some c \<and> assents c \<and> hm_actor c = in_actor i \<and> hm_project c = in_project i))"
proof -
  have "authorised (said (ts_world s)) (ChangeIntent i) who"
    using talk_reachable_ok [OF assms(1)] assms(2) by (auto simp: talk_ok_def talk_inv_def)
  then show ?thesis by (simp add: authorised_def asked_def confirmed_by_def needs_confirmation_def)
qed

text \<open>The words are looked for anywhere in the text: a negation does not keep the order from being carried out.\<close>

lemma negation_is_ignored:
  "matched ''Do not pause the run'' = [ChangeAct CA_Pause] \<and> \<not> needs_confirmation CA_Pause"
  by code_simp

section \<open>Samples\<close>

text \<open>A thread that runs alone is a run of the system.\<close>

lemma talk_alone:
  "talk_steps E \<lparr>ts_world = w, ts_threads = [m]\<rparr>
     \<lparr>ts_world = snd (run_thread m w), ts_threads = [Done (fst (run_thread m w))]\<rparr>"
proof (induction m arbitrary: w)
  case (Step g)
  have "talk_step E \<lparr>ts_world = w, ts_threads = [Step g]\<rparr> \<lparr>ts_world = snd (g w), ts_threads = [fst (g w)]\<rparr>"
    using thread_step [of "\<lparr>ts_world = w, ts_threads = [Step g]\<rparr>" "[fst (g w)]" "snd (g w)" E] pool_step [of "[]" g "[]" w]
    by simp
  moreover have "talk_steps E \<lparr>ts_world = snd (g w), ts_threads = [fst (g w)]\<rparr>
     \<lparr>ts_world = snd (run_thread (fst (g w)) (snd (g w))), ts_threads = [Done (fst (run_thread (fst (g w)) (snd (g w))))]\<rparr>"
    by (rule Step) (auto simp: fsts.simps prod_set_defs intro: rangeI)
  ultimately show ?case unfolding talk_steps_def by (simp add: converse_rtranclp_into_rtranclp)
qed (simp add: talk_steps_def)

definition demo_env :: "(nat, nat) talk_env" where
  "demo_env = \<lparr>te_resolve = \<lambda>_. ret (),
     te_control = \<lambda>i n. (Inr \<lparr>ac_intent = intent_id i, ac_outcome = CO_Applied, ac_changed = True, ac_status = None,
       ac_message = ''done'', ac_error = None\<rparr>, Suc n),
     te_fingerprint = \<lambda>_ n. (Inr n, n), te_observer = None, te_handler = None, te_ttl = 900\<rparr>"

definition demo_message :: "string \<Rightarrow> string \<Rightarrow> human_message" where
  "demo_message k content = \<lparr>hm_id = k, hm_actor = ''ann'', hm_project = ''p'', hm_run = Some ''r'', hm_content = content, hm_created = 0\<rparr>"

definition demo_call :: "(nat talk_world, unit) thread \<Rightarrow> nat talk_world \<Rightarrow> nat talk_world" where
  "demo_call m w = snd (run_thread m w)"

definition demo_world :: "nat talk_world" where
  "demo_world =
     demo_call (seq_t (confirm_message demo_env ''c'' ''confirmation:intent:m1'' (demo_message ''m2'' ''I confirm'') 1) (return_t ()))
    (demo_call (seq_t (handle_message demo_env ''c'' (demo_message ''m1'' ''Please ACCEPT it'')) (return_t ()))
    (demo_call (seq_t (create_conversation ''c'' ''p'' ''ann'' None) (return_t ())) (ts_world (empty_talk 0))))"

lemma demo_text:
  "matched ''Please ACCEPT it'' = [ChangeAct CA_Accept]" "mentions (fold_text ''I confirm'') assent_words"
  "\<not> all_white ''c''" "\<not> all_white ''p''" "\<not> all_white ''ann''"
  by code_simp+

lemmas demo_ops = op_defs handle_message_def confirm_message_def create_conversation_def append_message_def get_conversation_def
  talk_tx_def talk_read_def insert_conversation_def insert_row_def put_message_def talk_event_def enqueue_event_def lookup_row_def
  demo_text demo_message_def carry_out_def ask_confirmation_def record_compilation_def compilation_event_def insert_or_ignore_def
  compile_message_def selected_def target_run_def understood_def change_of_def needs_confirmation_def construct_def
  validate_change_intent_def validate_intent_base_def first_error.simps require_def min_length_1_def confirmation_of_def
  find_confirmation_def may_confirm_def settle_def apply_intent_def try_handler_def outside_def outside_noted_def demo_env_def
  assents_def conversation_run_def close_confirmation_def

definition demo_after :: "db \<Rightarrow> message_row list \<Rightarrow> compilation_row list \<Rightarrow> confirmation_row list \<Rightarrow> nat talk_world" where
  "demo_after c ms cs fs = \<lparr>tw_db = \<lparr>tk_core = c, tk_conversations = [\<lparr>cv_id = ''c'', cv_project = ''p'', cv_actor = ''ann'', cv_run = None\<rparr>],
     tk_messages = ms, tk_compilations = cs, tk_confirmations = fs\<rparr>, tw_now = 0, tw_calls = [], tw_ext = 0\<rparr>"

lemma demo_1: "\<exists>c. demo_call (seq_t (create_conversation ''c'' ''p'' ''ann'' None) (return_t ())) (ts_world (empty_talk 0)) = demo_after c [] [] []"
  by (simp add: demo_call_def demo_ops empty_talk_def demo_after_def)

lemma demo_2: "\<exists>c' cs. demo_call (seq_t (handle_message demo_env ''c'' (demo_message ''m1'' ''Please ACCEPT it'')) (return_t ())) (demo_after c [] [] [])
    = demo_after c' [\<lparr>me_conversation = ''c'', me_message = demo_message ''m1'' ''Please ACCEPT it''\<rparr>] cs
        [confirmation_of ''c'' (demo_message ''m1'' ''Please ACCEPT it'') 900 (change_of (demo_message ''m1'' ''Please ACCEPT it'') ''r'' 2 CA_Accept)]"
  by (simp add: demo_call_def demo_ops demo_after_def)

lemma demo_3: "map (\<lambda>(i, who). (intent_value i, map_option hm_id who)) (tw_calls (demo_call
      (seq_t (confirm_message demo_env ''c'' ''confirmation:intent:m1'' (demo_message ''m2'' ''I confirm'') 1) (return_t ()))
      (demo_after c [\<lparr>me_conversation = ''c'', me_message = demo_message ''m1'' ''Please ACCEPT it''\<rparr>] cs
        [confirmation_of ''c'' (demo_message ''m1'' ''Please ACCEPT it'') 900 (change_of (demo_message ''m1'' ''Please ACCEPT it'') ''r'' 2 CA_Accept)])))
    = [(''accept'', Some ''m2'')]"
  by (simp add: demo_call_def demo_ops demo_after_def)

lemma demo_calls: "map (\<lambda>(i, who). (intent_value i, map_option hm_id who)) (tw_calls demo_world) = [(''accept'', Some ''m2'')]"
proof -
  obtain c where 1: "demo_call (seq_t (create_conversation ''c'' ''p'' ''ann'' None) (return_t ())) (ts_world (empty_talk 0)) = demo_after c [] [] []"
    using demo_1 by blast
  from demo_2 [of c] demo_3 show ?thesis unfolding demo_world_def 1 by metis
qed

lemma demo_reachable: "\<exists>ms. talk_steps demo_env (empty_talk 0) \<lparr>ts_world = demo_world, ts_threads = ms\<rparr>"
proof -
  define m1 where "m1 = (seq_t (create_conversation ''c'' ''p'' ''ann'' None) (return_t ()) :: (nat talk_world, unit) thread)"
  define m2 where "m2 = seq_t (handle_message demo_env ''c'' (demo_message ''m1'' ''Please ACCEPT it'')) (return_t ())"
  define m3 where "m3 = seq_t (confirm_message demo_env ''c'' ''confirmation:intent:m1'' (demo_message ''m2'' ''I confirm'') 1) (return_t ())"
  have alone: "talk_steps demo_env \<lparr>ts_world = w, ts_threads = []\<rparr> \<lparr>ts_world = demo_call m w, ts_threads = []\<rparr>"
    if "\<And>s. talk_step demo_env s (s\<lparr>ts_threads := m # ts_threads s\<rparr>)" for m w
  proof -
    have "talk_step demo_env \<lparr>ts_world = w, ts_threads = []\<rparr> \<lparr>ts_world = w, ts_threads = [m]\<rparr>"
      using that [of "\<lparr>ts_world = w, ts_threads = []\<rparr>"] by simp
    moreover note talk_alone [of demo_env w m]
    moreover have "talk_step demo_env \<lparr>ts_world = demo_call m w, ts_threads = [Done (fst (run_thread m w))]\<rparr>
        \<lparr>ts_world = demo_call m w, ts_threads = []\<rparr>"
      using service_stops [of demo_env "\<lparr>ts_world = demo_call m w, ts_threads = [Done (fst (run_thread m w))]\<rparr>"] by simp
    ultimately show ?thesis
      unfolding talk_steps_def demo_call_def by (meson converse_rtranclp_into_rtranclp rtranclp.rtrancl_into_rtrancl)
  qed
  have "talk_step demo_env s (s\<lparr>ts_threads := m1 # ts_threads s\<rparr>)" "talk_step demo_env s (s\<lparr>ts_threads := m2 # ts_threads s\<rparr>)"
    "talk_step demo_env s (s\<lparr>ts_threads := m3 # ts_threads s\<rparr>)" for s
    unfolding m1_def m2_def m3_def by (rule call_create call_handle call_confirm)+
  note steps = this [THEN alone]
  have "talk_steps demo_env \<lparr>ts_world = ts_world (empty_talk 0), ts_threads = []\<rparr> \<lparr>ts_world = demo_world, ts_threads = []\<rparr>"
    unfolding demo_world_def m1_def [symmetric] m2_def [symmetric] m3_def [symmetric]
    using steps unfolding talk_steps_def by (meson rtranclp_trans)
  then show ?thesis by (auto simp: empty_talk_def)
qed

theorem human_decides_witness:
  "\<exists>s i c. talk_steps demo_env (empty_talk 0) s \<and> (ChangeIntent i, Some c) \<in> set (tw_calls (ts_world s)) \<and>
     ci_action i = CA_Accept \<and> assents c \<and> hm_actor c = in_actor i"
proof -
  obtain ms where s: "talk_steps demo_env (empty_talk 0) \<lparr>ts_world = demo_world, ts_threads = ms\<rparr>" using demo_reachable by blast
  obtain i who where calls: "tw_calls demo_world = [(i, who)]" "intent_value i = ''accept''" "map_option hm_id who = Some ''m2''"
    using demo_calls by (auto simp: map_eq_Cons_conv)
  have "qa_value q \<noteq> ''accept''" for q by (cases q) simp_all
  then obtain ch where ch: "i = ChangeIntent ch" using calls(2) by (cases i) auto
  have "ci_action ch = CA_Accept" using calls(2) by (cases "ci_action ch") (simp_all add: ch)
  moreover obtain c where c: "who = Some c" using calls(3) by blast
  ultimately have "assents c \<and> hm_actor c = in_actor ch"
    using human_decides [OF s, of ch who] calls(1) by (auto simp: ch)
  with s calls(1) \<open>ci_action ch = CA_Accept\<close> show ?thesis
    by (intro exI [of _ "\<lparr>ts_world = demo_world, ts_threads = ms\<rparr>"] exI [of _ ch] exI [of _ c]) (simp add: ch c)
qed

end
