(* ===== verification/Frames.thy ===== *)
theory Frames
  imports Text_Search
begin

text \<open>
  The frames of the local socket protocol (\<open>_read_frame\<close> of \<open>service/server.py\<close> and \<open>service/client.py\<close>), and
  Python's counting and slicing of characters on UTF-8 strings.
\<close>

section \<open>Characters of a UTF-8 string\<close>

text \<open>A byte of the form 10xxxxxx continues a character; every other byte begins one.\<close>

definition continues :: "char \<Rightarrow> bool" where
  "continues c \<longleftrightarrow> (128 :: nat) \<le> of_char c \<and> (of_char c :: nat) < 192"

text \<open>\<open>len(s)\<close> and \<open>s[:n]\<close>\<close>

definition code_points :: "string \<Rightarrow> nat" where
  "code_points s = length (filter (\<lambda>c. \<not> continues c) s)"

fun take_points :: "nat \<Rightarrow> string \<Rightarrow> string" where
  "take_points n [] = []"
| "take_points n (c # s) =
     (if continues c then c # take_points n s else case n of 0 \<Rightarrow> [] | Suc m \<Rightarrow> c # take_points m s)"

lemma take_points_prefix: "\<exists>r. s = take_points n s @ r"
  by (induction n s rule: take_points.induct) (auto split: nat.split)

lemma code_points_take: "code_points (take_points n s) \<le> n"
  by (induction n s rule: take_points.induct) (auto simp: code_points_def split: nat.split)

lemma take_points_all: "code_points s \<le> n \<Longrightarrow> take_points n s = s"
  by (induction n s rule: take_points.induct) (auto simp: code_points_def split: nat.split if_splits)

lemma take_points_occurs: "occurs_in p (take_points n s) \<Longrightarrow> occurs_in p s"
proof -
  assume found: "occurs_in p (take_points n s)"
  obtain r where "s = take_points n s @ r" using take_points_prefix by blast
  with occurs_in_append [OF found, of "[]" r] show ?thesis by simp
qed

section \<open>Reading a frame\<close>

definition max_frame :: nat where
  "max_frame = 1024 * 1024"

definition newline :: char where
  "newline = CHR 0x0A"

text \<open>
  What the socket delivers: pieces of the stream, a failure (a timeout, a reset), and the end of the stream at
  the end of the list. \<open>recv\<close> returns at most the number of bytes it is asked for and never none before the end.
\<close>

datatype net = Bytes string | Fails py_error

definition recv :: "nat \<Rightarrow> string \<Rightarrow> net list \<Rightarrow> string \<times> net list" where
  "recv n s rest = (take n s, if length s \<le> n then rest else Bytes (drop n s) # rest)"

fun stream_size :: "net list \<Rightarrow> nat" where
  "stream_size [] = 0"
| "stream_size (Bytes s # rest) = Suc (length s) + stream_size rest"
| "stream_size (Fails e # rest) = Suc (stream_size rest)"

lemma recv_shrinks:
  assumes "recv n s rest = (chunk, more)" and "chunk \<noteq> []"
  shows "stream_size more < stream_size (Bytes s # rest)"
  using assms by (auto simp: recv_def split: if_splits)

definition finish_frame :: "py_error \<Rightarrow> string \<Rightarrow> py_error + string" where
  "finish_frame none frame = (if frame = [] then Inl none else Inr frame)"

text \<open>The two readers differ in the exceptions they raise for a frame that is too long and for an empty one.\<close>

function read_loop :: "py_error \<Rightarrow> py_error \<Rightarrow> string \<Rightarrow> net list \<Rightarrow> py_error + string" where
  "read_loop long none frame [] = finish_frame none frame"
| "read_loop long none frame (Fails e # rest) = Inl e"
| "read_loop long none frame (Bytes s # rest) =
     (case recv (min 65536 (max_frame + 1 - length frame)) s rest of (chunk, more) \<Rightarrow>
        if chunk = [] then finish_frame none frame
        else if newline \<in> set chunk then finish_frame none (frame @ takeWhile (\<lambda>c. c \<noteq> newline) chunk)
        else if length (frame @ chunk) > max_frame then Inl long
        else read_loop long none (frame @ chunk) more)"
  by pat_completeness auto
termination
  by (relation "measure (\<lambda>(long, none, frame, stream). stream_size stream)")
    (use recv_shrinks [OF sym] in \<open>simp_all del: stream_size.simps\<close>)

definition server_read :: "net list \<Rightarrow> py_error + string" where
  "server_read = read_loop (ValueError ''request exceeded the byte limit'') (ValueError ''empty request'') []"

definition client_read :: "net list \<Rightarrow> py_error + string" where
  "client_read = read_loop (RuntimeErr ''Runtime Service response exceeded the byte limit'')
     (RuntimeErr ''Runtime Service disconnected without a response'') []"

text \<open>The reference: the first line of the whole stream, if it has between one byte and the limit.\<close>

definition first_line :: "py_error \<Rightarrow> py_error \<Rightarrow> string \<Rightarrow> py_error + string" where
  "first_line long none s = (let line = takeWhile (\<lambda>c. c \<noteq> newline) s in
     if length line > max_frame then Inl long else finish_frame none line)"

lemma takeWhile_skip: "newline \<notin> set a \<Longrightarrow> takeWhile (\<lambda>c. c \<noteq> newline) (a @ b) = a @ takeWhile (\<lambda>c. c \<noteq> newline) b"
  by (induction a) auto

lemma takeWhile_here: "newline \<in> set a \<Longrightarrow> takeWhile (\<lambda>c. c \<noteq> newline) (a @ b) = takeWhile (\<lambda>c. c \<noteq> newline) a"
  by (induction a) auto

lemma takeWhile_shorter: "newline \<in> set a \<Longrightarrow> length (takeWhile (\<lambda>c. c \<noteq> newline) a) < length a"
  by (induction a) auto

lemma read_loop_first_line:
  assumes "newline \<notin> set frame" and "length frame \<le> max_frame" and "list_all (\<lambda>s. s \<noteq> []) segs"
  shows "read_loop long none frame (map Bytes segs) = first_line long none (frame @ concat segs)"
  using assms
proof (induction "stream_size (map Bytes segs)" arbitrary: frame segs rule: less_induct)
  case less
  show ?case
  proof (cases segs)
    case Nil
    show ?thesis unfolding first_line_def Let_def takeWhile_skip [OF less.prems(1)] using Nil less.prems(2) by simp
  next
    case (Cons s rest)
    define n where "n = min 65536 (max_frame + 1 - length frame)"
    have n: "0 < n" "length frame + n \<le> max_frame + 1" using less.prems(2) by (simp_all add: n_def)
    define chunk where "chunk = take n s"
    define others where "others = (if length s \<le> n then rest else drop n s # rest)"
    have s: "s \<noteq> []" using less.prems Cons by simp
    have recv: "recv n s (map Bytes rest) = (chunk, map Bytes others)"
      by (simp add: recv_def chunk_def others_def)
    have chunk: "chunk \<noteq> []" "length frame + length chunk \<le> max_frame + 1"
      using n s by (auto simp: chunk_def)
    have whole: "concat segs = chunk @ concat others" by (simp add: Cons chunk_def others_def)
    have step: "read_loop long none frame (map Bytes segs) =
      (if newline \<in> set chunk then finish_frame none (frame @ takeWhile (\<lambda>c. c \<noteq> newline) chunk)
       else if length (frame @ chunk) > max_frame then Inl long else read_loop long none (frame @ chunk) (map Bytes others))"
      unfolding Cons list.map read_loop.simps n_def [symmetric] recv using chunk(1) by simp
    consider "newline \<in> set chunk" | "newline \<notin> set chunk" "length (frame @ chunk) > max_frame"
      | "newline \<notin> set chunk" "\<not> length (frame @ chunk) > max_frame" by blast
    then show ?thesis
    proof cases
      case 1
      have "length (frame @ takeWhile (\<lambda>c. c \<noteq> newline) chunk) \<le> max_frame"
        using takeWhile_shorter [OF 1] chunk(2) by simp
      then show ?thesis unfolding step whole first_line_def Let_def takeWhile_skip [OF less.prems(1)] takeWhile_here [OF 1]
        using 1 by simp
    next
      case 2
      then show ?thesis unfolding step whole first_line_def Let_def takeWhile_skip [OF less.prems(1)] takeWhile_skip [OF 2(1)]
        by simp
    next
      case 3
      have "stream_size (map Bytes others) < stream_size (map Bytes segs)"
        using recv_shrinks [OF recv chunk(1)] by (simp add: Cons)
      moreover have "list_all (\<lambda>s. s \<noteq> []) others" using less.prems(3) by (auto simp: Cons others_def)
      ultimately have "read_loop long none (frame @ chunk) (map Bytes others)
          = first_line long none ((frame @ chunk) @ concat others)"
        using less.prems 3 by (intro less.hyps) simp_all
      then show ?thesis using 3 by (simp add: step whole)
    qed
  qed
qed

end
