(* ===== verification/Ipc.thy ===== *)
theory Ipc
  imports Frames
begin

text \<open>
  \<open>service/protocol.py\<close>, \<open>service/server.py\<close> and \<open>service/client.py\<close>: the requests of the local runtime service,
  the checks before a request reaches the gateway, the table that keeps a mutation from running twice, and the
  client that tries again. The gateway behind the service is a parameter, as are the JSON codec and SHA-256.
\<close>

section \<open>Envelopes\<close>

datatype error_code = EC_Invalid | EC_Unauthorized | EC_Identity | EC_Version | EC_Not_Found | EC_Conflict
  | EC_Expired | EC_Uncertain | EC_Internal

text \<open>What the gateway and the checks raise: \<open>ServiceError\<close>, or any other exception.\<close>

datatype ipc_failure = Service_Error error_code string | Raised py_error

type_synonym document = "(string \<times> json) list"

record ipc_request =
  rq_id :: string
  rq_key :: string
  rq_project :: string
  rq_workspace :: string
  rq_operation :: string
  rq_auth :: string
  rq_payload :: document

record ipc_response =
  rs_request :: string
  rs_ok :: bool
  rs_result :: "document option"
  rs_error :: "(error_code \<times> string) option"

definition response_success :: "string \<Rightarrow> document \<Rightarrow> ipc_response" where
  "response_success i r = \<lparr>rs_request = i, rs_ok = True, rs_result = Some r, rs_error = None\<rparr>"

definition response_failure :: "string \<Rightarrow> error_code \<Rightarrow> string \<Rightarrow> ipc_response" where
  "response_failure i c m = \<lparr>rs_request = i, rs_ok = False, rs_result = None, rs_error = Some (c, m)\<rparr>"

lemma response_ok [simp]: "rs_ok (response_success i r)" "\<not> rs_ok (response_failure i c m)"
  "rs_request (response_success i r) = i" "rs_request (response_failure i c m) = i"
  "rs_result (response_success i r) = Some r"
  by (simp_all add: response_success_def response_failure_def)

text \<open>
  The parameters: the project the service is opened on, SHA-256, \<open>json.dumps\<close> (with or without
  \<open>ensure_ascii\<close>, keys sorted), decoding a frame, the encodings of requests and responses, and the gateway.
\<close>

record 'g ipc_env =
  en_project :: string
  en_workspace :: string
  en_sha :: "string \<Rightarrow> string"
  en_dumps :: "bool \<Rightarrow> json \<Rightarrow> string"
  en_loads :: "string \<Rightarrow> json option"
  en_encode :: "ipc_request \<Rightarrow> string"
  en_reply :: "ipc_response \<Rightarrow> string"
  en_read_reply :: "string \<Rightarrow> ipc_response option"
  en_gateway :: "string \<Rightarrow> document \<Rightarrow> 'g \<Rightarrow> (ipc_failure + document) \<times> 'g"

section \<open>Validation of a request\<close>

definition ipc_operations :: "string list" where
  "ipc_operations = [''health'', ''start'', ''message'', ''confirm'', ''run'', ''status'', ''report'', ''project_snapshot'',
     ''run_snapshot'', ''pause'', ''resume'', ''interrupt'', ''cancel'', ''accept'', ''reject'', ''revise'', ''shutdown'']"

definition ipc_mutations :: "string list" where
  "ipc_mutations = [''start'', ''message'', ''confirm'', ''run'', ''pause'', ''resume'', ''interrupt'', ''cancel'', ''accept'',
     ''reject'', ''revise'']"

definition mutates :: "ipc_request \<Rightarrow> bool" where
  "mutates rq \<longleftrightarrow> rq_operation rq \<in> set ipc_mutations"

definition max_text :: nat where
  "max_text = 64 * 1024"

definition payload_bounded :: "(bool \<Rightarrow> json \<Rightarrow> string) \<Rightarrow> document \<Rightarrow> bool" where
  "payload_bounded dumps p \<longleftrightarrow> length (dumps False (JObj p)) \<le> max_frame div 2 \<and>
     list_all (\<lambda>(_, v). case v of JStr s \<Rightarrow> code_points s \<le> max_text | _ \<Rightarrow> True) p"

definition text_field :: "nat \<Rightarrow> nat \<Rightarrow> string \<Rightarrow> document \<Rightarrow> py_error + string" where
  "text_field lo hi k fs = (case map_of fs k of
     Some (JStr s) \<Rightarrow> if lo \<le> code_points s \<and> code_points s \<le> hi then Inr s else Inl (ValidationError k)
   | _ \<Rightarrow> Inl (ValidationError k))"

definition choice_field :: "string list \<Rightarrow> string \<Rightarrow> document \<Rightarrow> py_error + string" where
  "choice_field choices k fs = (case map_of fs k of
     Some (JStr s) \<Rightarrow> if s \<in> set choices then Inr s else Inl (ValidationError k)
   | _ \<Rightarrow> Inl (ValidationError k))"

definition payload_field :: "(bool \<Rightarrow> json \<Rightarrow> string) \<Rightarrow> document \<Rightarrow> py_error + document" where
  "payload_field dumps fs = (case map_of fs ''payload'' of
     None \<Rightarrow> Inr []
   | Some (JObj p) \<Rightarrow> if payload_bounded dumps p then Inr p else Inl (ValidationError ''payload exceeded the byte limit'')
   | Some _ \<Rightarrow> Inl (ValidationError ''payload''))"

definition request_fields :: "string list" where
  "request_fields = [''protocol_version'', ''request_id'', ''idempotency_key'', ''project_id'', ''workspace_id'', ''operation'',
     ''authorization'', ''payload'']"

definition parse_request :: "(bool \<Rightarrow> json \<Rightarrow> string) \<Rightarrow> document \<Rightarrow> py_error + ipc_request" where
  "parse_request dumps fs =
     bind_sum (require (list_all (\<lambda>(k, _). k \<in> set request_fields) fs) ''extra fields not permitted'') (\<lambda>_.
     bind_sum (choice_field [''1.0''] ''protocol_version'' fs) (\<lambda>_.
     bind_sum (text_field 1 128 ''request_id'' fs) (\<lambda>i.
     bind_sum (text_field 1 256 ''idempotency_key'' fs) (\<lambda>k.
     bind_sum (text_field 1 256 ''project_id'' fs) (\<lambda>p.
     bind_sum (text_field 1 128 ''workspace_id'' fs) (\<lambda>w.
     bind_sum (choice_field ipc_operations ''operation'' fs) (\<lambda>op.
     bind_sum (text_field 32 256 ''authorization'' fs) (\<lambda>a.
     bind_sum (payload_field dumps fs) (\<lambda>pl.
       Inr \<lparr>rq_id = i, rq_key = k, rq_project = p, rq_workspace = w, rq_operation = op, rq_auth = a, rq_payload = pl\<rparr>)))))))))"

text \<open>\<open>model_dump\<close>, and the hash of all fields but the authorization and the request id, keys sorted.\<close>

definition request_json :: "ipc_request \<Rightarrow> json" where
  "request_json rq = JObj [(''protocol_version'', JStr ''1.0''), (''request_id'', JStr (rq_id rq)),
     (''idempotency_key'', JStr (rq_key rq)), (''project_id'', JStr (rq_project rq)), (''workspace_id'', JStr (rq_workspace rq)),
     (''operation'', JStr (rq_operation rq)), (''authorization'', JStr (rq_auth rq)), (''payload'', JObj (rq_payload rq))]"

definition ipc_fingerprint :: "'g ipc_env \<Rightarrow> ipc_request \<Rightarrow> string" where
  "ipc_fingerprint E rq = en_sha E (en_dumps E True (JObj
     [(''idempotency_key'', JStr (rq_key rq)), (''operation'', JStr (rq_operation rq)), (''payload'', JObj (rq_payload rq)),
      (''project_id'', JStr (rq_project rq)), (''protocol_version'', JStr ''1.0''), (''workspace_id'', JStr (rq_workspace rq))]))"

section \<open>From the socket to a request\<close>

text \<open>A service that is running, with the token it made when it started.\<close>

record ipc_server =
  sv_token :: string
  sv_pid :: int

definition gateway_versions :: document where
  "gateway_versions = [(''package'', JStr ''0.8.0''), (''runtime_api'', JStr ''1.0''), (''ipc'', JStr ''1.0'')]"

text \<open>\<open>str(exc)\<close> of a \<open>KeyError\<close> is the quoted key; the token is taken out of the message, 1000 characters are kept.\<close>

definition exc_text :: "py_error \<Rightarrow> string" where
  "exc_text e = (case e of KeyError k \<Rightarrow> [CHR 0x27] @ k @ [CHR 0x27] | _ \<Rightarrow> err_str e)"

definition safe_message :: "string \<Rightarrow> py_error \<Rightarrow> string" where
  "safe_message token e = (let m = take_points 1000 (replace_all token ''[REDACTED]'' (exc_text e)) in
     if m = [] then ''invalid request'' else m)"

text \<open>The exception classes the handlers name, with the subclasses that the model has.\<close>

fun is_value_error :: "py_error \<Rightarrow> bool" where
  "is_value_error (ValueError _) = True"
| "is_value_error (ValidationError _) = True"
| "is_value_error (NamedError c _) = (c = ''SecretLeakError'')"
| "is_value_error _ = False"

definition is_named :: "string \<Rightarrow> py_error \<Rightarrow> bool" where
  "is_named c e \<longleftrightarrow> (case e of NamedError d _ \<Rightarrow> d = c | _ \<Rightarrow> False)"

definition is_key_error :: "py_error \<Rightarrow> bool" where
  "is_key_error e \<longleftrightarrow> (case e of KeyError _ \<Rightarrow> True | _ \<Rightarrow> False)"

text \<open>The handlers of \<open>_serve_connection_uninstrumented\<close>\<close>

definition outer_failure :: "ipc_server \<Rightarrow> string \<Rightarrow> ipc_failure \<Rightarrow> ipc_response" where
  "outer_failure sv i f = (case f of
     Service_Error c m \<Rightarrow> response_failure i c m
   | Raised e \<Rightarrow>
       if is_value_error e then response_failure i EC_Invalid ''invalid or oversized IPC request''
       else if is_key_error e then response_failure i EC_Not_Found (safe_message (sv_token sv) e)
       else if is_named ''TimeoutError'' e then response_failure i EC_Expired (safe_message (sv_token sv) e)
       else if is_named ''PermissionError'' e then response_failure i EC_Unauthorized (safe_message (sv_token sv) e)
       else response_failure i EC_Internal ''Runtime Service request failed'')"

text \<open>The handlers around the gateway in \<open>_dispatch\<close>; other exceptions pass them.\<close>

definition inner_failure :: "string \<Rightarrow> ipc_failure \<Rightarrow> ipc_failure + ipc_response" where
  "inner_failure i f = (case f of
     Service_Error c m \<Rightarrow> Inr (response_failure i c m)
   | Raised e \<Rightarrow>
       if is_key_error e then Inr (response_failure i EC_Not_Found ''target was not found'')
       else if is_named ''PermissionError'' e then Inr (response_failure i EC_Unauthorized ''request is not authorized'')
       else if is_named ''TimeoutError'' e then Inr (response_failure i EC_Expired ''pending action has expired'')
       else if is_value_error e then Inr (response_failure i EC_Invalid ''gateway request is invalid'')
       else Inl f)"

datatype incoming = Reply ipc_response | Stop ipc_response | Dispatch ipc_request

text \<open>\<open>hmac.compare_digest\<close> raises on a string that is not ASCII; the token is.\<close>

definition authorised :: "'g ipc_env \<Rightarrow> ipc_server \<Rightarrow> ipc_request \<Rightarrow> ipc_failure + unit" where
  "authorised E sv rq =
     (if \<not> list_all (\<lambda>c. (of_char c :: nat) < 128) (rq_auth rq) then
        Inl (Raised (NamedError ''TypeError'' ''comparing strings with non-ASCII characters is not supported''))
      else if rq_auth rq \<noteq> sv_token sv then Inl (Service_Error EC_Unauthorized ''client is not authorized'')
      else if rq_project rq \<noteq> en_project E \<or> rq_workspace rq \<noteq> en_workspace E
        then Inl (Service_Error EC_Identity ''project identity mismatch'')
      else Inr ())"

definition health :: "'g ipc_env \<Rightarrow> ipc_server \<Rightarrow> document" where
  "health E sv = [(''healthy'', JBool True), (''pid'', JInt (sv_pid sv)), (''project_id'', JStr (en_project E)),
     (''workspace_id'', JStr (en_workspace E)), (''versions'', JObj gateway_versions)]"

text \<open>The part of \<open>_dispatch\<close> before the gateway and the replay table.\<close>

definition admit :: "'g ipc_env \<Rightarrow> ipc_server \<Rightarrow> ipc_request \<Rightarrow> incoming" where
  "admit E sv rq = (case authorised E sv rq of
     Inl f \<Rightarrow> Reply (outer_failure sv (rq_id rq) f)
   | Inr _ \<Rightarrow>
       if rq_operation rq = ''health'' then Reply (response_success (rq_id rq) (health E sv))
       else if rq_operation rq = ''shutdown'' then Stop (response_success (rq_id rq) [(''stopping'', JBool True)])
       else Dispatch rq)"

definition known_id :: "json \<Rightarrow> string" where
  "known_id doc = (case doc of
     JObj fs \<Rightarrow> (case map_of fs ''request_id'' of Some (JStr s) \<Rightarrow> s | _ \<Rightarrow> ''unknown'')
   | _ \<Rightarrow> ''unknown'')"

definition receive :: "'g ipc_env \<Rightarrow> ipc_server \<Rightarrow> net list \<Rightarrow> incoming" where
  "receive E sv stream = (case server_read stream of
     Inl e \<Rightarrow> Reply (outer_failure sv ''unknown'' (Raised e))
   | Inr raw \<Rightarrow> (case en_loads E raw of
       None \<Rightarrow> Reply (outer_failure sv ''unknown'' (Raised (ValueError ''not a JSON document'')))
     | Some doc \<Rightarrow> (case doc of
         JObj fs \<Rightarrow>
           if map_of fs ''protocol_version'' \<noteq> Some (JStr ''1.0'') then
             Reply (outer_failure sv (known_id doc) (Service_Error EC_Version ''IPC protocol version is incompatible''))
           else (case parse_request (en_dumps E) fs of
             Inl e \<Rightarrow> Reply (outer_failure sv (known_id doc) (Raised e))
           | Inr rq \<Rightarrow> admit E sv rq)
       | _ \<Rightarrow> Reply (outer_failure sv (known_id doc) (Service_Error EC_Version ''IPC protocol version is incompatible'')))))"

section \<open>The replay table\<close>

datatype replay_state = Executing | Completed

record replay_row =
  ip_key :: string
  ip_fingerprint :: string
  ip_project :: string
  ip_workspace :: string
  ip_operation :: string
  ip_response :: "ipc_response option"
  ip_state :: replay_state

text \<open>\<open>_claim\<close>: the response to replay, a refusal, or a new row.\<close>

definition claim_replay :: "'g ipc_env \<Rightarrow> ipc_request \<Rightarrow> replay_row list \<Rightarrow>
    (ipc_failure + ipc_response option) \<times> replay_row list" where
  "claim_replay E rq rows = (case lookup_row ip_key (rq_key rq) rows of
     Some r \<Rightarrow>
       if ip_fingerprint r \<noteq> ipc_fingerprint E rq then
         (Inl (Service_Error EC_Conflict ''idempotency key was reused for a different request''), rows)
       else (case (ip_state r, ip_response r) of
           (Completed, Some old) \<Rightarrow> (Inr (Some old), rows)
         | _ \<Rightarrow> (Inl (Service_Error EC_Uncertain ''prior mutation outcome is uncertain; refusing replay''), rows))
   | None \<Rightarrow> (Inr None, rows @ [\<lparr>ip_key = rq_key rq, ip_fingerprint = ipc_fingerprint E rq, ip_project = rq_project rq,
       ip_workspace = rq_workspace rq, ip_operation = rq_operation rq, ip_response = None, ip_state = Executing\<rparr>]))"

definition complete_replay :: "ipc_request \<Rightarrow> ipc_response \<Rightarrow> replay_row list \<Rightarrow> replay_row list" where
  "complete_replay rq resp = update_where (\<lambda>r. ip_key r = rq_key rq \<and> ip_state r = Executing)
     (\<lambda>r. r\<lparr>ip_response := Some resp, ip_state := Completed\<rparr>)"

section \<open>Services at work\<close>

text \<open>
  A dispatched request goes through the claim of its key, the gateway, the completion of its row, and the answer;
  requests that change nothing begin at the gateway and have no row. A service does one call at a time. The world
  also records the tokens that were made, what the gateway was asked to do with the response it led to, and the
  answers that were sent.
\<close>

datatype call_phase = P_Claim | P_Run | P_Complete ipc_response | P_Send ipc_response

record ipc_call =
  cl_server :: ipc_server
  cl_request :: ipc_request
  cl_phase :: call_phase

record 'g ipc_world =
  iw_rows :: "replay_row list"
  iw_gate :: 'g
  iw_servers :: "ipc_server list"
  iw_calls :: "ipc_call list"
  iw_tokens :: "string list"
  iw_ran :: "(ipc_request \<times> ipc_response) list"
  iw_sent :: "(ipc_request \<times> ipc_response) list"

definition new_call :: "ipc_server \<Rightarrow> ipc_request \<Rightarrow> ipc_call" where
  "new_call sv rq = \<lparr>cl_server = sv, cl_request = rq, cl_phase = (if mutates rq then P_Claim else P_Run)\<rparr>"

definition call_failed :: "ipc_call \<Rightarrow> ipc_failure \<Rightarrow> ipc_response" where
  "call_failed c f = outer_failure (cl_server c) (rq_id (cl_request c)) f"

definition claim_step :: "'g ipc_env \<Rightarrow> ipc_call \<Rightarrow> 'g ipc_world \<Rightarrow> call_phase \<times> 'g ipc_world" where
  "claim_step E c w = (case claim_replay E (cl_request c) (iw_rows w) of
     (Inl f, rows) \<Rightarrow> (P_Send (call_failed c f), w\<lparr>iw_rows := rows\<rparr>)
   | (Inr None, rows) \<Rightarrow> (P_Run, w\<lparr>iw_rows := rows\<rparr>)
   | (Inr (Some old), rows) \<Rightarrow> (P_Send (old\<lparr>rs_request := rq_id (cl_request c)\<rparr>), w\<lparr>iw_rows := rows\<rparr>))"

text \<open>The gateway runs; an exception that \<open>_dispatch\<close> does not name skips the completion of the row.\<close>

definition gateway_result :: "ipc_call \<Rightarrow> ipc_failure + document \<Rightarrow> call_phase" where
  "gateway_result c r = (let rq = cl_request c; proceed = (\<lambda>resp. if mutates rq then P_Complete resp else P_Send resp) in
     case r of
       Inr doc \<Rightarrow> proceed (response_success (rq_id rq) doc)
     | Inl f \<Rightarrow> (case inner_failure (rq_id rq) f of Inr resp \<Rightarrow> proceed resp | Inl g \<Rightarrow> P_Send (call_failed c g)))"

fun phase_response :: "call_phase \<Rightarrow> ipc_response option" where
  "phase_response (P_Complete resp) = Some resp"
| "phase_response (P_Send resp) = Some resp"
| "phase_response _ = None"

definition gateway_step :: "'g ipc_env \<Rightarrow> ipc_call \<Rightarrow> 'g ipc_world \<Rightarrow> call_phase \<times> 'g ipc_world" where
  "gateway_step E c w = (case en_gateway E (rq_operation (cl_request c)) (rq_payload (cl_request c)) (iw_gate w) of
     (r, g) \<Rightarrow> let next = gateway_result c r in
       (next, w\<lparr>iw_gate := g, iw_ran := iw_ran w @ map (\<lambda>resp. (cl_request c, resp)) (case phase_response next of None \<Rightarrow> [] | Some x \<Rightarrow> [x])\<rparr>))"

definition advance :: "'g ipc_env \<Rightarrow> ipc_call \<Rightarrow> 'g ipc_world \<Rightarrow> call_phase \<times> 'g ipc_world" where
  "advance E c w = (case cl_phase c of
     P_Claim \<Rightarrow> claim_step E c w
   | P_Run \<Rightarrow> gateway_step E c w
   | P_Complete resp \<Rightarrow> (P_Send resp, w\<lparr>iw_rows := complete_replay (cl_request c) resp (iw_rows w)\<rparr>)
   | P_Send resp \<Rightarrow> (P_Send resp, w))"

text \<open>
  Any number of services on one database, each with one call at a time; a service can stop at any point, a database
  transaction can fail, and other programs change what is behind the gateway. When the answer cannot be sent the
  exception leaves \<open>serve\<close>, and the service ends.
\<close>

definition idle :: "'g ipc_world \<Rightarrow> ipc_server \<Rightarrow> bool" where
  "idle w sv \<longleftrightarrow> sv \<in> set (iw_servers w) \<and> sv \<notin> cl_server ` set (iw_calls w)"

inductive ipc_step :: "'g ipc_env \<Rightarrow> 'g ipc_world \<Rightarrow> 'g ipc_world \<Rightarrow> bool" for E where
  ipc_open: "ipc_step E w (w\<lparr>iw_servers := sv # iw_servers w, iw_tokens := sv_token sv # iw_tokens w\<rparr>)"
| ipc_receive: "idle w sv \<Longrightarrow> receive E sv stream = Dispatch rq \<Longrightarrow>
    ipc_step E w (w\<lparr>iw_calls := new_call sv rq # iw_calls w\<rparr>)"
| ipc_stop: "idle w sv \<Longrightarrow> receive E sv stream = Stop resp \<Longrightarrow>
    ipc_step E w (w\<lparr>iw_servers := remove1 sv (iw_servers w)\<rparr>)"
| ipc_advance: "iw_calls w = us @ c # vs \<Longrightarrow> advance E c w = (ph, w') \<Longrightarrow>
    ipc_step E w (w'\<lparr>iw_calls := us @ c\<lparr>cl_phase := ph\<rparr> # vs\<rparr>)"
| ipc_tx_fails: "iw_calls w = us @ c # vs \<Longrightarrow> cl_phase c = P_Claim \<or> (\<exists>resp. cl_phase c = P_Complete resp) \<Longrightarrow>
    ipc_step E w (w\<lparr>iw_calls := us @ c\<lparr>cl_phase := P_Send (call_failed c (Raised e))\<rparr> # vs\<rparr>)"
| ipc_send: "iw_calls w = us @ c # vs \<Longrightarrow> cl_phase c = P_Send resp \<Longrightarrow>
    ipc_step E w (w\<lparr>iw_calls := us @ vs, iw_sent := iw_sent w @ [(cl_request c, resp)]\<rparr>)"
| ipc_send_fails: "iw_calls w = us @ c # vs \<Longrightarrow> cl_phase c = P_Send resp \<Longrightarrow>
    ipc_step E w (w\<lparr>iw_calls := us @ vs, iw_servers := remove1 (cl_server c) (iw_servers w)\<rparr>)"
| ipc_crash: "iw_calls w = us @ c # vs \<Longrightarrow>
    ipc_step E w (w\<lparr>iw_calls := us @ vs, iw_servers := remove1 (cl_server c) (iw_servers w)\<rparr>)"
| ipc_close: "idle w sv \<Longrightarrow> ipc_step E w (w\<lparr>iw_servers := remove1 sv (iw_servers w)\<rparr>)"
| ipc_others: "ipc_step E w (w\<lparr>iw_gate := g\<rparr>)"

definition fresh_service :: "'g \<Rightarrow> 'g ipc_world" where
  "fresh_service g = \<lparr>iw_rows = [], iw_gate = g, iw_servers = [], iw_calls = [], iw_tokens = [], iw_ran = [], iw_sent = []\<rparr>"

section \<open>A call that nothing interrupts\<close>

fun proceed_call :: "nat \<Rightarrow> 'g ipc_env \<Rightarrow> ipc_call \<Rightarrow> 'g ipc_world \<Rightarrow> call_phase \<times> 'g ipc_world" where
  "proceed_call 0 E c w = (cl_phase c, w)"
| "proceed_call (Suc n) E c w = (case advance E c w of (ph, w') \<Rightarrow> proceed_call n E (c\<lparr>cl_phase := ph\<rparr>) w')"

text \<open>Claim, gateway and completion: three phases lead to the answer.\<close>

definition serve_request :: "'g ipc_env \<Rightarrow> ipc_server \<Rightarrow> ipc_request \<Rightarrow> 'g ipc_world \<Rightarrow> ipc_response option \<times> 'g ipc_world" where
  "serve_request E sv rq w = (case proceed_call 3 E (new_call sv rq) w of
     (P_Send resp, w') \<Rightarrow> (Some resp, w'\<lparr>iw_sent := iw_sent w' @ [(rq, resp)]\<rparr>)
   | (_, w') \<Rightarrow> (None, w'))"

definition serve_connection :: "'g ipc_env \<Rightarrow> ipc_server \<Rightarrow> net list \<Rightarrow> 'g ipc_world \<Rightarrow> ipc_response option \<times> 'g ipc_world" where
  "serve_connection E sv stream w = (case receive E sv stream of
     Reply resp \<Rightarrow> (Some resp, w)
   | Stop resp \<Rightarrow> (Some resp, w\<lparr>iw_servers := remove1 sv (iw_servers w)\<rparr>)
   | Dispatch rq \<Rightarrow> serve_request E sv rq w)"

section \<open>The client\<close>

text \<open>The endpoint file of a running service, as the client reads it.\<close>

record descriptor =
  ds_root :: string
  ds_project :: string
  ds_token :: string
  ds_versions :: "(string \<times> string) list option"

definition version_of :: "string \<Rightarrow> (string \<times> string) list \<Rightarrow> string" where
  "version_of k vs = (case map_of vs k of None \<Rightarrow> [] | Some v \<Rightarrow> v)"

definition major_of :: "string \<Rightarrow> string" where
  "major_of v = takeWhile (\<lambda>c. c \<noteq> CHR ''.'') v"

definition read_descriptor :: "string \<Rightarrow> descriptor option \<Rightarrow> py_error + descriptor" where
  "read_descriptor here file = (case file of
     None \<Rightarrow> Inl (OSErr ''Runtime Service endpoint is unavailable'')
   | Some d \<Rightarrow> if ds_root d \<noteq> here then Inl (OSErr ''Runtime Service endpoint belongs to another project'') else Inr d)"

definition compatible :: "descriptor \<Rightarrow> py_error + unit" where
  "compatible d = (case ds_versions d of
     None \<Rightarrow> Inl (RuntimeErr ''Runtime Service version metadata is unavailable'')
   | Some vs \<Rightarrow>
       if \<not> starts_with ''0.8.'' (version_of ''package'' vs) then Inl (RuntimeErr ''graph-engineering package version is incompatible'')
       else if major_of (version_of ''runtime_api'' vs) \<noteq> ''1'' then Inl (RuntimeErr ''Runtime Service API version is incompatible'')
       else if major_of (version_of ''ipc'' vs) \<noteq> ''1'' then Inl (RuntimeErr ''Runtime Service IPC version is incompatible'')
       else Inr ())"

text \<open>
  What happens to one attempt: no connection; the client fails after some of the request has gone out; the answer
  is lost; or all goes well. The first three raise an \<open>OSError\<close> in the client; the flag says whether the lost
  connection also ended the service.
\<close>

datatype attempt = Refused | Torn nat bool | Answer_Lost bool | Answered

text \<open>\<open>response.result or {}\<close>\<close>

definition answer_document :: "ipc_response \<Rightarrow> document" where
  "answer_document r = (case rs_result r of None \<Rightarrow> [] | Some d \<Rightarrow> d)"

definition read_answer :: "'g ipc_env \<Rightarrow> ipc_request \<Rightarrow> ipc_response option \<Rightarrow> ipc_failure + document" where
  "read_answer E rq answer =
     (case client_read (case answer of None \<Rightarrow> [] | Some r \<Rightarrow> [Bytes (en_reply E r @ [newline])]) of
        Inl e \<Rightarrow> Inl (Raised e)
      | Inr raw \<Rightarrow> (case en_read_reply E raw of
          None \<Rightarrow> Inl (Raised (ValidationError ''IPCResponse''))
        | Some r \<Rightarrow>
            if rs_request r \<noteq> rq_id rq then Inl (Raised (RuntimeErr ''Runtime Service response identity mismatch''))
            else if \<not> rs_ok r then (case rs_error r of
                None \<Rightarrow> Inl (Raised AssertionError) | Some (c, m) \<Rightarrow> Inl (Service_Error c m))
            else Inr (answer_document r)))"

text \<open>The loop over the attempts: the same request, with the same key, each time. A service that has ended refuses.\<close>

definition close_service :: "bool \<Rightarrow> ipc_server \<Rightarrow> 'g ipc_world \<Rightarrow> 'g ipc_world" where
  "close_service ends sv w = (if ends then w\<lparr>iw_servers := remove1 sv (iw_servers w)\<rparr> else w)"

fun try_attempts :: "'g ipc_env \<Rightarrow> ipc_server \<Rightarrow> ipc_request \<Rightarrow> attempt list \<Rightarrow> 'g ipc_world \<Rightarrow>
    (ipc_failure + document) \<times> 'g ipc_world" where
  "try_attempts E sv rq [] w = (Inl (Raised (OSErr ''Runtime Service is unavailable'')), w)"
| "try_attempts E sv rq (a # rest) w = (let request = en_encode E rq @ [newline] in
     if sv \<notin> set (iw_servers w) then try_attempts E sv rq rest w
     else case a of
       Refused \<Rightarrow> try_attempts E sv rq rest w
     | Torn n ends \<Rightarrow>
         try_attempts E sv rq rest (close_service ends sv (snd (serve_connection E sv [Bytes (take n request)] w)))
     | Answer_Lost ends \<Rightarrow>
         try_attempts E sv rq rest (close_service ends sv (snd (serve_connection E sv [Bytes request] w)))
     | Answered \<Rightarrow>
         (case serve_connection E sv [Bytes request] w of (answer, w') \<Rightarrow> (read_answer E rq answer, w')))"

text \<open>\<open>ServiceClient.call\<close>; the ids are given or fresh. The number of attempts is the length of the list.\<close>

definition client_request :: "'g ipc_env \<Rightarrow> descriptor \<Rightarrow> string \<Rightarrow> document \<Rightarrow> string \<Rightarrow> string \<Rightarrow> py_error + ipc_request" where
  "client_request E d operation payload key i = parse_request (en_dumps E)
     [(''protocol_version'', JStr ''1.0''), (''request_id'', JStr i), (''idempotency_key'', JStr key),
      (''project_id'', JStr (ds_project d)), (''workspace_id'', JStr (en_workspace E)), (''operation'', JStr operation),
      (''authorization'', JStr (ds_token d)), (''payload'', JObj payload)]"

definition client_call :: "'g ipc_env \<Rightarrow> string \<Rightarrow> descriptor option \<Rightarrow> ipc_server \<Rightarrow> string \<Rightarrow> document \<Rightarrow> string \<Rightarrow> string \<Rightarrow>
    attempt list \<Rightarrow> 'g ipc_world \<Rightarrow> (ipc_failure + document) \<times> 'g ipc_world" where
  "client_call E here file sv operation payload key i attempts w =
     (case bind_sum (read_descriptor here file) (\<lambda>d.
             bind_sum (compatible d) (\<lambda>_. client_request E d operation payload key i)) of
        Inl e \<Rightarrow> (Inl (Raised e), w)
      | Inr rq \<Rightarrow> try_attempts E sv rq attempts w)"

end
