(* ===== verification/Ipc_Laws.thy ===== *)
theory Ipc_Laws
  imports Ipc
begin

text \<open>
  What the runtime service guarantees: no chunking of the stream changes a request, a mutation runs at most once
  under its idempotency key whatever crashes, and a client that tries again gets the result of that one run.
\<close>

section \<open>The invariant of the replay table\<close>

definition ran_keys :: "(ipc_request \<times> ipc_response) list \<Rightarrow> string list" where
  "ran_keys past = map (rq_key \<circ> fst) (filter (mutates \<circ> fst) past)"

text \<open>A successful answer to a mutation is the result of a run of the same request.\<close>

definition supported :: "'g ipc_env \<Rightarrow> (ipc_request \<times> ipc_response) list \<Rightarrow> ipc_request \<Rightarrow> ipc_response \<Rightarrow> bool" where
  "supported E past rq resp \<longleftrightarrow> (mutates rq \<and> rs_ok resp \<longrightarrow> (\<exists>(rq0, resp0) \<in> set past. mutates rq0 \<and>
     rq_key rq0 = rq_key rq \<and> ipc_fingerprint E rq0 = ipc_fingerprint E rq \<and> rs_ok resp0 \<and> rs_result resp0 = rs_result resp))"

definition replay_ok :: "'g ipc_env \<Rightarrow> (ipc_request \<times> ipc_response) list \<Rightarrow> replay_row \<Rightarrow> bool" where
  "replay_ok E past r \<longleftrightarrow> (case ip_response r of
     None \<Rightarrow> ip_state r = Executing
   | Some resp \<Rightarrow> ip_state r = Completed \<and> (\<exists>rq0. (rq0, resp) \<in> set past \<and> mutates rq0 \<and> rq_key rq0 = ip_key r \<and>
       ipc_fingerprint E rq0 = ip_fingerprint r))"

definition has_row :: "'g ipc_env \<Rightarrow> replay_row list \<Rightarrow> ipc_request \<Rightarrow> bool" where
  "has_row E rows rq \<longleftrightarrow> (\<exists>r \<in> set rows. ip_key r = rq_key rq \<and> ip_fingerprint r = ipc_fingerprint E rq)"

definition executing :: "'g ipc_env \<Rightarrow> replay_row list \<Rightarrow> ipc_request \<Rightarrow> bool" where
  "executing E rows rq \<longleftrightarrow> (\<exists>r \<in> set rows. ip_key r = rq_key rq \<and> ip_fingerprint r = ipc_fingerprint E rq \<and> ip_state r = Executing)"

definition ledger :: "'g ipc_env \<Rightarrow> replay_row list \<Rightarrow> (ipc_request \<times> ipc_response) list \<Rightarrow> bool" where
  "ledger E rows past \<longleftrightarrow> distinct (map ip_key rows) \<and> (\<forall>r \<in> set rows. replay_ok E past r) \<and>
     distinct (ran_keys past) \<and> (\<forall>(rq, resp) \<in> set past. mutates rq \<longrightarrow> has_row E rows rq)"

definition admitted :: "'g ipc_env \<Rightarrow> string list \<Rightarrow> ipc_request \<Rightarrow> bool" where
  "admitted E tokens rq \<longleftrightarrow> rq_project rq = en_project E \<and> rq_workspace rq = en_workspace E \<and> rq_auth rq \<in> set tokens"

definition live :: "ipc_call \<Rightarrow> bool" where
  "live c \<longleftrightarrow> mutates (cl_request c) \<and> (case cl_phase c of P_Run \<Rightarrow> True | P_Complete _ \<Rightarrow> True | _ \<Rightarrow> False)"

definition phase_ok :: "'g ipc_env \<Rightarrow> replay_row list \<Rightarrow> (ipc_request \<times> ipc_response) list \<Rightarrow> ipc_call \<Rightarrow> bool" where
  "phase_ok E rows past c \<longleftrightarrow> (case cl_phase c of
     P_Claim \<Rightarrow> mutates (cl_request c)
   | P_Run \<Rightarrow> mutates (cl_request c) \<longrightarrow> executing E rows (cl_request c) \<and> rq_key (cl_request c) \<notin> set (ran_keys past)
   | P_Complete resp \<Rightarrow> mutates (cl_request c) \<and> executing E rows (cl_request c) \<and> (cl_request c, resp) \<in> set past
   | P_Send resp \<Rightarrow> supported E past (cl_request c) resp)"

definition live_keys :: "ipc_call list \<Rightarrow> string list" where
  "live_keys calls = map (\<lambda>c. rq_key (cl_request c)) (filter live calls)"

definition service_ok :: "'g ipc_env \<Rightarrow> 'g ipc_world \<Rightarrow> bool" where
  "service_ok E w \<longleftrightarrow> ledger E (iw_rows w) (iw_ran w) \<and>
     (\<forall>c \<in> set (iw_calls w). admitted E (iw_tokens w) (cl_request c) \<and> phase_ok E (iw_rows w) (iw_ran w) c) \<and>
     distinct (live_keys (iw_calls w)) \<and>
     (\<forall>(rq, resp) \<in> set (iw_ran w). admitted E (iw_tokens w) rq) \<and>
     (\<forall>(rq, resp) \<in> set (iw_sent w). supported E (iw_ran w) rq resp) \<and>
     (\<forall>sv \<in> set (iw_servers w). sv_token sv \<in> set (iw_tokens w))"

lemma ran_keys_append [simp]:
  "ran_keys (past @ [(rq, resp)]) = ran_keys past @ (if mutates rq then [rq_key rq] else [])"
  by (simp add: ran_keys_def)

lemma in_ran_keys: "k \<in> set (ran_keys past) \<longleftrightarrow> (\<exists>rq resp. (rq, resp) \<in> set past \<and> mutates rq \<and> rq_key rq = k)"
  by (force simp: ran_keys_def)

lemma live_keys_append [simp]:
  "live_keys (us @ c # vs) = live_keys us @ (if live c then [rq_key (cl_request c)] else []) @ live_keys vs"
  "live_keys (c # vs) = (if live c then [rq_key (cl_request c)] else []) @ live_keys vs"
  "live_keys (us @ vs) = live_keys us @ live_keys vs"
  by (simp_all add: live_keys_def)

lemma supported_mono: "supported E past rq resp \<Longrightarrow> set past \<subseteq> set past' \<Longrightarrow> supported E past' rq resp"
  unfolding supported_def by blast

lemma replay_ok_mono: "replay_ok E past r \<Longrightarrow> set past \<subseteq> set past' \<Longrightarrow> replay_ok E past' r"
  unfolding replay_ok_def by (auto split: option.splits)

lemma supported_failure [simp]: "\<not> rs_ok resp \<Longrightarrow> supported E past rq resp"
  by (simp add: supported_def)

lemma outer_failure_not_ok [simp]: "\<not> rs_ok (outer_failure sv i f)"
  by (auto simp: outer_failure_def split: ipc_failure.split)

lemma call_failed_not_ok [simp]: "\<not> rs_ok (call_failed c f)"
  by (simp add: call_failed_def)

lemma admitted_Cons: "admitted E ts rq \<Longrightarrow> admitted E (t # ts) rq"
  by (simp add: admitted_def)

text \<open>One row for a key.\<close>

lemma ledger_row:
  assumes "ledger E rows past" and "r \<in> set rows" and "q \<in> set rows" and "ip_key r = ip_key q"
  shows "r = q"
  using assms by (auto simp: ledger_def distinct_map inj_on_def)

lemma lookup_replay:
  assumes "lookup_row ip_key k rows = Some r"
  shows "r \<in> set rows" and "ip_key r = k"
  using assms by (auto simp: lookup_row_def dest: find_SomeD)

section \<open>Every step keeps it\<close>

text \<open>A call changes its phase, the tables stay: the others are not concerned.\<close>

lemma set_phase_ok:
  assumes "service_ok E w" and "iw_calls w = us @ c # vs"
    and "phase_ok E (iw_rows w) (iw_ran w) (c\<lparr>cl_phase := ph\<rparr>)" and "live (c\<lparr>cl_phase := ph\<rparr>) \<Longrightarrow> live c"
  shows "service_ok E (w\<lparr>iw_calls := us @ c\<lparr>cl_phase := ph\<rparr> # vs\<rparr>)"
  using assms by (auto simp: service_ok_def split: if_splits)

lemma drop_call_ok:
  assumes "service_ok E w" and "iw_calls w = us @ c # vs"
  shows "service_ok E (w\<lparr>iw_calls := us @ vs\<rparr>)"
  using assms by (auto simp: service_ok_def split: if_splits)

lemma drop_server_ok: "service_ok E w \<Longrightarrow> service_ok E (w\<lparr>iw_servers := remove1 sv (iw_servers w)\<rparr>)"
  by (auto simp: service_ok_def dest: notin_set_remove1)

lemma not_live_send [simp]: "\<not> live (c\<lparr>cl_phase := P_Send resp\<rparr>)"
  by (simp add: live_def)

lemma phase_ok_send: "phase_ok E rows past (c\<lparr>cl_phase := P_Send resp\<rparr>) \<longleftrightarrow> supported E past (cl_request c) resp"
  by (simp add: phase_ok_def)

lemma receive_authorised:
  assumes "receive E sv stream = Dispatch rq"
  shows "rq_project rq = en_project E" and "rq_workspace rq = en_workspace E" and "rq_auth rq = sv_token sv"
proof -
  have "authorised E sv rq = Inr ()"
    using assms by (auto simp: receive_def admit_def authorised_def split: sum.splits option.splits json.splits if_splits)
  then show "rq_project rq = en_project E" "rq_workspace rq = en_workspace E" "rq_auth rq = sv_token sv"
    by (auto simp: authorised_def split: if_splits)
qed

lemma receive_ok:
  assumes "service_ok E w" and "sv \<in> set (iw_servers w)" and "receive E sv stream = Dispatch rq"
  shows "service_ok E (w\<lparr>iw_calls := new_call sv rq # iw_calls w\<rparr>)"
proof -
  have "admitted E (iw_tokens w) rq"
    using assms receive_authorised [OF assms(3)] by (auto simp: admitted_def service_ok_def)
  moreover have "phase_ok E (iw_rows w) (iw_ran w) (new_call sv rq)" "\<not> live (new_call sv rq)"
    by (simp_all add: phase_ok_def live_def new_call_def)
  ultimately show ?thesis using assms(1) by (simp add: service_ok_def new_call_def)
qed

lemma answer_ok:
  assumes "service_ok E w" and "iw_calls w = us @ c # vs" and "supported E (iw_ran w) (cl_request c) resp"
  shows "service_ok E (w\<lparr>iw_calls := us @ c\<lparr>cl_phase := P_Send resp\<rparr> # vs\<rparr>)"
  using assms by (intro set_phase_ok) (simp_all add: phase_ok_send)

text \<open>The claim of a key.\<close>

lemma claim_cases:
  obtains (refused) f where "claim_replay E rq rows = (Inl f, rows)"
  | (replayed) r old where "claim_replay E rq rows = (Inr (Some old), rows)" "r \<in> set rows" "ip_key r = rq_key rq"
      "ip_fingerprint r = ipc_fingerprint E rq" "ip_response r = Some old"
  | (claimed) row where "claim_replay E rq rows = (Inr None, rows @ [row])" "rq_key rq \<notin> ip_key ` set rows"
      "ip_key row = rq_key rq" "ip_fingerprint row = ipc_fingerprint E rq" "ip_response row = None" "ip_state row = Executing"
proof (cases "lookup_row ip_key (rq_key rq) rows")
  case None
  then have "rq_key rq \<notin> ip_key ` set rows" by (simp add: lookup_row_None)
  with None show ?thesis
    by (intro claimed [of "\<lparr>ip_key = rq_key rq, ip_fingerprint = ipc_fingerprint E rq, ip_project = rq_project rq,
      ip_workspace = rq_workspace rq, ip_operation = rq_operation rq, ip_response = None, ip_state = Executing\<rparr>"])
      (simp_all add: claim_replay_def)
next
  case (Some r)
  note row = lookup_replay [OF Some]
  show ?thesis
  proof (cases "ip_fingerprint r = ipc_fingerprint E rq \<and> ip_state r = Completed \<and> ip_response r \<noteq> None")
    case True
    then obtain old where "ip_response r = Some old" by auto
    with True Some row show ?thesis by (intro replayed [of old r]) (simp_all add: claim_replay_def)
  next
    case False
    have "\<exists>f. claim_replay E rq rows = (Inl f, rows)"
      using False Some by (cases "ip_state r"; cases "ip_response r") (auto simp: claim_replay_def)
    then show ?thesis using refused by blast
  qed
qed

lemma new_row_ok:
  assumes "ledger E rows past" and "ip_key row \<notin> ip_key ` set rows" and "ip_response row = None" and "ip_state row = Executing"
  shows "ledger E (rows @ [row]) past" and "ip_key row \<notin> set (ran_keys past)"
proof -
  have "has_row E (rows @ [row]) rq" if "has_row E rows rq" for rq using that by (auto simp: has_row_def)
  moreover have "replay_ok E past row" using assms by (simp add: replay_ok_def)
  ultimately show "ledger E (rows @ [row]) past" using assms(1,2) by (auto simp: ledger_def)
  have "k \<in> ip_key ` set rows" if key: "k \<in> set (ran_keys past)" for k
  proof -
    obtain rq resp where "(rq, resp) \<in> set past" "mutates rq" "rq_key rq = k"
      using key unfolding in_ran_keys by blast
    with assms(1) have "has_row E rows rq" by (auto simp: ledger_def)
    with \<open>rq_key rq = k\<close> show ?thesis unfolding has_row_def by (metis imageI)
  qed
  with assms(2) show "ip_key row \<notin> set (ran_keys past)" by blast
qed

lemma phase_ok_more_rows: "phase_ok E rows past c \<Longrightarrow> phase_ok E (rows @ [row]) past c"
  by (auto simp: phase_ok_def executing_def split: call_phase.splits)

lemma live_key_row:
  assumes "phase_ok E rows past c" and "live c"
  shows "executing E rows (cl_request c)"
  using assms by (auto simp: phase_ok_def live_def split: call_phase.splits)

lemma live_keys_rows:
  assumes "\<forall>c \<in> set calls. phase_ok E rows past c" and "k \<in> set (live_keys calls)"
  shows "k \<in> ip_key ` set rows"
proof -
  obtain c where "c \<in> set calls" "live c" "k = rq_key (cl_request c)" using assms(2) by (auto simp: live_keys_def)
  with assms(1) live_key_row [of E rows past c] show ?thesis unfolding executing_def by (metis imageI)
qed

lemma claim_ok:
  assumes ok: "service_ok E w" and calls: "iw_calls w = us @ c # vs" and phase: "cl_phase c = P_Claim"
    and step: "claim_step E c w = (ph, w')"
  shows "service_ok E (w'\<lparr>iw_calls := us @ c\<lparr>cl_phase := ph\<rparr> # vs\<rparr>)"
proof -
  note parts = ok [unfolded service_ok_def]
  have mut: "mutates (cl_request c)" using parts calls phase by (auto simp: phase_ok_def)
  have dead: "\<not> live c" using phase by (simp add: live_def)
  show ?thesis
  proof (cases rule: claim_cases [of E "cl_request c" "iw_rows w"])
    case (refused f)
    then have "ph = P_Send (call_failed c f)" "w' = w" using step by (simp_all add: claim_step_def)
    then show ?thesis using answer_ok [OF ok calls] by simp
  next
    case (replayed r old)
    let ?resp = "old\<lparr>rs_request := rq_id (cl_request c)\<rparr>"
    have "replay_ok E (iw_ran w) r" using parts replayed(2) by (simp add: ledger_def)
    with replayed(3,4,5) have "supported E (iw_ran w) (cl_request c) ?resp"
      by (auto simp: replay_ok_def supported_def)
    moreover have "ph = P_Send ?resp" "w' = w" using step replayed(1) by (simp_all add: claim_step_def)
    ultimately show ?thesis using answer_ok [OF ok calls] by simp
  next
    case (claimed row)
    have eq: "ph = P_Run" "w' = w\<lparr>iw_rows := iw_rows w @ [row]\<rparr>" using step claimed(1) by (simp_all add: claim_step_def)
    have led: "ledger E (iw_rows w @ [row]) (iw_ran w)" "rq_key (cl_request c) \<notin> set (ran_keys (iw_ran w))"
      using new_row_ok [of E "iw_rows w" "iw_ran w" row] parts claimed by simp_all
    have keys: "rq_key (cl_request c) \<notin> set (live_keys (iw_calls w))"
      using live_keys_rows [of "iw_calls w" E "iw_rows w" "iw_ran w"] parts claimed(2) by blast
    have new: "phase_ok E (iw_rows w @ [row]) (iw_ran w) (c\<lparr>cl_phase := P_Run\<rparr>)"
      using claimed led(2) by (auto simp: phase_ok_def executing_def)
    have old: "phase_ok E (iw_rows w @ [row]) (iw_ran w) d" if "d \<in> set us \<union> set vs" for d
      by (rule phase_ok_more_rows) (use parts calls that in auto)
    have "distinct (live_keys (us @ c\<lparr>cl_phase := P_Run\<rparr> # vs))"
      using parts keys calls dead by auto
    then show ?thesis using parts led(1) new old calls by (auto simp: service_ok_def eq)
  qed
qed

text \<open>The gateway.\<close>

lemma gateway_result_cases:
  "\<exists>resp. gateway_result c r = P_Complete resp \<and> mutates (cl_request c) \<or>
     gateway_result c r = P_Send resp \<and> (mutates (cl_request c) \<longrightarrow> \<not> rs_ok resp)"
proof (cases r)
  case (Inl f)
  then show ?thesis by (cases "inner_failure (rq_id (cl_request c)) f") (auto simp: gateway_result_def Let_def)
qed (auto simp: gateway_result_def Let_def)

lemma phase_ok_more_runs:
  assumes "phase_ok E rows past c" and "rq_key (cl_request c) \<noteq> rq_key rq \<or> \<not> live c \<or> \<not> mutates rq"
  shows "phase_ok E rows (past @ [(rq, resp)]) c"
  using assms supported_mono [of E past "cl_request c" _ "past @ [(rq, resp)]"]
  by (auto simp: phase_ok_def live_def split: call_phase.splits)

lemma run_ledger:
  assumes "ledger E rows past" and "mutates rq \<longrightarrow> executing E rows rq \<and> rq_key rq \<notin> set (ran_keys past)"
  shows "ledger E rows (past @ [(rq, resp)])"
proof -
  have "replay_ok E (past @ [(rq, resp)]) r" if "r \<in> set rows" for r
    using assms(1) that replay_ok_mono [of E past r "past @ [(rq, resp)]"] by (auto simp: ledger_def)
  moreover have "mutates rq \<Longrightarrow> has_row E rows rq" using assms(2) by (auto simp: executing_def has_row_def)
  ultimately show ?thesis using assms by (auto simp: ledger_def)
qed

lemma gateway_ok:
  assumes ok: "service_ok E w" and calls: "iw_calls w = us @ c # vs" and phase: "cl_phase c = P_Run"
    and step: "gateway_step E c w = (ph, w')"
  shows "service_ok E (w'\<lparr>iw_calls := us @ c\<lparr>cl_phase := ph\<rparr> # vs\<rparr>)"
proof -
  note parts = ok [unfolded service_ok_def]
  let ?rq = "cl_request c"
  obtain resp where resp: "phase_response ph = Some resp" and shape: "ph = P_Complete resp \<and> mutates ?rq \<or>
      ph = P_Send resp \<and> (mutates ?rq \<longrightarrow> \<not> rs_ok resp)"
    and w': "\<exists>g. w' = w\<lparr>iw_gate := g, iw_ran := iw_ran w @ [(?rq, resp)]\<rparr>"
  proof -
    obtain r g where "en_gateway E (rq_operation ?rq) (rq_payload ?rq) (iw_gate w) = (r, g)" by fastforce
    with step have eq: "ph = gateway_result c r" "w' = w\<lparr>iw_gate := g, iw_ran := iw_ran w @ map (Pair ?rq)
        (case phase_response (gateway_result c r) of None \<Rightarrow> [] | Some x \<Rightarrow> [x])\<rparr>"
      by (auto simp: gateway_step_def Let_def)
    obtain resp where "gateway_result c r = P_Complete resp \<and> mutates ?rq \<or>
        gateway_result c r = P_Send resp \<and> (mutates ?rq \<longrightarrow> \<not> rs_ok resp)"
      using gateway_result_cases by blast
    with eq show thesis by (intro that [of resp]) auto
  qed
  let ?past = "iw_ran w @ [(?rq, resp)]"
  have run: "mutates ?rq \<longrightarrow> executing E (iw_rows w) ?rq \<and> rq_key ?rq \<notin> set (ran_keys (iw_ran w))"
    using parts calls phase by (auto simp: phase_ok_def)
  have led: "ledger E (iw_rows w) ?past" using run_ledger parts run by blast
  have others: "phase_ok E (iw_rows w) ?past d" if "d \<in> set us \<union> set vs" for d
  proof (rule phase_ok_more_runs)
    show "phase_ok E (iw_rows w) (iw_ran w) d" using parts calls that by auto
    have "rq_key (cl_request d) \<noteq> rq_key ?rq" if "live d" "mutates ?rq"
    proof -
      have "live c" using phase that by (simp add: live_def)
      moreover have "rq_key (cl_request d) \<in> set (live_keys us) \<union> set (live_keys vs)"
        using \<open>d \<in> set us \<union> set vs\<close> that by (auto simp: live_keys_def)
      ultimately show ?thesis using parts calls by auto
    qed
    then show "rq_key (cl_request d) \<noteq> rq_key ?rq \<or> \<not> live d \<or> \<not> mutates ?rq" by blast
  qed
  have mine: "phase_ok E (iw_rows w) ?past (c\<lparr>cl_phase := ph\<rparr>)"
    using shape run by (auto simp: phase_ok_def supported_def)
  have "live (c\<lparr>cl_phase := ph\<rparr>) \<Longrightarrow> live c" using phase by (auto simp: live_def)
  then have "distinct (live_keys (us @ c\<lparr>cl_phase := ph\<rparr> # vs))"
    using parts calls by (auto split: if_splits)
  moreover have "supported E ?past rq r" if "(rq, r) \<in> set (iw_sent w)" for rq r
    by (rule supported_mono [of E "iw_ran w"]) (use parts that in auto)
  ultimately show ?thesis using parts led others mine calls w' by (auto simp: service_ok_def)
qed

text \<open>The completion of a row.\<close>

lemma complete_ledger:
  assumes led: "ledger E rows past" and exe: "executing E rows rq" and run: "(rq, resp) \<in> set past" and mut: "mutates rq"
  shows "ledger E (complete_replay rq resp rows) past"
proof -
  let ?p = "\<lambda>r. ip_key r = rq_key rq \<and> ip_state r = Executing"
  obtain r0 where r0: "r0 \<in> set rows" "ip_key r0 = rq_key rq" "ip_fingerprint r0 = ipc_fingerprint E rq"
    using exe by (auto simp: executing_def)
  have rows: "replay_ok E past r" if r: "r \<in> set (complete_replay rq resp rows)" for r
  proof -
    consider "r \<in> set rows" | q where "q \<in> set rows" "?p q" "r = q\<lparr>ip_response := Some resp, ip_state := Completed\<rparr>"
      using r by (auto simp: complete_replay_def set_update_where)
    then show ?thesis
    proof cases
      case 1
      then show ?thesis using led by (simp add: ledger_def)
    next
      case 2
      have "q = r0" using ledger_row [OF led 2(1) r0(1)] 2 r0 by simp
      then show ?thesis using r0 run mut by (auto simp: replay_ok_def 2(3))
    qed
  qed
  have "map ip_key (complete_replay rq resp rows) = map ip_key rows"
    by (simp add: complete_replay_def map_update_where)
  moreover have "has_row E (complete_replay rq resp rows) rq'" if row: "has_row E rows rq'" for rq'
  proof -
    obtain r where "r \<in> set rows" "ip_key r = rq_key rq'" "ip_fingerprint r = ipc_fingerprint E rq'"
      using row by (auto simp: has_row_def)
    then show ?thesis
      unfolding has_row_def complete_replay_def update_where_def
      by (intro bexI [of _ "if ?p r then r\<lparr>ip_response := Some resp, ip_state := Completed\<rparr> else r"]) auto
  qed
  ultimately show ?thesis using led rows by (auto simp: ledger_def)
qed

lemma complete_phase_ok:
  assumes "phase_ok E rows past d" and "rq_key (cl_request d) \<noteq> rq_key rq \<or> \<not> live d"
  shows "phase_ok E (complete_replay rq resp rows) past d"
proof -
  have "executing E (complete_replay rq resp rows) (cl_request d)"
    if "executing E rows (cl_request d)" "rq_key (cl_request d) \<noteq> rq_key rq"
    using that by (fastforce simp: executing_def complete_replay_def set_update_where)
  then show ?thesis using assms by (auto simp: phase_ok_def live_def split: call_phase.splits)
qed

lemma complete_ok:
  assumes ok: "service_ok E w" and calls: "iw_calls w = us @ c # vs" and phase: "cl_phase c = P_Complete resp"
  shows "service_ok E (w\<lparr>iw_rows := complete_replay (cl_request c) resp (iw_rows w),
      iw_calls := us @ c\<lparr>cl_phase := P_Send resp\<rparr> # vs\<rparr>)"
proof -
  note parts = ok [unfolded service_ok_def]
  let ?rq = "cl_request c"
  let ?rows = "complete_replay ?rq resp (iw_rows w)"
  have run: "mutates ?rq" "executing E (iw_rows w) ?rq" "(?rq, resp) \<in> set (iw_ran w)"
    using parts calls phase by (auto simp: phase_ok_def)
  have led: "ledger E ?rows (iw_ran w)" by (rule complete_ledger) (use parts run in auto)
  have alive: "live c" using phase run(1) by (simp add: live_def)
  have others: "phase_ok E ?rows (iw_ran w) d" if d: "d \<in> set us \<union> set vs" for d
  proof (rule complete_phase_ok)
    show "phase_ok E (iw_rows w) (iw_ran w) d" using parts calls d by auto
    have "rq_key (cl_request d) \<in> set (live_keys us) \<union> set (live_keys vs)" if "live d"
      using d that by (auto simp: live_keys_def)
    then show "rq_key (cl_request d) \<noteq> rq_key ?rq \<or> \<not> live d" using parts calls alive by auto
  qed
  have "supported E (iw_ran w) ?rq resp" using run by (auto simp: supported_def)
  then have "phase_ok E ?rows (iw_ran w) (c\<lparr>cl_phase := P_Send resp\<rparr>)" by (simp add: phase_ok_send)
  moreover have "distinct (live_keys (us @ c\<lparr>cl_phase := P_Send resp\<rparr> # vs))" using parts calls by auto
  ultimately show ?thesis using parts led others calls by (auto simp: service_ok_def)
qed

lemma step_keeps_service:
  assumes "ipc_step E w w'" and "service_ok E w"
  shows "service_ok E w'"
  using assms
proof (induction rule: ipc_step.induct)
  case (ipc_open w sv)
  then show ?case by (auto simp: service_ok_def intro: admitted_Cons)
next
  case (ipc_receive w sv stream rq)
  then show ?case by (simp add: receive_ok idle_def)
next
  case (ipc_stop w sv stream resp)
  then show ?case by (simp add: drop_server_ok)
next
  case (ipc_advance w us c vs ph w')
  show ?case
  proof (cases "cl_phase c")
    case P_Claim
    with ipc_advance show ?thesis using claim_ok by (fastforce simp: advance_def)
  next
    case P_Run
    with ipc_advance show ?thesis using gateway_ok by (fastforce simp: advance_def)
  next
    case (P_Complete resp)
    with ipc_advance(2) have "ph = P_Send resp" "w' = w\<lparr>iw_rows := complete_replay (cl_request c) resp (iw_rows w)\<rparr>"
      by (auto simp: advance_def)
    then show ?thesis using complete_ok [OF ipc_advance(3,1) P_Complete] by simp
  next
    case (P_Send resp)
    with ipc_advance(2) have eq: "ph = P_Send resp" "w' = w" by (auto simp: advance_def)
    have "supported E (iw_ran w) (cl_request c) resp"
      using ipc_advance(1,3) P_Send by (auto simp: service_ok_def phase_ok_def)
    then show ?thesis using answer_ok [OF ipc_advance(3,1)] by (simp add: eq)
  qed
next
  case (ipc_tx_fails w us c vs e)
  then show ?case by (intro answer_ok) simp_all
next
  case (ipc_send w us c vs resp)
  then have "supported E (iw_ran w) (cl_request c) resp" by (auto simp: service_ok_def phase_ok_def)
  with drop_call_ok [OF ipc_send(3,1)] show ?case by (auto simp: service_ok_def)
next
  case (ipc_send_fails w us c vs resp)
  from drop_server_ok [OF drop_call_ok [OF this(3,1)]] show ?case by simp
next
  case (ipc_crash w us c vs)
  from drop_server_ok [OF drop_call_ok [OF this(2,1)]] show ?case by simp
next
  case (ipc_close w sv)
  then show ?case by (simp add: drop_server_ok)
next
  case (ipc_others w g)
  then show ?case by (simp add: service_ok_def)
qed

lemma service_start: "service_ok E (fresh_service g)"
  by (simp add: service_ok_def fresh_service_def ledger_def ran_keys_def live_keys_def)

lemma service_reachable:
  assumes "(ipc_step E)\<^sup>*\<^sup>* (fresh_service g) w"
  shows "service_ok E w"
  using assms by (induction rule: rtranclp_induct) (auto intro: service_start step_keeps_service)

section \<open>A mutation runs at most once\<close>

text \<open>
  C10. Whatever services run on the project, whatever connections they get, wherever they crash and whichever
  transactions fail: the gateway carries out a mutation at most once for an idempotency key; it only ever runs
  requests with a token of a service of this project and with the project's identity; and a successful answer to
  a mutation is the result of the one run under its key, of a request with the same fingerprint.
\<close>

theorem mutation_runs_once:
  assumes "(ipc_step E)\<^sup>*\<^sup>* (fresh_service g) w"
  shows "distinct [rq_key rq. (rq, resp) \<leftarrow> iw_ran w, mutates rq] \<and>
    (\<forall>(rq, resp) \<in> set (iw_ran w). rq_project rq = en_project E \<and> rq_workspace rq = en_workspace E \<and>
       rq_auth rq \<in> set (iw_tokens w)) \<and>
    (\<forall>(rq, resp) \<in> set (iw_sent w). mutates rq \<and> rs_ok resp \<longrightarrow>
       (\<exists>(rq0, resp0) \<in> set (iw_ran w). mutates rq0 \<and> rq_key rq0 = rq_key rq \<and>
          ipc_fingerprint E rq0 = ipc_fingerprint E rq \<and> rs_ok resp0 \<and> rs_result resp0 = rs_result resp))"
proof -
  note ok = service_reachable [OF assms, unfolded service_ok_def ledger_def]
  have "[rq_key rq. (rq, resp) \<leftarrow> past, mutates rq] = ran_keys past" for past
    by (induction past) (auto simp: ran_keys_def)
  with ok have "distinct [rq_key rq. (rq, resp) \<leftarrow> iw_ran w, mutates rq]" by simp
  with ok show ?thesis unfolding admitted_def supported_def by blast
qed

section \<open>One connection at a time\<close>

text \<open>A connection that nothing interrupts is a sequence of steps.\<close>

lemma advance_calls:
  assumes "advance E c w = (ph, w')"
  shows "advance E c (w\<lparr>iw_calls := cs\<rparr>) = (ph, w'\<lparr>iw_calls := cs\<rparr>)" and "iw_calls w' = iw_calls w"
    and "iw_servers w' = iw_servers w"
  using assms by (auto simp: advance_def claim_step_def gateway_step_def Let_def
      split: call_phase.splits prod.splits sum.splits option.splits)

lemma same_phase [simp]: "cl_phase c = ph \<Longrightarrow> c\<lparr>cl_phase := ph\<rparr> = c"
  by (cases c) simp

lemma proceed_keeps:
  "proceed_call n E c w = (ph, w') \<Longrightarrow> iw_calls w' = iw_calls w \<and> iw_servers w' = iw_servers w"
proof (induction n arbitrary: c w)
  case (Suc n)
  obtain q v where "advance E c w = (q, v)" by fastforce
  with Suc advance_calls(2,3) [OF this] show ?case by auto
qed simp

lemma proceed_steps:
  "proceed_call n E c w = (ph, w') \<Longrightarrow>
    (ipc_step E)\<^sup>*\<^sup>* (w\<lparr>iw_calls := c # cs\<rparr>) (w'\<lparr>iw_calls := c\<lparr>cl_phase := ph\<rparr> # cs\<rparr>)"
proof (induction n arbitrary: c w)
  case (Suc n)
  obtain q v where adv: "advance E c w = (q, v)" by fastforce
  have "ipc_step E (w\<lparr>iw_calls := c # cs\<rparr>) ((v\<lparr>iw_calls := c # cs\<rparr>)\<lparr>iw_calls := [] @ c\<lparr>cl_phase := q\<rparr> # cs\<rparr>)"
    by (rule ipc_advance) (simp_all add: advance_calls(1) [OF adv])
  moreover have "(ipc_step E)\<^sup>*\<^sup>* (v\<lparr>iw_calls := c\<lparr>cl_phase := q\<rparr> # cs\<rparr>) (w'\<lparr>iw_calls := c\<lparr>cl_phase := ph\<rparr> # cs\<rparr>)"
    using Suc.IH [of "c\<lparr>cl_phase := q\<rparr>" v] Suc.prems adv by simp
  ultimately show ?case by (simp add: converse_rtranclp_into_rtranclp)
qed simp

text \<open>Three phases are enough.\<close>

lemma proceed_sent: "cl_phase c = P_Send resp \<Longrightarrow> proceed_call n E c w = (P_Send resp, w)"
  by (induction n) (simp_all add: advance_def)

lemma proceed_complete: "cl_phase c = P_Complete resp \<Longrightarrow> fst (proceed_call (Suc n) E c w) = P_Send resp"
  by (simp add: advance_def proceed_sent)

lemma proceed_run: "cl_phase c = P_Run \<Longrightarrow> \<exists>resp. fst (proceed_call (Suc (Suc n)) E c w) = P_Send resp"
proof -
  assume run: "cl_phase c = P_Run"
  obtain ph v where adv: "advance E c w = (ph, v)" by fastforce
  with run gateway_result_cases [of c] have "(\<exists>resp. ph = P_Complete resp) \<or> (\<exists>resp. ph = P_Send resp)"
    by (fastforce simp: advance_def gateway_step_def Let_def split: prod.splits)
  then show ?thesis
    using proceed_complete [of "c\<lparr>cl_phase := ph\<rparr>" _ n E v] proceed_sent [of "c\<lparr>cl_phase := ph\<rparr>" _ "Suc n" E v]
    by (auto simp: adv simp del: proceed_call.simps(2) simp add: proceed_call.simps(2) [of "Suc n"])
qed

lemma serve_request_answers: "\<exists>resp w'. proceed_call 3 E (new_call sv rq) w = (P_Send resp, w')"
proof (cases "mutates rq")
  case True
  then have claim: "cl_phase (new_call sv rq) = P_Claim" by (simp add: new_call_def)
  obtain ph v where adv: "advance E (new_call sv rq) w = (ph, v)" by fastforce
  have "ph = P_Run \<or> (\<exists>resp. ph = P_Send resp)"
    using adv claim by (auto simp: advance_def claim_step_def split: prod.splits sum.splits option.splits)
  moreover have "proceed_call 3 E (new_call sv rq) w = proceed_call 2 E (new_call sv rq\<lparr>cl_phase := ph\<rparr>) v"
    by (simp add: adv numeral_3_eq_3 numeral_2_eq_2)
  ultimately show ?thesis
    using proceed_run [of "new_call sv rq\<lparr>cl_phase := ph\<rparr>" 0 E v] proceed_sent [of "new_call sv rq\<lparr>cl_phase := ph\<rparr>" _ 2 E v]
    by (auto simp: numeral_2_eq_2 prod_eq_iff)
next
  case False
  then have "cl_phase (new_call sv rq) = P_Run" by (simp add: new_call_def)
  then show ?thesis using proceed_run [of "new_call sv rq" 1 E w]
    by (simp add: numeral_3_eq_3 prod_eq_iff del: proceed_call.simps)
qed


lemma serve_request_steps:
  assumes idle: "idle w sv" and got: "receive E sv stream = Dispatch rq" and serve: "serve_request E sv rq w = (answer, w')"
  shows "(ipc_step E)\<^sup>*\<^sup>* w w' \<and> iw_calls w' = iw_calls w \<and> iw_servers w' = iw_servers w \<and>
    (\<exists>resp. answer = Some resp \<and> (rq, resp) \<in> set (iw_sent w'))"
proof -
  obtain resp v where run: "proceed_call 3 E (new_call sv rq) w = (P_Send resp, v)" using serve_request_answers by blast
  let ?sending = "v\<lparr>iw_calls := (new_call sv rq)\<lparr>cl_phase := P_Send resp\<rparr> # iw_calls w\<rparr>"
  let ?sent = "?sending\<lparr>iw_calls := [] @ iw_calls w, iw_sent := iw_sent ?sending @ [(rq, resp)]\<rparr>"
  have keeps: "iw_calls v = iw_calls w" "iw_servers v = iw_servers w" using proceed_keeps [OF run] by auto
  have w': "answer = Some resp" "w' = v\<lparr>iw_sent := iw_sent v @ [(rq, resp)]\<rparr>" using serve run by (simp_all add: serve_request_def)
  have same: "?sent = w'" using keeps w' by (cases v) simp
  have "(ipc_step E)\<^sup>*\<^sup>* (w\<lparr>iw_calls := new_call sv rq # iw_calls w\<rparr>) ?sending" by (rule proceed_steps [OF run])
  with ipc_receive [OF idle got] have "(ipc_step E)\<^sup>*\<^sup>* w ?sending" by (rule converse_rtranclp_into_rtranclp)
  moreover have "ipc_step E ?sending (?sending\<lparr>iw_calls := [] @ iw_calls w, iw_sent := iw_sent ?sending @
      [(cl_request ((new_call sv rq)\<lparr>cl_phase := P_Send resp\<rparr>), resp)]\<rparr>)"
    by (rule ipc_send [where c = "(new_call sv rq)\<lparr>cl_phase := P_Send resp\<rparr>"]) simp_all
  ultimately have "(ipc_step E)\<^sup>*\<^sup>* w ?sent" by (simp add: new_call_def)
  then have "(ipc_step E)\<^sup>*\<^sup>* w w'" unfolding same .
  then show ?thesis using keeps w' by simp
qed

lemma serve_connection_steps:
  assumes "idle w sv" and "serve_connection E sv stream w = (answer, w')"
  shows "(ipc_step E)\<^sup>*\<^sup>* w w' \<and> iw_calls w' = iw_calls w"
proof (cases "receive E sv stream")
  case (Reply resp)
  then show ?thesis using assms(2) by (simp add: serve_connection_def)
next
  case (Stop resp)
  then show ?thesis using assms ipc_stop [OF assms(1) Stop] by (auto simp: serve_connection_def)
next
  case (Dispatch rq)
  then show ?thesis using serve_request_steps [OF assms(1) Dispatch] assms(2) by (auto simp: serve_connection_def)
qed

lemma close_service_steps:
  assumes "sv \<notin> cl_server ` set (iw_calls w)"
  shows "(ipc_step E)\<^sup>*\<^sup>* w (close_service ends sv w)"
proof (cases "ends \<and> sv \<in> set (iw_servers w)")
  case True
  with assms show ?thesis using ipc_close [of w sv E] by (auto simp: close_service_def idle_def)
next
  case False
  then have "close_service ends sv w = w" by (auto simp: close_service_def remove1_idem)
  then show ?thesis by simp
qed

section \<open>The client\<close>

text \<open>
  Two properties of the JSON codec: what is decoded from an encoded request or response is that request or
  response, and an encoding holds no line break.
\<close>

definition codec_faithful :: "'g ipc_env \<Rightarrow> bool" where
  "codec_faithful E \<longleftrightarrow>
     (\<forall>rq doc. en_loads E (en_encode E rq) = Some doc \<longrightarrow> doc = request_json rq) \<and>
     (\<forall>r r'. en_read_reply E (en_reply E r) = Some r' \<longrightarrow> r' = r) \<and>
     (\<forall>rq. newline \<notin> set (en_encode E rq)) \<and> (\<forall>r. newline \<notin> set (en_reply E r))"

lemma read_line:
  assumes "newline \<notin> set s"
  shows "read_loop long none [] [Bytes (s @ [newline])] = (if length s > max_frame then Inl long else finish_frame none s)"
proof -
  have "read_loop long none [] (map Bytes [s @ [newline]]) = first_line long none ([] @ concat [s @ [newline]])"
    by (rule read_loop_first_line) simp_all
  then show ?thesis by (simp add: first_line_def takeWhile_skip [OF assms])
qed

lemma client_request_json:
  assumes "client_request E d operation payload key i = Inr rq"
  shows "\<exists>fs. request_json rq = JObj fs \<and> map_of fs ''protocol_version'' = Some (JStr ''1.0'') \<and> parse_request (en_dumps E) fs = Inr rq"
    and "rq_operation rq = operation" and "rq_key rq = key"
proof -
  have "rq = \<lparr>rq_id = i, rq_key = key, rq_project = ds_project d, rq_workspace = en_workspace E, rq_operation = operation,
      rq_auth = ds_token d, rq_payload = payload\<rparr>"
    using assms by (auto simp: client_request_def parse_request_def text_field_def choice_field_def payload_field_def
        bind_sum_Inr split: if_splits)
  with assms show "\<exists>fs. request_json rq = JObj fs \<and> map_of fs ''protocol_version'' = Some (JStr ''1.0'') \<and>
      parse_request (en_dumps E) fs = Inr rq" "rq_operation rq = operation" "rq_key rq = key"
    by (simp_all add: request_json_def client_request_def)
qed

text \<open>What the service makes of the whole request of the client.\<close>

lemma receive_whole:
  assumes codec: "codec_faithful E" and made: "client_request E d operation payload key i = Inr rq"
  shows "(\<exists>f j. receive E sv [Bytes (en_encode E rq @ [newline])] = Reply (outer_failure sv j f)) \<or>
    receive E sv [Bytes (en_encode E rq @ [newline])] = admit E sv rq"
proof (cases "server_read [Bytes (en_encode E rq @ [newline])]")
  case (Inl e)
  then show ?thesis by (auto simp: receive_def)
next
  case (Inr raw)
  have line: "newline \<notin> set (en_encode E rq)" using codec by (simp add: codec_faithful_def)
  have raw: "raw = en_encode E rq"
    using Inr unfolding server_read_def read_line [OF line] by (simp add: finish_frame_def split: if_splits)
  obtain fs where fs: "request_json rq = JObj fs" "map_of fs ''protocol_version'' = Some (JStr ''1.0'')"
      "parse_request (en_dumps E) fs = Inr rq"
    using client_request_json(1) [OF made] by blast
  show ?thesis
  proof (cases "en_loads E raw")
    case None
    then show ?thesis using Inr by (auto simp: receive_def)
  next
    case (Some doc)
    then have "doc = JObj fs" using codec raw fs by (auto simp: codec_faithful_def)
    then show ?thesis using Inr Some fs by (simp add: receive_def)
  qed
qed


lemma read_answer_Inr:
  assumes "codec_faithful E" and "read_answer E rq answer = Inr doc"
  obtains r where "answer = Some r" "rs_ok r" "answer_document r = doc"
proof (cases answer)
  case None
  then show ?thesis using assms(2) by (simp add: read_answer_def client_read_def finish_frame_def)
next
  case (Some r)
  have line: "newline \<notin> set (en_reply E r)" using assms(1) by (simp add: codec_faithful_def)
  have read: "en_read_reply E (en_reply E r) = Some r' \<Longrightarrow> r' = r" for r'
    using assms(1) by (simp add: codec_faithful_def)
  have "rs_ok r \<and> answer_document r = doc"
    using assms(2) unfolding Some read_answer_def client_read_def option.case read_line [OF line]
    by (auto simp: finish_frame_def dest: read split: if_splits option.splits)
  with Some that show ?thesis by blast
qed

lemma attempts_steps:
  assumes "try_attempts E sv rq attempts w = (res, w')" and "sv \<notin> cl_server ` set (iw_calls w)"
  shows "(ipc_step E)\<^sup>*\<^sup>* w w'"
    and "res = Inr doc \<Longrightarrow> \<exists>v answer. (ipc_step E)\<^sup>*\<^sup>* w v \<and> idle v sv \<and>
      serve_connection E sv [Bytes (en_encode E rq @ [newline])] v = (answer, w') \<and> read_answer E rq answer = Inr doc"
proof -
  have "(ipc_step E)\<^sup>*\<^sup>* w w' \<and> (res = Inr doc \<longrightarrow> (\<exists>v answer. (ipc_step E)\<^sup>*\<^sup>* w v \<and> idle v sv \<and>
      serve_connection E sv [Bytes (en_encode E rq @ [newline])] v = (answer, w') \<and> read_answer E rq answer = Inr doc))"
    using assms
  proof (induction attempts arbitrary: w)
    case (Cons a rest)
    let ?whole = "[Bytes (en_encode E rq @ [newline])]"
    show ?case
    proof (cases "sv \<in> set (iw_servers w)")
      case False
      then show ?thesis using Cons by simp
    next
      case True
      with Cons.prems(2) have idle: "idle w sv" by (simp add: idle_def)
      have again: ?thesis if after: "try_attempts E sv rq rest (close_service ends sv (snd (serve_connection E sv stream w))) = (res, w')"
        for stream ends
      proof -
        obtain answer u where serve: "serve_connection E sv stream w = (answer, u)" by fastforce
        note step = serve_connection_steps [OF idle serve]
        let ?u = "close_service ends sv u"
        have calls: "iw_calls ?u = iw_calls w" using step by (simp add: close_service_def)
        have "(ipc_step E)\<^sup>*\<^sup>* u ?u" by (rule close_service_steps) (use step Cons.prems(2) in simp)
        with step have first: "(ipc_step E)\<^sup>*\<^sup>* w ?u" by (meson rtranclp_trans)
        show ?thesis using Cons.IH [of ?u] after serve first calls Cons.prems(2) by (auto intro: rtranclp_trans)
      qed
      show ?thesis
      proof (cases a)
        case Refused
        then show ?thesis using Cons True by simp
      next
        case (Torn n ends)
        then show ?thesis using Cons.prems(1) True by (intro again) (simp add: Let_def)
      next
        case (Answer_Lost ends)
        then show ?thesis using Cons.prems(1) True by (intro again) (simp add: Let_def)
      next
        case Answered
        obtain answer u where serve: "serve_connection E sv ?whole w = (answer, u)" by fastforce
        with Cons.prems(1) True Answered have "res = read_answer E rq answer" "w' = u" by (simp_all add: Let_def)
        with serve_connection_steps [OF idle serve] serve idle show ?thesis by auto
      qed
    qed
  next
    case Nil
    then have "res = Inl (Raised (OSErr ''Runtime Service is unavailable''))" "w' = w" by simp_all
    then show ?case by simp
  qed
  then show "(ipc_step E)\<^sup>*\<^sup>* w w'"
    and "res = Inr doc \<Longrightarrow> \<exists>v answer. (ipc_step E)\<^sup>*\<^sup>* w v \<and> idle v sv \<and>
      serve_connection E sv [Bytes (en_encode E rq @ [newline])] v = (answer, w') \<and> read_answer E rq answer = Inr doc"
    by blast+
qed

lemma answered_ran:
  assumes ok: "service_ok E w'" and idle: "idle w sv" and codec: "codec_faithful E"
    and made: "client_request E d operation payload key i = Inr rq" and mut: "operation \<in> set ipc_mutations"
    and serve: "serve_connection E sv [Bytes (en_encode E rq @ [newline])] w = (answer, w')"
    and read: "read_answer E rq answer = Inr doc"
  shows "\<exists>(rq0, resp0) \<in> set (iw_ran w'). mutates rq0 \<and> rq_key rq0 = key \<and>
    ipc_fingerprint E rq0 = ipc_fingerprint E rq \<and> rs_ok resp0 \<and> answer_document resp0 = doc"
proof -
  note req = client_request_json [OF made]
  obtain r where r: "answer = Some r" "rs_ok r" "answer_document r = doc" using read_answer_Inr [OF codec read] .
  have rq: "mutates rq" using mut req(2) by (simp add: mutates_def)
  then have op: "rq_operation rq \<noteq> ''health''" "rq_operation rq \<noteq> ''shutdown''"
    by (auto simp: mutates_def ipc_mutations_def)
  have "receive E sv [Bytes (en_encode E rq @ [newline])] = Dispatch rq"
    using receive_whole [OF codec made, of sv] serve r(1,2) op
    by (auto simp: admit_def serve_connection_def split: sum.splits)
  then have "(rq, r) \<in> set (iw_sent w')"
    using serve_request_steps [OF idle] serve r(1) by (fastforce simp: serve_connection_def)
  then have "supported E (iw_ran w') rq r" using ok by (auto simp: service_ok_def)
  then show ?thesis using rq r(2,3) req(3) by (fastforce simp: supported_def answer_document_def)
qed



lemma client_call_ran:
  assumes start: "(ipc_step E)\<^sup>*\<^sup>* (fresh_service g) w" and free: "sv \<notin> cl_server ` set (iw_calls w)"
    and call: "client_call E here file sv operation payload key i attempts w = (res, w')"
    and codec: "codec_faithful E" and mut: "operation \<in> set ipc_mutations"
  shows "service_ok E w'" and "res = Inr doc \<Longrightarrow> \<exists>(rq, resp) \<in> set (iw_ran w'). mutates rq \<and> rq_key rq = key \<and>
      rs_ok resp \<and> answer_document resp = doc"
proof -
  have "service_ok E w' \<and> (res = Inr doc \<longrightarrow> (\<exists>(rq, resp) \<in> set (iw_ran w'). mutates rq \<and> rq_key rq = key \<and>
      rs_ok resp \<and> answer_document resp = doc))"
  proof (cases "bind_sum (read_descriptor here file) (\<lambda>d.
      bind_sum (compatible d) (\<lambda>_. client_request E d operation payload key i))")
    case (Inl e)
    with call start show ?thesis by (auto simp: client_call_def intro: service_reachable)
  next
    case (Inr rq)
    with call have tries: "try_attempts E sv rq attempts w = (res, w')" by (simp add: client_call_def)
    obtain d where made: "client_request E d operation payload key i = Inr rq" using Inr by (auto simp: bind_sum_Inr)
    have ok: "service_ok E w'"
      by (rule service_reachable) (use attempts_steps(1) [OF tries free] start in \<open>rule rtranclp_trans [rotated]\<close>)
    have "\<exists>(rq, resp) \<in> set (iw_ran w'). mutates rq \<and> rq_key rq = key \<and> rs_ok resp \<and> answer_document resp = doc" if got: "res = Inr doc"
    proof -
      obtain v answer where "idle v sv" "serve_connection E sv [Bytes (en_encode E rq @ [newline])] v = (answer, w')"
          "read_answer E rq answer = Inr doc"
        using attempts_steps(2) [OF tries free got] by blast
      from answered_ran [OF ok this(1) codec made mut this(2,3)] show ?thesis by blast
    qed
    with ok show ?thesis by blast
  qed
  then show "service_ok E w'" "res = Inr doc \<Longrightarrow> \<exists>(rq, resp) \<in> set (iw_ran w'). mutates rq \<and> rq_key rq = key \<and>
      rs_ok resp \<and> answer_document resp = doc"
    by blast+
qed

lemma one_under_key: "distinct (ran_keys past) \<Longrightarrow> length (filter (\<lambda>(rq, resp). mutates rq \<and> rq_key rq = key) past) \<le> 1"
proof (induction past)
  case (Cons x past)
  obtain rq resp where x: "x = (rq, resp)" by fastforce
  have "filter (\<lambda>(rq, resp). mutates rq \<and> rq_key rq = key) past = []" if "mutates rq" "rq_key rq = key"
    using Cons.prems that in_ran_keys [of key past] by (auto simp: x ran_keys_def filter_empty_conv)
  moreover have "distinct (ran_keys past)" using Cons.prems by (auto simp: x ran_keys_def split: if_splits)
  ultimately show ?case using Cons.IH by (auto simp: x)
qed simp

text \<open>
  C14. However the attempts of a client go: with its mutation the gateway runs at most once under the key, and
  when the call returns a document then the gateway ran exactly once under it, and the document is its result.
\<close>

theorem client_runs_once:
  assumes "(ipc_step E)\<^sup>*\<^sup>* (fresh_service g) w" and "sv \<notin> cl_server ` set (iw_calls w)"
    and "client_call E here file sv operation payload key i attempts w = (res, w')"
    and "codec_faithful E" and "operation \<in> set ipc_mutations"
  shows "length (filter (\<lambda>(rq, resp). mutates rq \<and> rq_key rq = key) (iw_ran w')) \<le> 1 \<and>
    (\<forall>doc. res = Inr doc \<longrightarrow> (\<exists>rq resp. filter (\<lambda>(rq, resp). mutates rq \<and> rq_key rq = key) (iw_ran w') = [(rq, resp)] \<and>
       rs_ok resp \<and> answer_document resp = doc))"
proof -
  let ?under = "filter (\<lambda>(rq, resp). mutates rq \<and> rq_key rq = key) (iw_ran w')"
  have "service_ok E w'" by (rule client_call_ran(1)) (fact assms)+
  then have one: "length ?under \<le> 1" by (intro one_under_key) (simp add: service_ok_def ledger_def)
  have "\<exists>rq resp. ?under = [(rq, resp)] \<and> rs_ok resp \<and> answer_document resp = doc" if got: "res = Inr doc" for doc
  proof -
    obtain rq resp where x: "(rq, resp) \<in> set ?under" "rs_ok resp" "answer_document resp = doc"
      using client_call_ran(2) [OF assms got] by auto
    with one have "?under = [(rq, resp)]" by (cases ?under) auto
    with x show ?thesis by blast
  qed
  with one show ?thesis by blast
qed


section \<open>An example\<close>

definition demo_token :: string where
  "demo_token = ''0123456789abcdef0123456789abcdef''"

definition demo_server :: ipc_server where
  "demo_server = \<lparr>sv_token = demo_token, sv_pid = 7\<rparr>"

definition demo_pause :: ipc_request where
  "demo_pause = \<lparr>rq_id = ''i'', rq_key = ''k'', rq_project = ''p'', rq_workspace = ''w'', rq_operation = ''pause'',
     rq_auth = demo_token, rq_payload = []\<rparr>"

definition demo_paused :: ipc_response where
  "demo_paused = response_success ''i'' [(''times'', JInt 1)]"

text \<open>A gateway that counts its runs, and a codec for one request and one response.\<close>

definition demo_service :: "int ipc_env" where
  "demo_service = \<lparr>en_project = ''p'', en_workspace = ''w'', en_sha = (\<lambda>s. s), en_dumps = (\<lambda>_ _. []),
     en_loads = (\<lambda>s. if s = ''R'' then Some (request_json demo_pause) else None),
     en_encode = (\<lambda>rq. if rq = demo_pause then ''R'' else ''N''),
     en_reply = (\<lambda>r. if r = demo_paused then ''A'' else ''B''),
     en_read_reply = (\<lambda>s. if s = ''A'' then Some demo_paused else None),
     en_gateway = (\<lambda>_ _ n. (Inr [(''times'', JInt (n + 1))], n + 1))\<rparr>"

definition demo_world :: "int ipc_world" where
  "demo_world = fresh_service 0\<lparr>iw_servers := [demo_server], iw_tokens := [demo_token]\<rparr>"

definition demo_endpoint :: descriptor where
  "demo_endpoint = \<lparr>ds_root = ''r'', ds_project = ''p'', ds_token = demo_token,
     ds_versions = Some [(''package'', ''0.8.0''), (''runtime_api'', ''1.0''), (''ipc'', ''1.0'')]\<rparr>"

lemma demo_codec: "codec_faithful demo_service"
  by (auto simp: codec_faithful_def demo_service_def newline_def split: if_splits)

lemma demo_open: "(ipc_step demo_service)\<^sup>*\<^sup>* (fresh_service 0) demo_world"
proof -
  have "ipc_step demo_service (fresh_service 0) ((fresh_service 0)\<lparr>iw_servers := demo_server # iw_servers (fresh_service (0::int)),
      iw_tokens := sv_token demo_server # iw_tokens (fresh_service (0::int))\<rparr>)"
    by (rule ipc_open)
  then show ?thesis by (simp add: demo_world_def fresh_service_def demo_server_def)
qed

lemma demo_fields: "parse_request (\<lambda>_ _. []) (case request_json demo_pause of JObj fs \<Rightarrow> fs) = Inr demo_pause"
proof -
  have "code_points demo_token = 32" by code_simp
  moreover have "code_points ''i'' = 1" "code_points ''k'' = 1" "code_points ''p'' = 1" "code_points ''w'' = 1" by code_simp+
  moreover have "''pause'' \<in> set ipc_operations" by code_simp
  moreover have "payload_bounded (\<lambda>_ _. []) []" by (simp add: payload_bounded_def)
  ultimately show ?thesis
    by (simp add: parse_request_def request_json_def request_fields_def text_field_def choice_field_def payload_field_def demo_pause_def)
qed

lemma demo_request: "client_request demo_service demo_endpoint ''pause'' [] ''k'' ''i'' = Inr demo_pause"
  using demo_fields by (simp add: client_request_def request_json_def demo_service_def demo_endpoint_def demo_pause_def)

lemma demo_compatible: "read_descriptor ''r'' (Some demo_endpoint) = Inr demo_endpoint" "compatible demo_endpoint = Inr ()"
  by code_simp+

lemma demo_receive: "receive demo_service demo_server [Bytes (en_encode demo_service demo_pause @ [newline])] = Dispatch demo_pause"
proof -
  have line: "newline \<notin> set ''R''" by code_simp
  have "server_read [Bytes (''R'' @ [newline])] = Inr ''R''"
    unfolding server_read_def read_line [OF line] by (simp add: finish_frame_def max_frame_def)
  moreover note demo_fields
  moreover have "admit demo_service demo_server demo_pause = Dispatch demo_pause" by code_simp
  ultimately show ?thesis by (simp add: receive_def demo_service_def request_json_def)
qed

definition demo_after :: "nat \<Rightarrow> int ipc_world" where
  "demo_after n = demo_world\<lparr>iw_gate := 1, iw_ran := [(demo_pause, demo_paused)],
     iw_rows := [\<lparr>ip_key = ''k'', ip_fingerprint = [], ip_project = ''p'', ip_workspace = ''w'', ip_operation = ''pause'',
       ip_response = Some demo_paused, ip_state = Completed\<rparr>],
     iw_sent := replicate n (demo_pause, demo_paused)\<rparr>"

lemma demo_first: "serve_request demo_service demo_server demo_pause demo_world = (Some demo_paused, demo_after 1)"
  by code_simp

lemma demo_again: "serve_request demo_service demo_server demo_pause (demo_after 1) = (Some demo_paused, demo_after 2)"
  by code_simp

lemma demo_call:
  "client_call demo_service ''r'' (Some demo_endpoint) demo_server ''pause'' [] ''k'' ''i'' [Refused, Answer_Lost False, Answered] demo_world
     = (Inr [(''times'', JInt 1)], demo_after 2)"
proof -
  have line: "newline \<notin> set ''A''" by code_simp
  have "read_answer demo_service demo_pause (Some demo_paused) = Inr [(''times'', JInt 1)]"
  proof -
    have reply: "en_reply demo_service demo_paused = ''A''" "en_read_reply demo_service ''A'' = Some demo_paused"
      by (simp_all add: demo_service_def)
    moreover have "client_read [Bytes (''A'' @ [newline])] = Inr ''A''"
      unfolding client_read_def read_line [OF line] by (simp add: finish_frame_def max_frame_def)
    moreover have "rs_request demo_paused = ''i''" "rs_ok demo_paused" "rq_id demo_pause = ''i''"
        "answer_document demo_paused = [(''times'', JInt 1)]"
      by (simp_all add: demo_paused_def demo_pause_def answer_document_def)
    ultimately show ?thesis by (simp add: read_answer_def)
  qed
  moreover have "demo_server \<in> set (iw_servers demo_world)" "demo_server \<in> set (iw_servers (demo_after 1))"
    by (simp_all add: demo_world_def demo_after_def)
  ultimately show ?thesis
    by (simp add: client_call_def demo_compatible demo_request serve_connection_def demo_receive demo_first demo_again [unfolded One_nat_def]
        close_service_def Let_def)
qed

theorem mutation_runs_once_witness:
  "\<exists>w. (ipc_step demo_service)\<^sup>*\<^sup>* (fresh_service 0) w \<and> length (iw_sent w) = 2 \<and> length (iw_ran w) = 1 \<and>
     distinct [rq_key rq. (rq, resp) \<leftarrow> iw_ran w, mutates rq]"
proof (intro exI conjI)
  have calls: "demo_server \<notin> cl_server ` set (iw_calls demo_world)" by (simp add: demo_world_def fresh_service_def)
  have "try_attempts demo_service demo_server demo_pause [Refused, Answer_Lost False, Answered] demo_world
      = (Inr [(''times'', JInt 1)], demo_after 2)"
    using demo_call by (simp add: client_call_def demo_compatible demo_request)
  from attempts_steps(1) [OF this calls] demo_open show reach: "(ipc_step demo_service)\<^sup>*\<^sup>* (fresh_service 0) (demo_after 2)"
    by (rule rtranclp_trans [rotated])
  show "distinct [rq_key rq. (rq, resp) \<leftarrow> iw_ran (demo_after 2), mutates rq]"
    using mutation_runs_once [OF reach] by blast
qed (simp_all add: demo_after_def)

theorem client_runs_once_witness:
  "\<exists>w. client_call demo_service ''r'' (Some demo_endpoint) demo_server ''pause'' [] ''k'' ''i''
       [Refused, Answer_Lost False, Answered] demo_world = (Inr [(''times'', JInt 1)], w) \<and>
     (\<exists>rq resp. filter (\<lambda>(rq, resp). mutates rq \<and> rq_key rq = ''k'') (iw_ran w) = [(rq, resp)] \<and> rs_ok resp \<and>
        answer_document resp = [(''times'', JInt 1)])"
proof -
  have free: "demo_server \<notin> cl_server ` set (iw_calls demo_world)" by (simp add: demo_world_def fresh_service_def)
  have mut: "''pause'' \<in> set ipc_mutations" by code_simp
  from client_runs_once [OF demo_open free demo_call demo_codec mut] demo_call show ?thesis by blast
qed

end
