(* ===== verification/Review.thy ===== *)
theory Review
  imports Store Text_Search
begin

text \<open>
  \<open>delivery/models.py\<close> (reviews and evidence), \<open>delivery/review.py\<close>, \<open>delivery/matrix.py\<close> and
  \<open>review/coordinator.py\<close>: the four dimensions of a review with their attempts, sessions and frozen results, the
  verdict over them, the requirement matrix with its trusted evidence, and the bounded loop of reviews and fixes.
\<close>

section \<open>Results of a dimension\<close>

datatype review_dimension = RD_Contract | RD_Correctness | RD_Security | RD_Tests

fun rd_value :: "review_dimension \<Rightarrow> string" where
  "rd_value RD_Contract = ''contract''"
| "rd_value RD_Correctness = ''correctness''"
| "rd_value RD_Security = ''security''"
| "rd_value RD_Tests = ''test_adequacy''"

text \<open>Iterating over the enumeration.\<close>

definition dimensions :: "review_dimension list" where
  "dimensions = [RD_Contract, RD_Correctness, RD_Security, RD_Tests]"

datatype review_verdict = RV_Approved | RV_Changes | RV_Blocked

datatype review_status = VS_Completed | VS_Error

record finding =
  fi_severity :: string
  fi_category :: string
  fi_file :: string
  fi_line :: "int option"
  fi_impact :: string
  fi_change :: string
  fi_refs :: "string list"
  fi_blocking :: bool

text \<open>\<open>safe_relative_location\<close> returns the path with slashes.\<close>

definition safe_location :: "string \<Rightarrow> py_error + string" where
  "safe_location value = (let normalized = map (\<lambda>c. if c = CHR 0x5C then CHR ''/'' else c) value in
     if starts_with ''/'' normalized \<or> occurs_in ''../'' (''/'' @ normalized)
     then Inl (ValidationError ''review finding file must be a safe repository-relative path'') else Inr normalized)"

definition make_finding :: "finding \<Rightarrow> py_error + finding" where
  "make_finding f = bind_sum (first_error
       [require (fi_severity f \<noteq> []) ''severity'', require (fi_category f \<noteq> []) ''category'', require (fi_file f \<noteq> []) ''file'',
        require (case fi_line f of None \<Rightarrow> True | Some n \<Rightarrow> 1 \<le> n) ''line'', require (fi_impact f \<noteq> []) ''impact'',
        require (fi_change f \<noteq> []) ''required_change'', require (fi_refs f \<noteq> []) ''contract_refs''])
     (\<lambda>_. bind_sum (safe_location (fi_file f)) (\<lambda>path. Inr (f\<lparr>fi_file := path\<rparr>)))"

record dimension_result =
  dr_dimension :: review_dimension
  dr_status :: review_status
  dr_verdict :: "review_verdict option"
  dr_summary :: string
  dr_findings :: "finding list"
  dr_unverified :: "string list"
  dr_evidence :: "string list"
  dr_session :: string
  dr_code :: "string option"

definition consistent_result :: "dimension_result \<Rightarrow> py_error + unit" where
  "consistent_result r = (case dr_status r of
     VS_Error \<Rightarrow> require (dr_verdict r = None \<and> (case dr_code r of None \<Rightarrow> False | Some c \<Rightarrow> c \<noteq> []))
       ''review error requires error_code and no verdict''
   | VS_Completed \<Rightarrow> first_error
       [require (dr_verdict r \<noteq> None \<and> dr_code r = None) ''completed review requires a verdict and no error'',
        require (\<not> (dr_verdict r = Some RV_Approved \<and> (dr_findings r \<noteq> [] \<or> dr_unverified r \<noteq> [])))
          ''approved review cannot retain findings or unverified items'',
        require (\<not> (dr_verdict r = Some RV_Changes \<and> dr_findings r = [])) ''changes_requested requires findings''])"

definition validate_result :: "dimension_result \<Rightarrow> py_error + unit" where
  "validate_result r = first_error
     [require (dr_summary r \<noteq> []) ''summary'', require (dr_session r \<noteq> []) ''session_id'', consistent_result r]"

record review_aggregate =
  ra_verdict :: review_verdict
  ra_results :: "dimension_result list"
  ra_findings :: "finding list"
  ra_unverified :: "string list"
  ra_evidence :: "string list"
  ra_errors :: "string list"

section \<open>The verdict over all dimensions\<close>

text \<open>\<open>{item.dimension: item for item in results}\<close>: the last result of a dimension.\<close>

definition by_dimension :: "dimension_result list \<Rightarrow> review_dimension \<Rightarrow> dimension_result option" where
  "by_dimension rs d = find (\<lambda>r. dr_dimension r = d) (rev rs)"

definition error_text :: "dimension_result \<Rightarrow> string" where
  "error_text r = rd_value (dr_dimension r) @ '':'' @ (case dr_code r of None \<Rightarrow> ''None'' | Some c \<Rightarrow> c)"

definition aggregate_verdict :: "dimension_result list \<Rightarrow> review_verdict" where
  "aggregate_verdict rs =
     (if list_ex (\<lambda>r. dr_status r = VS_Error) rs \<or> list_ex (\<lambda>r. dr_verdict r = Some RV_Blocked) rs \<or>
         list_ex (\<lambda>r. list_ex fi_blocking (dr_findings r)) rs then RV_Blocked
      else if list_ex (\<lambda>r. dr_verdict r = Some RV_Changes) rs then RV_Changes
      else RV_Approved)"

definition aggregate_reviews :: "dimension_result list \<Rightarrow> py_error + review_aggregate" where
  "aggregate_reviews rs =
     (if \<not> list_all (\<lambda>d. by_dimension rs d \<noteq> None) dimensions \<or> length rs \<noteq> length dimensions
      then Inl (ValueError ''exactly one result for every review dimension is required'')
      else let ordered = map (\<lambda>d. the (by_dimension rs d)) dimensions in
        Inr \<lparr>ra_verdict = aggregate_verdict ordered, ra_results = ordered,
             ra_findings = concat (map dr_findings ordered), ra_unverified = concat (map dr_unverified ordered),
             ra_evidence = sorted_set (concat (map dr_evidence ordered)),
             ra_errors = map error_text (filter (\<lambda>r. dr_status r = VS_Error) ordered)\<rparr>)"

section \<open>ReviewAttemptRepository\<close>

datatype attempt_state = AT_Running | AT_Invalidated

text \<open>A row is invalidated when it has a time of invalidation, here a flag.\<close>

record review_row =
  vw_run :: string
  vw_number :: int
  vw_state :: attempt_state
  vw_fixes :: int
  vw_affected :: "string list"
  vw_invalid :: bool

record dimension_row =
  dw_run :: string
  dw_number :: int
  dw_dimension :: review_dimension
  dw_session :: string
  dw_result :: "dimension_result option"

datatype evidence_outcome = EO_Passed | EO_Failed | EO_Informational

record evidence_ref =
  ef_ref :: string
  ef_immutable :: "bool option"
  ef_outcome :: evidence_outcome

datatype matrix_status = MX_Verified | MX_Failed | MX_Unverified

record matrix_row =
  mw_criterion :: string
  mw_evidence :: "(string \<times> evidence_ref list) list"
  mw_status :: matrix_status
  mw_reason :: "string option"
  mw_artifacts :: "string list"

record matrix_revision =
  mx_contract :: string
  mx_number :: int
  mx_revision :: int
  mx_rows :: "matrix_row list"

record review_db =
  rv_core :: db
  rv_attempts :: "review_row list"
  rv_dimensions :: "dimension_row list"
  rv_matrices :: "matrix_revision list"

definition review_event :: "string \<Rightarrow> string \<Rightarrow> (string \<times> json) list \<Rightarrow> (review_db, unit) op" where
  "review_event ty run payload d = (let (r, c) = enqueue_event ty run None None payload (rv_core d) in (r, d\<lparr>rv_core := c\<rparr>))"

definition fresh_session :: "(review_db, string) op" where
  "fresh_session d = (Inr (''review-'' @ uuid_str (db_uuid (rv_core d))),
     d\<lparr>rv_core := (rv_core d)\<lparr>db_uuid := Suc (db_uuid (rv_core d))\<rparr>\<rparr>)"

fun fresh_sessions :: "'a list \<Rightarrow> (review_db, string list) op" where
  "fresh_sessions [] = ret []"
| "fresh_sessions (x # xs) = bind_op fresh_session (\<lambda>u. bind_op (fresh_sessions xs) (\<lambda>us. ret (u # us)))"

definition attempt_key :: "review_row \<Rightarrow> string \<times> int" where
  "attempt_key r = (vw_run r, vw_number r)"

definition dimension_key :: "dimension_row \<Rightarrow> string \<times> int \<times> review_dimension" where
  "dimension_key r = (dw_run r, dw_number r, dw_dimension r)"

definition insert_review :: "string \<Rightarrow> int \<Rightarrow> (review_db, unit) op" where
  "insert_review run n d = (case insert_row attempt_key
       \<lparr>vw_run = run, vw_number = n, vw_state = AT_Running, vw_fixes = 0, vw_affected = [], vw_invalid = False\<rparr> (rv_attempts d) of
     None \<Rightarrow> (Inl (IntegrityError ''UNIQUE constraint failed: phase5_review_attempts''), d)
   | Some t \<Rightarrow> (Inr (), d\<lparr>rv_attempts := t\<rparr>))"

definition insert_dimension :: "string \<Rightarrow> int \<Rightarrow> review_dimension \<times> string \<Rightarrow> (review_db, unit) op" where
  "insert_dimension run n ds d = (case insert_row dimension_key
       \<lparr>dw_run = run, dw_number = n, dw_dimension = fst ds, dw_session = snd ds, dw_result = None\<rparr> (rv_dimensions d) of
     None \<Rightarrow> (Inl (IntegrityError ''UNIQUE constraint failed: phase5_review_dimensions''), d)
   | Some t \<Rightarrow> (Inr (), d\<lparr>rv_dimensions := t\<rparr>))"

definition start_review_tx :: "string \<Rightarrow> int \<Rightarrow> (review_dimension \<times> string) list \<Rightarrow> (review_db, unit) op" where
  "start_review_tx run n dss =
     seq_op (insert_review run n)
     (seq_op (for_each (insert_dimension run n) dss)
     (review_event ''review.attempt.started'' run [(''attempt'', JInt n)]))"

definition dimension_is :: "string \<Rightarrow> int \<Rightarrow> review_dimension \<Rightarrow> dimension_row \<Rightarrow> bool" where
  "dimension_is run n k r \<longleftrightarrow> dimension_key r = (run, n, k)"

definition record_result_tx :: "string \<Rightarrow> int \<Rightarrow> dimension_result \<Rightarrow> (review_db, unit) op" where
  "record_result_tx run n result =
     bind_op (gets (\<lambda>d. find (dimension_is run n (dr_dimension result)) (rv_dimensions d))) (\<lambda>row. case row of
       None \<Rightarrow> raise (ValueError ''review dimension is missing or already frozen'')
     | Some r \<Rightarrow>
         seq_op (guard (dw_result r = None) (ValueError ''review dimension is missing or already frozen''))
         (seq_op (guard (dw_session r = dr_session result) (ValueError ''review result does not belong to the fresh persisted Session''))
         (seq_op (modify (\<lambda>d. d\<lparr>rv_dimensions := update_where (dimension_is run n (dr_dimension result))
             (\<lambda>q. q\<lparr>dw_result := Some result\<rparr>) (rv_dimensions d)\<rparr>))
         (review_event ''review.dimension.finished'' run
           [(''attempt'', JInt n), (''dimension'', JStr (rd_value (dr_dimension result)))]))))"

definition fixes_of :: "string \<Rightarrow> review_db \<Rightarrow> nat" where
  "fixes_of run d = length (filter (\<lambda>r. vw_run r = run \<and> vw_invalid r) (rv_attempts d))"

definition open_attempt :: "string \<Rightarrow> int \<Rightarrow> review_row \<Rightarrow> bool" where
  "open_attempt run n r \<longleftrightarrow> vw_run r = run \<and> vw_number r = n \<and> \<not> vw_invalid r"

definition invalidate_tx :: "nat \<Rightarrow> string \<Rightarrow> int \<Rightarrow> string list \<Rightarrow> (review_db, unit) op" where
  "invalidate_tx limit run n affected =
     bind_op (gets (fixes_of run)) (\<lambda>count.
     seq_op (guard (count < limit) (ValueError ''review-fix budget exhausted''))
     (bind_op (gets (\<lambda>d. length (filter (open_attempt run n) (rv_attempts d)))) (\<lambda>changed.
      seq_op (modify (\<lambda>d. d\<lparr>rv_attempts := update_where (open_attempt run n)
          (\<lambda>r. r\<lparr>vw_state := AT_Invalidated, vw_fixes := int count + 1, vw_affected := sort affected, vw_invalid := True\<rparr>) (rv_attempts d)\<rparr>))
      (seq_op (guard (changed = 1) (ValueError ''review attempt cannot be invalidated''))
      (review_event ''review.fix.required'' run
        [(''attempt'', JInt n), (''affected_verifiers'', JArr (map JStr (sort affected)))])))))"

section \<open>MultidimensionalReviewRunner\<close>

text \<open>
  The world of a runner: its store and what the reviewer works on. The reviewer returns a result, or raises; then
  only the name of the class of its exception counts.
\<close>

record 'x review_world =
  rw_db :: review_db
  rw_ext :: 'x

type_synonym 'x reviewer = "review_dimension \<Rightarrow> string \<Rightarrow> 'x \<Rightarrow> (string + dimension_result) \<times> 'x"

definition review_tx :: "(review_db, 'a) op \<Rightarrow> ('x review_world, 'a) thread" where
  "review_tx m = atomic (\<lambda>w. case m (rw_db w) of (Inl e, _) \<Rightarrow> (Inl e, w) | (Inr x, d) \<Rightarrow> (Inr x, w\<lparr>rw_db := d\<rparr>))"

text \<open>\<open>start\<close>: the sessions are drawn before the transaction; the attempt it returns is checked after it.\<close>

definition start_review :: "string \<Rightarrow> int \<Rightarrow> review_dimension list \<Rightarrow> ('x review_world, string list) thread" where
  "start_review run n ds =
     seq_t (require_t (list_all (\<lambda>k. k \<in> set ds) dimensions \<and> length ds = length dimensions)
       (ValueError ''all review dimensions are required''))
     (bind_t (review_tx (fresh_sessions ds)) (\<lambda>sessions.
      seq_t (review_tx (start_review_tx run n (zip ds sessions)))
      (seq_t (require_t (1 \<le> n) (ValidationError ''attempt_number'')) (return_t sessions))))"

definition failed_review :: "review_dimension \<Rightarrow> string \<Rightarrow> string \<Rightarrow> dimension_result" where
  "failed_review k session name = \<lparr>dr_dimension = k, dr_status = VS_Error, dr_verdict = None,
     dr_summary = ''Reviewer invocation failed'', dr_findings = [], dr_unverified = [], dr_evidence = [],
     dr_session = session, dr_code = Some (''reviewer.'' @ name)\<rparr>"

text \<open>A result that the validators refuse cannot be built: the reviewer raises instead.\<close>

definition review_outcome :: "review_dimension \<Rightarrow> string \<Rightarrow> string + dimension_result \<Rightarrow> dimension_result" where
  "review_outcome k session r = (case r of
     Inl name \<Rightarrow> failed_review k session name
   | Inr result \<Rightarrow>
       if validate_result result \<noteq> Inr () then failed_review k session ''ValidationError''
       else if dr_dimension result \<noteq> k \<or> dr_session result \<noteq> session then failed_review k session ''ValueError''
       else result)"

definition call_reviewer :: "'x reviewer \<Rightarrow> review_dimension \<Rightarrow> string \<Rightarrow> ('x review_world, dimension_result) thread" where
  "call_reviewer f k session = atomic (\<lambda>w. case f k session (rw_ext w) of
     (r, x) \<Rightarrow> (Inr (review_outcome k session r), w\<lparr>rw_ext := x\<rparr>))"

fun review_each :: "'x reviewer \<Rightarrow> string \<Rightarrow> int \<Rightarrow> (review_dimension \<times> string) list \<Rightarrow> ('x review_world, dimension_result list) thread" where
  "review_each f run n [] = return_t []"
| "review_each f run n ((k, session) # rest) =
     bind_t (call_reviewer f k session) (\<lambda>r.
     seq_t (review_tx (record_result_tx run n r))
     (bind_t (review_each f run n rest) (\<lambda>rs. return_t (r # rs))))"

definition run_reviews :: "'x reviewer \<Rightarrow> string \<Rightarrow> int \<Rightarrow> ('x review_world, review_aggregate) thread" where
  "run_reviews f run n =
     bind_t (start_review run n dimensions) (\<lambda>sessions.
     bind_t (review_each f run n (zip dimensions sessions)) (\<lambda>rs. Done (aggregate_reviews rs)))"

section \<open>RequirementMatrixRepository\<close>

definition matrix_categories :: "string list" where
  "matrix_categories = [''implementation'', ''test'', ''verifier'', ''ci'', ''review'', ''human'']"

definition content_addressed :: "string \<Rightarrow> bool" where
  "content_addressed s \<longleftrightarrow> starts_with ''sha256:'' s \<and> sha256_pattern (drop 7 s)"

definition trusted :: "evidence_ref \<Rightarrow> bool" where
  "trusted e \<longleftrightarrow> ef_immutable e = Some True \<or> content_addressed (ef_ref e)"

type_synonym evidence_map = "(string \<times> (string \<times> evidence_ref list) list) list"

definition of_category :: "(string \<times> evidence_ref list) list \<Rightarrow> string \<Rightarrow> evidence_ref list" where
  "of_category cs k = (case map_of cs k of None \<Rightarrow> [] | Some es \<Rightarrow> es)"

definition flattened :: "(string \<times> evidence_ref list) list \<Rightarrow> evidence_ref list" where
  "flattened cs = concat (map (of_category cs) matrix_categories)"

definition judge_row :: "evidence_map \<Rightarrow> string \<Rightarrow> py_error + matrix_row" where
  "judge_row evidence criterion = (let cs = (case map_of evidence criterion of None \<Rightarrow> [] | Some cs \<Rightarrow> cs) in
     if \<not> list_all (\<lambda>(k, _). k \<in> set matrix_categories) cs then Inl (ValueError ''unknown requirement matrix evidence category'')
     else let es = flattened cs; good = filter trusted es;
        status = (if list_ex (\<lambda>e. ef_outcome e = EO_Failed \<and> trusted e) es then MX_Failed
                  else if good \<noteq> [] then MX_Verified else MX_Unverified) in
       Inr \<lparr>mw_criterion = criterion, mw_evidence = map (\<lambda>k. (k, of_category cs k)) matrix_categories, mw_status = status,
            mw_reason = (if status = MX_Unverified then Some ''no immutable or content-addressed evidence'' else None),
            mw_artifacts = sorted_set (map ef_ref good)\<rparr>)"

definition matrix_key :: "matrix_revision \<Rightarrow> string \<times> int \<times> int" where
  "matrix_key m = (mx_contract m, mx_number m, mx_revision m)"

definition latest_matrix :: "string \<Rightarrow> int \<Rightarrow> review_db \<Rightarrow> int" where
  "latest_matrix c n d = fold max (map mx_revision (filter (\<lambda>m. mx_contract m = c \<and> mx_number m = n) (rv_matrices d))) 0"

definition insert_matrix :: "matrix_revision \<Rightarrow> (review_db, unit) op" where
  "insert_matrix m d = (case insert_row matrix_key m (rv_matrices d) of
     None \<Rightarrow> (Inl (IntegrityError ''UNIQUE constraint failed: requirement_matrix_revisions''), d)
   | Some t \<Rightarrow> (Inr (), d\<lparr>rv_matrices := t\<rparr>))"

definition freeze_matrix_tx :: "string \<Rightarrow> int \<Rightarrow> matrix_row list \<Rightarrow> (review_db, matrix_revision) op" where
  "freeze_matrix_tx c n rows =
     bind_op (gets (latest_matrix c n)) (\<lambda>latest. let m = \<lparr>mx_contract = c, mx_number = n, mx_revision = latest + 1, mx_rows = rows\<rparr> in
     seq_op (guard (1 \<le> n) (ValidationError ''contract_revision''))
     (seq_op (insert_matrix m)
     (seq_op (review_event ''requirement_matrix.frozen'' (''contract:'' @ c)
        [(''contract_revision'', JInt n), (''matrix_revision'', JInt (latest + 1))])
     (ret m))))"

definition create_matrix :: "string \<Rightarrow> int \<Rightarrow> string list \<Rightarrow> evidence_map \<Rightarrow> ('x review_world, matrix_revision) thread" where
  "create_matrix c n criteria evidence =
     seq_t (require_t (criteria \<noteq> [] \<and> distinct criteria) (ValueError ''criterion IDs must be non-empty and unique''))
     (seq_t (require_t (list_all (\<lambda>(k, _). k \<in> set criteria) evidence)
        (ValueError ''evidence references an unknown acceptance criterion''))
     (bind_t (Done (collect (judge_row evidence) criteria)) (\<lambda>rows. review_tx (freeze_matrix_tx c n rows))))"

definition get_matrix :: "string \<Rightarrow> int \<Rightarrow> int \<Rightarrow> review_db \<Rightarrow> py_error + matrix_revision" where
  "get_matrix c n k d = (case find (\<lambda>m. matrix_key m = (c, n, k)) (rv_matrices d) of
     None \<Rightarrow> Inl (KeyError c) | Some m \<Rightarrow> Inr m)"

section \<open>ReviewFixCoordinator\<close>

text \<open>\<open>review/models.py\<close>, and the loop over \<open>range(1, max_fix_attempts + 2)\<close>.\<close>

record fix_finding =
  ff_severity :: string
  ff_category :: string
  ff_file :: string
  ff_line :: "int option"
  ff_description :: string
  ff_change :: string
  ff_refs :: "string list"

definition validate_fix_finding :: "fix_finding \<Rightarrow> py_error + unit" where
  "validate_fix_finding f = first_error
     [require (ff_severity f \<noteq> []) ''severity'', require (ff_category f \<noteq> []) ''category'', require (ff_file f \<noteq> []) ''file'',
      require (case ff_line f of None \<Rightarrow> True | Some n \<Rightarrow> 1 \<le> n) ''line'', require (ff_description f \<noteq> []) ''description'',
      require (ff_change f \<noteq> []) ''required_change'']"

record review_result =
  rr_verdict :: review_verdict
  rr_summary :: string
  rr_findings :: "fix_finding list"
  rr_unverified :: "string list"
  rr_evidence :: "string list"

definition validate_review_result :: "review_result \<Rightarrow> py_error + unit" where
  "validate_review_result r = first_error (require (rr_summary r \<noteq> []) ''summary'' # map validate_fix_finding (rr_findings r) @
     [require (\<not> (rr_verdict r = RV_Changes \<and> rr_findings r = [])) ''changes_requested requires at least one finding'',
      require (\<not> (rr_verdict r = RV_Approved \<and> rr_findings r \<noteq> [])) ''approved review cannot contain required findings''])"

definition budget_exhausted :: review_result where
  "budget_exhausted = \<lparr>rr_verdict = RV_Blocked, rr_summary = ''review-fix attempt budget exhausted'', rr_findings = [],
     rr_unverified = [''outstanding review findings remain''], rr_evidence = []\<rparr>"

fun fix_loop :: "(nat \<Rightarrow> ('s, review_result) op) \<Rightarrow> (fix_finding list \<Rightarrow> ('s, unit) op) \<Rightarrow> (fix_finding list \<Rightarrow> ('s, unit) op) \<Rightarrow>
    nat \<Rightarrow> nat list \<Rightarrow> ('s, review_result) op" where
  "fix_loop review fix verify limit [] = raise AssertionError"
| "fix_loop review fix verify limit (attempt # rest) =
     bind_op (review attempt) (\<lambda>r.
       if rr_verdict r \<noteq> RV_Changes then ret r
       else if attempt > limit then ret budget_exhausted
       else seq_op (fix (rr_findings r)) (seq_op (verify (rr_findings r)) (fix_loop review fix verify limit rest)))"

definition review_and_fix :: "(nat \<Rightarrow> ('s, review_result) op) \<Rightarrow> (fix_finding list \<Rightarrow> ('s, unit) op) \<Rightarrow> (fix_finding list \<Rightarrow> ('s, unit) op) \<Rightarrow>
    nat \<Rightarrow> ('s, review_result) op" where
  "review_and_fix review fix verify limit = fix_loop review fix verify limit [1..<limit + 2]"

end
