(* ===== verification/Review_Laws.thy ===== *)
theory Review_Laws
  imports Review Rely "HOL-Library.Multiset"
begin

text \<open>
  The verdict over the dimensions, the loop of fixes, the rows of the matrix; and runners of reviews at the same
  time: what a runner returns is what its rows hold, for good.
\<close>

section \<open>The verdict\<close>

definition valid_results :: "dimension_result list \<Rightarrow> bool" where
  "valid_results rs \<longleftrightarrow> (\<forall>r \<in> set rs. validate_result r = Inr ())"

lemma in_dimensions [simp]: "k \<in> set dimensions"
  by (cases k) (simp_all add: dimensions_def)

lemma by_dimension_Some:
  assumes "by_dimension rs k = Some r"
  shows "r \<in> set rs" and "dr_dimension r = k"
  using assms by (auto simp: by_dimension_def dest: find_SomeD)

text \<open>Four results that cover four dimensions: one each.\<close>

lemma one_of_each:
  assumes "list_all (\<lambda>k. by_dimension rs k \<noteq> None) dimensions" and "length rs = length dimensions"
  shows "distinct (map dr_dimension rs)"
proof -
  have "set dimensions \<subseteq> set (map dr_dimension rs)"
  proof
    fix k assume "k \<in> set dimensions"
    with assms(1) have "by_dimension rs k \<noteq> None" unfolding list_all_iff by blast
    then obtain r where "by_dimension rs k = Some r" by blast
    then show "k \<in> set (map dr_dimension rs)" using by_dimension_Some by force
  qed
  then have "card (set dimensions) \<le> card (set (map dr_dimension rs))" by (rule card_mono [rotated]) simp
  moreover have "card (set dimensions) = length dimensions" by (simp add: dimensions_def)
  ultimately have "card (set (map dr_dimension rs)) = length (map dr_dimension rs)"
    using assms(2) card_length [of "map dr_dimension rs"] by simp
  then show ?thesis by (rule card_distinct)
qed

lemma by_dimension_iff:
  assumes "distinct (map dr_dimension rs)"
  shows "by_dimension rs k = Some r \<longleftrightarrow> r \<in> set rs \<and> dr_dimension r = k"
proof
  assume r: "r \<in> set rs \<and> dr_dimension r = k"
  then have "by_dimension rs k \<noteq> None" by (auto simp: by_dimension_def find_None_iff)
  then obtain q where q: "by_dimension rs k = Some q" by blast
  then show "by_dimension rs k = Some r"
    using by_dimension_Some [OF q] r assms by (auto simp: distinct_map inj_on_def)
qed (auto dest: by_dimension_Some)

lemma aggregate_results:
  assumes "aggregate_reviews rs = Inr a"
  shows "map dr_dimension (ra_results a) = dimensions" and "set (ra_results a) = set rs" and "distinct (map dr_dimension rs)"
    and "ra_verdict a = aggregate_verdict (ra_results a)"
proof -
  from assms have cover: "list_all (\<lambda>k. by_dimension rs k \<noteq> None) dimensions" "length rs = length dimensions"
    by (auto simp: aggregate_reviews_def split: if_splits)
  have results: "ra_results a = map (\<lambda>k. the (by_dimension rs k)) dimensions" and verdict: "ra_verdict a = aggregate_verdict (ra_results a)"
    using assms by (auto simp: aggregate_reviews_def Let_def split: if_splits)
  have found: "\<exists>r. by_dimension rs k = Some r" for k
    using cover(1) in_dimensions [of k] unfolding list_all_iff by blast
  have "dr_dimension (the (by_dimension rs k)) = k" for k using found [of k] by_dimension_Some by force
  then show "map dr_dimension (ra_results a) = dimensions" by (simp add: results o_def)
  show dist: "distinct (map dr_dimension rs)" using one_of_each cover by blast
  show "set (ra_results a) = set rs"
  proof
    show "set (ra_results a) \<subseteq> set rs" using found by_dimension_Some(1) by (fastforce simp: results)
    show "set rs \<subseteq> set (ra_results a)"
    proof
      fix r assume "r \<in> set rs"
      then have "by_dimension rs (dr_dimension r) = Some r" using by_dimension_iff [OF dist] by blast
      then show "r \<in> set (ra_results a)" unfolding results by (metis image_eqI in_dimensions list.set_map option.sel)
    qed
  qed
  show "ra_verdict a = aggregate_verdict (ra_results a)" by (fact verdict)
qed

lemma aggregate_same_set:
  assumes "aggregate_reviews rs = Inr a" and "set rs' = set rs" and "length rs' = length rs"
  shows "aggregate_reviews rs' = Inr a"
proof -
  from assms(1) have cover: "list_all (\<lambda>k. by_dimension rs k \<noteq> None) dimensions" "length rs = length dimensions"
    by (auto simp: aggregate_reviews_def split: if_splits)
  have dist: "distinct (map dr_dimension rs)" using aggregate_results(3) [OF assms(1)] .
  have "card (set (map dr_dimension rs')) = length (map dr_dimension rs')"
    using assms(2,3) distinct_card [OF dist] by simp
  then have dist': "distinct (map dr_dimension rs')" by (rule card_distinct)
  have "by_dimension rs' k = by_dimension rs k" for k
    using by_dimension_iff [OF dist] by_dimension_iff [OF dist'] assms(2) by (metis not_Some_eq)
  then have "by_dimension rs' = by_dimension rs" by blast
  then have "aggregate_reviews rs' = aggregate_reviews rs" by (simp only: aggregate_reviews_def assms(3))
  with assms(1) show ?thesis by simp
qed

lemma valid_completed:
  assumes "validate_result r = Inr ()" and "dr_status r = VS_Completed"
  shows "dr_verdict r \<noteq> None" and "dr_verdict r = Some RV_Approved \<Longrightarrow> dr_findings r = [] \<and> dr_unverified r = []"
    and "dr_verdict r = Some RV_Changes \<Longrightarrow> dr_findings r \<noteq> []"
  using assms by (auto simp: validate_result_def consistent_result_def)

lemma valid_error: "validate_result r = Inr () \<Longrightarrow> dr_status r = VS_Error \<Longrightarrow> dr_verdict r = None"
  by (auto simp: validate_result_def consistent_result_def)

lemma approved_iff:
  assumes "valid_results rs"
  shows "aggregate_verdict rs = RV_Approved \<longleftrightarrow> (\<forall>r \<in> set rs. dr_status r = VS_Completed \<and> dr_verdict r = Some RV_Approved)"
proof
  assume approved: "aggregate_verdict rs = RV_Approved"
  show "\<forall>r \<in> set rs. dr_status r = VS_Completed \<and> dr_verdict r = Some RV_Approved"
  proof
    fix r assume r: "r \<in> set rs"
    from approved r have "dr_status r \<noteq> VS_Error" "dr_verdict r \<noteq> Some RV_Blocked" "dr_verdict r \<noteq> Some RV_Changes"
      by (auto simp: aggregate_verdict_def list_ex_iff split: if_splits)
    moreover have "dr_status r = VS_Completed" using calculation(1) by (cases "dr_status r") simp_all
    moreover have "dr_verdict r \<noteq> None" using valid_completed(1) assms r calculation(4) by (simp add: valid_results_def)
    ultimately show "dr_status r = VS_Completed \<and> dr_verdict r = Some RV_Approved"
      using review_verdict.exhaust by (metis not_None_eq)
  qed
next
  assume all: "\<forall>r \<in> set rs. dr_status r = VS_Completed \<and> dr_verdict r = Some RV_Approved"
  then have "\<forall>r \<in> set rs. dr_findings r = []" using assms valid_completed(2) by (auto simp: valid_results_def)
  with all show "aggregate_verdict rs = RV_Approved" by (auto simp: aggregate_verdict_def list_ex_iff)
qed

text \<open>
  C15. The verdict over valid results of the four dimensions: approved exactly when every dimension was reviewed
  and approved; blocked exactly when a reviewer failed, blocked, or reported a blocking finding; the aggregate has
  one result of each dimension, all that were given, and does not depend on their order.
\<close>

theorem review_verdict_decides:
  assumes "valid_results rs" and "aggregate_reviews rs = Inr a"
  shows "(ra_verdict a = RV_Approved \<longleftrightarrow> (\<forall>r \<in> set rs. dr_status r = VS_Completed \<and> dr_verdict r = Some RV_Approved)) \<and>
    (ra_verdict a = RV_Blocked \<longleftrightarrow> (\<exists>r \<in> set rs. dr_status r = VS_Error \<or> dr_verdict r = Some RV_Blocked \<or>
       (\<exists>f \<in> set (dr_findings r). fi_blocking f))) \<and>
    map dr_dimension (ra_results a) = dimensions \<and> mset (ra_results a) = mset rs \<and>
    (\<forall>rs'. mset rs' = mset rs \<longrightarrow> aggregate_reviews rs' = Inr a)"
proof (intro conjI allI impI)
  note agg = aggregate_results [OF assms(2)]
  have "valid_results (ra_results a)" using assms(1) agg(2) by (simp add: valid_results_def)
  from approved_iff [OF this] show "ra_verdict a = RV_Approved \<longleftrightarrow>
      (\<forall>r \<in> set rs. dr_status r = VS_Completed \<and> dr_verdict r = Some RV_Approved)"
    by (simp add: agg)
  show "ra_verdict a = RV_Blocked \<longleftrightarrow> (\<exists>r \<in> set rs. dr_status r = VS_Error \<or> dr_verdict r = Some RV_Blocked \<or>
       (\<exists>f \<in> set (dr_findings r). fi_blocking f))"
    by (auto simp: agg(4) aggregate_verdict_def list_ex_iff agg(2))
  show "map dr_dimension (ra_results a) = dimensions" by (fact agg(1))
  have "distinct dimensions" by (simp add: dimensions_def)
  with agg(1) have "distinct (ra_results a)" by (metis distinct_map)
  moreover have "distinct rs" using agg(3) by (simp add: distinct_map)
  ultimately show "mset (ra_results a) = mset rs" using agg(2) by (simp add: set_eq_iff_mset_eq_distinct)
  fix rs' assume "mset rs' = mset rs"
  then show "aggregate_reviews rs' = Inr a"
    using aggregate_same_set [OF assms(2)] mset_eq_setD mset_eq_length by blast
qed

section \<open>Runners at the same time\<close>

text \<open>
  Threads of runners, fixes and matrices over one store, with any reviewers; a thread that has returned stays in the
  list with its value until the process stops.
\<close>

type_synonym review_value = "(string \<times> int \<times> review_aggregate) option"

record 'x review_state =
  vs_world :: "'x review_world"
  vs_threads :: "('x review_world, review_value) thread list"

inductive review_step :: "nat \<Rightarrow> 'x review_state \<Rightarrow> 'x review_state \<Rightarrow> bool" for limit where
  call_reviews: "review_step limit s (s\<lparr>vs_threads := bind_t (run_reviews f run n) (\<lambda>a. return_t (Some (run, n, a))) # vs_threads s\<rparr>)"
| call_fix: "review_step limit s (s\<lparr>vs_threads := seq_t (review_tx (invalidate_tx limit run n affected)) (return_t None) # vs_threads s\<rparr>)"
| call_matrix: "review_step limit s (s\<lparr>vs_threads := bind_t (create_matrix c n criteria evidence) (\<lambda>_. return_t None) # vs_threads s\<rparr>)"
| review_thread: "pool_step (vs_threads s, vs_world s) (ms, w) \<Longrightarrow> review_step limit s (s\<lparr>vs_threads := ms, vs_world := w\<rparr>)"
| review_moves: "review_step limit s (s\<lparr>vs_world := (vs_world s)\<lparr>rw_ext := x\<rparr>\<rparr>)"
| core_moves: "review_step limit s (s\<lparr>vs_world := (vs_world s)\<lparr>rw_db := (rw_db (vs_world s))\<lparr>rv_core := d\<rparr>\<rparr>\<rparr>)"
| process_stops: "review_step limit s (s\<lparr>vs_threads := []\<rparr>)"

definition no_reviews :: "'x \<Rightarrow> 'x review_state" where
  "no_reviews x = \<lparr>vs_world = \<lparr>rw_db = \<lparr>rv_core = empty_db, rv_attempts = [], rv_dimensions = [], rv_matrices = []\<rparr>, rw_ext = x\<rparr>,
     vs_threads = []\<rparr>"

definition recorded :: "string \<Rightarrow> int \<Rightarrow> dimension_result \<Rightarrow> review_db \<Rightarrow> bool" where
  "recorded run n r d \<longleftrightarrow> (\<exists>q \<in> set (rv_dimensions d). dimension_key q = (run, n, dr_dimension r) \<and>
     dw_session q = dr_session r \<and> dw_result q = Some r)"

text \<open>Rows stay, with their sessions; a result that is there stays as it is.\<close>

definition results_stay :: "'x review_world \<Rightarrow> 'x review_world \<Rightarrow> bool" where
  "results_stay w w' \<longleftrightarrow> (\<forall>run n r. recorded run n r (rw_db w) \<longrightarrow> recorded run n r (rw_db w'))"

definition row_sound :: "dimension_row \<Rightarrow> bool" where
  "row_sound q \<longleftrightarrow> (case dw_result q of None \<Rightarrow> True
     | Some r \<Rightarrow> dr_dimension r = dw_dimension q \<and> dr_session r = dw_session q \<and> validate_result r = Inr ())"

definition reviews_sound :: "nat \<Rightarrow> review_db \<Rightarrow> bool" where
  "reviews_sound limit d \<longleftrightarrow> distinct (map attempt_key (rv_attempts d)) \<and> distinct (map dimension_key (rv_dimensions d)) \<and>
     (\<forall>q \<in> set (rv_dimensions d). row_sound q) \<and> (\<forall>run. fixes_of run d \<le> limit)"

definition world_sound :: "nat \<Rightarrow> 'x review_world \<Rightarrow> bool" where
  "world_sound limit w \<longleftrightarrow> reviews_sound limit (rw_db w)"

interpretation reviews: rely_guarantee results_stay "world_sound limit" for limit
  by unfold_locales (auto simp: results_stay_def)

definition grows :: "review_db \<Rightarrow> review_db \<Rightarrow> bool" where
  "grows d d' \<longleftrightarrow> (\<forall>run n r. recorded run n r d \<longrightarrow> recorded run n r d')"

lemma review_tx_secure:
  assumes "\<And>t x d. results_stay w t \<Longrightarrow> reviews_sound limit (rw_db t) \<Longrightarrow> m (rw_db t) = (Inr x, d) \<Longrightarrow>
    reviews_sound limit d \<and> grows (rw_db t) d \<and> Q x (t\<lparr>rw_db := d\<rparr>)"
  shows "reviews.holds limit Q w (review_tx m)"
  unfolding review_tx_def
proof (rule reviews.atomic_op)
  fix t r u assume t: "results_stay w t" "world_sound limit t"
    and m: "(case m (rw_db t) of (Inl e, _) \<Rightarrow> (Inl e, t) | (Inr x, d) \<Rightarrow> (Inr x, t\<lparr>rw_db := d\<rparr>)) = (r, u)"
  show "world_sound limit u \<and> results_stay t u \<and> (\<forall>x. r = Inr x \<longrightarrow> Q x u)"
  proof (cases r)
    case (Inl e)
    then have "u = t" using m by (auto split: prod.splits sum.splits)
    with t Inl show ?thesis by (simp add: results_stay_def)
  next
    case (Inr x)
    then obtain d where "m (rw_db t) = (Inr x, d)" "u = t\<lparr>rw_db := d\<rparr>" using m by (auto split: prod.splits sum.splits)
    with assms [OF t(1) _ this(1)] t(2) Inr show ?thesis by (simp add: world_sound_def results_stay_def grows_def)
  qed
qed

text \<open>What the transactions write.\<close>

lemma review_event_Inr: "review_event ty run p d = (Inr u, d') \<Longrightarrow> \<exists>c. d' = d\<lparr>rv_core := c\<rparr>"
  by (auto simp: review_event_def enqueue_event_def modify_def)

lemma core_sound [simp]: "reviews_sound limit (d\<lparr>rv_core := c\<rparr>) = reviews_sound limit d" "grows d (d\<lparr>rv_core := c\<rparr>)"
  "recorded run n r (d\<lparr>rv_core := c\<rparr>) = recorded run n r d"
  by (simp_all add: reviews_sound_def grows_def recorded_def fixes_of_def)

lemma grows_refl [simp]: "grows d d" and grows_trans: "grows d e \<Longrightarrow> grows e f \<Longrightarrow> grows d f"
  by (simp_all add: grows_def)

lemma event_sound: "review_event ty run p d = (Inr u, d') \<Longrightarrow> reviews_sound limit d \<Longrightarrow> reviews_sound limit d' \<and> grows d d'"
  using review_event_Inr by fastforce

lemma sessions_sound:
  "fresh_sessions xs d = (Inr us, d') \<Longrightarrow> reviews_sound limit d \<Longrightarrow> reviews_sound limit d' \<and> grows d d' \<and> length us = length xs"
proof (induction xs arbitrary: d us)
  case (Cons x xs)
  let ?d = "d\<lparr>rv_core := (rv_core d)\<lparr>db_uuid := Suc (db_uuid (rv_core d))\<rparr>\<rparr>"
  obtain ws where rest: "fresh_sessions xs ?d = (Inr ws, d')" and us: "length us = Suc (length ws)"
    using Cons.prems(1) by (auto elim!: bind_op_InrE simp: fresh_session_def ret_def)
  have "reviews_sound limit d' \<and> grows ?d d' \<and> length ws = length xs"
    by (rule Cons.IH [OF rest]) (simp only: core_sound Cons.prems(2))
  then show ?case using us grows_trans [of d ?d d'] by simp
qed (simp add: ret_def)

lemma insert_review_sound:
  assumes "insert_review run n d = (Inr u, d')" and "reviews_sound limit d"
  shows "reviews_sound limit d' \<and> grows d d'"
  using assms by (auto simp: insert_review_def insert_row_Some reviews_sound_def grows_def recorded_def fixes_of_def
      split: option.splits)

lemma insert_dimension_sound:
  assumes "insert_dimension run n ks d = (Inr u, d')" and "reviews_sound limit d"
  shows "reviews_sound limit d' \<and> grows d d'"
  using assms by (auto simp: insert_dimension_def insert_row_Some reviews_sound_def grows_def recorded_def fixes_of_def
      row_sound_def split: option.splits)

lemma insert_dimensions_sound:
  "for_each (insert_dimension run n) kss d = (Inr u, d') \<Longrightarrow> reviews_sound limit d \<Longrightarrow> reviews_sound limit d' \<and> grows d d'"
proof (induction kss arbitrary: d)
  case (Cons ks kss)
  then obtain e where first: "insert_dimension run n ks d = (Inr (), e)" "for_each (insert_dimension run n) kss e = (Inr u, d')"
    by (auto elim!: seq_op_InrE)
  have "reviews_sound limit e \<and> grows d e" using insert_dimension_sound [OF first(1) Cons.prems(2)] .
  with Cons.IH [OF first(2)] show ?case using grows_trans by blast
qed (simp add: ret_def)

lemma start_sound:
  assumes "start_review_tx run n kss d = (Inr u, d')" and "reviews_sound limit d"
  shows "reviews_sound limit d' \<and> grows d d'"
proof -
  obtain e f where steps: "insert_review run n d = (Inr (), e)" "for_each (insert_dimension run n) kss e = (Inr (), f)"
    "review_event ''review.attempt.started'' run [(''attempt'', JInt n)] f = (Inr u, d')"
    using assms(1) unfolding start_review_tx_def by (auto elim!: seq_op_InrE)
  note one = insert_review_sound [OF steps(1) assms(2)]
  note two = insert_dimensions_sound [OF steps(2) conjunct1 [OF one]]
  note three = event_sound [OF steps(3) conjunct1 [OF two]]
  show ?thesis using one two three grows_trans by blast
qed

lemma record_sound:
  assumes tx: "record_result_tx run n r d = (Inr u, d')" and sound: "reviews_sound limit d" and valid: "validate_result r = Inr ()"
  shows "reviews_sound limit d' \<and> grows d d' \<and> recorded run n r d'"
proof -
  let ?p = "dimension_is run n (dr_dimension r)"
  let ?f = "\<lambda>q. q\<lparr>dw_result := Some r\<rparr>"
  let ?d = "d\<lparr>rv_dimensions := update_where ?p ?f (rv_dimensions d)\<rparr>"
  obtain q p where q: "find ?p (rv_dimensions d) = Some q" "dw_result q = None" "dw_session q = dr_session r"
    and event: "review_event ''review.dimension.finished'' run p ?d = (Inr u, d')"
    using tx unfolding record_result_tx_def
    by (auto elim!: bind_op_InrE seq_op_InrE simp: gets_def modify_def raise_def guard_def split: option.splits if_splits)
  have mine: "q \<in> set (rv_dimensions d)" "?p q" using find_SomeD [OF q(1)] by auto
  have only: "x = q" if "x \<in> set (rv_dimensions d)" "?p x" for x
  proof -
    have "dimension_key x = dimension_key q" using that(2) mine(2) by (simp add: dimension_is_def)
    then show ?thesis using sound that(1) mine(1) by (auto simp: reviews_sound_def distinct_map inj_on_def)
  qed
  have rows: "set (rv_dimensions ?d) = insert (?f q) (set (rv_dimensions d) - {q})"
  proof -
    have "{x \<in> set (rv_dimensions d). ?p x} = {q}" using only mine by blast
    moreover have "{x \<in> set (rv_dimensions d). \<not> ?p x} = set (rv_dimensions d) - {q}" using only mine by blast
    ultimately show ?thesis by (simp add: set_update_where)
  qed
  have key: "dimension_key (?f x) = dimension_key x" for x by (simp add: dimension_key_def)
  have "reviews_sound limit ?d"
  proof -
    have "map dimension_key (rv_dimensions ?d) = map dimension_key (rv_dimensions d)" by (simp add: map_update_where key)
    moreover have "row_sound (?f q)" using mine(2) q(3) valid by (simp add: row_sound_def dimension_is_def dimension_key_def)
    moreover have "row_sound x" if "x \<in> set (rv_dimensions ?d)" "x \<noteq> ?f q" for x
      using that rows sound by (auto simp: reviews_sound_def)
    ultimately show ?thesis using sound by (auto simp: reviews_sound_def fixes_of_def)
  qed
  moreover have "grows d ?d"
    unfolding grows_def recorded_def
  proof (intro allI impI, elim bexE conjE)
    fix run' n' r' x assume x: "x \<in> set (rv_dimensions d)" "dimension_key x = (run', n', dr_dimension r')"
      "dw_session x = dr_session r'" "dw_result x = Some r'"
    then have "x \<noteq> q" using q(2) by (metis option.distinct(1))
    with x(1) have "x \<in> set (rv_dimensions ?d)" unfolding rows by blast
    with x show "\<exists>x \<in> set (rv_dimensions ?d). dimension_key x = (run', n', dr_dimension r') \<and>
        dw_session x = dr_session r' \<and> dw_result x = Some r'" by blast
  qed
  moreover have "recorded run n r ?d"
    unfolding recorded_def using rows mine(2) q(3) key [of q] by (intro bexI [of _ "?f q"]) (simp_all add: dimension_is_def)
  ultimately show ?thesis using event_sound [OF event, of limit] review_event_Inr [OF event] grows_trans [of d ?d d'] by auto
qed

text \<open>The budget of fixes: an invalidation is counted before it is made.\<close>

lemma invalidate_sound:
  assumes tx: "invalidate_tx limit run n affected d = (Inr u, d')" and sound: "reviews_sound limit d"
  shows "reviews_sound limit d' \<and> grows d d'"
proof -
  let ?p = "open_attempt run n"
  let ?f = "\<lambda>r. r\<lparr>vw_state := AT_Invalidated, vw_fixes := int (fixes_of run d) + 1, vw_affected := sort affected, vw_invalid := True\<rparr>"
  let ?d = "d\<lparr>rv_attempts := update_where ?p ?f (rv_attempts d)\<rparr>"
  have room: "fixes_of run d < limit" and one: "length (filter ?p (rv_attempts d)) = 1"
    and event: "\<exists>p. review_event ''review.fix.required'' run p ?d = (Inr u, d')"
    using tx unfolding invalidate_tx_def
    by (auto elim!: bind_op_InrE seq_op_InrE simp: gets_def modify_def guard_def split: if_splits)
  have count: "length (filter (\<lambda>r. vw_run r = run' \<and> vw_invalid r) (update_where ?p ?f t)) =
      length (filter (\<lambda>r. vw_run r = run' \<and> vw_invalid r) t) + (if run' = run then length (filter ?p t) else 0)" for run' t
    by (induction t) (auto simp: open_attempt_def [abs_def])
  have "fixes_of run' ?d \<le> limit" for run'
    using room one sound count [of run' "rv_attempts d"] by (auto simp: fixes_of_def reviews_sound_def)
  moreover have "map attempt_key (rv_attempts ?d) = map attempt_key (rv_attempts d)"
    by (simp add: map_update_where attempt_key_def)
  ultimately have "reviews_sound limit ?d" using sound by (simp add: reviews_sound_def)
  moreover have "grows d ?d" by (simp add: grows_def recorded_def)
  ultimately show ?thesis using event event_sound [of _ _ _ ?d u d' limit] grows_trans by blast
qed

lemma matrix_sound:
  assumes tx: "freeze_matrix_tx c n rows d = (Inr m, d')" and sound: "reviews_sound limit d"
  shows "reviews_sound limit d' \<and> grows d d'"
proof -
  obtain e p u where insert: "insert_matrix m d = (Inr (), e)" and event: "review_event ''requirement_matrix.frozen'' p u e = (Inr (), d')"
    using tx unfolding freeze_matrix_tx_def Let_def
    by (auto elim!: bind_op_InrE seq_op_InrE simp: gets_def guard_def ret_def split: if_splits)
  have "reviews_sound limit e \<and> grows d e"
    using insert sound by (auto simp: insert_matrix_def reviews_sound_def grows_def recorded_def fixes_of_def split: option.splits)
  with event_sound [OF event] grows_trans show ?thesis by blast
qed

section \<open>The threads keep it\<close>

definition returned_sound :: "review_value \<Rightarrow> 'x review_world \<Rightarrow> bool" where
  "returned_sound v w \<longleftrightarrow> (case v of None \<Rightarrow> True | Some (run, n, a) \<Rightarrow>
     (\<exists>rs. aggregate_reviews rs = Inr a \<and> valid_results rs \<and> (\<forall>r \<in> set rs. recorded run n r (rw_db w))))"

lemma returned_stable: "returned_sound v w \<Longrightarrow> results_stay w w' \<Longrightarrow> returned_sound v w'"
  by (cases v) (auto simp: returned_sound_def results_stay_def)

lemma outcome_valid: "session \<noteq> [] \<Longrightarrow> validate_result (review_outcome k session r) = Inr ()"
  by (auto simp: review_outcome_def failed_review_def validate_result_def consistent_result_def split: sum.split)

definition all_recorded :: "string \<Rightarrow> int \<Rightarrow> dimension_result list \<Rightarrow> 'x review_world \<Rightarrow> bool" where
  "all_recorded run n rs w \<longleftrightarrow> valid_results rs \<and> (\<forall>r \<in> set rs. recorded run n r (rw_db w))"

lemma call_secure:
  assumes "session \<noteq> []"
  shows "reviews.holds limit (\<lambda>r _. validate_result r = Inr ()) w (call_reviewer f k session)"
  unfolding call_reviewer_def
  by (rule reviews.atomic_op) (auto simp: world_sound_def results_stay_def outcome_valid [OF assms] split: prod.splits)

lemma result_secure:
  assumes "validate_result r = Inr ()"
  shows "reviews.holds limit (\<lambda>_ t. recorded run n r (rw_db t)) w (review_tx (record_result_tx run n r))"
  by (rule review_tx_secure) (use record_sound assms in auto)

lemma each_secure:
  "\<forall>(k, session) \<in> set kss. session \<noteq> [] \<Longrightarrow> reviews.holds limit (all_recorded run n) w (review_each f run n kss)"
proof (induction kss arbitrary: w)
  case Nil
  show ?case by (simp, rule reviews.simple_threads) (simp add: all_recorded_def valid_results_def)
next
  case (Cons ks kss)
  obtain k session where ks: "ks = (k, session)" by fastforce
  show ?case unfolding ks review_each.simps
  proof (rule reviews.bind [OF call_secure], goal_cases)
    case 1
    then show ?case using Cons.prems ks by simp
  next
    case (2 r t)
    show ?case
    proof (rule reviews.seq [OF result_secure [OF 2(1)]], goal_cases)
      case (1 u t')
      show ?case
      proof (rule reviews.bind [OF Cons.IH], goal_cases)
        case 1
        then show ?case using Cons.prems by simp
      next
        case (2 rs t'')
        have "recorded run n r (rw_db t'')" using \<open>recorded run n r (rw_db t')\<close> 2(2) by (simp add: results_stay_def)
        then show ?case using 2(1) \<open>validate_result r = Inr ()\<close>
          by (intro reviews.simple_threads) (simp add: all_recorded_def valid_results_def)
      qed
    qed
  qed
qed

lemma each_length: "reviews.holds limit (\<lambda>us _. length us = length xs \<and> (\<forall>u \<in> set us. u \<noteq> [])) w (review_tx (fresh_sessions xs))"
proof (rule review_tx_secure)
  fix t us d assume t: "reviews_sound limit (rw_db t)" "fresh_sessions xs (rw_db t) = (Inr us, d)"
  have "[] \<notin> set us" if "fresh_sessions xs e = (Inr us, d)" for e
    using that
  proof (induction xs arbitrary: e us)
    case (Cons x xs)
    then obtain v vs e' where "us = v # vs" "v \<noteq> []" "fresh_sessions xs e' = (Inr vs, d)"
      by (auto elim!: bind_op_InrE simp: fresh_session_def ret_def)
    with Cons.IH show ?case by auto
  qed (simp add: ret_def)
  then have "\<forall>u \<in> set us. u \<noteq> []" using t(2) by blast
  with sessions_sound [OF t(2,1)] t(2) show "reviews_sound limit d \<and> grows (rw_db t) d \<and> length us = length xs \<and> (\<forall>u \<in> set us. u \<noteq> [])"
    by blast
qed

lemma start_secure: "reviews.holds limit (\<lambda>us _. \<forall>u \<in> set us. u \<noteq> []) w (start_review run n ks)"
  unfolding start_review_def
proof (rule reviews.seq [OF reviews.simple_threads(3) [where P = "\<lambda>_ _. True"]], simp)
  fix x :: unit and t :: "'a review_world"
  show "reviews.holds limit (\<lambda>us _. \<forall>u \<in> set us. u \<noteq> []) t (bind_t (review_tx (fresh_sessions ks))
      (\<lambda>us. seq_t (review_tx (start_review_tx run n (zip ks us))) (seq_t (require_t (1 \<le> n) (ValidationError ''attempt_number'')) (return_t us))))"
  proof (rule reviews.bind [OF each_length], goal_cases)
    case (1 us t)
    show ?case
    proof (rule reviews.seq [where Q = "\<lambda>_ _. True"], goal_cases)
      case 1
      show ?case by (rule review_tx_secure) (use start_sound in auto)
    next
      case (2 x t)
      show ?case
        by (rule reviews.seq [OF reviews.simple_threads(3) [where P = "\<lambda>_ _. True"]], simp, rule reviews.simple_threads)
          (use \<open>length us = length ks \<and> (\<forall>u \<in> set us. u \<noteq> [])\<close> in simp)
    qed
  qed
qed

lemma run_secure: "reviews.holds limit (\<lambda>a w. \<exists>rs. aggregate_reviews rs = Inr a \<and> all_recorded run n rs w) w (run_reviews f run n)"
  unfolding run_reviews_def
proof (rule reviews.bind [OF start_secure], goal_cases)
  case (1 us t)
  have "\<forall>(k, session) \<in> set (zip dimensions us). session \<noteq> []" using 1(1) by (auto dest: set_zip_rightD)
  note each = each_secure [OF this, of limit run n t f]
  show ?case
    by (rule reviews.bind [OF each]) (auto intro!: secure.secure_done)
qed

lemma runner_secure:
  "reviews.holds limit returned_sound w (bind_t (run_reviews f run n) (\<lambda>a. return_t (Some (run, n, a))))"
  by (rule reviews.bind [OF run_secure], rule reviews.simple_threads) (auto simp: returned_sound_def all_recorded_def)

lemma fix_secure: "reviews.holds limit returned_sound w (seq_t (review_tx (invalidate_tx limit run n affected)) (return_t None))"
proof (rule reviews.seq [where Q = "\<lambda>_ _. True"])
  show "reviews.holds limit (\<lambda>_ _. True) w (review_tx (invalidate_tx limit run n affected))"
    by (rule review_tx_secure) (use invalidate_sound in auto)
qed (rule reviews.simple_threads, simp add: returned_sound_def)

lemma matrix_secure: "reviews.holds limit returned_sound w (bind_t (create_matrix c n criteria evidence) (\<lambda>_. return_t None))"
proof (rule reviews.bind [where Q = "\<lambda>_ _. True"])
  show "reviews.holds limit (\<lambda>_ _. True) w (create_matrix c n criteria evidence)"
    unfolding create_matrix_def
    by (intro reviews.seq [where Q = "\<lambda>_ _. True"] reviews.bind [where Q = "\<lambda>_ _. True"] reviews.simple_threads review_tx_secure)
      (use matrix_sound in \<open>auto intro: secure.secure_done\<close>)
qed (rule reviews.simple_threads, simp add: returned_sound_def)

section \<open>Every reachable state\<close>

definition reviews_ok :: "nat \<Rightarrow> 'x review_state \<Rightarrow> bool" where
  "reviews_ok limit s \<longleftrightarrow> world_sound limit (vs_world s) \<and>
     (\<forall>m \<in> set (vs_threads s). reviews.holds limit returned_sound (vs_world s) m)"

lemma review_step_ok:
  assumes "review_step limit s s'" and "reviews_ok limit s"
  shows "reviews_ok limit s'"
  using assms
proof (induction rule: review_step.induct)
  case (review_thread s ms w)
  have "world_sound limit w \<and> results_stay (vs_world s) w \<and> (\<forall>m \<in> set ms. reviews.holds limit returned_sound w m)"
    by (rule reviews.pool_values [OF review_thread(1)]) (use review_thread(2) returned_stable in \<open>auto simp: reviews_ok_def\<close>)
  then show ?case by (simp add: reviews_ok_def)
next
  case (review_moves s x)
  have "results_stay (vs_world s) ((vs_world s)\<lparr>rw_ext := x\<rparr>)" by (simp add: results_stay_def)
  with review_moves reviews.later returned_stable show ?case by (fastforce simp: reviews_ok_def world_sound_def)
next
  case (core_moves s d)
  have "results_stay (vs_world s) ((vs_world s)\<lparr>rw_db := (rw_db (vs_world s))\<lparr>rv_core := d\<rparr>\<rparr>)" by (simp add: results_stay_def)
  with core_moves reviews.later returned_stable show ?case by (fastforce simp: reviews_ok_def world_sound_def)
qed (simp_all add: reviews_ok_def runner_secure fix_secure matrix_secure)

lemma reviews_reachable:
  assumes "(review_step limit)\<^sup>*\<^sup>* (no_reviews x) s"
  shows "reviews_ok limit s"
  using assms
proof (induction rule: rtranclp_induct)
  case base
  show ?case by (simp add: reviews_ok_def no_reviews_def world_sound_def reviews_sound_def fixes_of_def)
qed (rule review_step_ok)

text \<open>
  C11. Runners of reviews, fixes and matrices of one store at the same time, with any reviewers: when a runner has
  returned, the store holds under its run and attempt, for good, one valid result of every dimension with the fresh
  session of its row, and these decide the verdict it returned: approved only if every one of them is approved. No
  run is ever given more fixes than the budget.
\<close>

theorem returned_reviews_are_recorded:
  assumes "(review_step limit)\<^sup>*\<^sup>* (no_reviews x) s"
  shows "(\<forall>run n a. Done (Inr (Some (run, n, a))) \<in> set (vs_threads s) \<longrightarrow>
      (\<forall>k. \<exists>q \<in> set (rv_dimensions (rw_db (vs_world s))). \<exists>r \<in> set (ra_results a).
         dimension_key q = (run, n, k) \<and> dw_result q = Some r \<and> dw_session q = dr_session r \<and> validate_result r = Inr () \<and>
         (ra_verdict a = RV_Approved \<longrightarrow> dr_verdict r = Some RV_Approved))) \<and>
    (\<forall>run. fixes_of run (rw_db (vs_world s)) \<le> limit)"
proof (intro conjI allI impI)
  note ok = reviews_reachable [OF assms, unfolded reviews_ok_def]
  show "fixes_of run (rw_db (vs_world s)) \<le> limit" for run
    using ok by (simp add: world_sound_def reviews_sound_def)
  fix run n a k assume "Done (Inr (Some (run, n, a))) \<in> set (vs_threads s)"
  then have "secure results_stay (world_sound limit) returned_sound (vs_world s) (Done (Inr (Some (run, n, a))))" using ok by blast
  then have "returned_sound (Some (run, n, a)) (vs_world s)" by (auto elim: secure.cases)
  then obtain rs where rs: "aggregate_reviews rs = Inr a" "valid_results rs" "\<forall>r \<in> set rs. recorded run n r (rw_db (vs_world s))"
    by (auto simp: returned_sound_def)
  note agg = aggregate_results [OF rs(1)]
  have "k \<in> set (map dr_dimension (ra_results a))" using agg(1) by simp
  then obtain r where r: "r \<in> set (ra_results a)" "dr_dimension r = k" by auto
  have "valid_results (ra_results a)" using rs(2) agg(2) by (simp add: valid_results_def)
  with approved_iff r(1) agg(4) have "ra_verdict a = RV_Approved \<longrightarrow> dr_verdict r = Some RV_Approved" by fastforce
  moreover have "recorded run n r (rw_db (vs_world s))" "validate_result r = Inr ()"
    using rs(2,3) r(1) agg(2) by (auto simp: valid_results_def)
  ultimately show "\<exists>q \<in> set (rv_dimensions (rw_db (vs_world s))). \<exists>r \<in> set (ra_results a).
         dimension_key q = (run, n, k) \<and> dw_result q = Some r \<and> dw_session q = dr_session r \<and> validate_result r = Inr () \<and>
         (ra_verdict a = RV_Approved \<longrightarrow> dr_verdict r = Some RV_Approved)"
    using r by (fastforce simp: recorded_def)
qed

section \<open>An example\<close>

text \<open>A thread that runs alone is a run of the system.\<close>

lemma review_alone:
  "(review_step limit)\<^sup>*\<^sup>* \<lparr>vs_world = w, vs_threads = [m]\<rparr>
     \<lparr>vs_world = snd (run_thread m w), vs_threads = [Done (fst (run_thread m w))]\<rparr>"
proof -
  have "(review_step limit)\<^sup>*\<^sup>* \<lparr>vs_world = w, vs_threads = ms\<rparr> \<lparr>vs_world = w', vs_threads = ms'\<rparr>"
    if "pool_step\<^sup>*\<^sup>* (ms, w) (ms', w')" for ms ms' w'
    using that
  proof (induction "(ms', w')" arbitrary: ms' w' rule: rtranclp_induct)
    case (step y)
    obtain ms1 w1 where y: "y = (ms1, w1)" by fastforce
    have "review_step limit \<lparr>vs_world = w1, vs_threads = ms1\<rparr> \<lparr>vs_world = w', vs_threads = ms'\<rparr>"
      using review_thread [of "\<lparr>vs_world = w1, vs_threads = ms1\<rparr>" ms' w' limit] step(2) y by simp
    with step(3) [OF y] show ?case by (rule rtranclp.rtrancl_into_rtrancl)
  qed simp
  from this [OF pool_alone] show ?thesis .
qed

definition demo_approval :: "review_dimension \<Rightarrow> string \<Rightarrow> dimension_result" where
  "demo_approval k session = \<lparr>dr_dimension = k, dr_status = VS_Completed, dr_verdict = Some RV_Approved, dr_summary = ''fine'',
     dr_findings = [], dr_unverified = [], dr_evidence = [], dr_session = session, dr_code = None\<rparr>"

definition demo_reviewer :: "unit reviewer" where
  "demo_reviewer k session x = (Inr (demo_approval k session), x)"

theorem review_verdict_decides_witness:
  "\<exists>a. aggregate_reviews (map (\<lambda>k. demo_approval k ''s'') (rev dimensions)) = Inr a \<and> ra_verdict a = RV_Approved \<and>
     map dr_dimension (ra_results a) = dimensions"
proof -
  let ?rs = "map (\<lambda>k. demo_approval k ''s'') (rev dimensions)"
  have valid: "valid_results ?rs" by (simp add: valid_results_def demo_approval_def validate_result_def consistent_result_def)
  have "isl (aggregate_reviews ?rs) = False" by code_simp
  then obtain a where a: "aggregate_reviews ?rs = Inr a" by (cases "aggregate_reviews ?rs") simp_all
  from review_verdict_decides [OF valid a] have "ra_verdict a = RV_Approved" "map dr_dimension (ra_results a) = dimensions"
    by (auto simp: demo_approval_def)
  with a show ?thesis by blast
qed

definition demo_review :: "(unit review_world, review_value) thread" where
  "demo_review = bind_t (run_reviews demo_reviewer ''r'' 1) (\<lambda>a. return_t (Some (''r'', 1, a)))"

lemma demo_returns: "case fst (run_thread demo_review (vs_world (no_reviews ()))) of
    Inr (Some (run, n, a)) \<Rightarrow> run = ''r'' \<and> n = 1 \<and> ra_verdict a = RV_Approved | _ \<Rightarrow> False"
  by code_simp

theorem returned_reviews_are_recorded_witness:
  "\<exists>s. (review_step 2)\<^sup>*\<^sup>* (no_reviews ()) s \<and> (\<exists>q \<in> set (rv_dimensions (rw_db (vs_world s))). \<exists>r.
     dimension_key q = (''r'', 1, RD_Security) \<and> dw_result q = Some r \<and> dr_verdict r = Some RV_Approved)"
proof -
  let ?w = "vs_world (no_reviews ())"
  obtain a where a: "fst (run_thread demo_review ?w) = Inr (Some (''r'', 1, a))" "ra_verdict a = RV_Approved"
    using demo_returns by (auto split: sum.splits option.splits)
  let ?s = "\<lparr>vs_world = snd (run_thread demo_review ?w), vs_threads = [Done (fst (run_thread demo_review ?w))]\<rparr>"
  have "review_step 2 (no_reviews ()) \<lparr>vs_world = ?w, vs_threads = [demo_review]\<rparr>"
    using call_reviews [of 2 "no_reviews ()" demo_reviewer "''r''" 1] by (simp add: demo_review_def no_reviews_def)
  then have reach: "(review_step 2)\<^sup>*\<^sup>* (no_reviews ()) ?s" using review_alone by (rule converse_rtranclp_into_rtranclp)
  have "Done (Inr (Some (''r'', 1, a))) \<in> set (vs_threads ?s)" by (simp add: a(1))
  with returned_reviews_are_recorded [OF reach] a(2) have
    "\<exists>q \<in> set (rv_dimensions (rw_db (vs_world ?s))). \<exists>r. dimension_key q = (''r'', 1, RD_Security) \<and> dw_result q = Some r \<and>
       dr_verdict r = Some RV_Approved"
    by blast
  with reach show ?thesis by blast
qed

section \<open>Fixes and the matrix\<close>

text \<open>A path that ends in two dots passes the check of locations.\<close>

lemma dot_dot_is_accepted: "safe_location ''..'' = Inr ''..''"
  by code_simp


text \<open>
  With boundaries that return, the loop of reviews and fixes returns a result that asks for no more changes; the
  \<open>AssertionError\<close> at its end is never raised.
\<close>

lemma fix_loop_returns:
  assumes "\<And>n s. \<exists>r t. review n s = (Inr r, t)" and "\<And>fs s. \<exists>t. fix fs s = (Inr (), t)" and "\<And>fs s. \<exists>t. verify fs s = (Inr (), t)"
    and "attempts \<noteq> []" and "last attempts > limit"
  shows "\<exists>r t. fix_loop review fix verify limit attempts s = (Inr r, t) \<and> rr_verdict r \<noteq> RV_Changes"
  using assms(4,5)
proof (induction attempts arbitrary: s)
  case (Cons n rest)
  obtain r t where r: "review n s = (Inr r, t)" using assms(1) by blast
  show ?case
  proof (cases "rr_verdict r \<noteq> RV_Changes \<or> n > limit")
    case True
    then show ?thesis using r by (auto simp: bind_op_def ret_def budget_exhausted_def)
  next
    case False
    with Cons.prems have "rest \<noteq> []" "last rest > limit" by (auto split: if_splits)
    then show ?thesis using Cons.IH assms(2) [of "rr_findings r" t] assms(3) [of "rr_findings r"] r False
      by (auto simp: bind_op_def seq_op_def) (metis (no_types, lifting) case_prod_conv sum.case(2))
  qed
qed simp

lemma review_and_fix_returns:
  assumes "\<And>n s. \<exists>r t. review n s = (Inr r, t)" and "\<And>fs s. \<exists>t. fix fs s = (Inr (), t)" and "\<And>fs s. \<exists>t. verify fs s = (Inr (), t)"
  shows "\<exists>r t. review_and_fix review fix verify limit s = (Inr r, t) \<and> rr_verdict r \<noteq> RV_Changes"
  unfolding review_and_fix_def by (rule fix_loop_returns) (use assms in auto)

text \<open>A row is verified exactly when it has trusted evidence and no trusted evidence of a failure.\<close>

lemma row_status:
  assumes "judge_row evidence criterion = Inr row"
  defines "es \<equiv> flattened (case map_of evidence criterion of None \<Rightarrow> [] | Some cs \<Rightarrow> cs)"
  shows "mw_status row = MX_Verified \<longleftrightarrow> (\<exists>e \<in> set es. trusted e) \<and> (\<forall>e \<in> set es. trusted e \<longrightarrow> ef_outcome e \<noteq> EO_Failed)"
    and "set (mw_artifacts row) = ef_ref ` {e \<in> set es. trusted e}"
  using assms(1) unfolding es_def [symmetric] judge_row_def
  by (auto simp: Let_def es_def list_ex_iff filter_empty_conv split: if_splits)

end
