(* ===== verification/Sessions.thy ===== *)
theory Sessions
  imports Conversation
begin

text \<open>
  \<open>executor/types.py\<close>, \<open>runtime/sessions.py\<close> and \<open>executor/runtime.py\<close>: the sessions of providers that execute
  nodes, their rows, and the policy that resumes a session, starts a new one, or returns what an attempt has
  already produced.
\<close>

section \<open>Types of executors\<close>

datatype exec_role = XR_Implementer | XR_Reviewer | XR_Observer

primrec xr_value :: "exec_role \<Rightarrow> string" where
  "xr_value XR_Implementer = ''implementer''"
| "xr_value XR_Reviewer = ''reviewer''"
| "xr_value XR_Observer = ''observer''"

datatype sandbox_mode = SB_Write | SB_Read

primrec sb_value :: "sandbox_mode \<Rightarrow> string" where
  "sb_value SB_Write = ''workspace-write''"
| "sb_value SB_Read = ''read-only''"

datatype session_status =
  SS_Starting | SS_Running | SS_Completed | SS_Failed | SS_CancelRequested | SS_Cancelled | SS_Quiescing | SS_Rotated

record executor_capabilities =
  xc_provider :: string
  xc_version :: string
  xc_authenticated :: bool
  xc_json :: bool
  xc_schema :: bool
  xc_last :: bool
  xc_resume :: bool
  xc_review :: bool
  xc_write :: bool
  xc_read :: bool
  xc_never :: bool
  xc_cancel :: bool

definition supports_phase2 :: "executor_capabilities \<Rightarrow> bool" where
  "supports_phase2 c \<longleftrightarrow> xc_authenticated c \<and> xc_json c \<and> xc_schema c \<and> xc_last c \<and> xc_resume c \<and> xc_review c \<and>
     xc_write c \<and> xc_read c \<and> xc_never c \<and> xc_cancel c"

record exec_request =
  rq_run :: string
  rq_node :: string
  rq_attempt :: string
  rq_role :: exec_role
  rq_objective :: string
  rq_context :: string
  rq_directory :: string
  rq_sandbox :: sandbox_mode
  rq_schema :: "(string \<times> json) list"
  rq_control :: string
  rq_timeout :: rat

text \<open>\<open>__post_init__\<close>\<close>

definition make_request :: "exec_request \<Rightarrow> py_error + exec_request" where
  "make_request q =
     (if all_white (rq_objective q) then Inl (ValueError ''objective must not be empty'')
      else if rq_timeout q \<le> 0 then Inl (ValueError ''timeout_seconds must be positive'')
      else if rq_role q \<in> {XR_Reviewer, XR_Observer} \<and> rq_sandbox q \<noteq> SB_Read
        then Inl (ValueError ''reviewer and observer requests must be read-only'')
      else Inr q)"

record session_handle =
  hd_provider :: string
  hd_session :: string
  hd_version :: string

record exec_event =
  xe_type :: string
  xe_provider_type :: "string option"
  xe_session :: "string option"
  xe_data :: "(string \<times> json) list"

record exec_outcome =
  oc_session :: session_handle
  oc_result :: exec_result
  oc_events :: "exec_event list"
  oc_stdout :: artifact
  oc_stderr :: "artifact option"
  oc_exit :: int

text \<open>
  A row of \<open>executor_sessions\<close>. The outcome column holds the value that \<open>_outcome_json\<close> writes the JSON of;
  \<open>created_at\<close> orders the sessions of a node.
\<close>

record session_row =
  sx_id :: string
  sx_run :: string
  sx_node :: string
  sx_attempt :: string
  sx_role :: exec_role
  sx_provider :: string
  sx_session :: string
  sx_version :: string
  sx_status :: session_status
  sx_continuations :: int
  sx_failures :: int
  sx_process :: "int option"
  sx_stdout :: "string option"
  sx_stderr :: "string option"
  sx_outcome :: "exec_outcome option"
  sx_created :: int

record session_policy =
  sp_continuations :: int
  sp_failures :: int

definition default_policy :: session_policy where
  "default_policy = \<lparr>sp_continuations = 2, sp_failures = 2\<rparr>"

definition allows_resume :: "exec_role \<Rightarrow> bool \<Rightarrow> bool" where
  "allows_resume role same_node \<longleftrightarrow> role = XR_Implementer \<and> same_node"

definition should_rotate :: "session_policy \<Rightarrow> session_row \<Rightarrow> bool" where
  "should_rotate p r \<longleftrightarrow> sx_continuations r \<ge> sp_continuations p \<or> sx_failures r \<ge> sp_failures p \<or> sx_role r \<noteq> XR_Implementer"

section \<open>SessionRepository\<close>

record session_db =
  sd_core :: db
  sd_rows :: "session_row list"

text \<open>
  The world: the store, the clock, and what executors work on. Two history variables: the calls of the executor,
  each with the row it resumed, and the sessions with the outcome they were started for.
\<close>

record 'x session_world =
  sw_db :: session_db
  sw_now :: int
  sw_ext :: 'x
  sw_calls :: "(exec_request \<times> session_row option) list"
  sw_made :: "(string \<times> exec_outcome) list"

definition session_tx :: "(int \<Rightarrow> (session_db, 'a) op) \<Rightarrow> ('x session_world, 'a) thread" where
  "session_tx m = atomic (\<lambda>w. case m (sw_now w) (sw_db w) of
     (Inl e, _) \<Rightarrow> (Inl e, w) | (Inr x, d) \<Rightarrow> (Inr x, w\<lparr>sw_db := d\<rparr>))"

definition session_read :: "(session_db \<Rightarrow> py_error + 'a) \<Rightarrow> ('x session_world, 'a) thread" where
  "session_read f = atomic (\<lambda>w. (f (sw_db w), w))"

definition session_event :: "string \<Rightarrow> string \<Rightarrow> string \<Rightarrow> string \<Rightarrow> (string \<times> json) list \<Rightarrow> (session_db, unit) op" where
  "session_event ty run node attempt payload d =
     (let (r, c) = enqueue_event ty run (Some node) (Some attempt) payload (sd_core d) in (r, d\<lparr>sd_core := c\<rparr>))"

definition ensure_run_fixture :: "string \<Rightarrow> py_error + unit" where
  "ensure_run_fixture run = (if run = [] then Inl (ValueError ''run_id must not be empty'') else Inr ())"

definition fresh_session_id :: "('x session_world, string) thread" where
  "fresh_session_id = atomic (\<lambda>w. let d = sw_db w; n = db_uuid (sd_core d) in
     (Inr (''session:'' @ uuid_str n), w\<lparr>sw_db := d\<lparr>sd_core := (sd_core d)\<lparr>db_uuid := Suc n\<rparr>\<rparr>\<rparr>))"

definition provider_key :: "session_row \<Rightarrow> string \<times> string \<times> string" where
  "provider_key r = (sx_provider r, sx_session r, sx_attempt r)"

definition insert_session :: "session_row \<Rightarrow> (session_db, unit) op" where
  "insert_session r d =
     (if sx_id r \<in> sx_id ` set (sd_rows d) then (Inl (IntegrityError ''UNIQUE constraint failed: executor_sessions.session_id''), d)
      else if provider_key r \<in> provider_key ` set (sd_rows d)
      then (Inl (IntegrityError ''UNIQUE constraint failed: executor_sessions.provider''), d)
      else (Inr (), d\<lparr>sd_rows := sd_rows d @ [r]\<rparr>))"

definition new_row :: "string \<Rightarrow> exec_request \<Rightarrow> session_handle \<Rightarrow> int option \<Rightarrow> int \<Rightarrow> int \<Rightarrow> int \<Rightarrow> session_row" where
  "new_row k q h process continuations failures now =
     \<lparr>sx_id = k, sx_run = rq_run q, sx_node = rq_node q, sx_attempt = rq_attempt q, sx_role = rq_role q,
      sx_provider = hd_provider h, sx_session = hd_session h, sx_version = hd_version h, sx_status = SS_Running,
      sx_continuations = continuations, sx_failures = failures, sx_process = process, sx_stdout = None, sx_stderr = None,
      sx_outcome = None, sx_created = now\<rparr>"

definition start_tx :: "string \<Rightarrow> exec_request \<Rightarrow> session_handle \<Rightarrow> int option \<Rightarrow> int \<Rightarrow> int \<Rightarrow> int \<Rightarrow> (session_db, unit) op" where
  "start_tx k q h process continuations failures now =
     seq_op (insert_session (new_row k q h process continuations failures now))
     (session_event ''executor.session.started'' (rq_run q) (rq_node q) (rq_attempt q)
       [(''session_id'', JStr k), (''provider'', JStr (hd_provider h)), (''provider_version'', JStr (hd_version h)),
        (''role'', JStr (xr_value (rq_role q)))])"

definition get_session :: "string \<Rightarrow> ('x session_world, session_row option) thread" where
  "get_session k = session_read (\<lambda>d. Inr (lookup_row sx_id k (sd_rows d)))"

text \<open>\<open>start\<close>; the history notes the outcome the caller holds when the row is there.\<close>

definition note_session :: "string \<Rightarrow> exec_outcome \<Rightarrow> (int \<Rightarrow> (session_db, unit) op) \<Rightarrow> ('x session_world, unit) thread" where
  "note_session k out m = atomic (\<lambda>w. case m (sw_now w) (sw_db w) of
     (Inl e, _) \<Rightarrow> (Inl e, w) | (Inr x, d) \<Rightarrow> (Inr x, w\<lparr>sw_db := d, sw_made := sw_made w @ [(k, out)]\<rparr>))"

definition start_session :: "exec_request \<Rightarrow> exec_outcome \<Rightarrow> int option \<Rightarrow> int \<Rightarrow> int \<Rightarrow> ('x session_world, string) thread" where
  "start_session q out process continuations failures =
     bind_t fresh_session_id (\<lambda>k.
     seq_t (note_session k out (start_tx k q (oc_session out) process continuations failures))
     (bind_t (get_session k) (\<lambda>_. return_t k)))"

text \<open>\<open>ORDER BY created_at DESC, rowid DESC LIMIT 1\<close>, then the row by its id.\<close>

definition newest :: "session_row list \<Rightarrow> session_row option" where
  "newest rs = (if rs = [] then None else Some (last (order_by sx_created rs)))"

definition latest_session :: "string \<Rightarrow> string \<Rightarrow> ('x session_world, session_row option) thread" where
  "latest_session run node =
     bind_t (session_read (\<lambda>d. Inr (newest (filter (\<lambda>r. sx_run r = run \<and> sx_node r = node) (sd_rows d))))) (\<lambda>found.
     case found of None \<Rightarrow> return_t None | Some r \<Rightarrow> get_session (sx_id r))"

text \<open>
  Reading an outcome builds its models again, with their validators. Of completed sessions of the same moment, whose
  order the query leaves open, the model takes the last row.
\<close>

definition load_outcome :: "exec_outcome \<Rightarrow> py_error + exec_outcome" where
  "load_outcome x =
     bind_sum (construct validate_exec_result (oc_result x)) (\<lambda>_.
     bind_sum (construct validate_artifact (oc_stdout x)) (\<lambda>_.
     bind_sum (case oc_stderr x of None \<Rightarrow> Inr () | Some a \<Rightarrow> validate_artifact a) (\<lambda>_. Inr x)))"

definition completed_of :: "string \<Rightarrow> string \<Rightarrow> session_row \<Rightarrow> bool" where
  "completed_of run attempt r \<longleftrightarrow> sx_run r = run \<and> sx_attempt r = attempt \<and> sx_status r = SS_Completed"

definition completed_outcome :: "string \<Rightarrow> string \<Rightarrow> session_db \<Rightarrow> py_error + exec_outcome option" where
  "completed_outcome run attempt d = (case newest (filter (completed_of run attempt) (sd_rows d)) of
     None \<Rightarrow> Inr None
   | Some r \<Rightarrow> (case sx_outcome r of None \<Rightarrow> Inr None | Some x \<Rightarrow> bind_sum (load_outcome x) (\<lambda>y. Inr (Some y))))"

definition change_sessions :: "string \<Rightarrow> (session_row \<Rightarrow> session_row) \<Rightarrow> session_db \<Rightarrow> session_db" where
  "change_sessions k f d = d\<lparr>sd_rows := update_where (\<lambda>r. sx_id r = k) f (sd_rows d)\<rparr>"

text \<open>An update that must meet its row: \<open>_increment\<close> for both counters, and \<open>_set_status\<close>.\<close>

definition change_one :: "string \<Rightarrow> (session_row \<Rightarrow> session_row) \<Rightarrow> (session_db, unit) op" where
  "change_one k f d = (if length (filter (\<lambda>r. sx_id r = k) (sd_rows d)) \<noteq> 1 then (Inl (KeyError k), d)
     else (Inr (), change_sessions k f d))"

definition record_continuation :: "string \<Rightarrow> (session_db, unit) op" where
  "record_continuation k = change_one k (\<lambda>r. r\<lparr>sx_continuations := sx_continuations r + 1\<rparr>)"

definition record_failure :: "string \<Rightarrow> (session_db, unit) op" where
  "record_failure k = change_one k (\<lambda>r. r\<lparr>sx_failures := sx_failures r + 1\<rparr>)"

definition set_session_status :: "session_status \<Rightarrow> string \<Rightarrow> (session_db, unit) op" where
  "set_session_status s k = change_one k (\<lambda>r. r\<lparr>sx_status := s\<rparr>)"

definition request_cancel :: "string \<Rightarrow> (session_db, unit) op" where
  "request_cancel = set_session_status SS_CancelRequested"

definition settle_cancel :: "bool \<Rightarrow> string \<Rightarrow> (session_db, unit) op" where
  "settle_cancel terminated = set_session_status (if terminated then SS_Cancelled else SS_Quiescing)"

definition rotate_session :: "string \<Rightarrow> (session_db, unit) op" where
  "rotate_session = set_session_status SS_Rotated"

text \<open>\<open>complete\<close> does not ask whether there is such a row.\<close>

definition completed_with :: "string option \<Rightarrow> string option \<Rightarrow> exec_outcome option \<Rightarrow> session_row \<Rightarrow> session_row" where
  "completed_with out err x r = r\<lparr>sx_status := SS_Completed, sx_stdout := out, sx_stderr := err, sx_outcome := x\<rparr>"

definition complete_session :: "string \<Rightarrow> string option \<Rightarrow> string option \<Rightarrow> exec_outcome option \<Rightarrow> (session_db, unit) op" where
  "complete_session k out err x = modify (change_sessions k (completed_with out err x))"

section \<open>DurableExecutorRuntime\<close>

text \<open>
  The provider behind \<open>ExecutorProtocol\<close>, any functions on what it works on. An outcome that the models of its
  parts refuse cannot be built: the call raises instead.
\<close>

record 'x provider =
  pv_start :: "exec_request \<Rightarrow> ('x, exec_outcome) op"
  pv_review :: "exec_request \<Rightarrow> ('x, exec_outcome) op"
  pv_resume :: "session_handle \<Rightarrow> exec_request \<Rightarrow> ('x, exec_outcome) op"
  pv_cancel :: "session_handle \<Rightarrow> ('x, bool) op"

definition handle_of :: "session_row \<Rightarrow> session_handle" where
  "handle_of r = \<lparr>hd_provider = sx_provider r, hd_session = sx_session r, hd_version = sx_version r\<rparr>"

definition call_provider :: "exec_request \<Rightarrow> session_row option \<Rightarrow> ('x, exec_outcome) op \<Rightarrow> ('x session_world, exec_outcome) thread" where
  "call_provider q resumed m = atomic (\<lambda>w. case m (sw_ext w) of
     (r, x) \<Rightarrow> (bind_sum r load_outcome, w\<lparr>sw_ext := x, sw_calls := sw_calls w @ [(q, resumed)]\<rparr>))"

definition barrier_error :: py_error where
  "barrier_error = NamedError ''ExecutionBarrierError'' ''persisted Run barrier forbids a new Executor Session''"

definition run_is_open :: "string \<Rightarrow> session_db \<Rightarrow> bool" where
  "run_is_open run d = (case find (\<lambda>r. rn_id r = run) (db_runs (sd_core d)) of
     None \<Rightarrow> True | Some r \<Rightarrow> rn_barrier r = None \<and> rn_status r = RS_Running)"

definition check_barrier :: "string \<Rightarrow> ('x session_world, unit) thread" where
  "check_barrier run = session_read (\<lambda>d. if run_is_open run d then Inr () else Inl barrier_error)"

definition resumable :: "session_policy \<Rightarrow> exec_request \<Rightarrow> session_row option \<Rightarrow> session_row option" where
  "resumable p q latest = (case latest of None \<Rightarrow> None
     | Some r \<Rightarrow> if allows_resume (rq_role q) True \<and> \<not> should_rotate p r then Some r else None)"

definition retire :: "session_policy \<Rightarrow> session_row option \<Rightarrow> ('x session_world, unit) thread" where
  "retire p latest = (case latest of None \<Rightarrow> return_t ()
     | Some r \<Rightarrow> if should_rotate p r then session_tx (\<lambda>_. rotate_session (sx_id r)) else return_t ())"

definition invoke_session :: "'x provider \<Rightarrow> session_policy \<Rightarrow> exec_request \<Rightarrow> session_row option \<Rightarrow> ('x session_world, exec_outcome) thread" where
  "invoke_session E p q latest = (case resumable p q latest of
     Some r \<Rightarrow> call_provider q (Some r) (pv_resume E (handle_of r) q)
   | None \<Rightarrow> seq_t (retire p latest)
       (call_provider q None (if rq_role q = XR_Reviewer then pv_review E q else pv_start E q)))"

text \<open>The counters the new session inherits.\<close>

definition inherited :: "session_policy \<Rightarrow> exec_request \<Rightarrow> session_row option \<Rightarrow> int \<times> int" where
  "inherited p q latest = (case resumable p q latest of
     Some r \<Rightarrow> (sx_continuations r + 1, sx_failures r) | None \<Rightarrow> (0, 0))"

definition unsuccessful :: "exec_outcome \<Rightarrow> bool" where
  "unsuccessful x \<longleftrightarrow> xr_status (oc_result x) \<in> {ES_Failed, ES_Error}"

definition record_outcome :: "session_policy \<Rightarrow> exec_request \<Rightarrow> session_row option \<Rightarrow> exec_outcome \<Rightarrow>
    ('x session_world, exec_outcome) thread" where
  "record_outcome p q latest x =
     bind_t (start_session q x None (fst (inherited p q latest)) (snd (inherited p q latest))) (\<lambda>k.
     seq_t (if unsuccessful x then session_tx (\<lambda>_. record_failure k) else return_t ())
     (seq_t (session_tx (\<lambda>_. complete_session k (Some (ar_id (oc_stdout x)))
       (map_option ar_id (oc_stderr x)) (Some x))) (return_t x)))"

definition execute_session :: "'x provider \<Rightarrow> session_policy \<Rightarrow> exec_request \<Rightarrow> ('x session_world, exec_outcome) thread" where
  "execute_session E p q =
     bind_t (session_read (completed_outcome (rq_run q) (rq_attempt q))) (\<lambda>persisted.
     case persisted of
       Some x \<Rightarrow> return_t x
     | None \<Rightarrow>
         seq_t (check_barrier (rq_run q))
         (bind_t (latest_session (rq_run q) (rq_node q)) (\<lambda>latest.
          bind_t (invoke_session E p q latest) (record_outcome p q latest))))"

definition stop_provider :: "('x, bool) op \<Rightarrow> ('x session_world, bool) thread" where
  "stop_provider m = atomic (\<lambda>w. case m (sw_ext w) of (r, x) \<Rightarrow> (r, w\<lparr>sw_ext := x\<rparr>))"

definition cancel_session :: "'x provider \<Rightarrow> string \<Rightarrow> string \<Rightarrow> ('x session_world, bool) thread" where
  "cancel_session E run node =
     bind_t (latest_session run node) (\<lambda>latest. case latest of
       None \<Rightarrow> return_t True
     | Some r \<Rightarrow>
         seq_t (session_tx (\<lambda>_. request_cancel (sx_id r)))
         (bind_t (stop_provider (pv_cancel E (handle_of r))) (\<lambda>terminated.
          seq_t (session_tx (\<lambda>_. settle_cancel terminated (sx_id r))) (return_t terminated))))"

end
