(* ===== verification/Session_Laws.thy ===== *)
theory Session_Laws
  imports Sessions Rely
begin

text \<open>
  Executions and cancellations of one store at the same time, with any provider: what was returned stays recorded,
  and sessions are resumed within the policy. An execution alone: an attempt that has completed is not executed again.
\<close>

section \<open>What stays\<close>

definition same_session :: "session_row \<Rightarrow> session_row \<Rightarrow> bool" where
  "same_session r r' \<longleftrightarrow> sx_id r' = sx_id r \<and> sx_run r' = sx_run r \<and> sx_node r' = sx_node r \<and> sx_attempt r' = sx_attempt r \<and>
     sx_role r' = sx_role r \<and> handle_of r' = handle_of r \<and> sx_continuations r' = sx_continuations r \<and>
     (\<forall>x. sx_outcome r = Some x \<longrightarrow> sx_outcome r' = Some x)"

lemma same_session_refl [simp]: "same_session r r"
  by (simp add: same_session_def)

lemma same_session_trans: "same_session r s \<Longrightarrow> same_session s t \<Longrightarrow> same_session r t"
  by (simp add: same_session_def)

definition rows_stay :: "session_row list \<Rightarrow> session_row list \<Rightarrow> bool" where
  "rows_stay rs rs' \<longleftrightarrow> (\<forall>r \<in> set rs. \<exists>r' \<in> set rs'. same_session r r')"

lemma rows_stay_refl [simp]: "rows_stay rs rs"
  by (auto simp: rows_stay_def intro: same_session_refl)

lemma rows_stay_trans: "rows_stay a b \<Longrightarrow> rows_stay b c \<Longrightarrow> rows_stay a c"
  unfolding rows_stay_def by (meson same_session_trans)

abbreviation rows_of :: "'x session_world \<Rightarrow> session_row list" where
  "rows_of w \<equiv> sd_rows (sw_db w)"

definition sessions_stay :: "'x session_world \<Rightarrow> 'x session_world \<Rightarrow> bool" where
  "sessions_stay w w' \<longleftrightarrow> rows_stay (rows_of w) (rows_of w') \<and> set (sw_made w) \<subseteq> set (sw_made w')"

definition loadable :: "exec_outcome \<Rightarrow> bool" where
  "loadable x \<longleftrightarrow> load_outcome x = Inr x"

definition row_within :: "session_policy \<Rightarrow> (string \<times> exec_outcome) list \<Rightarrow> session_row \<Rightarrow> bool" where
  "row_within p made r \<longleftrightarrow> 0 \<le> sx_continuations r \<and> sx_continuations r \<le> max 0 (sp_continuations p) \<and>
     (\<forall>x. sx_outcome r = Some x \<longrightarrow> (sx_id r, x) \<in> set made) \<and> (sx_status r = SS_Completed \<longrightarrow> sx_outcome r \<noteq> None)"

definition call_within :: "session_policy \<Rightarrow> exec_request \<times> session_row option \<Rightarrow> bool" where
  "call_within p c \<longleftrightarrow> (case c of (q, None) \<Rightarrow> True
     | (q, Some r) \<Rightarrow> rq_role q = XR_Implementer \<and> sx_role r = XR_Implementer \<and> sx_run r = rq_run q \<and> sx_node r = rq_node q \<and>
         0 \<le> sx_continuations r \<and> sx_continuations r < sp_continuations p \<and> sx_failures r < sp_failures p)"

definition sessions_sound :: "session_policy \<Rightarrow> 'x session_world \<Rightarrow> bool" where
  "sessions_sound p w \<longleftrightarrow> distinct (map sx_id (rows_of w)) \<and> (\<forall>r \<in> set (rows_of w). row_within p (sw_made w) r) \<and>
     distinct (map fst (sw_made w)) \<and> (\<forall>(k, x) \<in> set (sw_made w). k \<in> sx_id ` set (rows_of w)) \<and>
     (\<forall>c \<in> set (sw_calls w). call_within p c)"

interpretation sessions: rely_guarantee sessions_stay "sessions_sound p" for p
  by unfold_locales (auto simp: sessions_stay_def intro: rows_stay_trans)

section \<open>Steps\<close>

lemma session_tx_secure:
  assumes "\<And>t x d. sessions_stay w t \<Longrightarrow> sessions_sound p t \<Longrightarrow> m (sw_now t) (sw_db t) = (Inr x, d) \<Longrightarrow>
    sessions_sound p (t\<lparr>sw_db := d\<rparr>) \<and> rows_stay (rows_of t) (sd_rows d) \<and> Q x (t\<lparr>sw_db := d\<rparr>)"
  shows "sessions.holds p Q w (session_tx m)"
  unfolding session_tx_def
proof (rule sessions.atomic_op)
  fix t r u assume t: "sessions_stay w t" "sessions_sound p t"
    and m: "(case m (sw_now t) (sw_db t) of (Inl e, _) \<Rightarrow> (Inl e, t) | (Inr x, d) \<Rightarrow> (Inr x, t\<lparr>sw_db := d\<rparr>)) = (r, u)"
  show "sessions_sound p u \<and> sessions_stay t u \<and> (\<forall>x. r = Inr x \<longrightarrow> Q x u)"
  proof (cases r)
    case (Inl e)
    then have "u = t" using m by (auto split: prod.splits sum.splits)
    with t Inl show ?thesis by (simp add: sessions_stay_def)
  next
    case (Inr x)
    then obtain d where "m (sw_now t) (sw_db t) = (Inr x, d)" "u = t\<lparr>sw_db := d\<rparr>" using m by (auto split: prod.splits sum.splits)
    with assms [OF t this(1)] Inr show ?thesis by (simp add: sessions_stay_def)
  qed
qed

lemma session_read_secure:
  assumes "\<And>t x. sessions_stay w t \<Longrightarrow> sessions_sound p t \<Longrightarrow> f (sw_db t) = Inr x \<Longrightarrow> Q x t"
  shows "sessions.holds p Q w (session_read f)"
  unfolding session_read_def by (rule sessions.atomic_op) (use assms in \<open>auto simp: sessions.rely_refl\<close>)

lemma core_keeps [simp]:
  "sessions_sound p (w\<lparr>sw_db := (sw_db w)\<lparr>sd_core := c\<rparr>\<rparr>) = sessions_sound p w"
  "sessions_sound p (w\<lparr>sw_ext := x\<rparr>) = sessions_sound p w"
  "sessions_sound p (w\<lparr>sw_now := n\<rparr>) = sessions_sound p w"
  by (simp_all add: sessions_sound_def)

lemma fresh_secure: "sessions.holds p (\<lambda>_ _. True) w fresh_session_id"
  unfolding fresh_session_id_def by (rule sessions.atomic_op) (auto simp: Let_def sessions_stay_def)

lemma rows_stay_update:
  assumes "\<And>r. r \<in> set rs \<Longrightarrow> P r \<Longrightarrow> same_session r (f r)"
  shows "rows_stay rs (update_where P f rs)"
  unfolding rows_stay_def set_update_where
proof
  fix r assume r: "r \<in> set rs"
  show "\<exists>r' \<in> f ` {r \<in> set rs. P r} \<union> {r \<in> set rs. \<not> P r}. same_session r r'"
  proof (cases "P r")
    case True
    with r assms show ?thesis by blast
  next
    case False
    with r show ?thesis by (intro bexI [of _ r]) auto
  qed
qed

text \<open>Updates that leave identity, counter of continuations and outcome alone.\<close>

lemma change_sound:
  assumes "sessions_sound p w" and "\<And>r. same_session r (f r)"
    and "\<And>r x. r \<in> set (rows_of w) \<Longrightarrow> sx_id r = k \<Longrightarrow> sx_outcome (f r) = Some x \<Longrightarrow> (k, x) \<in> set (sw_made w)"
    and "\<And>r. r \<in> set (rows_of w) \<Longrightarrow> sx_status (f r) = SS_Completed \<Longrightarrow> sx_outcome (f r) \<noteq> None"
  shows "sessions_sound p (w\<lparr>sw_db := change_sessions k f (sw_db w)\<rparr>)"
proof -
  have ids: "map sx_id (update_where (\<lambda>r. sx_id r = k) f (rows_of w)) = map sx_id (rows_of w)"
    by (rule map_update_where) (use assms(2) in \<open>simp add: same_session_def\<close>)
  have "row_within p (sw_made w) r" if r: "r \<in> set (update_where (\<lambda>r. sx_id r = k) f (rows_of w))" for r
  proof (cases "r \<in> set (rows_of w)")
    case True
    with assms(1) show ?thesis by (simp add: sessions_sound_def)
  next
    case False
    then obtain q where q: "q \<in> set (rows_of w)" "sx_id q = k" "r = f q" using r by (auto simp: set_update_where)
    have "row_within p (sw_made w) q" using assms(1) q(1) by (simp add: sessions_sound_def)
    with assms(2) [of q] assms(3) [OF q(1,2)] assms(4) [OF q(1)] q show ?thesis by (auto simp: row_within_def same_session_def)
  qed
  moreover have "sx_id ` set (update_where (\<lambda>r. sx_id r = k) f (rows_of w)) = sx_id ` set (rows_of w)"
    using ids by (metis list.set_map)
  ultimately show ?thesis using assms(1) ids by (simp add: sessions_sound_def change_sessions_def)
qed

lemma change_one_secure:
  assumes "\<And>r. same_session r (f r)" and "\<And>r. sx_outcome (f r) = sx_outcome r"
    and "\<And>r. sx_status (f r) = SS_Completed \<Longrightarrow> sx_status r = SS_Completed"
  shows "sessions.holds p (\<lambda>_ _. True) w (session_tx (\<lambda>_. change_one k f))"
proof (rule session_tx_secure)
  fix t x d assume t: "sessions_sound p t" "change_one k f (sw_db t) = (Inr x, d)"
  then have d: "d = change_sessions k f (sw_db t)" by (auto simp: change_one_def split: if_splits)
  have "sessions_sound p (t\<lparr>sw_db := d\<rparr>)" unfolding d
    by (rule change_sound [OF t(1) assms(1)]) (use t(1) assms(2,3) in \<open>auto simp: sessions_sound_def row_within_def\<close>)
  then show "sessions_sound p (t\<lparr>sw_db := d\<rparr>) \<and> rows_stay (rows_of t) (sd_rows d) \<and> True"
    by (simp add: d change_sessions_def rows_stay_update assms(1))
qed

lemma status_secure:
  "s \<noteq> SS_Completed \<Longrightarrow> sessions.holds p (\<lambda>_ _. True) w (session_tx (\<lambda>_. set_session_status s k))"
  unfolding set_session_status_def by (rule change_one_secure) (simp_all add: same_session_def handle_of_def)

lemma failure_secure: "sessions.holds p (\<lambda>_ _. True) w (session_tx (\<lambda>_. record_failure k))"
  unfolding record_failure_def by (rule change_one_secure) (simp_all add: same_session_def handle_of_def)

text \<open>A session is completed with the outcome it was started for.\<close>

definition owned :: "string \<Rightarrow> exec_request \<Rightarrow> 'x session_world \<Rightarrow> bool" where
  "owned k q w \<longleftrightarrow> (\<exists>r \<in> set (rows_of w). sx_id r = k \<and> sx_run r = rq_run q \<and> sx_attempt r = rq_attempt q)"

definition outcome_kept :: "exec_request \<Rightarrow> exec_outcome \<Rightarrow> 'x session_world \<Rightarrow> bool" where
  "outcome_kept q x w \<longleftrightarrow> (\<exists>r \<in> set (rows_of w). sx_run r = rq_run q \<and> sx_attempt r = rq_attempt q \<and> sx_outcome r = Some x)"

lemma kept_stable:
  "sessions_stay w t \<Longrightarrow> owned k q w \<Longrightarrow> owned k q t"
  "sessions_stay w t \<Longrightarrow> outcome_kept q x w \<Longrightarrow> outcome_kept q x t"
  by (fastforce simp: sessions_stay_def rows_stay_def same_session_def owned_def outcome_kept_def)+

lemma complete_secure:
  assumes "(k, x) \<in> set (sw_made w)" and "owned k q w"
  shows "sessions.holds p (\<lambda>_. outcome_kept q x) w
    (session_tx (\<lambda>_. complete_session k out err (Some x)))"
proof (rule session_tx_secure)
  fix t u d assume t: "sessions_stay w t" "sessions_sound p t" "complete_session k out err (Some x) (sw_db t) = (Inr u, d)"
  let ?f = "completed_with out err (Some x)"
  have d: "d = change_sessions k ?f (sw_db t)" using t(3) by (simp add: complete_session_def modify_def)
  have made: "(k, x) \<in> set (sw_made t)" using t(1) assms by (auto simp: sessions_stay_def)
  have only: "sx_outcome r = Some y \<Longrightarrow> y = x" if "r \<in> set (rows_of t)" "sx_id r = k" for r y
  proof -
    assume "sx_outcome r = Some y"
    then have "(k, y) \<in> set (sw_made t)" using t(2) that by (auto simp: sessions_sound_def row_within_def)
    with made t(2) show "y = x" by (auto simp: sessions_sound_def dest: eq_key_imp_eq_value)
  qed
  have same: "same_session r (?f r)" if "r \<in> set (rows_of t)" "sx_id r = k" for r
    using only [OF that] by (simp add: same_session_def completed_with_def handle_of_def)
  have ended: "\<exists>y. sx_outcome r = Some y" if "r \<in> set (rows_of t)" "sx_status r = SS_Completed" for r
    using t(2) that by (auto simp: sessions_sound_def row_within_def)
  let ?g = "\<lambda>r. if r \<in> set (rows_of t) \<and> sx_id r = k then ?f r else r"
  have g: "change_sessions k ?f (sw_db t) = change_sessions k ?g (sw_db t)"
    by (simp add: change_sessions_def update_where_def)
  have "sessions_sound p (t\<lparr>sw_db := change_sessions k ?g (sw_db t)\<rparr>)"
    by (rule change_sound [OF t(2)]) (use same made ended in \<open>auto simp: completed_with_def split: if_splits\<close>)
  moreover have "rows_stay (rows_of t) (sd_rows d)"
    unfolding d by (simp add: change_sessions_def, rule rows_stay_update) (use same in auto)
  moreover obtain r where "r \<in> set (rows_of t)" "sx_id r = k" "sx_run r = rq_run q" "sx_attempt r = rq_attempt q"
    using kept_stable(1) [OF t(1) assms(2)] by (auto simp: owned_def)
  then have "?f r \<in> set (sd_rows d) \<and> sx_run (?f r) = rq_run q \<and> sx_attempt (?f r) = rq_attempt q \<and> sx_outcome (?f r) = Some x"
    by (auto simp: d change_sessions_def set_update_where completed_with_def)
  then have "outcome_kept q x (t\<lparr>sw_db := d\<rparr>)" by (auto simp: outcome_kept_def)
  ultimately show "sessions_sound p (t\<lparr>sw_db := d\<rparr>) \<and> rows_stay (rows_of t) (sd_rows d) \<and> outcome_kept q x (t\<lparr>sw_db := d\<rparr>)"
    by (simp add: d g)
qed

lemma note_secure:
  assumes "0 \<le> c" and "c \<le> max 0 (sp_continuations p)"
  shows "sessions.holds p (\<lambda>_ t. (k, x) \<in> set (sw_made t) \<and> owned k q t) w (note_session k x (start_tx k q h process c f))"
  unfolding note_session_def
proof (rule sessions.atomic_op)
  fix t r u assume t: "sessions_stay w t" "sessions_sound p t"
    and m: "(case start_tx k q h process c f (sw_now t) (sw_db t) of (Inl e, _) \<Rightarrow> (Inl e, t)
      | (Inr y, d) \<Rightarrow> (Inr y, t\<lparr>sw_db := d, sw_made := sw_made t @ [(k, x)]\<rparr>)) = (r, u)"
  show "sessions_sound p u \<and> sessions_stay t u \<and> (\<forall>y. r = Inr y \<longrightarrow> (k, x) \<in> set (sw_made u) \<and> owned k q u)"
  proof (cases r)
    case (Inl e)
    then have "u = t" using m by (auto split: prod.splits sum.splits)
    with t Inl show ?thesis by (simp add: sessions_stay_def)
  next
    case (Inr y)
    let ?r = "new_row k q h process c f (sw_now t)"
    obtain d where d: "start_tx k q h process c f (sw_now t) (sw_db t) = (Inr y, d)"
      "u = t\<lparr>sw_db := d, sw_made := sw_made t @ [(k, x)]\<rparr>"
      using m Inr by (auto split: prod.splits sum.splits)
    have new: "sd_rows d = rows_of t @ [?r]" "k \<notin> sx_id ` set (rows_of t)"
      using d(1) by (auto simp: start_tx_def insert_session_def session_event_def enqueue_event_def modify_def new_row_def
          elim!: seq_op_InrE split: if_splits)
    have "k \<notin> fst ` set (sw_made t)" using new(2) t(2) by (auto simp: sessions_sound_def)
    then have "sessions_sound p u"
      using t(2) assms new d(2) by (auto simp: sessions_sound_def row_within_def new_row_def)
    moreover have "sessions_stay t u"
      using new(1) d(2) by (auto simp: sessions_stay_def rows_stay_def intro: same_session_refl)
    ultimately show ?thesis using new(1) d(2) by (auto simp: owned_def new_row_def)
  qed
qed

section \<open>Executions and cancellations\<close>

lemma session_start_secure:
  assumes "0 \<le> c" and "c \<le> max 0 (sp_continuations p)"
  shows "sessions.holds p (\<lambda>k t. (k, x) \<in> set (sw_made t) \<and> owned k q t) w (start_session q x process c f)"
  unfolding start_session_def
proof (rule sessions.bind [OF fresh_secure], rule sessions.seq [OF note_secure [OF assms]], rule sessions.bind)
  fix k :: string and v :: "'a session_world" assume v: "(k, x) \<in> set (sw_made v) \<and> owned k q v"
  show "sessions.holds p (\<lambda>_ u. (k, x) \<in> set (sw_made u) \<and> owned k q u) v (get_session k)"
    unfolding get_session_def
    by (rule session_read_secure) (use v kept_stable(1) in \<open>auto simp: sessions_stay_def\<close>)
qed (rule sessions.simple_threads)

lemma session_record_secure:
  assumes "\<And>r. resumable p q latest = Some r \<Longrightarrow> 0 \<le> sx_continuations r"
  shows "sessions.holds p (\<lambda>y. outcome_kept q y) w (record_outcome p q latest x)"
proof -
  have "0 \<le> fst (inherited p q latest)" "fst (inherited p q latest) \<le> max 0 (sp_continuations p)"
    using assms by (auto simp: inherited_def resumable_def should_rotate_def split: option.splits if_splits)
  note start = session_start_secure [OF this]
  show ?thesis unfolding record_outcome_def
  proof (rule sessions.bind [OF start], rule sessions.seq)
    fix k :: string and t :: "'a session_world" assume t: "(k, x) \<in> set (sw_made t) \<and> owned k q t"
    show "sessions.holds p (\<lambda>_ _. True) t (if unsuccessful x then session_tx (\<lambda>_. record_failure k) else return_t ())"
      by (simp add: failure_secure sessions.simple_threads)
    fix y :: unit and v assume v: "sessions_stay t v"
    have "(k, x) \<in> set (sw_made v)" "owned k q v" using t v kept_stable(1) by (auto simp: sessions_stay_def)
    note complete = complete_secure [OF this]
    show "sessions.holds p (\<lambda>y. outcome_kept q y) v (seq_t (session_tx (\<lambda>_. complete_session k (Some (ar_id (oc_stdout x)))
       (map_option ar_id (oc_stderr x)) (Some x))) (return_t x))"
      by (rule sessions.seq [OF complete]) (rule sessions.simple_threads)
  qed
qed

text \<open>The newest row of the node is looked up by its id; it is a row of this run and node.\<close>

definition node_row_of :: "string \<Rightarrow> string \<Rightarrow> session_row \<Rightarrow> bool" where
  "node_row_of run node r \<longleftrightarrow> sx_run r = run \<and> sx_node r = node \<and> 0 \<le> sx_continuations r"

lemma newest_in: "newest rs = Some r \<Longrightarrow> r \<in> set rs"
  by (auto simp: newest_def split: if_splits) (metis last_in_set order_by_eq_Nil set_order_by)

lemma newest_filter: "newest (filter P rs) = Some r \<Longrightarrow> r \<in> set rs \<and> P r"
  by (auto dest: newest_in)

lemma latest_secure:
  "sessions.holds p (\<lambda>found _. \<forall>r. found = Some r \<longrightarrow> node_row_of run node r) w (latest_session run node)"
  unfolding latest_session_def
proof (rule sessions.bind)
  let ?Q = "\<lambda>found t. \<forall>r. found = Some r \<longrightarrow> (\<exists>q \<in> set (rows_of t). sx_id q = sx_id r \<and> sx_run q = run \<and> sx_node q = node)"
  show "sessions.holds p ?Q w
      (session_read (\<lambda>d. Inr (newest (filter (\<lambda>r. sx_run r = run \<and> sx_node r = node) (sd_rows d)))))"
    by (rule session_read_secure) (auto dest!: newest_filter)
  fix found and t :: "'a session_world" assume found: "?Q found t"
  show "sessions.holds p (\<lambda>found _. \<forall>r. found = Some r \<longrightarrow> node_row_of run node r) t
      (case found of None \<Rightarrow> return_t None | Some r \<Rightarrow> get_session (sx_id r))"
  proof (cases found)
    case None
    then show ?thesis by (simp add: sessions.simple_threads)
  next
    case (Some r)
    then obtain q where q: "q \<in> set (rows_of t)" "sx_id q = sx_id r" "sx_run q = run" "sx_node q = node" using found by blast
    show ?thesis unfolding Some option.case get_session_def
    proof (rule session_read_secure, intro allI impI)
      fix u x s assume u: "sessions_stay t u" "sessions_sound p u" "Inr (lookup_row sx_id (sx_id r) (rows_of u)) = Inr x" "x = Some s"
      from u(3,4) have s: "s \<in> set (rows_of u)" "sx_id s = sx_id r" by (auto simp: lookup_row_def dest: find_SomeD)
      obtain q' where q': "q' \<in> set (rows_of u)" "same_session q q'" using u(1) q(1) by (auto simp: sessions_stay_def rows_stay_def)
      have "q' = s" using u(2) s q(2) q' by (auto simp: sessions_sound_def same_session_def intro: distinct_key_eq)
      with q q' s u(2) show "node_row_of run node s"
        by (auto simp: node_row_of_def same_session_def sessions_sound_def row_within_def)
    qed
  qed
qed

lemma provider_secure:
  assumes "call_within p (q, resumed)"
  shows "sessions.holds p (\<lambda>_ _. True) w (call_provider q resumed m)"
  unfolding call_provider_def
  by (rule sessions.atomic_op) (use assms in \<open>auto simp: sessions_sound_def sessions_stay_def split: prod.splits\<close>)

lemma invoke_secure:
  assumes "\<forall>r. latest = Some r \<longrightarrow> node_row_of (rq_run q) (rq_node q) r"
  shows "sessions.holds p (\<lambda>_ _. True) w (invoke_session E p q latest)"
proof (cases "resumable p q latest")
  case None
  have retire: "sessions.holds p (\<lambda>_ _. True) w (retire p latest)"
    by (cases latest) (simp_all add: retire_def rotate_session_def status_secure sessions.simple_threads)
  show ?thesis unfolding invoke_session_def None option.case
    by (rule sessions.seq [OF retire]) (rule provider_secure, simp add: call_within_def)
next
  case (Some r)
  then have "call_within p (q, Some r)"
    using assms by (auto simp: resumable_def allows_resume_def should_rotate_def call_within_def node_row_of_def split: option.splits if_splits)
  with Some show ?thesis by (simp add: invoke_session_def provider_secure)
qed

lemma execute_secure:
  fixes w :: "'a session_world"
  shows "sessions.holds p (outcome_kept q) w (execute_session E p q)"
  unfolding execute_session_def
proof (rule sessions.bind)
  let ?Q = "\<lambda>found t. \<forall>x. found = Some x \<longrightarrow> outcome_kept q x t"
  show "sessions.holds p ?Q w (session_read (completed_outcome (rq_run q) (rq_attempt q)))"
  proof (rule session_read_secure, intro allI impI)
    fix t :: "'a session_world" and found x assume "completed_outcome (rq_run q) (rq_attempt q) (sw_db t) = Inr found" "found = Some x"
    then obtain r where "newest (filter (completed_of (rq_run q) (rq_attempt q)) (rows_of t)) = Some r" "sx_outcome r = Some x"
      by (auto simp: completed_outcome_def load_outcome_def bind_sum_Inr split: option.splits)
    then show "outcome_kept q x t" by (auto simp: outcome_kept_def completed_of_def dest!: newest_filter)
  qed
  fix found and t :: "'a session_world" assume found: "?Q found t"
  show "sessions.holds p (outcome_kept q) t (case found of Some x \<Rightarrow> return_t x | None \<Rightarrow>
         seq_t (check_barrier (rq_run q)) (bind_t (latest_session (rq_run q) (rq_node q)) (\<lambda>latest.
          bind_t (invoke_session E p q latest) (record_outcome p q latest))))"
  proof (cases found)
    case (Some x)
    then show ?thesis using found by (simp add: sessions.simple_threads)
  next
    case None
    have barrier: "sessions.holds p (\<lambda>_ _. True) t (check_barrier (rq_run q))"
      unfolding check_barrier_def by (rule session_read_secure) simp
    show ?thesis unfolding None option.case
    proof (rule sessions.seq [OF barrier], rule sessions.bind [OF latest_secure])
      fix latest and u :: "'a session_world" assume latest: "\<forall>r. latest = Some r \<longrightarrow> node_row_of (rq_run q) (rq_node q) r"
      then have "0 \<le> sx_continuations r" if "resumable p q latest = Some r" for r
        using that by (auto simp: resumable_def node_row_of_def split: option.splits if_splits)
      then show "sessions.holds p (outcome_kept q) u (bind_t (invoke_session E p q latest) (record_outcome p q latest))"
        by (intro sessions.bind [OF invoke_secure [OF latest]] session_record_secure)
    qed
  qed
qed

lemma cancel_secure: "sessions.holds p (\<lambda>_ _. True) w (cancel_session E run node)"
  unfolding cancel_session_def
proof (rule sessions.bind [OF latest_secure])
  fix latest and t :: "'a session_world"
  show "sessions.holds p (\<lambda>_ _. True) t (case latest of None \<Rightarrow> return_t True
     | Some r \<Rightarrow> seq_t (session_tx (\<lambda>_. request_cancel (sx_id r)))
         (bind_t (stop_provider (pv_cancel E (handle_of r))) (\<lambda>terminated.
          seq_t (session_tx (\<lambda>_. settle_cancel terminated (sx_id r))) (return_t terminated))))"
  proof (cases latest)
    case (Some r)
    have stop: "sessions.holds p (\<lambda>_ _. True) u (stop_provider m)" for u :: "'a session_world" and m
      unfolding stop_provider_def by (rule sessions.atomic_op) (auto simp: sessions_stay_def split: prod.splits)
    show ?thesis unfolding Some option.case request_cancel_def settle_cancel_def
      by (intro sessions.seq [OF status_secure] sessions.bind [OF stop] sessions.simple_threads) simp_all
  qed (simp add: sessions.simple_threads)
qed

section \<open>An execution alone\<close>

lemmas run_session_defs = session_tx_def session_read_def fresh_session_id_def note_session_def get_session_def
  call_provider_def op_defs

lemma absent_row: "k \<notin> sx_id ` set rs \<Longrightarrow> update_where (\<lambda>r. sx_id r = k) f rs = rs"
  by (induction rs) auto

text \<open>The one row that recording an outcome adds.\<close>

definition row_made :: "session_policy \<Rightarrow> exec_request \<Rightarrow> session_row option \<Rightarrow> exec_outcome \<Rightarrow> session_row \<Rightarrow> bool" where
  "row_made p q latest x r \<longleftrightarrow> sx_run r = rq_run q \<and> sx_node r = rq_node q \<and> sx_attempt r = rq_attempt q \<and> sx_role r = rq_role q \<and>
     handle_of r = oc_session x \<and> sx_status r = SS_Completed \<and> sx_outcome r = Some x \<and>
     sx_continuations r = fst (inherited p q latest) \<and>
     sx_failures r = snd (inherited p q latest) + (if unsuccessful x then 1 else 0)"

lemma insert_session_Inr:
  "insert_session r d = (Inr u, d') \<Longrightarrow> sx_id r \<notin> sx_id ` set (sd_rows d) \<and> d' = d\<lparr>sd_rows := sd_rows d @ [r]\<rparr>"
  by (simp add: insert_session_def split: if_splits)

lemma fresh_alone: "\<exists>n v. run_thread fresh_session_id w = (Inr n, v) \<and> rows_of v = rows_of w"
  by (auto simp: fresh_session_id_def Let_def)

lemma start_alone:
  assumes "run_thread (start_session q x process c f) w = (Inr k, w')"
  shows "\<exists>now. rows_of w' = rows_of w @ [new_row k q (oc_session x) process c f now] \<and> k \<notin> sx_id ` set (rows_of w)"
proof -
  obtain n v where n: "run_thread fresh_session_id w = (Inr n, v)" "rows_of v = rows_of w" using fresh_alone by blast
  from assms have noted: "run_thread (note_session n x (start_tx n q (oc_session x) process c f)) v = (Inr (), w')" and k: "k = n"
    by (auto simp: start_session_def n(1) get_session_def session_read_def bind_op_def seq_op_def ret_def split: prod.splits sum.splits)
  then obtain d where d: "start_tx n q (oc_session x) process c f (sw_now v) (sw_db v) = (Inr (), d)" "rows_of w' = sd_rows d"
    by (auto simp: note_session_def split: prod.splits sum.splits)
  obtain e where "insert_session (new_row n q (oc_session x) process c f (sw_now v)) (sw_db v) = (Inr (), e)" "sd_rows d = sd_rows e"
    using d(1) unfolding start_tx_def by (auto elim!: seq_op_InrE simp: session_event_def enqueue_event_def modify_def)
  with insert_session_Inr [OF this(1)] n(2) d(2) k show ?thesis by (auto simp: new_row_def)
qed

lemma record_alone:
  assumes "run_thread (record_outcome p q latest x) w = (Inr y, w')"
  shows "y = x \<and> (\<exists>r. row_made p q latest x r \<and> rows_of w' = rows_of w @ [r])"
proof -
  obtain k w1 where start: "run_thread (start_session q x None (fst (inherited p q latest)) (snd (inherited p q latest))) w = (Inr k, w1)"
    and rest: "run_thread (seq_t (if unsuccessful x then session_tx (\<lambda>_. record_failure k) else return_t ())
      (seq_t (session_tx (\<lambda>_. complete_session k (Some (ar_id (oc_stdout x))) (map_option ar_id (oc_stderr x)) (Some x))) (return_t x))) w1
      = (Inr y, w')"
    using assms unfolding record_outcome_def run_bind by (rule bind_op_InrE)
  obtain now where w1: "rows_of w1 = rows_of w @ [new_row k q (oc_session x) None (fst (inherited p q latest)) (snd (inherited p q latest)) now]"
    "k \<notin> sx_id ` set (rows_of w)"
    using start_alone [OF start] by blast
  let ?r = "new_row k q (oc_session x) None (fst (inherited p q latest)) (snd (inherited p q latest)) now"
  let ?g = "completed_with (Some (ar_id (oc_stdout x))) (map_option ar_id (oc_stderr x)) (Some x)"
  let ?f = "if unsuccessful x then ?r\<lparr>sx_failures := sx_failures ?r + 1\<rparr> else ?r"
  have k: "sx_id ?r = k" "sx_id ?f = k" by (simp_all add: new_row_def)
  have "y = x \<and> rows_of w' = rows_of w @ [?g ?f]"
  proof (cases "unsuccessful x")
    case True
    with rest w1 k show ?thesis
      by (auto simp: session_tx_def op_defs record_failure_def change_one_def complete_session_def change_sessions_def
          absent_row split: prod.splits sum.splits if_splits)
  next
    case False
    with rest w1 k show ?thesis
      by (auto simp: session_tx_def op_defs complete_session_def change_sessions_def absent_row)
  qed
  moreover have "row_made p q latest x (?g ?f)" by (simp add: row_made_def completed_with_def new_row_def handle_of_def)
  ultimately show ?thesis by blast
qed

lemma retire_alone:
  assumes "run_thread (retire p latest) w = (r, w')"
  shows "filter (completed_of run attempt) (rows_of w) = [] \<Longrightarrow> filter (completed_of run attempt) (rows_of w') = []"
  using assms
  by (auto simp: retire_def session_tx_def rotate_session_def set_session_status_def change_one_def change_sessions_def op_defs
      filter_empty_conv set_update_where completed_of_def split: option.splits if_splits prod.splits sum.splits)

lemma call_alone:
  assumes "run_thread (call_provider q resumed m) w = (r, w')"
  shows "rows_of w' = rows_of w" and "r = Inr x \<Longrightarrow> loadable x"
proof -
  show "rows_of w' = rows_of w" using assms by (auto simp: call_provider_def split: prod.splits)
  have "loadable x" if "load_outcome y = Inr x" for y
  proof -
    have "x = y" using that by (auto simp: load_outcome_def bind_sum_Inr)
    with that show ?thesis by (simp add: loadable_def)
  qed
  then show "r = Inr x \<Longrightarrow> loadable x" using assms by (auto simp: call_provider_def bind_sum_Inr split: prod.splits)
qed

text \<open>An attempt with a completed outcome is answered from its row; the outcome depends on the rows alone.\<close>

lemma replayed:
  assumes "completed_outcome (rq_run q) (rq_attempt q) (sw_db w) = Inr (Some x)"
  shows "run_thread (execute_session E p q) w = (Inr x, w)"
  using assms by (simp add: execute_session_def session_read_def op_defs)

lemma outcome_of_rows:
  "sd_rows d = sd_rows d' \<Longrightarrow> completed_outcome run attempt d = completed_outcome run attempt d'"
  by (simp add: completed_outcome_def)

lemma three_cases: "(\<exists>e. c = Inl e) \<or> (\<exists>x. c = Inr (Some x)) \<or> c = Inr None" for c :: "'e + 'a option"
  by (cases c) auto

lemma no_outcome:
  assumes "sessions_sound p w" and "completed_outcome run attempt (sw_db w) = Inr None"
  shows "filter (completed_of run attempt) (rows_of w) = []"
proof (rule ccontr)
  assume some: "filter (completed_of run attempt) (rows_of w) \<noteq> []"
  then obtain r where r: "newest (filter (completed_of run attempt) (rows_of w)) = Some r" by (auto simp: newest_def)
  then have "r \<in> set (rows_of w)" "sx_status r = SS_Completed" by (auto dest!: newest_filter simp: completed_of_def)
  then obtain x where "sx_outcome r = Some x" using assms(1) by (auto simp: sessions_sound_def row_within_def)
  with r assms(2) show False by (auto simp: completed_outcome_def bind_sum_def split: sum.splits)
qed

lemma invoke_alone:
  assumes "run_thread (invoke_session E p q latest) w = (r, w')"
  shows "sw_calls w' = sw_calls w \<or> (\<exists>resumed. sw_calls w' = sw_calls w @ [(q, resumed)])"
    and "r = Inr x \<Longrightarrow> loadable x"
    and "filter (completed_of run attempt) (rows_of w) = [] \<Longrightarrow> filter (completed_of run attempt) (rows_of w') = []"
proof -
  have "(sw_calls w' = sw_calls w \<or> (\<exists>resumed. sw_calls w' = sw_calls w @ [(q, resumed)])) \<and> (r = Inr x \<longrightarrow> loadable x) \<and>
    (filter (completed_of run attempt) (rows_of w) = [] \<longrightarrow> filter (completed_of run attempt) (rows_of w') = [])"
  proof (cases "resumable p q latest")
    case (Some s)
    with assms have call: "run_thread (call_provider q (Some s) (pv_resume E (handle_of s) q)) w = (r, w')" by (simp add: invoke_session_def)
    from call_alone [OF call] call show ?thesis by (auto simp: call_provider_def split: prod.splits)
  next
    case None
    obtain a v where v: "run_thread (retire p latest) w = (a, v)" by fastforce
    have calls: "sw_calls v = sw_calls w"
      using v by (auto simp: retire_def session_tx_def op_defs split: option.splits if_splits prod.splits sum.splits)
    note rows = retire_alone [OF v, of run attempt]
    show ?thesis
    proof (cases a)
      case (Inl e)
      with assms None v have "r = Inl e" "w' = v" by (simp_all add: invoke_session_def seq_op_def)
      with calls rows show ?thesis by simp
    next
      case (Inr u)
      with assms None v have call: "run_thread (call_provider q None (if rq_role q = XR_Reviewer then pv_review E q else pv_start E q)) v = (r, w')"
        by (simp add: invoke_session_def seq_op_def)
      from call_alone [OF call] call rows calls show ?thesis by (auto simp: call_provider_def split: prod.splits)
    qed
  qed
  then show "sw_calls w' = sw_calls w \<or> (\<exists>resumed. sw_calls w' = sw_calls w @ [(q, resumed)])"
    "r = Inr x \<Longrightarrow> loadable x"
    "filter (completed_of run attempt) (rows_of w) = [] \<Longrightarrow> filter (completed_of run attempt) (rows_of w') = []"
    by blast+
qed

lemma latest_alone: "\<exists>l. run_thread (latest_session run node) w = (Inr l, w)"
  by (cases "newest (filter (\<lambda>r. sx_run r = run \<and> sx_node r = node) (rows_of w))")
    (simp_all add: latest_session_def get_session_def session_read_def op_defs)

lemma calls_kept:
  assumes "run_thread (record_outcome p q latest x) w = (r, w')"
  shows "sw_calls w' = sw_calls w"
proof -
  have "steps_in (\<lambda>v v'. sw_calls v' = sw_calls v) (record_outcome p q latest x)"
    unfolding record_outcome_def start_session_def fresh_session_id_def note_session_def get_session_def session_tx_def session_read_def
    by (intro steps_intros) (auto simp: Let_def split: prod.splits sum.splits)
  from steps_run [OF this, of w] have "(\<lambda>v v'. sw_calls v' = sw_calls v)\<^sup>*\<^sup>* w w'" by (simp add: assms)
  then show ?thesis by (induction rule: rtranclp_induct) simp_all
qed

lemma single_completed:
  assumes "filter (completed_of run attempt) rs = []" and "row_made p q latest x r" and "loadable x"
    and "rq_run q = run" and "rq_attempt q = attempt" and "sd_rows d = rs @ [r]"
  shows "completed_outcome run attempt d = Inr (Some x)"
  using assms by (simp add: completed_outcome_def newest_def order_by_def row_made_def completed_of_def loadable_def)

section \<open>Runtimes at the same time\<close>

text \<open>
  Threads of executions and cancellations over one store, with any providers and one policy; a thread that has
  returned stays in the list with its value until the process stops.
\<close>

type_synonym session_value = "(exec_request \<times> exec_outcome) option"

record 'x session_state =
  ss_world :: "'x session_world"
  ss_threads :: "('x session_world, session_value) thread list"

inductive session_step :: "session_policy \<Rightarrow> 'x session_state \<Rightarrow> 'x session_state \<Rightarrow> bool" for p where
  call_execute: "session_step p s (s\<lparr>ss_threads := bind_t (execute_session E p q) (\<lambda>x. return_t (Some (q, x))) # ss_threads s\<rparr>)"
| call_cancel: "session_step p s (s\<lparr>ss_threads := bind_t (cancel_session E run node) (\<lambda>_. return_t None) # ss_threads s\<rparr>)"
| session_thread: "pool_step (ss_threads s, ss_world s) (ms, w) \<Longrightarrow> session_step p s (s\<lparr>ss_threads := ms, ss_world := w\<rparr>)"
| session_time: "session_step p s (s\<lparr>ss_world := (ss_world s)\<lparr>sw_now := now\<rparr>\<rparr>)"
| provider_moves: "session_step p s (s\<lparr>ss_world := (ss_world s)\<lparr>sw_ext := x\<rparr>\<rparr>)"
| runs_move: "session_step p s (s\<lparr>ss_world := (ss_world s)\<lparr>sw_db := (sw_db (ss_world s))\<lparr>sd_core := d\<rparr>\<rparr>\<rparr>)"
| runtime_stops: "session_step p s (s\<lparr>ss_threads := []\<rparr>)"

definition no_sessions :: "'x \<Rightarrow> 'x session_state" where
  "no_sessions x = \<lparr>ss_world = \<lparr>sw_db = \<lparr>sd_core = empty_db, sd_rows = []\<rparr>, sw_now = 0, sw_ext = x, sw_calls = [], sw_made = []\<rparr>,
     ss_threads = []\<rparr>"

definition value_kept :: "session_value \<Rightarrow> 'x session_world \<Rightarrow> bool" where
  "value_kept v w \<longleftrightarrow> (case v of None \<Rightarrow> True | Some (q, x) \<Rightarrow> outcome_kept q x w)"

lemma value_stable: "value_kept v w \<Longrightarrow> sessions_stay w w' \<Longrightarrow> value_kept v w'"
  by (cases v) (auto simp: value_kept_def intro: kept_stable(2))

lemma execute_value: "sessions.holds p value_kept w (bind_t (execute_session E p q) (\<lambda>x. return_t (Some (q, x))))"
  by (rule sessions.bind [OF execute_secure], rule sessions.simple_threads) (simp add: value_kept_def)

lemma cancel_value: "sessions.holds p value_kept w (bind_t (cancel_session E run node) (\<lambda>_. return_t None))"
  by (rule sessions.bind [OF cancel_secure], rule sessions.simple_threads) (simp add: value_kept_def)

definition sessions_ok :: "session_policy \<Rightarrow> 'x session_state \<Rightarrow> bool" where
  "sessions_ok p s \<longleftrightarrow> sessions_sound p (ss_world s) \<and> (\<forall>m \<in> set (ss_threads s). sessions.holds p value_kept (ss_world s) m)"

lemma sessions_ok_other:
  assumes "sessions_ok p s" and "rows_of w = rows_of (ss_world s)" and "sw_made w = sw_made (ss_world s)" and "sw_calls w = sw_calls (ss_world s)"
  shows "sessions_ok p (s\<lparr>ss_world := w\<rparr>)"
proof -
  have "sessions_stay (ss_world s) w" "sessions_sound p w" using assms by (simp_all add: sessions_stay_def sessions_ok_def sessions_sound_def)
  with assms(1) show ?thesis by (auto simp: sessions_ok_def intro: sessions.later value_stable)
qed

lemma session_step_ok:
  assumes "session_step p s s'" and "sessions_ok p s"
  shows "sessions_ok p s'"
  using assms(1)
proof cases
  case (session_thread ms w)
  have "sessions_sound p w \<and> sessions_stay (ss_world s) w \<and> (\<forall>m \<in> set ms. sessions.holds p value_kept w m)"
    by (rule sessions.pool_values [OF session_thread(2)]) (use assms(2) value_stable in \<open>auto simp: sessions_ok_def\<close>)
  then show ?thesis by (simp add: session_thread(1) sessions_ok_def)
qed (use assms(2) sessions_ok_other [OF assms(2)] in \<open>auto simp: sessions_ok_def execute_value cancel_value\<close>)

lemma sessions_reachable:
  assumes "(session_step p)\<^sup>*\<^sup>* (no_sessions x) s"
  shows "sessions_ok p s"
  using assms
proof (induction rule: rtranclp_induct)
  case base
  show ?case by (simp add: sessions_ok_def no_sessions_def sessions_sound_def)
qed (rule session_step_ok)

text \<open>
  C18. Executions and cancellations of one store, interleaved in any way and cut off anywhere, with any providers: the
  outcome an execution returned is recorded, for good, in a session of its run and attempt; a provider session is
  resumed only for an implementer, by an implementer, within its run and node, and within the limits of
  continuations and failures; no session counts more continuations than the policy allows.
\<close>

theorem sessions_within_policy:
  assumes "(session_step p)\<^sup>*\<^sup>* (no_sessions e) s"
  shows "(\<forall>q x. Done (Inr (Some (q, x))) \<in> set (ss_threads s) \<longrightarrow>
      (\<exists>r \<in> set (rows_of (ss_world s)). sx_run r = rq_run q \<and> sx_attempt r = rq_attempt q \<and> sx_outcome r = Some x)) \<and>
    (\<forall>q r. (q, Some r) \<in> set (sw_calls (ss_world s)) \<longrightarrow> rq_role q = XR_Implementer \<and> sx_role r = XR_Implementer \<and>
      sx_run r = rq_run q \<and> sx_node r = rq_node q \<and> sx_continuations r < sp_continuations p \<and> sx_failures r < sp_failures p) \<and>
    (\<forall>r \<in> set (rows_of (ss_world s)). 0 \<le> sx_continuations r \<and> sx_continuations r \<le> max 0 (sp_continuations p))"
proof (intro conjI allI impI)
  note ok = sessions_reachable [OF assms, unfolded sessions_ok_def]
  show "\<forall>r \<in> set (rows_of (ss_world s)). 0 \<le> sx_continuations r \<and> sx_continuations r \<le> max 0 (sp_continuations p)"
    using ok by (simp add: sessions_sound_def row_within_def)
  fix q x assume "Done (Inr (Some (q, x))) \<in> set (ss_threads s)"
  then have "secure sessions_stay (sessions_sound p) value_kept (ss_world s) (Done (Inr (Some (q, x))))" using ok by blast
  then have "value_kept (Some (q, x)) (ss_world s)" by (auto elim: secure.cases)
  then show "\<exists>r \<in> set (rows_of (ss_world s)). sx_run r = rq_run q \<and> sx_attempt r = rq_attempt q \<and> sx_outcome r = Some x"
    by (simp add: value_kept_def outcome_kept_def)
next
  fix q r assume "(q, Some r) \<in> set (sw_calls (ss_world s))"
  then have "call_within p (q, Some r)" using sessions_reachable [OF assms] by (auto simp: sessions_ok_def sessions_sound_def)
  then show "rq_role q = XR_Implementer" "sx_role r = XR_Implementer" "sx_run r = rq_run q" "sx_node r = rq_node q"
    "sx_continuations r < sp_continuations p" "sx_failures r < sp_failures p"
    by (simp_all add: call_within_def)
qed

text \<open>
  C13. An execution that runs alone, from any reachable state and however it ends: it calls the provider at most
  once, and only when the run has no barrier and is running (or is not in the store). Once it has returned an outcome, every later
  execution of the same attempt, with any provider and policy, returns the same outcome and changes nothing, as long as the rows are the same.
\<close>

theorem execution_is_durable:
  fixes s :: "'x session_state"
  assumes "(session_step p)\<^sup>*\<^sup>* (no_sessions e) s" and "run_thread (execute_session E p q) (ss_world s) = (r, w)"
  shows "(sw_calls w = sw_calls (ss_world s) \<or>
      run_is_open (rq_run q) (sw_db (ss_world s)) \<and> (\<exists>resumed. sw_calls w = sw_calls (ss_world s) @ [(q, resumed)])) \<and>
    (\<forall>x. r = Inr x \<longrightarrow> (\<forall>E' p' q' (w' :: 'x session_world). rows_of w' = rows_of w \<and> rq_run q' = rq_run q \<and> rq_attempt q' = rq_attempt q \<longrightarrow>
      run_thread (execute_session E' p' q') w' = (Inr x, w')))"
proof -
  let ?w = "ss_world s"
  have sound: "sessions_sound p ?w" using sessions_reachable [OF assms(1)] by (simp add: sessions_ok_def)
  have again: "run_thread (execute_session E' p' q') w' = (Inr x, w')"
    if "completed_outcome (rq_run q) (rq_attempt q) (sw_db w) = Inr (Some x)" "rows_of w' = rows_of w"
      "rq_run q' = rq_run q" "rq_attempt q' = rq_attempt q" for E' p' q' x and w' :: "'x session_world"
    by (rule replayed) (use that outcome_of_rows [OF that(2), of "rq_run q" "rq_attempt q"] in simp)
  consider (fails) e where "completed_outcome (rq_run q) (rq_attempt q) (sw_db ?w) = Inl e"
    | (known) x where "completed_outcome (rq_run q) (rq_attempt q) (sw_db ?w) = Inr (Some x)"
    | (unknown) "completed_outcome (rq_run q) (rq_attempt q) (sw_db ?w) = Inr None"
    using three_cases [of "completed_outcome (rq_run q) (rq_attempt q) (sw_db ?w)"] by blast
  then show ?thesis
  proof cases
    case fails
    then have "r = Inl e" "w = ?w" using assms(2) by (simp_all add: execute_session_def session_read_def op_defs)
    then show ?thesis by simp
  next
    case known
    then have r: "r = Inr x" "w = ?w" using assms(2) replayed [OF known] by simp_all
    with known have "completed_outcome (rq_run q) (rq_attempt q) (sw_db w) = Inr (Some x)" by simp
    from again [OF this] r show ?thesis by auto
  next
    case unknown
    show ?thesis
    proof (cases "run_is_open (rq_run q) (sw_db ?w)")
      case False
      with unknown have "r = Inl barrier_error" "w = ?w"
        using assms(2) by (simp_all add: execute_session_def check_barrier_def session_read_def op_defs)
      then show ?thesis by simp
    next
      case True
      obtain l where l: "run_thread (latest_session (rq_run q) (rq_node q)) ?w = (Inr l, ?w)"
        using latest_alone by blast
      with True unknown have run: "bind_op (run_thread (invoke_session E p q l)) (\<lambda>x. run_thread (record_outcome p q l x)) ?w = (r, w)"
        using assms(2) by (simp add: execute_session_def check_barrier_def session_read_def bind_op_def seq_op_def)
      obtain a v where v: "run_thread (invoke_session E p q l) ?w = (a, v)" by fastforce
      note calls = invoke_alone(1) [OF v]
      show ?thesis
      proof (cases a)
        case (Inl e)
        with run v have "r = Inl e" "w = v" by (simp_all add: bind_op_def)
        with True calls show ?thesis by simp
      next
        case (Inr x)
        with run v have rec: "run_thread (record_outcome p q l x) v = (r, w)" by (simp add: bind_op_def)
        have "completed_outcome (rq_run q) (rq_attempt q) (sw_db w) = Inr (Some y)" if y: "r = Inr y" for y
        proof -
          from record_alone [OF rec [unfolded y]] obtain row where row: "y = x" "row_made p q l x row" "rows_of w = rows_of v @ [row]" by blast
          have "filter (completed_of (rq_run q) (rq_attempt q)) (rows_of v) = []"
            using invoke_alone(3) [OF v] no_outcome [OF sound unknown] by blast
          from single_completed [OF this row(2) invoke_alone(2) [OF v Inr] refl refl row(3)] row(1) show ?thesis by simp
        qed
        with again calls calls_kept [OF rec] True show ?thesis by auto
      qed
    qed
  qed
qed

section \<open>Examples\<close>

text \<open>A thread that runs alone is a run of the system.\<close>

lemma session_alone:
  "(session_step p)\<^sup>*\<^sup>* \<lparr>ss_world = w, ss_threads = [m]\<rparr>
     \<lparr>ss_world = snd (run_thread m w), ss_threads = [Done (fst (run_thread m w))]\<rparr>"
proof -
  have "(session_step p)\<^sup>*\<^sup>* \<lparr>ss_world = w, ss_threads = ms\<rparr> \<lparr>ss_world = w', ss_threads = ms'\<rparr>"
    if "pool_step\<^sup>*\<^sup>* (ms, w) (ms', w')" for ms ms' w'
    using that
  proof (induction "(ms', w')" arbitrary: ms' w' rule: rtranclp_induct)
    case (step y)
    obtain ms1 w1 where y: "y = (ms1, w1)" by fastforce
    have "session_step p \<lparr>ss_world = w1, ss_threads = ms1\<rparr> \<lparr>ss_world = w', ss_threads = ms'\<rparr>"
      using session_thread [of "\<lparr>ss_world = w1, ss_threads = ms1\<rparr>" ms' w' p] step(2) y by simp
    with step(3) [OF y] show ?case by (rule rtranclp.rtrancl_into_rtrancl)
  qed simp
  from this [OF pool_alone] show ?thesis .
qed

text \<open>A provider that fails its first call, with one session, and counts its calls.\<close>

definition demo_artifact :: artifact where
  "demo_artifact = \<lparr>ar_id = ''log'', ar_kind = AK_Log, ar_uri = ''file'', ar_sha = None, ar_media = None, ar_size = None, ar_created = 0\<rparr>"

definition demo_outcome :: "exec_status \<Rightarrow> exec_outcome" where
  "demo_outcome st = \<lparr>oc_session = \<lparr>hd_provider = ''codex'', hd_session = ''s'', hd_version = ''1''\<rparr>,
     oc_result = (exec_result_of st ''tried'')\<lparr>xr_failure := (if st = ES_Failed then Some ''tests fail'' else None)\<rparr>,
     oc_events = [], oc_stdout = demo_artifact, oc_stderr = None, oc_exit = 0\<rparr>"

definition demo_answer :: "(nat, exec_outcome) op" where
  "demo_answer n = (Inr (demo_outcome (if n = 0 then ES_Failed else ES_Succeeded)), Suc n)"

definition demo_provider :: "nat provider" where
  "demo_provider = \<lparr>pv_start = \<lambda>_. demo_answer, pv_review = \<lambda>_. demo_answer, pv_resume = \<lambda>_ _. demo_answer, pv_cancel = \<lambda>_. ret True\<rparr>"

definition demo_request :: "string \<Rightarrow> exec_request" where
  "demo_request a = \<lparr>rq_run = ''r'', rq_node = ''n'', rq_attempt = a, rq_role = XR_Implementer, rq_objective = ''do it'', rq_context = [],
     rq_directory = ''.'', rq_sandbox = SB_Write, rq_schema = [], rq_control = ''c'', rq_timeout = 1\<rparr>"

definition demo_execute :: "string \<Rightarrow> (nat session_world, exec_outcome) thread" where
  "demo_execute a = execute_session demo_provider default_policy (demo_request a)"

definition after_execute :: "string list \<Rightarrow> nat session_world" where
  "after_execute as = fold (\<lambda>a w. snd (run_thread (demo_execute a) w)) as (ss_world (no_sessions 0))"

lemma after_snoc: "after_execute (as @ [a]) = snd (run_thread (demo_execute a) (after_execute as))"
  by (simp add: after_execute_def)

definition demo_thread :: "string \<Rightarrow> (nat session_world, session_value) thread" where
  "demo_thread a = bind_t (demo_execute a) (\<lambda>x. return_t (Some (demo_request a, x)))"

lemma demo_thread_world: "snd (run_thread (demo_thread a) w) = snd (run_thread (demo_execute a) w)"
  by (simp add: demo_thread_def bind_op_def ret_def split: prod.splits sum.splits)

lemma demo_session_step:
  "(session_step default_policy)\<^sup>*\<^sup>* \<lparr>ss_world = w, ss_threads = []\<rparr> \<lparr>ss_world = snd (run_thread (demo_execute a) w), ss_threads = []\<rparr>"
proof -
  let ?v = "snd (run_thread (demo_execute a) w)"
  have "session_step default_policy \<lparr>ss_world = w, ss_threads = []\<rparr> \<lparr>ss_world = w, ss_threads = [demo_thread a]\<rparr>"
    using call_execute [of default_policy "\<lparr>ss_world = w, ss_threads = []\<rparr>" demo_provider "demo_request a"]
    by (simp add: demo_thread_def demo_execute_def)
  moreover have "(session_step default_policy)\<^sup>*\<^sup>* \<lparr>ss_world = w, ss_threads = [demo_thread a]\<rparr>
      \<lparr>ss_world = ?v, ss_threads = [Done (fst (run_thread (demo_thread a) w))]\<rparr>"
    using session_alone [of default_policy w "demo_thread a"] by (simp only: demo_thread_world)
  moreover have "session_step default_policy \<lparr>ss_world = ?v, ss_threads = [Done (fst (run_thread (demo_thread a) w))]\<rparr>
      \<lparr>ss_world = ?v, ss_threads = []\<rparr>"
    using runtime_stops [of default_policy "\<lparr>ss_world = ?v, ss_threads = [Done (fst (run_thread (demo_thread a) w))]\<rparr>"] by simp
  ultimately show ?thesis by (meson converse_rtranclp_into_rtranclp rtranclp.rtrancl_into_rtrancl)
qed

lemma demo_sessions_reachable: "(session_step default_policy)\<^sup>*\<^sup>* (no_sessions 0) \<lparr>ss_world = after_execute as, ss_threads = []\<rparr>"
proof (induction as rule: rev_induct)
  case Nil
  show ?case by (simp add: after_execute_def no_sessions_def)
next
  case (snoc a as)
  from snoc demo_session_step [of "after_execute as" a] show ?case unfolding after_snoc by (rule rtranclp_trans)
qed

text \<open>The second attempt resumes the session of the first.\<close>

lemma demo_calls_of: "map (\<lambda>(q, r). (rq_attempt q, map_option sx_attempt r)) (sw_calls (after_execute [''a1'', ''a2''])) =
    [(''a1'', None), (''a2'', Some ''a1'')]"
  by code_simp

theorem sessions_within_policy_witness:
  "\<exists>s q r. (session_step default_policy)\<^sup>*\<^sup>* (no_sessions (0 :: nat)) s \<and> (q, Some r) \<in> set (sw_calls (ss_world s)) \<and>
     sx_continuations r < 2 \<and> sx_role r = XR_Implementer"
proof -
  let ?s = "\<lparr>ss_world = after_execute [''a1'', ''a2''], ss_threads = []\<rparr> :: nat session_state"
  obtain q r where qr: "(q, Some r) \<in> set (sw_calls (ss_world ?s))"
    using demo_calls_of by (auto simp: map_eq_Cons_conv)
  from sessions_within_policy [OF demo_sessions_reachable] qr have "sx_continuations r < sp_continuations default_policy \<and> sx_role r = XR_Implementer"
    by fastforce
  with qr demo_sessions_reachable show ?thesis
    by (intro exI [of _ ?s] exI [of _ q] exI [of _ r]) (simp add: default_policy_def)
qed

lemma demo_outcome_returned: "fst (run_thread (demo_execute ''a1'') (after_execute [])) = Inr (demo_outcome ES_Failed)"
  by code_simp

theorem execution_is_durable_witness:
  "run_thread (demo_execute ''a1'') (after_execute [''a1'']) = (Inr (demo_outcome ES_Failed), after_execute [''a1''])"
proof -
  have "run_thread (execute_session demo_provider default_policy (demo_request ''a1'')) (after_execute []) =
      (Inr (demo_outcome ES_Failed), after_execute [''a1''])"
    using demo_outcome_returned after_snoc [of "[]" "''a1''"] by (simp add: demo_execute_def prod_eq_iff)
  then have "\<forall>E' p' q' (w' :: nat session_world). rows_of w' = rows_of (after_execute [''a1'']) \<and> rq_run q' = rq_run (demo_request ''a1'') \<and>
      rq_attempt q' = rq_attempt (demo_request ''a1'') \<longrightarrow> run_thread (execute_session E' p' q') w' = (Inr (demo_outcome ES_Failed), w')"
    using execution_is_durable [OF demo_sessions_reachable [of "[]"], of demo_provider "demo_request ''a1''"
      "Inr (demo_outcome ES_Failed)" "after_execute [''a1'']"] by simp
  then show ?thesis unfolding demo_execute_def by blast
qed

text \<open>
  A cancellation after the end of an execution takes the outcome away: the same attempt is executed again, and what it
  does then is lost, for the row of the resumed session is already there.
\<close>

definition cancelled_world :: "nat session_world" where
  "cancelled_world = snd (run_thread (cancel_session demo_provider ''r'' ''n'') (after_execute [''a1'']))"

lemma cancelled_attempt_runs_again:
  "sw_ext cancelled_world = 1 \<and> sw_ext (snd (run_thread (demo_execute ''a1'') cancelled_world)) = 2 \<and>
   fst (run_thread (demo_execute ''a1'') cancelled_world) = Inl (IntegrityError ''UNIQUE constraint failed: executor_sessions.provider'')"
  by code_simp

text \<open>A call of the provider that raises leaves no row: it counts neither as a continuation nor as a failure.\<close>

lemma raising_call_leaves_rows:
  assumes "resumable p q (Some r) = Some r" and "pv_resume E (handle_of r) q (sw_ext w) = (Inl e, x)"
  shows "run_thread (invoke_session E p q (Some r)) w = (Inl e, w\<lparr>sw_ext := x, sw_calls := sw_calls w @ [(q, Some r)]\<rparr>)"
  using assms by (simp add: invoke_session_def call_provider_def)

end
