(* ===== verification/Codex.thy ===== *)
theory Codex
  imports Sessions "HOL-Library.AList"
begin

text \<open>
  \<open>adapters/codex.py\<close>: the adapter of the Codex CLI behind \<open>ExecutorProtocol\<close>. It writes a strict schema, calls the
  command, reads its events and its last message; running processes are kept in a table so that they can be
  cancelled. Processes, files, the artifact store, JSON text and the inspection of the command are parameters.
\<close>

section \<open>Events\<close>

text \<open>\<open>str.splitlines\<close>, on UTF-8 bytes: ten line boundaries, and a carriage return with its line feed as one.\<close>

definition line_breaks :: "string list" where
  "line_breaks = [[CHR 0x0D, CHR 0x0A], [CHR 0xC2, CHR 0x85], [CHR 0xE2, CHR 0x80, CHR 0xA8], [CHR 0xE2, CHR 0x80, CHR 0xA9],
     [CHR 0x0A], [CHR 0x0B], [CHR 0x0C], [CHR 0x0D], [CHR 0x1C], [CHR 0x1D], [CHR 0x1E]]"

definition line_break :: "string \<Rightarrow> nat" where
  "line_break s = (case find (\<lambda>b. starts_with b s) line_breaks of None \<Rightarrow> 0 | Some b \<Rightarrow> length b)"

function lines_from :: "string \<Rightarrow> string \<Rightarrow> string list" where
  "lines_from acc [] = (if acc = [] then [] else [acc])"
| "lines_from acc (c # s) = (if line_break (c # s) = 0 then lines_from (acc @ [c]) s
     else acc # lines_from [] (drop (line_break (c # s)) (c # s)))"
  by pat_completeness auto
termination by (relation "measure (\<lambda>(_, s). length s)") auto

definition split_lines :: "string \<Rightarrow> string list" where
  "split_lines s = lines_from [] s"

definition known_events :: "(string \<times> string) list" where
  "known_events =
     [(''thread.started'', ''session_started''), (''turn.started'', ''turn_started''), (''turn.completed'', ''turn_completed''),
      (''turn.failed'', ''turn_failed''), (''item.started'', ''item_started''), (''item.updated'', ''item_updated''),
      (''item.completed'', ''item_completed''), (''error'', ''error'')]"

text \<open>What counts as true in a Python \<open>or\<close>.\<close>

fun truthy :: "json \<Rightarrow> bool" where
  "truthy JNull = False"
| "truthy (JBool b) = b"
| "truthy (JInt n) = (n \<noteq> 0)"
| "truthy (JFloat x) = (x \<noteq> 0)"
| "truthy (JStr s) = (s \<noteq> [])"
| "truthy (JArr xs) = (xs \<noteq> [])"
| "truthy (JObj kvs) = (kvs \<noteq> [])"

definition text_value :: "json option \<Rightarrow> string option" where
  "text_value v = (case v of Some (JStr s) \<Rightarrow> Some s | _ \<Rightarrow> None)"

definition unknown_event :: "(string \<times> json) list \<Rightarrow> exec_event" where
  "unknown_event data = \<lparr>xe_type = ''unknown'', xe_provider_type = None, xe_session = None, xe_data = data\<rparr>"

definition session_of_data :: "(string \<times> json) list \<Rightarrow> string option" where
  "session_of_data data = (case map_of data ''thread_id'' of
     Some v \<Rightarrow> if truthy v then text_value (Some v) else text_value (map_of data ''session_id'')
   | None \<Rightarrow> text_value (map_of data ''session_id''))"

definition event_of_data :: "(string \<times> json) list \<Rightarrow> exec_event" where
  "event_of_data data = (let ty = text_value (map_of data ''type'') in
     \<lparr>xe_type = (case map_of known_events (case ty of None \<Rightarrow> [] | Some t \<Rightarrow> t) of None \<Rightarrow> ''unknown'' | Some k \<Rightarrow> k),
      xe_provider_type = ty, xe_session = session_of_data data, xe_data = data\<rparr>)"

definition parse_line :: "(string \<Rightarrow> json option) \<Rightarrow> string \<Rightarrow> exec_event option" where
  "parse_line loads line = (if all_white line then None
     else Some (case loads line of
       None \<Rightarrow> unknown_event [(''raw_text'', JStr line)]
     | Some (JObj data) \<Rightarrow> event_of_data data
     | Some v \<Rightarrow> unknown_event [(''value'', v)]))"

definition parse_lines :: "(string \<Rightarrow> json option) \<Rightarrow> string list \<Rightarrow> exec_event list" where
  "parse_lines loads lines = concat (map (\<lambda>l. case parse_line loads l of None \<Rightarrow> [] | Some e \<Rightarrow> [e]) lines)"

section \<open>The schema of the output\<close>

text \<open>A dict as the list of its items; an assignment keeps the place of a key that is there.\<close>

definition put_item :: "string \<Rightarrow> json \<Rightarrow> (string \<times> json) list \<Rightarrow> (string \<times> json) list" where
  "put_item k v kvs = (if k \<in> fst ` set kvs then map (\<lambda>(k', v'). (k', if k' = k then v else v')) kvs else kvs @ [(k, v)])"

definition closed_object :: "string list \<Rightarrow> (string \<times> json) list \<Rightarrow> (string \<times> json) list" where
  "closed_object names kvs = put_item ''additionalProperties'' (JBool False) (put_item ''required'' (JArr (map JStr names)) kvs)"

definition strict_items :: "(string \<times> json) list \<Rightarrow> (string \<times> json) list" where
  "strict_items kvs = (case map_of kvs ''properties'' of
     Some (JObj ps) \<Rightarrow> closed_object (map fst ps) kvs
   | _ \<Rightarrow> if map_of kvs ''type'' = Some (JStr ''object'') then closed_object [] (put_item ''properties'' (JObj []) kvs) else kvs)"

definition kept_key :: "string \<Rightarrow> bool" where
  "kept_key k \<longleftrightarrow> k \<notin> {''default'', ''examples''}"

primrec strict_schema :: "json \<Rightarrow> json" where
  "strict_schema JNull = JNull"
| "strict_schema (JBool b) = JBool b"
| "strict_schema (JInt n) = JInt n"
| "strict_schema (JFloat x) = JFloat x"
| "strict_schema (JStr s) = JStr s"
| "strict_schema (JArr xs) = JArr (map strict_schema xs)"
| "strict_schema (JObj kvs) = JObj (strict_items (filter (\<lambda>(k, _). kept_key k) (map (map_prod id strict_schema) kvs)))"

section \<open>CodexAdapter\<close>

text \<open>
  What the adapter works with: the inspected capabilities, a file written or read, an artifact stored, a process
  started, waited for with a time limit (None when it runs out) or without one, asked for its state, told to end,
  and waited for up to a grace period. \<open>ce_loads\<close> and \<open>ce_dumps\<close> are the JSON text, \<open>ce_result\<close> the
  parser of results with the text of its error.
\<close>

record 'x codex_env =
  ce_executable :: string
  ce_capabilities :: "('x, executor_capabilities) op"
  ce_write :: "string \<Rightarrow> string \<Rightarrow> ('x, unit) op"
  ce_read :: "string \<Rightarrow> ('x, string + string) op"
  ce_put :: "string \<Rightarrow> string \<Rightarrow> artifact_kind \<Rightarrow> ('x, artifact) op"
  ce_spawn :: "string list \<Rightarrow> string \<Rightarrow> ('x, nat) op"
  ce_talk :: "nat \<Rightarrow> string \<Rightarrow> rat \<Rightarrow> ('x, (int \<times> string \<times> string) option) op"
  ce_finish :: "nat \<Rightarrow> ('x, string \<times> string) op"
  ce_running :: "nat \<Rightarrow> 'x \<Rightarrow> bool"
  ce_terminate :: "nat \<Rightarrow> ('x, unit) op"
  ce_wait :: "nat \<Rightarrow> rat \<Rightarrow> ('x, bool) op"
  ce_loads :: "string \<Rightarrow> json option"
  ce_dumps :: "json \<Rightarrow> string"
  ce_result :: "string \<Rightarrow> string + exec_result"

record 'x codex_world =
  cw_active :: "(string \<times> nat) list"
  cw_ext :: 'x

definition codex_io :: "('x, 'a) op \<Rightarrow> ('x codex_world, 'a) thread" where
  "codex_io m = atomic (\<lambda>w. case m (cw_ext w) of (r, x) \<Rightarrow> (r, w\<lparr>cw_ext := x\<rparr>))"

definition set_active :: "string \<Rightarrow> nat \<Rightarrow> ('x codex_world, unit) thread" where
  "set_active k n = atomic (modify (\<lambda>w. w\<lparr>cw_active := AList.update k n (cw_active w)\<rparr>))"

definition drop_active :: "string \<Rightarrow> ('x codex_world, unit) thread" where
  "drop_active k = atomic (modify (\<lambda>w. w\<lparr>cw_active := AList.delete k (cw_active w)\<rparr>))"

datatype codex_mode = CM_Start | CM_Resume | CM_NativeReview | CM_StructuredReview

definition codex_argv :: "'x codex_env \<Rightarrow> codex_mode \<Rightarrow> exec_request \<Rightarrow> string \<Rightarrow> string \<Rightarrow> session_handle option \<Rightarrow> py_error + string list" where
  "codex_argv C mode q schema output session =
     bind_sum
       (if mode = CM_Resume
        then (case session of None \<Rightarrow> Inl (ValueError ''resume requires a Session'') | Some h \<Rightarrow> Inr [''resume'', hd_session h])
        else Inr ([''--sandbox'', sb_value (rq_sandbox q)] @ (if mode = CM_NativeReview then [''review''] else [])))
     (\<lambda>middle. Inr ([ce_executable C, ''--ask-for-approval'', ''never'', ''exec''] @ middle @
        [''--json'', ''--output-schema'', schema, ''--output-last-message'', output, ''-'']))"

text \<open>\<open>_invoke\<close>: the process is in the table until its end, however it ends.\<close>

definition codex_talk :: "'x codex_env \<Rightarrow> nat \<Rightarrow> string \<Rightarrow> rat \<Rightarrow> ('x codex_world, int \<times> string \<times> string) thread" where
  "codex_talk C n prompt timeout =
     bind_t (codex_io (ce_talk C n prompt timeout)) (\<lambda>r. case r of
       Some x \<Rightarrow> return_t x
     | None \<Rightarrow>
         seq_t (codex_io (ce_terminate C n))
         (bind_t (codex_io (ce_finish C n)) (\<lambda>(out, err).
          return_t (124, out, err @ [CHR 0x0A] @ ''Codex process timed out''))))"

definition codex_invoke :: "'x codex_env \<Rightarrow> string list \<Rightarrow> string \<Rightarrow> exec_request \<Rightarrow> string \<Rightarrow> ('x codex_world, int \<times> string \<times> string) thread" where
  "codex_invoke C argv prompt q key =
     bind_t (codex_io (ce_spawn C argv (rq_directory q))) (\<lambda>n.
     seq_t (set_active key n)
     (bind_t (outcome_t (codex_talk C n prompt (rq_timeout q))) (\<lambda>r.
      seq_t (drop_active key) (Done r))))"

text \<open>\<open>_load_result\<close>: without a valid last message the result is an error; the exit code is a detail of it.\<close>

definition invalid_result :: "string \<Rightarrow> int \<Rightarrow> string \<Rightarrow> exec_result" where
  "invalid_result problem exit err =
     (let message = ''Codex structured output was invalid: '' @ problem in
      (exec_result_of ES_Error message)\<lparr>xr_error := Some \<lparr>er_kind = EK_Executor, er_code = ''codex.structured_output_invalid'',
        er_message = message, er_retryable = False, er_details = [(''exit_code'', JInt exit), (''stderr_present'', JBool (err \<noteq> []))]\<rparr>\<rparr>)"

definition load_result :: "'x codex_env \<Rightarrow> string \<Rightarrow> int \<Rightarrow> string \<Rightarrow> ('x, exec_result) op" where
  "load_result C output exit err =
     bind_op (ce_read C output) (\<lambda>r. ret (case r of
       Inl problem \<Rightarrow> invalid_result problem exit err
     | Inr text \<Rightarrow> (case ce_result C text of Inl problem \<Rightarrow> invalid_result problem exit err | Inr x \<Rightarrow> x)))"

definition schema_path :: "exec_request \<Rightarrow> string" where
  "schema_path q = rq_control q @ ''/'' @ rq_attempt q @ ''.output.schema.json''"

definition output_path :: "exec_request \<Rightarrow> string" where
  "output_path q = rq_control q @ ''/'' @ rq_attempt q @ ''.last-message.json''"

definition active_key :: "exec_request \<Rightarrow> session_handle option \<Rightarrow> string" where
  "active_key q session = (case session of None \<Rightarrow> rq_attempt q | Some h \<Rightarrow> hd_session h)"

definition session_id_of :: "exec_request \<Rightarrow> session_handle option \<Rightarrow> exec_event list \<Rightarrow> string" where
  "session_id_of q session events = (case find (\<lambda>e. xe_session e \<noteq> None) events of
     Some e \<Rightarrow> the (xe_session e)
   | None \<Rightarrow> (case session of Some h \<Rightarrow> hd_session h | None \<Rightarrow> ''unavailable:'' @ rq_attempt q))"

definition codex_execute :: "'x codex_env \<Rightarrow> codex_mode \<Rightarrow> exec_request \<Rightarrow> session_handle option \<Rightarrow> ('x codex_world, exec_outcome) thread" where
  "codex_execute C mode q session =
     bind_t (codex_io (ce_capabilities C)) (\<lambda>caps.
     seq_t (require_t (supports_phase2 caps) (NamedError ''UnsupportedCodexCapability'' (''Codex '' @ xc_version caps @ '' lacks required Phase 2 capabilities'')))
     (seq_t (codex_io (ce_write C (schema_path q) (ce_dumps C (strict_schema (JObj (rq_schema q))) @ [CHR 0x0A])))
     (bind_t (Done (codex_argv C mode q (schema_path q) (output_path q) session)) (\<lambda>argv.
      bind_t (codex_invoke C argv (rq_objective q @ [CHR 0x0A, CHR 0x0A] @ rq_context q) q (active_key q session)) (\<lambda>(exit, out, err).
      bind_t (codex_io (ce_put C out ''application/x-ndjson'' AK_Log)) (\<lambda>log.
      bind_t (if err \<noteq> [] then bind_t (codex_io (ce_put C err ''text/plain'' AK_Log)) (\<lambda>a. return_t (Some a)) else return_t None) (\<lambda>problems.
      let events = parse_lines (ce_loads C) (split_lines out) in
      bind_t (codex_io (load_result C (output_path q) exit err)) (\<lambda>result.
      return_t \<lparr>oc_session = \<lparr>hd_provider = ''codex'', hd_session = session_id_of q session events, hd_version = xc_version caps\<rparr>,
        oc_result = result, oc_events = events, oc_stdout = log, oc_stderr = problems, oc_exit = exit\<rparr>))))))))"

definition codex_start :: "'x codex_env \<Rightarrow> exec_request \<Rightarrow> ('x codex_world, exec_outcome) thread" where
  "codex_start C q = codex_execute C CM_Start q None"

definition codex_resume :: "'x codex_env \<Rightarrow> session_handle \<Rightarrow> exec_request \<Rightarrow> ('x codex_world, exec_outcome) thread" where
  "codex_resume C h q = seq_t (require_t (hd_provider h = ''codex'') (ValueError ''cannot resume a non-Codex Session''))
     (codex_execute C CM_Resume q (Some h))"

definition codex_review :: "'x codex_env \<Rightarrow> exec_request \<Rightarrow> ('x codex_world, exec_outcome) thread" where
  "codex_review C q = codex_execute C CM_StructuredReview q None"

definition codex_review_structured :: "'x codex_env \<Rightarrow> (string \<Rightarrow> py_error + 'r) \<Rightarrow> exec_request \<Rightarrow>
    ('x codex_world, exec_outcome \<times> 'r) thread" where
  "codex_review_structured C parse q =
     bind_t (codex_execute C CM_StructuredReview q None) (\<lambda>x.
     bind_t (codex_io (ce_read C (output_path q))) (\<lambda>r.
     bind_t (Done (case r of Inl problem \<Rightarrow> Inl (OSErr problem) | Inr text \<Rightarrow> parse text)) (\<lambda>v. return_t (x, v))))"

text \<open>\<open>cancel\<close> and \<open>is_active\<close>: the table is asked for the session of the handle.\<close>

definition active_process :: "session_handle \<Rightarrow> ('x codex_world, nat option) thread" where
  "active_process h = reads (\<lambda>w. map_of (cw_active w) (hd_session h))"

definition codex_cancel :: "'x codex_env \<Rightarrow> session_handle \<Rightarrow> rat \<Rightarrow> ('x codex_world, bool) thread" where
  "codex_cancel C h grace =
     bind_t (active_process h) (\<lambda>found. case found of
       None \<Rightarrow> return_t True
     | Some n \<Rightarrow>
         bind_t (reads (\<lambda>w. ce_running C n (cw_ext w))) (\<lambda>running.
         if \<not> running then return_t True
         else seq_t (codex_io (ce_terminate C n)) (codex_io (ce_wait C n grace))))"

definition codex_is_active :: "'x codex_env \<Rightarrow> session_handle \<Rightarrow> ('x codex_world, bool) thread" where
  "codex_is_active C h = bind_t (active_process h) (\<lambda>found. case found of
       None \<Rightarrow> return_t False | Some n \<Rightarrow> reads (\<lambda>w. ce_running C n (cw_ext w)))"

end
