(* ===== verification/Codex_Laws.thy ===== *)
theory Codex_Laws
  imports Codex
begin

text \<open>
  The schema the adapter hands to the provider closes every object, for good; the table of processes; what the
  adapter does not notice.
\<close>

section \<open>Closed schemas\<close>

lemma map_of_set: "map_of (map (\<lambda>(k', v'). (k', if k' = k then v else v')) kvs) k' =
    (if k' = k then map_option (\<lambda>_. v) (map_of kvs k) else map_of kvs k')"
proof (induction kvs)
  case (Cons kv kvs)
  then show ?case by (cases kv; cases "k' = k") simp_all
qed simp

lemma map_of_put [simp]: "map_of (put_item k v kvs) k' = (if k' = k then Some v else map_of kvs k')"
proof (cases "k \<in> fst ` set kvs")
  case True
  then have "map_of kvs k \<noteq> None" by (simp add: map_of_eq_None_iff)
  with True show ?thesis by (auto simp: put_item_def map_of_set)
next
  case False
  then have "map_of kvs k = None" by (simp add: map_of_eq_None_iff)
  with False show ?thesis by (simp add: put_item_def map_add_def split: option.split)
qed

lemma keys_put: "fst ` set (put_item k v kvs) = insert k (fst ` set kvs)"
  by (force simp: put_item_def image_iff)

lemma in_put: "(k', v') \<in> set (put_item k v kvs) \<Longrightarrow> (k' = k \<and> v' = v) \<or> (k' \<noteq> k \<and> (k', v') \<in> set kvs)"
  by (auto simp: put_item_def image_iff split: if_splits)

lemma put_same:
  assumes "k \<in> fst ` set kvs" and "\<And>v'. (k, v') \<in> set kvs \<Longrightarrow> v' = v"
  shows "put_item k v kvs = kvs"
proof -
  have "map (\<lambda>(k', v'). (k', if k' = k then v else v')) kvs = kvs" by (rule map_idI) (use assms(2) in auto)
  with assms(1) show ?thesis by (simp add: put_item_def)
qed

text \<open>Every object that lists properties requires exactly these and allows no others, at every depth.\<close>

primrec closed_schema :: "json \<Rightarrow> bool" where
  "closed_schema JNull = True"
| "closed_schema (JBool b) = True"
| "closed_schema (JInt n) = True"
| "closed_schema (JFloat x) = True"
| "closed_schema (JStr s) = True"
| "closed_schema (JArr xs) = list_all id (map closed_schema xs)"
| "closed_schema (JObj kvs) =
     ((\<forall>ps. map_of kvs ''properties'' = Some (JObj ps) \<longrightarrow>
         map_of kvs ''required'' = Some (JArr (map (JStr \<circ> fst) ps)) \<and> map_of kvs ''additionalProperties'' = Some (JBool False)) \<and>
      (map_of kvs ''type'' = Some (JStr ''object'') \<longrightarrow> (\<exists>ps. map_of kvs ''properties'' = Some (JObj ps))) \<and>
      list_all (\<lambda>(k, b). kept_key k \<and> b) (map (map_prod id closed_schema) kvs))"

lemma closed_strings: "closed_schema (JArr (map JStr ns))"
  by (simp add: list_all_iff)

lemma strict_strings: "strict_schema (JArr (map JStr ns)) = JArr (map JStr ns)"
  by simp

text \<open>The three ways an object is made strict.\<close>

lemma strict_items_cases:
  obtains (listed) ps where "map_of kvs ''properties'' = Some (JObj ps)" "strict_items kvs = closed_object (map fst ps) kvs"
  | (empty) "\<forall>ps. map_of kvs ''properties'' \<noteq> Some (JObj ps)" "map_of kvs ''type'' = Some (JStr ''object'')"
      "strict_items kvs = closed_object [] (put_item ''properties'' (JObj []) kvs)"
  | (plain) "\<forall>ps. map_of kvs ''properties'' \<noteq> Some (JObj ps)" "map_of kvs ''type'' \<noteq> Some (JStr ''object'')" "strict_items kvs = kvs"
proof (cases "\<exists>ps. map_of kvs ''properties'' = Some (JObj ps)")
  case True
  then obtain ps where "map_of kvs ''properties'' = Some (JObj ps)" by blast
  then show ?thesis by (intro listed [of ps]) (simp_all add: strict_items_def)
next
  case False
  then have none: "\<forall>ps. map_of kvs ''properties'' \<noteq> Some (JObj ps)" by blast
  then have "strict_items kvs = (if map_of kvs ''type'' = Some (JStr ''object'')
      then closed_object [] (put_item ''properties'' (JObj []) kvs) else kvs)"
    unfolding strict_items_def by (simp split: option.split json.split)
  then show ?thesis using empty [OF none] plain [OF none] by (cases "map_of kvs ''type'' = Some (JStr ''object'')") simp_all
qed

lemma in_closed:
  assumes "(k, v) \<in> set (closed_object ns kvs)"
  shows "(k, v) \<in> set kvs \<or> (k = ''additionalProperties'' \<and> v = JBool False) \<or> (k = ''required'' \<and> v = JArr (map JStr ns))"
  using in_put [OF assms [unfolded closed_object_def]] in_put by fast

lemma in_strict_items:
  assumes "(k, v) \<in> set (strict_items kvs)"
  shows "(k, v) \<in> set kvs \<or> (k \<in> {''properties'', ''required'', ''additionalProperties''} \<and>
    (v = JObj [] \<or> v = JBool False \<or> (\<exists>ns. v = JArr (map JStr ns))))"
proof (cases kvs rule: strict_items_cases)
  case (listed ps)
  from in_closed [OF assms [unfolded listed(2)]] show ?thesis by fast
next
  case empty
  from in_closed [OF assms [unfolded empty(3)]] in_put [of k v "''properties''" "JObj []" kvs] show ?thesis by fast
next
  case plain
  with assms show ?thesis by simp
qed

lemma kept_names [simp]: "kept_key ''properties''" "kept_key ''required''" "kept_key ''additionalProperties''"
  by (simp_all add: kept_key_def)

lemma closed_strict_items:
  assumes "\<And>k v. (k, v) \<in> set kvs \<Longrightarrow> kept_key k \<and> closed_schema v"
  shows "closed_schema (JObj (strict_items kvs))"
proof -
  have parts: "kept_key k \<and> closed_schema v" if "(k, v) \<in> set (strict_items kvs)" for k v
  proof -
    from in_strict_items [OF that] consider "(k, v) \<in> set kvs" | "kept_key k" "v = JObj [] \<or> v = JBool False"
      | ns where "kept_key k" "v = JArr (map JStr ns)" by auto
    then show ?thesis
    proof cases
      case 1
      then show ?thesis by (rule assms)
    next
      case 2
      then show ?thesis by auto
    next
      case 3
      then show ?thesis using closed_strings by blast
    qed
  qed
  have "list_all (\<lambda>(k, b). kept_key k \<and> b) (map (map_prod id closed_schema) (strict_items kvs))"
    using parts by (fastforce simp: list_all_iff)
  moreover have "\<forall>ps. map_of (strict_items kvs) ''properties'' = Some (JObj ps) \<longrightarrow>
      map_of (strict_items kvs) ''required'' = Some (JArr (map (JStr \<circ> fst) ps)) \<and>
      map_of (strict_items kvs) ''additionalProperties'' = Some (JBool False)"
    by (cases kvs rule: strict_items_cases) (simp_all add: closed_object_def)
  moreover have "map_of (strict_items kvs) ''type'' = Some (JStr ''object'') \<longrightarrow>
      (\<exists>ps. map_of (strict_items kvs) ''properties'' = Some (JObj ps))"
    by (cases kvs rule: strict_items_cases) (simp_all add: closed_object_def)
  ultimately show ?thesis by simp
qed

lemma strict_items_again: "strict_items (strict_items kvs) = strict_items kvs"
proof (cases kvs rule: strict_items_cases)
  case (listed ps)
  have "closed_object ns (closed_object ns kvs) = closed_object ns kvs" for ns
  proof -
    let ?r = "closed_object ns kvs"
    have "put_item ''required'' (JArr (map JStr ns)) ?r = ?r" "put_item ''additionalProperties'' (JBool False) ?r = ?r"
      by (rule put_same; auto simp: closed_object_def keys_put dest!: in_put)+
    then show ?thesis by (simp add: closed_object_def [of ns ?r])
  qed
  moreover have "map_of (strict_items kvs) ''properties'' = Some (JObj ps)" by (simp add: listed closed_object_def)
  ultimately show ?thesis by (simp add: strict_items_def [of "strict_items kvs"]) (simp add: listed)
next
  case empty
  let ?r = "strict_items kvs"
  have "put_item ''required'' (JArr (map JStr [])) ?r = ?r" "put_item ''additionalProperties'' (JBool False) ?r = ?r"
    unfolding empty by (rule put_same; auto simp: closed_object_def keys_put dest!: in_put)+
  then have "closed_object [] ?r = ?r" by (simp add: closed_object_def [of "[]" ?r])
  moreover have "map_of ?r ''properties'' = Some (JObj [])" by (simp add: empty closed_object_def)
  ultimately show ?thesis by (simp add: strict_items_def [of ?r])
qed simp

lemma closed_strict: "closed_schema (strict_schema s)"
proof (induction s)
  case (JArr xs)
  then show ?case by (simp add: list_all_iff)
next
  case (JObj kvs)
  then show ?case unfolding strict_schema.simps by (intro closed_strict_items) (fastforce simp: snds.simps)
qed simp_all

lemma strict_again: "strict_schema (strict_schema s) = strict_schema s"
proof (induction s)
  case (JObj kvs)
  let ?k = "filter (\<lambda>(k, _). kept_key k) (map (map_prod id strict_schema) kvs)"
  have kids: "strict_schema v = v \<and> kept_key k" if "(k, v) \<in> set ?k" for k v
    using that JObj by (fastforce simp: snds.simps)
  have all: "strict_schema v = v \<and> kept_key k" if "(k, v) \<in> set (strict_items ?k)" for k v
  proof -
    from in_strict_items [OF that] consider "(k, v) \<in> set ?k" | "kept_key k" "v = JObj [] \<or> v = JBool False"
      | ns where "kept_key k" "v = JArr (map JStr ns)" by (auto simp del: set_filter)
    then show ?thesis
    proof cases
      case 1
      then show ?thesis by (rule kids)
    next
      case 2
      then show ?thesis by (auto simp: strict_items_def)
    next
      case 3
      then show ?thesis using strict_strings by blast
    qed
  qed
  have "map (map_prod id strict_schema) (strict_items ?k) = strict_items ?k"
  proof (rule map_idI)
    fix x assume "x \<in> set (strict_items ?k)"
    then have "strict_schema (snd x) = snd x" using all [of "fst x" "snd x"] by (simp only: prod.collapse)
    then show "map_prod id strict_schema x = x" by (simp add: prod_eq_iff)
  qed
  moreover have "filter (\<lambda>(k, _). kept_key k) (strict_items ?k) = strict_items ?k"
  proof (intro filter_True ballI)
    fix x assume "x \<in> set (strict_items ?k)"
    then have "kept_key (fst x)" using all [of "fst x" "snd x"] by (simp only: prod.collapse)
    then show "case x of (k, _) \<Rightarrow> kept_key k" by (simp add: split_beta)
  qed
  ultimately show ?case by (simp only: strict_schema.simps strict_items_again)
qed simp_all

text \<open>
  C36. For every schema, what the adapter gives to the provider is closed: at every depth an object with a list of properties
  requires exactly these and allows no others, an object without one gets the empty list, and no default or example is
  left. Adapting a schema twice is adapting it once.
\<close>

theorem schema_is_closed:
  "closed_schema (strict_schema s) \<and> strict_schema (strict_schema s) = strict_schema s"
  by (simp add: closed_strict strict_again)

text \<open>Keys are dropped and objects are closed also where a key is the name of a property.\<close>

lemma property_named_default_is_lost:
  "strict_schema (JObj [(''properties'', JObj [(''default'', JObj [(''type'', JStr ''string'')])])]) =
    JObj [(''properties'', JObj []), (''required'', JArr []), (''additionalProperties'', JBool False)]"
  by code_simp

lemma property_named_properties_adds_names:
  "strict_schema (JObj [(''properties'', JObj [(''properties'', JObj [])])]) =
    JObj [(''properties'', JObj [(''properties'', JObj []), (''required'', JArr []), (''additionalProperties'', JBool False)]),
      (''required'', JArr [JStr ''properties'', JStr ''required'', JStr ''additionalProperties'']), (''additionalProperties'', JBool False)]"
  by code_simp

section \<open>Processes\<close>

text \<open>A process leaves the table when its call ends, whether it returned or raised.\<close>

lemma delete_update: "map_of (AList.delete k al) k = None"
  by (simp add: delete_conv')

lemma invoke_leaves_table:
  assumes "run_thread (codex_invoke C argv prompt q key) w = (Inr r, w')"
  shows "map_of (cw_active w') key = None"
  using assms by (auto simp: codex_invoke_def drop_active_def op_defs delete_update split: prod.splits sum.splits)

text \<open>A session in the table whose process runs is told to end, and the answer says whether it did.\<close>

lemma cancel_waits:
  assumes "map_of (cw_active w) (hd_session h) = Some n" and "ce_running C n (cw_ext w)"
  shows "run_thread (codex_cancel C h grace) w =
    seq_op (run_thread (codex_io (ce_terminate C n))) (run_thread (codex_io (ce_wait C n grace))) w"
  using assms by (simp add: codex_cancel_def active_process_def op_defs)

text \<open>
  A process that was started, not resumed, is in the table under its attempt: cancelling its session answers that it
  has ended while it runs on.
\<close>

lemma started_process_is_not_cancelled:
  assumes "hd_session h \<noteq> rq_attempt q" and "map_of (cw_active w) (hd_session h) = None"
    and "run_thread (set_active (active_key q None) n) w = (Inr (), w')"
  shows "run_thread (codex_cancel C h grace) w' = (Inr True, w') \<and> map_of (cw_active w') (rq_attempt q) = Some n"
  using assms by (auto simp: set_active_def active_key_def codex_cancel_def active_process_def op_defs update_conv')

section \<open>Results and events\<close>

text \<open>The exit code does not count when the last message is valid.\<close>

lemma result_ignores_exit:
  assumes "ce_read C output x = (Inr (Inr text), y)" and "ce_result C text = Inr r"
  shows "load_result C output exit err x = (Inr r, y)"
  using assms by (simp add: load_result_def op_defs)

lemma invalid_is_error: "validate_exec_result (invalid_result problem exit err) = Inr ()"
  by (simp add: invalid_result_def Let_def exec_result_of_def validate_exec_result_def min_length_1_def)

text \<open>A line separator inside a string of an event cuts the line in two.\<close>

lemma separator_cuts_event:
  "split_lines (''{\"type\": \"error\", \"text\": \"a'' @ [CHR 0xE2, CHR 0x80, CHR 0xA8] @ ''b\"}'') =
    [''{\"type\": \"error\", \"text\": \"a'', ''b\"}'']"
  by code_simp

end
