(* ===== verification/Decisions.thy ===== *)
theory Decisions
  imports Conversation Contracts_Repo
begin

text \<open>
  \<open>delivery/control.py\<close>: acceptance, rejection and revision of a delivered run by a human. A call goes through the
  conversation, the compiler of messages, the contracts and the planner of runs, all in one store, in several
  transactions, and ends with one record.
\<close>

section \<open>Tables\<close>

record decision =
  dc_id :: string
  dc_message :: string
  dc_intent :: string
  dc_run :: string
  dc_actor :: string
  dc_action :: change_action
  dc_reason :: "string option"
  dc_revision :: int
  dc_report :: int
  dc_new_revision :: "int option"
  dc_new_run :: "string option"
  dc_created :: int

text \<open>Runs that are in the store only by what they delivered.\<close>

record fixture_row =
  fx_run :: string
  fx_contract :: string
  fx_revision :: int

text \<open>
  The tables beside those of conversations. They share one database: the tables of the runtime are those of
  \<open>tw_db\<close>, and \<open>dt_control\<close> is only looked at for its other tables.
\<close>

record decision_tables =
  dt_control :: control_db
  dt_fixtures :: "fixture_row list"
  dt_records :: "decision list"

type_synonym decision_world = "decision_tables talk_world"

definition control_of :: "decision_world \<Rightarrow> control_db" where
  "control_of w = (dt_control (tw_ext w))\<lparr>cs_core := tk_core (tw_db w)\<rparr>"

definition with_control :: "control_db \<Rightarrow> decision_world \<Rightarrow> decision_world" where
  "with_control s w = w\<lparr>tw_db := (tw_db w)\<lparr>tk_core := cs_core s\<rparr>, tw_ext := (tw_ext w)\<lparr>dt_control := s\<rparr>\<rparr>"

definition plane_tx :: "(int \<Rightarrow> (control_db, 'a) op) \<Rightarrow> (decision_world, 'a) thread" where
  "plane_tx m = atomic (\<lambda>w. case m (tw_now w) (control_of w) of
     (Inl e, _) \<Rightarrow> (Inl e, w) | (Inr x, s) \<Rightarrow> (Inr x, with_control s w))"

definition plane_read :: "(control_db \<Rightarrow> py_error + 'a) \<Rightarrow> (decision_world, 'a) thread" where
  "plane_read f = atomic (\<lambda>w. (f (control_of w), w))"

section \<open>HumanDecisionService\<close>

definition decision_of :: "string \<Rightarrow> decision_world \<Rightarrow> decision option" where
  "decision_of k w = lookup_row dc_message k (dt_records (tw_ext w))"

definition decision_conversation :: "human_message \<Rightarrow> string" where
  "decision_conversation m = ''delivery:'' @ hm_project m @ '':'' @ hm_actor m"

text \<open>The conversation of the actor is found and pointed at the run, or created; a KeyError of either step creates it.\<close>

definition open_conversation :: "human_message \<Rightarrow> string \<Rightarrow> (decision_world, unit) thread" where
  "open_conversation m run = catch_t
     (bind_t (get_conversation (decision_conversation m)) (\<lambda>_. set_active_run (decision_conversation m) (Some run)))
     (\<lambda>e. case e of
        KeyError _ \<Rightarrow> bind_t (create_conversation (decision_conversation m) (hm_project m) (hm_actor m) (Some run)) (\<lambda>_. return_t ())
      | _ \<Rightarrow> raise_t e)"

definition confirms :: "human_message \<Rightarrow> bool" where
  "confirms m \<longleftrightarrow> occurs_in ''confirm'' (fold_text (hm_content m)) \<or>
     occurs_in [CHR 0xE7, CHR 0xA1, CHR 0xAE, CHR 0xE8, CHR 0xAE, CHR 0xA4] (hm_content m)"

definition decision_intent :: "human_message \<Rightarrow> string \<Rightarrow> change_action \<Rightarrow> py_error + change_intent" where
  "decision_intent m run action =
     bind_sum (compile_message m (Some run) 2) (\<lambda>c. case co_intent c of
       Some (ChangeIntent i) \<Rightarrow>
         if ci_action i \<noteq> action then Inl (ValueError ''HumanMessage did not compile to the requested typed delivery action'')
         else if \<not> in_confirm i \<or> \<not> confirms m then Inl (ValueError ''explicit Human confirmation is required'')
         else Inr i
     | _ \<Rightarrow> Inl (ValueError ''HumanMessage did not compile to the requested typed delivery action''))"

text \<open>\<open>_contract\<close>\<close>

definition contract_of_run :: "string \<Rightarrow> decision_world \<Rightarrow> py_error + string \<times> int" where
  "contract_of_run run w = (case find (\<lambda>r. rn_id r = run) (db_runs (tk_core (tw_db w))) of
     Some r \<Rightarrow> Inr (cr_id (rn_contract r), cr_revision (rn_contract r))
   | None \<Rightarrow> (case lookup_row fx_run run (dt_fixtures (tw_ext w)) of
       Some f \<Rightarrow> Inr (fx_contract f, fx_revision f)
     | None \<Rightarrow> Inl (KeyError run)))"

definition decision_delta :: "human_message \<Rightarrow> string option \<Rightarrow> string \<Rightarrow> int \<Rightarrow> task_contract \<Rightarrow> contract_delta" where
  "decision_delta m reason c n source =
     \<lparr>dl_id = ''delta:'' @ hm_id m, dl_contract = c, dl_source = n,
      dl_description = (case reason of Some (x # xs) \<Rightarrow> x # xs | _ \<Rightarrow> ''Human revision''),
      dl_replacement = td_description (tc_task source) @ [CHR 0x0A, CHR 0x0A] @ ''Human revision: '' @
        (case reason of None \<Rightarrow> ''None'' | Some r \<Rightarrow> r)\<rparr>"

text \<open>
  What a rejection or a revision does to the contract: the number of its next revision, and for a revision the run
  that is planned. Without the frozen revision in the store only the number is counted on.
\<close>

definition revise_contract :: "digests \<Rightarrow> human_message \<Rightarrow> change_action \<Rightarrow> string option \<Rightarrow> string \<Rightarrow> string \<Rightarrow> int \<Rightarrow>
    (decision_world, int option \<times> string option) thread" where
  "revise_contract D m action reason run c n =
     bind_t (plane_read (\<lambda>s. Inr (revision_of c n s))) (\<lambda>frozen. case frozen of
       None \<Rightarrow> return_t (Some (n + 1), None)
     | Some r \<Rightarrow>
         bind_t (Done (load_contract (rev_body r))) (\<lambda>source.
         bind_t (Done (construct validate_delta (decision_delta m reason c n source))) (\<lambda>delta.
         bind_t (plane_tx (\<lambda>now. apply_delta D now delta m)) (\<lambda>revised.
         if action = CA_Revise
         then bind_t (plane_tx (\<lambda>_. plan_run D (hm_project m) revised (Some run) None None)) (\<lambda>planned.
           return_t (Some (tc_revision (fz_contract revised)), Some (pr_id planned)))
         else return_t (Some (tc_revision (fz_contract revised)), None)))))"

definition follow_contract :: "digests \<Rightarrow> human_message \<Rightarrow> change_action \<Rightarrow> string option \<Rightarrow> string \<Rightarrow> string \<Rightarrow> int \<Rightarrow>
    (decision_world, int option \<times> string option) thread" where
  "follow_contract D m action reason run c n =
     (if action \<in> {CA_Reject, CA_Revise} then revise_contract D m action reason run c n else return_t (None, None))"

definition fresh_record_id :: "(decision_world, string) thread" where
  "fresh_record_id = atomic (\<lambda>w. let n = db_uuid (tk_core (tw_db w)) in
     (Inr (''acceptance:'' @ uuid_str n), w\<lparr>tw_db := (tw_db w)\<lparr>tk_core := (tk_core (tw_db w))\<lparr>db_uuid := Suc n\<rparr>\<rparr>\<rparr>))"

definition record_free :: "decision \<Rightarrow> decision list \<Rightarrow> bool" where
  "record_free r t \<longleftrightarrow> dc_id r \<notin> dc_id ` set t \<and> dc_message r \<notin> dc_message ` set t \<and> dc_intent r \<notin> dc_intent ` set t"

definition number_or_null :: "int option \<Rightarrow> json" where
  "number_or_null x = (case x of None \<Rightarrow> JNull | Some n \<Rightarrow> JInt n)"

definition decision_payload :: "decision \<Rightarrow> (string \<times> json) list" where
  "decision_payload r =
     [(''record_id'', JStr (dc_id r)), (''message_id'', JStr (dc_message r)), (''contract_revision'', JInt (dc_revision r)),
      (''report_revision'', JInt (dc_report r)), (''new_contract_revision'', number_or_null (dc_new_revision r)),
      (''new_run_id'', str_or_null (dc_new_run r)), (''merge_performed'', JBool False)]"

definition put_decision :: "decision \<Rightarrow> (decision_world, decision) thread" where
  "put_decision r = atomic (\<lambda>w. let q = r\<lparr>dc_created := tw_now w\<rparr> in
     if record_free q (dt_records (tw_ext w))
     then (Inr q, w\<lparr>tw_db := snd (talk_event (''human.delivery.'' @ ca_value (dc_action q)) (dc_run q) (decision_payload q) (tw_db w)),
       tw_ext := (tw_ext w)\<lparr>dt_records := dt_records (tw_ext w) @ [q]\<rparr>\<rparr>)
     else (Inl (IntegrityError ''UNIQUE constraint failed: human_acceptance_records''), w))"

definition apply_decision :: "digests \<Rightarrow> human_message \<Rightarrow> change_action \<Rightarrow> string option \<Rightarrow> int \<Rightarrow> (decision_world, decision) thread" where
  "apply_decision D m action reason report = (case hm_run m of
     None \<Rightarrow> raise_t (ValueError ''Human delivery decision requires an explicit Run target'')
   | Some run \<Rightarrow>
       bind_t (reads (decision_of (hm_id m))) (\<lambda>existing. case existing of
         Some r \<Rightarrow> return_t r
       | None \<Rightarrow>
           seq_t (open_conversation m run)
           (seq_t (append_message (decision_conversation m) m)
           (bind_t (Done (decision_intent m run action)) (\<lambda>intent.
            bind_t (atomic (ask (contract_of_run run))) (\<lambda>(c, n).
            bind_t (follow_contract D m action reason run c n) (\<lambda>(revision, new_run).
            bind_t fresh_record_id (\<lambda>k.
            put_decision \<lparr>dc_id = k, dc_message = hm_id m, dc_intent = in_id intent, dc_run = run, dc_actor = hm_actor m,
              dc_action = action, dc_reason = reason, dc_revision = n, dc_report = report, dc_new_revision = revision,
              dc_new_run = new_run, dc_created = 0\<rparr>))))))))"

definition accept_run :: "digests \<Rightarrow> human_message \<Rightarrow> int \<Rightarrow> (decision_world, decision) thread" where
  "accept_run D m report = apply_decision D m CA_Accept None report"

definition reject_run :: "digests \<Rightarrow> human_message \<Rightarrow> string \<Rightarrow> int \<Rightarrow> (decision_world, decision) thread" where
  "reject_run D m reason report = seq_t (require_t (\<not> all_white reason) (ValueError ''reject reason is required''))
     (apply_decision D m CA_Reject (Some (strip_text reason)) report)"

definition revise_run :: "digests \<Rightarrow> human_message \<Rightarrow> string \<Rightarrow> int \<Rightarrow> (decision_world, decision) thread" where
  "revise_run D m reason report = seq_t (require_t (\<not> all_white reason) (ValueError ''revise reason is required''))
     (apply_decision D m CA_Revise (Some (strip_text reason)) report)"

text \<open>\<open>history\<close>: in the order in which the records were made.\<close>

definition decision_history :: "string \<Rightarrow> decision_world \<Rightarrow> decision list" where
  "decision_history run w = order_by dc_created (filter (\<lambda>r. dc_run r = run) (dt_records (tw_ext w)))"

end
