(* ===== verification/Decision_Laws.thy ===== *)
theory Decision_Laws
  imports Decisions Talk_Laws
begin

text \<open>
  Decisions of humans at the same time as each other and as everything else that uses the store: one record for a
  message, of what the message says.
\<close>

section \<open>What a record says\<close>

definition deltas_of :: "decision_world \<Rightarrow> delta_row set" where
  "deltas_of w = set (cs_deltas (dt_control (tw_ext w)))"

definition planned_ids :: "decision_world \<Rightarrow> string set" where
  "planned_ids w = pl_id ` set (cs_planned (dt_control (tw_ext w)))"

definition records_of :: "decision_world \<Rightarrow> decision list" where
  "records_of w = dt_records (tw_ext w)"

definition stated :: "decision_world \<Rightarrow> decision \<Rightarrow> bool" where
  "stated w r \<longleftrightarrow> (\<exists>m \<in> said w. hm_id m = dc_message r \<and> hm_actor m = dc_actor r \<and> hm_run m = Some (dc_run r) \<and>
     matched (hm_content m) = [ChangeAct (dc_action r)] \<and> confirms m)"

text \<open>What a decision on revision \<open>n\<close> has led to: a revision of the contract, and for a revision of the run a planned run.\<close>

definition followed_up :: "delta_row set \<Rightarrow> string set \<Rightarrow> string \<Rightarrow> change_action \<Rightarrow> int \<Rightarrow> int option \<Rightarrow> string option \<Rightarrow> bool" where
  "followed_up deltas planned k action n revision run \<longleftrightarrow>
     (action = CA_Accept \<and> revision = None \<and> run = None) \<or>
     (action \<in> {CA_Reject, CA_Revise} \<and>
       ((\<exists>d \<in> deltas. de_message d = k \<and> dl_source (de_delta d) = n \<and> revision = Some (de_new d)) \<or>
        (revision = Some (n + 1) \<and> run = None)) \<and>
       (\<forall>r. run = Some r \<longrightarrow> action = CA_Revise \<and> r \<in> planned))"

lemma followed_up_mono:
  "followed_up A P k action n revision run \<Longrightarrow> A \<subseteq> B \<Longrightarrow> P \<subseteq> Q \<Longrightarrow> followed_up B Q k action n revision run"
  unfolding followed_up_def by blast

definition carried_out :: "decision_world \<Rightarrow> decision \<Rightarrow> bool" where
  "carried_out w r \<longleftrightarrow> (dc_reason r = None \<longleftrightarrow> dc_action r = CA_Accept) \<and>
     followed_up (deltas_of w) (planned_ids w) (dc_message r) (dc_action r) (dc_revision r) (dc_new_revision r) (dc_new_run r)"

definition decisions_stay :: "decision_world \<Rightarrow> decision_world \<Rightarrow> bool" where
  "decisions_stay w w' \<longleftrightarrow> said w \<subseteq> said w' \<and> set (records_of w) \<subseteq> set (records_of w') \<and> deltas_of w \<subseteq> deltas_of w' \<and>
     planned_ids w \<subseteq> planned_ids w'"

definition decisions_sound :: "decision_world \<Rightarrow> bool" where
  "decisions_sound w \<longleftrightarrow> distinct (map dc_message (records_of w)) \<and> (\<forall>r \<in> set (records_of w). stated w r \<and> carried_out w r)"

lemma stated_stays: "decisions_stay w w' \<Longrightarrow> stated w r \<Longrightarrow> stated w' r"
  by (auto simp: decisions_stay_def stated_def)

lemma carried_out_stays: "decisions_stay w w' \<Longrightarrow> carried_out w r \<Longrightarrow> carried_out w' r"
  by (auto simp: decisions_stay_def carried_out_def intro: followed_up_mono)

interpretation decisions: rely_guarantee decisions_stay decisions_sound
  by unfold_locales (auto simp: decisions_stay_def)

lemma sound_stays:
  assumes "decisions_sound w" and "decisions_stay w w'" and "records_of w' = records_of w"
  shows "decisions_sound w'"
  using assms stated_stays carried_out_stays by (simp add: decisions_sound_def)

section \<open>Steps\<close>

text \<open>The threads of the conversation leave the other tables alone and remove no message.\<close>

definition only_says :: "decision_world \<Rightarrow> decision_world \<Rightarrow> bool" where
  "only_says w w' \<longleftrightarrow> tw_ext w' = tw_ext w \<and> said w \<subseteq> said w'"

lemma only_says_stays: "only_says w w' \<Longrightarrow> decisions_stay w w'"
  by (simp add: only_says_def decisions_stay_def records_of_def deltas_of_def planned_ids_def)

lemma only_says_secure: "steps_in only_says m \<Longrightarrow> decisions.holds (\<lambda>_ _. True) w m"
proof (erule decisions.steps_secure)
  fix t u assume tu: "decisions_sound t" "only_says t u"
  then have "records_of u = records_of t" by (simp add: only_says_def records_of_def)
  with tu only_says_stays [OF tu(2)] sound_stays show "decisions_sound u \<and> decisions_stay t u" by blast
qed

lemma talk_tx_says:
  assumes "\<And>now d x d'. m now d = (Inr x, d') \<Longrightarrow> set (tk_messages d) \<subseteq> set (tk_messages d')"
  shows "steps_in only_says (talk_tx m)"
  unfolding talk_tx_def
proof (rule steps_atomic)
  fix w
  show "only_says w (snd (case m (tw_now w) (tw_db w) of (Inl e, _) \<Rightarrow> (Inl e, w) | (Inr x, d) \<Rightarrow> (Inr x, w\<lparr>tw_db := d\<rparr>)))"
  proof (cases "m (tw_now w) (tw_db w)")
    case (Pair r d)
    then show ?thesis using image_mono [OF assms, of "tw_now w" "tw_db w" _ d me_message]
      by (cases r) (simp_all add: only_says_def said_def)
  qed
qed

lemma read_says: "steps_in only_says (talk_read f)"
  unfolding talk_read_def by (rule steps_atomic) (simp add: only_says_def)

lemma get_says: "steps_in only_says (get_conversation k)"
  unfolding get_conversation_def by (rule read_says)

lemma run_says: "steps_in only_says (set_active_run k run)"
  unfolding set_active_run_def by (rule talk_tx_says) (auto split: if_splits)

lemma create_says: "steps_in only_says (create_conversation k project actor run)"
  unfolding create_conversation_def
  by (intro steps_intros get_says talk_tx_says)
    (auto simp: insert_conversation_def elim!: seq_op_InrE dest!: talk_event_Inr split: option.splits)

lemma open_secure: "decisions.holds (\<lambda>_ _. True) w (open_conversation m run)"
  unfolding open_conversation_def
  by (rule only_says_secure, intro steps_intros get_says run_says create_says)
    (auto split: py_error.split intro: steps_intros create_says)

lemma put_message_said:
  assumes "put_message k m d = (Inr x, d')"
  shows "set (tk_messages d) \<subseteq> set (tk_messages d') \<and> m \<in> me_message ` set (tk_messages d')"
  using assms by (auto simp: put_message_def lookup_row_def image_iff dest!: find_SomeD talk_event_Inr split: option.splits if_splits)

lemma say_secure: "decisions.holds (\<lambda>_ t. m \<in> said t) w (append_message k m)"
  unfolding append_message_def
proof (rule decisions.bind [OF only_says_secure [OF get_says]],
    rule decisions.seq [OF decisions.simple_threads(3) [where P = "\<lambda>_ _. True"]], simp)
  fix x :: unit and t
  show "decisions.holds (\<lambda>_ t. m \<in> said t) t (talk_tx (\<lambda>_. put_message k m))"
    unfolding talk_tx_def
  proof (rule decisions.atomic_op)
    fix u r v assume u: "decisions_sound u"
      and "(case put_message k m (tw_db u) of (Inl e, _) \<Rightarrow> (Inl e, u) | (Inr x, d) \<Rightarrow> (Inr x, u\<lparr>tw_db := d\<rparr>)) = (r, v)"
    then have "only_says u v \<and> (\<forall>x. r = Inr x \<longrightarrow> m \<in> said v)"
      by (auto simp: only_says_def said_def dest!: put_message_said split: prod.splits sum.splits)
    with u show "decisions_sound v \<and> decisions_stay u v \<and> (\<forall>x. r = Inr x \<longrightarrow> m \<in> said v)"
      using only_says_stays sound_stays by (fastforce simp: only_says_def records_of_def)
  qed
qed

text \<open>Transactions of the control plane.\<close>

lemma plane_tx_secure:
  assumes "\<And>t x s. decisions_stay w t \<Longrightarrow> decisions_sound t \<Longrightarrow> m (tw_now t) (control_of t) = (Inr x, s) \<Longrightarrow>
    set (cs_deltas (control_of t)) \<subseteq> set (cs_deltas s) \<and> pl_id ` set (cs_planned (control_of t)) \<subseteq> pl_id ` set (cs_planned s) \<and>
    Q x (with_control s t)"
  shows "decisions.holds Q w (plane_tx m)"
  unfolding plane_tx_def
proof (rule decisions.atomic_op)
  fix t r u assume t: "decisions_stay w t" "decisions_sound t"
    and m: "(case m (tw_now t) (control_of t) of (Inl e, _) \<Rightarrow> (Inl e, t) | (Inr x, s) \<Rightarrow> (Inr x, with_control s t)) = (r, u)"
  show "decisions_sound u \<and> decisions_stay t u \<and> (\<forall>x. r = Inr x \<longrightarrow> Q x u)"
  proof (cases r)
    case (Inl e)
    then have "u = t" using m by (auto split: prod.splits sum.splits)
    with t Inl show ?thesis by (simp add: decisions.rely_refl)
  next
    case (Inr x)
    then obtain s where s: "m (tw_now t) (control_of t) = (Inr x, s)" "u = with_control s t" using m by (auto split: prod.splits sum.splits)
    note new = assms [OF t s(1)]
    have "decisions_stay t u"
      using new by (simp add: s(2) with_control_def control_of_def decisions_stay_def said_def records_of_def deltas_of_def planned_ids_def)
    moreover have "records_of u = records_of t" by (simp add: s(2) with_control_def records_of_def)
    ultimately show ?thesis using sound_stays t(2) new s(2) Inr by simp
  qed
qed

lemma insert_frozen_frame:
  "insert_frozen D now c k s = (Inr u, t) \<Longrightarrow>
     cs_deltas t = cs_deltas s \<and> cs_planned t = cs_planned s \<and>
     revision_of (tc_id c) (tc_revision c) t = Some (revision_row_of D c k)"
proof -
  assume "insert_frozen D now c k s = (Inr u, t)"
  then have free: "revision_free (revision_row_of D c k) s"
    and t: "t = s\<lparr>cs_revisions := cs_revisions s @ [revision_row_of D c k], cs_locks := cs_locks s @ [lock_row_of D now c k]\<rparr>"
    by (auto simp: insert_frozen_def insert_revision_def insert_lock_def elim!: seq_op_InrE split: if_splits)
  have key: "revision_key (revision_row_of D c k) = (tc_id c, tc_revision c)" by (simp add: revision_key_def revision_row_of_def)
  then have "find (\<lambda>r. revision_key r = (tc_id c, tc_revision c)) (cs_revisions s) = None"
    using free unfolding revision_free_def free_key_def find_None_iff by force
  then show ?thesis by (simp add: t revision_of_def lookup_row_def key)
qed

lemma delta_applied:
  assumes "apply_delta D now d m s = (Inr f, t)"
  shows "cs_deltas t = cs_deltas s @ [\<lparr>de_delta = d, de_new = tc_revision (fz_contract f), de_message = hm_id m\<rparr>]"
    and "cs_planned t = cs_planned s"
proof -
  obtain source revised s1 s2 s3 where source: "delta_source d s = Inr source" "revised_contract d source = Inr revised"
    and s1: "insert_frozen D now revised (hm_id m) s = (Inr (), s1)"
    and s2: "insert_delta \<lparr>de_delta = d, de_new = tc_revision source + 1, de_message = hm_id m\<rparr> s1 = (Inr (), s2)"
    and s3: "log_event ''contract.revision.created'' (event_run m (tc_id revised))
            [(''delta_id'', JStr (dl_id d)), (''revision'', JInt (tc_revision source + 1))] s2 = (Inr (), s3)"
    and f: "frozen_of (tc_id revised) (tc_revision source + 1) s3 = Inr f" "t = s3"
    using assms unfolding apply_delta_def
    by (auto simp: committed_Inr op_Inr elim!: bind_op_InrE seq_op_InrE split: if_splits)
  have number: "tc_revision revised = tc_revision source + 1"
    using source(2) by (auto simp: revised_contract_def bind_sum_Inr load_contract_def split: if_splits)
  note frame = insert_frozen_frame [OF s1]
  have s2': "s2 = s1\<lparr>cs_deltas := cs_deltas s1 @ [\<lparr>de_delta = d, de_new = tc_revision source + 1, de_message = hm_id m\<rparr>]\<rparr>"
    using s2 by (auto simp: insert_delta_def split: if_splits)
  obtain c where s3': "s3 = s2\<lparr>cs_core := c\<rparr>" using log_event_Inr [OF s3] by blast
  have "revision_of (tc_id revised) (tc_revision source + 1) s3 = Some (revision_row_of D revised (hm_id m))"
    using frame by (simp add: s3' s2' revision_of_def number)
  then have "fz_contract f = revised"
    using f(1) by (auto simp: frozen_of_def bind_sum_Inr load_contract_def revision_row_of_def split: option.splits if_splits)
  with frame number show "cs_deltas t = cs_deltas s @ [\<lparr>de_delta = d, de_new = tc_revision (fz_contract f), de_message = hm_id m\<rparr>]"
    "cs_planned t = cs_planned s"
    by (simp_all add: f(2) s3' s2')
qed

lemma plan_tx_frame:
  assumes "plan_tx D row s = (Inr u, t)"
  shows "cs_deltas t = cs_deltas s" and "set (cs_planned s) \<subseteq> set (cs_planned t)" and "pl_id row \<in> pl_id ` set (cs_planned t)"
proof -
  have "cs_deltas t = cs_deltas s \<and> set (cs_planned s) \<subseteq> set (cs_planned t) \<and> pl_id row \<in> pl_id ` set (cs_planned t)"
  proof (cases "planned_of (pl_id row) s")
    case None
    with assms obtain s1 where "insert_planned row s = (Inr (), s1)" "\<exists>c. t = s1\<lparr>cs_core := c\<rparr>"
      by (auto simp: plan_tx_def op_defs log_event_eq split: if_splits prod.splits sum.splits)
    then show ?thesis by (auto simp: insert_planned_def split: if_splits)
  next
    case (Some old)
    with assms have "t = s" by (auto simp: plan_tx_def op_defs split: if_splits)
    with Some show ?thesis by (auto simp: planned_of_def lookup_row_def dest!: find_SomeD intro: rev_image_eqI)
  qed
  then show "cs_deltas t = cs_deltas s" "set (cs_planned s) \<subseteq> set (cs_planned t)" "pl_id row \<in> pl_id ` set (cs_planned t)" by blast+
qed

lemma run_planned:
  assumes "plan_run D project f source restart given s = (Inr p, t)"
  shows "cs_deltas t = cs_deltas s \<and> set (cs_planned s) \<subseteq> set (cs_planned t) \<and> pr_id p \<in> pl_id ` set (cs_planned t)"
proof -
  obtain g u where "plan_tx D (plan_row D (pr_id p) project (fz_contract f) g source restart) s = (Inr u, t)"
    using assms unfolding plan_run_def Let_def
    by (auto simp: committed_Inr op_Inr elim!: bind_op_InrE seq_op_InrE split: if_splits)
  from plan_tx_frame [OF this] show ?thesis by (simp add: plan_row_def)
qed

section \<open>Decisions\<close>

definition revised_as :: "human_message \<Rightarrow> change_action \<Rightarrow> int \<Rightarrow> int option \<times> string option \<Rightarrow> decision_world \<Rightarrow> bool" where
  "revised_as m action n x w \<longleftrightarrow> followed_up (deltas_of w) (planned_ids w) (hm_id m) action n (fst x) (snd x)"

lemma revised_as_stays: "revised_as m action n x w \<Longrightarrow> decisions_stay w w' \<Longrightarrow> revised_as m action n x w'"
  by (auto simp: revised_as_def decisions_stay_def intro: followed_up_mono)

lemma plane_read_secure: "decisions.holds (\<lambda>_ _. True) w (plane_read f)"
  unfolding plane_read_def
  by (rule only_says_secure, rule steps_atomic) (simp add: only_says_def)

lemma delta_secure:
  "decisions.holds (\<lambda>f t. \<exists>d \<in> deltas_of t. de_message d = hm_id m \<and> de_delta d = delta \<and> de_new d = tc_revision (fz_contract f)) w
     (plane_tx (\<lambda>now. apply_delta D now delta m))"
proof (rule plane_tx_secure)
  fix t f s assume "apply_delta D (tw_now t) delta m (control_of t) = (Inr f, s)"
  from delta_applied [OF this] show "set (cs_deltas (control_of t)) \<subseteq> set (cs_deltas s) \<and>
      pl_id ` set (cs_planned (control_of t)) \<subseteq> pl_id ` set (cs_planned s) \<and>
      (\<exists>d \<in> deltas_of (with_control s t). de_message d = hm_id m \<and> de_delta d = delta \<and> de_new d = tc_revision (fz_contract f))"
    by (auto simp: deltas_of_def with_control_def)
qed

lemma plan_secure:
  "decisions.holds (\<lambda>p t. pr_id p \<in> planned_ids t) w (plane_tx (\<lambda>_. plan_run D project f source restart given))"
  by (rule plane_tx_secure) (use run_planned in \<open>fastforce simp: planned_ids_def with_control_def\<close>)

lemma revise_secure:
  assumes "action \<in> {CA_Reject, CA_Revise}"
  shows "decisions.holds (revised_as m action n) w (revise_contract D m action reason run c n)"
  unfolding revise_contract_def
proof (rule decisions.bind [OF plane_read_secure])
  fix frozen t
  show "decisions.holds (revised_as m action n) t (case frozen of None \<Rightarrow> return_t (Some (n + 1), None)
     | Some r \<Rightarrow> bind_t (Done (load_contract (rev_body r))) (\<lambda>source.
         bind_t (Done (construct validate_delta (decision_delta m reason c n source))) (\<lambda>delta.
         bind_t (plane_tx (\<lambda>now. apply_delta D now delta m)) (\<lambda>revised.
         if action = CA_Revise
         then bind_t (plane_tx (\<lambda>_. plan_run D (hm_project m) revised (Some run) None None)) (\<lambda>planned.
           return_t (Some (tc_revision (fz_contract revised)), Some (pr_id planned)))
         else return_t (Some (tc_revision (fz_contract revised)), None)))))"
  proof (cases frozen)
    case None
    then show ?thesis using assms by (auto intro!: decisions.simple_threads simp: revised_as_def followed_up_def)
  next
    case (Some r)
    have delta: "decisions.holds (\<lambda>d _. dl_source d = n) v (Done (construct validate_delta (decision_delta m reason c n source)))" for v source
      by (rule secure.secure_done) (simp add: decision_delta_def)
    have source: "decisions.holds (\<lambda>_ _. True) v (Done (load_contract (rev_body r)))" for v by (rule secure.secure_done) simp
    show ?thesis unfolding Some option.case
    proof (rule decisions.bind [OF source], rule decisions.bind [OF delta], rule decisions.bind [OF delta_secure], goal_cases)
      case (1 source u delta v revised x)
      then obtain d where d: "d \<in> deltas_of x" "de_message d = hm_id m" "dl_source (de_delta d) = n" "de_new d = tc_revision (fz_contract revised)"
        by blast
      show ?case
      proof (cases "action = CA_Revise")
        case True
        have "decisions.holds (revised_as m action n) x (bind_t (plane_tx (\<lambda>_. plan_run D (hm_project m) revised (Some run) None None))
            (\<lambda>planned. return_t (Some (tc_revision (fz_contract revised)), Some (pr_id planned))))"
        proof (rule decisions.bind [OF plan_secure], rule decisions.simple_threads)
          fix p y assume "pr_id p \<in> planned_ids y" "decisions_stay x y"
          with d True show "revised_as m action n (Some (tc_revision (fz_contract revised)), Some (pr_id p)) y"
            by (force simp: revised_as_def decisions_stay_def followed_up_def)
        qed
        with True show ?thesis by simp
      next
        case False
        with d assms show ?thesis by (auto intro!: decisions.simple_threads simp: revised_as_def followed_up_def) metis
      qed
    qed
  qed
qed

lemma follow_secure:
  "action \<in> {CA_Accept, CA_Reject, CA_Revise} \<Longrightarrow>
    decisions.holds (revised_as m action n) w (follow_contract D m action reason run c n)"
  unfolding follow_contract_def
  by (cases "action = CA_Accept") (auto simp: revise_secure revised_as_def followed_up_def intro!: decisions.simple_threads)

lemma fresh_record_secure: "decisions.holds (\<lambda>_ _. True) w fresh_record_id"
  unfolding fresh_record_id_def
  by (rule only_says_secure, rule steps_atomic) (simp add: only_says_def Let_def said_def)

lemma snd_talk_event: "\<exists>c. snd (talk_event ty run p d) = d\<lparr>tk_core := c\<rparr>"
  using talk_event_eq [of ty run p d] by auto

lemma put_decision_secure:
  assumes "stated w r" and "carried_out w r"
  shows "decisions.holds (\<lambda>q t. q \<in> set (records_of t) \<and> dc_message q = dc_message r) w (put_decision r)"
  unfolding put_decision_def
proof (rule decisions.atomic_op)
  fix t x u assume t: "decisions_stay w t" "decisions_sound t"
    and m: "(let q = r\<lparr>dc_created := tw_now t\<rparr> in
     if record_free q (dt_records (tw_ext t))
     then (Inr q, t\<lparr>tw_db := snd (talk_event (''human.delivery.'' @ ca_value (dc_action q)) (dc_run q) (decision_payload q) (tw_db t)),
       tw_ext := (tw_ext t)\<lparr>dt_records := dt_records (tw_ext t) @ [q]\<rparr>\<rparr>)
     else (Inl (IntegrityError ''UNIQUE constraint failed: human_acceptance_records''), t)) = (x, u)"
  let ?q = "r\<lparr>dc_created := tw_now t\<rparr>"
  show "decisions_sound u \<and> decisions_stay t u \<and> (\<forall>q. x = Inr q \<longrightarrow> q \<in> set (records_of u) \<and> dc_message q = dc_message r)"
  proof (cases "record_free ?q (dt_records (tw_ext t))")
    case False
    with m t show ?thesis by (auto simp: Let_def decisions.rely_refl)
  next
    case True
    obtain c where c: "snd (talk_event (''human.delivery.'' @ ca_value (dc_action ?q)) (dc_run ?q) (decision_payload ?q) (tw_db t)) = (tw_db t)\<lparr>tk_core := c\<rparr>"
      using snd_talk_event by blast
    with True m have u: "u = t\<lparr>tw_db := (tw_db t)\<lparr>tk_core := c\<rparr>, tw_ext := (tw_ext t)\<lparr>dt_records := dt_records (tw_ext t) @ [?q]\<rparr>\<rparr>"
      and x: "x = Inr ?q" by (auto simp: Let_def)
    have records: "records_of u = records_of t @ [?q]" and same: "said u = said t" "deltas_of u = deltas_of t" "planned_ids u = planned_ids t"
      by (simp_all add: u records_of_def said_def deltas_of_def planned_ids_def)
    then have grows: "decisions_stay t u" by (auto simp: decisions_stay_def)
    have "stated t r" "carried_out t r" using assms stated_stays [OF t(1)] carried_out_stays [OF t(1)] by blast+
    then have "stated u ?q" "carried_out u ?q" by (simp_all add: stated_def carried_out_def same)
    moreover have "dc_message r \<notin> dc_message ` set (records_of t)" using True by (simp add: record_free_def records_of_def)
    moreover have "stated u q \<and> carried_out u q" if "q \<in> set (records_of t)" for q
      using that t(2) stated_stays [OF grows] carried_out_stays [OF grows] by (simp add: decisions_sound_def)
    ultimately have "decisions_sound u" using t(2) by (auto simp: decisions_sound_def records)
    with grows show ?thesis by (simp add: x records)
  qed
qed

lemma intent_of_decision:
  assumes "decision_intent m run action = Inr i"
  shows "matched (hm_content m) = [ChangeAct action]" and "confirms m" and "in_id i = ''intent:'' @ hm_id m"
proof -
  have "\<exists>c. compile_message m (Some run) 2 = Inr c \<and> co_intent c = Some (ChangeIntent i) \<and> ci_action i = action \<and> confirms m"
  proof -
    from assms obtain c where c: "compile_message m (Some run) 2 = Inr c"
      and rest: "(case co_intent c of
       Some (ChangeIntent i) \<Rightarrow>
         if ci_action i \<noteq> action then Inl (ValueError ''HumanMessage did not compile to the requested typed delivery action'')
         else if \<not> in_confirm i \<or> \<not> confirms m then Inl (ValueError ''explicit Human confirmation is required'')
         else Inr i
     | _ \<Rightarrow> Inl (ValueError ''HumanMessage did not compile to the requested typed delivery action'')) = Inr i"
      unfolding decision_intent_def bind_sum_Inr by blast
    show ?thesis
    proof (cases "co_intent c")
      case None
      with rest show ?thesis by simp
    next
      case (Some ci)
      with rest c show ?thesis by (cases ci) (simp_all split: if_splits)
    qed
  qed
  then obtain c where c: "compile_message m (Some run) 2 = Inr c" "co_intent c = Some (ChangeIntent i)" "ci_action i = action" "confirms m"
    by blast
  from compiled_change [OF c(1,2)] c(3) show "matched (hm_content m) = [ChangeAct action]" "in_id i = ''intent:'' @ hm_id m"
    by (auto simp: change_of_def)
  show "confirms m" by (fact c(4))
qed

definition decided_as :: "human_message \<Rightarrow> decision \<Rightarrow> decision_world \<Rightarrow> bool" where
  "decided_as m r w \<longleftrightarrow> r \<in> set (records_of w) \<and> dc_message r = hm_id m"

lemma decided_stays: "decided_as m r w \<Longrightarrow> decisions_stay w w' \<Longrightarrow> decided_as m r w'"
  by (auto simp: decided_as_def decisions_stay_def)

lemma decision_secure:
  assumes "action \<in> {CA_Accept, CA_Reject, CA_Revise}" and "reason = None \<longleftrightarrow> action = CA_Accept"
  shows "decisions.holds (decided_as m) w (apply_decision D m action reason report)"
proof (cases "hm_run m")
  case None
  then show ?thesis by (simp add: apply_decision_def decisions.simple_threads)
next
  case (Some run)
  let ?Q = "\<lambda>found t. \<forall>r. found = Some r \<longrightarrow> decided_as m r t"
  have known: "decisions.holds ?Q w (reads (decision_of (hm_id m)))"
    unfolding reads_def
    by (rule decisions.atomic_op) (auto simp: gets_def decision_of_def lookup_row_def decided_as_def records_of_def decisions.rely_refl dest!: find_SomeD)
  show ?thesis unfolding apply_decision_def Some option.case
  proof (rule decisions.bind [OF known], goal_cases)
    case (1 found t)
    show ?case
    proof (cases found)
      case (Some r)
      with 1 show ?thesis by (simp add: decisions.simple_threads)
    next
      case None
      have intent: "decisions.holds (\<lambda>i _. decision_intent m run action = Inr i) v (Done (decision_intent m run action))" for v
        by (rule secure.secure_done) simp
      have contract: "decisions.holds (\<lambda>_ _. True) v (atomic (ask (contract_of_run run)))" for v
        by (rule only_says_secure, rule steps_atomic) (simp add: only_says_def ask_def)
      show ?thesis unfolding None option.case
      proof (rule decisions.seq [OF open_secure], rule decisions.seq [OF say_secure], rule decisions.bind [OF intent],
          rule decisions.bind [OF contract], goal_cases)
        case (1 y t u1 u2 i u3 cn u4)
        obtain c n where cn: "cn = (c, n)" by fastforce
        note i = intent_of_decision [OF \<open>decision_intent m run action = Inr i\<close>]
        have said: "m \<in> said u4" using 1 by (auto simp: decisions_stay_def)
        show ?case unfolding cn prod.case
        proof (rule decisions.bind [OF follow_secure [OF assms(1)]], goal_cases)
          case (1 x v)
          obtain revision new_run where x: "x = (revision, new_run)" by fastforce
          show ?case unfolding x prod.case
          proof (rule decisions.bind [OF fresh_record_secure], goal_cases)
            case (1 k v')
            let ?r = "\<lparr>dc_id = k, dc_message = hm_id m, dc_intent = in_id i, dc_run = run, dc_actor = hm_actor m, dc_action = action,
              dc_reason = reason, dc_revision = n, dc_report = report, dc_new_revision = revision, dc_new_run = new_run, dc_created = 0\<rparr>"
            have v': "decisions_stay u4 v'" "decisions_stay v v'" using \<open>decisions_stay u4 v\<close> 1(2) decisions.rely_trans by blast+
            have "stated v' ?r" using said v'(1) \<open>hm_run m = Some run\<close> i by (auto simp: stated_def decisions_stay_def)
            moreover have "revised_as m action n (revision, new_run) v'"
              using \<open>revised_as m action n x v\<close> v'(2) revised_as_stays by (simp add: x)
            then have "carried_out v' ?r" using assms by (simp add: carried_out_def revised_as_def)
            ultimately have "decisions.holds (\<lambda>q t. q \<in> set (records_of t) \<and> dc_message q = dc_message ?r) v' (put_decision ?r)"
              by (rule put_decision_secure)
            then show ?case by (simp add: decided_as_def [abs_def])
          qed
        qed
      qed
    qed
  qed
qed

lemma service_secure:
  "decisions.holds (decided_as m) w (accept_run D m report)"
  "decisions.holds (decided_as m) w (reject_run D m reason report)"
  "decisions.holds (decided_as m) w (revise_run D m reason report)"
  unfolding accept_run_def reject_run_def revise_run_def
  by (rule decision_secure; simp)
    (rule decisions.seq [OF decisions.simple_threads(3) [where P = "\<lambda>_ _. True"]], simp, rule decision_secure; simp)+

section \<open>The service as a system\<close>

text \<open>
  Calls of the service in any number, the clock, and everything else that uses the store: it adds messages, deltas
  and planned runs, removes none, and leaves the records of decisions to the service.
\<close>

record decision_state =
  ds_world :: decision_world
  ds_threads :: "(decision_world, human_message \<times> decision) thread list"

definition answered_with :: "human_message \<Rightarrow> (decision_world, decision) thread \<Rightarrow> (decision_world, human_message \<times> decision) thread" where
  "answered_with m t = bind_t t (\<lambda>r. return_t (m, r))"

inductive decision_step :: "digests \<Rightarrow> decision_state \<Rightarrow> decision_state \<Rightarrow> bool" for D where
  call_accept: "decision_step D s (s\<lparr>ds_threads := answered_with m (accept_run D m report) # ds_threads s\<rparr>)"
| call_reject: "decision_step D s (s\<lparr>ds_threads := answered_with m (reject_run D m reason report) # ds_threads s\<rparr>)"
| call_revise: "decision_step D s (s\<lparr>ds_threads := answered_with m (revise_run D m reason report) # ds_threads s\<rparr>)"
| decision_thread: "pool_step (ds_threads s, ds_world s) (ms, w) \<Longrightarrow> decision_step D s (s\<lparr>ds_threads := ms, ds_world := w\<rparr>)"
| others_work: "said (ds_world s) \<subseteq> said w \<Longrightarrow> deltas_of (ds_world s) \<subseteq> deltas_of w \<Longrightarrow> planned_ids (ds_world s) \<subseteq> planned_ids w \<Longrightarrow>
    records_of w = records_of (ds_world s) \<Longrightarrow> decision_step D s (s\<lparr>ds_world := w\<rparr>)"
| service_ends: "decision_step D s (s\<lparr>ds_threads := []\<rparr>)"

definition undecided :: "decision_world \<Rightarrow> decision_state" where
  "undecided w = \<lparr>ds_world = w, ds_threads = []\<rparr>"

definition answer_kept :: "human_message \<times> decision \<Rightarrow> decision_world \<Rightarrow> bool" where
  "answer_kept x w \<longleftrightarrow> decided_as (fst x) (snd x) w"

lemma answered_secure: "decisions.holds (decided_as m) w t \<Longrightarrow> decisions.holds answer_kept w (answered_with m t)"
  unfolding answered_with_def
  by (rule decisions.bind, assumption, rule decisions.simple_threads) (simp add: answer_kept_def)

definition decisions_ok :: "decision_state \<Rightarrow> bool" where
  "decisions_ok s \<longleftrightarrow> decisions_sound (ds_world s) \<and> (\<forall>m \<in> set (ds_threads s). decisions.holds answer_kept (ds_world s) m)"

lemma decision_step_ok:
  assumes "decision_step D s s'" and "decisions_ok s"
  shows "decisions_ok s' \<and> decisions_stay (ds_world s) (ds_world s')"
  using assms(1)
proof cases
  case (decision_thread ms w)
  have "decisions_sound w \<and> decisions_stay (ds_world s) w \<and> (\<forall>m \<in> set ms. decisions.holds answer_kept w m)"
    by (rule decisions.pool_values [OF decision_thread(2)])
      (use assms(2) decided_stays in \<open>auto simp: decisions_ok_def answer_kept_def\<close>)
  then show ?thesis by (simp add: decision_thread(1) decisions_ok_def)
next
  case (others_work w)
  then have stay: "decisions_stay (ds_world s) w" by (simp add: decisions_stay_def)
  have "decisions_sound w" by (rule sound_stays [OF _ stay others_work(5)]) (use assms(2) in \<open>simp add: decisions_ok_def\<close>)
  moreover have "decisions.holds answer_kept w m" if "m \<in> set (ds_threads s)" for m
    by (rule decisions.later [OF _ stay]) (use that assms(2) decided_stays in \<open>auto simp: decisions_ok_def answer_kept_def\<close>)
  ultimately show ?thesis using stay by (simp add: others_work(1) decisions_ok_def)
qed (use assms(2) in \<open>auto simp: decisions_ok_def decisions.rely_refl intro: answered_secure service_secure\<close>)

lemma decisions_reachable:
  assumes "(decision_step D)\<^sup>*\<^sup>* s s'" and "decisions_ok s"
  shows "decisions_ok s' \<and> decisions_stay (ds_world s) (ds_world s')"
  using assms
proof (induction rule: rtranclp_induct)
  case base
  then show ?case by (simp add: decisions.rely_refl)
next
  case (step t u)
  then show ?case using decision_step_ok decisions.rely_trans by blast
qed


section \<open>Calls that are repeated\<close>

text \<open>A message that is recorded is answered with its record, whatever is asked for.\<close>

lemma decision_is_repeated:
  assumes "decision_of (hm_id m) w = Some r" and "hm_run m = Some run"
  shows "run_thread (apply_decision D m action reason report) w = (Inr r, w)"
  using assms by (simp add: apply_decision_def op_defs)

text \<open>
  A call that was cut off after its delta has left no record, and the run still points at the old revision: every
  repetition, and every later rejection or revision of this run, is refused.
\<close>

lemma cut_off_decision_is_stuck:
  assumes "revision_of c n (control_of w) = Some r" and "latest_revision c (control_of w) \<noteq> Some n"
  shows "\<exists>e. run_thread (revise_contract D m action reason run c n) w = (Inl e, w)"
proof -
  have refused: "\<exists>e. run_thread (plane_tx (\<lambda>now. apply_delta D now (decision_delta m reason c n source) m)) w = (Inl e, w)" for source
    using assms by (auto simp: plane_tx_def apply_delta_def committed_def delta_source_def decision_delta_def op_defs)
  show ?thesis
  proof (cases "load_contract (rev_body r)")
    case (Inl e)
    with assms(1) show ?thesis by (simp add: revise_contract_def plane_read_def op_defs)
  next
    case (Inr source)
    with assms(1) refused [of source] show ?thesis
      by (cases "construct validate_delta (decision_delta m reason c n source)")
        (auto simp: revise_contract_def plane_read_def bind_op_def construct_def split: sum.splits)
  qed
qed

section \<open>An example\<close>

definition demo_control :: decision_world where
  "demo_control = \<lparr>tw_db = tw_db (ts_world (empty_talk ())), tw_now = 0, tw_calls = [],
     tw_ext = \<lparr>dt_control = empty_control, dt_fixtures = [\<lparr>fx_run = ''r'', fx_contract = ''c'', fx_revision = 1\<rparr>], dt_records = []\<rparr>\<rparr>"

definition acceptance :: human_message where
  "acceptance = \<lparr>hm_id = ''m1'', hm_actor = ''ann'', hm_project = ''p'', hm_run = Some ''r'', hm_content = ''I confirm that I ACCEPT it'', hm_created = 0\<rparr>"

definition demo_accept :: "(decision_world, human_message \<times> decision) thread" where
  "demo_accept = answered_with acceptance (accept_run sample_digests acceptance 1)"

lemma acceptance_text:
  "matched ''I confirm that I ACCEPT it'' = [ChangeAct CA_Accept]" "occurs_in ''confirm'' (fold_text ''I confirm that I ACCEPT it'')"
  "\<not> all_white ''p''" "\<not> all_white ''ann''" "\<not> all_white ''delivery:p:ann''"
  by code_simp+

lemmas acceptance_ops = op_defs create_conversation_def append_message_def get_conversation_def set_active_run_def
  talk_tx_def talk_read_def insert_conversation_def insert_row_def put_message_def talk_event_def enqueue_event_def lookup_row_def
  acceptance_text acceptance_def compile_message_def selected_def target_run_def understood_def change_of_def needs_confirmation_def
  construct_def validate_change_intent_def validate_intent_base_def first_error.simps require_def min_length_1_def conversation_run_def
  apply_decision_def accept_run_def answered_with_def open_conversation_def decision_conversation_def decision_intent_def confirms_def
  contract_of_run_def follow_contract_def fresh_record_id_def put_decision_def record_free_def decision_of_def

lemma demo_accepted: "case fst (run_thread demo_accept demo_control) of Inl e \<Rightarrow> False
    | Inr (m, r) \<Rightarrow> m = acceptance \<and> dc_action r = CA_Accept \<and> dc_run r = ''r''"
  by (simp add: demo_accept_def demo_control_def empty_talk_def empty_db_def acceptance_ops Let_def)

lemma decision_alone:
  "(decision_step D)\<^sup>*\<^sup>* \<lparr>ds_world = w, ds_threads = [m]\<rparr>
     \<lparr>ds_world = snd (run_thread m w), ds_threads = [Done (fst (run_thread m w))]\<rparr>"
proof -
  have "(decision_step D)\<^sup>*\<^sup>* \<lparr>ds_world = w, ds_threads = ms\<rparr> \<lparr>ds_world = w', ds_threads = ms'\<rparr>"
    if "pool_step\<^sup>*\<^sup>* (ms, w) (ms', w')" for ms ms' w'
    using that
  proof (induction "(ms', w')" arbitrary: ms' w' rule: rtranclp_induct)
    case (step y)
    obtain ms1 w1 where y: "y = (ms1, w1)" by fastforce
    have "decision_step D \<lparr>ds_world = w1, ds_threads = ms1\<rparr> \<lparr>ds_world = w', ds_threads = ms'\<rparr>"
      using decision_thread [of "\<lparr>ds_world = w1, ds_threads = ms1\<rparr>" ms' w' D] step(2) y by simp
    with step(3) [OF y] show ?case by (rule rtranclp.rtrancl_into_rtrancl)
  qed simp
  from this [OF pool_alone] show ?thesis .
qed


end
