(* ===== verification/Github.thy ===== *)
theory Github
  imports Review Redaction Codex
begin

text \<open>
  \<open>delivery/github.py\<close> with its models of \<open>delivery/models.py\<close>: the client of the GitHub REST interface, the checks of a
  commit, queries for checks that survive a restart, and pull requests that are checkpointed before they are created.
  The network, JSON text, URL syntax, numbers in text and SHA-256 are parameters.
\<close>

section \<open>Models\<close>

record gh_repository =
  rp_owner :: string
  rp_name :: string
  rp_base :: string

text \<open>What \<open>urlparse\<close> makes of a URL.\<close>

record url_parts =
  up_scheme :: string
  up_host :: "string option"
  up_user :: "string option"
  up_password :: "string option"
  up_query :: string

definition name_char :: "char \<Rightarrow> bool" where
  "name_char c \<longleftrightarrow> in_range (CHR ''A'') (CHR ''Z'') c \<or> in_range (CHR ''a'') (CHR ''z'') c \<or>
     in_range (CHR ''0'') (CHR ''9'') c \<or> c \<in> set ''_.-''"

definition name_pattern :: "string \<Rightarrow> bool" where
  "name_pattern s \<longleftrightarrow> s \<noteq> [] \<and> list_all name_char s"

text \<open>\<open>s.rstrip(c)\<close> for one character.\<close>

definition strip_end :: "char \<Rightarrow> string \<Rightarrow> string" where
  "strip_end c s = rev (dropWhile (\<lambda>x. x = c) (rev s))"

definition given :: "string option \<Rightarrow> bool" where
  "given s \<longleftrightarrow> s \<noteq> None \<and> s \<noteq> Some []"

definition make_repository :: "(string \<Rightarrow> py_error + url_parts) \<Rightarrow> gh_repository \<Rightarrow> py_error + gh_repository" where
  "make_repository parse r =
     (if \<not> name_pattern (rp_owner r) then Inl (ValidationError ''owner'')
      else if \<not> name_pattern (rp_name r) then Inl (ValidationError ''name'')
      else (case parse (rp_base r) of
        Inl e \<Rightarrow> Inl (ValidationError (err_str e))
      | Inr u \<Rightarrow> if up_scheme u \<notin> {''http'', ''https''} \<or> \<not> given (up_host u) \<or> up_query u \<noteq> []
          then Inl (ValidationError ''invalid GitHub API base URL'')
          else Inr (r\<lparr>rp_base := strip_end (CHR ''/'') (rp_base r)\<rparr>)))"

definition full_name :: "gh_repository \<Rightarrow> string" where
  "full_name r = rp_owner r @ ''/'' @ rp_name r"

datatype check_status = CS_Queued | CS_InProgress | CS_Completed | CS_Waiting | CS_Requested | CS_Pending

definition check_statuses :: "(string \<times> check_status) list" where
  "check_statuses = [(''queued'', CS_Queued), (''in_progress'', CS_InProgress), (''completed'', CS_Completed),
     (''waiting'', CS_Waiting), (''requested'', CS_Requested), (''pending'', CS_Pending)]"

datatype check_conclusion = CC_Success | CC_Failure | CC_Cancelled | CC_TimedOut | CC_Neutral | CC_Skipped | CC_ActionRequired

definition check_conclusions :: "(string \<times> check_conclusion) list" where
  "check_conclusions = [(''success'', CC_Success), (''failure'', CC_Failure), (''cancelled'', CC_Cancelled),
     (''timed_out'', CC_TimedOut), (''neutral'', CC_Neutral), (''skipped'', CC_Skipped), (''action_required'', CC_ActionRequired)]"

record gh_check =
  ck_id :: int
  ck_head :: string
  ck_status :: check_status
  ck_conclusion :: "check_conclusion option"
  ck_url :: "string option"

definition commit_char :: "char \<Rightarrow> bool" where
  "commit_char c \<longleftrightarrow> hex_char c \<or> in_range (CHR ''A'') (CHR ''F'') c"

definition validate_check :: "gh_check \<Rightarrow> py_error + unit" where
  "validate_check c = require (40 \<le> length (ck_head c) \<and> length (ck_head c) \<le> 64 \<and> list_all commit_char (ck_head c)) ''head_sha''"

record checks_status =
  ch_repository :: string
  ch_commit :: string
  ch_checks :: "gh_check list"

definition checks_complete :: "checks_status \<Rightarrow> bool" where
  "checks_complete s \<longleftrightarrow> ch_checks s \<noteq> [] \<and> list_all (\<lambda>c. ck_status c = CS_Completed) (ch_checks s)"

definition checks_successful :: "checks_status \<Rightarrow> bool" where
  "checks_successful s \<longleftrightarrow> checks_complete s \<and> list_all (\<lambda>c. ck_conclusion c = Some CC_Success) (ch_checks s)"

record pull_spec =
  ps_run :: string
  ps_base :: string
  ps_head :: string
  ps_title :: string
  ps_body :: string
  ps_draft :: bool

record pull_handle =
  ph_run :: string
  ph_repository :: string
  ph_base :: string
  ph_head :: string
  ph_number :: int
  ph_url :: string
  ph_node :: string

record pull_content =
  pc_revision :: int
  pc_run :: string
  pc_matrix :: string
  pc_checks :: string
  pc_review :: string
  pc_verdict :: review_verdict
  pc_unverified :: "string list"
  pc_effects :: "string list"
  pc_risks :: "string list"
  pc_refs :: "string list"
  pc_commands :: "string list"

definition validate_content :: "pull_content \<Rightarrow> py_error + unit" where
  "validate_content c = require (1 \<le> pc_revision c) ''contract_revision''"

section \<open>Errors\<close>

datatype gh_kind = GK_Auth | GK_RateLimit | GK_Network | GK_Api | GK_Identity | GK_UnknownStatus | GK_Uncertain | GK_Barrier

primrec gk_value :: "gh_kind \<Rightarrow> string" where
  "gk_value GK_Auth = ''auth''"
| "gk_value GK_RateLimit = ''rate_limit''"
| "gk_value GK_Network = ''network''"
| "gk_value GK_Api = ''api''"
| "gk_value GK_Identity = ''identity''"
| "gk_value GK_UnknownStatus = ''unknown_status''"
| "gk_value GK_Uncertain = ''uncertain_effect''"
| "gk_value GK_Barrier = ''barrier''"

text \<open>The exception by its class and kind; its \<open>retry_after\<close>, which nothing reads, is dropped.\<close>

definition gh_class :: "gh_kind \<Rightarrow> string" where
  "gh_class k = ''GitHubProviderError.'' @ gk_value k"

definition gh_error :: "gh_kind \<Rightarrow> string \<Rightarrow> py_error" where
  "gh_error k message = NamedError (gh_class k) message"

definition gh_kinds :: "gh_kind list" where
  "gh_kinds = [GK_Auth, GK_RateLimit, GK_Network, GK_Api, GK_Identity, GK_UnknownStatus, GK_Uncertain, GK_Barrier]"

definition gh_kind_of :: "py_error \<Rightarrow> gh_kind option" where
  "gh_kind_of e = (case e of NamedError c _ \<Rightarrow> find (\<lambda>k. gh_class k = c) gh_kinds | _ \<Rightarrow> None)"

section \<open>The client\<close>

record http_response =
  hs_status :: int
  hs_headers :: "(string \<times> string) list"
  hs_body :: string

text \<open>
  The parameters: one exchange with the network, which may raise anything; a wait; the syntax of URLs, JSON and numbers
  in text; \<open>str\<close> of a JSON value that is no text or integer; SHA-256.
\<close>

record 'x gh_net =
  gn_send :: "string \<Rightarrow> string \<Rightarrow> (string \<times> string) list \<Rightarrow> string option \<Rightarrow> rat \<Rightarrow> ('x, http_response) op"
  gn_sleep :: "rat \<Rightarrow> ('x, unit) op"
  gn_parse :: "string \<Rightarrow> py_error + url_parts"
  gn_loads :: "string \<Rightarrow> json option"
  gn_dumps :: "json \<Rightarrow> string"
  gn_float :: "string \<Rightarrow> rat option"
  gn_int :: "string \<Rightarrow> int option"
  gn_repr :: "json \<Rightarrow> string"
  gn_sha :: "string \<Rightarrow> string"

record gh_client =
  cl_repository :: gh_repository
  cl_token :: "string option"
  cl_hosts :: "string list"
  cl_timeout :: rat
  cl_max :: int

definition host_name :: "string \<Rightarrow> string" where
  "host_name s = strip_end (CHR ''.'') (lower s)"

definition make_client :: "(string \<Rightarrow> py_error + url_parts) \<Rightarrow> gh_repository \<Rightarrow> string option \<Rightarrow> string list \<Rightarrow> py_error + gh_client" where
  "make_client parse r token hosts =
     bind_sum (parse (rp_base r)) (\<lambda>u. case up_host u of
       None \<Rightarrow> Inl (gh_error GK_Identity ''GitHub API host is not allowlisted'')
     | Some h \<Rightarrow>
         if host_name h \<notin> set (map host_name hosts) then Inl (gh_error GK_Identity ''GitHub API host is not allowlisted'')
         else if up_scheme u \<noteq> ''https'' \<and> lower h \<notin> {''127.0.0.1'', ''localhost'', ''::1''}
         then Inl (gh_error GK_Identity ''GitHub API requires HTTPS except for an isolated loopback fixture'')
         else Inr \<lparr>cl_repository = r, cl_token = token, cl_hosts = map host_name hosts, cl_timeout = 20, cl_max = 2 * 1024 * 1024\<rparr>)"

text \<open>\<open>_validate_url\<close>\<close>

definition url_allowed :: "gh_client \<Rightarrow> url_parts \<Rightarrow> bool" where
  "url_allowed c u \<longleftrightarrow> (case up_host u of Some h \<Rightarrow> if h = [] then [] else host_name h | None \<Rightarrow> []) \<in> set (cl_hosts c) \<and>
     \<not> given (up_user u) \<and> \<not> given (up_password u)"

definition validate_url :: "'x gh_net \<Rightarrow> gh_client \<Rightarrow> string \<Rightarrow> py_error + unit" where
  "validate_url N c url = bind_sum (gn_parse N url) (\<lambda>u.
     if url_allowed c u then Inr () else Inl (gh_error GK_Identity ''GitHub URL identity is not allowed''))"

text \<open>\<open>headers.get(a) or headers.get(b)\<close>\<close>

definition header_of :: "string \<Rightarrow> string \<Rightarrow> (string \<times> string) list \<Rightarrow> string option" where
  "header_of a b hs = (if given (map_of hs a) then map_of hs a else map_of hs b)"

definition classify_http :: "'x gh_net \<Rightarrow> http_response \<Rightarrow> py_error + unit" where
  "classify_http N r =
     (if hs_status r = 401 then Inl (gh_error GK_Auth ''GitHub authentication failed'')
      else if hs_status r \<in> {403, 429} \<and>
        (header_of ''x-ratelimit-remaining'' ''X-RateLimit-Remaining'' (hs_headers r) = Some ''0'' \<or> hs_status r = 429)
      then (let retry = header_of ''retry-after'' ''Retry-After'' (hs_headers r) in
        if given retry \<and> gn_float N (the retry) = None then Inl (ValueError ''could not convert string to float'')
        else Inl (gh_error GK_RateLimit ''GitHub rate limit exceeded''))
      else if hs_status r \<ge> 400 then Inl (gh_error GK_Api (''GitHub API returned HTTP '' @ int_str (hs_status r)))
      else Inr ())"

definition read_response :: "'x gh_net \<Rightarrow> gh_client \<Rightarrow> http_response \<Rightarrow> py_error + int \<times> json" where
  "read_response N c r =
     (if int (length (hs_body r)) > cl_max c then Inl (gh_error GK_Api ''GitHub response exceeded byte limit'')
      else if 300 \<le> hs_status r \<and> hs_status r < 400
      then (let location = header_of ''Location'' ''location'' (hs_headers r) in
        bind_sum (if given location then validate_url N c (the location) else Inr ())
          (\<lambda>_. Inl (gh_error GK_Api ''GitHub redirect was not followed'')))
      else bind_sum (classify_http N r) (\<lambda>_.
        if hs_body r = [] then Inr (hs_status r, JObj [])
        else (case gn_loads N (hs_body r) of
          None \<Rightarrow> Inl (gh_error GK_Api ''GitHub returned invalid JSON'') | Some v \<Rightarrow> Inr (hs_status r, v))))"

definition request_headers :: "gh_client \<Rightarrow> bool \<Rightarrow> (string \<times> string) list" where
  "request_headers c body =
     [(''Accept'', ''application/vnd.github+json''), (''X-GitHub-Api-Version'', ''2022-11-28''), (''User-Agent'', ''graph-engineering'')] @
     (if given (cl_token c) then [(''Authorization'', ''Bearer '' @ the (cl_token c))] else []) @
     (if body then [(''Content-Type'', ''application/json'')] else [])"

section \<open>Tables\<close>

text \<open>A query for checks; its status column holds the status whose JSON is written, or none while it is pending.\<close>

record query_row =
  cq_id :: string
  cq_run :: string
  cq_repository :: string
  cq_commit :: string
  cq_status :: "checks_status option"

datatype intent_state = IN_Creating | IN_Uncertain | IN_Failed | IN_Checkpointed

record pull_intent_row =
  it_key :: string
  it_repository :: string
  it_spec :: pull_spec
  it_state :: intent_state

record pull_handle_row =
  hn_key :: string
  hn_handle :: pull_handle

record github_db =
  gd_core :: db
  gd_queries :: "query_row list"
  gd_intents :: "pull_intent_row list"
  gd_handles :: "pull_handle_row list"

text \<open>
  The world: the store, the network, and three history variables: the requests that were sent, by their client; the keys
  for which a call inserted the intent, and the keys for which it asked for a new pull request, with the call.
\<close>

record 'x github_world =
  gw_db :: github_db
  gw_ext :: 'x
  gw_sent :: "(gh_client \<times> string \<times> string) list"
  gw_new :: "(nat \<times> string) list"
  gw_posts :: "(nat \<times> string) list"

definition github_tx :: "(github_db, 'a) op \<Rightarrow> ('x github_world, 'a) thread" where
  "github_tx m = atomic (\<lambda>w. case m (gw_db w) of (Inl e, _) \<Rightarrow> (Inl e, w) | (Inr x, d) \<Rightarrow> (Inr x, w\<lparr>gw_db := d\<rparr>))"

definition github_read :: "(github_db \<Rightarrow> py_error + 'a) \<Rightarrow> ('x github_world, 'a) thread" where
  "github_read f = atomic (\<lambda>w. (f (gw_db w), w))"

definition github_io :: "('x, 'a) op \<Rightarrow> ('x github_world, 'a) thread" where
  "github_io m = atomic (\<lambda>w. case m (gw_ext w) of (r, x) \<Rightarrow> (r, w\<lparr>gw_ext := x\<rparr>))"

definition github_event :: "string \<Rightarrow> string \<Rightarrow> (string \<times> json) list \<Rightarrow> (github_db, unit) op" where
  "github_event ty run payload d = (let (r, c) = enqueue_event ty run None None payload (gd_core d) in (r, d\<lparr>gd_core := c\<rparr>))"

text \<open>\<open>_GitHubClient.request\<close>; \<open>note\<close> is what the history keeps of a request for a new pull request.\<close>

definition send_request :: "'x gh_net \<Rightarrow> gh_client \<Rightarrow> (nat \<times> string) list \<Rightarrow> string \<Rightarrow> string \<Rightarrow> json option \<Rightarrow> ('x github_world, http_response) thread" where
  "send_request N c note verb url payload = atomic (\<lambda>w.
     case gn_send N verb url (request_headers c (payload \<noteq> None)) (map_option (gn_dumps N) payload) (cl_timeout c) (gw_ext w) of
       (r, x) \<Rightarrow> (case r of Inl _ \<Rightarrow> Inl (gh_error GK_Network ''GitHub network request failed'') | Inr y \<Rightarrow> Inr y,
         w\<lparr>gw_ext := x, gw_sent := gw_sent w @ [(c, verb, url)], gw_posts := gw_posts w @ note\<rparr>))"

definition gh_request :: "'x gh_net \<Rightarrow> gh_client \<Rightarrow> (nat \<times> string) list \<Rightarrow> string \<Rightarrow> string \<Rightarrow> json option \<Rightarrow> ('x github_world, int \<times> json) thread" where
  "gh_request N c note verb path payload = (let url = rp_base (cl_repository c) @ path in
     bind_t (Done (validate_url N c url)) (\<lambda>_.
     bind_t (send_request N c note verb url payload) (\<lambda>r. Done (read_response N c r))))"

definition repo_path :: "gh_client \<Rightarrow> string" where
  "repo_path c = ''/repos/'' @ full_name (cl_repository c)"

section \<open>JSON values\<close>

definition str_of :: "'x gh_net \<Rightarrow> json \<Rightarrow> string" where
  "str_of N v = (case v of JStr s \<Rightarrow> s | JInt n \<Rightarrow> int_str n | JNull \<Rightarrow> ''None''
     | JBool b \<Rightarrow> if b then ''True'' else ''False'' | _ \<Rightarrow> gn_repr N v)"

definition int_of_text :: "'x gh_net \<Rightarrow> string \<Rightarrow> py_error + int" where
  "int_of_text N s = (case gn_int N s of None \<Rightarrow> Inl (ValueError ''invalid literal for int()'') | Some n \<Rightarrow> Inr n)"

text \<open>\<open>int(v)\<close> and \<open>int(str(v))\<close>\<close>

definition int_of :: "'x gh_net \<Rightarrow> json \<Rightarrow> py_error + int" where
  "int_of N v = (case v of JInt n \<Rightarrow> Inr n | JBool b \<Rightarrow> Inr (if b then 1 else 0)
     | JFloat x \<Rightarrow> Inr (if x < 0 then \<lceil>x\<rceil> else \<lfloor>x\<rfloor>) | JStr s \<Rightarrow> int_of_text N s
     | _ \<Rightarrow> Inl (NamedError ''TypeError'' ''int() argument''))"

definition int_of_str :: "'x gh_net \<Rightarrow> json \<Rightarrow> py_error + int" where
  "int_of_str N v = (case v of JInt n \<Rightarrow> Inr n | _ \<Rightarrow> int_of_text N (str_of N v))"

definition item_of :: "string \<Rightarrow> (string \<times> json) list \<Rightarrow> py_error + json" where
  "item_of k kvs = (case map_of kvs k of None \<Rightarrow> Inl (KeyError k) | Some v \<Rightarrow> Inr v)"

section \<open>Checks\<close>

definition read_check :: "'x gh_net \<Rightarrow> string \<Rightarrow> json \<Rightarrow> py_error + gh_check" where
  "read_check N commit raw = (case raw of
     JObj kvs \<Rightarrow>
       if lower (case map_of kvs ''head_sha'' of None \<Rightarrow> [] | Some v \<Rightarrow> str_of N v) \<noteq> lower commit
       then Inl (gh_error GK_Identity ''GitHub Check belongs to a different commit'')
       else
         (let unknown = gh_error GK_UnknownStatus ''GitHub returned an unknown Check state'';
            status = (case map_of kvs ''status'' of None \<Rightarrow> None | Some v \<Rightarrow> map_of check_statuses (str_of N v));
            conclusion = (case map_of kvs ''conclusion'' of
                None \<Rightarrow> Some None
              | Some v \<Rightarrow> if v = JNull then Some None else map_option Some (map_of check_conclusions (str_of N v))) in
          case (status, conclusion) of
            (Some s, Some c) \<Rightarrow>
              bind_sum (bind_sum (item_of ''id'' kvs) (int_of N)) (\<lambda>k.
              bind_sum (item_of ''head_sha'' kvs) (\<lambda>h.
              construct validate_check \<lparr>ck_id = k, ck_head = str_of N h, ck_status = s, ck_conclusion = c,
                ck_url = (case map_of kvs ''html_url'' of None \<Rightarrow> None | Some v \<Rightarrow> if truthy v then Some (str_of N v) else None)\<rparr>))
          | _ \<Rightarrow> Inl unknown)
   | _ \<Rightarrow> Inl (gh_error GK_Identity ''GitHub Check belongs to a different commit''))"

definition checks_of :: "'x gh_net \<Rightarrow> gh_client \<Rightarrow> string \<Rightarrow> json \<Rightarrow> py_error + checks_status" where
  "checks_of N c commit payload =
     (let wrong = gh_error GK_Api ''GitHub Checks response shape is invalid'' in
      case payload of
        JObj kvs \<Rightarrow> (case map_of kvs ''check_runs'' of
          Some (JArr raws) \<Rightarrow> bind_sum (collect (read_check N commit) raws) (\<lambda>checks.
            Inr \<lparr>ch_repository = full_name (cl_repository c), ch_commit = commit, ch_checks = checks\<rparr>)
        | _ \<Rightarrow> Inl wrong)
      | _ \<Rightarrow> Inl wrong)"

definition gh_checks :: "'x gh_net \<Rightarrow> gh_client \<Rightarrow> string \<Rightarrow> ('x github_world, checks_status) thread" where
  "gh_checks N c commit =
     bind_t (gh_request N c [] ''GET'' (repo_path c @ ''/commits/'' @ quote commit @ ''/check-runs'') None)
       (\<lambda>(_, payload). Done (checks_of N c commit payload))"

text \<open>\<open>poll\<close>: attempts from \<open>k\<close> on, \<open>n\<close> of them left; a wait between two of them.\<close>

primrec poll_from :: "'x gh_net \<Rightarrow> gh_client \<Rightarrow> string \<Rightarrow> rat \<Rightarrow> nat \<Rightarrow> nat \<Rightarrow> ('x github_world, checks_status) thread" where
  "poll_from N c commit backoff k 0 = raise_t AssertionError"
| "poll_from N c commit backoff k (Suc n) =
     bind_t (gh_checks N c commit) (\<lambda>s.
     if checks_complete s \<or> n = 0 then return_t s
     else seq_t (github_io (gn_sleep N (backoff * 2 ^ k))) (poll_from N c commit backoff (Suc k) n))"

definition poll_checks :: "'x gh_net \<Rightarrow> gh_client \<Rightarrow> string \<Rightarrow> int \<Rightarrow> rat \<Rightarrow> ('x github_world, checks_status) thread" where
  "poll_checks N c commit attempts backoff =
     seq_t (require_t (1 \<le> attempts) (ValueError ''max_attempts must be positive'')) (poll_from N c commit backoff 0 (nat attempts))"

definition separated :: "string list \<Rightarrow> string" where
  "separated xs = join_with [CHR 0x00] xs"

definition query_id :: "'x gh_net \<Rightarrow> gh_client \<Rightarrow> string \<Rightarrow> string \<Rightarrow> string" where
  "query_id N c run commit = ''github-checks:'' @ gn_sha N (separated [run, full_name (cl_repository c), commit])"

definition start_query :: "'x gh_net \<Rightarrow> gh_client \<Rightarrow> string \<Rightarrow> string \<Rightarrow> ('x github_world, string) thread" where
  "start_query N c run commit = (let k = query_id N c run commit in
     seq_t (github_tx (seq_op
       (modify (\<lambda>d. d\<lparr>gd_queries := insert_or_ignore cq_id \<lparr>cq_id = k, cq_run = run, cq_repository = full_name (cl_repository c),
          cq_commit = commit, cq_status = None\<rparr> (gd_queries d)\<rparr>))
       (github_event ''github.checks.query.started'' run [(''query_id'', JStr k), (''commit_sha'', JStr commit)])))
     (return_t k))"

definition find_query :: "string \<Rightarrow> ('x github_world, query_row) thread" where
  "find_query k = github_read (\<lambda>d. case lookup_row cq_id k (gd_queries d) of None \<Rightarrow> Inl (KeyError k) | Some r \<Rightarrow> Inr r)"

definition poll_query :: "'x gh_net \<Rightarrow> gh_client \<Rightarrow> string \<Rightarrow> ('x github_world, checks_status) thread" where
  "poll_query N c k =
     bind_t (find_query k) (\<lambda>r.
     seq_t (require_t (cq_repository r = full_name (cl_repository c))
       (gh_error GK_Identity ''persisted Check query belongs to a different repository''))
     (bind_t (gh_checks N c (cq_commit r)) (\<lambda>s.
      seq_t (github_tx (seq_op
        (modify (\<lambda>d. d\<lparr>gd_queries := update_where (\<lambda>q. cq_id q = k) (\<lambda>q. q\<lparr>cq_status := Some s\<rparr>) (gd_queries d)\<rparr>))
        (github_event ''github.checks.query.polled'' (cq_run r) [(''query_id'', JStr k), (''complete'', JBool (checks_complete s))])))
      (return_t s))))"

definition get_query :: "string \<Rightarrow> ('x github_world, checks_status option) thread" where
  "get_query k = bind_t (find_query k) (\<lambda>r. return_t (cq_status r))"

section \<open>Pull requests\<close>

definition new_line :: string where
  "new_line = [CHR 0x0A]"

definition bullets :: "string list \<Rightarrow> string" where
  "bullets vs = (if vs = [] then ''- None'' else join_with new_line (map (\<lambda>v. ''- '' @ v) vs))"

primrec rv_value :: "review_verdict \<Rightarrow> string" where
  "rv_value RV_Approved = ''approved''"
| "rv_value RV_Changes = ''changes_requested''"
| "rv_value RV_Blocked = ''blocked''"

definition titled :: "string \<Rightarrow> string \<Rightarrow> string" where
  "titled title text = ''## '' @ title @ new_line @ new_line @ text"

definition pull_body :: "pull_content \<Rightarrow> string" where
  "pull_body c =
     join_with (new_line @ new_line)
       [titled ''Contract and Run'' (''Contract revision: '' @ int_str (pc_revision c) @ new_line @ ''Run ID: `'' @ pc_run c @ ''`''),
        titled ''Requirement Matrix'' (pc_matrix c),
        titled ''Verifier and CI'' (pc_checks c),
        titled ''Review'' (''Verdict: `'' @ rv_value (pc_verdict c) @ ''`''),
        pc_review c,
        titled ''Unverified'' (bullets (pc_unverified c)),
        titled ''External Effects'' (bullets (pc_effects c)),
        titled ''Risks'' (bullets (pc_risks c)),
        titled ''Final Report and Artifacts'' (bullets (pc_refs c)),
        titled ''Reproduction'' (bullets (pc_commands c))] @ new_line"

text \<open>The identity of a pull request: title, body and draft are not part of it.\<close>

definition pull_key :: "'x gh_net \<Rightarrow> gh_client \<Rightarrow> string \<Rightarrow> string \<Rightarrow> string \<Rightarrow> string" where
  "pull_key N c run base head = gn_sha N (separated [full_name (cl_repository c), run, base, head])"

definition spec_key :: "'x gh_net \<Rightarrow> gh_client \<Rightarrow> pull_spec \<Rightarrow> string" where
  "spec_key N c p = pull_key N c (ps_run p) (ps_base p) (ps_head p)"

definition handle_at :: "string \<Rightarrow> github_db \<Rightarrow> pull_handle option" where
  "handle_at k d = map_option hn_handle (lookup_row hn_key k (gd_handles d))"

definition ref_of :: "json option \<Rightarrow> json option" where
  "ref_of v = (case v of Some (JObj kvs) \<Rightarrow> map_of kvs ''ref'' | _ \<Rightarrow> None)"

definition pull_matches :: "(string \<times> json) list \<Rightarrow> pull_spec \<Rightarrow> bool" where
  "pull_matches kvs p \<longleftrightarrow> ref_of (map_of kvs ''head'') = Some (JStr (ps_head p)) \<and> ref_of (map_of kvs ''base'') = Some (JStr (ps_base p))"

definition validate_pull :: "(string \<times> json) list \<Rightarrow> pull_spec \<Rightarrow> py_error + unit" where
  "validate_pull kvs p = (if pull_matches kvs p \<and> list_all (\<lambda>k. k \<in> fst ` set kvs) [''number'', ''html_url'', ''node_id'']
     then Inr () else Inl (gh_error GK_Identity ''GitHub PR response does not match repository/head/base identity''))"

text \<open>\<open>urlencode\<close>: a space becomes a plus sign.\<close>

definition quote_plus :: "string \<Rightarrow> string" where
  "quote_plus s = concat (map (\<lambda>c. if c = CHR '' '' then ''+'' else quote_char c) s)"

definition discover_path :: "gh_client \<Rightarrow> pull_spec \<Rightarrow> string" where
  "discover_path c p = repo_path c @ ''/pulls?state=open&head='' @ quote_plus (rp_owner (cl_repository c) @ '':'' @ ps_head p) @
     ''&base='' @ quote_plus (ps_base p)"

definition matching_pulls :: "pull_spec \<Rightarrow> json list \<Rightarrow> (string \<times> json) list list" where
  "matching_pulls p items = concat (map (\<lambda>v. case v of JObj kvs \<Rightarrow> if pull_matches kvs p then [kvs] else [] | _ \<Rightarrow> []) items)"

definition discovered :: "pull_spec \<Rightarrow> json \<Rightarrow> py_error + (string \<times> json) list option" where
  "discovered p payload = (case payload of
     JArr items \<Rightarrow> (case matching_pulls p items of
         [] \<Rightarrow> Inr None
       | [kvs] \<Rightarrow> Inr (Some kvs)
       | _ \<Rightarrow> Inl (gh_error GK_Identity ''multiple PRs match the exact Run identity''))
   | _ \<Rightarrow> Inl (gh_error GK_Api ''GitHub PR discovery response is invalid''))"

definition discover_pull :: "'x gh_net \<Rightarrow> gh_client \<Rightarrow> pull_spec \<Rightarrow> ('x github_world, (string \<times> json) list option) thread" where
  "discover_pull N c p = bind_t (gh_request N c [] ''GET'' (discover_path c p) None) (\<lambda>(_, payload). Done (discovered p payload))"

definition set_intent :: "string \<Rightarrow> intent_state \<Rightarrow> github_db \<Rightarrow> github_db" where
  "set_intent k s d = d\<lparr>gd_intents := update_where (\<lambda>r. it_key r = k) (\<lambda>r. r\<lparr>it_state := s\<rparr>) (gd_intents d)\<rparr>"

definition handle_of_payload :: "'x gh_net \<Rightarrow> gh_client \<Rightarrow> pull_spec \<Rightarrow> (string \<times> json) list \<Rightarrow> py_error + pull_handle" where
  "handle_of_payload N c p kvs =
     bind_sum (validate_pull kvs p) (\<lambda>_.
     bind_sum (bind_sum (item_of ''number'' kvs) (int_of_str N)) (\<lambda>number.
     bind_sum (item_of ''html_url'' kvs) (\<lambda>url.
     bind_sum (item_of ''node_id'' kvs) (\<lambda>node.
     Inr \<lparr>ph_run = ps_run p, ph_repository = full_name (cl_repository c), ph_base = ps_base p, ph_head = ps_head p,
       ph_number = number, ph_url = str_of N url, ph_node = str_of N node\<rparr>))))"

definition checkpoint_tx :: "string \<Rightarrow> pull_handle \<Rightarrow> (github_db, unit) op" where
  "checkpoint_tx k h =
     seq_op (modify (\<lambda>d. set_intent k IN_Checkpointed (d\<lparr>gd_handles := insert_or_ignore hn_key \<lparr>hn_key = k, hn_handle = h\<rparr> (gd_handles d)\<rparr>)))
     (github_event ''github.pr.handle.checkpointed'' (ph_run h)
       [(''idempotency_key'', JStr k), (''number'', JInt (ph_number h)), (''url'', JStr (ph_url h)), (''node_id'', JStr (ph_node h))])"

definition checkpoint_pull :: "'x gh_net \<Rightarrow> gh_client \<Rightarrow> string \<Rightarrow> pull_spec \<Rightarrow> (string \<times> json) list \<Rightarrow> ('x github_world, pull_handle) thread" where
  "checkpoint_pull N c k p kvs =
     bind_t (Done (handle_of_payload N c p kvs)) (\<lambda>h. seq_t (github_tx (checkpoint_tx k h)) (return_t h))"

text \<open>The guard that the caller passes in reads the store and what is outside it.\<close>

type_synonym 'x write_guard = "github_db \<Rightarrow> ('x, bool) op"

definition ask_write :: "'x write_guard \<Rightarrow> string \<Rightarrow> ('x github_world, unit) thread" where
  "ask_write can_write message =
     bind_t (atomic (\<lambda>w. case can_write (gw_db w) (gw_ext w) of (r, x) \<Rightarrow> (r, w\<lparr>gw_ext := x\<rparr>))) (\<lambda>ok.
     require_t ok (gh_error GK_Barrier message))"

text \<open>The transaction that records the intent; its value says whether this call is the one that did.\<close>

definition record_intent :: "gh_client \<Rightarrow> nat \<Rightarrow> string \<Rightarrow> pull_spec \<Rightarrow> ('x github_world, bool) thread" where
  "record_intent c call k p = atomic (\<lambda>w.
     if k \<in> it_key ` set (gd_intents (gw_db w)) then (Inr False, w)
     else (Inr True, w\<lparr>gw_db := snd (github_event ''github.pr.intent.checkpointed'' (ps_run p)
         [(''idempotency_key'', JStr k), (''repository'', JStr (full_name (cl_repository c)))]
         ((gw_db w)\<lparr>gd_intents := gd_intents (gw_db w) @
           [\<lparr>it_key = k, it_repository = full_name (cl_repository c), it_spec = p, it_state = IN_Creating\<rparr>]\<rparr>)),
       gw_new := gw_new w @ [(call, k)]\<rparr>))"

definition pull_fields :: "pull_spec \<Rightarrow> json" where
  "pull_fields p = JObj [(''title'', JStr (ps_title p)), (''body'', JStr (ps_body p)), (''head'', JStr (ps_head p)),
     (''base'', JStr (ps_base p)), (''draft'', JBool (ps_draft p))]"

text \<open>The request for a new pull request: a lost answer leaves the intent uncertain, a refusal failed.\<close>

definition create_failed :: "string \<Rightarrow> py_error \<Rightarrow> ('x github_world, 'a) thread" where
  "create_failed k e = (case gh_kind_of e of
     None \<Rightarrow> raise_t e
   | Some kind \<Rightarrow>
       seq_t (github_tx (modify (set_intent k (if kind = GK_Network then IN_Uncertain else IN_Failed))))
       (raise_t (if kind = GK_Network then gh_error GK_Uncertain ''PR create response is uncertain; refusing blind retry'' else e)))"

definition created_pull :: "int \<times> json \<Rightarrow> py_error + (string \<times> json) list" where
  "created_pull r = (let wrong = gh_error GK_Api ''GitHub did not confirm PR creation'' in
     case snd r of JObj kvs \<Rightarrow> if fst r = 201 then Inr kvs else Inl wrong | _ \<Rightarrow> Inl wrong)"

definition create_pull :: "'x gh_net \<Rightarrow> gh_client \<Rightarrow> nat \<Rightarrow> string \<Rightarrow> pull_spec \<Rightarrow> ('x github_world, pull_handle) thread" where
  "create_pull N c call k p =
     bind_t (catch_t (gh_request N c [(call, k)] ''POST'' (repo_path c @ ''/pulls'') (Some (pull_fields p))) (create_failed k)) (\<lambda>r.
     bind_t (Done (created_pull r)) (checkpoint_pull N c k p))"

definition ensure_pull :: "'x gh_net \<Rightarrow> 'x write_guard \<Rightarrow> gh_client \<Rightarrow> nat \<Rightarrow> pull_spec \<Rightarrow> ('x github_world, pull_handle) thread" where
  "ensure_pull N can_write c call p = (let k = spec_key N c p; forbidden = ''persisted barrier forbids GitHub PR write'' in
     bind_t (github_read (\<lambda>d. Inr (handle_at k d))) (\<lambda>existing. case existing of
       Some h \<Rightarrow> return_t h
     | None \<Rightarrow>
         seq_t (ask_write can_write forbidden)
         (bind_t (record_intent c call k p) (\<lambda>is_new.
          bind_t (discover_pull N c p) (\<lambda>found. case found of
            Some kvs \<Rightarrow> checkpoint_pull N c k p kvs
          | None \<Rightarrow>
              seq_t (require_t is_new (gh_error GK_Uncertain ''prior PR creation outcome is uncertain; refusing duplicate create''))
              (seq_t (ask_write can_write forbidden) (create_pull N c call k p)))))))"

definition update_fields :: "string \<Rightarrow> string \<Rightarrow> bool \<Rightarrow> json" where
  "update_fields title body draft = JObj [(''title'', JStr title), (''body'', JStr body), (''draft'', JBool draft)]"

definition updated_spec :: "pull_handle \<Rightarrow> string \<Rightarrow> string \<Rightarrow> bool \<Rightarrow> pull_spec" where
  "updated_spec h title body draft =
     \<lparr>ps_run = ph_run h, ps_base = ph_base h, ps_head = ph_head h, ps_title = title, ps_body = body, ps_draft = draft\<rparr>"

definition update_pull :: "'x gh_net \<Rightarrow> 'x write_guard \<Rightarrow> gh_client \<Rightarrow> pull_handle \<Rightarrow> string \<Rightarrow> string \<Rightarrow> bool \<Rightarrow> ('x github_world, pull_handle) thread" where
  "update_pull N can_write c h title body draft =
     bind_t (github_read (\<lambda>d. Inr (handle_at (pull_key N c (ph_run h) (ph_base h) (ph_head h)) d))) (\<lambda>persisted.
     seq_t (require_t (persisted = Some h) (gh_error GK_Identity ''PR handle is not owned by this Run''))
     (seq_t (ask_write can_write ''persisted barrier forbids GitHub PR update'')
     (bind_t (gh_request N c [] ''PATCH'' (repo_path c @ ''/pulls/'' @ int_str (ph_number h)) (Some (update_fields title body draft))) (\<lambda>(_, payload).
      bind_t (Done (case payload of
          JObj kvs \<Rightarrow> validate_pull kvs (updated_spec h title body draft)
        | _ \<Rightarrow> Inl (gh_error GK_Api ''GitHub PR update response is invalid''))) (\<lambda>_.
      return_t h)))))"

end
