(* ===== verification/Owners.thy ===== *)
theory Owners
  imports Rely
begin

text \<open>
  Threads that own a part of the state: what a thread relies on differs from what it guarantees, because it may change
  what it owns and the others may not. Every thread carries the name of its owner.
\<close>

inductive assured ::
  "('s \<Rightarrow> 's \<Rightarrow> bool) \<Rightarrow> ('s \<Rightarrow> 's \<Rightarrow> bool) \<Rightarrow> ('s \<Rightarrow> bool) \<Rightarrow> ('a \<Rightarrow> 's \<Rightarrow> bool) \<Rightarrow> 's \<Rightarrow> ('s, 'a) thread \<Rightarrow> bool" for R G I Q where
  assured_done: "(\<And>x. r = Inr x \<Longrightarrow> Q x s) \<Longrightarrow> assured R G I Q s (Done r)"
| assured_step: "(\<And>t. R s t \<Longrightarrow> I t \<Longrightarrow> I (snd (g t)) \<and> G t (snd (g t)) \<and> assured R G I Q (snd (g t)) (fst (g t))) \<Longrightarrow>
    assured R G I Q s (Step g)"

inductive_cases assured_StepE: "assured R G I Q s (Step g)"
inductive_cases assured_DoneE: "assured R G I Q s (Done r)"

text \<open>Any thread of the pool takes its next step.\<close>

inductive owner_step :: "('i \<times> ('s, 'a) thread) list \<times> 's \<Rightarrow> ('i \<times> ('s, 'a) thread) list \<times> 's \<Rightarrow> bool" where
  owner_step: "owner_step (us @ (i, Step g) # vs, s) (us @ (i, fst (g s)) # vs, snd (g s))"

lemma owner_alone:
  "owner_step\<^sup>*\<^sup>* ([(i, m)], s) ([(i, Done (fst (run_thread m s)))], snd (run_thread m s))"
proof (induction m arbitrary: s)
  case (Step g)
  have "owner_step ([(i, Step g)], s) ([(i, fst (g s))], snd (g s))" using owner_step [of "[]" i g "[]" s] by simp
  moreover have "owner_step\<^sup>*\<^sup>* ([(i, fst (g s))], snd (g s))
      ([(i, Done (fst (run_thread (fst (g s)) (snd (g s)))))], snd (run_thread (fst (g s)) (snd (g s))))"
    by (rule Step) (auto simp: fsts.simps prod_set_defs intro: rangeI)
  ultimately show ?case by (simp add: converse_rtranclp_into_rtranclp)
qed simp

locale owned_threads =
  fixes R G :: "'i \<Rightarrow> 's \<Rightarrow> 's \<Rightarrow> bool" and I :: "'s \<Rightarrow> bool"
  assumes owned_refl: "R i s s"
    and owned_trans: "R i s t \<Longrightarrow> R i t u \<Longrightarrow> R i s u"
    and owned_apart: "i \<noteq> j \<Longrightarrow> G i s t \<Longrightarrow> R j s t"
begin

abbreviation "promises i \<equiv> assured (R i) (G i) I"

lemma later:
  assumes "promises i Q s m" and "R i s t" and "\<And>x s t. Q x s \<Longrightarrow> R i s t \<Longrightarrow> Q x t"
  shows "promises i Q t m"
  using assms(1,2)
proof cases
  case (assured_done r)
  then show ?thesis using assms(2,3) by (auto intro: assured.assured_done)
next
  case (assured_step g)
  then show ?thesis using assms(2) by (auto intro!: assured.assured_step dest: owned_trans)
qed

lemma bind:
  assumes "promises i Q s m" and "\<And>x t. Q x t \<Longrightarrow> promises i P t (f x)"
  shows "promises i P s (bind_t m f)"
  using assms(1)
proof (induction rule: assured.induct)
  case (assured_done r s)
  then show ?case using assms(2) by (cases r) (auto intro: assured.assured_done)
next
  case (assured_step s g)
  then show ?case unfolding bind_t.simps by (intro assured.assured_step) auto
qed

lemma seq: "promises i Q s m \<Longrightarrow> (\<And>x t. Q x t \<Longrightarrow> promises i P t n) \<Longrightarrow> promises i P s (seq_t m n)"
  unfolding seq_t_def by (rule bind)

lemma catch:
  assumes "promises i Q s m" and "\<And>e t. promises i Q t (h e)"
  shows "promises i Q s (catch_t m h)"
  using assms(1)
proof (induction rule: assured.induct)
  case (assured_done r s)
  then show ?case using assms(2) by (cases r) (auto intro: assured.assured_done)
next
  case (assured_step s g)
  then show ?case unfolding catch_t.simps by (intro assured.assured_step) auto
qed

lemma atomic_op:
  assumes "\<And>t r u. R i s t \<Longrightarrow> I t \<Longrightarrow> m t = (r, u) \<Longrightarrow> I u \<and> G i t u \<and> (\<forall>x. r = Inr x \<longrightarrow> Q x u)"
  shows "promises i Q s (atomic m)"
  unfolding atomic_def
proof (rule assured.assured_step)
  fix t assume t: "R i s t" "I t"
  obtain r u where m: "m t = (r, u)" by (cases "m t")
  from assms [OF t m] show "I (snd (case m t of (r, t) \<Rightarrow> (Done r, t))) \<and> G i t (snd (case m t of (r, t) \<Rightarrow> (Done r, t))) \<and>
      promises i Q (snd (case m t of (r, t) \<Rightarrow> (Done r, t))) (fst (case m t of (r, t) \<Rightarrow> (Done r, t)))"
    by (auto simp: m intro: assured.assured_done)
qed

lemma simple_threads:
  "(\<And>x. r = Inr x \<Longrightarrow> Q x s) \<Longrightarrow> promises i Q s (Done r)"
  "Q x s \<Longrightarrow> promises i Q s (return_t x)"
  "promises i Q s (raise_t e)"
  "(b \<Longrightarrow> P () s) \<Longrightarrow> promises i P s (require_t b e)"
  by (auto simp: return_t_def raise_t_def require_t_def intro: assured.assured_done)

text \<open>Any interleaving of threads with different owners keeps the invariant and what they promise.\<close>

lemma pool:
  assumes "owner_step (ms, s) (ms', s')" and "I s" and "distinct (map fst ms)"
    and "\<And>i m. (i, m) \<in> set ms \<Longrightarrow> promises i Q s m"
    and stable: "\<And>i x s t. Q x s \<Longrightarrow> R i s t \<Longrightarrow> Q x t"
  shows "I s' \<and> (\<exists>i. G i s s') \<and> map fst ms' = map fst ms \<and> (\<forall>(i, m) \<in> set ms'. promises i Q s' m)"
  using assms(1)
proof cases
  case (owner_step us i g vs)
  have "promises i Q s (Step g)" using assms(4) owner_step(1) by simp
  then have g: "I (snd (g s)) \<and> G i s (snd (g s)) \<and> promises i Q (snd (g s)) (fst (g s))"
    using assms(2) owned_refl by (auto elim: assured_StepE)
  moreover have "promises j Q (snd (g s)) m" if "(j, m) \<in> set us \<union> set vs" for j m
  proof -
    have "j \<noteq> i" using assms(3) that by (force simp: owner_step(1))
    then have "R j s (snd (g s))" using g owned_apart [of i j s "snd (g s)"] by simp
    moreover have "promises j Q s m" using assms(4) that owner_step(1) by auto
    ultimately show ?thesis using later stable by blast
  qed
  ultimately show ?thesis using owner_step by auto
qed

end

end
