(* ===== verification/Github_Laws.thy ===== *)
theory Github_Laws
  imports Github Owners
begin

text \<open>
  Managers of pull requests and monitors of checks over one store, at the same time, with any network: a pull request
  is asked for at most once under its key.
\<close>

section \<open>What stays and what holds\<close>

definition intent_keys :: "github_db \<Rightarrow> string set" where
  "intent_keys d = it_key ` set (gd_intents d)"

lemma intent_keys_other [simp]:
  "intent_keys (d\<lparr>gd_core := c\<rparr>) = intent_keys d" "intent_keys (d\<lparr>gd_handles := hs\<rparr>) = intent_keys d"
  "intent_keys (d\<lparr>gd_queries := qs\<rparr>) = intent_keys d" "intent_keys (d\<lparr>gd_intents := rs\<rparr>) = it_key ` set rs"
  by (simp_all add: intent_keys_def)

definition pulls_stay :: "'x github_world \<Rightarrow> 'x github_world \<Rightarrow> bool" where
  "pulls_stay w w' \<longleftrightarrow> set (gd_handles (gw_db w)) \<subseteq> set (gd_handles (gw_db w')) \<and> set (gw_new w) \<subseteq> set (gw_new w') \<and>
     set (gw_posts w) \<subseteq> set (gw_posts w')"

definition own_posts :: "nat \<Rightarrow> 'x github_world \<Rightarrow> (nat \<times> string) set" where
  "own_posts i w = {(j, k) \<in> set (gw_posts w). j = i}"

definition pulls_rely :: "nat \<Rightarrow> 'x github_world \<Rightarrow> 'x github_world \<Rightarrow> bool" where
  "pulls_rely i w w' \<longleftrightarrow> pulls_stay w w' \<and> own_posts i w' = own_posts i w"

definition pulls_give :: "nat \<Rightarrow> 'x github_world \<Rightarrow> 'x github_world \<Rightarrow> bool" where
  "pulls_give i w w' \<longleftrightarrow> pulls_stay w w' \<and> (\<forall>j. j \<noteq> i \<longrightarrow> own_posts j w' = own_posts j w)"

definition handle_named :: "'x gh_net \<Rightarrow> pull_handle_row \<Rightarrow> bool" where
  "handle_named N r \<longleftrightarrow> (\<exists>c. hn_key r = pull_key N c (ph_run (hn_handle r)) (ph_base (hn_handle r)) (ph_head (hn_handle r)) \<and>
     ph_repository (hn_handle r) = full_name (cl_repository c))"

definition pulls_sound :: "'x gh_net \<Rightarrow> 'x github_world \<Rightarrow> bool" where
  "pulls_sound N w \<longleftrightarrow> distinct (map hn_key (gd_handles (gw_db w))) \<and> (\<forall>r \<in> set (gd_handles (gw_db w)). handle_named N r) \<and>
     distinct (map snd (gw_new w)) \<and> snd ` set (gw_new w) \<subseteq> intent_keys (gw_db w) \<and>
     distinct (gw_posts w) \<and> set (gw_posts w) \<subseteq> set (gw_new w) \<and>
     (\<forall>(c, verb, url) \<in> set (gw_sent w). validate_url N c url = Inr ())"

lemma pulls_stay_refl [simp]: "pulls_stay w w"
  by (simp add: pulls_stay_def)

lemma pulls_stay_trans: "pulls_stay u v \<Longrightarrow> pulls_stay v w \<Longrightarrow> pulls_stay u w"
  by (auto simp: pulls_stay_def)

interpretation pulls: owned_threads pulls_rely pulls_give "pulls_sound N" for N :: "'x gh_net"
  by unfold_locales (auto simp: pulls_rely_def pulls_give_def intro: pulls_stay_trans)

section \<open>Steps\<close>

text \<open>A step that leaves intents, handles and the history alone.\<close>

definition aside :: "'x github_world \<Rightarrow> 'x github_world \<Rightarrow> bool" where
  "aside w w' \<longleftrightarrow> gd_handles (gw_db w') = gd_handles (gw_db w) \<and>
     intent_keys (gw_db w') = intent_keys (gw_db w) \<and>
     gw_sent w' = gw_sent w \<and> gw_new w' = gw_new w \<and> gw_posts w' = gw_posts w"

lemma aside_sound: "aside w w' \<Longrightarrow> pulls_sound N w \<Longrightarrow> pulls_sound N w' \<and> pulls_give i w w' \<and> pulls_rely i w w'"
  by (simp add: aside_def pulls_sound_def pulls_give_def pulls_rely_def pulls_stay_def own_posts_def)

lemma aside_step:
  assumes "P w" and "\<And>t u. P t \<Longrightarrow> pulls_rely i t u \<Longrightarrow> P u" and "\<And>t. aside t (snd (m t))"
    and "\<And>t x u. P t \<Longrightarrow> m t = (Inr x, u) \<Longrightarrow> P u \<Longrightarrow> Q x u"
  shows "pulls.promises N i Q w (atomic m)"
proof (rule pulls.atomic_op)
  fix t r u assume t: "pulls_rely i w t" "pulls_sound N t" "m t = (r, u)"
  have "aside t u" using assms(3) [of t] t(3) by simp
  from aside_sound [OF this t(2)] have u: "pulls_sound N u" "pulls_give i t u" "pulls_rely i t u" by blast+
  have "P t" "P u" using assms(1,2) t(1) u(3) by blast+
  with u t(3) assms(4) show "pulls_sound N u \<and> pulls_give i t u \<and> (\<forall>x. r = Inr x \<longrightarrow> Q x u)" by blast
qed

lemma aside_tx: "(\<And>d x d'. m d = (Inr x, d') \<Longrightarrow> gd_handles d' = gd_handles d \<and> intent_keys d' = intent_keys d)
    \<Longrightarrow> aside w (snd (case m (gw_db w) of (Inl e, _) \<Rightarrow> (Inl e, w) | (Inr x, d) \<Rightarrow> (Inr x, w\<lparr>gw_db := d\<rparr>)))"
  by (auto simp: aside_def split: prod.splits sum.splits)

lemma aside_ext: "aside w (w\<lparr>gw_ext := x\<rparr>)" "aside w w" "aside w (w\<lparr>gw_db := (gw_db w)\<lparr>gd_core := d\<rparr>\<rparr>)"
  by (simp_all add: aside_def)

lemma github_event_run: "github_event ty run payload d = (Inr (), d\<lparr>gd_core := snd (enqueue_event ty run None None payload (gd_core d))\<rparr>)"
  by (simp add: github_event_def enqueue_event_def modify_def)

lemma set_intent_fields:
  "gd_handles (set_intent k s d) = gd_handles d" "gd_core (set_intent k s d) = gd_core d" "gd_queries (set_intent k s d) = gd_queries d"
  by (simp_all add: set_intent_def)

lemma kept_keys: "intent_keys (set_intent k s d) = intent_keys d"
  by (simp add: intent_keys_def set_intent_def image_update_where)

lemma request_promise:
  assumes "P w" and "\<And>t u. P t \<Longrightarrow> pulls_rely i t u \<Longrightarrow> P u"
  shows "pulls.promises N i (\<lambda>_. P) w (gh_request N c [] verb path payload)"
  unfolding gh_request_def Let_def
proof (rule pulls.bind [where Q = "\<lambda>_ t. P t \<and> validate_url N c (rp_base (cl_repository c) @ path) = Inr ()"])
  show "pulls.promises N i (\<lambda>_ t. P t \<and> validate_url N c (rp_base (cl_repository c) @ path) = Inr ()) w
      (Done (validate_url N c (rp_base (cl_repository c) @ path)))"
    by (rule pulls.simple_threads) (simp add: assms(1))
  fix t :: "'a github_world" and x assume t: "P t \<and> validate_url N c (rp_base (cl_repository c) @ path) = Inr ()"
  have sent: "pulls.promises N i (\<lambda>_. P) t (send_request N c [] verb (rp_base (cl_repository c) @ path) payload)"
    unfolding send_request_def
  proof (rule pulls.atomic_op)
    fix v r u assume v: "pulls_rely i t v" "pulls_sound N v" and u: "(case gn_send N verb (rp_base (cl_repository c) @ path)
        (request_headers c (payload \<noteq> None)) (map_option (gn_dumps N) payload) (cl_timeout c) (gw_ext v) of
       (r, x) \<Rightarrow> (case r of Inl _ \<Rightarrow> Inl (gh_error GK_Network ''GitHub network request failed'') | Inr y \<Rightarrow> Inr y,
         v\<lparr>gw_ext := x, gw_sent := gw_sent v @ [(c, verb, rp_base (cl_repository c) @ path)], gw_posts := gw_posts v @ []\<rparr>)) = (r, u)"
    then obtain x where u: "u = v\<lparr>gw_ext := x, gw_sent := gw_sent v @ [(c, verb, rp_base (cl_repository c) @ path)]\<rparr>"
      by (auto split: prod.splits)
    have "pulls_rely i v u" "pulls_give i v u" by (simp_all add: u pulls_rely_def pulls_give_def pulls_stay_def own_posts_def)
    moreover have "pulls_sound N u" using v(2) t by (auto simp: u pulls_sound_def)
    ultimately show "pulls_sound N u \<and> pulls_give i v u \<and> (\<forall>x. r = Inr x \<longrightarrow> P u)" using t v(1) assms(2) by blast
  qed
  show "pulls.promises N i (\<lambda>_. P) t
      (bind_t (send_request N c [] verb (rp_base (cl_repository c) @ path) payload) (\<lambda>r. Done (read_response N c r)))"
    by (rule pulls.bind [OF sent], rule pulls.simple_threads)
qed

lemma github_read_promise:
  assumes "P w" and "\<And>t u. P t \<Longrightarrow> pulls_rely i t u \<Longrightarrow> P u" and "\<And>t x. P t \<Longrightarrow> f (gw_db t) = Inr x \<Longrightarrow> Q x t"
  shows "pulls.promises N i Q w (github_read f)"
  unfolding github_read_def by (rule aside_step [where P = P]) (use assms in \<open>auto simp: aside_ext\<close>)

lemma ask_write_promise:
  assumes "P w" and "\<And>t u. P t \<Longrightarrow> pulls_rely i t u \<Longrightarrow> P u"
  shows "pulls.promises N i (\<lambda>_. P) w (ask_write can_write message)"
  unfolding ask_write_def
proof (rule pulls.bind)
  show "pulls.promises N i (\<lambda>_. P) w (atomic (\<lambda>w. case can_write (gw_db w) (gw_ext w) of (r, x) \<Rightarrow> (r, w\<lparr>gw_ext := x\<rparr>)))"
    by (rule aside_step [where P = P]) (use assms in \<open>auto simp: aside_ext split: prod.splits\<close>)
qed (rule pulls.simple_threads)

section \<open>Pull requests\<close>

text \<open>The right to ask for a pull request: this call inserted the intent and has not asked yet.\<close>

definition may_create :: "nat \<Rightarrow> string \<Rightarrow> 'x github_world \<Rightarrow> bool" where
  "may_create i k w \<longleftrightarrow> (i, k) \<in> set (gw_new w) \<and> (i, k) \<notin> set (gw_posts w)"

definition handle_kept :: "string \<Rightarrow> 'x github_world \<Rightarrow> bool" where
  "handle_kept k w \<longleftrightarrow> k \<in> hn_key ` set (gd_handles (gw_db w))"

lemma right_stable: "may_create i k w \<Longrightarrow> pulls_rely i w w' \<Longrightarrow> may_create i k w'"
  by (auto simp: may_create_def pulls_rely_def pulls_stay_def own_posts_def)

lemma handle_stable: "handle_kept k w \<Longrightarrow> pulls_rely i w w' \<Longrightarrow> handle_kept k w'"
  by (auto simp: handle_kept_def pulls_rely_def pulls_stay_def)

lemma record_promise:
  "pulls.promises N i (\<lambda>is_new t. is_new \<longrightarrow> may_create i k t) w (record_intent c i k p)"
  unfolding record_intent_def intent_keys_def [symmetric]
proof (rule pulls.atomic_op)
  fix t r u assume t: "pulls_sound N t" and u: "(if k \<in> intent_keys (gw_db t) then (Inr False, t)
      else (Inr True, t\<lparr>gw_db := snd (github_event ''github.pr.intent.checkpointed'' (ps_run p)
         [(''idempotency_key'', JStr k), (''repository'', JStr (full_name (cl_repository c)))]
         ((gw_db t)\<lparr>gd_intents := gd_intents (gw_db t) @
           [\<lparr>it_key = k, it_repository = full_name (cl_repository c), it_spec = p, it_state = IN_Creating\<rparr>]\<rparr>)),
       gw_new := gw_new t @ [(i, k)]\<rparr>)) = (r, u)"
  show "pulls_sound N u \<and> pulls_give i t u \<and> (\<forall>is_new. r = Inr is_new \<longrightarrow> is_new \<longrightarrow> may_create i k u)"
  proof (cases "k \<in> intent_keys (gw_db t)")
    case True
    with u t show ?thesis by (auto simp: pulls_give_def)
  next
    case False
    have new: "gd_handles (gw_db u) = gd_handles (gw_db t)" "intent_keys (gw_db u) = insert k (intent_keys (gw_db t))"
      "gw_new u = gw_new t @ [(i, k)]" "gw_posts u = gw_posts t" "gw_sent u = gw_sent t"
      using u False by (auto simp: github_event_run intent_keys_def [symmetric])
    have "k \<notin> snd ` set (gw_new t)" using t False by (auto simp: pulls_sound_def)
    moreover from this have "(i, k) \<notin> set (gw_posts t)" using t unfolding pulls_sound_def by (metis image_eqI snd_conv subsetD)
    moreover from calculation have "pulls_sound N u"
      using t by (simp add: pulls_sound_def new subset_insertI2)
    moreover have "pulls_give i t u" using new by (auto simp: pulls_give_def pulls_stay_def own_posts_def)
    ultimately show ?thesis using new by (simp add: may_create_def)
  qed
qed

lemma checkpoint_run:
  "\<exists>d'. checkpoint_tx k h d = (Inr (), d') \<and> intent_keys d' = intent_keys d \<and>
     gd_handles d' = insert_or_ignore hn_key \<lparr>hn_key = k, hn_handle = h\<rparr> (gd_handles d)"
  by (simp add: checkpoint_tx_def op_defs github_event_run set_intent_fields kept_keys)

lemma checkpoint_promise:
  assumes "k = spec_key N c p"
  shows "pulls.promises N i (\<lambda>_. handle_kept k) w (checkpoint_pull N c k p kvs)"
  unfolding checkpoint_pull_def
proof (rule pulls.bind [where Q = "\<lambda>h _. handle_of_payload N c p kvs = Inr h"])
  show "pulls.promises N i (\<lambda>h _. handle_of_payload N c p kvs = Inr h) w (Done (handle_of_payload N c p kvs))"
    by (rule pulls.simple_threads)
  fix h and t :: "'a github_world" assume h: "handle_of_payload N c p kvs = Inr h"
  have named: "handle_named N \<lparr>hn_key = k, hn_handle = h\<rparr>"
    using h assms by (auto simp: handle_of_payload_def bind_sum_Inr handle_named_def spec_key_def)
  show "pulls.promises N i (\<lambda>_. handle_kept k) t (seq_t (github_tx (checkpoint_tx k h)) (return_t h))"
  proof (rule pulls.seq [where Q = "\<lambda>_. handle_kept k"])
    show "pulls.promises N i (\<lambda>_. handle_kept k) t (github_tx (checkpoint_tx k h))"
      unfolding github_tx_def
    proof (rule pulls.atomic_op)
      fix v r u assume v: "pulls_sound N v"
        and u: "(case checkpoint_tx k h (gw_db v) of (Inl e, _) \<Rightarrow> (Inl e, v) | (Inr x, d) \<Rightarrow> (Inr x, v\<lparr>gw_db := d\<rparr>)) = (r, u)"
      let ?hs = "insert_or_ignore hn_key \<lparr>hn_key = k, hn_handle = h\<rparr> (gd_handles (gw_db v))"
      obtain d' where d': "checkpoint_tx k h (gw_db v) = (Inr (), d')" "intent_keys d' = intent_keys (gw_db v)" "gd_handles d' = ?hs"
        using checkpoint_run by blast
      have "u = v\<lparr>gw_db := d'\<rparr>" using u by (simp add: d'(1))
      then have new: "gd_handles (gw_db u) = ?hs" "intent_keys (gw_db u) = intent_keys (gw_db v)"
        "gw_new u = gw_new v" "gw_posts u = gw_posts v" "gw_sent u = gw_sent v"
        by (simp_all add: d')
      have named_all: "\<forall>r \<in> set (gd_handles (gw_db v)). handle_named N r" "distinct (map hn_key (gd_handles (gw_db v)))"
        using v by (simp_all add: pulls_sound_def)
      have "set (gd_handles (gw_db v)) \<subseteq> set ?hs" "distinct (map hn_key ?hs)" "\<forall>r \<in> set ?hs. handle_named N r" "k \<in> hn_key ` set ?hs"
        using named_all named by (auto simp: insert_or_ignore_def)
      then show "pulls_sound N u \<and> pulls_give i v u \<and> (\<forall>x. r = Inr x \<longrightarrow> handle_kept k u)"
        using v new by (simp add: pulls_sound_def pulls_give_def pulls_stay_def own_posts_def handle_kept_def)
    qed
  qed (rule pulls.simple_threads)
qed

text \<open>The one request for a new pull request, by the call that has the right to it.\<close>

lemma create_request_promise:
  assumes "may_create i k w"
  shows "pulls.promises N i (\<lambda>_ _. True) w (gh_request N c [(i, k)] verb path payload)"
  unfolding gh_request_def Let_def
proof (rule pulls.bind [where Q = "\<lambda>_ t. may_create i k t \<and> validate_url N c (rp_base (cl_repository c) @ path) = Inr ()"])
  show "pulls.promises N i (\<lambda>_ t. may_create i k t \<and> validate_url N c (rp_base (cl_repository c) @ path) = Inr ()) w
      (Done (validate_url N c (rp_base (cl_repository c) @ path)))"
    by (rule pulls.simple_threads) (simp add: assms)
  fix t :: "'a github_world" and x assume t: "may_create i k t \<and> validate_url N c (rp_base (cl_repository c) @ path) = Inr ()"
  have sent: "pulls.promises N i (\<lambda>_ _. True) t (send_request N c [(i, k)] verb (rp_base (cl_repository c) @ path) payload)"
    unfolding send_request_def
  proof (rule pulls.atomic_op)
    fix v r u assume v: "pulls_rely i t v" "pulls_sound N v" and u: "(case gn_send N verb (rp_base (cl_repository c) @ path)
        (request_headers c (payload \<noteq> None)) (map_option (gn_dumps N) payload) (cl_timeout c) (gw_ext v) of
       (r, x) \<Rightarrow> (case r of Inl _ \<Rightarrow> Inl (gh_error GK_Network ''GitHub network request failed'') | Inr y \<Rightarrow> Inr y,
         v\<lparr>gw_ext := x, gw_sent := gw_sent v @ [(c, verb, rp_base (cl_repository c) @ path)], gw_posts := gw_posts v @ [(i, k)]\<rparr>)) = (r, u)"
    then obtain x where u: "u = v\<lparr>gw_ext := x, gw_sent := gw_sent v @ [(c, verb, rp_base (cl_repository c) @ path)],
        gw_posts := gw_posts v @ [(i, k)]\<rparr>"
      by (auto split: prod.splits)
    have right: "(i, k) \<in> set (gw_new v)" "(i, k) \<notin> set (gw_posts v)"
      using right_stable [of i k t v] t v(1) by (simp_all add: may_create_def)
    have "pulls_give i v u" by (auto simp: u pulls_give_def pulls_stay_def own_posts_def)
    moreover have "pulls_sound N u" using v(2) t right by (simp add: u pulls_sound_def)
    ultimately show "pulls_sound N u \<and> pulls_give i v u \<and> (\<forall>x. r = Inr x \<longrightarrow> True)" by simp
  qed
  show "pulls.promises N i (\<lambda>_ _. True) t
      (bind_t (send_request N c [(i, k)] verb (rp_base (cl_repository c) @ path) payload) (\<lambda>r. Done (read_response N c r)))"
    by (rule pulls.bind [OF sent], rule pulls.simple_threads) simp
qed

lemma aside_tx_promise:
  fixes w :: "'x github_world" and m :: "(github_db, 'b) op"
  assumes "\<And>d. gd_handles (snd (m d)) = gd_handles d \<and> intent_keys (snd (m d)) = intent_keys d"
  shows "pulls.promises N i (\<lambda>_ _. True) w (github_tx m)"
  unfolding github_tx_def
proof (rule aside_step [where P = "\<lambda>_. True"])
  fix t :: "'x github_world"
  obtain r d where m: "m (gw_db t) = (r, d)" by fastforce
  with assms [of "gw_db t"] show "aside t (snd (case m (gw_db t) of (Inl e, _) \<Rightarrow> (Inl e, t) | (Inr x, d) \<Rightarrow> (Inr x, t\<lparr>gw_db := d\<rparr>)))"
    by (cases r) (simp_all add: aside_def)
qed simp_all

lemma set_intent_promise:
  "pulls.promises N i (\<lambda>_ _. True) w (seq_t (github_tx (modify (set_intent k s))) (raise_t e))"
  by (rule pulls.seq [OF aside_tx_promise pulls.simple_threads(3)]) (simp add: modify_def set_intent_fields kept_keys)

lemma failed_promise: "pulls.promises N i (\<lambda>_ _. True) w (create_failed k e)"
  by (cases "gh_kind_of e") (simp_all add: create_failed_def pulls.simple_threads set_intent_promise)

lemma create_promise:
  assumes "may_create i k w" and "k = spec_key N c p"
  shows "pulls.promises N i (\<lambda>_. handle_kept k) w (create_pull N c i k p)"
  unfolding create_pull_def
proof (rule pulls.bind [OF pulls.catch [OF create_request_promise [OF assms(1)] failed_promise]])
  fix r and t :: "'a github_world"
  show "pulls.promises N i (\<lambda>_. handle_kept k) t (bind_t (Done (created_pull r)) (checkpoint_pull N c k p))"
    by (rule pulls.bind [OF pulls.simple_threads(1) [where Q = "\<lambda>_ _. True"]]) (simp_all add: checkpoint_promise assms(2))
qed

lemma ensure_promise:
  "pulls.promises N i (\<lambda>_. handle_kept (spec_key N c p)) w (ensure_pull N can_write c i p)"
  unfolding ensure_pull_def Let_def
proof (rule pulls.bind)
  let ?k = "spec_key N c p"
  show "pulls.promises N i (\<lambda>existing t. existing \<noteq> None \<longrightarrow> handle_kept ?k t) w (github_read (\<lambda>d. Inr (handle_at ?k d)))"
    by (rule github_read_promise [where P = "\<lambda>_. True"])
      (auto simp: handle_at_def handle_kept_def lookup_row_def intro: rev_image_eqI dest!: find_SomeD)
  fix existing :: "pull_handle option" and t :: "'a github_world" assume kept: "existing \<noteq> None \<longrightarrow> handle_kept ?k t"
  show "pulls.promises N i (\<lambda>_. handle_kept ?k) t (case existing of
       Some h \<Rightarrow> return_t h
     | None \<Rightarrow>
         seq_t (ask_write can_write ''persisted barrier forbids GitHub PR write'')
         (bind_t (record_intent c i ?k p) (\<lambda>is_new.
          bind_t (discover_pull N c p) (\<lambda>found. case found of
            Some kvs \<Rightarrow> checkpoint_pull N c ?k p kvs
          | None \<Rightarrow>
              seq_t (require_t is_new (gh_error GK_Uncertain ''prior PR creation outcome is uncertain; refusing duplicate create''))
              (seq_t (ask_write can_write ''persisted barrier forbids GitHub PR write'') (create_pull N c i ?k p))))))"
  proof (cases existing)
    case (Some h)
    with kept show ?thesis by (simp add: pulls.simple_threads)
  next
    case None
    have found: "pulls.promises N i (\<lambda>_ v. is_new \<longrightarrow> may_create i ?k v) u (discover_pull N c p)"
      if "is_new \<longrightarrow> may_create i ?k u" for is_new and u :: "'a github_world"
      unfolding discover_pull_def
    proof (rule pulls.bind [where Q = "\<lambda>_ v. is_new \<longrightarrow> may_create i ?k v"])
      show "pulls.promises N i (\<lambda>_ v. is_new \<longrightarrow> may_create i ?k v) u (gh_request N c [] ''GET'' (discover_path c p) None)"
        by (rule request_promise) (use that right_stable in blast)+
    qed (simp add: split_beta pulls.simple_threads)
    have rest: "pulls.promises N i (\<lambda>_. handle_kept ?k) u
        (seq_t (require_t is_new (gh_error GK_Uncertain ''prior PR creation outcome is uncertain; refusing duplicate create''))
          (seq_t (ask_write can_write ''persisted barrier forbids GitHub PR write'') (create_pull N c i ?k p)))"
      if "is_new \<longrightarrow> may_create i ?k u" for is_new and u :: "'a github_world"
    proof (rule pulls.seq [where Q = "\<lambda>_. may_create i ?k"])
      show "pulls.promises N i (\<lambda>_. may_create i ?k) u
          (require_t is_new (gh_error GK_Uncertain ''prior PR creation outcome is uncertain; refusing duplicate create''))"
        by (rule pulls.simple_threads) (use that in simp)
      fix v :: "'a github_world" assume v: "may_create i ?k v"
      show "pulls.promises N i (\<lambda>_. handle_kept ?k) v
          (seq_t (ask_write can_write ''persisted barrier forbids GitHub PR write'') (create_pull N c i ?k p))"
        by (rule pulls.seq [OF ask_write_promise [where P = "may_create i ?k", OF v right_stable] create_promise]) simp_all
    qed
    show ?thesis unfolding None option.case
    proof (rule pulls.seq [OF ask_write_promise [where P = "\<lambda>_. True"]], simp_all, rule pulls.bind [OF record_promise])
      fix is_new and u :: "'a github_world" assume u: "is_new \<longrightarrow> may_create i ?k u"
      show "pulls.promises N i (\<lambda>_. handle_kept ?k) u (bind_t (discover_pull N c p) (\<lambda>found. case found of
            Some kvs \<Rightarrow> checkpoint_pull N c ?k p kvs
          | None \<Rightarrow> seq_t (require_t is_new (gh_error GK_Uncertain ''prior PR creation outcome is uncertain; refusing duplicate create''))
              (seq_t (ask_write can_write ''persisted barrier forbids GitHub PR write'') (create_pull N c i ?k p))))"
        by (rule pulls.bind [OF found [OF u]]) (simp add: checkpoint_promise rest split: option.split)
    qed
  qed
qed

section \<open>Updates and checks\<close>

lemma quiet_request: "pulls.promises N i (\<lambda>_ _. True) w (gh_request N c [] verb path payload)"
  by (rule request_promise) simp_all

lemma quiet_read: "pulls.promises N i (\<lambda>_ _. True) w (github_read f)"
  by (rule github_read_promise [where P = "\<lambda>_. True"]) simp_all

lemma quiet_done: "pulls.promises N i (\<lambda>_ _. True) w (Done r)"
  by (rule pulls.simple_threads) simp

lemma quiet_write: "pulls.promises N i (\<lambda>_ _. True) w (ask_write can_write message)"
  by (rule ask_write_promise) simp_all

lemma quiet_rest: "pulls.promises N i (\<lambda>_ _. True) w (return_t x)" "pulls.promises N i (\<lambda>_ _. True) w (raise_t e)"
  "pulls.promises N i (\<lambda>_ _. True) w (require_t b e)"
  by (rule pulls.simple_threads; simp)+

lemma quiet_pair: "(\<And>a b. pulls.promises N i (\<lambda>_ _. True) w (f a b)) \<Longrightarrow> pulls.promises N i (\<lambda>_ _. True) w (case x of (a, b) \<Rightarrow> f a b)"
  by (simp add: split_beta)

lemmas quiet = quiet_pair pulls.bind [where Q = "\<lambda>_ _. True"] pulls.seq [where Q = "\<lambda>_ _. True"] quiet_request quiet_read quiet_done quiet_write quiet_rest

lemma update_promise: "pulls.promises N i (\<lambda>_ _. True) w (update_pull N can_write c h title body draft)"
  unfolding update_pull_def by (intro quiet)

lemma checks_promise: "pulls.promises N i (\<lambda>_ _. True) w (gh_checks N c commit)"
  unfolding gh_checks_def by (rule pulls.bind [OF quiet_request]) (simp add: split_beta quiet_done)

lemma event_aside: "gd_handles (snd (seq_op (modify f) (github_event ty run payload) d)) = gd_handles (f d)"
  "intent_keys (snd (seq_op (modify f) (github_event ty run payload) d)) = intent_keys (f d)"
  by (simp_all add: op_defs github_event_run)

lemma start_query_promise: "pulls.promises N i (\<lambda>_ _. True) w (start_query N c run commit)"
  unfolding start_query_def Let_def by (intro quiet aside_tx_promise) (simp add: event_aside)

lemma poll_query_promise: "pulls.promises N i (\<lambda>_ _. True) w (poll_query N c k)"
  unfolding poll_query_def find_query_def by (intro quiet aside_tx_promise checks_promise) (simp add: event_aside)


section \<open>Managers at the same time\<close>

text \<open>
  Threads of managers and monitors, each call with a number of its own. Other components change the tables of the
  runtime, the network moves by itself, and the process can stop at any moment.
\<close>

type_synonym pull_value = "(gh_client \<times> pull_spec \<times> pull_handle) option"

record 'x pull_state =
  gs_world :: "'x github_world"
  gs_threads :: "(nat \<times> ('x github_world, pull_value) thread) list"
  gs_calls :: nat

definition started :: "('x github_world, pull_value) thread \<Rightarrow> 'x pull_state \<Rightarrow> 'x pull_state" where
  "started m s = s\<lparr>gs_threads := (gs_calls s, m) # gs_threads s, gs_calls := Suc (gs_calls s)\<rparr>"

definition unnamed :: "('x github_world, 'a) thread \<Rightarrow> ('x github_world, pull_value) thread" where
  "unnamed m = bind_t m (\<lambda>_. return_t None)"

definition ensured :: "'x gh_net \<Rightarrow> 'x write_guard \<Rightarrow> gh_client \<Rightarrow> nat \<Rightarrow> pull_spec \<Rightarrow> ('x github_world, pull_value) thread" where
  "ensured N can_write c call p = bind_t (ensure_pull N can_write c call p) (\<lambda>h. return_t (Some (c, p, h)))"

inductive pull_step :: "'x gh_net \<Rightarrow> 'x pull_state \<Rightarrow> 'x pull_state \<Rightarrow> bool" for N where
  call_ensure: "pull_step N s (started (ensured N can_write c (gs_calls s) p) s)"
| call_update: "pull_step N s (started (unnamed (update_pull N can_write c h title body draft)) s)"
| call_checks: "pull_step N s (started (unnamed (gh_checks N c commit)) s)"
| call_start_query: "pull_step N s (started (unnamed (start_query N c run commit)) s)"
| call_poll_query: "pull_step N s (started (unnamed (poll_query N c k)) s)"
| pull_thread: "owner_step (gs_threads s, gs_world s) (ms, w) \<Longrightarrow> pull_step N s (s\<lparr>gs_threads := ms, gs_world := w\<rparr>)"
| network_moves: "pull_step N s (s\<lparr>gs_world := (gs_world s)\<lparr>gw_ext := x\<rparr>\<rparr>)"
| runtime_moves: "pull_step N s (s\<lparr>gs_world := (gs_world s)\<lparr>gw_db := (gw_db (gs_world s))\<lparr>gd_core := d\<rparr>\<rparr>\<rparr>)"
| manager_stops: "pull_step N s (s\<lparr>gs_threads := []\<rparr>)"

definition no_pulls :: "'x \<Rightarrow> db \<Rightarrow> 'x pull_state" where
  "no_pulls x d = \<lparr>gs_world = \<lparr>gw_db = \<lparr>gd_core = d, gd_queries = [], gd_intents = [], gd_handles = []\<rparr>, gw_ext = x,
     gw_sent = [], gw_new = [], gw_posts = []\<rparr>, gs_threads = [], gs_calls = 0\<rparr>"

definition pull_kept :: "'x gh_net \<Rightarrow> pull_value \<Rightarrow> 'x github_world \<Rightarrow> bool" where
  "pull_kept N v w \<longleftrightarrow> (case v of None \<Rightarrow> True | Some (c, p, h) \<Rightarrow> handle_kept (spec_key N c p) w)"

lemma pull_kept_stable: "pull_kept N v w \<Longrightarrow> pulls_rely i w w' \<Longrightarrow> pull_kept N v w'"
  by (cases v) (auto simp: pull_kept_def intro: handle_stable)

lemma ensured_promise: "pulls.promises N i (pull_kept N) w (ensured N can_write c i p)"
  unfolding ensured_def by (rule pulls.bind [OF ensure_promise], rule pulls.simple_threads) (simp add: pull_kept_def)

lemma unnamed_promise:
  "pulls.promises N i (\<lambda>_ _. True) w m \<Longrightarrow> pulls.promises N i (pull_kept N) w (unnamed m)"
  unfolding unnamed_def by (erule pulls.bind, rule pulls.simple_threads) (simp add: pull_kept_def)

definition pulls_ok :: "'x gh_net \<Rightarrow> 'x pull_state \<Rightarrow> bool" where
  "pulls_ok N s \<longleftrightarrow> pulls_sound N (gs_world s) \<and> distinct (map fst (gs_threads s)) \<and>
     (\<forall>(i, m) \<in> set (gs_threads s). i < gs_calls s \<and> pulls.promises N i (pull_kept N) (gs_world s) m)"

lemma started_ok:
  "pulls_ok N s \<Longrightarrow> pulls.promises N (gs_calls s) (pull_kept N) (gs_world s) m \<Longrightarrow> pulls_ok N (started m s)"
  by (force simp: pulls_ok_def started_def)

lemma aside_ok:
  assumes "pulls_ok N s" and "aside (gs_world s) w"
  shows "pulls_ok N (s\<lparr>gs_world := w\<rparr>) \<and> pulls_stay (gs_world s) w"
proof -
  have sound: "pulls_sound N w" and rely: "pulls_rely i (gs_world s) w" for i
    using aside_sound [OF assms(2), of N i] assms(1) unfolding pulls_ok_def by blast+
  have "pulls.promises N i (pull_kept N) w m" if "(i, m) \<in> set (gs_threads s)" for i m
    by (rule pulls.later [OF _ rely pull_kept_stable]) (use assms(1) that in \<open>auto simp: pulls_ok_def\<close>)
  with sound rely assms(1) show ?thesis by (auto simp: pulls_ok_def pulls_rely_def)
qed

lemma pull_step_ok:
  assumes "pull_step N s s'" and "pulls_ok N s"
  shows "pulls_ok N s' \<and> pulls_stay (gs_world s) (gs_world s')"
  using assms(1)
proof cases
  case (pull_thread ms w)
  have "pulls_sound N w \<and> (\<exists>i. pulls_give i (gs_world s) w) \<and> map fst ms = map fst (gs_threads s) \<and>
      (\<forall>(i, m) \<in> set ms. pulls.promises N i (pull_kept N) w m)"
    by (rule pulls.pool [OF pull_thread(2)]) (use assms(2) pull_kept_stable in \<open>auto simp: pulls_ok_def\<close>)
  moreover have "i < gs_calls s" if "(i, m) \<in> set ms" and "map fst ms = map fst (gs_threads s)" for i m
  proof -
    have "i \<in> fst ` set (gs_threads s)" using that by (metis image_eqI fst_conv list.set_map)
    then show ?thesis using assms(2) by (auto simp: pulls_ok_def)
  qed
  ultimately show ?thesis using assms(2) by (auto simp: pull_thread(1) pulls_ok_def pulls_give_def)
next
  case call_ensure
  with started_ok [OF assms(2) ensured_promise] show ?thesis by (simp add: started_def)
next
  case call_update
  with started_ok [OF assms(2) unnamed_promise [OF update_promise]] show ?thesis by (simp add: started_def)
next
  case call_checks
  with started_ok [OF assms(2) unnamed_promise [OF checks_promise]] show ?thesis by (simp add: started_def)
next
  case call_start_query
  with started_ok [OF assms(2) unnamed_promise [OF start_query_promise]] show ?thesis by (simp add: started_def)
next
  case call_poll_query
  with started_ok [OF assms(2) unnamed_promise [OF poll_query_promise]] show ?thesis by (simp add: started_def)
next
  case manager_stops
  with assms(2) show ?thesis by (simp add: pulls_ok_def)
qed (use aside_ok [OF assms(2) aside_ext(1)] aside_ok [OF assms(2) aside_ext(3)] in auto)

lemma pulls_reachable:
  assumes "(pull_step N)\<^sup>*\<^sup>* s s'" and "pulls_ok N s"
  shows "pulls_ok N s' \<and> pulls_stay (gs_world s) (gs_world s')"
  using assms
proof (induction rule: rtranclp_induct)
  case (step t u)
  then show ?case using pull_step_ok pulls_stay_trans by blast
qed simp

text \<open>Once there is a handle it is the answer, without a request.\<close>

lemma ensure_is_repeated:
  assumes "distinct (map hn_key (gd_handles (gw_db w)))" and "r \<in> set (gd_handles (gw_db w))" and "hn_key r = spec_key N c p"
  shows "run_thread (ensure_pull N can_write c call p) w = (Inr (hn_handle r), w)"
proof -
  have "handle_at (spec_key N c p) (gw_db w) = Some (hn_handle r)"
    using find_key_distinct [OF assms(1,2)] assms(3) by (simp add: handle_at_def lookup_row_def)
  then show ?thesis by (simp add: ensure_pull_def github_read_def op_defs Let_def)
qed

text \<open>
  C17. However calls to ensure and update pull requests and to query checks interleave on one store, with any clients, networks and
  write guards, and wherever the process stops: under one key (repository, run, base, head) a pull request is asked for at
  most once, by a call that recorded its intent first; nothing is sent but to a URL that the client allows;
  handles stay, one for a key, each under the key of its own run and branches; and when a call has returned, the store holds a handle
  under its key, which every later call for this key returns without a request.
\<close>

theorem pull_request_created_once:
  assumes "(pull_step N)\<^sup>*\<^sup>* (no_pulls e d) s" and "(pull_step N)\<^sup>*\<^sup>* s s'"
  shows "distinct (map snd (gw_posts (gs_world s'))) \<and>
    snd ` set (gw_posts (gs_world s')) \<subseteq> it_key ` set (gd_intents (gw_db (gs_world s'))) \<and>
    (\<forall>(c, verb, url) \<in> set (gw_sent (gs_world s')). \<exists>u. gn_parse N url = Inr u \<and> url_allowed c u) \<and>
    set (gd_handles (gw_db (gs_world s))) \<subseteq> set (gd_handles (gw_db (gs_world s'))) \<and>
    (\<forall>r \<in> set (gd_handles (gw_db (gs_world s'))). handle_named N r \<and>
      (\<forall>can_write c call p. hn_key r = spec_key N c p \<longrightarrow>
        run_thread (ensure_pull N can_write c call p) (gs_world s') = (Inr (hn_handle r), gs_world s'))) \<and>
    (\<forall>i c p h. (i, Done (Inr (Some (c, p, h)))) \<in> set (gs_threads s') \<longrightarrow>
      (\<exists>r \<in> set (gd_handles (gw_db (gs_world s'))). hn_key r = spec_key N c p))"
proof -
  have "pulls_ok N (no_pulls e d)" by (simp add: pulls_ok_def no_pulls_def pulls_sound_def intent_keys_def)
  with assms have ok: "pulls_ok N s'" and stay: "pulls_stay (gs_world s) (gs_world s')" using pulls_reachable by blast+
  let ?w = "gs_world s'"
  have sound: "pulls_sound N ?w" using ok by (simp add: pulls_ok_def)
  have posts: "distinct (map snd (gw_posts ?w))"
  proof -
    have "inj_on snd (set (gw_new ?w))" using sound by (simp add: pulls_sound_def distinct_map)
    then have "inj_on snd (set (gw_posts ?w))" by (rule inj_on_subset) (use sound in \<open>simp add: pulls_sound_def\<close>)
    with sound show ?thesis by (simp add: pulls_sound_def distinct_map)
  qed
  have sent: "\<exists>u. gn_parse N url = Inr u \<and> url_allowed c u" if "(c, verb, url) \<in> set (gw_sent ?w)" for c verb url
  proof -
    have "validate_url N c url = Inr ()" using sound that by (auto simp: pulls_sound_def)
    then show ?thesis by (auto simp: validate_url_def bind_sum_Inr split: if_splits)
  qed
  have kept: "\<exists>r \<in> set (gd_handles (gw_db ?w)). hn_key r = spec_key N c p" if "(i, Done (Inr (Some (c, p, h)))) \<in> set (gs_threads s')" for i c p h
  proof -
    from that ok have "pulls.promises N i (pull_kept N) ?w (Done (Inr (Some (c, p, h))))" by (auto simp: pulls_ok_def)
    then have "handle_kept (spec_key N c p) ?w" by (auto simp: pull_kept_def elim: assured_DoneE)
    then show ?thesis by (auto simp: handle_kept_def)
  qed
  have "snd ` set (gw_posts ?w) \<subseteq> it_key ` set (gd_intents (gw_db ?w))"
    using sound unfolding pulls_sound_def intent_keys_def by (meson image_mono subset_trans)
  with posts sent kept sound stay show ?thesis
    by (auto simp: pulls_stay_def pulls_sound_def intro: ensure_is_repeated)
qed


section \<open>What is left undone\<close>

text \<open>
  An intent without a handle is never tried again, whatever became of its request: the state of the intent, which a refusal (a
  limit of the rate, an expired token) leaves at failed, is not looked at.
\<close>

lemma refused_creation_is_stuck:
  assumes "k = spec_key N c p" and "k \<in> it_key ` set (gd_intents (gw_db w))" and "handle_at k (gw_db w) = None"
    and "can_write (gw_db w) (gw_ext w) = (Inr True, x)"
    and "run_thread (discover_pull N c p) (w\<lparr>gw_ext := x\<rparr>) = (Inr None, w')"
  shows "run_thread (ensure_pull N can_write c call p) w =
    (Inl (gh_error GK_Uncertain ''prior PR creation outcome is uncertain; refusing duplicate create''), w')"
  using assms by (simp add: ensure_pull_def github_read_def ask_write_def record_intent_def op_defs Let_def)

text \<open>A date in the header of a refusal is an error of another class, which leaves the intent as it is.\<close>

lemma retry_date_escapes:
  assumes "map_of (hs_headers r) ''retry-after'' = Some t" and "t \<noteq> []" and "gn_float N t = None" and "hs_status r = 429"
  shows "classify_http N r = Inl (ValueError ''could not convert string to float'')"
  using assms by (simp add: classify_http_def header_of_def given_def)

text \<open>The second of two calls that find different pull requests returns a handle that is not the recorded one.\<close>

lemma late_handle_is_not_recorded:
  assumes "lookup_row hn_key k (gd_handles (gw_db w)) = Some r" and "handle_of_payload N c p kvs = Inr h"
  shows "\<exists>w'. run_thread (checkpoint_pull N c k p kvs) w = (Inr h, w') \<and> gd_handles (gw_db w') = gd_handles (gw_db w)"
proof -
  have "k \<in> hn_key ` set (gd_handles (gw_db w))" using assms(1) by (auto simp: lookup_row_def image_iff dest!: find_SomeD)
  then show ?thesis using assms(2) checkpoint_run [of k h "gw_db w"]
    by (auto simp: checkpoint_pull_def github_tx_def insert_or_ignore_def op_defs)
qed

text \<open>
  Success means that there are checks, that all have ended and that all of them, each of this commit, have succeeded, of those that the one
  answer lists.
\<close>

lemma read_check_head:
  assumes "read_check N commit raw = Inr k"
  shows "lower (ck_head k) = lower commit"
  using assms by (auto simp: read_check_def item_of_def construct_def bind_sum_Inr Let_def split: json.splits if_splits option.splits sum.splits)

lemma collect_in: "collect f xs = Inr ys \<Longrightarrow> y \<in> set ys \<Longrightarrow> \<exists>x \<in> set xs. f x = Inr y"
  by (induction xs arbitrary: ys) (auto simp: bind_sum_Inr)

lemma checks_of_commit:
  assumes "checks_of N c commit payload = Inr s"
  shows "ch_commit s = commit \<and> (\<forall>k \<in> set (ch_checks s). lower (ck_head k) = lower commit) \<and>
    (checks_successful s \<longleftrightarrow> ch_checks s \<noteq> [] \<and> (\<forall>k \<in> set (ch_checks s). ck_status k = CS_Completed \<and> ck_conclusion k = Some CC_Success))"
proof -
  obtain raws where raws: "collect (read_check N commit) raws = Inr (ch_checks s)" "ch_commit s = commit"
    using assms by (auto simp: checks_of_def bind_sum_Inr Let_def split: json.splits option.splits)
  have "lower (ck_head k) = lower commit" if "k \<in> set (ch_checks s)" for k
    using collect_in [OF raws(1) that] read_check_head by blast
  with raws(2) show ?thesis by (auto simp: checks_successful_def checks_complete_def list_all_iff)
qed

section \<open>An example\<close>

text \<open>A network on which a list of pull requests is empty and a new one is confirmed; its state counts the exchanges.\<close>

definition demo_net :: "nat gh_net" where
  "demo_net = \<lparr>gn_send = \<lambda>verb url hs body t n.
       (Inr \<lparr>hs_status = if verb = ''POST'' then 201 else 200, hs_headers = [], hs_body = verb\<rparr>, Suc n),
     gn_sleep = \<lambda>_. ret (),
     gn_parse = \<lambda>_. Inr \<lparr>up_scheme = ''https'', up_host = Some ''api.github.com'', up_user = None, up_password = None, up_query = []\<rparr>,
     gn_loads = \<lambda>s. if s = ''GET'' then Some (JArr []) else Some (JObj [(''number'', JInt 7), (''html_url'', JStr ''u''), (''node_id'', JStr ''n''),
       (''head'', JObj [(''ref'', JStr ''work'')]), (''base'', JObj [(''ref'', JStr ''main'')])]),
     gn_dumps = \<lambda>_. ''{}'', gn_float = \<lambda>_. None, gn_int = \<lambda>_. None, gn_repr = \<lambda>_. [], gn_sha = \<lambda>s. s\<rparr>"

definition demo_client :: gh_client where
  "demo_client = \<lparr>cl_repository = \<lparr>rp_owner = ''o'', rp_name = ''r'', rp_base = ''https://api.github.com''\<rparr>, cl_token = None,
     cl_hosts = [''api.github.com''], cl_timeout = 20, cl_max = 100\<rparr>"

definition demo_pull :: pull_spec where
  "demo_pull = \<lparr>ps_run = ''run'', ps_base = ''main'', ps_head = ''work'', ps_title = ''t'', ps_body = ''b'', ps_draft = True\<rparr>"

lemma demo_allowed: "validate_url demo_net demo_client url = Inr ()"
proof -
  have "host_name ''api.github.com'' = ''api.github.com''" by code_simp
  then show ?thesis by (simp add: validate_url_def demo_net_def demo_client_def url_allowed_def given_def)
qed

definition demo_ensured :: "(nat github_world, pull_value) thread" where
  "demo_ensured = ensured demo_net (\<lambda>_. ret True) demo_client 0 demo_pull"

lemma demo_get: "\<exists>v. run_thread (gh_request demo_net demo_client [] ''GET'' path None) w = (Inr (200, JArr []), v) \<and>
    gw_db v = gw_db w \<and> gw_posts v = gw_posts w"
  by (simp add: gh_request_def demo_allowed send_request_def op_defs Let_def)
    (simp add: demo_net_def demo_client_def read_response_def classify_http_def)

definition demo_answer_fields :: "(string \<times> json) list" where
  "demo_answer_fields = [(''number'', JInt 7), (''html_url'', JStr ''u''), (''node_id'', JStr ''n''),
     (''head'', JObj [(''ref'', JStr ''work'')]), (''base'', JObj [(''ref'', JStr ''main'')])]"

lemma demo_post: "\<exists>v. run_thread (gh_request demo_net demo_client note ''POST'' path (Some x)) w = (Inr (201, JObj demo_answer_fields), v) \<and>
    gw_db v = gw_db w \<and> gw_posts v = gw_posts w @ note"
  by (simp add: gh_request_def demo_allowed send_request_def op_defs Let_def)
    (simp add: demo_net_def demo_client_def read_response_def classify_http_def demo_answer_fields_def)

lemma demo_handle: "\<exists>h. handle_of_payload demo_net demo_client demo_pull demo_answer_fields = Inr h"
  by (simp add: handle_of_payload_def validate_pull_def pull_matches_def ref_of_def demo_answer_fields_def demo_pull_def item_of_def
      int_of_str_def)

lemma demo_created:
  assumes "gd_intents (gw_db w) = []" and "gd_handles (gw_db w) = []" and "gw_posts w = []"
  shows "\<exists>h w'. run_thread demo_ensured w = (Inr (Some (demo_client, demo_pull, h)), w') \<and>
    map snd (gw_posts w') = [spec_key demo_net demo_client demo_pull]"
proof -
  let ?k = "spec_key demo_net demo_client demo_pull"
  obtain u where u: "run_thread (record_intent demo_client 0 ?k demo_pull) w = (Inr True, u)" "gw_posts u = []"
    using assms(1,3) by (simp add: record_intent_def)
  obtain v where v: "run_thread (discover_pull demo_net demo_client demo_pull) u = (Inr None, v)" "gw_posts v = []"
    using demo_get [of "discover_path demo_client demo_pull" u] u(2)
    by (auto simp: discover_pull_def discovered_def matching_pulls_def bind_op_def)
  obtain x where x: "run_thread (gh_request demo_net demo_client [(0, ?k)] ''POST'' (repo_path demo_client @ ''/pulls'') (Some (pull_fields demo_pull))) v
      = (Inr (201, JObj demo_answer_fields), x)" "gw_posts x = [(0, ?k)]"
    using demo_post [of "[(0, ?k)]" "repo_path demo_client @ ''/pulls''" "pull_fields demo_pull" v] v(2) by auto
  obtain h where h: "handle_of_payload demo_net demo_client demo_pull demo_answer_fields = Inr h" using demo_handle by blast
  obtain d where d: "checkpoint_tx ?k h (gw_db x) = (Inr (), d)" using checkpoint_run by blast
  have "run_thread (ensure_pull demo_net (\<lambda>_. ret True) demo_client 0 demo_pull) w = (Inr h, x\<lparr>gw_db := d\<rparr>)"
    using assms(2) u(1) v(1) x(1) h d
    by (simp add: ensure_pull_def Let_def github_read_def handle_at_def lookup_row_def ask_write_def create_pull_def created_pull_def
        checkpoint_pull_def github_tx_def op_defs)
  then show ?thesis using x(2) by (simp add: demo_ensured_def ensured_def op_defs)
qed

lemma pull_alone:
  "(pull_step N)\<^sup>*\<^sup>* \<lparr>gs_world = w, gs_threads = [(i, m)], gs_calls = n\<rparr>
     \<lparr>gs_world = snd (run_thread m w), gs_threads = [(i, Done (fst (run_thread m w)))], gs_calls = n\<rparr>"
proof -
  have "(pull_step N)\<^sup>*\<^sup>* \<lparr>gs_world = w, gs_threads = ms, gs_calls = n\<rparr> \<lparr>gs_world = w', gs_threads = ms', gs_calls = n\<rparr>"
    if "owner_step\<^sup>*\<^sup>* (ms, w) (ms', w')" for ms ms' w'
    using that
  proof (induction "(ms', w')" arbitrary: ms' w' rule: rtranclp_induct)
    case (step y)
    obtain ms1 w1 where y: "y = (ms1, w1)" by fastforce
    have "pull_step N \<lparr>gs_world = w1, gs_threads = ms1, gs_calls = n\<rparr> \<lparr>gs_world = w', gs_threads = ms', gs_calls = n\<rparr>"
      using pull_thread [of "\<lparr>gs_world = w1, gs_threads = ms1, gs_calls = n\<rparr>" ms' w' N] step(2) y by simp
    with step(3) [OF y] show ?case by (rule rtranclp.rtrancl_into_rtrancl)
  qed simp
  from this [OF owner_alone] show ?thesis .
qed

theorem pull_request_created_once_witness:
  "\<exists>s. (pull_step demo_net)\<^sup>*\<^sup>* (no_pulls 0 empty_db) s \<and>
     map snd (gw_posts (gs_world s)) = [spec_key demo_net demo_client demo_pull] \<and>
     (\<exists>r \<in> set (gd_handles (gw_db (gs_world s))). hn_key r = spec_key demo_net demo_client demo_pull)"
proof -
  let ?s = "no_pulls (0 :: nat) empty_db"
  let ?w = "gs_world ?s"
  obtain h w' where run: "run_thread demo_ensured ?w = (Inr (Some (demo_client, demo_pull, h)), w')"
    "map snd (gw_posts w') = [spec_key demo_net demo_client demo_pull]"
    using demo_created [of ?w] by (auto simp: no_pulls_def)
  let ?t = "\<lparr>gs_world = w', gs_threads = [(0, Done (Inr (Some (demo_client, demo_pull, h))))], gs_calls = 1\<rparr>"
  have "pull_step demo_net ?s \<lparr>gs_world = ?w, gs_threads = [(0, demo_ensured)], gs_calls = 1\<rparr>"
    using call_ensure [of demo_net ?s "\<lambda>_. ret True" demo_client demo_pull] by (simp add: started_def no_pulls_def demo_ensured_def)
  with pull_alone [of demo_net ?w 0 demo_ensured 1] run(1) have reach: "(pull_step demo_net)\<^sup>*\<^sup>* ?s ?t"
    by (simp add: converse_rtranclp_into_rtranclp)
  then have "\<exists>r \<in> set (gd_handles (gw_db w')). hn_key r = spec_key demo_net demo_client demo_pull"
    using pull_request_created_once [OF reach rtranclp.rtrancl_refl] by fastforce
  with reach run(2) show ?thesis by (intro exI [of _ ?t]) simp
qed

end
