(* ===== verification/Context.thy ===== *)
theory Context
  imports Conversation
begin

text \<open>
  \<open>context/builder.py\<close>: the text that a session is given, within a limit of bytes, and \<open>context/handoff.py\<close>: what one session
  leaves to the next. Strings are UTF-8 bytes, so the length of a text here is the length of its encoding there.
\<close>

section \<open>UTF-8\<close>

text \<open>The shape of one character by its first byte: the range of the second byte and how many more follow.\<close>

definition continuation :: "nat \<Rightarrow> nat \<Rightarrow> char \<Rightarrow> bool" where
  "continuation a b c \<longleftrightarrow> a \<le> of_char c \<and> of_char c \<le> b"

definition lead_shape :: "nat \<Rightarrow> (nat \<times> nat \<times> nat) option" where
  "lead_shape n =
     (if 0xC2 \<le> n \<and> n \<le> 0xDF then Some (0x80, 0xBF, 0)
      else if n = 0xE0 then Some (0xA0, 0xBF, 1)
      else if n = 0xED then Some (0x80, 0x9F, 1)
      else if 0xE1 \<le> n \<and> n \<le> 0xEF then Some (0x80, 0xBF, 1)
      else if n = 0xF0 then Some (0x90, 0xBF, 2)
      else if 0xF1 \<le> n \<and> n \<le> 0xF3 then Some (0x80, 0xBF, 2)
      else if n = 0xF4 then Some (0x80, 0x8F, 2)
      else None)"

text \<open>The length of the character at the head of the bytes, none when they start with no whole character.\<close>

definition char_width :: "string \<Rightarrow> nat option" where
  "char_width s = (case s of [] \<Rightarrow> None
     | c # t \<Rightarrow> if of_char c < (0x80 :: nat) then Some 1
         else (case lead_shape (of_char c) of None \<Rightarrow> None
           | Some (a, b, n) \<Rightarrow> if length t > n \<and> continuation a b (hd t) \<and> list_all (continuation 0x80 0xBF) (take n (tl t))
               then Some (n + 2) else None))"

lemma char_width_bounds: "char_width s = Some n \<Longrightarrow> 1 \<le> n \<and> n \<le> length s \<and> n \<le> 4"
  by (auto simp: char_width_def lead_shape_def Suc_le_eq split: list.splits if_splits option.splits)

text \<open>\<open>bytes.decode\<close> succeeds.\<close>

function valid_utf8 :: "string \<Rightarrow> bool" where
  "valid_utf8 s \<longleftrightarrow> s = [] \<or> (case char_width s of None \<Rightarrow> False | Some n \<Rightarrow> valid_utf8 (drop n s))"
  by pat_completeness auto
termination
  by (relation "measure length") (auto dest!: char_width_bounds)

declare valid_utf8.simps [simp del]

section \<open>ContextBuilder\<close>

record context_input =
  ci_responsibility :: string
  ci_contract :: string
  ci_policy :: string
  ci_git :: string
  ci_handoff :: string
  ci_failures :: string
  ci_files :: "string list"
  ci_artifacts :: "string list"
  ci_schema :: string

record context_package =
  cp_rendered :: string
  cp_files :: "string list"
  cp_artifacts :: "string list"
  cp_truncated :: "string list"

definition make_builder :: "int \<Rightarrow> py_error + int" where
  "make_builder limit = (if limit \<le> 0 then Inl (ValueError ''max_bytes must be positive'') else Inr limit)"

definition section_head :: "string \<Rightarrow> string" where
  "section_head title = [CHR 0x0A] @ ''## '' @ title @ [CHR 0x0A]"

definition render_section :: "string \<Rightarrow> string \<Rightarrow> string" where
  "render_section title content = section_head title @ strip_text content @ [CHR 0x0A]"

definition render_sections :: "(string \<times> string) list \<Rightarrow> string" where
  "render_sections ss = concat (map (\<lambda>(t, c). render_section t c) ss)"

definition cut_suffix :: string where
  "cut_suffix = CHR 0x0A # ''[truncated]''"

text \<open>The bytes are shortened until they decode; when none are left the end of the suffix itself remains.\<close>

fun shorten :: "nat \<Rightarrow> string \<Rightarrow> string option" where
  "shorten 0 s = None"
| "shorten (Suc n) s = (let t = take (Suc n) s in if valid_utf8 t then Some t else shorten n s)"

definition suffix_end :: "int \<Rightarrow> string" where
  "suffix_end limit = (if limit \<le> 0 then drop (nat (- limit)) cut_suffix
     else drop (length cut_suffix - nat limit) cut_suffix)"

definition truncate_utf8 :: "string \<Rightarrow> int \<Rightarrow> string" where
  "truncate_utf8 text limit =
     (let allowance = nat (limit - int (length cut_suffix)) in
      case shorten (length (take allowance text)) text of
        Some t \<Rightarrow> t @ cut_suffix
      | None \<Rightarrow> suffix_end limit)"

text \<open>One optional section, added to what is rendered so far and to the names of those that were cut.\<close>

definition section_name :: "string \<Rightarrow> string" where
  "section_name title = map (\<lambda>c. if c = CHR '' '' then CHR ''_'' else c) (lower title)"

definition add_section :: "int \<Rightarrow> string \<times> string list \<Rightarrow> string \<times> string \<Rightarrow> string \<times> string list" where
  "add_section limit acc part = (case (acc, part) of ((rendered, truncated), (title, content)) \<Rightarrow>
     if content = [] then acc
     else if int (length (rendered @ render_section title content)) \<le> limit then (rendered @ render_section title content, truncated)
     else
       (let room = limit - int (length rendered) - int (length (section_head title)) in
        (if room > 24 then rendered @ section_head title @ truncate_utf8 content room else rendered,
         truncated @ [section_name title])))"

definition required_part :: "context_input \<Rightarrow> string" where
  "required_part c = render_sections [(''NODE RESPONSIBILITY'', ci_responsibility c), (''IMMUTABLE CONTRACT'', ci_contract c),
     (''GLOBAL POLICY'', ci_policy c), (''OUTPUT SCHEMA'', ci_schema c)]"

definition optional_parts :: "context_input \<Rightarrow> (string \<times> string) list" where
  "optional_parts c = [(''GIT STATUS'', ci_git c), (''UPSTREAM HANDOFF'', ci_handoff c), (''FAILURE EVIDENCE'', ci_failures c),
     (''FILE REFERENCES'', join_with [CHR 0x0A] (sorted_set (ci_files c))),
     (''ARTIFACT REFERENCES'', join_with [CHR 0x0A] (sorted_set (ci_artifacts c)))]"

definition build_context :: "int \<Rightarrow> context_input \<Rightarrow> py_error + context_package" where
  "build_context limit c =
     (if int (length (required_part c)) > limit then Inl (ValueError ''immutable context exceeds size limit'')
      else (let (rendered, truncated) = foldl (add_section limit) (required_part c, []) (optional_parts c) in
        Inr \<lparr>cp_rendered = rendered, cp_files = sorted_set (ci_files c), cp_artifacts = sorted_set (ci_artifacts c), cp_truncated = truncated\<rparr>))"

section \<open>Handoffs\<close>

datatype handoff_status = HS_Completed | HS_Failed | HS_Blocked | HS_Interrupted

record handoff =
  ho_status :: handoff_status
  ho_summary :: string
  ho_files :: "string list"
  ho_decisions :: "string list"
  ho_risks :: "string list"
  ho_next :: "string list"
  ho_evidence :: "string list"

definition validate_handoff :: "handoff \<Rightarrow> py_error + unit" where
  "validate_handoff h = require (ho_summary h \<noteq> []) ''summary''"

definition normalized :: "handoff \<Rightarrow> handoff" where
  "normalized h = h\<lparr>ho_files := sorted_set (ho_files h), ho_evidence := sorted_set (ho_evidence h)\<rparr>"

end
