(* ===== verification/Context_Laws.thy ===== *)
theory Context_Laws
  imports Context
begin

text \<open>The text of a context stays within its limit, holds what is required, and is cut between characters only.\<close>

section \<open>Whole characters\<close>

lemma valid_utf8_Nil [simp]: "valid_utf8 []"
  by (simp add: valid_utf8.simps)

lemma valid_utf8_step: "char_width s = Some n \<Longrightarrow> valid_utf8 s \<longleftrightarrow> valid_utf8 (drop n s)"
  by (subst valid_utf8.simps) (auto simp: char_width_def)

lemma valid_utf8_width: "valid_utf8 s \<Longrightarrow> s \<noteq> [] \<Longrightarrow> \<exists>n. char_width s = Some n"
  by (subst (asm) valid_utf8.simps) (auto split: option.splits)

text \<open>The width is decided by the bytes of the character.\<close>

lemma char_width_take:
  assumes "char_width s = Some n" and "take n s = take n s'" and "n \<le> length s'"
  shows "char_width s' = Some n"
proof -
  obtain c t where s: "s = c # t" using assms(1) by (cases s) (auto simp: char_width_def)
  have "0 < n" using char_width_bounds [OF assms(1)] by simp
  then obtain t' where s': "s' = c # t'" using assms(2,3) s by (cases s'; cases n) auto
  show ?thesis
  proof (cases "of_char c < (0x80 :: nat)")
    case True
    with assms(1) s s' show ?thesis by (simp add: char_width_def)
  next
    case False
    then obtain a b k where k: "lead_shape (of_char c) = Some (a, b, k)" "n = k + 2" "k < length t" "continuation a b (hd t)"
      "list_all (continuation 0x80 0xBF) (take k (tl t))"
      using assms(1) s by (auto simp: char_width_def split: option.splits if_splits prod.splits)
    obtain d u where t: "t = d # u" using k(3) by (cases t) auto
    obtain u' where t': "t' = d # u'" using assms(2,3) k(2) s s' t by (cases t') auto
    have "take k u' = take k u" "k \<le> length u'" using assms(2,3) k(2) s s' t t' by auto
    with k t t' s' False show ?thesis by (simp add: char_width_def)
  qed
qed

lemma char_width_append: "char_width s = Some n \<Longrightarrow> char_width (s @ t) = Some n"
  by (rule char_width_take) (auto dest: char_width_bounds)

lemma valid_utf8_append: "valid_utf8 s \<Longrightarrow> valid_utf8 t \<Longrightarrow> valid_utf8 (s @ t)"
proof (induction s rule: valid_utf8.induct)
  case (1 s)
  show ?case
  proof (cases "s = []")
    case False
    then obtain n where n: "char_width s = Some n" using 1(2) valid_utf8_width by blast
    then have "valid_utf8 (drop n s @ t)" using 1 False valid_utf8_step by simp
    moreover have "drop n (s @ t) = drop n s @ t" using char_width_bounds [OF n] by simp
    ultimately show ?thesis using valid_utf8_step [OF char_width_append [OF n]] by simp
  qed (simp add: 1(3))
qed

text \<open>The bytes of a character after the first are continuation bytes, and the first is none.\<close>

definition follows :: "char \<Rightarrow> bool" where
  "follows c \<longleftrightarrow> continuation 0x80 0xBF c"

lemma char_width_follows:
  assumes "char_width s = Some n"
  shows "\<not> follows (hd s)" and "0 < i \<Longrightarrow> i < n \<Longrightarrow> follows (s ! i)"
proof -
  have "\<not> follows (hd s) \<and> (\<forall>i. 0 < i \<and> i < n \<longrightarrow> follows (s ! i))"
  proof (cases s)
    case Nil
    with assms show ?thesis by (simp add: char_width_def)
  next
    case (Cons c t)
    show ?thesis
    proof (cases "of_char c < (0x80 :: nat)")
      case True
      with assms Cons show ?thesis by (auto simp: char_width_def follows_def continuation_def)
    next
      case False
      then obtain a b k where k: "lead_shape (of_char c) = Some (a, b, k)" "n = k + 2" "k < length t" "continuation a b (hd t)"
        "list_all (continuation 0x80 0xBF) (take k (tl t))"
        using assms Cons by (auto simp: char_width_def split: option.splits if_splits prod.splits)
      have ab: "0x80 \<le> a" "b \<le> 0xBF" "0xC2 \<le> (of_char c :: nat)" using k(1) by (auto simp: lead_shape_def split: if_splits)
      have "follows (s ! i)" if "0 < i" "i < n" for i
      proof (cases "i = 1")
        case True
        have "t \<noteq> []" using k(3) by auto
        with True k(4) ab Cons show ?thesis by (auto simp: follows_def continuation_def hd_conv_nth)
      next
        case False
        define j where "j = i - 2"
        have j: "i = Suc (Suc j)" "j < k" using that k(2) False by (simp_all add: j_def)
        have "tl t ! j = s ! i" using Cons j k(3) by (cases t) auto
        moreover have "take k (tl t) ! j = tl t ! j" "j < length (take k (tl t))" using j(2) k(3) by auto
        ultimately show ?thesis using k(5) by (metis follows_def list_all_length)
      qed
      moreover have "\<not> follows c" using ab(3) by (simp add: follows_def continuation_def)
      ultimately show ?thesis using Cons by simp
    qed
  qed
  then show "\<not> follows (hd s)" "0 < i \<Longrightarrow> i < n \<Longrightarrow> follows (s ! i)" by blast+
qed

text \<open>Characters can be taken away at both ends.\<close>

lemma valid_utf8_drop_end:
  assumes "valid_utf8 (s @ c)" and "c \<noteq> []" and "\<not> follows (hd c)"
  shows "valid_utf8 s"
  using assms
proof (induction "s @ c" arbitrary: s rule: valid_utf8.induct)
  case 1
  show ?case
  proof (cases "s = []")
    case False
    obtain n where n: "char_width (s @ c) = Some n" using 1(2,3) valid_utf8_width by (metis append_is_Nil_conv)
    have "n \<le> length s"
    proof (rule ccontr)
      assume "\<not> n \<le> length s"
      then have "follows ((s @ c) ! length s)" using char_width_follows(2) [OF n] False by simp
      with 1(3,4) show False by (simp add: nth_append hd_conv_nth)
    qed
    then have "valid_utf8 (drop n s @ c)" using 1(2) valid_utf8_step [OF n] by simp
    moreover have "drop n (s @ c) = drop n s @ c" using \<open>n \<le> length s\<close> by simp
    ultimately have rest: "valid_utf8 (drop n s)" using 1(1) [OF n] 1(3,4) by auto
    have "char_width s = Some n" by (rule char_width_take [OF n]) (simp_all add: \<open>n \<le> length s\<close>)
    then show ?thesis using rest valid_utf8_step by simp
  qed simp
qed

lemma white_space_chars: "c \<in> set white_space \<Longrightarrow> c \<noteq> [] \<and> \<not> follows (hd c) \<and> char_width c = Some (length c)"
proof -
  have "list_all (\<lambda>c. c \<noteq> [] \<and> \<not> follows (hd c) \<and> char_width c = Some (length c)) white_space" by code_simp
  then show "c \<in> set white_space \<Longrightarrow> ?thesis" by (simp add: list_all_iff)
qed


lemma drop_char: "char_width c = Some (length c) \<Longrightarrow> starts_with c s \<Longrightarrow> valid_utf8 s \<Longrightarrow> valid_utf8 (drop (length c) s)"
  using valid_utf8_step [OF char_width_append, of c "length c" "drop (length c) s"]
  by (simp add: starts_with_def) (metis append_take_drop_id)

lemma strip_left_valid:
  assumes "\<And>c. c \<in> set ws \<Longrightarrow> char_width c = Some (length c)"
  shows "valid_utf8 s \<Longrightarrow> valid_utf8 (strip_left ws s)"
  using assms
proof (induction ws s rule: strip_left.induct)
  case (1 ws s)
  show ?case
  proof (cases "find (\<lambda>c. c \<noteq> [] \<and> starts_with c s) ws")
    case None
    with 1 show ?thesis by (simp add: strip_left.simps)
  next
    case (Some c)
    then have c: "c \<in> set ws" "starts_with c s" by (auto dest: find_SomeD)
    then have "valid_utf8 (drop (length c) s)" using 1(2,3) drop_char by blast
    with 1(1) [OF Some] 1(3) have "valid_utf8 (strip_left ws (drop (length c) s))" by blast
    then show ?thesis by (subst strip_left.simps) (simp add: Some)
  qed
qed

lemma strip_right_valid: "valid_utf8 (rev s) \<Longrightarrow> valid_utf8 (rev (strip_left (map rev white_space) s))"
proof (induction "map rev white_space" s rule: strip_left.induct)
  case (1 s)
  show ?case
  proof (cases "find (\<lambda>c. c \<noteq> [] \<and> starts_with c s) (map rev white_space)")
    case None
    with 1 show ?thesis by (simp add: strip_left.simps)
  next
    case (Some c)
    then obtain d where d: "c = rev d" "d \<in> set white_space" "starts_with c s" by (auto dest!: find_SomeD)
    have "s = c @ drop (length c) s" using d(3) by (metis append_take_drop_id starts_with_def)
    then have "rev s = rev (drop (length c) s) @ d" using d(1) by (metis rev_append rev_rev_ident)
    with 1(2) have "valid_utf8 (rev (drop (length c) s))" using valid_utf8_drop_end white_space_chars [OF d(2)] by metis
    then have "valid_utf8 (rev (strip_left (map rev white_space) (drop (length c) s)))" by (rule 1(1) [OF Some])
    then show ?thesis by (subst strip_left.simps) (simp add: Some)
  qed
qed

lemma strip_text_valid: "valid_utf8 s \<Longrightarrow> valid_utf8 (strip_text s)"
  unfolding strip_text_def by (rule strip_right_valid) (simp add: strip_left_valid white_space_chars)

lemma shorten_valid: "shorten n s = Some t \<Longrightarrow> valid_utf8 t \<and> length t \<le> n \<and> (\<exists>k. t = take k s)"
proof (induction n)
  case (Suc n)
  show ?case
  proof (cases "valid_utf8 (take (Suc n) s)")
    case True
    with Suc(2) have "t = take (Suc n) s" by (simp add: Let_def)
    with True show ?thesis by auto
  next
    case False
    with Suc show ?thesis by (auto simp: Let_def)
  qed
qed simp

lemma cut_suffix_facts: "valid_utf8 cut_suffix" "length cut_suffix = 12"
  by code_simp+

text \<open>What is cut fits in its room, which is more than the suffix needs.\<close>

lemma truncate_fits:
  assumes "12 < limit"
  shows "int (length (truncate_utf8 text limit)) \<le> limit" and "valid_utf8 (truncate_utf8 text limit)"
proof -
  let ?n = "length (take (nat (limit - 12)) text)"
  have n: "int ?n \<le> limit - 12" using assms by simp
  show "int (length (truncate_utf8 text limit)) \<le> limit"
  proof (cases "shorten ?n text")
    case (Some t)
    with shorten_valid [OF Some] n show ?thesis by (simp add: truncate_utf8_def cut_suffix_facts del: length_take)
  qed (use assms in \<open>simp add: truncate_utf8_def cut_suffix_facts suffix_end_def\<close>)
  show "valid_utf8 (truncate_utf8 text limit)"
  proof (cases "shorten ?n text")
    case (Some t)
    with shorten_valid [OF Some] show ?thesis
      by (simp add: truncate_utf8_def cut_suffix_facts valid_utf8_append del: length_take)
  qed (use assms in \<open>simp add: truncate_utf8_def cut_suffix_facts suffix_end_def\<close>)
qed

section \<open>Sections\<close>

definition section_ok :: "string \<times> string \<Rightarrow> bool" where
  "section_ok p \<longleftrightarrow> valid_utf8 (section_head (fst p)) \<and> valid_utf8 (snd p)"

lemma newline_valid: "valid_utf8 [CHR 0x0A]"
  by code_simp

lemma render_section_valid: "section_ok (t, x) \<Longrightarrow> valid_utf8 (render_section t x)"
  by (simp add: section_ok_def render_section_def valid_utf8_append strip_text_valid newline_valid)

lemma render_sections_valid: "list_all section_ok ss \<Longrightarrow> valid_utf8 (render_sections ss)"
  by (induction ss) (auto simp: render_sections_def valid_utf8_append render_section_valid)

text \<open>A section is left out when it is empty, added as a whole, or named as cut.\<close>

lemma add_section_cases:
  assumes "add_section limit (r, tr) (t, x) = (r', tr')" and "int (length r) \<le> limit"
  shows "int (length r') \<le> limit \<and> (\<exists>v. r' = r @ v \<and>
    (x = [] \<and> v = [] \<and> tr' = tr \<or> x \<noteq> [] \<and> v = render_section t x \<and> tr' = tr \<or>
     tr' = tr @ [section_name t] \<and> (section_ok (t, x) \<longrightarrow> valid_utf8 v)))"
proof -
  let ?room = "limit - int (length r) - int (length (section_head t))"
  consider (empty) "x = []" | (fits) "x \<noteq> []" "int (length (r @ render_section t x)) \<le> limit"
    | (cut) "x \<noteq> []" "\<not> int (length (r @ render_section t x)) \<le> limit" "?room > 24"
    | (out) "x \<noteq> []" "\<not> int (length (r @ render_section t x)) \<le> limit" "\<not> ?room > 24" by blast
  then show ?thesis
  proof cases
    case cut
    then have r': "r' = r @ section_head t @ truncate_utf8 x ?room" "tr' = tr @ [section_name t]"
      using assms(1) by (simp_all add: add_section_def)
    have "12 < ?room" using cut(3) by simp
    note fits = truncate_fits [OF this, of x]
    have "section_ok (t, x) \<longrightarrow> valid_utf8 (section_head t @ truncate_utf8 x ?room)"
      using fits(2) by (simp add: section_ok_def valid_utf8_append)
    then show ?thesis using r' fits(1) by simp
  qed (use assms in \<open>auto simp: add_section_def\<close>)
qed

definition shown :: "string \<Rightarrow> string list \<Rightarrow> string \<times> string \<Rightarrow> bool" where
  "shown r tr p \<longleftrightarrow> snd p = [] \<or> section_name (fst p) \<in> set tr \<or> (\<exists>u v. r = u @ render_section (fst p) (snd p) @ v)"

lemma shown_more: "shown r tr p \<Longrightarrow> shown (r @ v) (tr @ us) p"
  unfolding shown_def by (metis append.assoc in_set_conv_decomp Un_iff set_append)

lemma add_sections:
  assumes "foldl (add_section limit) (r, tr) ps = (r', tr')" and "int (length r) \<le> limit"
  shows "int (length r') \<le> limit \<and> (\<exists>v us. r' = r @ v \<and> tr' = tr @ us \<and> (list_all section_ok ps \<longrightarrow> valid_utf8 v) \<and>
    (us = [] \<longrightarrow> v = render_sections (filter (\<lambda>p. snd p \<noteq> []) ps))) \<and> (\<forall>p \<in> set ps. shown r' tr' p)"
  using assms
proof (induction ps arbitrary: r tr)
  case (Cons p ps)
  obtain t x where p: "p = (t, x)" by fastforce
  obtain r1 tr1 where one: "add_section limit (r, tr) (t, x) = (r1, tr1)" by fastforce
  obtain v where v: "int (length r1) \<le> limit" "r1 = r @ v"
    "x = [] \<and> v = [] \<and> tr1 = tr \<or> x \<noteq> [] \<and> v = render_section t x \<and> tr1 = tr \<or>
     tr1 = tr @ [section_name t] \<and> (section_ok (t, x) \<longrightarrow> valid_utf8 v)"
    using add_section_cases [OF one Cons.prems(2)] by blast
  have "foldl (add_section limit) (r1, tr1) ps = (r', tr')" using Cons.prems(1) one p by simp
  from Cons.IH [OF this v(1)] obtain w us where w: "int (length r') \<le> limit" "r' = r1 @ w" "tr' = tr1 @ us"
    "list_all section_ok ps \<longrightarrow> valid_utf8 w" "us = [] \<longrightarrow> w = render_sections (filter (\<lambda>p. snd p \<noteq> []) ps)"
    "\<forall>p \<in> set ps. shown r' tr' p"
    by blast
  have "shown r1 tr1 p" using v(2,3) p by (fastforce simp: shown_def)
  then have here: "shown r' tr' p" using shown_more w(2,3) by blast
  have valid: "list_all section_ok (p # ps) \<longrightarrow> valid_utf8 (v @ w)"
    using v(3) w(4) p render_section_valid [of t x] by (auto intro: valid_utf8_append)
  show ?case
  proof (intro conjI exI)
    show "r' = r @ v @ w" "tr' = tr @ (drop (length tr) tr1 @ us)" using v(2,3) w(2,3) by auto
    show "list_all section_ok (p # ps) \<longrightarrow> valid_utf8 (v @ w)" by (rule valid)
    show "drop (length tr) tr1 @ us = [] \<longrightarrow> v @ w = render_sections (filter (\<lambda>p. snd p \<noteq> []) (p # ps))"
      using v(3) w(5) p by (auto simp: render_sections_def)
  qed (use w(1,6) here in simp_all)
qed (simp add: render_sections_def)

lemma titles_valid:
  "valid_utf8 (section_head ''NODE RESPONSIBILITY'')" "valid_utf8 (section_head ''IMMUTABLE CONTRACT'')"
  "valid_utf8 (section_head ''GLOBAL POLICY'')" "valid_utf8 (section_head ''OUTPUT SCHEMA'')" "valid_utf8 (section_head ''GIT STATUS'')"
  "valid_utf8 (section_head ''UPSTREAM HANDOFF'')" "valid_utf8 (section_head ''FAILURE EVIDENCE'')"
  "valid_utf8 (section_head ''FILE REFERENCES'')" "valid_utf8 (section_head ''ARTIFACT REFERENCES'')"
  by code_simp+

lemma join_valid: "list_all valid_utf8 xs \<Longrightarrow> valid_utf8 (join_with [CHR 0x0A] xs)"
  by (induction "[CHR 0x0A] :: string" xs rule: join_with.induct)
    (simp_all add: valid_utf8_append [OF newline_valid, simplified] valid_utf8_append)

text \<open>The texts and the names that go into a context.\<close>

definition texts_of :: "context_input \<Rightarrow> string list" where
  "texts_of c = [ci_responsibility c, ci_contract c, ci_policy c, ci_git c, ci_handoff c, ci_failures c, ci_schema c] @ ci_files c @ ci_artifacts c"

text \<open>
  C25. A context that is built is within the limit of bytes and starts with the responsibility, the contract, the policy and the schema as a
  whole; every other section that is not empty is there as a whole or named as truncated, and when none is named the text is exactly these
  sections in order. If the texts that go in are valid UTF-8 then so is what comes out: nothing is cut inside a character. It fails
  only when the required sections alone are too long.
\<close>

theorem context_is_bounded:
  assumes "build_context limit c = r"
  shows "case r of
      Inl e \<Rightarrow> limit < int (length (required_part c))
    | Inr p \<Rightarrow> int (length (cp_rendered p)) \<le> limit \<and> (\<exists>v. cp_rendered p = required_part c @ v) \<and>
        (\<forall>(t, x) \<in> set (optional_parts c). x \<noteq> [] \<longrightarrow> section_name t \<notin> set (cp_truncated p) \<longrightarrow>
           (\<exists>u v. cp_rendered p = u @ render_section t x @ v)) \<and>
        (cp_truncated p = [] \<longrightarrow> cp_rendered p = required_part c @ render_sections (filter (\<lambda>p. snd p \<noteq> []) (optional_parts c))) \<and>
        (list_all valid_utf8 (texts_of c) \<longrightarrow> valid_utf8 (cp_rendered p))"
proof (cases "int (length (required_part c)) > limit")
  case True
  with assms show ?thesis by (auto simp: build_context_def)
next
  case False
  obtain r' tr where parts: "foldl (add_section limit) (required_part c, []) (optional_parts c) = (r', tr)" by fastforce
  obtain v where v: "int (length r') \<le> limit" "r' = required_part c @ v" "list_all section_ok (optional_parts c) \<longrightarrow> valid_utf8 v"
    "tr = [] \<longrightarrow> v = render_sections (filter (\<lambda>p. snd p \<noteq> []) (optional_parts c))" "\<forall>p \<in> set (optional_parts c). shown r' tr p"
    using add_sections [OF parts] False by auto
  have valid: "valid_utf8 r'" if texts: "list_all valid_utf8 (texts_of c)"
  proof -
    have "list_all valid_utf8 (sorted_set (ci_files c))" "list_all valid_utf8 (sorted_set (ci_artifacts c))"
      using texts by (simp_all add: texts_of_def list_all_iff)
    then have "list_all section_ok (optional_parts c)"
      using texts by (simp add: optional_parts_def section_ok_def titles_valid texts_of_def join_valid)
    moreover have "valid_utf8 (required_part c)" unfolding required_part_def
      by (rule render_sections_valid) (use texts in \<open>simp add: section_ok_def titles_valid texts_of_def\<close>)
    ultimately show ?thesis using v(2,3) valid_utf8_append by blast
  qed
  have "r = Inr \<lparr>cp_rendered = r', cp_files = sorted_set (ci_files c), cp_artifacts = sorted_set (ci_artifacts c), cp_truncated = tr\<rparr>"
    using assms False parts by (simp add: build_context_def)
  moreover have "\<forall>(t, x) \<in> set (optional_parts c). x \<noteq> [] \<longrightarrow> section_name t \<notin> set tr \<longrightarrow> (\<exists>u v. r' = u @ render_section t x @ v)"
  proof (intro ballI, clarify)
    fix t x assume part: "(t, x) \<in> set (optional_parts c)" "x \<noteq> []" "section_name t \<notin> set tr"
    then have "shown r' tr (t, x)" using v(5) by blast
    with part show "\<exists>u v. r' = u @ render_section t x @ v" by (simp add: shown_def)
  qed
  ultimately show ?thesis using v(1,2,4) valid by simp
qed

theorem context_is_bounded_witness:
  "\<exists>p. build_context 200 \<lparr>ci_responsibility = ''build it'', ci_contract = ''c'', ci_policy = ''p'', ci_git = ''clean'', ci_handoff = [],
       ci_failures = concat (replicate 40 [CHR 0xE2, CHR 0x82, CHR 0xAC]), ci_files = [''b'', ''a''], ci_artifacts = [], ci_schema = ''{}''\<rparr> = Inr p \<and>
     cp_truncated p = [''failure_evidence'', ''file_references''] \<and> int (length (cp_rendered p)) \<le> 200"
proof -
  let ?c = "\<lparr>ci_responsibility = ''build it'', ci_contract = ''c'', ci_policy = ''p'', ci_git = ''clean'', ci_handoff = [],
       ci_failures = concat (replicate 40 [CHR 0xE2, CHR 0x82, CHR 0xAC]), ci_files = [''b'', ''a''], ci_artifacts = [], ci_schema = ''{}''\<rparr>"
  have "case build_context 200 ?c of Inl e \<Rightarrow> False | Inr p \<Rightarrow> cp_truncated p = [''failure_evidence'', ''file_references'']"
    by code_simp
  then have "\<exists>p. build_context 200 ?c = Inr p \<and> cp_truncated p = [''failure_evidence'', ''file_references'']"
    by (simp split: sum.splits)
  then obtain p where p: "build_context 200 ?c = Inr p" "cp_truncated p = [''failure_evidence'', ''file_references'']" by blast
  from context_is_bounded [OF p(1)] p show ?thesis by auto
qed

end
