(* ===== verification/Verifier_Run.thy ===== *)
theory Verifier_Run
  imports Verifier_Repo Redaction Artifact_Store Conversation
begin

text \<open>
  \<open>verifier/command.py\<close>, \<open>verifier/subprocess.py\<close>, \<open>verifier/runtime.py\<close>, \<open>verifier/registry.py\<close>, and of \<open>verifier/types.py\<close> and
  \<open>verifier/policy.py\<close> the capabilities, the manifest and the check of paths. Processes, the artifact store, JSON text and the
  decoding of bytes are parameters.
\<close>

section \<open>Capabilities and manifests\<close>

text \<open>\<open>NetworkCapabilities.exact_hosts\<close>: the hosts in their normal form, or an error.\<close>

definition exact_host :: "string \<Rightarrow> py_error + string" where
  "exact_host host = (let c = rev (dropWhile (\<lambda>x. x = CHR ''.'') (rev (lower (strip_text host)))) in
     if c = [] \<or> occurs_in ''://'' c \<or> list_ex (\<lambda>x. x \<in> set ''/*? '') c
     then Inl (ValidationError ''network allow entries must be exact host names'') else Inr c)"

definition exact_hosts :: "string list \<Rightarrow> py_error + string list" where
  "exact_hosts hosts = bind_sum (collect exact_host hosts) (\<lambda>cs.
     if distinct cs then Inr cs else Inl (ValidationError ''network allow entries must be unique''))"

definition explicit_paths :: "string list \<Rightarrow> bool" where
  "explicit_paths ps \<longleftrightarrow> list_all (\<lambda>p. \<not> all_white p \<and> CHR ''*'' \<notin> set p \<and> CHR ''?'' \<notin> set p) ps"

text \<open>\<open>str.isalnum\<close> of the text without underscores; letters and digits beyond ASCII are a parameter.\<close>

definition reference_name :: "(string \<Rightarrow> bool) \<Rightarrow> string \<Rightarrow> bool" where
  "reference_name alnum r \<longleftrightarrow> r \<noteq> [] \<and> alnum (filter (\<lambda>c. c \<noteq> CHR ''_'') r)"

definition make_capabilities :: "(string \<Rightarrow> bool) \<Rightarrow> capabilities \<Rightarrow> py_error + capabilities" where
  "make_capabilities alnum c =
     bind_sum (exact_hosts (ca_hosts c)) (\<lambda>hosts.
     bind_sum (first_error
       [require (explicit_paths (ca_read c)) ''filesystem capabilities require explicit paths'',
        require (explicit_paths (ca_write c)) ''filesystem capabilities require explicit paths'',
        require (distinct (ca_secrets c)) ''secret references must be unique'',
        require (list_all (reference_name alnum) (ca_secrets c)) ''secrets must be identifier references, never values'']) (\<lambda>_.
     Inr (c\<lparr>ca_hosts := hosts\<rparr>)))"

definition verifier_types :: "string list" where
  "verifier_types = [''builtin/command'', ''builtin/http-pipeline'', ''project/subprocess'', ''project/container'']"

text \<open>The validator of the manifest; the entrypoint of its container specification is given with it.\<close>

definition validate_manifest :: "manifest \<Rightarrow> string list \<Rightarrow> py_error + unit" where
  "validate_manifest m container_entrypoint = first_error
     [min_length_1 ''verifier_id'' (mf_id m), require (1 \<le> mf_revision m) ''revision'', require (mf_type m \<in> set verifier_types) ''verifier_type'',
      min_length_1 ''runtime'' (mf_runtime m),
      require (\<not> (mf_type m = ''project/subprocess'' \<and> mf_entrypoint m = [])) ''project/subprocess requires an argv entrypoint'',
      require (\<not> (mf_type m = ''project/container'' \<and> mf_container m = None))
        ''project/container requires a container execution specification'',
      require (\<not> (mf_type m \<noteq> ''project/container'' \<and> mf_container m \<noteq> None))
        ''container execution specification belongs only to project/container'',
      require (\<not> (mf_container m \<noteq> None \<and> mf_entrypoint m \<noteq> container_entrypoint))
        ''container Manifest and execution entrypoints must match'',
      require ([] \<notin> set (mf_entrypoint m)) ''entrypoint argv tokens must not be empty'']"

text \<open>\<open>CapabilityPolicy.require_path\<close>, from the working directory of the process, without symbolic links.\<close>

definition allowed_roots :: "path \<Rightarrow> string list \<Rightarrow> string list \<Rightarrow> path list" where
  "allowed_roots cwd declared roots = concat (map (\<lambda>item.
     if is_absolute item then [resolve_uri cwd item] else map (\<lambda>root. resolve_uri cwd (root @ ''/'' @ item)) roots) declared)"

definition require_path :: "path \<Rightarrow> manifest \<Rightarrow> string \<Rightarrow> bool \<Rightarrow> string list \<Rightarrow> py_error + path" where
  "require_path cwd m p writable roots =
     (let resolved = resolve_uri cwd p;
        declared = (if writable then ca_write (mf_capabilities m) else ca_read (mf_capabilities m)) in
      if list_ex (\<lambda>root. prefix root resolved) (allowed_roots cwd declared roots) then Inr resolved
      else Inl (NamedError ''CapabilityViolation''
        (''filesystem '' @ (if writable then ''write'' else ''read'') @ '' path is outside declared capability'')))"

section \<open>What verifiers work with\<close>

datatype run_end = Ended int string string | Timed_Out "string option" "string option"

record 'x process_env =
  pe_run :: "string list \<Rightarrow> string \<Rightarrow> (string \<times> string) list option \<Rightarrow> rat \<Rightarrow> ('x, run_end) op"
  pe_put :: "string \<Rightarrow> string \<Rightarrow> artifact_kind \<Rightarrow> ('x, artifact) op"
  pe_spawn :: "string list \<Rightarrow> string \<Rightarrow> (string \<times> string) list \<Rightarrow> ('x, nat) op"
  pe_talk :: "nat \<Rightarrow> string \<Rightarrow> rat \<Rightarrow> ('x, (int \<times> string \<times> string) option) op"
  pe_finish :: "nat \<Rightarrow> ('x, string \<times> string) op"
  pe_running :: "nat \<Rightarrow> 'x \<Rightarrow> bool"
  pe_terminate :: "nat \<Rightarrow> ('x, unit) op"
  pe_decode :: "string \<Rightarrow> string"
  pe_dumps :: "json \<Rightarrow> string"
  pe_parse :: "string \<Rightarrow> string + ver_result"
  pe_environ :: "(string \<times> string) list"
  pe_upper :: "string \<Rightarrow> string"
  pe_cwd :: path

definition infrastructure_error :: "string \<Rightarrow> string \<Rightarrow> bool \<Rightarrow> (string \<times> json) list \<Rightarrow> error" where
  "infrastructure_error code message retryable details =
     \<lparr>er_kind = EK_Infrastructure, er_code = code, er_message = message, er_retryable = retryable, er_details = details\<rparr>"

section \<open>CommandVerifier\<close>

record command_spec =
  cm_argv :: "string list"
  cm_cwd :: string
  cm_timeout :: rat
  cm_max :: int
  cm_environment :: "(string \<times> string) list"

definition shell_tokens :: "string list" where
  "shell_tokens = [''&&'', ''||'', '';'', ''|'', [CHR 0x0A], [CHR 0x0D]]"

definition make_command :: "command_spec \<Rightarrow> py_error + command_spec" where
  "make_command c =
     (if cm_argv c = [] \<or> all_white (hd (cm_argv c)) then Inl (ValueError ''argv must contain an executable'')
      else if list_ex (\<lambda>t. occurs_in t (hd (cm_argv c))) shell_tokens
      then Inl (ValueError ''argv executable must not contain shell source'')
      else if cm_timeout c \<le> 0 \<or> cm_max c \<le> 0 then Inl (ValueError ''timeout and output limits must be positive'')
      else Inr c)"

record command_outcome =
  co_result :: ver_result
  co_stdout :: "artifact option"
  co_stderr :: "artifact option"
  co_exit :: "int option"

definition command_artifact :: "'x process_env \<Rightarrow> string \<Rightarrow> ('x, artifact option) op" where
  "command_artifact P content = (if content = [] then ret None
     else bind_op (pe_put P content ''text/plain'' AK_TestResult) (\<lambda>a. ret (Some a)))"

definition both_artifacts :: "artifact option \<Rightarrow> artifact option \<Rightarrow> artifact list" where
  "both_artifacts a b = concat (map (case_option [] (\<lambda>x. [x])) [a, b])"

definition command_error :: "'x process_env \<Rightarrow> string \<Rightarrow> string \<Rightarrow> string \<Rightarrow> string \<Rightarrow> int option \<Rightarrow> ('x, command_outcome) op" where
  "command_error P code message out err exit =
     bind_op (command_artifact P out) (\<lambda>a.
     bind_op (command_artifact P err) (\<lambda>b.
     bind_op (lift_sum (construct validate_error (infrastructure_error code message (code = ''command.timeout'')
       [(''exit_code'', case exit of None \<Rightarrow> JNull | Some n \<Rightarrow> JInt n)]))) (\<lambda>e.
     bind_op (lift_sum (construct validate_ver_result ((ver_result_of VS_Error message)\<lparr>vr_artifacts := both_artifacts a b, vr_error := Some e\<rparr>))) (\<lambda>r.
     ret \<lparr>co_result = r, co_stdout = a, co_stderr = b, co_exit = exit\<rparr>))))"

definition command_result :: "int \<Rightarrow> artifact list \<Rightarrow> ver_result" where
  "command_result exit artifacts =
     (if exit = 0 then (ver_result_of VS_Passed ''command verifier passed'')\<lparr>vr_artifacts := artifacts\<rparr>
      else (ver_result_of VS_Failed (''command verifier exited with '' @ int_str exit))
        \<lparr>vr_failures := [''exit code '' @ int_str exit], vr_artifacts := artifacts\<rparr>)"

text \<open>An \<open>OSError\<close> of the start becomes a result, any other exception goes on.\<close>

definition command_raised :: "'x process_env \<Rightarrow> py_error \<Rightarrow> ('x, command_outcome) op" where
  "command_raised P e = (case e of OSErr problem \<Rightarrow> command_error P ''command.spawn'' problem [] problem None | _ \<Rightarrow> raise e)"

definition command_ended :: "'x process_env \<Rightarrow> command_spec \<Rightarrow> run_end \<Rightarrow> ('x, command_outcome) op" where
  "command_ended P c e = (case e of
     Timed_Out out err \<Rightarrow>
       command_error P ''command.timeout'' ''command verifier timed out'' (case_option [] id out) (case_option [] id err) None
   | Ended exit out err \<Rightarrow>
       if int (length out) + int (length err) > cm_max c
       then command_error P ''command.output_limit'' ''command verifier output exceeded the configured byte limit'' out err (Some exit)
       else bind_op (command_artifact P out) (\<lambda>a. bind_op (command_artifact P err) (\<lambda>b.
         bind_op (lift_sum (construct validate_ver_result (command_result exit (both_artifacts a b)))) (\<lambda>r.
         ret \<lparr>co_result = r, co_stdout = a, co_stderr = b, co_exit = Some exit\<rparr>))))"

definition run_command :: "'x process_env \<Rightarrow> ('x, bool) op \<Rightarrow> command_spec \<Rightarrow> ('x, command_outcome) op" where
  "run_command P can_start c =
     bind_op can_start (\<lambda>ok.
     seq_op (guard ok (NamedError ''VerificationBarrierError'' ''persisted Run barrier forbids a new Command Verifier''))
     (\<lambda>x. case pe_run P (cm_argv c) (cm_cwd c) (if cm_environment c = [] then None else Some (cm_environment c)) (cm_timeout c) x of
        (Inl e, y) \<Rightarrow> command_raised P e y
      | (Inr r, y) \<Rightarrow> command_ended P c r y))"

section \<open>SubprocessVerifier\<close>

record verify_request =
  vq_run :: string
  vq_node :: string
  vq_attempt :: string
  vq_directory :: string
  vq_artifacts :: string
  vq_key :: "string option"
  vq_payload :: "(string \<times> json) list"

record verify_outcome =
  vo_result :: ver_result
  vo_artifacts :: "artifact list"
  vo_exit :: "int option"

record sub_verifier =
  sv_manifest :: manifest
  sv_timeout :: rat
  sv_max :: int
  sv_secrets :: "(string \<times> string) list"

definition make_subprocess :: "manifest \<Rightarrow> (string \<times> string) list \<Rightarrow> rat \<Rightarrow> int \<Rightarrow> py_error + sub_verifier" where
  "make_subprocess m values timeout limit =
     (if mf_type m \<noteq> ''project/subprocess'' then Inl (ValueError ''SubprocessVerifier requires a project/subprocess Manifest'')
      else if timeout \<le> 0 \<or> limit \<le> 0 then Inl (ValueError ''subprocess limits must be positive'')
      else bind_sum (resolve_secrets values (ca_secrets (mf_capabilities m))) (\<lambda>secrets.
        Inr \<lparr>sv_manifest = m, sv_timeout = timeout, sv_max = limit, sv_secrets = secrets\<rparr>))"

text \<open>The object: its running process. A history variable keeps what was put into the artifact store.\<close>

record 'x sub_world =
  su_active :: "nat option"
  su_ext :: 'x
  su_stored :: "string list"

definition sub_io :: "('x, 'a) op \<Rightarrow> ('x sub_world, 'a) thread" where
  "sub_io m = atomic (\<lambda>w. case m (su_ext w) of (r, x) \<Rightarrow> (r, w\<lparr>su_ext := x\<rparr>))"

definition set_process :: "nat option \<Rightarrow> ('x sub_world, unit) thread" where
  "set_process n = atomic (modify (\<lambda>w. w\<lparr>su_active := n\<rparr>))"

definition redact_bytes :: "'x process_env \<Rightarrow> sub_verifier \<Rightarrow> string \<Rightarrow> string" where
  "redact_bytes P v content = redact (variants (map snd (sv_secrets v))) (pe_decode P content)"

definition redact_text :: "sub_verifier \<Rightarrow> string \<Rightarrow> string" where
  "redact_text v text = redact (variants (map snd (sv_secrets v))) text"

definition sub_artifact :: "'x process_env \<Rightarrow> string \<Rightarrow> string \<Rightarrow> ('x sub_world, artifact option) thread" where
  "sub_artifact P content media = (if content = [] then return_t None
     else bind_t (atomic (\<lambda>w. case pe_put P content media AK_TestResult (su_ext w) of
         (r, x) \<Rightarrow> (r, w\<lparr>su_ext := x, su_stored := su_stored w @ [content]\<rparr>)))
       (\<lambda>a. return_t (Some a)))"

definition sub_failure :: "string \<Rightarrow> string \<Rightarrow> bool \<Rightarrow> py_error + verify_outcome" where
  "sub_failure code message retryable =
     bind_sum (construct validate_error (infrastructure_error code message retryable [])) (\<lambda>e.
     bind_sum (construct validate_ver_result ((ver_result_of VS_Error message)\<lparr>vr_retryable := retryable, vr_error := Some e\<rparr>)) (\<lambda>r.
     Inr \<lparr>vo_result = r, vo_artifacts = [], vo_exit = None\<rparr>))"

definition failure_with_artifacts :: "'x process_env \<Rightarrow> sub_verifier \<Rightarrow> string \<Rightarrow> string \<Rightarrow> string \<Rightarrow> string \<Rightarrow> bool \<Rightarrow>
    ('x sub_world, verify_outcome) thread" where
  "failure_with_artifacts P v code message out err retryable =
     bind_t (sub_artifact P (redact_bytes P v out) ''application/json'') (\<lambda>a.
     bind_t (sub_artifact P (redact_bytes P v err) ''text/plain'') (\<lambda>b.
     bind_t (Done (sub_failure code message retryable)) (\<lambda>x.
     return_t (x\<lparr>vo_result := (vo_result x)\<lparr>vr_artifacts := both_artifacts a b\<rparr>, vo_artifacts := both_artifacts a b\<rparr>))))"

definition sub_input :: "verify_request \<Rightarrow> json" where
  "sub_input q = JObj [(''attempt_id'', JStr (vq_attempt q)), (''node_id'', JStr (vq_node q)), (''payload'', JObj (vq_payload q)),
     (''run_id'', JStr (vq_run q)), (''schema_version'', JStr ''1.0'')]"

definition kept_variables :: "string list" where
  "kept_variables = [''PATH'', ''PATHEXT'', ''SYSTEMROOT'', ''WINDIR'', ''COMSPEC'', ''TMP'', ''TEMP'']"

text \<open>The environment of the process, as the items whose later ones win.\<close>

definition sub_environment :: "'x process_env \<Rightarrow> sub_verifier \<Rightarrow> (string \<times> string) list" where
  "sub_environment P v = filter (\<lambda>(k, _). pe_upper P k \<in> set kept_variables) (pe_environ P) @ sv_secrets v"

text \<open>The \<open>try\<close> block: either it returns an outcome, or the process has ended with its code and output.\<close>

definition sub_talk :: "'x process_env \<Rightarrow> sub_verifier \<Rightarrow> verify_request \<Rightarrow>
    ('x sub_world, verify_outcome + int \<times> string \<times> string) thread" where
  "sub_talk P v q =
     bind_t (outcome_t (bind_t (sub_io (pe_spawn P (mf_entrypoint (sv_manifest v)) (vq_directory q) (sub_environment P v))) (\<lambda>n.
       seq_t (set_process (Some n))
       (bind_t (sub_io (pe_talk P n (pe_dumps P (sub_input q)) (sv_timeout v))) (\<lambda>r. return_t (n, r))))))
     (\<lambda>r. case r of
        Inl e \<Rightarrow> (case e of
            OSErr problem \<Rightarrow> bind_t (Done (sub_failure ''subprocess.spawn'' (redact_text v problem) False)) (\<lambda>x. return_t (Inl x))
          | _ \<Rightarrow> raise_t e)
      | Inr (n, ended) \<Rightarrow> (case ended of
            None \<Rightarrow>
              seq_t (sub_io (pe_terminate P n))
              (bind_t (sub_io (pe_finish P n)) (\<lambda>(out, err).
               bind_t (failure_with_artifacts P v ''subprocess.timeout'' ''project Verifier timed out'' out err True) (\<lambda>x. return_t (Inl x))))
          | Some x \<Rightarrow> return_t (Inr x)))"

definition sub_result :: "'x process_env \<Rightarrow> sub_verifier \<Rightarrow> int \<Rightarrow> string \<Rightarrow> string \<Rightarrow> ('x sub_world, verify_outcome) thread" where
  "sub_result P v exit out err =
     (let shown_out = redact_bytes P v out; shown_err = redact_bytes P v err in
      if int (length out) + int (length err) > sv_max v
      then failure_with_artifacts P v ''subprocess.output_limit'' ''project Verifier output exceeded configured byte limit'' shown_out shown_err False
      else if exit \<noteq> 0
      then failure_with_artifacts P v ''subprocess.exit'' (''project Verifier exited abnormally with '' @ int_str exit) shown_out shown_err False
      else
        bind_t (sub_artifact P shown_out ''application/json'') (\<lambda>a.
        bind_t (sub_artifact P shown_err ''text/plain'') (\<lambda>b.
        case pe_parse P shown_out of
          Inl problem \<Rightarrow> failure_with_artifacts P v ''subprocess.protocol''
            (redact_text v (''invalid structured Verifier output: '' @ problem)) shown_out shown_err False
        | Inr r \<Rightarrow> return_t \<lparr>vo_result = r\<lparr>vr_artifacts := vr_artifacts r @ both_artifacts a b\<rparr>,
            vo_artifacts = both_artifacts a b, vo_exit = Some exit\<rparr>)))"

definition sub_execute :: "'x process_env \<Rightarrow> ('x, bool) op \<Rightarrow> sub_verifier \<Rightarrow> verify_request \<Rightarrow> ('x sub_world, verify_outcome) thread" where
  "sub_execute P can_start v q =
     bind_t (sub_io can_start) (\<lambda>ok.
     if \<not> ok then Done (sub_failure ''subprocess.barrier'' ''persisted Run barrier forbids subprocess'' False)
     else case require_path (pe_cwd P) (sv_manifest v) (vq_directory q) False [vq_directory q, vq_artifacts q] of
       Inl e \<Rightarrow> Done (sub_failure ''subprocess.filesystem'' (err_str e) False)
     | Inr _ \<Rightarrow>
         bind_t (outcome_t (sub_talk P v q)) (\<lambda>r.
         seq_t (set_process None)
         (bind_t (Done r) (\<lambda>ended. case ended of
            Inl x \<Rightarrow> return_t x
          | Inr (exit, out, err) \<Rightarrow> sub_result P v exit out err))))"

definition sub_poll :: "py_error + verify_outcome" where
  "sub_poll = sub_failure ''subprocess.handle'' ''project subprocess does not expose external handles'' False"

definition cancelled_outcome :: "string \<Rightarrow> verify_outcome" where
  "cancelled_outcome summary = \<lparr>vo_result = ver_result_of VS_Cancelled summary, vo_artifacts = [], vo_exit = None\<rparr>"

text \<open>\<open>cancel\<close> ends the process of the object, whatever the handle is.\<close>

definition sub_cancel :: "'x process_env \<Rightarrow> ('x sub_world, verify_outcome) thread" where
  "sub_cancel P =
     bind_t (reads su_active) (\<lambda>n. case n of
       None \<Rightarrow> return_t (cancelled_outcome ''project Verifier is no longer running'')
     | Some k \<Rightarrow>
         bind_t (reads (\<lambda>w. pe_running P k (su_ext w))) (\<lambda>running.
         if \<not> running then return_t (cancelled_outcome ''project Verifier is no longer running'')
         else seq_t (sub_io (pe_terminate P k)) (return_t (cancelled_outcome ''project Verifier cancellation requested''))))"

section \<open>The adapter of the runtime\<close>

text \<open>Implementations by verifier and revision; an interface without \<open>poll\<close> is marked.\<close>

record 'x implementation =
  im_execute :: "verify_request \<Rightarrow> ('x, verify_outcome) op"
  im_poll :: "string \<Rightarrow> ('x, verify_outcome) op"
  im_cancel :: "string \<Rightarrow> ('x, verify_outcome) op"
  im_has_poll :: bool

record 'x adapter_world =
  aw_control :: control_db
  aw_files :: file_system
  aw_ext :: 'x
  aw_handles :: "(string \<times> (string \<times> int)) list"

record 'x verifier_adapter =
  va_implementations :: "((string \<times> int) \<times> 'x implementation) list"
  va_directory :: string
  va_artifacts :: string
  va_sha :: "string \<Rightarrow> string"
  va_json :: "manifest \<Rightarrow> string"
  va_int :: "json \<Rightarrow> py_error + int"
  va_str :: "json \<Rightarrow> string"

definition check_frozen :: "'x verifier_adapter \<Rightarrow> string \<Rightarrow> int \<Rightarrow> ('x adapter_world, unit) op" where
  "check_frozen A k n = ask (\<lambda>w. bind_sum (Verifier_Repo.verify_frozen (va_sha A) (va_json A) (aw_files w) k n (aw_control w)) (\<lambda>_. Inr ()))"

definition implementation_of :: "'x verifier_adapter \<Rightarrow> string \<Rightarrow> int \<Rightarrow> py_error + 'x implementation" where
  "implementation_of A k n = (case map_of (va_implementations A) (k, n) of
     None \<Rightarrow> Inl (RuntimeErr (''Verifier implementation is unavailable: '' @ k @ '' r'' @ int_str n)) | Some i \<Rightarrow> Inr i)"

definition call_implementation :: "('x, verify_outcome) op \<Rightarrow> ('x adapter_world, verify_outcome) op" where
  "call_implementation m w = (case m (aw_ext w) of (r, x) \<Rightarrow> (r, w\<lparr>aw_ext := x\<rparr>))"

definition verifier_of_node :: "'x verifier_adapter \<Rightarrow> node \<Rightarrow> string" where
  "verifier_of_node A n = (case map_of (nd_config n) ''verifier_id'' of None \<Rightarrow> nd_id n | Some v \<Rightarrow> va_str A v)"

definition revision_of_node :: "'x verifier_adapter \<Rightarrow> node \<Rightarrow> py_error + int" where
  "revision_of_node A n = (case map_of (nd_config n) ''verifier_revision'' of None \<Rightarrow> Inr 1 | Some v \<Rightarrow> va_int A v)"

definition adapter_execute :: "'x verifier_adapter \<Rightarrow> string \<Rightarrow> node \<Rightarrow> string \<Rightarrow> string option \<Rightarrow> ('x adapter_world, ver_result) op" where
  "adapter_execute A run n attempt key = (let k = verifier_of_node A n in
     bind_op (lift_sum (revision_of_node A n)) (\<lambda>revision.
     seq_op (check_frozen A k revision)
     (bind_op (lift_sum (implementation_of A k revision)) (\<lambda>i.
      bind_op (call_implementation (im_execute i \<lparr>vq_run = run, vq_node = nd_id n, vq_attempt = attempt, vq_directory = va_directory A,
        vq_artifacts = va_artifacts A, vq_key = key, vq_payload = nd_config n\<rparr>)) (\<lambda>x.
      seq_op (case vr_handle (vo_result x) of
          Some (c # cs) \<Rightarrow> modify (\<lambda>w. w\<lparr>aw_handles := (c # cs, (k, revision)) # aw_handles w\<rparr>)
        | _ \<Rightarrow> ret ())
      (ret (vo_result x)))))))"

text \<open>\<open>_handle_owner\<close>: a handle of an earlier process belongs to the only implementation that can be polled.\<close>

definition handle_owner :: "'x verifier_adapter \<Rightarrow> string \<Rightarrow> ('x adapter_world, string \<times> int) op" where
  "handle_owner A h w = (case map_of (aw_handles w) h of
     Some owner \<Rightarrow> (Inr owner, w)
   | None \<Rightarrow> (case filter (\<lambda>(_, i). im_has_poll i) (va_implementations A) of
       [(owner, _)] \<Rightarrow> (Inr owner, w\<lparr>aw_handles := (h, owner) # aw_handles w\<rparr>)
     | _ \<Rightarrow> (Inl (RuntimeErr ''cannot identify the external Verifier owner after recovery''), w)))"

definition adapter_query_for :: "'x verifier_adapter \<Rightarrow> string \<Rightarrow> int \<Rightarrow> string \<Rightarrow> ('x adapter_world, ver_result) op" where
  "adapter_query_for A k n h =
     seq_op (check_frozen A k n)
     (bind_op (lift_sum (implementation_of A k n)) (\<lambda>i. bind_op (call_implementation (im_poll i h)) (\<lambda>x. ret (vo_result x))))"

definition adapter_query :: "'x verifier_adapter \<Rightarrow> string \<Rightarrow> ('x adapter_world, ver_result) op" where
  "adapter_query A h = bind_op (handle_owner A h) (\<lambda>(k, n). adapter_query_for A k n h)"

definition adapter_cancel_for :: "'x verifier_adapter \<Rightarrow> string \<Rightarrow> int \<Rightarrow> string \<Rightarrow> ('x adapter_world, ver_result) op" where
  "adapter_cancel_for A k n h =
     bind_op (lift_sum (implementation_of A k n)) (\<lambda>i. bind_op (call_implementation (im_cancel i h)) (\<lambda>x. ret (vo_result x)))"

definition adapter_cancel :: "'x verifier_adapter \<Rightarrow> string \<Rightarrow> ('x adapter_world, ver_result) op" where
  "adapter_cancel A h = bind_op (handle_owner A h) (\<lambda>(k, n). adapter_cancel_for A k n h)"

section \<open>The registry\<close>

type_synonym 'f registry = "(string \<times> 'f) list"

definition register :: "string \<Rightarrow> 'f \<Rightarrow> ('f registry, unit) op" where
  "register k f r = (if k = [] \<or> k \<in> fst ` set r then (Inl (NamedError ''DuplicateVerifierType'' k), r) else (Inr (), r @ [(k, f)]))"

definition create_verifier :: "string \<Rightarrow> 'f registry \<Rightarrow> py_error + 'f" where
  "create_verifier k r = (case map_of r k of None \<Rightarrow> Inl (NamedError ''UnknownVerifierType'' k) | Some f \<Rightarrow> Inr f)"

definition registry_types :: "'f registry \<Rightarrow> string list" where
  "registry_types r = sort (map fst r)"

definition builtin_registry :: "(string \<Rightarrow> 'f) \<Rightarrow> (py_error + unit) \<times> 'f registry" where
  "builtin_registry factory = for_each (\<lambda>k. register k (factory k)) verifier_types []"

end
