(* ===== verification/Verifier_Run_Laws.thy ===== *)
theory Verifier_Run_Laws
  imports Verifier_Run Rely
begin

text \<open>
  What verifiers leave behind: the output of project verifiers is stored without the secrets they were given; a verifier is only
  executed with the files it was frozen with.
\<close>

section \<open>Stored output\<close>

definition secret_variants :: "sub_verifier \<Rightarrow> string list" where
  "secret_variants v = variants (map snd (sv_secrets v))"

text \<open>A step that stores redacted text only.\<close>

definition stores_redacted :: "sub_verifier \<Rightarrow> 'x sub_world \<Rightarrow> 'x sub_world \<Rightarrow> bool" where
  "stores_redacted v w w' \<longleftrightarrow> (\<exists>xs. su_stored w' = su_stored w @ map (redact (secret_variants v)) xs)"

lemma stores_nothing: "su_stored w' = su_stored w \<Longrightarrow> stores_redacted v w w'"
  by (auto simp: stores_redacted_def intro: exI [of _ "[]"])

lemma sub_io_steps: "steps_in (stores_redacted v) (sub_io m)"
  unfolding sub_io_def by (intro steps_intros) (auto intro: stores_nothing split: prod.splits)

lemma set_process_steps: "steps_in (stores_redacted v) (set_process n)"
  unfolding set_process_def by (intro steps_intros) (auto simp: modify_def intro: stores_nothing)

lemma sub_artifact_steps: "steps_in (stores_redacted v) (sub_artifact P (redact_bytes P v content) media)"
proof -
  have "stores_redacted v w (snd (case pe_put P (redact_bytes P v content) media AK_TestResult (su_ext w) of
      (r, x) \<Rightarrow> (r, w\<lparr>su_ext := x, su_stored := su_stored w @ [redact_bytes P v content]\<rparr>)))" for w
    by (auto simp: stores_redacted_def redact_bytes_def secret_variants_def intro: exI [of _ "[pe_decode P content]"] split: prod.splits)
  then show ?thesis unfolding sub_artifact_def by (intro steps_intros) blast
qed

lemma failure_steps: "steps_in (stores_redacted v) (failure_with_artifacts P v code message out err retryable)"
  unfolding failure_with_artifacts_def by (intro steps_intros sub_artifact_steps) simp

lemma sub_result_steps: "steps_in (stores_redacted v) (sub_result P v exit out err)"
  unfolding sub_result_def Let_def
  by (intro steps_intros failure_steps sub_artifact_steps) (simp add: failure_steps steps_return split: sum.split)

lemma sub_talk_steps: "steps_in (stores_redacted v) (sub_talk P v q)"
proof -
  have handled: "steps_in (stores_redacted v) (case e of
      OSErr problem \<Rightarrow> bind_t (Done (sub_failure ''subprocess.spawn'' (redact_text v problem) False)) (\<lambda>x. return_t (Inl x))
    | _ \<Rightarrow> raise_t e)" for e
    by (cases e) (auto simp: steps_return steps_raise split: sum.split)
  have ended: "steps_in (stores_redacted v) (case r of None \<Rightarrow>
      seq_t (sub_io (pe_terminate P n))
        (bind_t (sub_io (pe_finish P n)) (\<lambda>(out, err).
         bind_t (failure_with_artifacts P v ''subprocess.timeout'' ''project Verifier timed out'' out err True) (\<lambda>x. return_t (Inl x))))
    | Some x \<Rightarrow> return_t (Inr x))" for n and r :: "(int \<times> string \<times> string) option"
    by (intro steps_intros sub_io_steps failure_steps)
  have "steps_in (stores_redacted v) (case r of Inl e \<Rightarrow> (case e of
      OSErr problem \<Rightarrow> bind_t (Done (sub_failure ''subprocess.spawn'' (redact_text v problem) False)) (\<lambda>x. return_t (Inl x))
    | _ \<Rightarrow> raise_t e) | Inr (n, ended) \<Rightarrow> (case ended of None \<Rightarrow>
      seq_t (sub_io (pe_terminate P n))
        (bind_t (sub_io (pe_finish P n)) (\<lambda>(out, err).
         bind_t (failure_with_artifacts P v ''subprocess.timeout'' ''project Verifier timed out'' out err True) (\<lambda>x. return_t (Inl x))))
    | Some x \<Rightarrow> return_t (Inr x)))" for r :: "py_error + nat \<times> (int \<times> string \<times> string) option"
    using handled ended by (cases r) auto
  then show ?thesis unfolding sub_talk_def by (intro steps_intros sub_io_steps set_process_steps)
qed

lemma sub_execute_steps: "steps_in (stores_redacted v) (sub_execute P can_start v q)"
proof -
  have checked: "steps_in (stores_redacted v) (case r of Inl e \<Rightarrow> Done (f e)
    | Inr u \<Rightarrow> bind_t (outcome_t (sub_talk P v q)) (\<lambda>r. seq_t (set_process None) (bind_t (Done r) (\<lambda>ended. case ended of
          Inl x \<Rightarrow> return_t x | Inr (exit, out, err) \<Rightarrow> sub_result P v exit out err))))" for r :: "py_error + path" and f
  proof (cases r)
    case (Inr u)
    have "steps_in (stores_redacted v) (case ended of Inl x \<Rightarrow> return_t x | Inr (exit, out, err) \<Rightarrow> sub_result P v exit out err)" for ended
      by (simp add: steps_return sub_result_steps split: sum.split)
    then show ?thesis unfolding Inr sum.case by (intro steps_intros sub_talk_steps set_process_steps) simp_all
  qed simp
  show ?thesis unfolding sub_execute_def by (intro steps_intros sub_io_steps checked) simp
qed

lemma sub_cancel_steps: "steps_in (stores_redacted v) (sub_cancel P)"
  unfolding sub_cancel_def reads_def
  by (intro steps_intros sub_io_steps) (simp_all add: gets_def stores_nothing)

text \<open>A pool of threads whose steps are all of one kind.\<close>

lemma pool_steps_in:
  assumes "pool_step (ms, s) (ms', s')" and "\<forall>m \<in> set ms. steps_in R m"
  shows "R s s' \<and> (\<forall>m \<in> set ms'. steps_in R m)"
  using assms(1)
proof cases
  case (pool_step us g vs)
  have "steps_in R (Step g)" using assms(2) pool_step(1) by simp
  with assms(2) pool_step show ?thesis by auto
qed

lemma pool_steps_star:
  assumes "pool_step\<^sup>*\<^sup>* (ms, s) (ms', s')" and "\<forall>m \<in> set ms. steps_in R m"
  shows "R\<^sup>*\<^sup>* s s' \<and> (\<forall>m \<in> set ms'. steps_in R m)"
  using assms
proof (induction "(ms', s')" arbitrary: ms' s' rule: rtranclp_induct)
  case (step y)
  obtain ms1 s1 where y: "y = (ms1, s1)" by fastforce
  have before: "R\<^sup>*\<^sup>* s s1" "\<forall>m \<in> set ms1. steps_in R m" using step(3) [OF y step(4)] by simp_all
  have "pool_step (ms1, s1) (ms', s')" using step(2) y by simp
  from pool_steps_in [OF this before(2)] before(1) show ?case by (meson rtranclp.rtrancl_into_rtrancl)
qed simp

lemma stored_redacted:
  assumes "(stores_redacted v)\<^sup>*\<^sup>* w w'"
  shows "\<exists>xs. su_stored w' = su_stored w @ map (redact (secret_variants v)) xs"
  using assms
proof (induction rule: rtranclp_induct)
  case base
  show ?case by (intro exI [of _ "[]"]) simp
next
  case (step y z)
  then obtain xs ys where "su_stored y = su_stored w @ map (redact (secret_variants v)) xs"
    "su_stored z = su_stored y @ map (redact (secret_variants v)) ys" by (auto simp: stores_redacted_def)
  then show ?case by (intro exI [of _ "xs @ ys"]) simp
qed

text \<open>
  C30. However executions and cancellations of one project verifier interleave, whatever its processes print and wherever they end, nothing
  that is put into the artifact store holds a form of a secret the verifier was given (the secret, its percent encoding, its
  two base 64 encodings), except forms that are part of the word REDACTED and secrets that hold brackets.
\<close>

theorem stored_output_hides_secrets:
  assumes "pool_step\<^sup>*\<^sup>* (ms, w) (ms', w')" and "su_stored w = []"
    and "\<forall>m \<in> set ms. (\<exists>can_start q. m = sub_execute P can_start v q) \<or> m = sub_cancel P"
    and "content \<in> set (su_stored w')" and "secret \<in> snd ` set (sv_secrets v)" and "form \<in> set (secret_forms secret)"
    and "form = secret \<longrightarrow> plain_word secret" and "\<not> occurs_in form ''REDACTED''"
  shows "\<not> occurs_in form content"
proof -
  have "\<forall>m \<in> set ms. steps_in (stores_redacted v) m"
    using assms(3) by (metis sub_execute_steps sub_cancel_steps)
  from pool_steps_star [OF assms(1) this] obtain xs where "su_stored w' = su_stored w @ map (redact (secret_variants v)) xs"
    using stored_redacted by blast
  with assms(2,4) obtain x where x: "content = redact (secret_variants v) x" by auto
  have "[] \<notin> set (secret_variants v)" "form \<in> set (secret_variants v)"
    using assms(5,6) secret_forms_nonempty by (auto simp: secret_variants_def set_variants)
  moreover have "plain_word form" using assms(7) secret_forms_plain [OF assms(6)] by blast
  ultimately show ?thesis unfolding x using assms(8) by (intro redact_removes) simp_all
qed

text \<open>An execution of a process that prints its secret in two forms and fails.\<close>

definition demo_env :: "unit process_env" where
  "demo_env = \<lparr>pe_run = \<lambda>_ _ _ _. ret (Ended 0 [] []),
     pe_put = \<lambda>content media kind. ret \<lparr>ar_id = ''a'', ar_kind = kind, ar_uri = ''u'', ar_sha = None, ar_media = None, ar_size = None, ar_created = 0\<rparr>,
     pe_spawn = \<lambda>_ _ _. ret 0, pe_talk = \<lambda>_ _ _. ret (Some (1, ''key=s3cr/t'', ''s3cr%2Ft'')), pe_finish = \<lambda>_. ret ([], []),
     pe_running = \<lambda>_ _. False, pe_terminate = \<lambda>_. ret (), pe_decode = \<lambda>s. s, pe_dumps = \<lambda>_. ''{}'', pe_parse = \<lambda>_. Inl ''no'',
     pe_environ = [], pe_upper = \<lambda>s. s, pe_cwd = []\<rparr>"

definition demo_sub :: sub_verifier where
  "demo_sub = \<lparr>sv_manifest = \<lparr>mf_id = ''v'', mf_revision = 1, mf_type = ''project/subprocess'', mf_runtime = ''python'', mf_entrypoint = [''check''],
       mf_capabilities = \<lparr>ca_hosts = [], ca_read = [''/''], ca_write = [], ca_secrets = [''K'']\<rparr>, mf_effects = False, mf_container = None\<rparr>,
     sv_timeout = 300, sv_max = 1000, sv_secrets = [(''K'', ''s3cr/t'')]\<rparr>"

definition demo_verify :: verify_request where
  "demo_verify = \<lparr>vq_run = ''r'', vq_node = ''n'', vq_attempt = ''a'', vq_directory = ''/work'', vq_artifacts = ''/out'', vq_key = None, vq_payload = []\<rparr>"

definition demo_process :: "unit sub_world" where
  "demo_process = \<lparr>su_active = None, su_ext = (), su_stored = []\<rparr>"

definition demo_stored :: "string list" where
  "demo_stored = su_stored (snd (run_thread (sub_execute demo_env (ret True) demo_sub demo_verify) demo_process))"

lemma demo_stored_value: "demo_stored = [''key=[REDACTED]'', ''[REDACTED]'']"
  by code_simp

theorem stored_output_hides_secrets_witness:
  "demo_stored = [''key=[REDACTED]'', ''[REDACTED]''] \<and> list_all (\<lambda>content. \<not> occurs_in ''s3cr%2Ft'' content) demo_stored"
  unfolding list_all_iff
proof (intro conjI ballI)
  show "demo_stored = [''key=[REDACTED]'', ''[REDACTED]'']" by (rule demo_stored_value)
  fix content assume content: "content \<in> set demo_stored"
  have "su_stored demo_process = []" "''s3cr/t'' \<in> snd ` set (sv_secrets demo_sub)" by (simp_all add: demo_process_def demo_sub_def)
  moreover have "''s3cr%2Ft'' \<in> set (secret_forms ''s3cr/t'')" "\<not> occurs_in ''s3cr%2Ft'' ''REDACTED''" by code_simp+
  ultimately show "\<not> occurs_in ''s3cr%2Ft'' content"
    using stored_output_hides_secrets [OF pool_alone _ _ content [unfolded demo_stored_def], of demo_env demo_sub] by auto
qed

text \<open>
  What the verifier reports is not redacted: the text that is parsed is, but a parser may bring back what an escape hides in it.
\<close>

lemma reported_result_is_as_parsed:
  assumes "pe_parse P (redact_bytes P v out) = Inr r" and "int (length out) + int (length err) \<le> sv_max v"
    and "run_thread (sub_result P v 0 out err) w = (Inr x, w')"
  shows "vr_summary (vo_result x) = vr_summary r \<and> vr_failures (vo_result x) = vr_failures r"
  using assms by (auto simp: sub_result_def Let_def op_defs split: prod.splits sum.splits)

text \<open>\<open>cancel\<close> reads one slot: when one of two executions ends, the other can no longer be cancelled.\<close>

lemma cancel_misses_second_execution:
  assumes "su_active w = None"
  shows "run_thread (sub_cancel P) w = (Inr (cancelled_outcome ''project Verifier is no longer running''), w)"
  using assms by (simp add: sub_cancel_def op_defs)

section \<open>Commands\<close>

lemma error_of_command:
  assumes "command_error P code message out err exit w = (Inr x, w')"
  shows "vr_status (co_result x) = VS_Error \<and> co_exit x = exit \<and> vr_summary (co_result x) = message"
  using assms unfolding command_error_def
  by (auto elim!: bind_op_InrE simp: lift_sum_def construct_def ret_def ver_result_of_def split: sum.splits)

definition status_of_exit :: "command_outcome \<Rightarrow> bool" where
  "status_of_exit x \<longleftrightarrow> (case vr_status (co_result x) of VS_Passed \<Rightarrow> co_exit x = Some 0
     | VS_Failed \<Rightarrow> (\<exists>n. n \<noteq> 0 \<and> co_exit x = Some n) | VS_Error \<Rightarrow> True | _ \<Rightarrow> False)"

lemma command_error_status: "command_error P code message out err exit w = (Inr x, w') \<Longrightarrow> status_of_exit x"
  using error_of_command by (fastforce simp: status_of_exit_def)

lemma command_ended_status:
  assumes "command_ended P c e w = (Inr x, w')"
  shows "status_of_exit x"
proof (cases e)
  case (Timed_Out out err)
  with assms show ?thesis by (auto simp: command_ended_def intro: command_error_status)
next
  case (Ended exit out err)
  show ?thesis
  proof (cases "int (length out) + int (length err) > cm_max c")
    case True
    with assms Ended show ?thesis by (auto simp: command_ended_def intro: command_error_status)
  next
    case False
    then obtain a b where "co_result x = command_result exit (both_artifacts a b)" "co_exit x = Some exit"
      using assms Ended by (auto simp: command_ended_def construct_def lift_sum_def ret_def elim!: bind_op_InrE split: sum.splits)
    then show ?thesis by (simp add: status_of_exit_def command_result_def ver_result_of_def)
  qed
qed

text \<open>A command passes only with exit code 0 and fails only with another one; everything else is an error.\<close>

lemma command_status:
  assumes "run_command P can_start c w = (Inr x, w')"
  shows "status_of_exit x"
proof -
  obtain y where y: "(case pe_run P (cm_argv c) (cm_cwd c) (if cm_environment c = [] then None else Some (cm_environment c)) (cm_timeout c) y of
        (Inl e, y) \<Rightarrow> command_raised P e y | (Inr r, y) \<Rightarrow> command_ended P c r y) = (Inr x, w')"
    using assms unfolding run_command_def by (auto elim!: bind_op_InrE seq_op_InrE)
  obtain r z where r: "pe_run P (cm_argv c) (cm_cwd c) (if cm_environment c = [] then None else Some (cm_environment c)) (cm_timeout c) y = (r, z)"
    by fastforce
  show ?thesis
  proof (cases r)
    case (Inl e)
    with y r have "command_raised P e z = (Inr x, w')" by simp
    then show ?thesis by (cases e) (auto simp: command_raised_def raise_def intro: command_error_status)
  next
    case (Inr e)
    with y r show ?thesis by (auto intro: command_ended_status)
  qed
qed

section \<open>The adapter\<close>

text \<open>Without the files it was frozen with nothing of a verifier is called, and nothing changes; a cancellation is not checked.\<close>

lemma adapter_runs_frozen_only:
  assumes "Verifier_Repo.verify_frozen (va_sha A) (va_json A) (aw_files w) (verifier_of_node A n) k (aw_control w) = Inl e"
    and "revision_of_node A n = Inr k"
  shows "adapter_execute A run n attempt key w = (Inl e, w)"
    and "adapter_query_for A (verifier_of_node A n) k h w = (Inl e, w)"
  using assms by (simp_all add: adapter_execute_def adapter_query_for_def check_frozen_def op_defs Let_def)

text \<open>After a restart no handle is known, and with two implementations their owner cannot be found.\<close>

lemma handles_lost_after_restart:
  assumes "aw_handles w = []" and "va_implementations A = [(a, i), (b, j)]" and "im_has_poll i" and "im_has_poll j"
  shows "adapter_query A h w = (Inl (RuntimeErr ''cannot identify the external Verifier owner after recovery''), w)"
  using assms by (simp add: adapter_query_def handle_owner_def bind_op_def)

end
