(* ===== verification/Spec2Isabelle.thy ===== *)
theory Spec2Isabelle
  imports Races Reservations Aggregation Routing Redaction Start_Laws Verifier_Laws
    Artifact_Store Migrations Talk_Laws Ipc_Laws Review_Laws Session_Laws Codex_Laws Decision_Laws Github_Laws Context_Laws
    Verifier_Run_Laws
begin

text \<open>
  A model of the run engine of Graph Engineering (\<open>src/src/graph_engineering\<close>) and the properties
  that make it correct.

  The program. A task contract is compiled to a graph of nodes (\<open>models/graph.py\<close>); the runtime
  (\<open>runtime/engine.py\<close>) executes the graph: a scheduler takes one ready node at a time, starts an
  attempt, calls an Executor or a Verifier, records the result and takes the one edge whose
  condition holds; containers run branches in a thread pool (\<open>runtime/parallel.py\<close>). Everything is
  kept in one SQLite database (\<open>runtime/store.py\<close>); events go through an outbox table to a JSONL
  file (\<open>runtime/events.py\<close>). Other threads and processes change the same rows: human control
  intents, cancellation, cost calls, recovery after a crash.

  Theories and the code they model.
  \<^item> \<open>Prelude\<close>: the errors (\<open>runtime/errors.py\<close>), results as sums, JSON values, tables as lists of
    rows with keys, patterns of the identifiers.
  \<^item> \<open>Protocol\<close>, \<open>Reports\<close>: the pydantic models of \<open>models/common.py\<close>, \<open>results.py\<close>, \<open>control.py\<close>
    and \<open>report.py\<close> with their validators.
  \<^item> \<open>Graph_Model\<close>: \<open>models/graph.py\<close>, the static validation of graphs.
  \<^item> \<open>Contract\<close>, \<open>Compiler\<close>: \<open>models/contract.py\<close>, \<open>contracts/models.py\<close>, and
    \<open>compiler/execution.py\<close> from a frozen contract to its graph, with what holds of that graph.
  \<^item> \<open>Control_Store\<close>, \<open>Contracts_Repo\<close>, \<open>Run_Start\<close>, \<open>Verifier_Repo\<close>: the control plane, a second
    database with the same schema: \<open>contracts/repository.py\<close>, \<open>contracts/runs.py\<close>, the start of runs in
    \<open>delivery/coordinator.py\<close>, and \<open>verifier/lifecycle.py\<close>. \<open>Control_Steps\<close> is its step relation and the locale
    whose interpretations are its invariants; \<open>Revision_Laws\<close>, \<open>Start_Laws\<close> and \<open>Verifier_Laws\<close> hold its
    properties.
  \<^item> \<open>Text_Search\<close>, \<open>Redaction\<close>: search and replacement in strings, and the removal of secrets from what
    verifiers print (\<open>verifier/policy.py\<close>).
  \<^item> \<open>Conversation\<close>: human messages, the compiler from their text to intents, and the control service with its
    confirmations (\<open>conversation/\<close>, \<open>control/service.py\<close>); \<open>Talk_Laws\<close>: its calls in any interleaving. \<open>Rely\<close>:
    the locale for threads that rely on an invariant while others run between their steps.
  \<^item> \<open>Frames\<close>, \<open>Ipc\<close>, \<open>Ipc_Laws\<close>: the local service and its client (\<open>service/protocol.py\<close>, \<open>server.py\<close>,
    \<open>client.py\<close>): frames, validation, authorization, the table of replays, services that crash, a client that tries
    again. The gateway behind the service is a parameter: the laws hold for every gateway.
  \<^item> \<open>Review\<close>, \<open>Review_Laws\<close>: reviews in four dimensions, their verdict, runners of reviewers at the same time, the
    budget of fixes and the requirement matrix (\<open>delivery/models.py\<close>, \<open>delivery/review.py\<close>, \<open>delivery/matrix.py\<close>,
    \<open>review/coordinator.py\<close>).
  \<^item> \<open>Sessions\<close>, \<open>Session_Laws\<close>: sessions of providers, their rows, and the policy that resumes or rotates them
    (\<open>executor/types.py\<close>, \<open>runtime/sessions.py\<close>, \<open>executor/runtime.py\<close>), for any provider and any interleaving.
  \<^item> \<open>Codex\<close>, \<open>Codex_Laws\<close>: the adapter of the Codex command (\<open>adapters/codex.py\<close>): its schema, its events, its table of
    processes. Processes, files and JSON text are parameters.
  \<^item> \<open>Decisions\<close>, \<open>Decision_Laws\<close>: how a human accepts, rejects or revises what a run delivered (\<open>delivery/control.py\<close>),
    over the conversations, the contract repository and the planner.
  \<^item> \<open>Github\<close>, \<open>Github_Laws\<close>: checks and pull requests on GitHub (\<open>delivery/github.py\<close>), for any network; \<open>Owners\<close>: the locale
    for threads that own a part of the state, here the right to create a pull request.
  \<^item> \<open>Context\<close>, \<open>Context_Laws\<close>: the text a session is given, within a limit of bytes (\<open>context/builder.py\<close>), with UTF-8, and
    handoffs (\<open>context/handoff.py\<close>).
  \<^item> \<open>Verifier_Run\<close>, \<open>Verifier_Run_Laws\<close>: command and project verifiers, the adapter that calls frozen verifiers for the runtime,
    and the registry (\<open>verifier/command.py\<close>, \<open>subprocess.py\<close>, \<open>runtime.py\<close>, \<open>registry.py\<close>), with the capabilities and manifests
    of \<open>verifier/types.py\<close>. Processes, the parser of their output and the artifact store are parameters.
  \<^item> \<open>Artifact_Store\<close>: \<open>runtime/artifacts.py\<close> as steps over shared files, with crashes, and \<open>runtime/frozen.py\<close>.
  \<^item> \<open>Schema\<close>, \<open>Schema_Scripts\<close>, \<open>Schema_Laws\<close>, \<open>Migrations\<close>: the statements SQLite is given by the ten
    migration scripts at the end of \<open>runtime/store.py\<close>, the scripts, which databases accept them, and
    \<open>migrate\<close> with its ledger.
  \<^item> \<open>Threads\<close>: steps of threads and the thread pool of a container.
  \<^item> \<open>Store\<close>, \<open>Outbox\<close>: the tables, transactions with rollback, outbox and event file.
  \<^item> \<open>Engine_Base\<close>, \<open>Parallel\<close>, \<open>Engine\<close>, \<open>Engine_Control\<close>: every operation of \<open>LocalRuntime\<close> and
    of \<open>ParallelCoordinator\<close>, in the order of the code.
  \<^item> \<open>Steps\<close>, \<open>System\<close>: the step relation of the system: any number of calls in flight, each a
    thread of atomic steps, a clock, and crashes at any point.
  \<^item> \<open>Writes\<close>: the locales that say what every transaction of the engine writes; each invariant is
    an interpretation of them. \<open>Journal\<close>, \<open>Event_Log\<close>, \<open>Effects\<close>, \<open>Budgets\<close>, \<open>Run_Rows\<close> are such
    invariants; \<open>Samples\<close> holds the concrete run of the witnesses.
  \<^item> \<open>Safety\<close>, \<open>Attempts\<close>, \<open>Ending\<close>, \<open>Control_Laws\<close>, \<open>Stopping\<close>, \<open>Recovery\<close>, \<open>Reservations\<close>,
    \<open>Aggregation\<close>, \<open>Routing\<close>, \<open>Progress\<close>: properties of the engine. \<open>Races\<close> holds two
    interleavings that the code does not rule out.

  How the code is modelled. A transaction is a function from the database to a result and the
  database after it; an exception rolls it back. A method that opens several transactions, or calls
  an Executor between two of them, is a thread whose steps are its transactions, so the system
  interleaves calls at the grain at which SQLite (\<open>BEGIN IMMEDIATE\<close>) does. The outside world (Executor,
  Verifier, hashes, uuids) is the record \<open>env\<close>; theorems about the database ask only that it does
  not write the tables (\<open>env_quiet\<close>). Strings are lists of UTF-8 bytes, integers are \<open>int\<close>,
  costs are rationals, the clock counts microseconds, identifiers drawn by \<open>uuid4\<close> are a counter.
  Loops that may run for ever have fuel, and running out of it is a value of its own, distinct from
  every result of the code. Columns that are only recorded (created_at and the like), telemetry
  spans and the text of SQL are left out; foreign keys always hold in the model because rows are
  inserted in the order of their references.

  Not modelled. Containers and HTTP pipelines as verifiers (\<open>verifier/container.py\<close>, \<open>http_pipeline.py\<close>), \<open>executor/process.py\<close>, \<open>cli.py\<close>, the
  user interface, the MCP server, telemetry and the discovery of repositories are input and output
  around the engine; \<open>service/gateway.py\<close>, \<open>service/snapshot.py\<close> and \<open>delivery/report.py\<close> put the operations and rows
  modelled here together for a reader. The manifest lists them.
\<close>

end
